(* ===== verification/SL_Prelude.thy ===== *)
theory SL_Prelude
  imports Complex_Main "HOL-Library.AList" "HOL-Library.List_Lexorder"
    "HOL-Library.Char_ord" "HOL-Library.Product_Lexorder" "HOL-Library.Sublist"
begin

text \<open>
  Shared vocabulary of the development: the values a Python program passes around
  (JSON-like data, insertion-ordered dictionaries, raised exceptions), the coercions the
  source applies to them, and the interfaces several components implement: an invariant
  kept by every step, a verdict that no later step may change, a message whose redelivery
  is harmless, a log that absorbs what it accepted, a monotone usage counter with a ceiling.
\<close>

section \<open>Collections of facts\<close>

named_theorems py_simps \<open>evaluation rules for Python values\<close>
named_theorems inv_intros \<open>operations that keep a component's invariant\<close>
named_theorems frame_simps \<open>what an operation leaves unchanged\<close>

section \<open>Raised exceptions as values\<close>

datatype exn =
    TypeError
  | ValueError
  | KeyError
  | AttributeError
  | DoesNotExist
  | ValidationError string
  | OverflowError
  | RuntimeError string
  | CheckpointResumeError string
  | PlanValidationError string

type_synonym 'a res = "exn + 'a"

definition rbind :: "'a res \<Rightarrow> ('a \<Rightarrow> 'b res) \<Rightarrow> 'b res" where
  "rbind m f = (case m of Inl e \<Rightarrow> Inl e | Inr x \<Rightarrow> f x)"

lemma rbind_simps [simp]:
  "rbind (Inl e) f = Inl e"
  "rbind (Inr x) f = f x"
  by (simp_all add: rbind_def)

lemma rbind_Inr_iff: "rbind m f = Inr y \<longleftrightarrow> (\<exists>x. m = Inr x \<and> f x = Inr y)"
  by (cases m) auto

text \<open>A call that raises inside a transaction or under a lock leaves the state as it was.\<close>

definition or_same :: "'s \<Rightarrow> 's res \<Rightarrow> 's" where
  "or_same s r = (case r of Inl _ \<Rightarrow> s | Inr s' \<Rightarrow> s')"

lemma or_same_simps [simp]:
  "or_same s (Inl e) = s"
  "or_same s (Inr s') = s'"
  by (simp_all add: or_same_def)

fun map_res :: "('a \<Rightarrow> 'b res) \<Rightarrow> 'a list \<Rightarrow> 'b list res" where
  "map_res f [] = Inr []"
| "map_res f (x # xs) = rbind (f x) (\<lambda>y. rbind (map_res f xs) (\<lambda>ys. Inr (y # ys)))"

lemma map_res_Inr:
  assumes "\<And>x. x \<in> set xs \<Longrightarrow> f x = Inr (g x)"
  shows "map_res f xs = Inr (map g xs)"
  using assms by (induction xs) auto

lemma set_map_filter: "y \<in> set (List.map_filter f xs) \<longleftrightarrow> (\<exists>x \<in> set xs. f x = Some y)"
  by (force simp: List.map_filter_def)

section \<open>Python values\<close>

text \<open>
  Floats are exact rationals with the three special values; dictionaries keep their
  insertion order, so they are association lists and are updated with \<open>AList.update\<close>
  (replace in place, otherwise append) and \<open>AList.delete\<close>.
\<close>

datatype pyfloat = Fin rat | PosInf | NegInf | NaN

datatype py =
    PNone
  | PBool bool
  | PInt int
  | PFloat pyfloat
  | PStr string
  | PList "py list"
  | PDict "(string \<times> py) list"

type_synonym pydict = "(string \<times> py) list"

fun truthy :: "py \<Rightarrow> bool" where
  "truthy PNone = False"
| "truthy (PBool b) = b"
| "truthy (PInt i) = (i \<noteq> 0)"
| "truthy (PFloat f) = (f \<noteq> Fin 0)"
| "truthy (PStr s) = (s \<noteq> [])"
| "truthy (PList xs) = (xs \<noteq> [])"
| "truthy (PDict d) = (d \<noteq> [])"

definition py_or :: "py \<Rightarrow> py \<Rightarrow> py" where
  "py_or a b = (if truthy a then a else b)"

definition dget :: "pydict \<Rightarrow> string \<Rightarrow> py" where
  "dget d k = (case map_of d k of None \<Rightarrow> PNone | Some v \<Rightarrow> v)"

definition dget_default :: "pydict \<Rightarrow> string \<Rightarrow> py \<Rightarrow> py" where
  "dget_default d k v0 = (case map_of d k of None \<Rightarrow> v0 | Some v \<Rightarrow> v)"

fun is_dict :: "py \<Rightarrow> bool" where
  "is_dict (PDict d) = True"
| "is_dict _ = False"

fun dict_of :: "py \<Rightarrow> pydict" where
  "dict_of (PDict d) = d"
| "dict_of _ = []"

fun str_of :: "py \<Rightarrow> string option" where
  "str_of (PStr s) = Some s"
| "str_of _ = None"

lemma dget_Nil [simp]: "dget [] k = PNone"
  by (simp add: dget_def)

lemma dget_Cons [simp]: "dget ((k', v) # d) k = (if k' = k then v else dget d k)"
  by (simp add: dget_def)

lemma dget_update: "dget (AList.update k v d) k' = (if k = k' then v else dget d k')"
  by (simp add: dget_def update_conv')

lemma py_or_truthy [py_simps]: "truthy a \<Longrightarrow> py_or a b = a"
  by (simp add: py_or_def)

lemma py_or_falsy [py_simps]: "\<not> truthy a \<Longrightarrow> py_or a b = b"
  by (simp add: py_or_def)

section \<open>Decimal text and integers\<close>

definition digit_val :: "char \<Rightarrow> int option" where
  "digit_val c = (let n = int (of_char c :: nat) in if 48 \<le> n \<and> n \<le> 57 then Some (n - 48) else None)"

text \<open>
  \<open>int("...")\<close>: digits, where a single underscore may stand between two digits.
  The flag says whether the previous character was a digit.
\<close>

fun digits_value :: "string \<Rightarrow> int \<Rightarrow> bool \<Rightarrow> int option" where
  "digits_value [] acc prev = (if prev then Some acc else None)"
| "digits_value (c # cs) acc prev =
     (if c = CHR ''_'' then (if prev then digits_value cs acc False else None)
      else case digit_val c of None \<Rightarrow> None | Some d \<Rightarrow> digits_value cs (acc * 10 + d) True)"

definition is_space :: "char \<Rightarrow> bool" where
  "is_space c = (let n = (of_char c :: nat) in n = 32 \<or> (9 \<le> n \<and> n \<le> 13) \<or> (28 \<le> n \<and> n \<le> 31))"

definition py_strip :: "string \<Rightarrow> string" where
  "py_strip s = rev (dropWhile is_space (rev (dropWhile is_space s)))"

definition parse_int :: "string \<Rightarrow> int option" where
  "parse_int s =
     (case py_strip s of
        [] \<Rightarrow> None
      | c # cs \<Rightarrow>
          if c = CHR ''-'' then map_option uminus (digits_value cs 0 False)
          else if c = CHR ''+'' then digits_value cs 0 False
          else digits_value (c # cs) 0 False)"

definition trunc_rat :: "rat \<Rightarrow> int" where
  "trunc_rat r = (if r < 0 then - \<lfloor>- r\<rfloor> else \<lfloor>r\<rfloor>)"

fun py_int :: "py \<Rightarrow> int res" where
  "py_int (PInt i) = Inr i"
| "py_int (PBool b) = Inr (if b then 1 else 0)"
| "py_int (PFloat (Fin r)) = Inr (trunc_rat r)"
| "py_int (PFloat NaN) = Inl ValueError"
| "py_int (PFloat _) = Inl OverflowError"
| "py_int (PStr s) = (case parse_int s of None \<Rightarrow> Inl ValueError | Some i \<Rightarrow> Inr i)"
| "py_int _ = Inl TypeError"

text \<open>
  \<open>float("...")\<close>: an optional sign, \<open>inf\<close>, \<open>infinity\<close> or \<open>nan\<close> in any case, or digits
  with an optional fraction and an optional decimal exponent.
\<close>

definition lower_char :: "char \<Rightarrow> char" where
  "lower_char c = (let n = (of_char c :: nat) in if 65 \<le> n \<and> n \<le> 90 then char_of (n + 32) else c)"

definition split_at :: "(char \<Rightarrow> bool) \<Rightarrow> string \<Rightarrow> string \<times> string option" where
  "split_at p s = (takeWhile (\<lambda>c. \<not> p c) s,
     (case dropWhile (\<lambda>c. \<not> p c) s of [] \<Rightarrow> None | _ # r \<Rightarrow> Some r))"

definition signed :: "string \<Rightarrow> bool \<times> string" where
  "signed s = (case s of [] \<Rightarrow> (False, [])
     | c # cs \<Rightarrow> if c = CHR ''-'' then (True, cs) else if c = CHR ''+'' then (False, cs) else (False, s))"

definition pow10 :: "int \<Rightarrow> rat" where
  "pow10 e = (if e < 0 then 1 / 10 ^ nat (- e) else 10 ^ nat e)"

definition parse_decimal :: "string \<Rightarrow> rat option" where
  "parse_decimal s =
     (let (mant, ex) = split_at (\<lambda>c. c \<in> {CHR ''e'', CHR ''E''}) s;
          (whole, frac) = split_at (\<lambda>c. c = CHR ''.'') mant;
          w = (if whole = [] then Some 0 else digits_value whole 0 False);
          f = (case frac of None \<Rightarrow> Some (0, 0)
                 | Some fr \<Rightarrow> if fr = [] then Some (0, 0)
                     else map_option (\<lambda>v. (v, int (length (filter (\<lambda>c. c \<noteq> CHR ''_'') fr))))
                            (digits_value fr 0 False));
          x = (case ex of None \<Rightarrow> Some 0
                 | Some t \<Rightarrow> (let (neg, ds) = signed t
                             in map_option (\<lambda>v. if neg then - v else v) (digits_value ds 0 False)))
      in if whole = [] \<and> (frac = None \<or> frac = Some []) then None
         else case (w, f, x) of
                (Some a, Some (b, n), Some e) \<Rightarrow> Some ((of_int a + of_int b * pow10 (- n)) * pow10 e)
              | _ \<Rightarrow> None)"

definition parse_float :: "string \<Rightarrow> pyfloat option" where
  "parse_float s =
     (let (neg, body) = signed (py_strip s); low = map lower_char body
      in if low \<in> {''inf'', ''infinity''} then Some (if neg then NegInf else PosInf)
         else if low = ''nan'' then Some NaN
         else map_option (\<lambda>r. Fin (if neg then - r else r)) (parse_decimal body))"

fun py_float :: "py \<Rightarrow> pyfloat res" where
  "py_float (PFloat f) = Inr f"
| "py_float (PInt i) = Inr (Fin (of_int i))"
| "py_float (PBool b) = Inr (Fin (if b then 1 else 0))"
| "py_float (PStr s) = (case parse_float s of None \<Rightarrow> Inl ValueError | Some f \<Rightarrow> Inr f)"
| "py_float _ = Inl TypeError"

text \<open>The source's idiom \<open>max(int(x or 0), 0)\<close>.\<close>

definition nonneg_int :: "py \<Rightarrow> int res" where
  "nonneg_int v = rbind (py_int (py_or v (PInt 0))) (\<lambda>i. Inr (max i 0))"

lemma nonneg_int_nonneg: "nonneg_int v = Inr i \<Longrightarrow> 0 \<le> i"
  by (auto simp: nonneg_int_def rbind_Inr_iff)

lemma nonneg_int_None [simp]: "nonneg_int PNone = Inr 0"
  by (simp add: nonneg_int_def py_or_def)

lemma nonneg_int_PInt [simp]: "nonneg_int (PInt i) = Inr (max i 0)"
  by (simp add: nonneg_int_def py_or_def)

text \<open>
  \<open>str(x)\<close>. The text of floats and of containers is a parameter (\<open>render\<close>): no
  definition of the development depends on it.
\<close>

fun dec_digits :: "nat \<Rightarrow> string" where
  "dec_digits n = (if n < 10 then [char_of (48 + n)]
                   else dec_digits (n div 10) @ [char_of (48 + n mod 10)])"

declare dec_digits.simps [simp del]

definition dec_int :: "int \<Rightarrow> string" where
  "dec_int i = (if i < 0 then CHR ''-'' # dec_digits (nat (- i)) else dec_digits (nat i))"

fun py_str :: "(py \<Rightarrow> string) \<Rightarrow> py \<Rightarrow> string" where
  "py_str render (PStr s) = s"
| "py_str render (PInt i) = dec_int i"
| "py_str render (PBool b) = (if b then ''True'' else ''False'')"
| "py_str render PNone = ''None''"
| "py_str render v = render v"

section \<open>Texts and sets of texts\<close>

text \<open>\<open>v in S\<close> for a set of texts: hashing a list or a dictionary raises.\<close>

definition in_texts :: "py \<Rightarrow> string set \<Rightarrow> bool res" where
  "in_texts v S =
     (case v of PStr s \<Rightarrow> Inr (s \<in> S) | PList _ \<Rightarrow> Inl TypeError | PDict _ \<Rightarrow> Inl TypeError | _ \<Rightarrow> Inr False)"

lemma in_texts_True: "in_texts v S = Inr True \<longleftrightarrow> (\<exists>s. v = PStr s \<and> s \<in> S)"
  by (auto simp: in_texts_def split: py.split)

lemma in_texts_PStr [simp]: "in_texts (PStr s) S = Inr (s \<in> S)"
  by (simp add: in_texts_def)

lemma in_texts_PNone [simp]: "in_texts PNone S = Inr False"
  by (simp add: in_texts_def)

text \<open>\<open>str(v or "")\<close>\<close>

definition text_or_empty :: "(py \<Rightarrow> string) \<Rightarrow> py \<Rightarrow> string" where
  "text_or_empty repr v = py_str repr (py_or v (PStr []))"

lemma text_or_empty_simps [simp]:
  "text_or_empty repr (PStr s) = s" "text_or_empty repr PNone = []"
  by (simp_all add: text_or_empty_def py_or_def)

text \<open>A strip leaves no space at either end.\<close>

lemma py_strip_idem [simp]: "py_strip (py_strip s) = py_strip s"
proof -
  have drop: "dropWhile P (dropWhile P xs) = dropWhile P xs" for P :: "char \<Rightarrow> bool" and xs
    by (induction xs) auto
  have keep: "dropWhile P (rev (dropWhile P (rev (dropWhile P xs)))) = rev (dropWhile P (rev (dropWhile P xs)))"
    for P :: "char \<Rightarrow> bool" and xs
  proof (cases "dropWhile P xs")
    case (Cons y ys)
    then have "\<not> P y" by (metis dropWhile_eq_Cons_conv)
    have "dropWhile P (rev ys @ [y]) = dropWhile P (rev ys) @ [y]"
      using \<open>\<not> P y\<close> by (induction ys rule: rev_induct) auto
    then show ?thesis using \<open>\<not> P y\<close> by (simp add: Cons)
  next
    case Nil
    then show ?thesis by (simp only: Nil) simp
  qed
  show ?thesis by (simp add: py_strip_def keep drop)
qed

lemma set_py_strip: "set (py_strip s) \<subseteq> set s"
  unfolding py_strip_def set_rev
  by (rule subsetI, drule set_dropWhileD, simp only: set_rev, erule set_dropWhileD)

lemma length_py_strip: "length (py_strip s) \<le> length s"
  unfolding py_strip_def length_rev
  by (rule order_trans [OF length_dropWhile_le]) (simp add: length_dropWhile_le)

text \<open>ASCII letters and digits; \<open>str.isascii\<close>.\<close>

definition is_alnum :: "char \<Rightarrow> bool" where
  "is_alnum c = (let n = (of_char c :: nat)
     in (48 \<le> n \<and> n \<le> 57) \<or> (65 \<le> n \<and> n \<le> 90) \<or> (97 \<le> n \<and> n \<le> 122))"

definition is_ascii :: "string \<Rightarrow> bool" where
  "is_ascii s = list_all (\<lambda>c. (of_char c :: nat) < 128) s"

text \<open>\<open>int(...)\<close> under \<open>except (TypeError, ValueError)\<close>: \<open>None\<close> is the caught error.\<close>

definition caught_int :: "py \<Rightarrow> int option res" where
  "caught_int v =
     (case py_int v of
        Inr i \<Rightarrow> Inr (Some i)
      | Inl e \<Rightarrow> if e \<in> {TypeError, ValueError} then Inr None else Inl e)"

text \<open>Iteration over a value: lists, the characters of a text, the keys of a dictionary.\<close>

fun py_iter :: "py \<Rightarrow> py list res" where
  "py_iter (PList xs) = Inr xs"
| "py_iter (PStr s) = Inr (map (\<lambda>c. PStr [c]) s)"
| "py_iter (PDict d) = Inr (map (PStr \<circ> fst) d)"
| "py_iter _ = Inl TypeError"

text \<open>Parts of a dictionary computed one after the other; the first exception ends it.\<close>

fun gather :: "'a list res list \<Rightarrow> 'a list res" where
  "gather [] = Inr []"
| "gather (m # ms) = rbind m (\<lambda>xs. rbind (gather ms) (\<lambda>ys. Inr (xs @ ys)))"

text \<open>\<open>[item for item in values if item in S]\<close>\<close>

fun keep_texts :: "string set \<Rightarrow> py list \<Rightarrow> py list res" where
  "keep_texts S [] = Inr []"
| "keep_texts S (v # vs) =
     rbind (in_texts v S) (\<lambda>b. rbind (keep_texts S vs) (\<lambda>ws. Inr (if b then v # ws else ws)))"

definition kept_if :: "string \<Rightarrow> py \<Rightarrow> string set \<Rightarrow> pydict res" where
  "kept_if k v S = rbind (in_texts v S) (\<lambda>b. Inr (if b then [(k, v)] else []))"

definition bounded :: "(py \<Rightarrow> string) \<Rightarrow> py \<Rightarrow> nat \<Rightarrow> string" where
  "bounded repr v limit = take limit (py_strip (text_or_empty repr v))"

lemma length_bounded [simp]: "length (bounded repr v n) \<le> n"
  by (simp add: bounded_def)

definition keep_first :: "'a list \<Rightarrow> 'a list" where
  "keep_first xs = rev (remdups (rev xs))"

lemma set_keep_first [simp]: "set (keep_first xs) = set xs"
  by (simp add: keep_first_def)

lemma distinct_keep_first [simp]: "distinct (keep_first xs)"
  by (simp add: keep_first_def)

lemma keep_first_distinct [simp]: "distinct xs \<Longrightarrow> keep_first xs = xs"
  by (simp add: keep_first_def distinct_remdups_id)

section \<open>Dictionaries with counters\<close>

text \<open>\<open>defaultdict(int)\<close>: a missing key reads 0, and an increment stores it.\<close>

definition cget :: "('k \<times> int) list \<Rightarrow> 'k \<Rightarrow> int" where
  "cget d k = (case map_of d k of None \<Rightarrow> 0 | Some n \<Rightarrow> n)"

definition cinc :: "'k \<Rightarrow> ('k \<times> int) list \<Rightarrow> ('k \<times> int) list" where
  "cinc k d = AList.update k (cget d k + 1) d"

lemma cget_Nil [simp]: "cget [] k = 0"
  by (simp add: cget_def)

lemma cget_update [simp]: "cget (AList.update k v d) k' = (if k = k' then v else cget d k')"
  by (simp add: cget_def update_conv')

lemma cget_cinc [simp]: "cget (cinc k d) k' = (if k = k' then cget d k + 1 else cget d k')"
  by (simp add: cinc_def)

lemma distinct_cinc [simp]: "distinct (map fst d) \<Longrightarrow> distinct (map fst (cinc k d))"
  by (simp add: cinc_def distinct_update)

section \<open>Sorted views of sets\<close>

lemma sorted_list_of_set_roundtrip [simp]:
  "finite A \<Longrightarrow> set (sorted_list_of_set A) = A"
  by simp

section \<open>Interfaces\<close>

text \<open>A step function with an invariant.\<close>

locale step_invariant =
  fixes step :: "'s \<Rightarrow> 'e \<Rightarrow> 's"
    and inv :: "'s \<Rightarrow> bool"
  assumes inv_step: "inv s \<Longrightarrow> inv (step s e)"
begin

lemma inv_run: "inv s \<Longrightarrow> inv (foldl step s es)"
  by (induction es arbitrary: s) (auto intro: inv_step)

lemma inv_prefix: "inv s \<Longrightarrow> prefix ds es \<Longrightarrow> inv (foldl step s ds)"
  by (rule inv_run)

end

text \<open>
  A verdict that, once reached, no step changes. A key may leave the store altogether
  (\<open>gone\<close>), but it then never comes back with another verdict.
\<close>

locale settled_view =
  fixes step :: "'s \<Rightarrow> 'e \<Rightarrow> 's"
    and settled :: "'s \<Rightarrow> 'k \<Rightarrow> 'v option"
    and gone :: "'s \<Rightarrow> 'k \<Rightarrow> bool"
  assumes settled_step: "settled s k = Some v \<Longrightarrow> settled (step s e) k = Some v \<or> gone (step s e) k"
    and gone_step: "gone s k \<Longrightarrow> gone (step s e) k"
    and gone_unsettled: "gone s k \<Longrightarrow> settled s k = None"
begin

lemma gone_run: "gone s k \<Longrightarrow> gone (foldl step s es) k"
  by (induction es arbitrary: s) (auto intro: gone_step)

lemma settled_run:
  "settled s k = Some v \<Longrightarrow> settled (foldl step s es) k = Some v \<or> gone (foldl step s es) k"
proof (induction es arbitrary: s)
  case Nil
  then show ?case by simp
next
  case (Cons e es)
  from settled_step [OF Cons.prems, of e] show ?case
    using Cons.IH gone_run by auto
qed

lemma settled_unique:
  assumes "settled (foldl step s es) k = Some v"
    and "settled (foldl step s (es @ fs)) k = Some w"
  shows "w = v"
  using settled_run [OF assms(1), of fs] assms(2) gone_unsettled by fastforce

end

text \<open>A consumer of at-least-once messages.\<close>

locale at_least_once =
  fixes deliver :: "'s \<Rightarrow> 'm \<Rightarrow> 's"
  assumes redeliver: "deliver (deliver s m) m = deliver s m"
begin

lemma redeliver_many: "foldl deliver s (replicate (Suc n) m) = deliver s m"
  by (induction n arbitrary: s) (simp_all add: redeliver)

end

text \<open>
  A log that absorbs what it has accepted: an absorbed message leaves it as it is, and stays
  absorbed whatever else is delivered.
\<close>

locale absorbing_log =
  fixes deliver :: "'s \<Rightarrow> 'm \<Rightarrow> 's"
    and absorbed :: "'s \<Rightarrow> 'm \<Rightarrow> bool"
  assumes absorbed_noop: "absorbed s m \<Longrightarrow> deliver s m = s"
    and absorbed_step: "absorbed s m \<Longrightarrow> absorbed (deliver s m') m"
begin

lemma absorbed_run: "absorbed s m \<Longrightarrow> absorbed (foldl deliver s ms) m"
  by (induction ms arbitrary: s) (auto intro: absorbed_step)

lemma absorbed_later: "absorbed s m \<Longrightarrow> deliver (foldl deliver s ms) m = foldl deliver s ms"
  by (rule absorbed_noop) (rule absorbed_run)

end

text \<open>A meter that only goes up, with a fixed ceiling (none when the ceiling is 0).\<close>

locale usage_meter =
  fixes spend :: "'s \<Rightarrow> 'a \<Rightarrow> 's"
    and level :: "'s \<Rightarrow> int"
    and ceiling :: "'s \<Rightarrow> int"
  assumes level_mono: "level s \<le> level (spend s a)"
    and ceiling_fixed: "ceiling (spend s a) = ceiling s"
begin

definition exhausted :: "'s \<Rightarrow> bool" where
  "exhausted s \<longleftrightarrow> ceiling s > 0 \<and> level s \<ge> ceiling s"

lemma ceiling_run: "ceiling (foldl spend s as) = ceiling s"
  by (induction as arbitrary: s) (simp_all add: ceiling_fixed)

lemma level_run: "level s \<le> level (foldl spend s as)"
proof (induction as arbitrary: s)
  case (Cons a as)
  then show ?case using level_mono [of s a] by (metis foldl_Cons order_trans)
qed simp

lemma exhausted_run: "exhausted s \<Longrightarrow> exhausted (foldl spend s as)"
  using level_run [of s as] by (simp add: exhausted_def ceiling_run)

lemma unlimited_never_exhausted: "ceiling s \<le> 0 \<Longrightarrow> \<not> exhausted (foldl spend s as)"
  by (simp add: exhausted_def ceiling_run)

end

lemma map_of_sort_key: "distinct (map fst d) \<Longrightarrow> map_of (sort_key fst d) = map_of d"
  by (rule map_of_inject_set [THEN iffD2]) (simp_all add: distinct_map distinct_sort inj_on_def)

end
