(* ===== verification/Execution_Queue.thy ===== *)
theory Execution_Queue
  imports SL_Prelude
begin

text \<open>
  The LensNode-local execution queue of \<open>lensnode/lensnode/execution_queue.py\<close>:
  a waiting deque and one counter of active work per execution class. A future is an
  identifier (\<open>nat\<close>), resolved when it is in \<open>admitted\<close>. Every method runs under the
  queue's lock, so it is one step; \<open>acquire\<close> is two: the entry (append and admit) and,
  when the awaiting task is cancelled, the clean-up.
\<close>

datatype exec_class = STANDARD | DELEGATED | EXCLUSIVE

type_synonym request = "nat \<times> exec_class"

record exec_queue =
  max_standard_concurrency :: int
  max_delegated_concurrency :: int
  max_exclusive_concurrency :: int
  waiting :: "request list"
  active_standard :: int
  active_delegated :: int
  active_exclusive :: int
  exclusive_barrier :: bool
  admitted :: "nat list"

definition make_queue :: "int \<Rightarrow> int \<Rightarrow> bool \<Rightarrow> exec_queue" where
  "make_queue max_std max_excl barrier =
     \<lparr>max_standard_concurrency = max 1 max_std,
      max_delegated_concurrency = max 1 max_std,
      max_exclusive_concurrency = max 1 max_excl,
      waiting = [], active_standard = 0, active_delegated = 0, active_exclusive = 0,
      exclusive_barrier = barrier, admitted = []\<rparr>"

text \<open>
  The loop shared by the three admission methods: pop each waiting request, admit those
  of the class while \<open>can\<close> allows another one on top of the active count, keep the rest
  in order.
\<close>

fun drain :: "exec_class \<Rightarrow> (int \<Rightarrow> bool) \<Rightarrow> request list \<Rightarrow> int \<Rightarrow> request list \<times> int \<times> nat list" where
  "drain c can [] n = ([], n, [])"
| "drain c can ((i, d) # ws) n =
     (if d = c \<and> can n
      then (let (ws', n', is) = drain c can ws (n + 1) in (ws', n', i # is))
      else (let (ws', n', is) = drain c can ws n in ((i, d) # ws', n', is)))"

definition admit_standard_waiters :: "exec_queue \<Rightarrow> exec_queue" where
  "admit_standard_waiters q =
     (if exclusive_barrier q \<and>
         (active_exclusive q > 0 \<or> (\<exists>r \<in> set (waiting q). snd r = EXCLUSIVE))
      then q
      else let (ws, n, is) = drain STANDARD (\<lambda>n. n < max_standard_concurrency q)
                               (waiting q) (active_standard q)
           in q\<lparr>waiting := ws, active_standard := n, admitted := admitted q @ is\<rparr>)"

definition admit_delegated_waiters :: "exec_queue \<Rightarrow> exec_queue" where
  "admit_delegated_waiters q =
     (if exclusive_barrier q \<and> active_exclusive q > 0
      then q
      else let (ws, n, is) = drain DELEGATED (\<lambda>n. n < max_delegated_concurrency q)
                               (waiting q) (active_delegated q)
           in q\<lparr>waiting := ws, active_delegated := n, admitted := admitted q @ is\<rparr>)"

definition admit_exclusive_waiters :: "exec_queue \<Rightarrow> exec_queue" where
  "admit_exclusive_waiters q =
     (let (ws, n, is) = drain EXCLUSIVE
            (\<lambda>n. n < max_exclusive_concurrency q \<and>
                 (\<not> exclusive_barrier q \<or> (active_standard q = 0 \<and> active_delegated q = 0)))
            (waiting q) (active_exclusive q)
      in q\<lparr>waiting := ws, active_exclusive := n, admitted := admitted q @ is\<rparr>)"

definition admit_waiters :: "exec_queue \<Rightarrow> exec_queue" where
  "admit_waiters q = admit_exclusive_waiters (admit_delegated_waiters (admit_standard_waiters q))"

definition release_active :: "exec_class \<Rightarrow> exec_queue \<Rightarrow> exec_queue res" where
  "release_active c q =
     (case c of
        EXCLUSIVE \<Rightarrow>
          if active_exclusive q \<le> 0 then Inl (RuntimeError ''No exclusive LensNode work is active.'')
          else Inr (q\<lparr>active_exclusive := active_exclusive q - 1\<rparr>)
      | DELEGATED \<Rightarrow>
          if active_delegated q \<le> 0 then Inl (RuntimeError ''No delegated LensNode work is active.'')
          else Inr (q\<lparr>active_delegated := active_delegated q - 1\<rparr>)
      | STANDARD \<Rightarrow>
          if active_standard q \<le> 0 then Inl (RuntimeError ''No standard LensNode work is active.'')
          else Inr (q\<lparr>active_standard := active_standard q - 1\<rparr>))"

text \<open>\<open>acquire\<close> up to its await: the new queue and the \<open>queued\<close> flag.\<close>

definition acquire_enter :: "nat \<Rightarrow> exec_class \<Rightarrow> exec_queue \<Rightarrow> exec_queue \<times> bool" where
  "acquire_enter i c q =
     (let q' = admit_waiters (q\<lparr>waiting := waiting q @ [(i, c)]\<rparr>)
      in (q', i \<notin> set (admitted q')))"

text \<open>
  The \<open>except CancelledError\<close> clause: an admitted request gives its slot back, a
  waiting one leaves the deque (\<open>deque.remove\<close> raises when it is not there).
\<close>

definition acquire_cancel :: "nat \<Rightarrow> exec_class \<Rightarrow> exec_queue \<Rightarrow> exec_queue res" where
  "acquire_cancel i c q =
     rbind (if i \<in> set (admitted q) then release_active c q
            else if (i, c) \<in> set (waiting q) then Inr (q\<lparr>waiting := remove1 (i, c) (waiting q)\<rparr>)
            else Inl ValueError)
       (\<lambda>q'. Inr (admit_waiters q'))"

definition release :: "exec_class \<Rightarrow> exec_queue \<Rightarrow> exec_queue res" where
  "release c q = rbind (release_active c q) (\<lambda>q'. Inr (admit_waiters q'))"

datatype queue_event = Acquire nat exec_class | Cancel nat exec_class | Release exec_class

text \<open>A method that raises leaves the queue as it was.\<close>

fun queue_step :: "exec_queue \<Rightarrow> queue_event \<Rightarrow> exec_queue" where
  "queue_step q (Acquire i c) = fst (acquire_enter i c q)"
| "queue_step q (Cancel i c) = or_same q (acquire_cancel i c q)"
| "queue_step q (Release c) = or_same q (release c q)"

section \<open>One pass over the deque\<close>


definition of_class :: "exec_class \<Rightarrow> request list \<Rightarrow> request list" where
  "of_class c ws = filter (\<lambda>r. snd r = c) ws"

lemma of_class_simps [simp]:
  "of_class c [] = []"
  "of_class c (r # ws) = (if snd r = c then r # of_class c ws else of_class c ws)"
  "of_class c (ws @ us) = of_class c ws @ of_class c us"
  by (simp_all add: of_class_def)

lemma set_of_class: "set (of_class c ws) = {r \<in> set ws. snd r = c}"
  by (auto simp: of_class_def)

definition drained :: "exec_class \<Rightarrow> (int \<Rightarrow> bool) \<Rightarrow> request list \<Rightarrow> int \<Rightarrow> request list \<Rightarrow> int \<Rightarrow> nat list \<Rightarrow> nat \<Rightarrow> bool" where
  "drained c can ws n ws' n' is k \<longleftrightarrow>
     k \<le> length (of_class c ws) \<and> n' = n + int k \<and> is = map fst (take k (of_class c ws)) \<and>
     of_class c ws' = drop k (of_class c ws) \<and>
     (\<forall>d. d \<noteq> c \<longrightarrow> of_class d ws' = of_class d ws) \<and>
     (\<forall>j < k. can (n + int j)) \<and> (of_class c ws' = [] \<or> \<not> can n')"

lemma drained_hit:
  assumes "drained c can ws (n + 1) ws1 n1 is1 k" "can n"
  shows "drained c can ((i, c) # ws) n ws1 n1 (i # is1) (Suc k)"
proof -
  have "can (n + int j)" if "j < Suc k" for j
    using assms that by (cases j) (auto simp: drained_def algebra_simps)
  then show ?thesis using assms by (auto simp: drained_def)
qed

lemma drained_skip:
  assumes "drained c can ws n ws1 n1 is1 k" "d \<noteq> c"
  shows "drained c can ((i, d) # ws) n ((i, d) # ws1) n1 is1 k"
  using assms by (auto simp: drained_def)

lemma drained_stuck:
  assumes "drained c can ws n ws1 n1 is1 k" "\<not> can n"
  shows "drained c can ((i, c) # ws) n ((i, c) # ws1) n1 is1 0"
proof -
  have "k = 0" using assms by (cases k) (auto simp: drained_def)
  then show ?thesis using assms by (simp add: drained_def)
qed

lemma drain_drained:
  assumes "drain c can ws n = (ws', n', is)"
  shows "\<exists>k. drained c can ws n ws' n' is k"
  using assms
proof (induction ws arbitrary: n ws' n' "is")
  case Nil
  then show ?case by (simp add: drained_def)
next
  case (Cons r ws)
  obtain i d where r: "r = (i, d)" by (cases r)
  show ?case
  proof (cases "d = c \<and> can n")
    case True
    obtain ws1 n1 is1 where rec: "drain c can ws (n + 1) = (ws1, n1, is1)"
      by (metis prod_cases3)
    with Cons.prems True r have "ws' = ws1" "n' = n1" "is = i # is1" by auto
    with Cons.IH [OF rec] True r show ?thesis by (auto intro: drained_hit)
  next
    case False
    obtain ws1 n1 is1 where rec: "drain c can ws n = (ws1, n1, is1)"
      by (metis prod_cases3)
    with Cons.prems False r have "ws' = (i, d) # ws1" "n' = n1" "is = is1" by auto
    with Cons.IH [OF rec] False r show ?thesis
      by (cases "d = c") (auto intro: drained_skip drained_stuck)
  qed
qed

lemma drain_ids: "drain c can ws n = (ws', n', is) \<Longrightarrow> set is \<subseteq> fst ` set ws"
  using drain_drained [of c can ws n ws' n' "is"]
  by (force simp: drained_def set_of_class dest!: in_set_takeD)

lemma drain_keeps:
  assumes "drain c can ws n = (ws', n', is)" "distinct (map fst ws)"
  shows "ws' = filter (\<lambda>r. fst r \<notin> set is) ws"
  using assms
proof (induction ws arbitrary: n ws' n' "is")
  case (Cons r ws)
  obtain i d where r: "r = (i, d)" by (cases r)
  show ?case
  proof (cases "d = c \<and> can n")
    case True
    obtain ws1 n1 is1 where rec: "drain c can ws (n + 1) = (ws1, n1, is1)"
      by (metis prod_cases3)
    have eq: "ws1 = filter (\<lambda>r. fst r \<notin> set is1) ws" using Cons.IH [OF rec] Cons.prems by simp
    have "filter (\<lambda>r. fst r \<notin> set is1) ws = filter (\<lambda>r. fst r \<notin> set (i # is1)) ws"
      using Cons.prems r by (intro filter_cong) (auto simp: image_iff)
    moreover have "ws' = ws1" "is = i # is1" using Cons.prems True rec r by auto
    ultimately show ?thesis using r eq by simp
  next
    case False
    obtain ws1 n1 is1 where rec: "drain c can ws n = (ws1, n1, is1)"
      by (metis prod_cases3)
    have eq: "ws1 = filter (\<lambda>r. fst r \<notin> set is1) ws" using Cons.IH [OF rec] Cons.prems by simp
    have "i \<notin> set is1" using drain_ids [OF rec] Cons.prems r by auto
    then show ?thesis using Cons.prems False rec r eq by auto
  qed
qed simp


section \<open>The three admission methods, uniformly\<close>

fun active :: "exec_class \<Rightarrow> exec_queue \<Rightarrow> int" where
  "active STANDARD q = active_standard q"
| "active DELEGATED q = active_delegated q"
| "active EXCLUSIVE q = active_exclusive q"

fun capacity :: "exec_class \<Rightarrow> exec_queue \<Rightarrow> int" where
  "capacity STANDARD q = max_standard_concurrency q"
| "capacity DELEGATED q = max_delegated_concurrency q"
| "capacity EXCLUSIVE q = max_exclusive_concurrency q"

text \<open>What keeps a class from being served although it has free slots.\<close>

fun held_back :: "exec_class \<Rightarrow> exec_queue \<Rightarrow> bool" where
  "held_back STANDARD q =
     (exclusive_barrier q \<and> (active EXCLUSIVE q > 0 \<or> of_class EXCLUSIVE (waiting q) \<noteq> []))"
| "held_back DELEGATED q = (exclusive_barrier q \<and> active EXCLUSIVE q > 0)"
| "held_back EXCLUSIVE q =
     (exclusive_barrier q \<and> (active STANDARD q \<noteq> 0 \<or> active DELEGATED q \<noteq> 0))"

text \<open>
  The relation between the queue before and after one admission method for class \<open>c\<close>:
  the first \<open>k\<close> waiting requests of the class are admitted, in order, nothing else moves.
\<close>

definition admits :: "exec_class \<Rightarrow> exec_queue \<Rightarrow> exec_queue \<Rightarrow> nat \<Rightarrow> bool" where
  "admits c q q' k \<longleftrightarrow>
     k \<le> length (of_class c (waiting q)) \<and>
     active c q' = active c q + int k \<and>
     of_class c (waiting q') = drop k (of_class c (waiting q)) \<and>
     admitted q' = admitted q @ map fst (take k (of_class c (waiting q))) \<and>
     (\<forall>d. d \<noteq> c \<longrightarrow> active d q' = active d q \<and> of_class d (waiting q') = of_class d (waiting q)) \<and>
     (\<forall>d. capacity d q' = capacity d q) \<and>
     exclusive_barrier q' = exclusive_barrier q \<and>
     (distinct (map fst (waiting q)) \<longrightarrow>
        waiting q' = filter (\<lambda>r. fst r \<notin> set (map fst (take k (of_class c (waiting q))))) (waiting q)) \<and>
     (k > 0 \<longrightarrow> active c q' \<le> capacity c q \<and> \<not> held_back c q) \<and>
     (of_class c (waiting q') = [] \<or> active c q' \<ge> capacity c q \<or> held_back c q)"

lemma set_nonempty_of_class: "(\<exists>r \<in> set ws. snd r = c) \<longleftrightarrow> of_class c ws \<noteq> []"
  by (auto simp: of_class_def filter_empty_conv)


lemma last_can: "\<forall>j < k. can (n + int j) \<Longrightarrow> 0 < k \<Longrightarrow> can (n + int k - 1)"
  by (drule spec [of _ "k - 1"]) (auto simp: of_nat_diff algebra_simps)

fun set_active :: "exec_class \<Rightarrow> int \<Rightarrow> exec_queue \<Rightarrow> exec_queue" where
  "set_active STANDARD n q = q\<lparr>active_standard := n\<rparr>"
| "set_active DELEGATED n q = q\<lparr>active_delegated := n\<rparr>"
| "set_active EXCLUSIVE n q = q\<lparr>active_exclusive := n\<rparr>"

lemma set_active_simps [simp]:
  "active d (set_active c n q) = (if d = c then n else active d q)"
  "capacity d (set_active c n q) = capacity d q"
  "waiting (set_active c n q) = waiting q"
  "admitted (set_active c n q) = admitted q"
  "exclusive_barrier (set_active c n q) = exclusive_barrier q"
  by (cases c; cases d; simp)+

lemma active_update_simps [simp]:
  "active d (q\<lparr>waiting := ws\<rparr>) = active d q"
  "active d (q\<lparr>admitted := is\<rparr>) = active d q"
  "capacity d (q\<lparr>waiting := ws\<rparr>) = capacity d q"
  "capacity d (q\<lparr>admitted := is\<rparr>) = capacity d q"
  by (cases d; simp)+

definition serve :: "exec_class \<Rightarrow> request list \<times> int \<times> nat list \<Rightarrow> exec_queue \<Rightarrow> exec_queue" where
  "serve c out q = (let (ws, n, is) = out
     in set_active c n (q\<lparr>waiting := ws, admitted := admitted q @ is\<rparr>))"

lemma serve_admits:
  assumes can: "\<And>m. can m \<longleftrightarrow> m < capacity c q \<and> \<not> held_back c q"
  shows "\<exists>k. admits c q (serve c (drain c can (waiting q) (active c q)) q) k"
proof -
  obtain ws n "is" where d: "drain c can (waiting q) (active c q) = (ws, n, is)"
    by (metis prod_cases3)
  from drain_drained [OF d] obtain k where k: "drained c can (waiting q) (active c q) ws n is k" ..
  note kd = k [unfolded drained_def]
  have keep: "distinct (map fst (waiting q)) \<Longrightarrow> ws = filter (\<lambda>r. fst r \<notin> set is) (waiting q)"
    by (rule drain_keeps [OF d])
  have bound: "n \<le> capacity c q \<and> \<not> held_back c q" if "k > 0"
  proof -
    have "can (active c q + int k - 1)" using kd that by (intro last_can) auto
    then show ?thesis using can kd by simp
  qed
  have stop: "of_class c ws = [] \<or> n \<ge> capacity c q \<or> held_back c q"
    using kd can [of n] by auto
  have "admits c q (serve c (ws, n, is) q) k"
    unfolding admits_def serve_def using kd keep bound stop by simp
  then show ?thesis using d by auto
qed

lemma admits_refl: "held_back c q \<Longrightarrow> admits c q q 0"
  by (simp add: admits_def)

lemma admit_standard_admits: "\<exists>k. admits STANDARD q (admit_standard_waiters q) k"
proof (cases "held_back STANDARD q")
  case True
  then have "admit_standard_waiters q = q"
    by (auto simp: admit_standard_waiters_def set_nonempty_of_class)
  then show ?thesis using admits_refl [OF True] by metis
next
  case False
  then have "admit_standard_waiters q = serve STANDARD
      (drain STANDARD (\<lambda>n. n < max_standard_concurrency q) (waiting q) (active STANDARD q)) q"
    by (auto simp: admit_standard_waiters_def set_nonempty_of_class serve_def split: prod.splits)
  with serve_admits [of "\<lambda>n. n < max_standard_concurrency q" STANDARD q] False show ?thesis
    by auto
qed

lemma admit_delegated_admits: "\<exists>k. admits DELEGATED q (admit_delegated_waiters q) k"
proof (cases "held_back DELEGATED q")
  case True
  then have "admit_delegated_waiters q = q"
    by (auto simp: admit_delegated_waiters_def)
  then show ?thesis using admits_refl [OF True] by metis
next
  case False
  then have "admit_delegated_waiters q = serve DELEGATED
      (drain DELEGATED (\<lambda>n. n < max_delegated_concurrency q) (waiting q) (active DELEGATED q)) q"
    by (auto simp: admit_delegated_waiters_def serve_def split: prod.splits)
  with serve_admits [of "\<lambda>n. n < max_delegated_concurrency q" DELEGATED q] False show ?thesis
    by auto
qed

lemma admit_exclusive_admits: "\<exists>k. admits EXCLUSIVE q (admit_exclusive_waiters q) k"
proof -
  let ?can = "\<lambda>n. n < max_exclusive_concurrency q \<and>
                 (\<not> exclusive_barrier q \<or> (active_standard q = 0 \<and> active_delegated q = 0))"
  have "admit_exclusive_waiters q = serve EXCLUSIVE
      (drain EXCLUSIVE ?can (waiting q) (active EXCLUSIVE q)) q"
    by (auto simp: admit_exclusive_waiters_def serve_def split: prod.splits)
  with serve_admits [of ?can EXCLUSIVE q] show ?thesis by auto
qed

declare active.simps [simp del] capacity.simps [simp del]


section \<open>The queue's invariant under its client protocol\<close>

text \<open>
  \<open>live\<close> lists the requests that have entered and not yet left, in arrival order. Those
  that are not admitted are the deque, the others hold the slots the counters count.
\<close>

definition queue_inv :: "exec_queue \<Rightarrow> request list \<Rightarrow> bool" where
  "queue_inv q live \<longleftrightarrow>
     distinct (map fst live) \<and>
     waiting q = filter (\<lambda>r. fst r \<notin> set (admitted q)) live \<and>
     (\<forall>c. active c q + int (length (of_class c (waiting q))) = int (length (of_class c live))) \<and>
     (\<forall>c. active c q \<le> capacity c q) \<and>
     (exclusive_barrier q \<and> active EXCLUSIVE q > 0 \<longrightarrow>
        active STANDARD q = 0 \<and> active DELEGATED q = 0)"

definition served :: "exec_class \<Rightarrow> exec_queue \<Rightarrow> bool" where
  "served c q \<longleftrightarrow> of_class c (waiting q) = [] \<or> active c q = capacity c q \<or> held_back c q"

lemma of_class_filter: "of_class c (filter P ws) = filter P (of_class c ws)"
  by (simp add: of_class_def conj_commute)

lemma queue_invD:
  assumes "queue_inv q live"
  shows "distinct (map fst live)"
    "waiting q = filter (\<lambda>r. fst r \<notin> set (admitted q)) live"
    "active c q + int (length (of_class c (waiting q))) = int (length (of_class c live))"
    "active c q \<le> capacity c q"
    "exclusive_barrier q \<Longrightarrow> active EXCLUSIVE q > 0 \<Longrightarrow> active STANDARD q = 0"
    "exclusive_barrier q \<Longrightarrow> active EXCLUSIVE q > 0 \<Longrightarrow> active DELEGATED q = 0"
  using assms unfolding queue_inv_def by blast+

lemma queue_inv_active_nonneg: "queue_inv q live \<Longrightarrow> 0 \<le> active c q"
proof -
  assume inv: "queue_inv q live"
  have "length (of_class c (waiting q)) \<le> length (of_class c live)"
    by (simp add: queue_invD(2) [OF inv] of_class_filter)
  with queue_invD(3) [OF inv, of c] show ?thesis by linarith
qed

lemma admits_keeps_rest:
  assumes "admits c q q' k"
  shows "capacity d q' = capacity d q" "exclusive_barrier q' = exclusive_barrier q"
    "d \<noteq> c \<Longrightarrow> active d q' = active d q"
    "d \<noteq> c \<Longrightarrow> of_class d (waiting q') = of_class d (waiting q)"
    "active c q \<le> active c q'"
  using assms by (auto simp: admits_def)

lemma admits_inv:
  assumes inv: "queue_inv q live" and adm: "admits c q q' k"
  shows "queue_inv q' live"
proof -
  note a = adm [unfolded admits_def] and i = queue_invD [OF inv]
  have idle: "k = 0 \<Longrightarrow> active d q' = active d q" for d
    using a by (cases "d = c") auto
  have dist: "distinct (map fst (waiting q))"
    using i(1) by (simp add: i(2) distinct_map_filter)
  then have "waiting q' = filter (\<lambda>r. fst r \<notin> set (admitted q')) live"
    using a by (simp add: i(2) conj_commute)
  moreover have "active d q' + int (length (of_class d (waiting q'))) = int (length (of_class d live))" for d
    using a i(3) [of d] by (cases "d = c") auto
  moreover have "active d q' \<le> capacity d q'" for d
    using a i(4) [of d] idle [of d] by (cases "d = c"; cases "k > 0") auto
  moreover have "active STANDARD q' = 0 \<and> active DELEGATED q' = 0"
    if "exclusive_barrier q'" "active EXCLUSIVE q' > 0"
  proof (cases "k > 0")
    case False
    then show ?thesis using idle i(5,6) that a by simp
  next
    case True
    then have "\<not> held_back c q" using a by simp
    moreover have "d \<noteq> c \<Longrightarrow> active d q' = active d q" for d using a by simp
    ultimately show ?thesis using that a by (cases c) auto
  qed
  ultimately show ?thesis using i(1) unfolding queue_inv_def by blast
qed

lemma admits_served:
  assumes "queue_inv q live" "admits c q q' k"
  shows "of_class c (waiting q') = [] \<or> active c q' = capacity c q' \<or> held_back c q"
proof -
  have "active c q' \<le> capacity c q'" using admits_inv [OF assms] by (simp add: queue_inv_def)
  then show ?thesis using assms(2) by (auto simp: admits_def)
qed

lemma admit_waiters_inv:
  assumes inv: "queue_inv q live"
  shows "queue_inv (admit_waiters q) live" and "served c (admit_waiters q)"
proof -
  obtain k1 where s1: "admits STANDARD q (admit_standard_waiters q) k1"
    using admit_standard_admits by blast
  let ?q1 = "admit_standard_waiters q"
  obtain k2 where s2: "admits DELEGATED ?q1 (admit_delegated_waiters ?q1) k2"
    using admit_delegated_admits by blast
  let ?q2 = "admit_delegated_waiters ?q1"
  obtain k3 where s3: "admits EXCLUSIVE ?q2 (admit_exclusive_waiters ?q2) k3"
    using admit_exclusive_admits by blast
  let ?q3 = "admit_exclusive_waiters ?q2"
  have i1: "queue_inv ?q1 live" by (rule admits_inv [OF inv s1])
  have i2: "queue_inv ?q2 live" by (rule admits_inv [OF i1 s2])
  have i3: "queue_inv ?q3 live" by (rule admits_inv [OF i2 s3])
  then show "queue_inv (admit_waiters q) live" by (simp add: admit_waiters_def)
  note r1 = admits_keeps_rest [OF s1] and r2 = admits_keeps_rest [OF s2] and r3 = admits_keeps_rest [OF s3]
  have excl: "active EXCLUSIVE ?q3 > 0 \<or> of_class EXCLUSIVE (waiting ?q3) \<noteq> []"
    if "active EXCLUSIVE q > 0 \<or> of_class EXCLUSIVE (waiting q) \<noteq> []"
  proof (cases "k3 = 0")
    case True
    then have "active EXCLUSIVE ?q3 = active EXCLUSIVE ?q2"
      "of_class EXCLUSIVE (waiting ?q3) = of_class EXCLUSIVE (waiting ?q2)"
      using s3 by (auto simp: admits_def)
    then show ?thesis using that r1(3,4) [of EXCLUSIVE] r2(3,4) [of EXCLUSIVE] by simp
  next
    case False
    then show ?thesis using s3 queue_inv_active_nonneg [OF i2, of EXCLUSIVE] by (auto simp: admits_def)
  qed
  have "served STANDARD ?q3"
    using admits_served [OF inv s1] excl r1(1,2) r2(2) r3(2) r2(1,3,4) [of STANDARD] r3(1,3,4) [of STANDARD]
    by (auto simp: served_def)
  moreover have "served DELEGATED ?q3"
    using admits_served [OF i1 s2] r2(2) r3(2) r2(3) [of EXCLUSIVE] r3(1,3,4) [of DELEGATED] r3(5)
    by (auto simp: served_def)
  moreover have "served EXCLUSIVE ?q3"
    using admits_served [OF i2 s3] r3(2) r3(3) [of STANDARD] r3(3) [of DELEGATED]
    by (auto simp: served_def)
  ultimately show "served c (admit_waiters q)"
    by (cases c) (simp_all add: admit_waiters_def)
qed

lemma enter_inv:
  assumes inv: "queue_inv q live" and "i \<notin> fst ` set live" "i \<notin> set (admitted q)"
  shows "queue_inv (q\<lparr>waiting := waiting q @ [(i, c)]\<rparr>) (live @ [(i, c)])"
  using assms by (auto simp: queue_inv_def)

lemma live_split:
  assumes "r \<in> set live" "distinct (map fst live)"
  shows "int (length (of_class c (remove1 r live))) =
           int (length (of_class c live)) - (if snd r = c then 1 else 0)"
  using assms by (induction live) (auto simp: of_class_def)

lemma distinct_fst_remove1: "distinct (map fst live) \<Longrightarrow> distinct (map fst (remove1 r live))"
  by (induction live) (auto dest: notin_set_remove1 simp: image_iff)

lemma filter_remove1_absent: "\<not> P r \<Longrightarrow> filter P (remove1 r xs) = filter P xs"
  by (induction xs) auto

lemma release_active_live:
  assumes inv: "queue_inv q live" and r: "(i, c) \<in> set live" and adm: "i \<in> set (admitted q)"
  shows "release_active c q = Inr (set_active c (active c q - 1) q)"
    and "queue_inv (set_active c (active c q - 1) q) (remove1 (i, c) live)"
proof -
  note i = queue_invD [OF inv]
  have w: "waiting q = filter (\<lambda>r. fst r \<notin> set (admitted q)) (remove1 (i, c) live)"
    using adm by (simp add: i(2) filter_remove1_absent)
  have "length (of_class c (waiting q)) \<le> length (of_class c (remove1 (i, c) live))"
    by (simp add: w of_class_filter)
  then have pos: "active c q > 0"
    using i(3) [of c] live_split [OF r i(1), of c] by simp
  then show "release_active c q = Inr (set_active c (active c q - 1) q)"
    by (cases c) (auto simp: release_active_def active.simps)
  have cap: "active d (set_active c (active c q - 1) q) \<le> capacity d q" for d
    using i(4) [of d] by auto
  have cnt: "active d (set_active c (active c q - 1) q) + int (length (of_class d (waiting q))) =
        int (length (of_class d (remove1 (i, c) live)))" for d
    using i(3) [of d] live_split [OF r i(1), of d] by auto
  show "queue_inv (set_active c (active c q - 1) q) (remove1 (i, c) live)"
    unfolding queue_inv_def
    using w cap cnt i(1,5,6) pos queue_inv_active_nonneg [OF inv]
    by (auto simp: distinct_fst_remove1 split: if_splits)
qed

lemma cancel_waiting_inv:
  assumes inv: "queue_inv q live" and r: "(i, c) \<in> set live" and adm: "i \<notin> set (admitted q)"
  shows "(i, c) \<in> set (waiting q)"
    and "queue_inv (q\<lparr>waiting := remove1 (i, c) (waiting q)\<rparr>) (remove1 (i, c) live)"
proof -
  note i = queue_invD [OF inv]
  show w: "(i, c) \<in> set (waiting q)" using r adm by (simp add: i(2))
  have dw: "distinct (map fst (waiting q))" using i(1) by (simp add: i(2) distinct_map_filter)
  have dist: "distinct live" using i(1) by (simp add: distinct_map)
  have rem: "remove1 (i, c) (waiting q) =
      filter (\<lambda>r. fst r \<notin> set (admitted q)) (remove1 (i, c) live)"
    using dist by (simp add: i(2) distinct_remove1_removeAll removeAll_filter_not_eq conj_commute)
  have cnt: "active d q + int (length (of_class d (remove1 (i, c) (waiting q)))) =
      int (length (of_class d (remove1 (i, c) live)))" for d
    using i(3) [of d] live_split [OF r i(1), of d] live_split [OF w dw, of d] by auto
  show "queue_inv (q\<lparr>waiting := remove1 (i, c) (waiting q)\<rparr>) (remove1 (i, c) live)"
    unfolding queue_inv_def using rem cnt i(1,4,5,6) by (simp add: distinct_fst_remove1)
qed


section \<open>The client protocol and its theorems\<close>

text \<open>
  The legal histories of a queue: an identifier enters once, and a live request leaves
  once, through \<open>release\<close> when it was admitted or through the cancellation clause.
\<close>

inductive queue_reachable :: "exec_queue \<Rightarrow> request list \<Rightarrow> bool" where
  start: "queue_reachable (make_queue ms me b) []"
| enter: "queue_reachable q live \<Longrightarrow> i \<notin> fst ` set live \<Longrightarrow> i \<notin> set (admitted q) \<Longrightarrow>
     queue_reachable (queue_step q (Acquire i c)) (live @ [(i, c)])"
| leave: "queue_reachable q live \<Longrightarrow> (i, c) \<in> set live \<Longrightarrow> i \<in> set (admitted q) \<Longrightarrow>
     queue_reachable (queue_step q (Release c)) (remove1 (i, c) live)"
| cancel: "queue_reachable q live \<Longrightarrow> (i, c) \<in> set live \<Longrightarrow>
     queue_reachable (queue_step q (Cancel i c)) (remove1 (i, c) live)"

lemma release_live:
  assumes "queue_inv q live" "(i, c) \<in> set live" "i \<in> set (admitted q)"
  shows "release c q = Inr (admit_waiters (set_active c (active c q - 1) q))"
  using release_active_live [OF assms] by (simp add: release_def)

lemma cancel_live:
  assumes "queue_inv q live" "(i, c) \<in> set live"
  shows "\<exists>q'. acquire_cancel i c q = Inr (admit_waiters q') \<and> queue_inv q' (remove1 (i, c) live)"
proof (cases "i \<in> set (admitted q)")
  case True
  with release_active_live [OF assms True] show ?thesis by (auto simp: acquire_cancel_def)
next
  case False
  with cancel_waiting_inv [OF assms False] show ?thesis by (auto simp: acquire_cancel_def)
qed

lemma make_queue_inv: "queue_inv (make_queue ms me b) []"
  by (auto simp: queue_inv_def make_queue_def active.simps capacity.simps)
     (case_tac c; simp add: active.simps capacity.simps)+

lemma make_queue_served: "served c (make_queue ms me b)"
  by (simp add: served_def make_queue_def)

lemma queue_reachable_inv: "queue_reachable q live \<Longrightarrow> queue_inv q live \<and> (\<forall>c. served c q)"
proof (induction rule: queue_reachable.induct)
  case (start ms me b)
  then show ?case by (simp add: make_queue_inv make_queue_served)
next
  case (enter q live i c)
  then show ?case
    by (auto simp: acquire_enter_def Let_def intro!: admit_waiters_inv enter_inv)
next
  case (leave q live i c)
  then have inv: "queue_inv (set_active c (active c q - 1) q) (remove1 (i, c) live)"
    by (blast intro: release_active_live(2))
  from leave have "queue_step q (Release c) = admit_waiters (set_active c (active c q - 1) q)"
    using release_live [of q live i c] by simp
  with inv show ?case by (simp add: admit_waiters_inv)
next
  case (cancel q live i c)
  then obtain q' where "acquire_cancel i c q = Inr (admit_waiters q')" "queue_inv q' (remove1 (i, c) live)"
    using cancel_live by blast
  then show ?case by (simp add: admit_waiters_inv)
qed

lemma active_counts_holders:
  assumes "queue_inv q live"
  shows "active c q = int (length (of_class c (filter (\<lambda>r. fst r \<in> set (admitted q)) live)))"
proof -
  have "length (of_class c live) =
      length (of_class c (filter (\<lambda>r. fst r \<in> set (admitted q)) live)) +
      length (of_class c (filter (\<lambda>r. fst r \<notin> set (admitted q)) live))" for live :: "request list"
    by (induction live) auto
  with queue_invD(2,3) [OF assms] show ?thesis by (metis add_diff_cancel_right' of_nat_add)
qed

text \<open>
  C20. In every legal history the counters count exactly the live requests that were
  admitted, no class exceeds its capacity, and with the exclusive barrier no standard or
  delegated work runs beside exclusive work.
\<close>

theorem queue_capacity_and_exclusion:
  assumes "queue_reachable q live"
  shows "active c q = int (length (of_class c (filter (\<lambda>r. fst r \<in> set (admitted q)) live))) \<and>
         active c q \<le> capacity c q \<and>
         (exclusive_barrier q \<and> active EXCLUSIVE q > 0 \<longrightarrow>
            active STANDARD q = 0 \<and> active DELEGATED q = 0)"
  using queue_reachable_inv [OF assms] active_counts_holders [of q live c] queue_invD [of q live]
  by blast

lemmas queue_eval = acquire_enter_def admit_waiters_def admit_standard_waiters_def
  admit_delegated_waiters_def admit_exclusive_waiters_def make_queue_def active.simps capacity.simps

lemma example_queue:
  "queue_reachable (queue_step (queue_step (make_queue 1 1 True) (Acquire 0 EXCLUSIVE)) (Acquire 1 STANDARD))
     [(0, EXCLUSIVE), (1, STANDARD)]"
proof -
  have "queue_reachable (queue_step (make_queue 1 1 True) (Acquire 0 EXCLUSIVE)) ([] @ [(0, EXCLUSIVE)])"
    by (rule queue_reachable.enter [OF queue_reachable.start]) (simp_all add: make_queue_def)
  then have "queue_reachable (queue_step (queue_step (make_queue 1 1 True) (Acquire 0 EXCLUSIVE))
      (Acquire 1 STANDARD)) (([] @ [(0, EXCLUSIVE)]) @ [(1, STANDARD)])"
    by (rule queue_reachable.enter)
       (simp_all add: queue_eval)
  then show ?thesis by simp
qed

theorem queue_capacity_and_exclusion_witness:
  "active EXCLUSIVE (queue_step (queue_step (make_queue 1 1 True) (Acquire 0 EXCLUSIVE)) (Acquire 1 STANDARD)) \<le> 1"
  using queue_capacity_and_exclusion [OF example_queue, of EXCLUSIVE]
  by (simp add: queue_eval)

text \<open>
  C21. No lost wake-up: in every reachable state a class with waiting requests has all its
  slots in use or is held back by the barrier.
\<close>

theorem queue_work_conserving:
  assumes "queue_reachable q live" "of_class c (waiting q) \<noteq> []"
  shows "active c q = capacity c q \<or> held_back c q"
  using queue_reachable_inv [OF assms(1)] assms(2) by (auto simp: served_def)

theorem queue_work_conserving_witness:
  "held_back STANDARD
     (queue_step (queue_step (make_queue 1 1 True) (Acquire 0 EXCLUSIVE)) (Acquire 1 STANDARD))"
  using queue_work_conserving [OF example_queue, of STANDARD] by (simp add: queue_eval)

text \<open>Leaving never raises: a live request's release or cancellation succeeds.\<close>

lemma queue_leave_never_raises:
  assumes "queue_reachable q live" "(i, c) \<in> set live"
  shows "(\<exists>q'. acquire_cancel i c q = Inr q') \<and>
         (i \<in> set (admitted q) \<longrightarrow> (\<exists>q'. release c q = Inr q'))"
  using queue_reachable_inv [OF assms(1)] assms(2) cancel_live release_live by blast

lemma queue_leave_never_raises_sample:
  "\<exists>q'. release EXCLUSIVE
     (queue_step (queue_step (make_queue 1 1 True) (Acquire 0 EXCLUSIVE)) (Acquire 1 STANDARD)) = Inr q'"
  using queue_leave_never_raises [OF example_queue, of 0 EXCLUSIVE] by (simp add: queue_eval)

text \<open>
  First come, first served within a class: an admission round takes requests from the
  front of the class's queue, admits them in that order, and leaves the rest in order.
\<close>

lemma queue_fifo_per_class:
  "\<exists>n a b. of_class c (waiting (admit_waiters q)) = drop n (of_class c (waiting q)) \<and>
     admitted (admit_waiters q) = admitted q @ a @ map fst (take n (of_class c (waiting q))) @ b"
proof -
  obtain k1 where "admits STANDARD q (admit_standard_waiters q) k1"
    using admit_standard_admits by blast
  note s1 = this [unfolded admits_def]
  let ?q1 = "admit_standard_waiters q"
  obtain k2 where "admits DELEGATED ?q1 (admit_delegated_waiters ?q1) k2"
    using admit_delegated_admits by blast
  note s2 = this [unfolded admits_def]
  let ?q2 = "admit_delegated_waiters ?q1"
  obtain k3 where "admits EXCLUSIVE ?q2 (admit_exclusive_waiters ?q2) k3"
    using admit_exclusive_admits by blast
  note s3 = this [unfolded admits_def]
  let ?m = "\<lambda>c k. map fst (take k (of_class c (waiting q)))"
  have w: "of_class STANDARD (waiting (admit_waiters q)) = drop k1 (of_class STANDARD (waiting q))"
    "of_class DELEGATED (waiting (admit_waiters q)) = drop k2 (of_class DELEGATED (waiting q))"
    "of_class EXCLUSIVE (waiting (admit_waiters q)) = drop k3 (of_class EXCLUSIVE (waiting q))"
    using s1 s2 s3 by (simp_all add: admit_waiters_def)
  have a: "admitted (admit_waiters q) =
      admitted q @ ?m STANDARD k1 @ ?m DELEGATED k2 @ ?m EXCLUSIVE k3"
    using s1 s2 s3 by (simp add: admit_waiters_def)
  show ?thesis
  proof (cases c)
    case STANDARD
    with w a show ?thesis
      by (intro exI [of _ k1] exI [of _ "[]"] exI [of _ "?m DELEGATED k2 @ ?m EXCLUSIVE k3"]) simp
  next
    case DELEGATED
    with w a show ?thesis
      by (intro exI [of _ k2] exI [of _ "?m STANDARD k1"] exI [of _ "?m EXCLUSIVE k3"]) simp
  next
    case EXCLUSIVE
    with w a show ?thesis
      by (intro exI [of _ k3] exI [of _ "?m STANDARD k1 @ ?m DELEGATED k2"] exI [of _ "[]"]) simp
  qed
qed

end
