(* ===== verification/Run_Limits.thy ===== *)
theory Run_Limits
  imports SL_Prelude
begin

text \<open>
  Budget policy and token accounting of one agent run
  (\<open>lensnode/lensnode/agent_runtime/limits.py\<close>). A command is the JSON object the
  control plane dispatched, or nothing; \<open>node_config\<close> holds the attributes the functions
  read with \<open>getattr\<close>, as they are after the default was applied.
\<close>

record node_config =
  reasoning_effort :: py
  token_budget_max_tokens :: py
  token_budget_final_reserve_tokens :: py
  tool_budget_max_calls :: py

definition default_config :: node_config where
  "default_config = \<lparr>reasoning_effort = PNone, token_budget_max_tokens = PInt 200000,
     token_budget_final_reserve_tokens = PInt 40000, tool_budget_max_calls = PInt 64\<rparr>"

definition resolve_reasoning_effort :: "node_config \<Rightarrow> pydict \<Rightarrow> py" where
  "resolve_reasoning_effort config command =
     (if dget command ''deep_thinking'' = PBool True then PStr ''high''
      else if dget command ''deep_thinking'' = PBool False then PStr ''low''
      else reasoning_effort config)"

section \<open>The shared token budget\<close>

record usage =
  prompt_tokens :: int
  completion_tokens :: int
  total_tokens :: int

record token_budget =
  max_tokens :: int
  used :: usage

definition make_token_budget :: "py \<Rightarrow> token_budget res" where
  "make_token_budget limit =
     rbind (nonneg_int limit) (\<lambda>m.
       Inr \<lparr>max_tokens = m,
            used = \<lparr>prompt_tokens = 0, completion_tokens = 0, total_tokens = 0\<rparr>\<rparr>)"

text \<open>
  \<open>consume\<close> coerces its arguments before it takes the lock, so a bad argument raises and
  leaves the budget alone. \<open>spend_tokens\<close> is the locked part.
\<close>

definition limit_reached :: "token_budget \<Rightarrow> bool" where
  "limit_reached b \<longleftrightarrow> max_tokens b \<noteq> 0 \<and> total_tokens (used b) \<ge> max_tokens b"

definition spend_tokens :: "token_budget \<Rightarrow> usage \<Rightarrow> token_budget" where
  "spend_tokens b u =
     b\<lparr>used := \<lparr>prompt_tokens = prompt_tokens (used b) + prompt_tokens u,
               completion_tokens = completion_tokens (used b) + completion_tokens u,
               total_tokens = total_tokens (used b) + total_tokens u\<rparr>\<rparr>"

definition usage_of_args :: "py \<Rightarrow> py \<Rightarrow> py \<Rightarrow> usage res" where
  "usage_of_args p c t =
     rbind (nonneg_int p) (\<lambda>p'. rbind (nonneg_int c) (\<lambda>c'.
       rbind (py_int (py_or t (PInt 0))) (\<lambda>t'.
         Inr \<lparr>prompt_tokens = p', completion_tokens = c', total_tokens = max t' (p' + c')\<rparr>)))"

definition consume :: "token_budget \<Rightarrow> py \<Rightarrow> py \<Rightarrow> py \<Rightarrow> (token_budget \<times> usage \<times> bool) res" where
  "consume b p c t =
     rbind (usage_of_args p c t) (\<lambda>u.
       let b' = spend_tokens b u in Inr (b', used b', limit_reached b'))"

text \<open>
  \<open>restore\<close> assigns key by key, so a value that does not convert raises after the keys
  before it were already replaced.
\<close>

definition restore_usage :: "token_budget \<Rightarrow> pydict \<Rightarrow> token_budget \<times> exn option" where
  "restore_usage b saved =
     (case nonneg_int (dget saved ''prompt_tokens'') of
        Inl e \<Rightarrow> (b, Some e)
      | Inr p \<Rightarrow>
          let b1 = b\<lparr>used := (used b)\<lparr>prompt_tokens := p\<rparr>\<rparr>
          in case nonneg_int (dget saved ''completion_tokens'') of
               Inl e \<Rightarrow> (b1, Some e)
             | Inr c \<Rightarrow>
                 let b2 = b1\<lparr>used := (used b1)\<lparr>completion_tokens := c\<rparr>\<rparr>
                 in case nonneg_int (dget saved ''total_tokens'') of
                      Inl e \<Rightarrow> (b2, Some e)
                    | Inr t \<Rightarrow> (b2\<lparr>used := (used b2)\<lparr>total_tokens := t\<rparr>\<rparr>, None))"

text \<open>What the checkpoint stores of the usage: the dictionary \<open>usage\<close> returns.\<close>

definition usage_dict :: "token_budget \<Rightarrow> pydict" where
  "usage_dict b = [(''prompt_tokens'', PInt (prompt_tokens (used b))),
                   (''completion_tokens'', PInt (completion_tokens (used b))),
                   (''total_tokens'', PInt (total_tokens (used b)))]"

section \<open>Resolving the budgets of a run\<close>

record budget_policy =
  profile :: string
  policy_max_tokens :: int
  final_reserve_tokens :: int

definition resolve_token_budget :: "(py \<Rightarrow> string) \<Rightarrow> node_config \<Rightarrow> pydict \<Rightarrow> budget_policy res" where
  "resolve_token_budget render config command =
     rbind (nonneg_int (token_budget_max_tokens config)) (\<lambda>fallback_max.
     rbind (nonneg_int (token_budget_final_reserve_tokens config)) (\<lambda>fallback_reserve.
       case dget command ''token_budget'' of
         PDict run_budget \<Rightarrow>
           rbind (nonneg_int (dget run_budget ''max_tokens'')) (\<lambda>m.
           rbind (nonneg_int (dget run_budget ''final_reserve_tokens'')) (\<lambda>reserve.
             Inr \<lparr>profile = py_str render (py_or (dget run_budget ''profile'') (PStr ''standard'')),
                  policy_max_tokens = m,
                  final_reserve_tokens = (if m \<noteq> 0 then min reserve m else 0)\<rparr>))
       | _ \<Rightarrow> Inr \<lparr>profile = ''system'', policy_max_tokens = fallback_max,
                  final_reserve_tokens = min fallback_reserve fallback_max\<rparr>))"

definition resolve_tool_call_budget :: "node_config \<Rightarrow> pydict \<Rightarrow> int res" where
  "resolve_tool_call_budget config command =
     rbind (nonneg_int (tool_budget_max_calls config)) (\<lambda>fallback_max.
       case dget command ''tool_budget'' of
         PDict run_budget \<Rightarrow> nonneg_int (dget run_budget ''max_calls'')
       | _ \<Rightarrow>
           (case dget command ''token_budget'' of
              PDict tb \<Rightarrow>
                if dget tb ''profile'' = PStr ''unlimited'' \<and>
                   dget tb ''max_tokens'' \<in> {PInt 0, PBool False, PFloat (Fin 0)}
                then Inr 0 else Inr fallback_max
            | _ \<Rightarrow> Inr fallback_max))"

section \<open>Accounting\<close>

definition usage_ok :: "usage \<Rightarrow> bool" where
  "usage_ok u \<longleftrightarrow> 0 \<le> prompt_tokens u \<and> 0 \<le> completion_tokens u \<and>
     prompt_tokens u + completion_tokens u \<le> total_tokens u"

definition budget_ok :: "token_budget \<Rightarrow> bool" where
  "budget_ok b \<longleftrightarrow> 0 \<le> max_tokens b \<and> usage_ok (used b)"

lemma usage_of_args_ok: "usage_of_args p c t = Inr u \<Longrightarrow> usage_ok u"
  by (auto simp: usage_of_args_def rbind_Inr_iff usage_ok_def dest: nonneg_int_nonneg)

lemma make_token_budget_ok: "make_token_budget m = Inr b \<Longrightarrow> budget_ok b"
  by (auto simp: make_token_budget_def rbind_Inr_iff budget_ok_def usage_ok_def dest: nonneg_int_nonneg)

text \<open>One call's arguments; a call that raises spends nothing.\<close>

definition meter_step :: "token_budget \<Rightarrow> py \<times> py \<times> py \<Rightarrow> token_budget" where
  "meter_step b args = (case args of (p, c, t) \<Rightarrow>
     (case consume b p c t of Inl _ \<Rightarrow> b | Inr (b', _, _) \<Rightarrow> b'))"

lemma meter_step_eq:
  "meter_step b (p, c, t) =
     (case usage_of_args p c t of Inl _ \<Rightarrow> b | Inr u \<Rightarrow> spend_tokens b u)"
  by (auto simp: meter_step_def consume_def Let_def split: sum.splits)

interpretation token_meter: usage_meter meter_step "\<lambda>b. total_tokens (used b)" max_tokens
proof unfold_locales
  fix s :: token_budget and a :: "py \<times> py \<times> py"
  obtain p c t where a: "a = (p, c, t)" by (cases a)
  show "total_tokens (used s) \<le> total_tokens (used (meter_step s a))"
    using usage_of_args_ok [of p c t]
    by (auto simp: a meter_step_eq spend_tokens_def usage_ok_def split: sum.splits)
  show "max_tokens (meter_step s a) = max_tokens s"
    by (simp add: a meter_step_eq spend_tokens_def split: sum.splits)
qed

lemma meter_step_ok: "budget_ok b \<Longrightarrow> budget_ok (meter_step b args)"
proof -
  assume ok: "budget_ok b"
  obtain p c t where a: "args = (p, c, t)" by (cases args)
  show ?thesis
    using ok usage_of_args_ok [of p c t]
    by (auto simp: a meter_step_eq spend_tokens_def usage_ok_def budget_ok_def split: sum.splits)
qed

interpretation token_accounting: step_invariant meter_step budget_ok
  by unfold_locales (rule meter_step_ok)

lemma exhausted_limit_reached:
  "budget_ok b \<Longrightarrow> token_meter.exhausted b \<longleftrightarrow> limit_reached b"
  by (auto simp: token_meter.exhausted_def limit_reached_def budget_ok_def)

text \<open>
  A run's token accounting is sound and its hard limit is sticky: after any sequence of
  model calls, well or badly typed, the total is at least prompt plus completion tokens,
  and once the limit was reached every later state still reports it.
\<close>

lemma token_limit_is_sticky:
  assumes "budget_ok b"
  shows "budget_ok (foldl meter_step b calls) \<and>
         (limit_reached b \<longrightarrow> limit_reached (foldl meter_step b calls))"
proof -
  have ok: "budget_ok (foldl meter_step b calls)"
    by (rule token_accounting.inv_run [OF assms])
  then show ?thesis
    using token_meter.exhausted_run [of b calls] exhausted_limit_reached assms by blast
qed

lemma token_limit_is_sticky_sample:
  "limit_reached (foldl meter_step
      \<lparr>max_tokens = 10, used = \<lparr>prompt_tokens = 6, completion_tokens = 4, total_tokens = 10\<rparr>\<rparr>
      [(PInt 3, PNone, PStr ''x''), (PInt 1, PInt 1, PNone)])"
proof -
  let ?b = "\<lparr>max_tokens = 10, used = \<lparr>prompt_tokens = 6, completion_tokens = 4, total_tokens = 10\<rparr>\<rparr>"
  have "budget_ok ?b" "limit_reached ?b"
    by (simp_all add: budget_ok_def usage_ok_def limit_reached_def)
  then show ?thesis using token_limit_is_sticky by blast
qed

text \<open>
  Checkpoint round trip of the usage: restoring the dictionary a budget exports gives
  the same usage back, whatever the budget held before.
\<close>

lemma restore_usage_roundtrip:
  assumes "budget_ok b"
  shows "restore_usage b' (usage_dict b) = (b'\<lparr>used := used b\<rparr>, None)"
  using assms by (simp add: restore_usage_def usage_dict_def budget_ok_def usage_ok_def)

lemma restore_usage_roundtrip_sample:
  "restore_usage \<lparr>max_tokens = 5, used = \<lparr>prompt_tokens = 0, completion_tokens = 0, total_tokens = 0\<rparr>\<rparr>
     (usage_dict \<lparr>max_tokens = 5, used = \<lparr>prompt_tokens = 2, completion_tokens = 1, total_tokens = 4\<rparr>\<rparr>)
   = (\<lparr>max_tokens = 5, used = \<lparr>prompt_tokens = 2, completion_tokens = 1, total_tokens = 4\<rparr>\<rparr>, None)"
  by (subst restore_usage_roundtrip) (simp_all add: budget_ok_def usage_ok_def)

text \<open>
  The wrap-up reserve of a run's token policy never exceeds its ceiling, both are
  non-negative, and an unlimited policy (ceiling 0) reserves nothing.
\<close>

lemma token_policy_bounds:
  assumes "resolve_token_budget render config command = Inr pol"
  shows "0 \<le> final_reserve_tokens pol \<and> final_reserve_tokens pol \<le> policy_max_tokens pol"
proof (cases "\<exists>d. dget command ''token_budget'' = PDict d")
  case True
  then show ?thesis
    using assms by (auto simp: resolve_token_budget_def rbind_Inr_iff dest!: nonneg_int_nonneg)
next
  case False
  then obtain m r where "nonneg_int (token_budget_max_tokens config) = Inr m"
      "nonneg_int (token_budget_final_reserve_tokens config) = Inr r"
      "policy_max_tokens pol = m" "final_reserve_tokens pol = min r m"
    using assms
    by (cases "dget command ''token_budget''") (auto simp: resolve_token_budget_def rbind_Inr_iff)
  then show ?thesis by (auto dest!: nonneg_int_nonneg)
qed

lemma token_policy_bounds_sample:
  "final_reserve_tokens \<lparr>profile = ''system'', policy_max_tokens = 200000, final_reserve_tokens = 40000\<rparr> \<le> 200000"
  using token_policy_bounds [of "\<lambda>_. []" default_config "[]"
      "\<lparr>profile = ''system'', policy_max_tokens = 200000, final_reserve_tokens = 40000\<rparr>"]
  by (simp add: resolve_token_budget_def default_config_def)

end
