(* ===== verification/Stop_Fence.thy ===== *)
theory Stop_Fence
  imports SL_Prelude
begin

text \<open>
  The durable fences of \<open>lensnode/lensnode/conversion_stop.py\<close>: one row per conversion
  task, with the datasource it was fenced for and the first terminal frame. The table is a
  map from task identifiers; a missing database file is the empty table, which is what
  \<open>get\<close> answers for it. A frame is the JSON value that was stored, \<open>None\<close> for SQL's
  NULL.
\<close>

record stop_row =
  datasource_uuid :: string
  frame :: "py option"

type_synonym stop_table = "string \<rightharpoonup> stop_row"

definition stop_get :: "stop_table \<Rightarrow> string \<Rightarrow> stop_row option" where
  "stop_get table task_id = table task_id"

definition insert_or_ignore :: "stop_table \<Rightarrow> string \<Rightarrow> string \<Rightarrow> stop_table" where
  "insert_or_ignore table task_id ds =
     (case table task_id of
        None \<Rightarrow> table(task_id \<mapsto> \<lparr>datasource_uuid = ds, frame = None\<rparr>)
      | Some _ \<Rightarrow> table)"

text \<open>\<open>fence\<close>: the returned flag and the table after the transaction.\<close>

definition fence :: "stop_table \<Rightarrow> string \<Rightarrow> string \<Rightarrow> py option \<Rightarrow> bool \<times> stop_table" where
  "fence table task_id ds fr =
     (let t1 = insert_or_ignore table task_id ds
      in case t1 task_id of
           None \<Rightarrow> (False, t1)
         | Some row \<Rightarrow>
             if datasource_uuid row \<noteq> ds then (False, t1)
             else (True,
                   if fr \<noteq> None \<and> frame row = None then t1(task_id \<mapsto> row\<lparr>frame := fr\<rparr>) else t1))"

lemma insert_or_ignore_row:
  "\<exists>row. insert_or_ignore table k ds k = Some row \<and>
     (table k = None \<longrightarrow> row = \<lparr>datasource_uuid = ds, frame = None\<rparr>) \<and>
     (table k \<noteq> None \<longrightarrow> table k = Some row)"
  by (auto simp: insert_or_ignore_def split: option.splits)

lemma insert_or_ignore_other: "k' \<noteq> k \<Longrightarrow> insert_or_ignore table k ds k' = table k'"
  by (simp add: insert_or_ignore_def split: option.splits)

lemma fence_other: "k' \<noteq> k \<Longrightarrow> snd (fence table k ds fr) k' = table k'"
  by (auto simp: fence_def Let_def insert_or_ignore_other split: option.splits)

lemma fence_keeps_owner:
  "table k = Some row \<Longrightarrow>
     \<exists>row'. snd (fence table k0 ds fr) k = Some row' \<and> datasource_uuid row' = datasource_uuid row \<and>
            (frame row \<noteq> None \<longrightarrow> frame row' = frame row)"
proof (cases "k = k0")
  case False
  then show "table k = Some row \<Longrightarrow> ?thesis" by (simp add: fence_other)
qed (auto simp: fence_def insert_or_ignore_def Let_def)

type_synonym stop_message = "string \<times> string \<times> py option"

definition stop_deliver :: "stop_table \<Rightarrow> stop_message \<Rightarrow> stop_table" where
  "stop_deliver table m = (case m of (k, ds, fr) \<Rightarrow> snd (fence table k ds fr))"

text \<open>What no later message may change: the owner and the first frame of a fenced task.\<close>

definition stop_owner :: "stop_table \<Rightarrow> string \<Rightarrow> string option" where
  "stop_owner table k = map_option datasource_uuid (table k)"

definition stop_result :: "stop_table \<Rightarrow> string \<Rightarrow> py option" where
  "stop_result table k = (case table k of None \<Rightarrow> None | Some row \<Rightarrow> frame row)"

interpretation fence_owner: settled_view stop_deliver stop_owner "\<lambda>_ _. False"
  by unfold_locales
     (auto simp: stop_deliver_def stop_owner_def split: prod.splits dest: fence_keeps_owner)

interpretation fence_result: settled_view stop_deliver stop_result "\<lambda>_ _. False"
proof unfold_locales
  fix s :: stop_table and k :: string and v :: py and e :: stop_message
  assume "stop_result s k = Some v"
  then obtain row where row: "s k = Some row" "frame row = Some v"
    by (auto simp: stop_result_def split: option.splits)
  obtain k0 ds fr where e: "e = (k0, ds, fr)" by (cases e)
  from fence_keeps_owner [of s k row k0 ds fr] row
  show "stop_result (stop_deliver s e) k = Some v \<or> False"
    by (auto simp: stop_deliver_def stop_result_def e)
qed simp_all

lemma fence_idem: "snd (fence (snd (fence table k ds fr)) k ds fr) = snd (fence table k ds fr)"
  by (auto simp: fence_def insert_or_ignore_def Let_def split: option.splits if_splits)

interpretation fence_messages: at_least_once stop_deliver
  by unfold_locales (simp add: stop_deliver_def fence_idem split: prod.splits)

text \<open>
  A conversion task keeps its first owner and its first terminal result: once a fence
  has recorded a frame, no later sequence of fence calls, for this task or another, with
  another datasource or another frame, changes either.
\<close>

lemma fence_first_result_wins:
  assumes "table k = Some row" "frame row = Some fr"
  shows "\<exists>row'. foldl stop_deliver table ms k = Some row' \<and>
           datasource_uuid row' = datasource_uuid row \<and> frame row' = Some fr"
proof -
  have "stop_result (foldl stop_deliver table ms) k = Some fr"
    using fence_result.settled_run [of table k fr ms] assms by (simp add: stop_result_def)
  moreover have "stop_owner (foldl stop_deliver table ms) k = Some (datasource_uuid row)"
    using fence_owner.settled_run [of table k "datasource_uuid row" ms] assms
    by (simp add: stop_owner_def)
  ultimately show ?thesis
    by (auto simp: stop_result_def stop_owner_def split: option.splits)
qed

lemma fence_first_result_wins_sample:
  "\<exists>row'. foldl stop_deliver [''t'' \<mapsto> \<lparr>datasource_uuid = ''d'', frame = Some (PInt 1)\<rparr>]
      [(''t'', ''e'', Some (PInt 2)), (''t'', ''d'', Some (PInt 3))] ''t'' = Some row' \<and>
      frame row' = Some (PInt 1)"
  using fence_first_result_wins [of "[''t'' \<mapsto> \<lparr>datasource_uuid = ''d'', frame = Some (PInt 1)\<rparr>]"
      "''t''" "\<lparr>datasource_uuid = ''d'', frame = Some (PInt 1)\<rparr>" "PInt 1"
      "[(''t'', ''e'', Some (PInt 2)), (''t'', ''d'', Some (PInt 3))]"] by auto

text \<open>
  \<open>fence\<close> answers True exactly for the owner: a new task is fenced for the caller, an
  existing one only for the datasource that fenced it, and a refused call changes nothing.
\<close>

lemma fence_answer:
  "fst (fence table k ds fr) \<longleftrightarrow> (case table k of None \<Rightarrow> True | Some row \<Rightarrow> datasource_uuid row = ds)"
  by (auto simp: fence_def insert_or_ignore_def Let_def split: option.splits)

end
