(* ===== verification/Session_Lifecycle.thy ===== *)
theory Session_Lifecycle
  imports SL_Prelude
begin

text \<open>
  Pinning and archiving of chat sessions (\<open>backend/lens/session_lifecycle.py\<close>). Every
  helper locks the row, checks its status and saves, so it is one step on the row;
  \<open>SessionStateError\<close> is an error value and leaves the row alone. \<open>now\<close> is the clock.
\<close>

datatype session_status = SESSION_ACTIVE | SESSION_ARCHIVED

record session =
  session_status :: session_status
  pinned_at :: "int option"
  session_updated_at :: int

datatype session_error = SessionStateError

definition lock_active_session :: "session \<Rightarrow> session_error + session" where
  "lock_active_session s = (if session_status s \<noteq> SESSION_ACTIVE then Inl SessionStateError else Inr s)"

definition pin_session :: "int \<Rightarrow> session \<Rightarrow> session_error + session" where
  "pin_session now s =
     (case lock_active_session s of
        Inl e \<Rightarrow> Inl e
      | Inr s \<Rightarrow> Inr (if pinned_at s = None
                      then s\<lparr>pinned_at := Some now, session_updated_at := now\<rparr> else s))"

definition unpin_session :: "int \<Rightarrow> session \<Rightarrow> session_error + session" where
  "unpin_session now s =
     (case lock_active_session s of
        Inl e \<Rightarrow> Inl e
      | Inr s \<Rightarrow> Inr (if pinned_at s \<noteq> None
                      then s\<lparr>pinned_at := None, session_updated_at := now\<rparr> else s))"

definition archive_session :: "int \<Rightarrow> session \<Rightarrow> session_error + session" where
  "archive_session now s =
     (case lock_active_session s of
        Inl e \<Rightarrow> Inl e
      | Inr s \<Rightarrow> Inr (s\<lparr>session_status := SESSION_ARCHIVED, pinned_at := None,
                         session_updated_at := now\<rparr>))"

definition restore_session :: "int \<Rightarrow> session \<Rightarrow> session_error + session" where
  "restore_session now s =
     (if session_status s \<noteq> SESSION_ARCHIVED then Inl SessionStateError
      else Inr (s\<lparr>session_status := SESSION_ACTIVE, session_updated_at := now\<rparr>))"

datatype session_event = Pin int | Unpin int | Archive int | Restore int

fun session_call :: "session_event \<Rightarrow> session \<Rightarrow> session_error + session" where
  "session_call (Pin now) s = pin_session now s"
| "session_call (Unpin now) s = unpin_session now s"
| "session_call (Archive now) s = archive_session now s"
| "session_call (Restore now) s = restore_session now s"

definition session_step :: "session \<Rightarrow> session_event \<Rightarrow> session" where
  "session_step s e = (case session_call e s of Inl _ \<Rightarrow> s | Inr s' \<Rightarrow> s')"

definition session_ok :: "session \<Rightarrow> bool" where
  "session_ok s \<longleftrightarrow> (pinned_at s \<noteq> None \<longrightarrow> session_status s = SESSION_ACTIVE)"

lemmas session_defs = lock_active_session_def pin_session_def unpin_session_def
  archive_session_def restore_session_def session_step_def

interpretation session_rows: step_invariant session_step session_ok
proof unfold_locales
  fix s e
  assume "session_ok s"
  then show "session_ok (session_step s e)"
    by (cases e) (auto simp: session_ok_def session_defs split: if_splits)
qed

text \<open>
  Only active sessions are pinned, in every history; and restoring an archived session
  never brings a pin back.
\<close>

lemma session_pins_only_active:
  assumes "session_ok s"
  shows "session_ok (foldl session_step s es) \<and>
         (\<forall>now s'. session_call (Restore now) (foldl session_step s es) = Inr s' \<longrightarrow> pinned_at s' = None)"
proof -
  have ok: "session_ok (foldl session_step s es)" by (rule session_rows.inv_run [OF assms])
  then show ?thesis by (auto simp: session_ok_def restore_session_def split: if_splits)
qed

lemma session_pins_only_active_sample:
  "session_ok (foldl session_step \<lparr>session_status = SESSION_ACTIVE, pinned_at = Some 3, session_updated_at = 3\<rparr>
     [Archive 4, Pin 5, Restore 6])"
proof -
  have "session_ok \<lparr>session_status = SESSION_ACTIVE, pinned_at = Some 3, session_updated_at = 3\<rparr>"
    by (simp add: session_ok_def)
  then show ?thesis using session_pins_only_active by blast
qed

end
