(* ===== verification/Run_Model.thy ===== *)
theory Run_Model
  imports SL_Prelude
begin

text \<open>
  The control plane's tables for answer runs (\<open>backend/lens/models.py\<close>: Run,
  RunExecution, RunStep, RunOutputFile, Session, LensNode) and the queries and bulk
  updates the services apply to them. Primary keys and UUIDs are one number per row,
  times are microseconds, a foreign key is the key of the other row. \<open>run_ids\<close> gives the
  rows in key order, which is the order queries without \<open>order_by\<close> return them in here.
\<close>

datatype run_status =
    RUN_QUEUED | RUN_RUNNING | RUN_STREAMING | RUN_AWAITING_USER_INPUT
  | RUN_DONE | RUN_FAILED | RUN_CANCELLED

datatype run_source = SOURCE_USER | SOURCE_EVALUATION

datatype run_outcome = OUTCOME_COMPLETED | OUTCOME_PARTIAL | OUTCOME_BLOCKED

datatype exec_status =
    EXEC_QUEUED | EXEC_DISPATCHED | EXEC_RUNNING | EXEC_COMPLETED | EXEC_FAILED | EXEC_CANCELLED

datatype step_status = STEP_RUNNING | STEP_DONE | STEP_FAILED

datatype step_type =
    QUERY_REWRITE | MULTIMODAL | RETRIEVAL | GENERAL_CHAT | ANSWER | STREAM | OTHER_STEP string

datatype node_status = NODE_ONLINE | NODE_UNRESPONSIVE | NODE_OFFLINE | NODE_DRAINING

record run =
  run_session :: nat
  run_source :: run_source
  run_status :: run_status
  input_content :: string
  output_content :: "string option"
  parent_run :: "nat option"
  run_node :: "nat option"
  run_error :: string
  run_outcome :: "run_outcome option"
  termination_detail :: pydict
  run_citations :: py
  run_planned_evidence :: py
  run_created_at :: int
  run_started_at :: "int option"
  run_finished_at :: "int option"
  last_activity_at :: "int option"
  resume_by :: "int option"
  run_updated_at :: int

record delegated_result =
  assistant_key :: nat
  assistant_label :: string
  question :: string
  answer :: string
  child_status :: run_status

record execution =
  exec_status :: exec_status
  dispatch_id :: "nat option"
  admitted_at :: "int option"
  checkpoint_ready_at :: "int option"
  exec_finished_at :: "int option"
  run_timeout_s :: "int option"
  delegated_results :: "delegated_result list option"

record run_step =
  step_run :: nat
  step_sequence :: nat
  step_type :: step_type
  step_status :: step_status
  step_events :: "py list"
  step_updated_at :: int

record output_file =
  file_key :: nat
  file_run :: nat
  file_published :: bool

record node =
  node_status :: node_status
  node_labels :: py
  node_updated_at :: int
  disconnected_at :: "int option"

record chat_session =
  cs_assistant :: nat
  cs_title_manually_edited :: bool
  cs_title_pending :: bool

text \<open>
  What the services hand to Celery, the broker and the alert outbox; delays are in
  microseconds. \<open>EnqueueAnswer run documents countdown\<close>, \<open>Dispatch run dispatch_id\<close>,
  \<open>ScheduleExpiration run countdown\<close> and so on.
\<close>

datatype effect =
    EnqueueAnswer nat int int
  | Dispatch nat "nat option"
  | CancelOnNode nat
  | AlertEvaluation nat
  | ScheduleExpiration nat int
  | RetryResume nat int
  | ConfirmOrphan nat int
  | ReconcileConversions nat
  | CleanupDatasourceTasks
  | GenerateTitle nat nat
  | ExportTrace nat
  | FinalizeCase nat

record db =
  run_ids :: "nat list"
  runs :: "nat \<rightharpoonup> run"
  executions :: "nat \<rightharpoonup> execution"
  steps :: "run_step list"
  files :: "output_file list"
  nodes :: "nat \<rightharpoonup> node"
  sessions :: "nat \<rightharpoonup> chat_session"
  trace_exports :: "nat list"
  next_uuid :: nat
  effects :: "effect list"

text \<open>
  What the services read from outside these tables: admin settings (a JSON value each),
  the text of floats and containers, the names of datasources and assistants, and whether
  publishing a dispatch for a run succeeds.
\<close>

record env =
  resume_ttl_setting :: "py option"
  confirm_grace_setting :: "py option"
  idle_timeout_setting :: "py option"
  absolute_timeout_setting :: "py option"
  cleanup_enabled :: bool
  value_text :: "py \<Rightarrow> string"
  datasource_name :: "string \<Rightarrow> string option option"
  assistant_name :: "nat \<Rightarrow> string"
  document_expectation :: "nat \<Rightarrow> int option"
  dispatch_ok :: "nat \<Rightarrow> bool"

definition terminal_status :: "run_status \<Rightarrow> bool" where
  "terminal_status s \<longleftrightarrow> s \<in> {RUN_AWAITING_USER_INPUT, RUN_DONE, RUN_FAILED, RUN_CANCELLED}"

definition active_status :: "run_status \<Rightarrow> bool" where
  "active_status s \<longleftrightarrow> s \<in> {RUN_RUNNING, RUN_STREAMING}"

definition open_exec :: "exec_status \<Rightarrow> bool" where
  "open_exec s \<longleftrightarrow> s \<in> {EXEC_QUEUED, EXEC_DISPATCHED, EXEC_RUNNING}"

lemma active_not_terminal [simp]: "active_status s \<Longrightarrow> \<not> terminal_status s"
  by (auto simp: active_status_def terminal_status_def)

lemma status_simps [simp]:
  "terminal_status RUN_DONE" "terminal_status RUN_FAILED" "terminal_status RUN_CANCELLED"
  "terminal_status RUN_AWAITING_USER_INPUT" "\<not> terminal_status RUN_QUEUED"
  "\<not> terminal_status RUN_RUNNING" "\<not> terminal_status RUN_STREAMING"
  "active_status RUN_RUNNING" "active_status RUN_STREAMING" "\<not> active_status RUN_QUEUED"
  "\<not> active_status RUN_DONE" "\<not> active_status RUN_FAILED" "\<not> active_status RUN_CANCELLED"
  "\<not> active_status RUN_AWAITING_USER_INPUT"
  by (simp_all add: terminal_status_def active_status_def)

section \<open>Queries and bulk updates\<close>

definition select_runs :: "(nat \<Rightarrow> run \<Rightarrow> bool) \<Rightarrow> db \<Rightarrow> nat list" where
  "select_runs P db = filter (\<lambda>k. case runs db k of None \<Rightarrow> False | Some r \<Rightarrow> P k r) (run_ids db)"

definition update_runs :: "(nat \<Rightarrow> run \<Rightarrow> bool) \<Rightarrow> (nat \<Rightarrow> run \<Rightarrow> run) \<Rightarrow> db \<Rightarrow> db" where
  "update_runs P f db =
     db\<lparr>runs := (\<lambda>k. map_option (\<lambda>r. if P k r then f k r else r) (runs db k))\<rparr>"

definition update_execs :: "(nat \<Rightarrow> execution \<Rightarrow> bool) \<Rightarrow> (execution \<Rightarrow> execution) \<Rightarrow> db \<Rightarrow> db" where
  "update_execs P f db =
     db\<lparr>executions := (\<lambda>k. map_option (\<lambda>e. if P k e then f e else e) (executions db k))\<rparr>"

definition update_steps :: "(run_step \<Rightarrow> bool) \<Rightarrow> (run_step \<Rightarrow> run_step) \<Rightarrow> db \<Rightarrow> db" where
  "update_steps P f db = db\<lparr>steps := map (\<lambda>s. if P s then f s else s) (steps db)\<rparr>"

abbreviation save_run :: "nat \<Rightarrow> (run \<Rightarrow> run) \<Rightarrow> db \<Rightarrow> db" where
  "save_run k f \<equiv> update_runs (\<lambda>k' _. k' = k) (\<lambda>_. f)"

abbreviation save_exec :: "nat \<Rightarrow> (execution \<Rightarrow> execution) \<Rightarrow> db \<Rightarrow> db" where
  "save_exec k f \<equiv> update_execs (\<lambda>k' _. k' = k) f"

definition emit :: "effect \<Rightarrow> db \<Rightarrow> db" where
  "emit e db = db\<lparr>effects := effects db @ [e]\<rparr>"

definition emit_all :: "effect list \<Rightarrow> db \<Rightarrow> db" where
  "emit_all es db = db\<lparr>effects := effects db @ es\<rparr>"

text \<open>Which table each operation leaves alone; \<open>db_frame\<close> is the collection.\<close>

lemma db_frame [simp]:
  "run_ids (update_runs P f db) = run_ids db" "executions (update_runs P f db) = executions db"
  "steps (update_runs P f db) = steps db" "nodes (update_runs P f db) = nodes db"
  "sessions (update_runs P f db) = sessions db" "effects (update_runs P f db) = effects db"
  "files (update_runs P f db) = files db" "next_uuid (update_runs P f db) = next_uuid db"
  "run_ids (update_execs Q g db) = run_ids db" "runs (update_execs Q g db) = runs db"
  "steps (update_execs Q g db) = steps db" "nodes (update_execs Q g db) = nodes db"
  "sessions (update_execs Q g db) = sessions db" "effects (update_execs Q g db) = effects db"
  "files (update_execs Q g db) = files db" "next_uuid (update_execs Q g db) = next_uuid db"
  "run_ids (update_steps R h db) = run_ids db" "runs (update_steps R h db) = runs db"
  "executions (update_steps R h db) = executions db" "nodes (update_steps R h db) = nodes db"
  "sessions (update_steps R h db) = sessions db" "effects (update_steps R h db) = effects db"
  "files (update_steps R h db) = files db" "next_uuid (update_steps R h db) = next_uuid db"
  "run_ids (emit e db) = run_ids db" "runs (emit e db) = runs db"
  "executions (emit e db) = executions db" "steps (emit e db) = steps db"
  "nodes (emit e db) = nodes db" "sessions (emit e db) = sessions db"
  "files (emit e db) = files db" "next_uuid (emit e db) = next_uuid db"
  "run_ids (emit_all es db) = run_ids db" "runs (emit_all es db) = runs db"
  "executions (emit_all es db) = executions db" "steps (emit_all es db) = steps db"
  "nodes (emit_all es db) = nodes db" "sessions (emit_all es db) = sessions db"
  "files (emit_all es db) = files db" "next_uuid (emit_all es db) = next_uuid db"
  by (simp_all add: update_runs_def update_execs_def update_steps_def emit_def emit_all_def)

lemma runs_update_runs [simp]:
  "runs (update_runs P f db) k = map_option (\<lambda>r. if P k r then f k r else r) (runs db k)"
  by (simp add: update_runs_def)

lemma execs_update_execs [simp]:
  "executions (update_execs P f db) k = map_option (\<lambda>e. if P k e then f e else e) (executions db k)"
  by (simp add: update_execs_def)

lemma steps_update_steps [simp]:
  "steps (update_steps P f db) = map (\<lambda>s. if P s then f s else s) (steps db)"
  by (simp add: update_steps_def)

lemma set_select_runs:
  "set (select_runs P db) = {k \<in> set (run_ids db). \<exists>r. runs db k = Some r \<and> P k r}"
  by (auto simp: select_runs_def split: option.splits)

section \<open>Settings and deadlines\<close>

definition seconds :: "int \<Rightarrow> int" where
  "seconds s = s * 1000000"

text \<open>\<open>int(setting.value if setting else default)\<close> with the default on a bad value.\<close>

definition setting_int :: "py option \<Rightarrow> int \<Rightarrow> int" where
  "setting_int s d = (case s of None \<Rightarrow> d | Some v \<Rightarrow> (case py_int v of Inl _ \<Rightarrow> d | Inr i \<Rightarrow> i))"

definition label_true :: "py \<Rightarrow> string \<Rightarrow> bool" where
  "label_true labels key = (case labels of PDict d \<Rightarrow> dget d key = PBool True | _ \<Rightarrow> False)"

definition supports_run_checkpoint_resume :: "node option \<Rightarrow> bool" where
  "supports_run_checkpoint_resume n =
     (case n of None \<Rightarrow> False | Some n \<Rightarrow> label_true (node_labels n) ''run_checkpoint_resume'')"

definition supports_run_admission_checkpoint :: "node option \<Rightarrow> bool" where
  "supports_run_admission_checkpoint n =
     (case n of None \<Rightarrow> False | Some n \<Rightarrow> label_true (node_labels n) ''run_admission_checkpoint_v1'')"

definition get_awaiting_resume_ttl_hours :: "env \<Rightarrow> node option \<Rightarrow> rat" where
  "get_awaiting_resume_ttl_hours en n =
     (let v = setting_int (resume_ttl_setting en) 24;
          raw = (case n of None \<Rightarrow> PInt 24
                   | Some nd \<Rightarrow> (case node_labels nd of
                        PDict d \<Rightarrow> dget_default d ''run_checkpoint_ttl_hours'' (PInt 24)
                      | _ \<Rightarrow> PInt 24));
          node_ttl = (case py_float raw of Inr (Fin r) \<Rightarrow> r | _ \<Rightarrow> 24)
      in min (of_int (max 1 v)) (max 1 node_ttl))"

text \<open>\<open>timedelta(hours=h)\<close>: rounded to microseconds, ties to even.\<close>

definition round_half_even :: "rat \<Rightarrow> int" where
  "round_half_even x =
     (let f = \<lfloor>x\<rfloor>; d = x - of_int f
      in if d < 1 / 2 then f else if d > 1 / 2 then f + 1 else if even f then f else f + 1)"

definition hours :: "rat \<Rightarrow> int" where
  "hours h = round_half_even (h * 3600000000)"

definition RUN_TIMEOUT_SECONDS :: int where
  "RUN_TIMEOUT_SECONDS = 3600"

definition get_run_resume_deadline :: "env \<Rightarrow> int \<Rightarrow> db \<Rightarrow> nat \<Rightarrow> run \<Rightarrow> int" where
  "get_run_resume_deadline en now db k r =
     (let n = (case run_node r of None \<Rightarrow> None | Some nk \<Rightarrow> nodes db nk);
          ttl_deadline = now + hours (get_awaiting_resume_ttl_hours en n)
      in case run_started_at r of
           None \<Rightarrow> ttl_deadline
         | Some started \<Rightarrow>
             (case executions db k of
                None \<Rightarrow> ttl_deadline
              | Some e \<Rightarrow>
                  (let timeout_s = (case run_timeout_s e of
                                      None \<Rightarrow> RUN_TIMEOUT_SECONDS
                                    | Some t \<Rightarrow> if t = 0 then RUN_TIMEOUT_SECONDS else t)
                   in min ttl_deadline (started + seconds timeout_s))))"

lemma deadline_within_run_timeout:
  "run_started_at r = Some st \<Longrightarrow> executions db k = Some e \<Longrightarrow>
     get_run_resume_deadline en now db k r
       \<le> st + seconds (case run_timeout_s e of None \<Rightarrow> 3600 | Some t \<Rightarrow> if t = 0 then 3600 else t)"
  by (simp add: get_run_resume_deadline_def RUN_TIMEOUT_SECONDS_def Let_def split: option.splits)

end
