(* ===== verification/Citations.thy ===== *)
theory Citations
  imports SL_Prelude
begin

text \<open>
  Source citations (\<open>backend/lens/citations.py\<close>): the validation of what a node reports, the
  public rendering, the inline markers of an answer, and the summary of the planned evidence.
  Texts are ASCII, so a character is a byte; \<open>repr\<close> is the text of floats and containers.
\<close>

section \<open>Constants and patterns\<close>

definition MAX_CITATION_SOURCE_CHARS :: nat where "MAX_CITATION_SOURCE_CHARS = 100000"
definition MAX_LINE_NUMBER :: int where "MAX_LINE_NUMBER = 10000000"

definition GAP_CATEGORIES :: "string set" where
  "GAP_CATEGORIES = {''caller_context'', ''runtime_error'', ''source'', ''structural''}"

definition PLANNER_STATUSES :: "string set" where
  "PLANNER_STATUSES = {''fallback'', ''repaired'', ''valid''}"

definition PUBLIC_CITATION_FIELDS :: "string list" where
  "PUBLIC_CITATION_FIELDS = [''id'', ''project'', ''repository'', ''revision'', ''path'', ''symbol'',
     ''start_line'', ''end_line'', ''supports'']"

definition is_lower_hex :: "char \<Rightarrow> bool" where
  "is_lower_hex c = (let n = (of_char c :: nat) in (48 \<le> n \<and> n \<le> 57) \<or> (97 \<le> n \<and> n \<le> 102))"

text \<open>\<open>^[A-Za-z0-9._:-]{1,128}$\<close>\<close>

definition citation_id_ok :: "string \<Rightarrow> bool" where
  "citation_id_ok s = (1 \<le> length s \<and> length s \<le> 128
     \<and> list_all (\<lambda>c. is_alnum c \<or> c \<in> {CHR ''.'', CHR ''_'', CHR '':'', CHR ''-''}) s)"

text \<open>\<open>^ds_[0-9a-f]{32}(_[0-9a-f]{8,32})?$\<close>\<close>

definition datasource_mount :: "string \<Rightarrow> bool" where
  "datasource_mount s =
     (take 3 s = ''ds_'' \<and>
      (let u = take 32 (drop 3 s); r = drop 35 s
       in length u = 32 \<and> list_all is_lower_hex u
          \<and> (r = [] \<or> (hd r = CHR ''_'' \<and> 8 \<le> length (tl r) \<and> length (tl r) \<le> 32 \<and> list_all is_lower_hex (tl r)))))"

section \<open>Paths and lines\<close>

text \<open>\<open>PurePosixPath\<close>: the components of a text, without empty ones and single dots.\<close>

fun split_on :: "char \<Rightarrow> string \<Rightarrow> string list" where
  "split_on d [] = [[]]"
| "split_on d (c # cs) =
     (if c = d then [] # split_on d cs
      else case split_on d cs of [] \<Rightarrow> [[c]] | p # ps \<Rightarrow> (c # p) # ps)"

definition path_parts :: "string \<Rightarrow> string list" where
  "path_parts s = filter (\<lambda>p. p \<noteq> [] \<and> p \<noteq> ''.'') (split_on (CHR ''/'') s)"

definition is_absolute :: "string \<Rightarrow> bool" where
  "is_absolute s = (take 1 s = ''/'')"

fun join_with :: "string \<Rightarrow> string list \<Rightarrow> string" where
  "join_with d [] = []"
| "join_with d [p] = p"
| "join_with d (p # q # ps) = p @ d @ join_with d (q # ps)"

definition as_posix :: "string list \<Rightarrow> string" where
  "as_posix parts = (if parts = [] then ''.'' else join_with ''/'' parts)"

definition public_path :: "string list \<Rightarrow> string" where
  "public_path parts =
     (if length parts > 1 \<and> datasource_mount (hd parts) then as_posix (tl parts) else as_posix parts)"

text \<open>\<open>str.splitlines\<close>: a line ends at one of these characters; CR LF counts once.\<close>

definition is_line_break :: "char \<Rightarrow> bool" where
  "is_line_break c = (let n = (of_char c :: nat) in (10 \<le> n \<and> n \<le> 13) \<or> (28 \<le> n \<and> n \<le> 30))"

fun splitlines :: "string \<Rightarrow> string list" where
  "splitlines [] = []"
| "splitlines (c # cs) =
     (if c = CHR 0x0D \<and> take 1 cs = [CHR 0x0A] then [] # splitlines (tl cs)
      else if is_line_break c then [] # splitlines cs
      else case splitlines cs of
             [] \<Rightarrow> [[c]]
           | l # ls \<Rightarrow> if cs = [] then [c] # l # ls else (c # l) # ls)"

section \<open>One citation\<close>

definition path_refused :: "string \<Rightarrow> bool" where
  "path_refused p = (p = [] \<or> is_absolute p \<or> ''..'' \<in> set (path_parts p) \<or> CHR 92 \<in> set p)"

definition lines_refused :: "int \<Rightarrow> int \<Rightarrow> string \<Rightarrow> bool" where
  "lines_refused a b src =
     (a < 1 \<or> b < a \<or> b > MAX_LINE_NUMBER \<or> src = [] \<or> length src > MAX_CITATION_SOURCE_CHARS
      \<or> int (length (splitlines src)) < b - a + 1)"

definition citation_dict :: "(py \<Rightarrow> string) \<Rightarrow> pydict \<Rightarrow> string \<Rightarrow> string \<Rightarrow> int \<Rightarrow> int \<Rightarrow> string \<Rightarrow> pydict" where
  "citation_dict repr d cid p a b src =
     [(''id'', PStr cid),
      (''evidence_id'', PStr (bounded repr (py_or (dget d ''evidence_id'') (PStr cid)) 128)),
      (''project'', PStr (bounded repr (dget d ''project'') 160)),
      (''repository'', PStr (bounded repr (dget d ''repository'') 240)),
      (''revision'', PStr (bounded repr (dget d ''revision'') 160)),
      (''path'', PStr (public_path (path_parts p))),
      (''symbol'', PStr (bounded repr (dget d ''symbol'') 500)),
      (''start_line'', PInt a), (''end_line'', PInt b),
      (''supports'', PStr (bounded repr (dget d ''supports'') 1000)),
      (''source'', PStr src)]"

definition sanitize_citation :: "(py \<Rightarrow> string) \<Rightarrow> py \<Rightarrow> pydict option res" where
  "sanitize_citation repr v =
     (case v of
        PDict d \<Rightarrow>
          let cid = py_strip (text_or_empty repr (dget d ''id''));
              p = py_strip (text_or_empty repr (dget d ''path''));
              src = text_or_empty repr (dget d ''source'')
          in if \<not> citation_id_ok cid \<or> path_refused p then Inr None
             else rbind (caught_int (dget d ''start_line''))
               (\<lambda>sa. case sa of
                  None \<Rightarrow> Inr None
                | Some a \<Rightarrow> rbind (caught_int (dget d ''end_line''))
                    (\<lambda>sb. case sb of
                       None \<Rightarrow> Inr None
                     | Some b \<Rightarrow>
                         if lines_refused a b src \<or> bounded repr (dget d ''revision'') 160 = []
                            \<or> bounded repr (dget d ''supports'') 1000 = []
                         then Inr None
                         else Inr (Some (citation_dict repr d cid p a b src))))
      | _ \<Rightarrow> Inr None)"

section \<open>The citations of a run\<close>

text \<open>The loop: the paths seen so far, and the citations kept.\<close>

fun collect_citations :: "(py \<Rightarrow> string) \<Rightarrow> py set \<Rightarrow> py list \<Rightarrow> pydict list res" where
  "collect_citations repr seen [] = Inr []"
| "collect_citations repr seen (v # vs) =
     rbind (sanitize_citation repr v)
       (\<lambda>c. case c of
          None \<Rightarrow> collect_citations repr seen vs
        | Some d \<Rightarrow>
            if dget d ''path'' \<in> seen then collect_citations repr seen vs
            else rbind (collect_citations repr (insert (dget d ''path'') seen) vs) (\<lambda>ds. Inr (d # ds)))"

definition sanitize_run_citations :: "(py \<Rightarrow> string) \<Rightarrow> py \<Rightarrow> pydict list res" where
  "sanitize_run_citations repr v =
     (case v of PList xs \<Rightarrow> collect_citations repr {} xs | _ \<Rightarrow> Inr [])"

definition public_fields :: "pydict \<Rightarrow> pydict res" where
  "public_fields d =
     map_res (\<lambda>k. case map_of d k of None \<Rightarrow> Inl KeyError | Some v \<Rightarrow> Inr (k, v)) PUBLIC_CITATION_FIELDS"

definition public_run_citations :: "(py \<Rightarrow> string) \<Rightarrow> py \<Rightarrow> pydict list res" where
  "public_run_citations repr v = rbind (sanitize_run_citations repr v) (map_res public_fields)"

definition numbered_lines :: "int \<Rightarrow> string list \<Rightarrow> py list" where
  "numbered_lines a ls =
     map (\<lambda>(i, l). PDict [(''number'', PInt (a + int i)), (''content'', PStr l)]) (enumerate 0 ls)"

text \<open>The code viewer's payload of a stored citation.\<close>

definition citation_source_payload :: "pydict \<Rightarrow> pydict res" where
  "citation_source_payload d =
     (case (map_of d ''start_line'', map_of d ''source'', map_of d ''end_line'') of
        (Some (PInt a), Some (PStr src), Some b) \<Rightarrow>
          rbind (public_fields d)
            (\<lambda>fs. Inr (fs @ [(''highlight_start_line'', PInt a), (''highlight_end_line'', b),
                             (''lines'', PList (numbered_lines a (splitlines src)))]))
      | _ \<Rightarrow> Inl KeyError)"

section \<open>Planned evidence\<close>

definition sanitize_planned_evidence :: "py \<Rightarrow> pydict res" where
  "sanitize_planned_evidence v =
     (case v of
        PDict d \<Rightarrow>
          rbind (case dget d ''gap_categories'' of
                   PList gs \<Rightarrow> rbind (keep_texts GAP_CATEGORIES (take 8 gs)) (\<lambda>xs. Inr [(''gap_categories'', PList xs)])
                 | _ \<Rightarrow> Inr [])
            (\<lambda>gaps. rbind (kept_if ''planner_status'' (dget d ''planner_status'') PLANNER_STATUSES)
            (\<lambda>status. Inr ((case dget d ''sufficient'' of PBool b \<Rightarrow> [(''sufficient'', PBool b)] | _ \<Rightarrow> [])
               @ gaps @ status
               @ (case dget d ''planner_rejection_reason'' of
                    PStr s \<Rightarrow> if s \<noteq> [] then [(''planner_rejection_reason'', PStr (take 500 s))] else []
                  | _ \<Rightarrow> []))))
      | _ \<Rightarrow> Inr [])"

section \<open>Inline markers\<close>

text \<open>\<open>[ \t]*\[\[\s*source:[^\]\n]*\]\]\<close> at the front, ignoring case: what follows the match.\<close>

definition is_blank :: "char \<Rightarrow> bool" where
  "is_blank c = (c = CHR '' '' \<or> c = CHR 0x09)"

definition match_marker :: "string \<Rightarrow> string option" where
  "match_marker s =
     (let a = dropWhile is_blank s; b = dropWhile is_space (drop 2 a);
          c = dropWhile (\<lambda>x. x \<noteq> CHR '']'' \<and> x \<noteq> CHR 0x0A) (drop 7 b)
      in if take 2 a = ''[['' \<and> map lower_char (take 7 b) = ''source:'' \<and> take 2 c = '']]''
         then Some (drop 2 c) else None)"

lemma match_marker_shorter: "match_marker s = Some r \<Longrightarrow> length r < length s"
proof -
  assume m: "match_marker s = Some r"
  let ?a = "dropWhile is_blank s"
  let ?b = "dropWhile is_space (drop 2 ?a)"
  let ?c = "dropWhile (\<lambda>x. x \<noteq> CHR '']'' \<and> x \<noteq> CHR 0x0A) (drop 7 ?b)"
  from m have r: "r = drop 2 ?c" and two: "take 2 ?c = '']]''"
    by (auto simp: match_marker_def Let_def split: if_splits)
  have "length ?c \<le> length (drop 7 ?b)" by (rule length_dropWhile_le)
  also have "\<dots> \<le> length ?b" by simp
  also have "\<dots> \<le> length (drop 2 ?a)" by (rule length_dropWhile_le)
  also have "\<dots> \<le> length ?a" by simp
  also have "\<dots> \<le> length s" by (rule length_dropWhile_le)
  finally have "length ?c \<le> length s" .
  moreover from arg_cong [OF two, of length] have "2 \<le> length ?c" by (simp del: length_dropWhile_le)
  ultimately show "length r < length s" by (simp add: r)
qed

function strip_source_markers :: "string \<Rightarrow> string" where
  "strip_source_markers s =
     (case match_marker s of
        Some r \<Rightarrow> strip_source_markers r
      | None \<Rightarrow> (case s of [] \<Rightarrow> [] | c # cs \<Rightarrow> c # strip_source_markers cs))"
  by pat_completeness auto

termination strip_source_markers
  by (relation "measure length") (auto dest: match_marker_shorter)

declare strip_source_markers.simps [simp del]

end
