(* ===== verification/Runtime_Events.thy ===== *)
theory Runtime_Events
  imports SL_Prelude
begin

text \<open>
  What of a node's runtime events users may see (\<open>backend/lens/runtime_events.py\<close>): skill and
  MCP identities, termination details, workflow events, tool activities and the events of a
  persisted step. Texts are ASCII. A membership test in a set hashes its value, so a list or a
  dictionary raises there. \<open>repr_of\<close> is the text of floats and containers; \<open>iso_day\<close> is the
  calendar day of \<open>datetime.fromisoformat\<close>, \<open>None\<close> its \<open>ValueError\<close>.
\<close>

record texts =
  repr_of :: "py \<Rightarrow> string"
  iso_day :: "string \<Rightarrow> string option"

section \<open>Allowlists\<close>

definition PUBLIC_EVENT_TYPES :: "string set" where
  "PUBLIC_EVENT_TYPES = {''artifact.created'', ''capability.blocked'', ''document.progress'',
     ''execution.failed'', ''verification.failed'', ''phase.changed'', ''plan.updated'',
     ''route.selected'', ''stage.updated''}"

definition ROUTE_VALUES :: "(string \<times> string set) list" where
  "ROUTE_VALUES =
     [(''intent'', {''informational'', ''action'', ''clarification''}),
      (''complexity'', {''simple'', ''complex''}),
      (''route'', {''capability_unavailable'', ''direct_answer'', ''direct_execute'', ''plan_execute''}),
      (''evidence_requirement'', {''none'', ''tool_result'', ''artifact'', ''user_input''})]"

definition PUBLIC_CAPABILITIES :: "string set" where
  "PUBLIC_CAPABILITIES = {''skill'', ''mcp'', ''workspace'', ''artifact_delivery'', ''tool''}"

definition PUBLIC_PHASES :: "string set" where
  "PUBLIC_PHASES = {''analyzing'', ''planning'', ''executing'', ''answering'', ''completed''}"

definition PUBLIC_PLAN_STATUSES :: "string set" where
  "PUBLIC_PLAN_STATUSES = {''pending'', ''in_progress'', ''completed''}"

definition PUBLIC_STAGE_STATUSES :: "string set" where
  "PUBLIC_STAGE_STATUSES = {''pending'', ''in_progress'', ''completed'', ''failed'', ''skipped''}"

definition PUBLIC_DOCUMENT_PROGRESS_STAGES :: "string set" where
  "PUBLIC_DOCUMENT_PROGRESS_STAGES = {''downloading'', ''extracting_text'', ''recognizing_images'', ''ready''}"

definition TOOL_ACTIVITY_STATUSES :: "(string \<times> string) list" where
  "TOOL_ACTIVITY_STATUSES = [(''done'', ''completed''), (''failed'', ''failed''),
     (''invoke'', ''in_progress''), (''start'', ''in_progress''), (''timeout'', ''failed'')]"

definition BUSINESS_ACTIVITY_KINDS :: "string set" where
  "BUSINESS_ACTIVITY_KINDS = {''analyzing_results'', ''count_results'', ''get_order_detail'',
     ''group_results'', ''query_orders'', ''querying_data''}"

definition PUBLIC_TERMINATION_REASONS :: "string set" where
  "PUBLIC_TERMINATION_REASONS =
     {''capability_unavailable'', ''execution_failed'', ''evidence_unavailable'',
      ''evidence_insufficient'', ''evidence_incomplete'', ''source_coverage_incomplete'',
      ''review_material_incomplete'', ''review_unavailable'', ''evidence_convergence_limit'',
      ''context_compaction_failed'', ''execution_limit'', ''turn_limit'', ''step_limit'',
      ''soft_deadline'', ''token_budget'', ''safety_terminated'', ''model_length_capped'',
      ''token_capped'', ''token_budget_wrapup'', ''loop_capped'', ''runtime_failure'',
      ''needs_user_input''}"

definition PUBLIC_ERROR_TYPES :: "string set" where
  "PUBLIC_ERROR_TYPES = {''capability'', ''configuration'', ''policy'', ''transient'', ''request'',
     ''tool'', ''verification''}"

definition PUBLIC_RUNTIME_CODES :: "string set" where
  "PUBLIC_RUNTIME_CODES =
     {''EMPTY_AGENT_RESPONSE'', ''MODEL_EMPTY_RESPONSE'', ''CONTEXT_COMPACTION_FAILED'',
      ''MODEL_STREAM_ERROR'', ''MODEL_TOOL_PROTOCOL_ERROR'', ''MODEL_UNAVAILABLE'', ''MODEL_TIMEOUT'',
      ''MODEL_QUOTA_EXCEEDED'', ''MODEL_AUTHENTICATION_ERROR'', ''MODEL_PERMISSION_DENIED'',
      ''MODEL_RATE_LIMITED'', ''MODEL_INVALID_REQUEST'', ''MODEL_NOT_FOUND'', ''NO_ACTIVITY_TIMEOUT'',
      ''RUN_CANCELLED'', ''RUN_TIMEOUT''}"

definition RECOVERY_MESSAGES :: "(string \<times> string) list" where
  "RECOVERY_MESSAGES =
     [(''capability'', ''Use an assistant with the required operation or ask an administrator to bind that capability.''),
      (''configuration'', ''Ask an administrator to configure or authorize it.''),
      (''policy'', ''Continue from the evidence already collected.''),
      (''transient'', ''Retry later or use another available capability.''),
      (''request'', ''Provide the missing or corrected input, then retry.''),
      (''tool'', ''Use another available capability or contact an administrator.''),
      (''verification'', ''Review the execution details and retry; no verified result was returned.'')]"

section \<open>Loaded skills and MCP servers\<close>

definition identity_fields :: "string list \<Rightarrow> pydict \<Rightarrow> pydict" where
  "identity_fields ks d = map (\<lambda>k. (k, dget d k)) (filter (\<lambda>k. dget d k \<noteq> PNone) ks)"

definition loaded :: "string list \<Rightarrow> py \<Rightarrow> pydict list res" where
  "loaded ks items =
     rbind (py_iter (py_or items (PList [])))
       (\<lambda>vs. Inr (map (identity_fields ks \<circ> dict_of) (filter is_dict vs)))"

definition sanitize_loaded_skills :: "py \<Rightarrow> pydict list res" where
  "sanitize_loaded_skills =
     loaded [''skill_uuid'', ''skill_package_name'', ''skill_name'', ''version'', ''content_hash'']"

definition sanitize_loaded_mcps :: "py \<Rightarrow> pydict list res" where
  "sanitize_loaded_mcps =
     loaded [''mcp_uuid'', ''mcp_name'', ''version'', ''content_hash'', ''transport'']"

section \<open>Arguments of a command\<close>

definition text_cut :: "(py \<Rightarrow> string) \<Rightarrow> py \<Rightarrow> nat \<Rightarrow> string" where
  "text_cut repr v limit = take limit (text_or_empty repr v)"

definition safe_activity_id :: "(py \<Rightarrow> string) \<Rightarrow> py \<Rightarrow> string" where
  "safe_activity_id repr v =
     (let s = py_strip (text_cut repr v 64)
      in if s = [] \<or> \<not> is_ascii s \<or> \<not> list_all (\<lambda>c. is_alnum c \<or> c \<in> {CHR ''-'', CHR ''_''}) s
         then [] else s)"

fun index_of :: "string \<Rightarrow> py list \<Rightarrow> nat option" where
  "index_of s [] = None"
| "index_of s (v # vs) = (if v = PStr s then Some 0 else map_option Suc (index_of s vs))"

definition replace_Z :: "string \<Rightarrow> string" where
  "replace_Z s = concat (map (\<lambda>c. if c = CHR ''Z'' then ''+00:00'' else [c]) s)"

definition date_argument :: "texts \<Rightarrow> py \<Rightarrow> string \<Rightarrow> string" where
  "date_argument tx arguments nm =
     (case arguments of
        PList xs \<Rightarrow>
          (case index_of nm xs of
             None \<Rightarrow> []
           | Some i \<Rightarrow>
               if Suc i < length xs
               then (let s = py_str (repr_of tx) (xs ! Suc i)
                     in if s = ''[REDACTED]'' \<or> length s > 64 then []
                        else (case iso_day tx (replace_Z s) of None \<Rightarrow> [] | Some d \<Rightarrow> d))
               else [])
      | _ \<Rightarrow> [])"

definition safe_order_reference :: "(py \<Rightarrow> string) \<Rightarrow> py \<Rightarrow> string" where
  "safe_order_reference repr v =
     (let s = py_strip (text_or_empty repr v)
      in if s = [] \<or> length s > 64 \<or> \<not> is_ascii s \<or> \<not> is_alnum (hd s)
            \<or> \<not> list_all (\<lambda>c. is_alnum c \<or> c \<in> {CHR ''.'', CHR ''_'', CHR ''-''}) s
         then [] else s)"

definition lowered :: "(py \<Rightarrow> string) \<Rightarrow> py \<Rightarrow> string" where
  "lowered repr v = map lower_char (py_strip (py_str repr v))"

text \<open>The loop over the positions of a list, as recursion over its suffixes.\<close>

fun after_command :: "(py \<Rightarrow> string) \<Rightarrow> string list \<Rightarrow> py list \<Rightarrow> string" where
  "after_command repr ps [] = []"
| "after_command repr ps (v # vs) =
     (if map (lowered repr) (take (length ps) (v # vs)) = ps
      then (case drop (length ps) (v # vs) of [] \<Rightarrow> [] | w # _ \<Rightarrow> py_str repr w)
      else after_command repr ps vs)"

definition argument_after :: "(py \<Rightarrow> string) \<Rightarrow> py \<Rightarrow> string list \<Rightarrow> string" where
  "argument_after repr arguments ps = (case arguments of PList xs \<Rightarrow> after_command repr ps xs | _ \<Rightarrow> [])"

definition order_reference_argument :: "(py \<Rightarrow> string) \<Rightarrow> py \<Rightarrow> string" where
  "order_reference_argument repr arguments =
     (let a = argument_after repr arguments [''order'', ''get''];
          b = (if a = [] then argument_after repr arguments [''order'', ''view''] else a);
          c = (if b = [] then argument_after repr arguments [''--code''] else b)
      in safe_order_reference repr (PStr c))"

fun has_command :: "(py \<Rightarrow> string) \<Rightarrow> string list \<Rightarrow> py list \<Rightarrow> bool" where
  "has_command repr ps [] = False"
| "has_command repr ps (v # vs) =
     (map (lowered repr) (take (length ps) (v # vs)) = ps \<or> has_command repr ps vs)"

definition contains_command :: "(py \<Rightarrow> string) \<Rightarrow> py \<Rightarrow> string list \<Rightarrow> bool" where
  "contains_command repr arguments ps = (case arguments of PList xs \<Rightarrow> has_command repr ps xs | _ \<Rightarrow> False)"

section \<open>Tool activities\<close>

definition asks_help :: "(py \<Rightarrow> string) \<Rightarrow> py \<Rightarrow> bool" where
  "asks_help repr arguments =
     (case arguments of
        PList xs \<Rightarrow> list_ex (\<lambda>v. lowered repr v \<in> {''--help'', ''-h'', ''help''}) xs | _ \<Rightarrow> False)"

definition script_kind :: "(py \<Rightarrow> string) \<Rightarrow> py \<Rightarrow> string" where
  "script_kind repr a =
     (if contains_command repr a [''auth'', ''status''] then ''checking_authentication''
      else if contains_command repr a [''auth'', ''login''] then ''authenticating''
      else if contains_command repr a [''version''] then ''checking_tool''
      else if contains_command repr a [''order''] \<and> asks_help repr a then ''reading_order_commands''
      else if contains_command repr a [''order'', ''list''] then ''query_orders''
      else if contains_command repr a [''order'', ''get''] \<or> contains_command repr a [''order'', ''view'']
      then ''get_order_detail''
      else ''querying_data'')"

definition tool_activity_kind :: "(py \<Rightarrow> string) \<Rightarrow> string \<Rightarrow> pydict \<Rightarrow> string" where
  "tool_activity_kind repr tool item =
     (if tool \<in> {''run_skill_script'', ''run_skill_artifact''}
      then script_kind repr (dget item ''args_redacted'')
      else if tool = ''analyze_structured_output''
      then (let operation = map lower_char (py_strip (text_or_empty repr (dget item ''operation'')))
            in if operation = ''count'' then ''count_results''
               else if operation = ''group_count'' then ''group_results'' else ''analyzing_results'')
      else if tool \<in> {''inspect_saved_output'', ''run_skill_transform''} then ''analyzing_results''
      else if tool = ''call_skill_api'' then ''querying_data'' else [])"

definition activity_stage_kind :: "string \<Rightarrow> string" where
  "activity_stage_kind kind =
     (if kind \<in> {''get_order_detail'', ''query_orders''} then ''order_query''
      else if kind \<in> {''authenticating'', ''checking_authentication'', ''checking_tool'', ''reading_order_commands''}
      then ''preparation''
      else if kind \<in> {''analyzing_results'', ''count_results'', ''group_results''} then ''result_analysis''
      else ''data_query'')"

text \<open>\<open>str.rpartition(".")\<close>\<close>

definition rpartition_dot :: "string \<Rightarrow> string \<times> string \<times> string" where
  "rpartition_dot s =
     (let r = rev s; ending = rev (takeWhile (\<lambda>c. c \<noteq> CHR ''.'') r)
      in case dropWhile (\<lambda>c. c \<noteq> CHR ''.'') r of
           [] \<Rightarrow> ([], [], s)
         | _ # before \<Rightarrow> (rev before, ''.'', ending))"

definition activity_event :: "pydict \<Rightarrow> pydict" where
  "activity_event payload =
     [(''event_type'', PStr ''activity.recorded''), (''visibility'', PStr ''user''), (''payload'', PDict payload)]"

definition text_field_if :: "string \<Rightarrow> string \<Rightarrow> pydict" where
  "text_field_if k s = (if s = [] then [] else [(k, PStr s)])"

definition date_fields :: "texts \<Rightarrow> py \<Rightarrow> pydict" where
  "date_fields tx a =
     (let s1 = date_argument tx a ''--start-time''; s2 = (if s1 = [] then date_argument tx a ''--start'' else s1);
          e1 = date_argument tx a ''--end-time''; e2 = (if e1 = [] then date_argument tx a ''--end'' else e1)
      in text_field_if ''start_date'' s2 @ text_field_if ''end_date'' e2)"

definition activity_payload :: "texts \<Rightarrow> pydict \<Rightarrow> string \<Rightarrow> string \<Rightarrow> string \<Rightarrow> pydict" where
  "activity_payload tx item activity_id kind status =
     [(''id'', PStr activity_id), (''kind'', PStr kind), (''stage_kind'', PStr (activity_stage_kind kind)),
      (''status'', PStr status)]
     @ (if kind = ''query_orders'' \<and> status = ''in_progress'' then date_fields tx (dget item ''args_redacted'') else [])
     @ (if kind \<in> {''query_orders'', ''get_order_detail''}
        then text_field_if ''order_ref'' (order_reference_argument (repr_of tx) (dget item ''args_redacted''))
        else [])"

definition sanitize_tool_activity :: "texts \<Rightarrow> pydict \<Rightarrow> pydict option" where
  "sanitize_tool_activity tx item =
     (let repr = repr_of tx; agent_event = text_cut repr (dget item ''agent_event'') 128
      in if dget item ''runtime_scope'' \<noteq> PStr ''general_chat'' \<or> take 5 agent_event \<noteq> ''tool.'' then None
         else case rpartition_dot (drop 5 agent_event) of (tool, sep, ending) \<Rightarrow>
           (case (sep, map_of TOOL_ACTIVITY_STATUSES ending) of
              (_ # _, Some status) \<Rightarrow>
                (let activity_id = safe_activity_id repr (dget item ''invocation_id'');
                     kind = tool_activity_kind repr tool item
                 in if activity_id = [] \<or> kind = [] then None
                    else Some (activity_event (activity_payload tx item activity_id kind status)))
            | _ \<Rightarrow> None))"

section \<open>Termination details\<close>

definition assessment_values :: "(string \<times> string set) list" where
  "assessment_values =
     [(''execution'', {''completed'', ''partial'', ''blocked''}),
      (''coverage'', {''complete'', ''incomplete'', ''unknown''}),
      (''review'', {''supported'', ''unsupported'', ''inconclusive'', ''not_requested''})]"

text \<open>\<open>{key: v for key, values in allowed.items() if isinstance(v, str) and v in values}\<close>\<close>

definition text_choices :: "(string \<times> string set) list \<Rightarrow> pydict \<Rightarrow> pydict" where
  "text_choices table d =
     concat (map (\<lambda>(k, S). case dget d k of PStr s \<Rightarrow> if s \<in> S then [(k, PStr s)] else [] | _ \<Rightarrow> []) table)"

definition public_assessment :: "py \<Rightarrow> pydict" where
  "public_assessment v =
     (case v of PDict d \<Rightarrow> text_choices assessment_values d | _ \<Rightarrow> [])"

definition assessment_field :: "py \<Rightarrow> pydict" where
  "assessment_field v =
     (if public_assessment v = [] then [] else [(''assessment'', PDict (public_assessment v))])"

definition text_values :: "string set \<Rightarrow> py list \<Rightarrow> string list" where
  "text_values S vs = List.map_filter (\<lambda>v. case v of PStr s \<Rightarrow> if s \<in> S then Some s else None | _ \<Rightarrow> None) vs"

definition public_list_field :: "string \<Rightarrow> string set \<Rightarrow> py \<Rightarrow> pydict" where
  "public_list_field k S v =
     (case v of
        PList vs \<Rightarrow> (case keep_first (text_values S vs) of [] \<Rightarrow> [] | ts \<Rightarrow> [(k, PList (map PStr ts))])
      | _ \<Rightarrow> [])"

definition public_warnings :: "string set" where
  "public_warnings = {''evidence_incomplete'', ''review_material_incomplete'', ''review_unavailable'', ''review_inconclusive''}"

definition completion_codes :: "string set" where
  "completion_codes = {''activity_evidence_unread'', ''tool_evidence_unread'', ''activity_claim_unsupported'',
     ''completion_check_failed'', ''artifact_delivery_failed''}"

definition issue_codes :: "py list \<Rightarrow> py list res" where
  "issue_codes issues = keep_texts completion_codes (map (\<lambda>d. dget (dict_of d) ''code'') (filter is_dict issues))"

definition issues_field :: "py \<Rightarrow> pydict res" where
  "issues_field v =
     (case v of
        PList issues \<Rightarrow>
          rbind (issue_codes issues)
            (\<lambda>cs. let ts = sort (remdups (List.map_filter str_of cs))
                  in Inr (if ts = [] then []
                          else [(''completion_issues'', PList (map (\<lambda>t. PDict [(''code'', PStr t)]) ts))]))
      | _ \<Rightarrow> Inr [])"

definition recovery_text :: "py \<Rightarrow> string \<Rightarrow> string" where
  "recovery_text reason error_type =
     (if error_type = ''verification'' \<and> reason = PStr ''evidence_incomplete''
      then ''Review the missing or truncated source evidence and retry with complete coverage.''
      else if error_type = ''verification'' \<and> reason = PStr ''review_material_incomplete''
      then ''Increase the answer review budget or narrow the request, then retry verification.''
      else if error_type = ''verification'' \<and> reason = PStr ''review_unavailable''
      then ''Check the review service availability and retry verification.''
      else (case map_of RECOVERY_MESSAGES error_type of None \<Rightarrow> [] | Some m \<Rightarrow> m))"

definition error_fields :: "py \<Rightarrow> py \<Rightarrow> pydict res" where
  "error_fields reason v =
     rbind (in_texts v PUBLIC_ERROR_TYPES)
       (\<lambda>b. Inr (case v of
                   PStr s \<Rightarrow> if b then [(''error_type'', v), (''recovery'', PStr (recovery_text reason s))] else []
                 | _ \<Rightarrow> []))"

definition request_reasons :: "string set" where
  "request_reasons = {''missing_input'', ''ambiguous_scope'', ''ambiguous_target''}"

definition request_field :: "(py \<Rightarrow> string) \<Rightarrow> py \<Rightarrow> py \<Rightarrow> pydict res" where
  "request_field repr reason v =
     (case v of
        PDict q \<Rightarrow>
          if reason \<noteq> PStr ''needs_user_input'' then Inr []
          else
            let i = py_strip (text_or_empty repr (dget q ''request_id''));
                t = py_strip (text_or_empty repr (dget q ''question''))
            in if i = [] \<or> length i > 128 \<or> t = [] \<or> length t > 1000 \<or> dget q ''answer_type'' \<noteq> PStr ''text''
               then Inr []
               else rbind (in_texts (dget q ''reason'') request_reasons)
                 (\<lambda>b. Inr (if b then [(''request'', PDict [(''request_id'', PStr i), (''question'', PStr t),
                                   (''reason'', dget q ''reason''), (''answer_type'', PStr ''text'')])]
                           else []))
      | _ \<Rightarrow> Inr [])"

definition termination_parts :: "(py \<Rightarrow> string) \<Rightarrow> pydict \<Rightarrow> pydict res list" where
  "termination_parts repr d =
     [Inr (assessment_field (dget d ''assessment'')),
      Inr (public_list_field ''warnings'' public_warnings (dget d ''warnings'')),
      Inr (public_list_field ''blocking_reasons'' PUBLIC_TERMINATION_REASONS (dget d ''blocking_reasons'')),
      kept_if ''reason'' (dget d ''reason'') PUBLIC_TERMINATION_REASONS,
      kept_if ''trigger'' (dget d ''trigger'') PUBLIC_TERMINATION_REASONS,
      issues_field (dget d ''completion_issues''),
      kept_if ''capability'' (dget d ''capability'') PUBLIC_CAPABILITIES,
      error_fields (dget d ''reason'') (dget d ''error_type''),
      kept_if ''code'' (dget d ''code'') PUBLIC_RUNTIME_CODES,
      request_field repr (dget d ''reason'') (dget d ''request'')]"

definition sanitize_termination_detail :: "(py \<Rightarrow> string) \<Rightarrow> py \<Rightarrow> pydict res" where
  "sanitize_termination_detail repr v =
     (case v of PDict d \<Rightarrow> gather (termination_parts repr d) | _ \<Rightarrow> Inr [])"

section \<open>Workflow events\<close>

definition positive_count :: "py \<Rightarrow> int res" where
  "positive_count v =
     rbind (caught_int (py_or v (PInt 0))) (\<lambda>r. Inr (case r of None \<Rightarrow> 0 | Some i \<Rightarrow> max i 0))"

definition capped_count :: "string \<Rightarrow> pydict \<Rightarrow> pydict res" where
  "capped_count k d = rbind (positive_count (dget d k)) (\<lambda>i. Inr [(k, PInt (min i 100))])"

definition route_payload :: "pydict \<Rightarrow> pydict res" where
  "route_payload d =
     gather (map (\<lambda>(k, S). kept_if k (dget d k) S) ROUTE_VALUES
       @ [case dget d ''required_capabilities'' of
            PList vs \<Rightarrow> rbind (keep_texts PUBLIC_CAPABILITIES (take 8 vs))
                          (\<lambda>ws. Inr [(''required_capabilities'', PList ws)])
          | _ \<Rightarrow> Inr []])"

definition progress_payload :: "pydict \<Rightarrow> pydict res" where
  "progress_payload d =
     rbind (in_texts (dget d ''stage'') PUBLIC_DOCUMENT_PROGRESS_STAGES)
       (\<lambda>b. if \<not> b then Inr []
            else gather
              [rbind (positive_count (dget d ''revision'')) (\<lambda>i. Inr [(''revision'', PInt i)]),
               Inr [(''stage'', dget d ''stage'')],
               capped_count ''document_index'' d, capped_count ''document_total'' d,
               capped_count ''image_completed'' d, capped_count ''image_total'' d])"

text \<open>\<open>(value or [])[:12]\<close> and the iteration over it; a dictionary has no slice as its key.\<close>

definition first_items :: "nat \<Rightarrow> py \<Rightarrow> py list res" where
  "first_items n v =
     (case py_or v (PList []) of
        PList xs \<Rightarrow> Inr (take n xs)
      | PStr s \<Rightarrow> Inr (map (\<lambda>c. PStr [c]) (take n s))
      | PDict _ \<Rightarrow> Inl KeyError
      | _ \<Rightarrow> Inl TypeError)"

definition public_plan_step :: "(py \<Rightarrow> string) \<Rightarrow> pydict \<Rightarrow> py res" where
  "public_plan_step repr d =
     rbind (in_texts (dget d ''status'') PUBLIC_PLAN_STATUSES)
       (\<lambda>b. Inr (PDict [(''id'', PStr (text_cut repr (dget d ''id'') 64)),
                        (''title'', PStr (text_cut repr (dget d ''title'') 240)),
                        (''status'', if b then dget d ''status'' else PStr ''pending'')]))"

definition plan_payload :: "(py \<Rightarrow> string) \<Rightarrow> pydict \<Rightarrow> pydict res" where
  "plan_payload repr d =
     rbind (first_items 12 (dget d ''steps''))
       (\<lambda>vs. rbind (map_res (public_plan_step repr \<circ> dict_of) (filter is_dict vs))
       (\<lambda>steps. rbind (positive_count (dget d ''revision''))
       (\<lambda>i. Inr [(''revision'', PInt i), (''steps'', PList steps)])))"

definition stage_payload :: "(py \<Rightarrow> string) \<Rightarrow> pydict \<Rightarrow> pydict res" where
  "stage_payload repr d =
     (let stage_id = py_strip (text_cut repr (dget d ''id'') 64);
          title = py_strip (text_cut repr (dget d ''title'') 240)
      in if stage_id = [] \<or> title = [] then Inr []
         else rbind (in_texts (dget d ''status'') PUBLIC_STAGE_STATUSES)
           (\<lambda>b. if \<not> b then Inr []
                else rbind (caught_int (py_or (dget d ''order'') (PInt 1)))
                  (\<lambda>order. rbind (positive_count (dget d ''revision''))
                  (\<lambda>i. Inr ([(''id'', PStr stage_id), (''title'', PStr title), (''status'', dget d ''status''),
                      (''order'', PInt (case order of None \<Rightarrow> 1 | Some n \<Rightarrow> min (max n 1) 12)),
                      (''revision'', PInt i)]
                     @ text_field_if ''summary'' (py_strip (text_cut repr (dget d ''summary'') 240)))))))"

definition artifact_payload :: "(py \<Rightarrow> string) \<Rightarrow> pydict \<Rightarrow> pydict res" where
  "artifact_payload repr d =
     rbind (positive_count (dget d ''byte_size''))
       (\<lambda>i. Inr (map (\<lambda>k. (k, PStr (text_cut repr (dget d k) 240)))
                  (filter (\<lambda>k. truthy (dget d k)) [''filename'', ''content_type''])
                @ [(''byte_size'', PInt i)]))"

definition sanitize_payload :: "(py \<Rightarrow> string) \<Rightarrow> string \<Rightarrow> py \<Rightarrow> pydict res" where
  "sanitize_payload repr event_type payload =
     (case payload of
        PDict d \<Rightarrow>
          if event_type = ''route.selected'' then route_payload d
          else if event_type = ''phase.changed'' then kept_if ''phase'' (dget d ''phase'') PUBLIC_PHASES
          else if event_type = ''document.progress'' then progress_payload d
          else if event_type = ''plan.updated'' then plan_payload repr d
          else if event_type = ''stage.updated'' then stage_payload repr d
          else if event_type \<in> {''capability.blocked'', ''execution.failed'', ''verification.failed''}
          then sanitize_termination_detail repr payload
          else if event_type = ''artifact.created'' then artifact_payload repr d
          else Inr []
      | _ \<Rightarrow> Inr [])"

text \<open>\<open>(item.get("payload") or {}).get("phase") == "completed"\<close>\<close>

definition phase_completed :: "py \<Rightarrow> bool res" where
  "phase_completed v =
     (case py_or v (PDict []) of PDict d \<Rightarrow> Inr (dget d ''phase'' = PStr ''completed'') | _ \<Rightarrow> Inl AttributeError)"

definition name_field :: "(py \<Rightarrow> string) \<Rightarrow> pydict \<Rightarrow> pydict" where
  "name_field repr d =
     text_field_if ''assistant_name'' (py_strip (text_cut repr (dget d ''assistant_name'') 160))"

definition workflow_event :: "(py \<Rightarrow> string) \<Rightarrow> string \<Rightarrow> pydict \<Rightarrow> pydict res" where
  "workflow_event repr event_type d =
     rbind (if event_type = ''phase.changed'' then phase_completed (dget d ''payload'') else Inr False)
       (\<lambda>finished. rbind (sanitize_payload repr event_type (dget d ''payload''))
       (\<lambda>p. Inr ([(''agent_event'', PStr (''workflow.'' @ event_type)),
                  (''activity'', PStr (if finished then ''completed'' else ''running'')),
                  (''event_type'', PStr event_type), (''visibility'', PStr ''user''), (''payload'', PDict p)]
                 @ name_field repr d)))"

definition plain_event :: "texts \<Rightarrow> pydict \<Rightarrow> pydict option" where
  "plain_event tx d =
     (let repr = repr_of tx; agent_event = text_cut repr (dget d ''agent_event'') 128;
          activity = text_cut repr (dget d ''activity'') 64
      in if dget d ''runtime_scope'' = PStr ''general_chat'' \<and> take 12 agent_event = ''model.round.'' then None
         else case sanitize_tool_activity tx d of
                Some e \<Rightarrow> Some e
              | None \<Rightarrow>
                  if agent_event = [] \<and> activity = [] then None
                  else Some ([(''agent_event'', PStr agent_event), (''activity'', PStr activity)] @ name_field repr d))"

definition sanitize_runtime_event :: "texts \<Rightarrow> py \<Rightarrow> pydict option res" where
  "sanitize_runtime_event tx item =
     (case item of
        PDict d \<Rightarrow>
          rbind (if dget d ''visibility'' = PStr ''user'' then in_texts (dget d ''event_type'') PUBLIC_EVENT_TYPES
                 else Inr False)
            (\<lambda>public. case dget d ''event_type'' of
               PStr t \<Rightarrow> if public then rbind (workflow_event (repr_of tx) t d) (\<lambda>e. Inr (Some e))
                         else Inr (plain_event tx d)
             | _ \<Rightarrow> Inr (plain_event tx d))
      | _ \<Rightarrow> Inr None)"

section \<open>The events of a step\<close>

definition summary_activity_event :: "(py \<Rightarrow> string) \<Rightarrow> string \<Rightarrow> pydict \<Rightarrow> pydict" where
  "summary_activity_event repr status ctx =
     activity_event ([(''id'', PStr ''summarize-results''), (''kind'', PStr ''summarizing_results''),
        (''stage_kind'', PStr ''result_analysis''), (''status'', PStr status)]
      @ text_field_if ''order_ref'' (safe_order_reference repr (dget ctx ''order_ref'')))"

record detail_state =
  out_events :: "pydict list"
  activity_by_id :: "(string \<times> pydict) list"
  has_business_result :: bool
  summary_context :: pydict

definition sticky_keys :: "string list" where
  "sticky_keys = [''kind'', ''stage_kind'', ''start_date'', ''end_date'', ''order_ref'']"

definition stick :: "pydict \<Rightarrow> string \<Rightarrow> pydict \<Rightarrow> pydict" where
  "stick previous k payload =
     (if truthy (dget previous k) then AList.update k (dget previous k) payload else payload)"

definition activity_id_of :: "pydict \<Rightarrow> string" where
  "activity_id_of payload = (case dget payload ''id'' of PStr s \<Rightarrow> s | _ \<Rightarrow> [])"

definition settled_payload :: "(string \<times> pydict) list \<Rightarrow> pydict \<Rightarrow> pydict" where
  "settled_payload by_id payload =
     (case map_of by_id (activity_id_of payload) of
        None \<Rightarrow> payload | Some previous \<Rightarrow> fold (stick previous) sticky_keys payload)"

definition is_business_result :: "pydict \<Rightarrow> bool" where
  "is_business_result payload =
     (dget payload ''status'' = PStr ''completed''
      \<and> (case dget payload ''kind'' of PStr s \<Rightarrow> s \<in> BUSINESS_ACTIVITY_KINDS | _ \<Rightarrow> False))"

definition note_activity :: "pydict \<Rightarrow> detail_state \<Rightarrow> detail_state" where
  "note_activity payload0 st =
     (let payload = settled_payload (activity_by_id st) payload0;
          st1 = st\<lparr>activity_by_id := AList.update (activity_id_of payload0) payload (activity_by_id st),
                   out_events := out_events st @ [activity_event payload]\<rparr>
      in if is_business_result payload
         then st1\<lparr>has_business_result := True,
                  summary_context := (if truthy (dget payload ''order_ref'')
                                      then [(''order_ref'', dget payload ''order_ref'')] else [])\<rparr>
         else st1)"

definition note_event :: "pydict \<Rightarrow> detail_state \<Rightarrow> detail_state" where
  "note_event e st =
     (if dget e ''event_type'' = PStr ''activity.recorded'' then note_activity (dict_of (dget e ''payload'')) st
      else st\<lparr>out_events := out_events st @ [e]\<rparr>)"

definition is_final_answer :: "(py \<Rightarrow> string) \<Rightarrow> pydict \<Rightarrow> detail_state \<Rightarrow> bool res" where
  "is_final_answer repr d st =
     (if dget d ''runtime_scope'' = PStr ''general_chat''
         \<and> text_cut repr (dget d ''agent_event'') 128 = ''deepagents.runtime.done'' \<and> has_business_result st
      then rbind (positive_count (dget d ''answer_chars'')) (\<lambda>i. Inr (i \<noteq> 0))
      else Inr False)"

text \<open>One round of the loop: \<open>item.get\<close> comes before any type check.\<close>

definition detail_item :: "texts \<Rightarrow> py \<Rightarrow> detail_state \<Rightarrow> detail_state res" where
  "detail_item tx item st =
     (case item of
        PDict d \<Rightarrow>
          rbind (is_final_answer (repr_of tx) d st)
            (\<lambda>final. if final
               then Inr (st\<lparr>out_events := out_events st
                              @ [summary_activity_event (repr_of tx) ''completed'' (summary_context st)]\<rparr>)
               else rbind (sanitize_runtime_event tx item)
                      (\<lambda>e. Inr (case e of None \<Rightarrow> st | Some e \<Rightarrow> note_event e st)))
      | _ \<Rightarrow> Inl AttributeError)"

fun detail_items :: "texts \<Rightarrow> py list \<Rightarrow> detail_state \<Rightarrow> detail_state res" where
  "detail_items tx [] st = Inr st"
| "detail_items tx (v # vs) st = rbind (detail_item tx v st) (detail_items tx vs)"

definition new_detail :: detail_state where
  "new_detail = \<lparr>out_events = [], activity_by_id = [], has_business_result = False, summary_context = []\<rparr>"

definition public_step_detail :: "texts \<Rightarrow> py \<Rightarrow> pydict list res" where
  "public_step_detail tx detail =
     (case detail of
        PDict d \<Rightarrow>
          rbind (py_iter (py_or (dget d ''events'') (PList [])))
            (\<lambda>vs. rbind (detail_items tx vs new_detail) (\<lambda>st. Inr (out_events st)))
      | _ \<Rightarrow> Inr [])"

end
