(* ===== verification/Run_Lifecycle.thy ===== *)
theory Run_Lifecycle
  imports Run_Model Citations Runtime_Events
begin

text \<open>
  The lifecycle operations of an answer run in \<open>backend/lens/services.py\<close>: the protocol
  acknowledgements of a LensNode, its step events and streamed output, the terminal frame
  (\<open>finish_lensnode_run\<close>) with everything it settles, and the cancellation of delegated
  descendants. Each runs in one transaction on locked rows, so it is one function on the
  tables; a raise rolls the transaction back (\<open>Inl\<close>). \<open>now\<close> is \<open>timezone.now()\<close>.
\<close>

section \<open>Steps\<close>

definition fail_running_steps_for_runs :: "int \<Rightarrow> nat list \<Rightarrow> step_status \<Rightarrow> db \<Rightarrow> db" where
  "fail_running_steps_for_runs now ks st db =
     update_steps (\<lambda>s. step_run s \<in> set ks \<and> step_status s = STEP_RUNNING)
       (\<lambda>s. s\<lparr>step_status := st, step_updated_at := now\<rparr>) db"

lemma fail_running_steps_frame [simp]:
  "run_ids (fail_running_steps_for_runs now ks st db) = run_ids db"
  "runs (fail_running_steps_for_runs now ks st db) = runs db"
  "executions (fail_running_steps_for_runs now ks st db) = executions db"
  "nodes (fail_running_steps_for_runs now ks st db) = nodes db"
  "sessions (fail_running_steps_for_runs now ks st db) = sessions db"
  "files (fail_running_steps_for_runs now ks st db) = files db"
  "next_uuid (fail_running_steps_for_runs now ks st db) = next_uuid db"
  "effects (fail_running_steps_for_runs now ks st db) = effects db"
  by (simp_all add: fail_running_steps_for_runs_def)

fun step_sequence_of :: "step_type \<Rightarrow> nat" where
  "step_sequence_of QUERY_REWRITE = 0"
| "step_sequence_of MULTIMODAL = 1"
| "step_sequence_of RETRIEVAL = 2"
| "step_sequence_of GENERAL_CHAT = 3"
| "step_sequence_of ANSWER = 4"
| "step_sequence_of STREAM = 5"
| "step_sequence_of (OTHER_STEP _) = 4"

section \<open>Activity and streamed output\<close>

definition RUN_ACTIVITY_THROTTLE_SECONDS :: int where
  "RUN_ACTIVITY_THROTTLE_SECONDS = 15"

definition touch_run_activity :: "int \<Rightarrow> nat \<Rightarrow> db \<Rightarrow> db" where
  "touch_run_activity now k db =
     update_runs
       (\<lambda>k' r. k' = k \<and>
          (case last_activity_at r of None \<Rightarrow> True
           | Some t \<Rightarrow> t < now - seconds RUN_ACTIVITY_THROTTLE_SECONDS))
       (\<lambda>_ r. r\<lparr>last_activity_at := Some now\<rparr>) db"

text \<open>
  The fields of a node's frame that are sanitized before they are stored; \<open>None\<close> is left as it is.
\<close>

definition if_given :: "('a \<Rightarrow> 'b res) \<Rightarrow> 'a option \<Rightarrow> 'b option res" where
  "if_given f v = (case v of None \<Rightarrow> Inr None | Some x \<Rightarrow> rbind (f x) (\<lambda>y. Inr (Some y)))"

definition clean_citations :: "env \<Rightarrow> py \<Rightarrow> py res" where
  "clean_citations en v = rbind (sanitize_run_citations (value_text en) v) (\<lambda>cs. Inr (PList (map PDict cs)))"

definition clean_evidence :: "py \<Rightarrow> py res" where
  "clean_evidence v = rbind (sanitize_planned_evidence v) (\<lambda>d. Inr (PDict d))"

definition store_results :: "py option \<Rightarrow> py option \<Rightarrow> run \<Rightarrow> run" where
  "store_results citations evidence r =
     r\<lparr>run_citations := (case citations of None \<Rightarrow> run_citations r | Some c \<Rightarrow> c),
       run_planned_evidence := (case evidence of None \<Rightarrow> run_planned_evidence r | Some p \<Rightarrow> p)\<rparr>"

text \<open>
  There is no transaction around the append: a sanitizer that raises leaves the content stored.
  The exception is the first component.
\<close>

definition append_lensnode_output ::
  "env \<Rightarrow> int \<Rightarrow> nat \<Rightarrow> string \<Rightarrow> string option \<Rightarrow> bool \<Rightarrow> py option \<Rightarrow> py option \<Rightarrow> db \<Rightarrow> exn option \<times> db" where
  "append_lensnode_output en now k content_delta final_content reset citations planned_evidence db =
     (case runs db k of
        None \<Rightarrow> (Some DoesNotExist, db)
      | Some r \<Rightarrow>
          if terminal_status (run_status r) then (None, db)
          else (case output_content r of
            None \<Rightarrow> (None, db)
          | Some content \<Rightarrow>
              let content' =
                    (case final_content of
                       Some fc \<Rightarrow> if fc \<noteq> [] then fc else content
                     | None \<Rightarrow> if reset then content_delta else content @ content_delta);
                  db1 = save_run k (\<lambda>r. r\<lparr>output_content := Some content'\<rparr>) db
              in case rbind (if_given (clean_citations en) citations)
                        (\<lambda>c. rbind (if_given clean_evidence planned_evidence) (\<lambda>p. Inr (c, p))) of
                   Inl e \<Rightarrow> (Some e, db1)
                 | Inr (c, p) \<Rightarrow> (None, touch_run_activity now k (save_run k (store_results c p) db1))))"

section \<open>Acknowledgements\<close>

text \<open>
  A protocol dispatch identifier is \<open>None\<close> when it does not parse as a UUID. The Boolean
  is the function's answer.
\<close>

definition admit_exec :: "int \<Rightarrow> bool \<Rightarrow> execution \<Rightarrow> execution" where
  "admit_exec now checkpoint_ready e =
     (let e1 = (if exec_status e = EXEC_DISPATCHED then e\<lparr>exec_status := EXEC_RUNNING\<rparr> else e);
          e2 = (if admitted_at e1 = None then e1\<lparr>admitted_at := Some now\<rparr> else e1)
      in if checkpoint_ready \<and> checkpoint_ready_at e2 = None
         then e2\<lparr>checkpoint_ready_at := Some now\<rparr> else e2)"

definition acknowledge_run_protocol_state ::
  "int \<Rightarrow> nat \<Rightarrow> nat option \<Rightarrow> nat \<Rightarrow> bool \<Rightarrow> db \<Rightarrow> bool \<times> db" where
  "acknowledge_run_protocol_state now k parsed_dispatch_id node_key checkpoint_ready db =
     (case parsed_dispatch_id of
        None \<Rightarrow> (False, db)
      | Some d \<Rightarrow>
          (case runs db k of
             None \<Rightarrow> (False, db)
           | Some r \<Rightarrow>
               if run_node r \<noteq> Some node_key then (False, db)
               else (case executions db k of
                 None \<Rightarrow> (False, db)
               | Some e \<Rightarrow>
                   if dispatch_id e \<noteq> Some d then (False, db)
                   else if terminal_status (run_status r) then (False, db)
                   else
                     let db1 = save_exec k (admit_exec now checkpoint_ready) db;
                         db2 = (if resume_by r \<noteq> None
                                then save_run k (\<lambda>r. r\<lparr>resume_by := None, run_updated_at := now\<rparr>) db1
                                else db1)
                     in (True, db2))))"

definition acknowledge_run_admitted :: "int \<Rightarrow> nat \<Rightarrow> nat option \<Rightarrow> nat \<Rightarrow> db \<Rightarrow> bool \<times> db" where
  "acknowledge_run_admitted now k d n db = acknowledge_run_protocol_state now k d n False db"

definition acknowledge_run_checkpoint_ready :: "int \<Rightarrow> nat \<Rightarrow> nat option \<Rightarrow> nat \<Rightarrow> db \<Rightarrow> bool \<times> db" where
  "acknowledge_run_checkpoint_ready now k d n db = acknowledge_run_protocol_state now k d n True db"

section \<open>Step events\<close>

text \<open>\<open>detail\<close> is the event's JSON object, or \<open>PNone\<close>.\<close>

definition new_step :: "int \<Rightarrow> nat \<Rightarrow> step_type \<Rightarrow> step_status \<Rightarrow> run_step" where
  "new_step now k ty st = \<lparr>step_run = k, step_sequence = step_sequence_of ty, step_type = ty,
     step_status = st, step_events = [], step_updated_at = now\<rparr>"

definition record_step :: "int \<Rightarrow> nat \<Rightarrow> step_type \<Rightarrow> step_status \<Rightarrow> py \<Rightarrow> db \<Rightarrow> db" where
  "record_step now k ty st detail db =
     (let mine = (\<lambda>s. step_run s = k \<and> step_sequence s = step_sequence_of ty);
          db1 = (if \<exists>s \<in> set (steps db). mine s then db
                 else db\<lparr>steps := steps db @ [new_step now k ty st]\<rparr>)
      in update_steps mine
           (\<lambda>s. s\<lparr>step_type := ty, step_status := st,
                  step_events := step_events s @ [detail], step_updated_at := now\<rparr>) db1)"

definition record_lensnode_run_event ::
  "int \<Rightarrow> nat \<Rightarrow> step_type \<Rightarrow> step_status \<Rightarrow> py \<Rightarrow> db \<Rightarrow> db res" where
  "record_lensnode_run_event now k ty st detail db =
     (case runs db k of
        None \<Rightarrow> Inl DoesNotExist
      | Some r \<Rightarrow>
          if terminal_status (run_status r) then Inr db
          else
            let queue_state = dget (dict_of detail) ''queue_state'';
                db1 = (if st = STEP_RUNNING \<and> queue_state \<noteq> PStr ''QUEUED''
                       then update_execs (\<lambda>k' e. k' = k \<and> exec_status e = EXEC_DISPATCHED)
                              (\<lambda>e. e\<lparr>exec_status := EXEC_RUNNING,
                                    admitted_at := (case admitted_at e of None \<Rightarrow> Some now | Some t \<Rightarrow> Some t)\<rparr>) db
                       else db);
                db2 = (if resume_by r \<noteq> None \<and> st = STEP_RUNNING
                       then save_run k (\<lambda>r. r\<lparr>resume_by := None\<rparr>) db1 else db1);
                db3 = record_step now k ty st detail db2
            in Inr (touch_run_activity now k db3))"

definition record_lensnode_run_activity :: "int \<Rightarrow> nat \<Rightarrow> nat option \<Rightarrow> nat \<Rightarrow> db \<Rightarrow> bool \<times> db" where
  "record_lensnode_run_activity now k parsed_dispatch_id node_key db =
     (case parsed_dispatch_id of
        None \<Rightarrow> (False, db)
      | Some d \<Rightarrow>
          (case runs db k of
             None \<Rightarrow> (False, db)
           | Some r \<Rightarrow>
               if run_node r = Some node_key \<and> active_status (run_status r)
               then (case executions db k of
                       None \<Rightarrow> (False, db)
                     | Some e \<Rightarrow> if dispatch_id e \<noteq> Some d then (False, db)
                                 else (True, touch_run_activity now k db))
               else (False, db)))"

section \<open>Cancelling descendants\<close>

definition cancellable :: "run_status \<Rightarrow> bool" where
  "cancellable s \<longleftrightarrow> s \<in> {RUN_QUEUED, RUN_RUNNING, RUN_STREAMING}"

definition active_children :: "db \<Rightarrow> nat \<Rightarrow> nat list" where
  "active_children db p = select_runs (\<lambda>_ r. parent_run r = Some p \<and> cancellable (run_status r)) db"

text \<open>The inner \<open>for\<close>: unseen children are marked, stacked and listed.\<close>

fun collect_children :: "nat list \<Rightarrow> nat list \<Rightarrow> nat list \<Rightarrow> nat list \<times> nat list" where
  "collect_children [] pending found = (pending, found)"
| "collect_children (c # cs) pending found =
     (if c \<in> set found then collect_children cs pending found
      else collect_children cs (pending @ [c]) (found @ [c]))"

lemma collect_children_set:
  "collect_children cs pending found = (p', f') \<Longrightarrow>
     set f' = set found \<union> set cs \<and> set p' = set pending \<union> (set cs - set found) \<and>
     (distinct found \<longrightarrow> distinct f') \<and> length p' + length found = length pending + length f'"
  by (induction cs pending found rule: collect_children.induct) (auto split: if_splits)

text \<open>
  The \<open>while pending\<close> loop; \<open>descendants\<close> and \<open>seen\<close> hold the same keys, so one list stands
  for both. The stack is popped at its end.
\<close>

function descend :: "db \<Rightarrow> nat list \<Rightarrow> nat list \<Rightarrow> nat list" where
  "descend db pending found =
     (if pending = [] then found
      else (let (p', f') = collect_children (active_children db (last pending)) (butlast pending) found
            in descend db p' f'))"
  by pat_completeness auto

text \<open>Each round marks a new key of the table or shortens the stack.\<close>

lemma active_children_ids: "set (active_children db p) \<subseteq> set (run_ids db)"
  by (auto simp: active_children_def set_select_runs)

lemma collect_children_all_seen:
  "set cs \<subseteq> set found \<Longrightarrow> collect_children cs pending found = (pending, found)"
  by (induction cs pending found rule: collect_children.induct) auto

lemma descend_measure:
  assumes "collect_children (active_children db p) (butlast pending) found = (p', f')" "pending \<noteq> []"
  shows "card (set (run_ids db) - set f') < card (set (run_ids db) - set found) \<or>
         f' = found \<and> length p' < length pending"
proof (cases "set (active_children db p) \<subseteq> set found")
  case True
  then show ?thesis using assms by (auto simp: collect_children_all_seen)
next
  case False
  then obtain c where "c \<in> set (active_children db p)" "c \<notin> set found" by blast
  then have "set (run_ids db) - set f' \<subset> set (run_ids db) - set found"
    using collect_children_set [OF assms(1)] active_children_ids [of db p] by auto
  then show ?thesis by (simp add: psubset_card_mono)
qed

termination descend
proof (relation "measures [\<lambda>(db, p, f). card (set (run_ids db) - set f), \<lambda>(db, p, f). length p]")
  show "wf (measures [\<lambda>(db, p, f). card (set (run_ids db) - set f), \<lambda>(db, p, f :: nat list). length (p :: nat list)])"
    by simp
next
  fix db :: db and pending found :: "nat list" and x p' f'
  assume "pending \<noteq> []"
    "x = collect_children (active_children db (last pending)) (butlast pending) found" "(p', f') = x"
  then have "card (set (run_ids db) - set f') < card (set (run_ids db) - set found) \<or>
         f' = found \<and> length p' < length pending"
    using descend_measure by metis
  then show "((db, p', f'), db, pending, found)
     \<in> measures [\<lambda>(db, p, f). card (set (run_ids db) - set f), \<lambda>(db, p, f). length p]"
    by auto
qed

declare descend.simps [simp del]

text \<open>The runs reachable from a root run through cancellable children.\<close>

inductive descendant :: "db \<Rightarrow> nat \<Rightarrow> nat \<Rightarrow> bool" for db root_run where
  child: "c \<in> set (active_children db root_run) \<Longrightarrow> descendant db root_run c"
| grandchild: "descendant db root_run p \<Longrightarrow> c \<in> set (active_children db p) \<Longrightarrow> descendant db root_run c"

lemma descend_sound:
  "set pending \<subseteq> insert root_run {c. descendant db root_run c} \<Longrightarrow> set found \<subseteq> {c. descendant db root_run c} \<Longrightarrow>
     set (descend db pending found) \<subseteq> {c. descendant db root_run c}"
proof (induction db pending found rule: descend.induct)
  case (1 db pending found)
  show ?case
  proof (cases "pending = []")
    case False
    obtain p' f' where cc: "collect_children (active_children db (last pending)) (butlast pending) found = (p', f')"
      by fastforce
    have "last pending \<in> insert root_run {c. descendant db root_run c}"
      using False 1(2) last_in_set by blast
    then have ch: "set (active_children db (last pending)) \<subseteq> {c. descendant db root_run c}"
      by (auto intro: descendant.intros)
    have "set (butlast pending) \<subseteq> insert root_run {c. descendant db root_run c}"
      using 1(2) by (meson in_set_butlastD subset_code(1))
    then have "set p' \<subseteq> insert root_run {c. descendant db root_run c}" "set f' \<subseteq> {c. descendant db root_run c}"
      using collect_children_set [OF cc] ch 1(3) by blast+
    from 1(1) [OF False cc [symmetric] refl this] show ?thesis
      using False cc by (simp add: descend.simps [of db pending])
  qed (use 1(3) in \<open>simp add: descend.simps\<close>)
qed

lemma descend_complete:
  "\<forall>p \<in> insert root_run (set found) - set pending. set (active_children db p) \<subseteq> set found \<Longrightarrow>
     set found \<subseteq> set (descend db pending found) \<and>
     (\<forall>p \<in> insert root_run (set (descend db pending found)).
        set (active_children db p) \<subseteq> set (descend db pending found))"
proof (induction db pending found rule: descend.induct)
  case (1 db pending found)
  show ?case
  proof (cases "pending = []")
    case False
    obtain p' f' where cc: "collect_children (active_children db (last pending)) (butlast pending) found = (p', f')"
      by fastforce
    note sets = collect_children_set [OF cc]
    have pend: "set pending = insert (last pending) (set (butlast pending))"
      using False by (metis append_butlast_last_id list.simps(15) rotate1.simps(2) set_rotate1)
    have "\<forall>p \<in> insert root_run (set f') - set p'. set (active_children db p) \<subseteq> set f'"
      using 1(2) sets unfolding pend by blast
    from 1(1) [OF False cc [symmetric] refl this] show ?thesis
      using False cc sets by (simp add: descend.simps [of db pending])
  qed (use 1(2) in \<open>simp add: descend.simps\<close>)
qed

lemma descend_distinct: "distinct found \<Longrightarrow> distinct (descend db pending found)"
proof (induction db pending found rule: descend.induct)
  case (1 db pending found)
  obtain p' f' where cc: "collect_children (active_children db (last pending)) (butlast pending) found = (p', f')"
    by fastforce
  show ?case
    using 1(1) [OF _ cc [symmetric] refl] collect_children_set [OF cc] 1(2) cc
    by (subst descend.simps) auto
qed

lemma set_descend: "set (descend db [root_run] []) = {c. descendant db root_run c}"
proof
  show "set (descend db [root_run] []) \<subseteq> {c. descendant db root_run c}"
    by (rule descend_sound) auto
  have closed: "\<forall>p \<in> insert root_run (set (descend db [root_run] [])).
        set (active_children db p) \<subseteq> set (descend db [root_run] [])"
    using descend_complete [of root_run "[]" "[root_run]" db] by simp
  have "descendant db root_run c \<Longrightarrow> c \<in> set (descend db [root_run] [])" for c
    by (induction rule: descendant.induct) (use closed in auto)
  then show "{c. descendant db root_run c} \<subseteq> set (descend db [root_run] [])" by auto
qed

definition cancelled_row :: "int \<Rightarrow> run \<Rightarrow> run" where
  "cancelled_row now r = r\<lparr>run_status := RUN_CANCELLED, resume_by := None,
     run_finished_at := Some now, run_updated_at := now\<rparr>"

definition cancelled_exec :: "int \<Rightarrow> execution \<Rightarrow> execution" where
  "cancelled_exec now e = e\<lparr>exec_status := EXEC_CANCELLED, exec_finished_at := Some now\<rparr>"

lemma status_cancelled [simp]:
  "run_status (cancelled_row now r) = RUN_CANCELLED" "resume_by (cancelled_row now r) = None"
  "exec_status (cancelled_exec now e) = EXEC_CANCELLED"
  by (simp_all add: cancelled_row_def cancelled_exec_def)

definition cancel_descendant_runs :: "int \<Rightarrow> nat \<Rightarrow> db \<Rightarrow> nat list \<times> db" where
  "cancel_descendant_runs now root_run db =
     (let ds = descend db [root_run] []
      in if ds = [] then ([], db)
         else (filter (\<lambda>k. k \<in> set ds) (run_ids db),
               update_execs (\<lambda>k _. k \<in> set ds)
                 (cancelled_exec now)
                 (update_runs (\<lambda>k _. k \<in> set ds)
                   (\<lambda>_. cancelled_row now) db)))"

lemma cancel_descendants_frame [simp]:
  "run_ids (snd (cancel_descendant_runs now root_run db)) = run_ids db"
  "steps (snd (cancel_descendant_runs now root_run db)) = steps db"
  "nodes (snd (cancel_descendant_runs now root_run db)) = nodes db"
  "sessions (snd (cancel_descendant_runs now root_run db)) = sessions db"
  "files (snd (cancel_descendant_runs now root_run db)) = files db"
  "next_uuid (snd (cancel_descendant_runs now root_run db)) = next_uuid db"
  "effects (snd (cancel_descendant_runs now root_run db)) = effects db"
  by (simp_all add: cancel_descendant_runs_def Let_def)

lemma cancel_descendants_runs:
  "runs (snd (cancel_descendant_runs now root_run db)) k =
     map_option (\<lambda>r. if descendant db root_run k
       then cancelled_row now r else r) (runs db k)"
proof -
  have "descend db [root_run] [] = [] \<Longrightarrow> \<not> descendant db root_run k"
    using set_descend [of db root_run] by auto
  moreover have "k \<in> set (descend db [root_run] []) \<longleftrightarrow> descendant db root_run k"
    using set_descend [of db root_run] by simp
  ultimately show ?thesis
    by (cases "runs db k") (auto simp: cancel_descendant_runs_def Let_def)
qed

lemma cancel_descendants_execs:
  "executions (snd (cancel_descendant_runs now root_run db)) k =
     map_option (\<lambda>e. if descendant db root_run k
       then cancelled_exec now e else e) (executions db k)"
proof -
  have "descend db [root_run] [] = [] \<Longrightarrow> \<not> descendant db root_run k"
    using set_descend [of db root_run] by auto
  moreover have "k \<in> set (descend db [root_run] []) \<longleftrightarrow> descendant db root_run k"
    using set_descend [of db root_run] by simp
  ultimately show ?thesis
    by (cases "executions db k") (auto simp: cancel_descendant_runs_def Let_def)
qed

text \<open>A descendant is a cancellable row of the table.\<close>

lemma descendant_active:
  "descendant db root_run k \<Longrightarrow> k \<in> set (run_ids db) \<and> (\<exists>r. runs db k = Some r \<and> cancellable (run_status r))"
  by (induction rule: descendant.induct) (auto simp: active_children_def set_select_runs)

lemma descendant_mono:
  "descendant db root_run k \<Longrightarrow> (\<And>p. set (active_children db p) \<subseteq> set (active_children db' p)) \<Longrightarrow>
     descendant db' root_run k"
  by (induction rule: descendant.induct) (auto intro: descendant.intros)

lemma descendant_cong:
  "(\<And>p. set (active_children db p) = set (active_children db' p)) \<Longrightarrow>
     descendant db root_run k \<longleftrightarrow> descendant db' root_run k"
  by (auto elim: descendant_mono)

lemma cancellable_not_terminal: "cancellable s \<longleftrightarrow> \<not> terminal_status s"
  by (cases s) (simp_all add: cancellable_def)

section \<open>Cancelling on the node\<close>

text \<open>\<open>cancel_run_on_lensnode\<close> publishes only for a run that has a node.\<close>

definition cancel_on_node :: "db \<Rightarrow> nat list \<Rightarrow> effect list" where
  "cancel_on_node db ks =
     map CancelOnNode (filter (\<lambda>k. case runs db k of None \<Rightarrow> False | Some r \<Rightarrow> run_node r \<noteq> None) ks)"

section \<open>Folding delegated children into the parent\<close>

text \<open>
  Deleting runs cascades to their execution, steps, files and trace export, and sets the
  \<open>parent_run\<close> of the runs they delegated to null.
\<close>

definition delete_runs :: "(nat \<Rightarrow> run \<Rightarrow> bool) \<Rightarrow> db \<Rightarrow> db" where
  "delete_runs P db =
     (let dead = (\<lambda>k. case runs db k of None \<Rightarrow> False | Some r \<Rightarrow> P k r)
      in db\<lparr>run_ids := filter (\<lambda>k. \<not> dead k) (run_ids db),
            runs := (\<lambda>k. if dead k then None
                         else map_option (\<lambda>r. case parent_run r of
                                None \<Rightarrow> r
                              | Some p \<Rightarrow> if dead p then r\<lparr>parent_run := None\<rparr> else r) (runs db k)),
            executions := (\<lambda>k. if dead k then None else executions db k),
            steps := filter (\<lambda>s. \<not> dead (step_run s)) (steps db),
            files := filter (\<lambda>f. \<not> dead (file_run f)) (files db),
            trace_exports := filter (\<lambda>k. \<not> dead k) (trace_exports db)\<rparr>)"

definition delegated_result_of :: "env \<Rightarrow> db \<Rightarrow> run \<Rightarrow> delegated_result" where
  "delegated_result_of en db c =
     (let a = (case sessions db (run_session c) of None \<Rightarrow> 0 | Some s \<Rightarrow> cs_assistant s)
      in \<lparr>assistant_key = a, assistant_label = take 160 (assistant_name en a),
          question = take 2000 (input_content c),
          answer = take 8000 (case output_content c of None \<Rightarrow> [] | Some t \<Rightarrow> t),
          child_status = run_status c\<rparr>)"

definition fold_results :: "env \<Rightarrow> nat \<Rightarrow> run list \<Rightarrow> db \<Rightarrow> db" where
  "fold_results en k rows db =
     save_exec k (\<lambda>e. e\<lparr>delegated_results := Some (map (delegated_result_of en db) rows)\<rparr>) db"

definition session_settled :: "db \<Rightarrow> nat \<Rightarrow> bool" where
  "session_settled db s \<longleftrightarrow>
     select_runs (\<lambda>_ r. run_session r = s \<and> \<not> terminal_status (run_status r)) db = []"

definition reap_sessions :: "nat list \<Rightarrow> db \<Rightarrow> db" where
  "reap_sessions ss db =
     (if ss = [] then db
      else let db1 = delete_runs (\<lambda>_ r. run_session r \<in> set ss) db
           in db1\<lparr>sessions := (\<lambda>s. if s \<in> set ss then None else sessions db1 s)\<rparr>)"

definition finalize_delegated_children :: "env \<Rightarrow> nat \<Rightarrow> db \<Rightarrow> db" where
  "finalize_delegated_children en k db =
     (let rows = List.map_filter (runs db)
            (select_runs (\<lambda>_ c. parent_run c = Some k \<and> terminal_status (run_status c)) db)
      in if rows = [] then db
         else reap_sessions (filter (session_settled db) (remdups (map run_session rows)))
                (fold_results en k rows db))"

section \<open>Observations and promotion\<close>

definition run_has_trace_observations :: "nat \<Rightarrow> db \<Rightarrow> bool" where
  "run_has_trace_observations k db =
     (\<exists>s \<in> set (steps db). step_run s = k \<and>
        (\<exists>ev \<in> set (step_events s). is_dict ev \<and> is_dict (dget (dict_of ev) ''observation'')))"

definition expected_count :: "env \<Rightarrow> nat \<Rightarrow> int" where
  "expected_count en k = (case document_expectation en k of None \<Rightarrow> -1 | Some n \<Rightarrow> n)"

definition queued_for_assistant :: "db \<Rightarrow> nat \<Rightarrow> nat list" where
  "queued_for_assistant db a =
     select_runs (\<lambda>_ r. run_status r = RUN_QUEUED \<and> run_source r \<noteq> SOURCE_EVALUATION \<and>
        (case sessions db (run_session r) of None \<Rightarrow> False | Some s \<Rightarrow> cs_assistant s = a)) db"

definition created_key :: "db \<Rightarrow> nat \<Rightarrow> int" where
  "created_key db k = (case runs db k of None \<Rightarrow> 0 | Some r \<Rightarrow> run_created_at r)"

definition promote_next_queued_run :: "env \<Rightarrow> nat \<Rightarrow> db \<Rightarrow> db" where
  "promote_next_queued_run en a db =
     (case sort_key (created_key db) (queued_for_assistant db a) of
        [] \<Rightarrow> db
      | k # _ \<Rightarrow> emit (EnqueueAnswer k (expected_count en k) 0) db)"

section \<open>The terminal frame\<close>

definition resolve_lensnode_error :: "env \<Rightarrow> string \<Rightarrow> string" where
  "resolve_lensnode_error en err =
     (if take 30 err \<noteq> ''DATASOURCE_TARGET_UNAVAILABLE:'' then err
      else case datasource_name en (drop 30 err) of
             None \<Rightarrow> err
           | Some name \<Rightarrow> ''DATASOURCE_UNAVAILABLE:'' @ (case name of None \<Rightarrow> [] | Some n \<Rightarrow> n))"

definition BUSY_RETRY_INTERVAL_S :: int where "BUSY_RETRY_INTERVAL_S = 5"
definition BUSY_RETRY_WINDOW_S :: int where "BUSY_RETRY_WINDOW_S = 120"

text \<open>
  The deliverable manifest of a frame: not a list, or the identifiers in it, an
  identifier being \<open>None\<close> when it is not the text of a UUID.
\<close>

datatype manifest = NotAList | Manifest "nat option list"

record frame =
  fr_status :: run_status
  fr_error :: string
  fr_outcome :: string
  fr_termination :: py
  fr_content :: "string option"
  fr_citations :: "py option"
  fr_evidence :: "py option"
  fr_deliverables :: "manifest option"

definition approved_files :: "nat \<Rightarrow> frame \<Rightarrow> db \<Rightarrow> nat list res" where
  "approved_files k fr db =
     (case fr_deliverables fr of
        None \<Rightarrow> Inr []
      | Some NotAList \<Rightarrow> Inl (ValidationError ''Invalid deliverable manifest.'')
      | Some (Manifest vs) \<Rightarrow>
          if None \<in> set vs then Inl (ValidationError ''Invalid deliverable UUID.'')
          else
            let approved = remdups (map the vs)
            in if length (filter (\<lambda>f. file_run f = k \<and> \<not> file_published f \<and> file_key f \<in> set approved) (files db))
                  \<noteq> length approved
               then Inl (ValidationError ''Deliverables must be candidates belonging to this Run.'')
               else Inr approved)"

fun outcome_text :: "run_outcome \<Rightarrow> string" where
  "outcome_text OUTCOME_COMPLETED = ''completed''"
| "outcome_text OUTCOME_PARTIAL = ''partial''"
| "outcome_text OUTCOME_BLOCKED = ''blocked''"

definition outcome_of :: "string \<Rightarrow> run_outcome option" where
  "outcome_of s = find (\<lambda>oc. outcome_text oc = s) [OUTCOME_COMPLETED, OUTCOME_PARTIAL, OUTCOME_BLOCKED]"

text \<open>Status, error, default outcome and execution status a frame settles a run with.\<close>

definition verdict :: "frame \<Rightarrow> string \<Rightarrow> run_status \<times> string \<times> run_outcome \<times> exec_status" where
  "verdict fr err =
     (if fr_status fr = RUN_AWAITING_USER_INPUT
      then (RUN_AWAITING_USER_INPUT, [], OUTCOME_BLOCKED, EXEC_COMPLETED)
      else if fr_status fr = RUN_DONE then (RUN_DONE, [], OUTCOME_COMPLETED, EXEC_COMPLETED)
      else (RUN_FAILED, if err = [] then ''LENS_RUN_FAILED'' else err, OUTCOME_BLOCKED, EXEC_FAILED))"

definition publish_files :: "nat \<Rightarrow> nat list \<Rightarrow> db \<Rightarrow> db" where
  "publish_files k approved db =
     db\<lparr>files := map (\<lambda>f. if file_run f = k \<and> \<not> file_published f \<and> file_key f \<in> set approved
                       then f\<lparr>file_published := True\<rparr> else f) (files db)\<rparr>"

definition retryable_admission_error :: "string \<Rightarrow> run \<Rightarrow> bool" where
  "retryable_admission_error err r =
     (err = ''LENSNODE_BUSY'' \<or> (err = ''LENSNODE_DRAINING'' \<and> resume_by r \<noteq> None))"

text \<open>The row as the retry branches save it.\<close>

definition unsettled_row :: "int \<Rightarrow> run_status \<Rightarrow> run \<Rightarrow> run" where
  "unsettled_row now st r = r\<lparr>run_status := st, run_error := [], run_outcome := None,
     termination_detail := [], run_updated_at := now\<rparr>"

text \<open>The payloads of a frame as they are stored.\<close>

definition clean_frame :: "env \<Rightarrow> frame \<Rightarrow> frame res" where
  "clean_frame en fr =
     rbind (sanitize_termination_detail (value_text en) (py_or (fr_termination fr) (PDict [])))
       (\<lambda>t. rbind (if_given (clean_citations en) (fr_citations fr))
       (\<lambda>c. rbind (if_given clean_evidence (fr_evidence fr))
       (\<lambda>p. Inr (fr\<lparr>fr_termination := PDict t, fr_citations := c, fr_evidence := p\<rparr>))))"

text \<open>The row a terminal frame leaves; the frame is a clean one.\<close>

definition settled_row :: "env \<Rightarrow> int \<Rightarrow> frame \<Rightarrow> string \<Rightarrow> run \<Rightarrow> run" where
  "settled_row en now fr err r =
     (case verdict fr err of (st, er, default_outcome, _) \<Rightarrow>
        r\<lparr>run_status := st, run_error := er,
          run_outcome := Some (case outcome_of (fr_outcome fr) of None \<Rightarrow> default_outcome | Some oc \<Rightarrow> oc),
          termination_detail := dict_of (fr_termination fr),
          output_content := (case fr_content fr of
              None \<Rightarrow> output_content r
            | Some c \<Rightarrow> if c \<noteq> [] \<and> output_content r \<noteq> None then Some c else output_content r),
          run_citations := (case fr_citations fr of None \<Rightarrow> run_citations r | Some c \<Rightarrow> c),
          run_planned_evidence := (case fr_evidence fr of
              None \<Rightarrow> run_planned_evidence r | Some p \<Rightarrow> p),
          resume_by := None, run_finished_at := Some now, run_updated_at := now\<rparr>)"

text \<open>The on-commit work of a settled run, in the order it is registered.\<close>

definition title_effects :: "nat \<Rightarrow> run \<Rightarrow> db \<Rightarrow> effect list" where
  "title_effects k r db =
     (case sessions db (run_session r) of
        None \<Rightarrow> []
      | Some s \<Rightarrow>
          if run_status r = RUN_DONE \<and> run_outcome r \<noteq> Some OUTCOME_BLOCKED
             \<and> (case output_content r of None \<Rightarrow> False | Some c \<Rightarrow> py_strip c \<noteq> [])
             \<and> \<not> cs_title_manually_edited s \<and> cs_title_pending s
          then [GenerateTitle (run_session r) k] else [])"

definition register_trace_export :: "nat \<Rightarrow> db \<Rightarrow> db" where
  "register_trace_export k db =
     (if run_has_trace_observations k db \<and> k \<notin> set (trace_exports db)
      then db\<lparr>trace_exports := trace_exports db @ [k]\<rparr> else db)"

definition run_assistant :: "db \<Rightarrow> run \<Rightarrow> nat" where
  "run_assistant db r = (case sessions db (run_session r) of None \<Rightarrow> 0 | Some s \<Rightarrow> cs_assistant s)"

text \<open>
  The row, its deliverables, descendants, steps and execution; the commands to the nodes
  of the cancelled descendants.
\<close>

definition close_run :: "env \<Rightarrow> int \<Rightarrow> nat \<Rightarrow> frame \<Rightarrow> string \<Rightarrow> nat list \<Rightarrow> run \<Rightarrow> db \<Rightarrow> effect list \<times> db" where
  "close_run en now k fr err approved r db =
     (let db1 = (if fr_status fr = RUN_DONE \<and> fr_outcome fr \<noteq> ''blocked'' \<and> output_content r \<noteq> None
                 then publish_files k approved db else db);
          r' = settled_row en now fr err r;
          db2 = save_run k (\<lambda>_. r') db1;
          (ds, db3) = cancel_descendant_runs now k db2;
          db4 = fail_running_steps_for_runs now [k]
                  (if run_status r' \<in> {RUN_DONE, RUN_AWAITING_USER_INPUT} then STEP_DONE else STEP_FAILED) db3
      in (cancel_on_node db2 ds,
          save_exec k (\<lambda>e. e\<lparr>exec_status := snd (snd (snd (verdict fr err))),
                            exec_finished_at := Some now\<rparr>) db4))"

text \<open>What follows from a settled row: trace export, delegated children, promotion, alert.\<close>

definition after_settle :: "env \<Rightarrow> nat \<Rightarrow> nat \<Rightarrow> effect list \<Rightarrow> run \<Rightarrow> db \<Rightarrow> db" where
  "after_settle en k assistant cancels r' db =
     (let on_commit = cancels @ title_effects k r' db
            @ (if run_has_trace_observations k db then [ExportTrace k] else [])
            @ (if run_source r' = SOURCE_EVALUATION then [FinalizeCase k] else []);
          db1 = register_trace_export k db;
          db2 = (if parent_run r' = None then finalize_delegated_children en k db1 else db1);
          db3 = promote_next_queued_run en assistant db2;
          db4 = (if parent_run r' = None \<and> run_status r' \<in> {RUN_DONE, RUN_FAILED}
                 then emit (AlertEvaluation k) db3 else db3)
      in emit_all on_commit db4)"

definition settle_run :: "env \<Rightarrow> int \<Rightarrow> nat \<Rightarrow> frame \<Rightarrow> string \<Rightarrow> nat list \<Rightarrow> run \<Rightarrow> db \<Rightarrow> db" where
  "settle_run en now k fr err approved r db =
     (case close_run en now k fr err approved r db of (cancels, db1) \<Rightarrow>
        after_settle en k (run_assistant db r) cancels (settled_row en now fr err r) db1)"

definition finish_lensnode_run :: "env \<Rightarrow> int \<Rightarrow> nat \<Rightarrow> frame \<Rightarrow> db \<Rightarrow> db res" where
  "finish_lensnode_run en now k fr db =
     (case runs db k of
        None \<Rightarrow> Inr db
      | Some r \<Rightarrow>
          if terminal_status (run_status r) then Inr db
          else
            let err = resolve_lensnode_error en (fr_error fr)
            in if fr_status fr = RUN_FAILED \<and> retryable_admission_error err r \<and> resume_by r \<noteq> None
               then
                 let db1 = save_run k (unsettled_row now RUN_RUNNING) db
                 in Inr (if the (resume_by r) > now
                         then emit (RetryResume k (seconds BUSY_RETRY_INTERVAL_S)) db1 else db1)
               else if fr_status fr = RUN_FAILED \<and> retryable_admission_error err r
                       \<and> now - run_created_at r < seconds BUSY_RETRY_WINDOW_S
               then Inr (emit (EnqueueAnswer k (expected_count en k) (seconds BUSY_RETRY_INTERVAL_S))
                          (save_run k (unsettled_row now RUN_QUEUED) db))
               else rbind (approved_files k fr db)
                      (\<lambda>approved. rbind (clean_frame en fr)
                      (\<lambda>fr'. Inr (settle_run en now k fr' err approved r db))))"

section \<open>Cancellation by a user\<close>

text \<open>
  \<open>AdminRunCancelView.post\<close> locks the row it checks. The commands to the node follow the
  commit.
\<close>

definition admin_cancel_run :: "int \<Rightarrow> nat \<Rightarrow> db \<Rightarrow> db" where
  "admin_cancel_run now k db =
     (case runs db k of
        None \<Rightarrow> db
      | Some r \<Rightarrow>
          if \<not> cancellable (run_status r) then db
          else
            let db1 = save_run k (cancelled_row now) db;
                db2 = save_exec k (cancelled_exec now) db1;
                (ds, db3) = cancel_descendant_runs now k db2
            in emit_all (cancel_on_node db [k] @ cancel_on_node db ds) db3)"

text \<open>
  The user's cancel (\<open>RunViewSet.cancel\<close>) reads the row without a lock: \<open>seen\<close> is the
  status it read, and the rest runs later.
\<close>

definition user_cancel_run :: "int \<Rightarrow> nat \<Rightarrow> run_status \<Rightarrow> db \<Rightarrow> db" where
  "user_cancel_run now k seen db =
     (if terminal_status seen then db
      else
        let db1 = save_run k (cancelled_row now) db;
            db2 = save_exec k (cancelled_exec now) db1;
            (ds, db3) = cancel_descendant_runs now k db2
        in emit_all (cancel_on_node db [k] @ cancel_on_node db ds) db3)"

end
