(* ===== verification/Run_Recovery.thy ===== *)
theory Run_Recovery
  imports Run_Lifecycle
begin

text \<open>
  Recovery of runs whose node went away (\<open>backend/lens/services.py\<close>) and the Celery tasks
  that fail, park, resume or reap them (\<open>backend/lens/tasks.py\<close>). Parking a run keeps it
  \<open>RUNNING\<close> and sets \<open>resume_by\<close>. A task body is one function on the tables; where the
  source reads, computes and only then locks and writes, the two halves are two functions.
\<close>

section \<open>A node is gone\<close>

definition fail_row :: "int \<Rightarrow> string \<Rightarrow> run \<Rightarrow> run" where
  "fail_row now err r = r\<lparr>run_status := RUN_FAILED, run_error := err, resume_by := None,
     run_finished_at := Some now, run_updated_at := now\<rparr>"

definition active_on_node :: "nat \<Rightarrow> db \<Rightarrow> nat list" where
  "active_on_node n db = select_runs (\<lambda>_ r. run_node r = Some n \<and> active_status (run_status r)) db"

definition fail_active_runs_for_lensnode :: "int \<Rightarrow> nat \<Rightarrow> db \<Rightarrow> nat \<times> db" where
  "fail_active_runs_for_lensnode now n db =
     (let ks = active_on_node n db
      in if ks = [] then (0, db)
         else (length ks,
               emit_all (map AlertEvaluation ks)
                 (fail_running_steps_for_runs now ks STEP_FAILED
                   (update_runs (\<lambda>k _. k \<in> set ks) (\<lambda>_. fail_row now ''LENSNODE_DISCONNECTED'') db))))"

definition close_open_execs :: "int \<Rightarrow> nat list \<Rightarrow> db \<Rightarrow> db" where
  "close_open_execs now ks db =
     update_execs (\<lambda>k e. k \<in> set ks \<and> open_exec (exec_status e))
       (\<lambda>e. e\<lparr>exec_status := EXEC_FAILED, exec_finished_at := Some now\<rparr>) db"

definition park_row :: "int \<Rightarrow> int \<Rightarrow> run \<Rightarrow> run" where
  "park_row now deadline r =
     (if deadline \<le> now then fail_row now ''LENSNODE_RESUME_EXPIRED'' r
      else r\<lparr>run_status := RUN_RUNNING, resume_by := Some deadline, run_updated_at := now\<rparr>)"

definition mark_active_runs_awaiting_resume :: "env \<Rightarrow> int \<Rightarrow> nat \<Rightarrow> db \<Rightarrow> nat \<times> db" where
  "mark_active_runs_awaiting_resume en now n db =
     (if \<not> supports_run_checkpoint_resume (nodes db n) then fail_active_runs_for_lensnode now n db
      else
        let ks = active_on_node n db;
            deadline = (\<lambda>k. case runs db k of None \<Rightarrow> now | Some r \<Rightarrow> get_run_resume_deadline en now db k r);
            expired = filter (\<lambda>k. deadline k \<le> now) ks;
            waiting = filter (\<lambda>k. \<not> deadline k \<le> now) ks;
            db1 = update_runs (\<lambda>k _. k \<in> set ks) (\<lambda>k. park_row now (deadline k)) db;
            db2 = fail_running_steps_for_runs now ks STEP_FAILED db1;
            db3 = close_open_execs now expired db2
        in if ks = [] then (0, db)
           else (length ks,
                 emit_all (map AlertEvaluation expired
                   @ map (\<lambda>k. ScheduleExpiration k (max (deadline k - now) 0)) waiting) db3))"

text \<open>
  \<open>check_lensnode_disconnect_grace_period\<close>: \<open>scheduled_at\<close> is \<open>None\<close> when the stored text is
  not a date. The second read of the node is the same one, as the task is one step here.
\<close>

definition same_episode :: "int option \<Rightarrow> node \<Rightarrow> bool" where
  "same_episode scheduled_at nd =
     (case (disconnected_at nd, scheduled_at) of
        (Some d, Some s) \<Rightarrow> \<bar>d - s\<bar> \<le> seconds 1
      | _ \<Rightarrow> False)"

definition check_lensnode_disconnect_grace_period :: "env \<Rightarrow> int \<Rightarrow> nat \<Rightarrow> int option \<Rightarrow> db \<Rightarrow> db" where
  "check_lensnode_disconnect_grace_period en now n scheduled_at db =
     (case nodes db n of
        None \<Rightarrow> db
      | Some nd \<Rightarrow>
          if node_status nd = NODE_ONLINE \<or> \<not> same_episode scheduled_at nd then db
          else emit (ReconcileConversions n) (snd (mark_active_runs_awaiting_resume en now n db)))"

section \<open>Resuming parked runs\<close>

text \<open>A run whose execution never started on the node goes back to the queue.\<close>

definition requeue_run :: "env \<Rightarrow> int \<Rightarrow> nat \<Rightarrow> db \<Rightarrow> db" where
  "requeue_run en now k db =
     emit (EnqueueAnswer k (expected_count en k) 0)
       (save_exec k (\<lambda>e. e\<lparr>exec_status := EXEC_QUEUED, dispatch_id := None, admitted_at := None,
                          checkpoint_ready_at := None\<rparr>)
         (save_run k (\<lambda>r. r\<lparr>run_status := RUN_QUEUED, resume_by := None, last_activity_at := Some now,
                           run_error := [], run_outcome := None, termination_detail := [],
                           run_updated_at := now\<rparr>) db))"

text \<open>A fresh dispatch of the same run to its node; \<open>uuid4()\<close> is the next unused number.\<close>

definition redispatch_run :: "int \<Rightarrow> nat \<Rightarrow> db \<Rightarrow> db" where
  "redispatch_run now k db =
     (let d = next_uuid db
      in emit (Dispatch k (Some d))
           ((save_exec k (\<lambda>e. e\<lparr>dispatch_id := Some d\<rparr>)
             (save_run k (\<lambda>r. r\<lparr>run_status := RUN_STREAMING, last_activity_at := Some now,
                               run_updated_at := now\<rparr>) db))\<lparr>next_uuid := Suc d\<rparr>))"

definition resume_awaiting_run :: "env \<Rightarrow> int \<Rightarrow> nat \<Rightarrow> db \<Rightarrow> (bool \<times> db) res" where
  "resume_awaiting_run en now k db =
     (case runs db k of
        None \<Rightarrow> Inr (False, db)
      | Some r \<Rightarrow>
          (case (case run_node r of None \<Rightarrow> None | Some n \<Rightarrow> nodes db n) of
             None \<Rightarrow> Inr (False, db)
           | Some nd \<Rightarrow>
               if node_status nd \<noteq> NODE_ONLINE \<or> \<not> active_status (run_status r)
                  \<or> (case resume_by r of None \<Rightarrow> True | Some t \<Rightarrow> t \<le> now)
               then Inr (False, db)
               else (case executions db k of
                  None \<Rightarrow> Inl DoesNotExist
                | Some e \<Rightarrow>
                    if exec_status e \<in> {EXEC_QUEUED, EXEC_DISPATCHED} then Inr (True, requeue_run en now k db)
                    else if exec_status e \<noteq> EXEC_RUNNING then Inr (False, db)
                    else if \<not> supports_run_checkpoint_resume (Some nd) then Inr (False, db)
                    else if supports_run_admission_checkpoint (Some nd) \<and> checkpoint_ready_at e = None
                    then Inr (False, db)
                    else Inr (True, redispatch_run now k db))))"

text \<open>
  One pass of the loop of \<open>resume_awaiting_runs_for_lensnode\<close>. A dispatch that raises rolls
  the pass back and is logged. The Boolean says whether the run counts as recovered.
\<close>

definition claimed_on_report :: "int \<Rightarrow> run \<Rightarrow> bool" where
  "claimed_on_report report_at r =
     (run_status r = RUN_STREAMING \<and> (case last_activity_at r of None \<Rightarrow> True | Some t \<Rightarrow> t \<ge> report_at))"

definition resume_pass :: "env \<Rightarrow> int \<Rightarrow> nat \<Rightarrow> int \<Rightarrow> nat \<Rightarrow> db \<Rightarrow> bool \<times> db" where
  "resume_pass en now n report_at k db =
     (case runs db k of
        None \<Rightarrow> (False, db)
      | Some r \<Rightarrow>
          if run_node r \<noteq> Some n \<or> \<not> active_status (run_status r) \<or> claimed_on_report report_at r
             \<or> (case resume_by r of None \<Rightarrow> True | Some t \<Rightarrow> t \<le> now)
          then (False, db)
          else (case executions db k of
             None \<Rightarrow> (False, db)
           | Some e \<Rightarrow>
               if exec_status e \<in> {EXEC_QUEUED, EXEC_DISPATCHED} then (True, requeue_run en now k db)
               else if exec_status e \<noteq> EXEC_RUNNING then (False, db)
               else if \<not> supports_run_checkpoint_resume (nodes db n)
               then (False,
                     emit (AlertEvaluation k)
                       (fail_running_steps_for_runs now [k] STEP_FAILED
                         (save_exec k (\<lambda>e. e\<lparr>exec_status := EXEC_FAILED, exec_finished_at := Some now\<rparr>)
                           (save_run k (fail_row now ''LENSNODE_RESUME_UNSUPPORTED'') db))))
               else if supports_run_admission_checkpoint (nodes db n) \<and> checkpoint_ready_at e = None
               then (False, db)
               else if dispatch_ok en k then (True, redispatch_run now k db)
               else (False, db)))"

fun resume_loop :: "env \<Rightarrow> int \<Rightarrow> nat \<Rightarrow> int \<Rightarrow> nat list \<Rightarrow> db \<Rightarrow> nat \<times> db" where
  "resume_loop en now n report_at [] db = (0, db)"
| "resume_loop en now n report_at (k # ks) db =
     (case resume_pass en now n report_at k db of (b, db1) \<Rightarrow>
        (case resume_loop en now n report_at ks db1 of (c, db2) \<Rightarrow> (if b then Suc c else c, db2)))"

definition resume_candidates :: "int \<Rightarrow> nat \<Rightarrow> int \<Rightarrow> nat list \<Rightarrow> db \<Rightarrow> nat list" where
  "resume_candidates now n report_at reported db =
     select_runs (\<lambda>k r. run_node r = Some n \<and> (case resume_by r of None \<Rightarrow> False | Some t \<Rightarrow> t > now)
        \<and> k \<notin> set reported
        \<and> (run_status r = RUN_RUNNING
           \<or> run_status r = RUN_STREAMING
             \<and> (case last_activity_at r of None \<Rightarrow> True | Some t \<Rightarrow> t < report_at))) db"

definition resume_awaiting_runs_for_lensnode ::
  "env \<Rightarrow> int \<Rightarrow> nat \<Rightarrow> nat list \<Rightarrow> db \<Rightarrow> (nat \<times> db) res" where
  "resume_awaiting_runs_for_lensnode en now n reported db =
     (case nodes db n of
        None \<Rightarrow> Inl AttributeError
      | Some nd \<Rightarrow>
          (let report_at = node_updated_at nd
           in Inr (resume_loop en now n report_at (resume_candidates now n report_at reported db) db)))"

definition retry_awaiting_run_resume :: "env \<Rightarrow> int \<Rightarrow> nat \<Rightarrow> db \<Rightarrow> (nat \<times> db) res" where
  "retry_awaiting_run_resume en now k db =
     (case runs db k of
        None \<Rightarrow> Inr (0, db)
      | Some r \<Rightarrow>
          if run_status r = RUN_RUNNING \<and> (case resume_by r of None \<Rightarrow> False | Some t \<Rightarrow> t > now)
          then (case run_node r of
                  None \<Rightarrow> Inr (0, db)
                | Some n \<Rightarrow> resume_awaiting_runs_for_lensnode en now n [] db)
          else Inr (0, db))"

section \<open>Reconciling a reconnecting node\<close>

definition RECONCILE_GRACE_SECONDS :: int where "RECONCILE_GRACE_SECONDS = 60"

definition get_reconcile_confirm_grace_seconds :: "env \<Rightarrow> int" where
  "get_reconcile_confirm_grace_seconds en =
     (case confirm_grace_setting en of
        None \<Rightarrow> 10
      | Some v \<Rightarrow> (case py_int v of Inl _ \<Rightarrow> 10 | Inr i \<Rightarrow> max 1 i))"

definition reconcile_candidates :: "int \<Rightarrow> nat \<Rightarrow> nat list \<Rightarrow> db \<Rightarrow> nat list" where
  "reconcile_candidates now n active db =
     select_runs (\<lambda>k r. run_node r = (case nodes db n of None \<Rightarrow> None | Some _ \<Rightarrow> Some n)
        \<and> active_status (run_status r) \<and> resume_by r = None
        \<and> (case executions db k of None \<Rightarrow> False | Some e \<Rightarrow> exec_status e \<in> {EXEC_DISPATCHED, EXEC_RUNNING})
        \<and> k \<notin> set active
        \<and> (supports_run_checkpoint_resume (nodes db n)
           \<or> (case run_started_at r of None \<Rightarrow> True
              | Some t \<Rightarrow> t \<le> now - seconds RECONCILE_GRACE_SECONDS))) db"

definition orphan_countdown :: "env \<Rightarrow> int \<Rightarrow> run \<Rightarrow> int" where
  "orphan_countdown en now r =
     (let age = (case run_started_at r of None \<Rightarrow> 0 | Some t \<Rightarrow> max (now - t) 0)
      in max (seconds (get_reconcile_confirm_grace_seconds en))
             (max (seconds RECONCILE_GRACE_SECONDS - age) 0))"

definition reconcile_lensnode_active_runs :: "env \<Rightarrow> int \<Rightarrow> nat \<Rightarrow> nat list \<Rightarrow> db \<Rightarrow> nat \<times> db" where
  "reconcile_lensnode_active_runs en now n active db =
     (let ks = reconcile_candidates now n active db
      in (length ks,
          emit_all (List.map_filter
            (\<lambda>k. map_option (\<lambda>r. ConfirmOrphan k (orphan_countdown en now r)) (runs db k)) ks) db))"

definition stale_activity :: "env \<Rightarrow> int \<Rightarrow> run \<Rightarrow> bool" where
  "stale_activity en now r =
     (case last_activity_at r of None \<Rightarrow> True
      | Some t \<Rightarrow> t \<le> now - seconds (get_reconcile_confirm_grace_seconds en))"

definition confirm_reconcile_orphan :: "env \<Rightarrow> int \<Rightarrow> nat \<Rightarrow> db \<Rightarrow> db res" where
  "confirm_reconcile_orphan en now k db =
     (case runs db k of
        None \<Rightarrow> Inr db
      | Some r \<Rightarrow>
          if \<not> active_status (run_status r) \<or> \<not> stale_activity en now r then Inr db
          else
            let deadline = get_run_resume_deadline en now db k r;
                db1 = save_run k (park_row now deadline) db;
                db2 = fail_running_steps_for_runs now [k] STEP_FAILED db1
            in if deadline \<le> now then Inr (close_open_execs now [k] (emit (AlertEvaluation k) db2))
               else
                 let db3 = emit (ScheduleExpiration k (max (deadline - now) 0)) db2
                 in (case run_node r of
                       None \<Rightarrow> Inr db3
                     | Some n \<Rightarrow>
                         (case nodes db n of
                            Some nd \<Rightarrow>
                              if node_status nd = NODE_ONLINE
                              then rbind (resume_awaiting_runs_for_lensnode en now n [] db3) (\<lambda>(_, d). Inr d)
                              else Inr db3
                          | None \<Rightarrow> Inr db3)))"

section \<open>Expiry\<close>

definition expire_awaiting_run :: "int \<Rightarrow> nat \<Rightarrow> db \<Rightarrow> nat \<times> db" where
  "expire_awaiting_run now k db =
     (case runs db k of
        None \<Rightarrow> (0, db)
      | Some r \<Rightarrow>
          (case resume_by r of
             None \<Rightarrow> (0, db)
           | Some t \<Rightarrow>
               if \<not> active_status (run_status r) then (0, db)
               else if t > now then (0, emit (ScheduleExpiration k (max (t - now) 0)) db)
               else (1, close_open_execs now [k]
                          (emit (AlertEvaluation k)
                            (fail_running_steps_for_runs now [k] STEP_FAILED
                              (save_run k (fail_row now ''LENSNODE_RESUME_EXPIRED'') db))))))"

section \<open>The periodic cleanup\<close>

definition RUN_ABSOLUTE_TIMEOUT_SECONDS :: int where "RUN_ABSOLUTE_TIMEOUT_SECONDS = 14400"

definition run_snapshot_timeout_s :: "db \<Rightarrow> nat \<Rightarrow> int" where
  "run_snapshot_timeout_s db k =
     (case executions db k of
        None \<Rightarrow> 0
      | Some e \<Rightarrow> (case run_timeout_s e of None \<Rightarrow> 0 | Some t \<Rightarrow> if t > 0 then t else 0))"

definition idle_timeout :: "env \<Rightarrow> int res" where
  "idle_timeout en = (case idle_timeout_setting en of None \<Rightarrow> Inr 300 | Some v \<Rightarrow> py_int v)"

definition absolute_timeout :: "env \<Rightarrow> int" where
  "absolute_timeout en =
     max 1 (setting_int (absolute_timeout_setting en) RUN_ABSOLUTE_TIMEOUT_SECONDS)"

definition stale_run :: "int \<Rightarrow> int \<Rightarrow> int \<Rightarrow> db \<Rightarrow> nat \<Rightarrow> run \<Rightarrow> bool" where
  "stale_run now idle_s absolute_s db k r =
     (let started = (case run_started_at r of None \<Rightarrow> run_created_at r | Some t \<Rightarrow> t);
          last = (case last_activity_at r of None \<Rightarrow> started | Some t \<Rightarrow> t)
      in last < now - seconds idle_s
         \<or> started < now - seconds (max absolute_s (run_snapshot_timeout_s db k)))"

text \<open>The first half of the task: the rows it reads and the keys it decides to fail.\<close>

definition cleanup_scan :: "env \<Rightarrow> int \<Rightarrow> db \<Rightarrow> nat list res" where
  "cleanup_scan en now db =
     rbind (idle_timeout en)
       (\<lambda>idle. Inr (select_runs (\<lambda>k r. active_status (run_status r) \<and> resume_by r = None
          \<and> stale_run now idle (absolute_timeout en) db k r) db))"

text \<open>
  The second half: it locks the rows with those keys, fails every one of them without
  reading their status again, and then expires overdue parked runs and closes the
  executions of every failed run.
\<close>

definition timeout_row :: "int \<Rightarrow> run \<Rightarrow> run" where
  "timeout_row now r = r\<lparr>run_status := RUN_FAILED, run_error := ''LENS_RUN_TIMEOUT'',
     run_finished_at := Some now, run_updated_at := now\<rparr>"

definition reap_stale :: "int \<Rightarrow> nat list \<Rightarrow> db \<Rightarrow> db" where
  "reap_stale now stale db =
     (let locked = select_runs (\<lambda>k _. k \<in> set stale) db
      in if locked = [] then db
         else emit_all (concat (map (\<lambda>k. cancel_on_node db [k] @ [AlertEvaluation k]) locked))
                (update_runs (\<lambda>k _. k \<in> set stale) (\<lambda>_. timeout_row now)
                  (fail_running_steps_for_runs now stale STEP_FAILED db)))"

definition overdue :: "int \<Rightarrow> run \<Rightarrow> bool" where
  "overdue now r = (active_status (run_status r) \<and> (case resume_by r of None \<Rightarrow> False | Some t \<Rightarrow> t < now))"

definition expire_overdue :: "int \<Rightarrow> db \<Rightarrow> db" where
  "expire_overdue now db =
     (let ks = select_runs (\<lambda>_. overdue now) db
      in emit_all (map AlertEvaluation ks)
           (update_runs (\<lambda>_. overdue now) (\<lambda>_. fail_row now ''LENSNODE_RESUME_EXPIRED'')
             (fail_running_steps_for_runs now ks STEP_FAILED db)))"

definition run_failed :: "db \<Rightarrow> nat \<Rightarrow> bool" where
  "run_failed db k = (case runs db k of None \<Rightarrow> False | Some r \<Rightarrow> run_status r = RUN_FAILED)"

definition close_failed_execs :: "int \<Rightarrow> db \<Rightarrow> db" where
  "close_failed_execs now db =
     update_execs (\<lambda>k e. run_failed db k \<and> open_exec (exec_status e))
       (\<lambda>e. e\<lparr>exec_status := EXEC_FAILED, exec_finished_at := Some now\<rparr>) db"

definition cleanup_reap :: "int \<Rightarrow> nat list \<Rightarrow> db \<Rightarrow> nat \<times> db" where
  "cleanup_reap now stale db =
     (length (select_runs (\<lambda>k _. k \<in> set stale) db),
      emit CleanupDatasourceTasks (close_failed_execs now (expire_overdue now (reap_stale now stale db))))"

definition lensnode_cleanup_task :: "env \<Rightarrow> int \<Rightarrow> db \<Rightarrow> (nat \<times> db) res" where
  "lensnode_cleanup_task en now db =
     (if \<not> cleanup_enabled en then Inr (0, db)
      else rbind (cleanup_scan en now db) (\<lambda>stale. Inr (cleanup_reap now stale db)))"

section \<open>Events\<close>

text \<open>
  Everything that may happen to the runs, each as one step at a time \<open>now\<close>. A task that
  raises leaves the tables as they were. \<open>NodeReport\<close> is the consumer's write of a node row.
\<close>

datatype run_event =
    Append nat string "string option" bool "py option" "py option"
  | Admitted nat "nat option" nat
  | CheckpointReady nat "nat option" nat
  | StepEvent nat step_type step_status py
  | Activity nat "nat option" nat
  | Terminal nat frame
  | AdminCancel nat
  | UserCancel nat
  | GraceCheck nat "int option"
  | ResumeOne nat
  | NodeHello nat "nat list"
  | RetryResumeTask nat
  | Reconcile nat "nat list"
  | ConfirmOrphanTask nat
  | ExpireTask nat
  | CleanupTask
  | NodeReport nat node

definition run_event_res :: "env \<Rightarrow> int \<Rightarrow> run_event \<Rightarrow> db \<Rightarrow> db res" where
  "run_event_res en now ev db =
     (case ev of
        Append k d f rs c p \<Rightarrow> Inr (snd (append_lensnode_output en now k d f rs c p db))
      | Admitted k d n \<Rightarrow> Inr (snd (acknowledge_run_admitted now k d n db))
      | CheckpointReady k d n \<Rightarrow> Inr (snd (acknowledge_run_checkpoint_ready now k d n db))
      | StepEvent k ty st d \<Rightarrow> record_lensnode_run_event now k ty st d db
      | Activity k d n \<Rightarrow> Inr (snd (record_lensnode_run_activity now k d n db))
      | Terminal k fr \<Rightarrow> finish_lensnode_run en now k fr db
      | AdminCancel k \<Rightarrow> Inr (admin_cancel_run now k db)
      | UserCancel k \<Rightarrow> (case runs db k of None \<Rightarrow> Inl DoesNotExist
                         | Some r \<Rightarrow> Inr (user_cancel_run now k (run_status r) db))
      | GraceCheck n s \<Rightarrow> Inr (check_lensnode_disconnect_grace_period en now n s db)
      | ResumeOne k \<Rightarrow> rbind (resume_awaiting_run en now k db) (\<lambda>(_, d). Inr d)
      | NodeHello n rep \<Rightarrow> rbind (resume_awaiting_runs_for_lensnode en now n rep db) (\<lambda>(_, d). Inr d)
      | RetryResumeTask k \<Rightarrow> rbind (retry_awaiting_run_resume en now k db) (\<lambda>(_, d). Inr d)
      | Reconcile n act \<Rightarrow> Inr (snd (reconcile_lensnode_active_runs en now n act db))
      | ConfirmOrphanTask k \<Rightarrow> confirm_reconcile_orphan en now k db
      | ExpireTask k \<Rightarrow> Inr (snd (expire_awaiting_run now k db))
      | CleanupTask \<Rightarrow> rbind (lensnode_cleanup_task en now db) (\<lambda>(_, d). Inr d)
      | NodeReport n nd \<Rightarrow> Inr (db\<lparr>nodes := (nodes db)(n \<mapsto> nd)\<rparr>))"

definition run_event_step :: "env \<Rightarrow> db \<Rightarrow> int \<times> run_event \<Rightarrow> db" where
  "run_event_step en db e = or_same db (run_event_res en (fst e) (snd e) db)"

end
