(* ===== verification/Run_Verdicts.thy ===== *)
theory Run_Verdicts
  imports Run_Recovery
begin

text \<open>
  What the lifecycle and recovery operations guarantee together: a settled row is never
  rewritten, the tables stay consistent, and what each operation leaves behind.
\<close>

section \<open>A settled row is kept\<close>

text \<open>
  A terminal row may be deleted, or lose its link to a deleted parent; nothing else of it
  changes, and a deleted row does not come back.
\<close>

definition same_row :: "run \<Rightarrow> run \<Rightarrow> bool" where
  "same_row r r' \<longleftrightarrow> r\<lparr>parent_run := None\<rparr> = r'\<lparr>parent_run := None\<rparr>"

definition keeps :: "db \<Rightarrow> db \<Rightarrow> bool" where
  "keeps db db' \<longleftrightarrow>
     (\<forall>k. (runs db k = None \<longrightarrow> runs db' k = None) \<and>
          (\<forall>r. runs db k = Some r \<longrightarrow> terminal_status (run_status r) \<longrightarrow>
               runs db' k = None \<or> (\<exists>r'. runs db' k = Some r' \<and> same_row r r')))"

lemma same_row_refl [simp]: "same_row r r"
  by (simp add: same_row_def)

lemma same_row_trans: "same_row a b \<Longrightarrow> same_row b c \<Longrightarrow> same_row a c"
  by (simp add: same_row_def)

lemma same_row_status: "same_row r r' \<Longrightarrow> run_status r' = run_status r"
  by (cases r; cases r') (simp add: same_row_def)

lemma same_row_error: "same_row r r' \<Longrightarrow> run_error r' = run_error r"
  unfolding same_row_def by (drule arg_cong [where f = run_error]) simp

lemma keeps_refl [simp, intro]: "keeps db db"
  by (simp add: keeps_def)

lemma keepsD:
  "keeps a b \<Longrightarrow> runs a k = Some r \<Longrightarrow> terminal_status (run_status r) \<Longrightarrow>
     runs b k = None \<or> (\<exists>r'. runs b k = Some r' \<and> same_row r r')"
  unfolding keeps_def by blast

lemma keeps_trans [trans]: "keeps a b \<Longrightarrow> keeps b c \<Longrightarrow> keeps a c"
proof -
  assume ab: "keeps a b" and bc: "keeps b c"
  have "runs c k = None \<or> (\<exists>r'. runs c k = Some r' \<and> same_row r r')"
    if r: "runs a k = Some r" and t: "terminal_status (run_status r)" for k r
  proof (cases "runs b k")
    case None
    then show ?thesis using bc by (simp add: keeps_def)
  next
    case (Some q)
    then have q: "same_row r q" using keepsD [OF ab r t] by simp
    then have "runs c k = None \<or> (\<exists>r'. runs c k = Some r' \<and> same_row q r')"
      using keepsD [OF bc Some] t same_row_status [OF q] by simp
    then show ?thesis using same_row_trans [OF q] by blast
  qed
  then show ?thesis using ab bc by (simp add: keeps_def)
qed

lemma keeps_same_runs: "runs db' = runs db \<Longrightarrow> keeps db db'"
  by (simp add: keeps_def)

lemma keeps_then_same: "runs db'' = runs db' \<Longrightarrow> keeps db db' \<Longrightarrow> keeps db db''"
  by (simp add: keeps_def)

lemma keeps_cong: "runs d' = runs d \<Longrightarrow> keeps db d' = keeps db d"
  by (simp add: keeps_def)

lemma keeps_frame [simp]:
  "keeps db (emit e d) = keeps db d" "keeps db (emit_all es d) = keeps db d"
  "keeps db (update_execs P f d) = keeps db d" "keeps db (update_steps Q g d) = keeps db d"
  "keeps db (fail_running_steps_for_runs now ks st d) = keeps db d"
  "keeps db (d\<lparr>next_uuid := n\<rparr>) = keeps db d" "keeps db (d\<lparr>nodes := ns\<rparr>) = keeps db d"
  by (rule keeps_cong, simp)+

lemma keeps_update_runs:
  assumes "\<And>k r. runs db k = Some r \<Longrightarrow> P k r \<Longrightarrow> \<not> terminal_status (run_status r)"
    and "runs d = runs db"
  shows "keeps db (update_runs P f d)"
  using assms by (auto simp: keeps_def)

lemma keeps_delete_runs: "keeps db (delete_runs P db)"
  unfolding keeps_def
proof (intro allI conjI impI)
  fix k r assume "runs db k = Some r"
  then show "runs (delete_runs P db) k = None \<or> (\<exists>r'. runs (delete_runs P db) k = Some r' \<and> same_row r r')"
    by (auto simp: delete_runs_def Let_def same_row_def split: option.splits)
qed (simp add: delete_runs_def Let_def)

lemma keeps_cancel_descendants: "keeps db (snd (cancel_descendant_runs now k db))"
  by (auto simp: keeps_def cancel_descendants_runs cancellable_not_terminal dest!: descendant_active)

lemma runs_fold_results [simp]: "runs (fold_results en k rows db) = runs db"
  by (simp add: fold_results_def)

lemma keeps_reap: "keeps db (reap_sessions ss db)"
  using keeps_delete_runs [of db] by (simp add: reap_sessions_def Let_def keeps_def)

lemma keeps_finalize: "keeps db (finalize_delegated_children en k db)"
  using keeps_trans [OF keeps_same_runs keeps_reap]
  by (simp add: finalize_delegated_children_def Let_def)

lemma runs_promote [simp]: "runs (promote_next_queued_run en a db) = runs db"
  by (simp add: promote_next_queued_run_def split: list.splits)

lemma runs_register [simp]: "runs (register_trace_export k db) = runs db"
  by (simp add: register_trace_export_def)

lemma runs_publish [simp]: "runs (publish_files k a db) = runs db"
  by (simp add: publish_files_def)

text \<open>After the settlement itself only the delegated children's rows change.\<close>

lemma after_settle_runs:
  "runs (after_settle en k a cs r' db) =
     (if parent_run r' = None then runs (finalize_delegated_children en k (register_trace_export k db))
      else runs db)"
  by (cases "parent_run r'") (simp_all add: after_settle_def Let_def)

lemma close_run_runs:
  "runs (snd (close_run en now k fr err approved r db)) =
     runs (snd (cancel_descendant_runs now k (save_run k (\<lambda>_. settled_row en now fr err r) db)))"
  (is "?l = ?r")
proof
  fix j
  have "active_children (save_run k (\<lambda>_. settled_row en now fr err r) (publish_files k approved db))
      = active_children (save_run k (\<lambda>_. settled_row en now fr err r) db)"
    by (rule ext) (simp add: active_children_def select_runs_def publish_files_def)
  then have "descendant (save_run k (\<lambda>_. settled_row en now fr err r) (publish_files k approved db)) k j
      = descendant (save_run k (\<lambda>_. settled_row en now fr err r) db) k j"
    by (intro descendant_cong) simp
  then show "?l j = ?r j"
    by (simp add: close_run_def Let_def split_beta cancel_descendants_runs)
qed

lemma keeps_close:
  assumes "runs db k = Some r" "\<not> terminal_status (run_status r)"
  shows "keeps db (snd (close_run en now k fr err approved r db))"
proof -
  have "keeps db (save_run k (\<lambda>_. settled_row en now fr err r) db)"
    using assms by (auto intro: keeps_update_runs)
  from keeps_trans [OF this keeps_cancel_descendants] show ?thesis
    by (rule keeps_then_same [rotated]) (rule close_run_runs)
qed

lemma keeps_after_settle: "keeps d (after_settle en k a cs r' d)"
  using keeps_trans [OF keeps_same_runs keeps_finalize, of "register_trace_export k d" d en k]
  by (cases "parent_run r'") (simp_all add: keeps_def after_settle_runs)

lemma keeps_settle:
  assumes "runs db k = Some r" "\<not> terminal_status (run_status r)"
  shows "keeps db (settle_run en now k fr err approved r db)"
  using keeps_trans [OF keeps_close [OF assms] keeps_after_settle]
  by (simp add: settle_run_def split_beta)

lemma keeps_finish:
  "finish_lensnode_run en now k fr db = Inr db' \<Longrightarrow> keeps db db'"
  by (auto simp: finish_lensnode_run_def Let_def rbind_Inr_iff keeps_settle
      intro!: keeps_update_runs split: option.splits if_splits)

text \<open>The other operations write rows they have found active.\<close>

lemma keeps_only:
  assumes "\<And>r. runs db k = Some r \<Longrightarrow> \<not> terminal_status (run_status r)"
    and "\<And>j. j \<noteq> k \<Longrightarrow> runs db' j = runs db j" and "runs db k = None \<Longrightarrow> runs db' k = None"
  shows "keeps db db'"
  using assms unfolding keeps_def by (metis same_row_refl)

lemma runs_touch_other: "j \<noteq> k \<Longrightarrow> runs (touch_run_activity now k db) j = runs db j"
  by (simp add: touch_run_activity_def map_option.identity)

lemma runs_touch_None [simp]: "runs (touch_run_activity now k db) j = None \<longleftrightarrow> runs db j = None"
  by (simp add: touch_run_activity_def)

lemma runs_save_other: "j \<noteq> k \<Longrightarrow> runs (save_run k f db) j = runs db j"
  by (simp add: map_option.identity)

definition appended :: "string \<Rightarrow> run \<Rightarrow> run" where
  "appended t r = r\<lparr>output_content := Some t\<rparr>"

lemma append_cases:
  fixes en now k d f rs c p db
  defines "db' \<equiv> snd (append_lensnode_output en now k d f rs c p db)"
  obtains "db' = db"
  | r t where "runs db k = Some r" "\<not> terminal_status (run_status r)" "db' = save_run k (appended t) db"
  | r t c' p' where "runs db k = Some r" "\<not> terminal_status (run_status r)"
      "db' = touch_run_activity now k (save_run k (store_results c' p') (save_run k (appended t) db))"
proof (cases "runs db k")
  case None
  then show thesis using that(1) by (simp add: db'_def append_lensnode_output_def)
next
  case (Some r)
  show thesis
  proof (cases "terminal_status (run_status r) \<or> output_content r = None")
    case True
    then show thesis using that(1) Some by (auto simp: db'_def append_lensnode_output_def)
  next
    case False
    then obtain content where content: "output_content r = Some content" by auto
    define t where "t = (case f of Some fc \<Rightarrow> if fc \<noteq> [] then fc else content
        | None \<Rightarrow> if rs then d else content @ d)"
    have "db' = (case rbind (if_given (clean_citations en) c)
                        (\<lambda>c. rbind (if_given clean_evidence p) (\<lambda>p. Inr (c, p))) of
             Inl e \<Rightarrow> save_run k (appended t) db
           | Inr (c, p) \<Rightarrow> touch_run_activity now k (save_run k (store_results c p) (save_run k (appended t) db)))"
      using False Some content
      by (simp add: db'_def append_lensnode_output_def Let_def appended_def [abs_def] t_def split: sum.split)
    then show thesis using that(2,3) [OF Some] False by (auto split: sum.splits)
  qed
qed

lemma keeps_append: "keeps db (snd (append_lensnode_output en now k d f rs c p db))"
  by (rule append_cases [of en now k d f rs c p db])
    (auto intro!: keeps_only [of _ k] simp: runs_touch_other runs_save_other simp del: runs_update_runs)

lemma keeps_acknowledge: "keeps db (snd (acknowledge_run_protocol_state now k d n c db))"
  by (auto simp: acknowledge_run_protocol_state_def Let_def intro!: keeps_update_runs split: option.splits)

lemma runs_record_step [simp]: "runs (record_step now k ty st d db) = runs db"
  by (simp add: record_step_def Let_def)

lemma keeps_step_event:
  assumes "record_lensnode_run_event now k ty st d db = Inr db'"
  shows "keeps db db'"
proof (cases "runs db k")
  case (Some r)
  show ?thesis
  proof (cases "terminal_status (run_status r)")
    case False
    with assms Some show ?thesis
      by (intro keeps_only [of _ k])
        (auto simp: record_lensnode_run_event_def Let_def runs_touch_other map_option.identity)
  qed (use assms Some in \<open>simp add: record_lensnode_run_event_def\<close>)
qed (use assms in \<open>simp add: record_lensnode_run_event_def\<close>)

lemma keeps_activity: "keeps db (snd (record_lensnode_run_activity now k d n db))"
  by (auto simp: record_lensnode_run_activity_def touch_run_activity_def intro!: keeps_update_runs
      dest: active_not_terminal split: option.splits)

lemma keeps_cancel:
  assumes "\<And>r. runs db k = Some r \<Longrightarrow> \<not> terminal_status (run_status r)"
  shows "keeps db (snd (cancel_descendant_runs now k (save_exec k g (save_run k f db))))"
proof -
  have "keeps db (save_exec k g (save_run k f db))"
    using assms by (auto intro: keeps_update_runs)
  from keeps_trans [OF this keeps_cancel_descendants] show ?thesis by simp
qed

lemma keeps_admin_cancel: "keeps db (admin_cancel_run now k db)"
  by (auto simp: admin_cancel_run_def Let_def split_beta cancellable_not_terminal intro!: keeps_cancel
      split: option.splits)

lemma keeps_user_cancel:
  "runs db k = Some r \<Longrightarrow> keeps db (user_cancel_run now k (run_status r) db)"
  by (auto simp: user_cancel_run_def Let_def split_beta intro!: keeps_cancel)

lemma active_on_node_nonterminal:
  "k \<in> set (active_on_node n db) \<Longrightarrow> runs db k = Some r \<Longrightarrow> \<not> terminal_status (run_status r)"
  by (auto simp: active_on_node_def set_select_runs)

lemma keeps_mark: "keeps db (snd (mark_active_runs_awaiting_resume en now n db))"
  by (auto simp: mark_active_runs_awaiting_resume_def fail_active_runs_for_lensnode_def Let_def
      close_open_execs_def intro!: keeps_update_runs dest: active_on_node_nonterminal)

lemma keeps_requeue:
  "(\<And>r. runs db k = Some r \<Longrightarrow> \<not> terminal_status (run_status r)) \<Longrightarrow> keeps db (requeue_run en now k db)"
  by (auto simp: requeue_run_def intro!: keeps_update_runs)

lemma keeps_redispatch:
  "(\<And>r. runs db k = Some r \<Longrightarrow> \<not> terminal_status (run_status r)) \<Longrightarrow> keeps db (redispatch_run now k db)"
  by (auto simp: redispatch_run_def Let_def intro!: keeps_update_runs)

lemma keeps_resume_pass: "keeps db (snd (resume_pass en now n report_at k db))"
  by (auto simp: resume_pass_def intro!: keeps_requeue keeps_redispatch keeps_update_runs
      dest: active_not_terminal split: option.splits)

lemma keeps_resume_loop: "keeps db (snd (resume_loop en now n report_at ks db))"
proof (induction ks arbitrary: db)
  case (Cons k ks)
  show ?case
    using keeps_trans [OF keeps_resume_pass Cons.IH]
    by (auto simp: split_beta)
qed simp

lemma keeps_hello: "resume_awaiting_runs_for_lensnode en now n rep db = Inr (c, db') \<Longrightarrow> keeps db db'"
  using keeps_resume_loop by (auto simp: resume_awaiting_runs_for_lensnode_def Let_def split: option.splits)
    (metis snd_conv)

lemma keeps_retry: "retry_awaiting_run_resume en now k db = Inr (c, db') \<Longrightarrow> keeps db db'"
  by (auto simp: retry_awaiting_run_resume_def split: option.splits if_splits dest: keeps_hello)

lemma keeps_resume_one: "resume_awaiting_run en now k db = Inr (c, db') \<Longrightarrow> keeps db db'"
  by (auto simp: resume_awaiting_run_def intro!: keeps_requeue keeps_redispatch
      dest: active_not_terminal split: option.splits if_splits)

lemma keeps_confirm: "confirm_reconcile_orphan en now k db = Inr db' \<Longrightarrow> keeps db db'"
proof -
  assume eq: "confirm_reconcile_orphan en now k db = Inr db'"
  have park: "keeps db (save_run k (park_row now t) db)" if "runs db k = Some r" "active_status (run_status r)" for r t
    using that by (auto intro!: keeps_update_runs dest: active_not_terminal)
  have hello: "keeps db d'"
    if "resume_awaiting_runs_for_lensnode en now n [] (emit e (fail_running_steps_for_runs now ks st
          (save_run k (park_row now t) db))) = Inr (c, d')" "runs db k = Some r" "active_status (run_status r)"
    for n e ks st t c d' r
    using keeps_trans [OF _ keeps_hello [OF that(1)]] park [OF that(2,3)] by simp
  show ?thesis
    using eq by (auto simp: confirm_reconcile_orphan_def Let_def close_open_execs_def rbind_Inr_iff park
        split: option.splits if_splits intro: hello)
qed

lemma keeps_expire: "keeps db (snd (expire_awaiting_run now k db))"
  by (auto simp: expire_awaiting_run_def close_open_execs_def intro!: keeps_update_runs
      dest: active_not_terminal split: option.splits)

text \<open>The reap keeps settled rows only if none of its keys is one of them.\<close>

lemma keeps_reap_stale:
  assumes "\<And>k r. k \<in> set stale \<Longrightarrow> runs db k = Some r \<Longrightarrow> \<not> terminal_status (run_status r)"
  shows "keeps db (reap_stale now stale db)"
  using assms by (auto simp: reap_stale_def Let_def intro!: keeps_update_runs)

lemma keeps_expire_overdue: "keeps db (expire_overdue now db)"
  by (auto simp: expire_overdue_def Let_def overdue_def intro!: keeps_update_runs)

lemma keeps_cleanup_reap:
  assumes "\<And>k r. k \<in> set stale \<Longrightarrow> runs db k = Some r \<Longrightarrow> \<not> terminal_status (run_status r)"
  shows "keeps db (snd (cleanup_reap now stale db))"
  using keeps_trans [OF keeps_reap_stale [OF assms] keeps_expire_overdue]
  by (simp add: cleanup_reap_def close_failed_execs_def)

lemma keeps_cleanup: "lensnode_cleanup_task en now db = Inr (c, db') \<Longrightarrow> keeps db db'"
proof (cases "cleanup_enabled en")
  case True
  assume "lensnode_cleanup_task en now db = Inr (c, db')"
  then obtain stale where "cleanup_scan en now db = Inr stale" "db' = snd (cleanup_reap now stale db)"
    using True by (auto simp: lensnode_cleanup_task_def rbind_Inr_iff)
  moreover from this have "k \<in> set stale \<Longrightarrow> runs db k = Some r \<Longrightarrow> \<not> terminal_status (run_status r)" for k r
    by (auto simp: cleanup_scan_def rbind_Inr_iff set_select_runs)
  ultimately show ?thesis using keeps_cleanup_reap by simp
qed (simp add: lensnode_cleanup_task_def)

lemma keeps_grace: "keeps db (check_lensnode_disconnect_grace_period en now n s db)"
  by (simp add: check_lensnode_disconnect_grace_period_def keeps_mark split: option.splits)

lemma keeps_reconcile: "keeps db (snd (reconcile_lensnode_active_runs en now n a db))"
  by (simp add: reconcile_lensnode_active_runs_def Let_def)

lemma keeps_event:
  assumes "run_event_res en now ev db = Inr db'"
  shows "keeps db db'"
  using assms
  by (cases ev)
    (auto simp: run_event_res_def rbind_Inr_iff keeps_append keeps_acknowledge keeps_activity keeps_admin_cancel
      keeps_user_cancel keeps_grace keeps_reconcile keeps_expire
      acknowledge_run_admitted_def acknowledge_run_checkpoint_ready_def
      split: option.splits
      dest: keeps_step_event keeps_finish keeps_resume_one keeps_hello keeps_retry
        keeps_confirm keeps_cleanup)

lemma keeps_step: "keeps db (run_event_step en db e)"
  by (cases "run_event_res en (fst e) (snd e) db") (simp_all add: run_event_step_def keeps_event)

text \<open>The verdict of a run: its settled row, apart from the link to its parent.\<close>

definition run_verdict :: "db \<Rightarrow> nat \<Rightarrow> run option" where
  "run_verdict db k =
     (case runs db k of None \<Rightarrow> None
      | Some r \<Rightarrow> if terminal_status (run_status r) then Some (r\<lparr>parent_run := None\<rparr>) else None)"

definition run_gone :: "db \<Rightarrow> nat \<Rightarrow> bool" where
  "run_gone db k \<longleftrightarrow> runs db k = None"

interpretation run_rows: settled_view "run_event_step en" run_verdict run_gone for en
proof
  fix s :: db and k v e
  assume "run_verdict s k = Some v"
  then obtain r where r: "runs s k = Some r" "terminal_status (run_status r)" "v = r\<lparr>parent_run := None\<rparr>"
    by (auto simp: run_verdict_def split: option.splits if_splits)
  from keepsD [OF keeps_step this(1,2), of en e] show
    "run_verdict (run_event_step en s e) k = Some v \<or> run_gone (run_event_step en s e) k"
  proof
    assume "\<exists>r'. runs (run_event_step en s e) k = Some r' \<and> same_row r r'"
    then obtain r' where "runs (run_event_step en s e) k = Some r'" "same_row r r'" by blast
    moreover from this r have "run_verdict (run_event_step en s e) k = Some (r'\<lparr>parent_run := None\<rparr>)"
      by (simp add: run_verdict_def same_row_status)
    ultimately show ?thesis
      using r(3) unfolding same_row_def by simp
  qed (simp add: run_gone_def)
next
  fix s :: db and k e
  assume "run_gone s k"
  then show "run_gone (run_event_step en s e) k"
    using keeps_step [of s en e] by (simp add: run_gone_def keeps_def)
next
  fix s :: db and k
  assume "run_gone s k"
  then show "run_verdict s k = None"
    by (simp add: run_gone_def run_verdict_def)
qed

section \<open>Consistency of the tables\<close>

text \<open>
  A row: only an active run is parked and a settled run has a finish time. Its execution:
  a settled run has a closed one, except a run failed with its node
  (\<open>LENSNODE_DISCONNECTED\<close>), whose execution the next cleanup closes. Its steps: only a
  cancelled run may keep a running one.
\<close>

definition row_ok :: "run \<Rightarrow> bool" where
  "row_ok r \<longleftrightarrow> (resume_by r \<noteq> None \<longrightarrow> active_status (run_status r)) \<and>
     (terminal_status (run_status r) \<longrightarrow> run_finished_at r \<noteq> None)"

definition exec_ok :: "run \<Rightarrow> execution \<Rightarrow> bool" where
  "exec_ok r e \<longleftrightarrow> (terminal_status (run_status r) \<and> open_exec (exec_status e) \<longrightarrow>
     run_status r = RUN_FAILED \<and> run_error r = ''LENSNODE_DISCONNECTED'')"

definition lifecycle_inv :: "db \<Rightarrow> bool" where
  "lifecycle_inv db \<longleftrightarrow>
     (\<forall>k. k \<in> set (run_ids db) \<longleftrightarrow> runs db k \<noteq> None) \<and>
     (\<forall>k r. runs db k = Some r \<longrightarrow> row_ok r \<and> (\<forall>e. executions db k = Some e \<longrightarrow> exec_ok r e)) \<and>
     (\<forall>s \<in> set (steps db). step_status s = STEP_RUNNING \<longrightarrow>
        (\<forall>r. runs db (step_run s) = Some r \<longrightarrow> terminal_status (run_status r) \<longrightarrow> run_status r = RUN_CANCELLED))"

lemma inv_rowD: "lifecycle_inv db \<Longrightarrow> runs db k = Some r \<Longrightarrow> row_ok r"
  by (simp add: lifecycle_inv_def)

lemma inv_execD: "lifecycle_inv db \<Longrightarrow> runs db k = Some r \<Longrightarrow> executions db k = Some e \<Longrightarrow> exec_ok r e"
  by (simp add: lifecycle_inv_def)

lemma inv_stepD:
  "lifecycle_inv db \<Longrightarrow> s \<in> set (steps db) \<Longrightarrow> step_status s = STEP_RUNNING \<Longrightarrow>
     runs db (step_run s) = Some r \<Longrightarrow> terminal_status (run_status r) \<Longrightarrow> run_status r = RUN_CANCELLED"
  by (simp add: lifecycle_inv_def)

lemma inv_idsD: "lifecycle_inv db \<Longrightarrow> k \<in> set (run_ids db) \<longleftrightarrow> runs db k \<noteq> None"
  by (simp add: lifecycle_inv_def)

lemma inv_frame [simp]:
  "lifecycle_inv (emit e db) = lifecycle_inv db" "lifecycle_inv (emit_all es db) = lifecycle_inv db"
  "lifecycle_inv (db\<lparr>next_uuid := n\<rparr>) = lifecycle_inv db" "lifecycle_inv (db\<lparr>nodes := ns\<rparr>) = lifecycle_inv db"
  by (simp_all add: lifecycle_inv_def)

text \<open>A change of rows in place: what is left to check is each row and the running steps.\<close>

lemma inv_change:
  assumes "lifecycle_inv db" "run_ids db' = run_ids db" "\<And>k. runs db' k = None \<longleftrightarrow> runs db k = None"
    and "\<And>k r. runs db' k = Some r \<Longrightarrow> row_ok r"
    and "\<And>k r e. runs db' k = Some r \<Longrightarrow> executions db' k = Some e \<Longrightarrow> exec_ok r e"
    and "\<And>s r. s \<in> set (steps db') \<Longrightarrow> step_status s = STEP_RUNNING \<Longrightarrow> runs db' (step_run s) = Some r \<Longrightarrow>
           terminal_status (run_status r) \<Longrightarrow> run_status r = RUN_CANCELLED"
  shows "lifecycle_inv db'"
  using assms unfolding lifecycle_inv_def by metis

text \<open>A change of one run.\<close>

lemma inv_focus:
  assumes "lifecycle_inv db" "run_ids db' = run_ids db" "runs db k \<noteq> None" "runs db' k = Some r"
    and "\<And>j. j \<noteq> k \<Longrightarrow> runs db' j = runs db j" "\<And>j. j \<noteq> k \<Longrightarrow> executions db' j = executions db j"
    and "row_ok r" "\<And>e. executions db' k = Some e \<Longrightarrow> exec_ok r e"
    and "\<And>s. s \<in> set (steps db') \<Longrightarrow> step_status s = STEP_RUNNING \<Longrightarrow> step_run s \<noteq> k \<Longrightarrow> s \<in> set (steps db)"
    and "\<And>s. s \<in> set (steps db') \<Longrightarrow> step_status s = STEP_RUNNING \<Longrightarrow> step_run s = k \<Longrightarrow>
           terminal_status (run_status r) \<Longrightarrow> run_status r = RUN_CANCELLED"
  shows "lifecycle_inv db'"
proof (rule inv_change [OF assms(1,2)])
  show "runs db' j = None \<longleftrightarrow> runs db j = None" for j
    using assms(3,4,5) by (cases "j = k") auto
  show "row_ok r'" if "runs db' j = Some r'" for j r'
    using that assms(4,5,7) inv_rowD [OF assms(1)] by (cases "j = k") auto
  show "exec_ok r' e" if "runs db' j = Some r'" "executions db' j = Some e" for j r' e
    using that assms(4,5,6,8) inv_execD [OF assms(1)] by (cases "j = k") auto
  show "run_status r' = RUN_CANCELLED"
    if "s \<in> set (steps db')" "step_status s = STEP_RUNNING" "runs db' (step_run s) = Some r'"
      "terminal_status (run_status r')" for s r'
  proof (cases "step_run s = k")
    case True
    then show ?thesis using that assms(4,10) by auto
  next
    case False
    then show ?thesis
      using that assms(5) inv_stepD [OF assms(1) assms(9) [OF that(1,2) False] that(2)] by simp
  qed
qed

lemma inv_focus_same:
  assumes "lifecycle_inv db" "runs db k = Some r0" "row_ok r" "\<not> terminal_status (run_status r)"
    and "run_ids db' = run_ids db" "runs db' k = Some r"
    and "\<And>j. j \<noteq> k \<Longrightarrow> runs db' j = runs db j" "\<And>j. j \<noteq> k \<Longrightarrow> executions db' j = executions db j"
    and "\<And>s. s \<in> set (steps db') \<Longrightarrow> step_status s = STEP_RUNNING \<Longrightarrow> step_run s \<noteq> k \<Longrightarrow> s \<in> set (steps db)"
  shows "lifecycle_inv db'"
  using assms by (intro inv_focus [of db db' k r]) (auto simp: exec_ok_def)

lemma inv_focus_open:
  assumes "lifecycle_inv db" "runs db k = Some r0" "run_ids db' = run_ids db" "runs db' k \<noteq> None"
    and "\<And>r. runs db' k = Some r \<Longrightarrow> row_ok r \<and> \<not> terminal_status (run_status r)"
    and "\<And>j. j \<noteq> k \<Longrightarrow> runs db' j = runs db j" "\<And>j. j \<noteq> k \<Longrightarrow> executions db' j = executions db j"
    and "\<And>s. s \<in> set (steps db') \<Longrightarrow> step_status s = STEP_RUNNING \<Longrightarrow> step_run s \<noteq> k \<Longrightarrow> s \<in> set (steps db)"
  shows "lifecycle_inv db'"
proof -
  obtain r where "runs db' k = Some r" using assms(4) by blast
  then show ?thesis
    using assms(5) [of r] by (intro inv_focus_same [OF assms(1,2) _ _ assms(3) _ assms(6,7,8)]) auto
qed

subsection \<open>Rows the operations write\<close>

lemma row_ok_cancel [simp]:
  "row_ok (cancelled_row now r)"
  by (simp add: row_ok_def cancelled_row_def)

lemma row_ok_fail [simp]: "row_ok (fail_row now err r)"
  by (simp add: row_ok_def fail_row_def)

lemma row_ok_settled [simp]: "row_ok (settled_row en now fr err r)"
  by (simp add: row_ok_def settled_row_def split: prod.split)

lemma status_settled:
  "run_status (settled_row en now fr err r) = fst (verdict fr err)"
  "terminal_status (fst (verdict fr err))" "fst (verdict fr err) \<noteq> RUN_CANCELLED"
  "\<not> open_exec (snd (snd (snd (verdict fr err))))"
  by (auto simp: settled_row_def verdict_def open_exec_def split: prod.split)

lemma error_settled: "run_error (settled_row en now fr err r) = fst (snd (verdict fr err))"
  by (auto simp: settled_row_def split: prod.split)

lemma status_fail [simp]: "run_status (fail_row now err r) = RUN_FAILED" "run_error (fail_row now err r) = err"
  by (simp_all add: fail_row_def)

lemma row_ok_park [simp]: "row_ok (park_row now t r)"
  by (simp add: park_row_def row_ok_def fail_row_def)

lemma open_exec_simps [simp]:
  "\<not> open_exec EXEC_COMPLETED" "\<not> open_exec EXEC_FAILED" "\<not> open_exec EXEC_CANCELLED"
  "open_exec EXEC_QUEUED" "open_exec EXEC_DISPATCHED" "open_exec EXEC_RUNNING"
  by (simp_all add: open_exec_def)

lemma exec_ok_nonterminal: "\<not> terminal_status (run_status r) \<Longrightarrow> exec_ok r e"
  by (simp add: exec_ok_def)

lemma exec_ok_closed: "\<not> open_exec (exec_status e) \<Longrightarrow> exec_ok r e"
  by (simp add: exec_ok_def)

subsection \<open>Preservation\<close>

lemma row_ok_store [simp]:
  "row_ok (store_results c p r) = row_ok r" "run_status (store_results c p r) = run_status r"
  "row_ok (appended t r) = row_ok r" "run_status (appended t r) = run_status r"
  by (simp_all add: store_results_def appended_def row_ok_def)

lemma touch_frame [simp]:
  "run_ids (touch_run_activity now k db) = run_ids db" "executions (touch_run_activity now k db) = executions db"
  "steps (touch_run_activity now k db) = steps db" "effects (touch_run_activity now k db) = effects db"
  by (simp_all add: touch_run_activity_def)

lemma ok_activity [simp]:
  "row_ok (r\<lparr>last_activity_at := a\<rparr>) = row_ok r" "exec_ok (r\<lparr>last_activity_at := a\<rparr>) e = exec_ok r e"
  by (simp_all add: row_ok_def exec_ok_def)

lemma runs_touch:
  "runs (touch_run_activity now k db) j = Some r \<Longrightarrow>
     \<exists>r0 a. runs db j = Some r0 \<and> (r = r0 \<or> r = r0\<lparr>last_activity_at := a\<rparr>)"
  by (auto simp: touch_run_activity_def split: if_splits)

lemma inv_touch:
  assumes "lifecycle_inv db"
  shows "lifecycle_inv (touch_run_activity now k db)"
proof (rule inv_change [OF assms])
  let ?d = "touch_run_activity now k db"
  show "row_ok r" if "runs ?d j = Some r" for j r
    using runs_touch [OF that] inv_rowD [OF assms] by auto
  show "exec_ok r e" if "runs ?d j = Some r" "executions ?d j = Some e" for j r e
    using runs_touch [OF that(1)] that(2) inv_execD [OF assms] by auto
  show "run_status r = RUN_CANCELLED"
    if "s \<in> set (steps ?d)" "step_status s = STEP_RUNNING" "runs ?d (step_run s) = Some r"
      "terminal_status (run_status r)" for s r
    using runs_touch [OF that(3)] that(1,2,4) inv_stepD [OF assms] by auto
qed simp_all

lemma inv_append:
  assumes "lifecycle_inv db"
  shows "lifecycle_inv (snd (append_lensnode_output en now k d f rs c p db))"
proof -
  have keep: "lifecycle_inv (save_run k g db0)"
    if "lifecycle_inv db0" "runs db0 k = Some r" "\<not> terminal_status (run_status r)"
      "row_ok (g r) = row_ok r" "run_status (g r) = run_status r" for db0 g r
    using that inv_rowD [OF that(1,2)]
    by (intro inv_focus_same [OF that(1,2)]) (auto simp: map_option.identity)
  show ?thesis
  proof (rule append_cases [of en now k d f rs c p db])
    fix r t c' p' assume r: "runs db k = Some r" "\<not> terminal_status (run_status r)"
      "snd (append_lensnode_output en now k d f rs c p db)
         = touch_run_activity now k (save_run k (store_results c' p') (save_run k (appended t) db))"
    have "lifecycle_inv (save_run k (appended t) db)" using keep [OF assms r(1,2)] by simp
    moreover have "runs (save_run k (appended t) db) k = Some (appended t r)" using r(1) by simp
    ultimately have "lifecycle_inv (save_run k (store_results c' p') (save_run k (appended t) db))"
      using keep r(2) by simp
    then show ?thesis using r(3) inv_touch by simp
  qed (use assms keep [OF assms] in auto)
qed

lemma inv_acknowledge:
  assumes "lifecycle_inv db"
  shows "lifecycle_inv (snd (acknowledge_run_protocol_state now k d n c db))"
proof -
  have ok: "row_ok (r\<lparr>resume_by := None, run_updated_at := now\<rparr>)" if "runs db k = Some r" for r
    using inv_rowD [OF assms that] by (simp add: row_ok_def)
  have "lifecycle_inv (save_run k (\<lambda>r. r\<lparr>resume_by := None, run_updated_at := now\<rparr>)
           (save_exec k (admit_exec now c) db))" (is ?A)
    and "lifecycle_inv (save_exec k (admit_exec now c) db)" (is ?B)
    if r: "runs db k = Some r" "\<not> terminal_status (run_status r)" for r
    using r ok [OF r(1)] inv_rowD [OF assms r(1)]
    by (intro inv_focus_open [OF assms r(1)]; simp add: map_option.identity)+
  then show ?thesis
    using assms by (auto simp: acknowledge_run_protocol_state_def Let_def split: option.splits)
qed

lemma inv_record_step:
  assumes "lifecycle_inv db" "runs db k = Some r" "\<not> terminal_status (run_status r)"
  shows "lifecycle_inv (record_step now k ty st d db)"
  using assms(1) inv_rowD [OF assms(1,2)]
  by (intro inv_focus_same [OF assms(1,2) _ assms(3)])
    (auto simp: record_step_def Let_def new_step_def assms(2) split: if_splits)

lemma inv_step_event:
  assumes "lifecycle_inv db" "record_lensnode_run_event now k ty st d db = Inr db'"
  shows "lifecycle_inv db'"
proof (cases "runs db k")
  case (Some r)
  show ?thesis
  proof (cases "terminal_status (run_status r)")
    case False
    define db1 where "db1 = (if st = STEP_RUNNING \<and> dget (dict_of d) ''queue_state'' \<noteq> PStr ''QUEUED''
         then update_execs (\<lambda>k' e. k' = k \<and> exec_status e = EXEC_DISPATCHED)
                (\<lambda>e. e\<lparr>exec_status := EXEC_RUNNING,
                      admitted_at := (case admitted_at e of None \<Rightarrow> Some now | Some t \<Rightarrow> Some t)\<rparr>) db
         else db)"
    define db2 where "db2 = (if resume_by r \<noteq> None \<and> st = STEP_RUNNING
         then save_run k (\<lambda>r. r\<lparr>resume_by := None\<rparr>) db1 else db1)"
    have eq: "db' = touch_run_activity now k (record_step now k ty st d db2)"
      unfolding db1_def db2_def
      using assms(2) Some False by (simp add: record_lensnode_run_event_def Let_def)
    define r2 where "r2 = (if resume_by r \<noteq> None \<and> st = STEP_RUNNING then r\<lparr>resume_by := None\<rparr> else r)"
    have r2: "runs db2 k = Some r2" "\<not> terminal_status (run_status r2)" "row_ok r2"
      using Some False inv_rowD [OF assms(1) Some] by (auto simp: db2_def db1_def r2_def row_ok_def)
    have frame: "run_ids db2 = run_ids db" "steps db2 = steps db"
      "\<And>j. j \<noteq> k \<Longrightarrow> runs db2 j = runs db j" "\<And>j. j \<noteq> k \<Longrightarrow> executions db2 j = executions db j"
      by (simp_all add: db2_def db1_def map_option.identity)
    have "lifecycle_inv db2"
      by (rule inv_focus_same [OF assms(1) Some r2(3,2) frame(1) r2(1) frame(3,4)]) (simp_all add: frame(2))
    then show ?thesis
      using eq inv_touch inv_record_step r2(1,2) by simp
  qed (use assms Some in \<open>simp add: record_lensnode_run_event_def\<close>)
qed (use assms in \<open>simp add: record_lensnode_run_event_def\<close>)

lemma inv_activity: "lifecycle_inv db \<Longrightarrow> lifecycle_inv (snd (record_lensnode_run_activity now k d n db))"
  by (simp add: record_lensnode_run_activity_def inv_touch split: option.splits)

lemma inv_cancel_descendants:
  assumes "lifecycle_inv db"
  shows "lifecycle_inv (snd (cancel_descendant_runs now k db))"
proof (rule inv_change [OF assms])
  let ?d = "snd (cancel_descendant_runs now k db)"
  show "row_ok r" if "runs ?d j = Some r" for j r
    using that inv_rowD [OF assms] by (auto simp: cancel_descendants_runs split: if_splits)
  show "exec_ok r e" if "runs ?d j = Some r" "executions ?d j = Some e" for j r e
    using that inv_execD [OF assms]
    by (auto simp: cancel_descendants_runs cancel_descendants_execs exec_ok_closed split: if_splits)
  show "run_status r = RUN_CANCELLED"
    if "s \<in> set (steps ?d)" "step_status s = STEP_RUNNING" "runs ?d (step_run s) = Some r"
      "terminal_status (run_status r)" for s r
    using that inv_stepD [OF assms] by (auto simp: cancel_descendants_runs split: if_splits)
qed (simp_all add: cancel_descendants_runs)

lemma steps_closed_for:
  assumes "s \<in> set (steps (fail_running_steps_for_runs now ks st db))" "st \<noteq> STEP_RUNNING"
    "step_status s = STEP_RUNNING"
  shows "s \<in> set (steps db) \<and> step_run s \<notin> set ks"
proof -
  from assms(1) obtain s0 where s0: "s0 \<in> set (steps db)"
    "s = (if step_run s0 \<in> set ks \<and> step_status s0 = STEP_RUNNING
          then s0\<lparr>step_status := st, step_updated_at := now\<rparr> else s0)"
    by (auto simp: fail_running_steps_for_runs_def)
  then show ?thesis using assms(2,3) by (cases "step_run s0 \<in> set ks \<and> step_status s0 = STEP_RUNNING") auto
qed

lemma close_run_steps:
  assumes "s \<in> set (steps (snd (close_run en now k fr err a r db)))" "step_status s = STEP_RUNNING"
  shows "s \<in> set (steps db) \<and> step_run s \<noteq> k"
proof -
  obtain d st where d: "steps (snd (close_run en now k fr err a r db)) = steps (fail_running_steps_for_runs now [k] st d)"
    "steps d = steps db" "st \<noteq> STEP_RUNNING"
  proof
    let ?d = "snd (cancel_descendant_runs now k
     (save_run k (\<lambda>_. settled_row en now fr err r)
       (if fr_status fr = RUN_DONE \<and> fr_outcome fr \<noteq> ''blocked'' \<and> output_content r \<noteq> None
        then publish_files k a db else db)))"
    let ?st = "if run_status (settled_row en now fr err r) \<in> {RUN_DONE, RUN_AWAITING_USER_INPUT}
       then STEP_DONE else STEP_FAILED"
    show "steps (snd (close_run en now k fr err a r db)) = steps (fail_running_steps_for_runs now [k] ?st ?d)"
      unfolding close_run_def Let_def split_beta snd_conv db_frame ..
    show "steps ?d = steps db" by (simp add: publish_files_def)
    show "?st \<noteq> STEP_RUNNING" by simp
  qed
  from steps_closed_for [OF assms(1) [unfolded d(1)] d(3) assms(2)] show ?thesis
    by (simp add: d(2))
qed

lemma not_self_descendant:
  "runs db k = Some r \<Longrightarrow> terminal_status (run_status (f r)) \<Longrightarrow> \<not> descendant (save_run k f db) k k"
  by (auto simp: cancellable_not_terminal dest!: descendant_active)

lemma settled_not_descendant:
  "runs db k = Some r \<Longrightarrow> \<not> descendant (save_run k (\<lambda>_. settled_row en now fr err r) db) k k"
  by (rule not_self_descendant) (simp_all add: status_settled)

lemma close_run_rows:
  assumes "runs db k = Some r"
  shows "runs (snd (close_run en now k fr err a r db)) j =
     map_option (\<lambda>q. if j = k then settled_row en now fr err r
       else if descendant (save_run k (\<lambda>_. settled_row en now fr err r) db) k j then cancelled_row now q else q)
       (runs db j)"
  using settled_not_descendant [OF assms] assms
  by (cases "runs db j") (auto simp: close_run_runs cancel_descendants_runs)

lemma close_run_row:
  assumes "runs (snd (close_run en now k fr err a r db)) j = Some q" "runs db k = Some r"
  shows "(j = k \<and> q = settled_row en now fr err r) \<or>
         (j \<noteq> k \<and> run_status q = RUN_CANCELLED \<and> row_ok q \<and> descendant (save_run k (\<lambda>_. settled_row en now fr err r) db) k j) \<or>
         (j \<noteq> k \<and> runs db j = Some q \<and> \<not> descendant (save_run k (\<lambda>_. settled_row en now fr err r) db) k j)"
proof -
  let ?D = "descendant (save_run k (\<lambda>_. settled_row en now fr err r) db) k j"
  obtain q0 where q0: "runs db j = Some q0"
    "q = (if j = k then settled_row en now fr err r else if ?D then cancelled_row now q0 else q0)"
    using assms(1) unfolding close_run_rows [OF assms(2)] by (auto simp del: if_split)
  show ?thesis
  proof (cases "j = k")
    case False
    then show ?thesis using q0 by (cases ?D) simp_all
  qed (use q0 in simp)
qed

lemma descendant_publish:
  "descendant (save_run k f (publish_files k a db)) k j = descendant (save_run k f db) k j"
  by (intro descendant_cong) (simp add: active_children_def select_runs_def publish_files_def)

lemma close_run_execs:
  assumes "runs db k = Some r"
  shows "executions (snd (close_run en now k fr err a r db)) j =
     map_option (\<lambda>e. if j = k then e\<lparr>exec_status := snd (snd (snd (verdict fr err))), exec_finished_at := Some now\<rparr>
       else if descendant (save_run k (\<lambda>_. settled_row en now fr err r) db) k j
       then cancelled_exec now e else e) (executions db j)"
proof -
  have "executions (publish_files k a db) = executions db" by (simp add: publish_files_def)
  then show ?thesis
    using settled_not_descendant [OF assms]
    by (cases "j = k"; cases "executions db j")
      (simp_all add: close_run_def Let_def split_beta cancel_descendants_execs descendant_publish)
qed

lemma close_run_exec:
  assumes "executions (snd (close_run en now k fr err a r db)) j = Some e" "runs db k = Some r"
  shows "(j = k \<or> descendant (save_run k (\<lambda>_. settled_row en now fr err r) db) k j) \<and> \<not> open_exec (exec_status e) \<or>
         j \<noteq> k \<and> \<not> descendant (save_run k (\<lambda>_. settled_row en now fr err r) db) k j \<and> executions db j = Some e"
proof -
  let ?D = "descendant (save_run k (\<lambda>_. settled_row en now fr err r) db) k j"
  obtain e0 where e0: "executions db j = Some e0"
    "e = (if j = k then e0\<lparr>exec_status := snd (snd (snd (verdict fr err))), exec_finished_at := Some now\<rparr>
          else if ?D then cancelled_exec now e0 else e0)"
    using assms(1) unfolding close_run_execs [OF assms(2)] by (auto simp del: if_split)
  show ?thesis
  proof (cases "j = k")
    case True
    then show ?thesis using e0 status_settled(4) by simp
  next
    case False
    then show ?thesis using e0 by (cases ?D) simp_all
  qed
qed

lemma inv_close_run:
  assumes "lifecycle_inv db" "runs db k = Some r"
  shows "lifecycle_inv (snd (close_run en now k fr err a r db))"
proof (rule inv_change [OF assms(1)])
  let ?d = "snd (close_run en now k fr err a r db)"
  show "run_ids ?d = run_ids db"
    by (simp add: close_run_def Let_def split_beta publish_files_def)
  show "runs ?d j = None \<longleftrightarrow> runs db j = None" for j
    by (simp add: close_run_runs cancel_descendants_runs)
  show "row_ok q" if "runs ?d j = Some q" for j q
    using close_run_row [OF that assms(2)] inv_rowD [OF assms(1)] by auto
  show "exec_ok q e" if "runs ?d j = Some q" "executions ?d j = Some e" for j q e
    using close_run_row [OF that(1) assms(2)] close_run_exec [OF that(2) assms(2)] inv_execD [OF assms(1)]
    by (auto intro: exec_ok_closed)
  show "run_status q = RUN_CANCELLED"
    if "s \<in> set (steps ?d)" "step_status s = STEP_RUNNING" "runs ?d (step_run s) = Some q"
      "terminal_status (run_status q)" for s q
    using close_run_steps [OF that(1,2)] close_run_row [OF that(3) assms(2)] that(2,4) inv_stepD [OF assms(1)]
    by auto
qed

lemma delete_runs_row:
  "runs (delete_runs P db) k = Some q \<Longrightarrow>
     \<exists>r. runs db k = Some r \<and> \<not> P k r \<and> (q = r \<or> q = r\<lparr>parent_run := None\<rparr>)"
  by (auto simp: delete_runs_def Let_def split: option.splits if_splits)

lemma inv_delete_runs:
  assumes "lifecycle_inv db"
  shows "lifecycle_inv (delete_runs P db)"
proof -
  have "row_ok q" if "runs (delete_runs P db) k = Some q" for k q
    using delete_runs_row [OF that] inv_rowD [OF assms] by (auto simp: row_ok_def)
  moreover have "exec_ok q e" if "runs (delete_runs P db) k = Some q" "executions (delete_runs P db) k = Some e" for k q e
    using delete_runs_row [OF that(1)] inv_execD [OF assms] that(2)
    by (auto simp: exec_ok_def delete_runs_def Let_def split: if_splits)
  moreover have "run_status q = RUN_CANCELLED"
    if "s \<in> set (steps (delete_runs P db))" "step_status s = STEP_RUNNING"
      "runs (delete_runs P db) (step_run s) = Some q" "terminal_status (run_status q)" for s q
    using delete_runs_row [OF that(3)] inv_stepD [OF assms] that(1,2,4)
    by (auto simp: delete_runs_def Let_def)
  moreover have "k \<in> set (run_ids (delete_runs P db)) \<longleftrightarrow> runs (delete_runs P db) k \<noteq> None" for k
    using inv_idsD [OF assms, of k] by (auto simp: delete_runs_def Let_def)
  ultimately show ?thesis by (auto simp: lifecycle_inv_def)
qed

lemma inv_fold_results:
  assumes "lifecycle_inv db"
  shows "lifecycle_inv (fold_results en k rows db)"
proof (rule inv_change [OF assms])
  show "exec_ok q e" if "runs (fold_results en k rows db) j = Some q" "executions (fold_results en k rows db) j = Some e"
    for j q e
    using that inv_execD [OF assms] by (auto simp: fold_results_def exec_ok_def split: if_splits)
qed (use assms in \<open>auto simp: fold_results_def dest: inv_rowD inv_stepD\<close>)

lemma inv_finalize:
  assumes "lifecycle_inv db"
  shows "lifecycle_inv (finalize_delegated_children en k db)"
proof -
  have "lifecycle_inv (d\<lparr>sessions := x\<rparr>) = lifecycle_inv d" for d x
    by (simp add: lifecycle_inv_def)
  then show ?thesis
    using assms by (simp add: finalize_delegated_children_def reap_sessions_def Let_def inv_delete_runs inv_fold_results)
qed

lemma inv_after_settle: "lifecycle_inv db \<Longrightarrow> lifecycle_inv (after_settle en k a cs r' db)"
proof -
  assume inv: "lifecycle_inv db"
  have a: "lifecycle_inv (register_trace_export k db)"
    using inv by (simp add: register_trace_export_def lifecycle_inv_def)
  have b: "lifecycle_inv (promote_next_queued_run en x d) = lifecycle_inv d" for d x
    by (simp add: promote_next_queued_run_def split: list.splits)
  show ?thesis
    using a by (cases "parent_run r'") (simp_all add: after_settle_def Let_def b inv_finalize)
qed

lemma inv_finish:
  assumes "lifecycle_inv db" "finish_lensnode_run en now k fr db = Inr db'"
  shows "lifecycle_inv db'"
proof (cases "runs db k")
  case (Some r)
  have unsettled: "lifecycle_inv (save_run k (unsettled_row now st) db)"
    if "\<not> terminal_status st" "resume_by r = None \<or> active_status st" for st
    using that Some
    by (intro inv_focus_open [OF assms(1) Some]) (auto simp: unsettled_row_def row_ok_def map_option.identity)
  have settled: "lifecycle_inv (settle_run en now k fr' err a r db)" for fr' err a
    using inv_after_settle inv_close_run [OF assms(1) Some] by (simp add: settle_run_def split_beta)
  show ?thesis
    using assms Some
    by (auto simp: finish_lensnode_run_def Let_def rbind_Inr_iff settled unsettled split: if_splits)
qed (use assms in \<open>simp add: finish_lensnode_run_def\<close>)

lemma inv_cancel:
  assumes "lifecycle_inv db"
  shows "lifecycle_inv (snd (cancel_descendant_runs now k (save_exec k (cancelled_exec now) (save_run k (cancelled_row now) db))))"
proof (rule inv_cancel_descendants, cases "runs db k")
  case (Some r)
  show "lifecycle_inv (save_exec k (cancelled_exec now) (save_run k (cancelled_row now) db))"
    using Some by (intro inv_focus [OF assms, of _ k "cancelled_row now r"])
      (auto simp: exec_ok_closed map_option.identity)
next
  case None
  have same: "runs (save_run k (cancelled_row now) db) j = runs db j" for j
    using None by (cases "j = k") (simp_all add: map_option.identity)
  show "lifecycle_inv (save_exec k (cancelled_exec now) (save_run k (cancelled_row now) db))"
    by (rule inv_change [OF assms])
      (use None assms in \<open>auto simp: same simp del: runs_update_runs dest: inv_rowD inv_execD inv_stepD split: if_splits\<close>)
qed

lemma inv_admin_cancel: "lifecycle_inv db \<Longrightarrow> lifecycle_inv (admin_cancel_run now k db)"
  by (simp add: admin_cancel_run_def Let_def split_beta inv_cancel split: option.splits)

lemma inv_user_cancel: "lifecycle_inv db \<Longrightarrow> lifecycle_inv (user_cancel_run now k seen db)"
  by (simp add: user_cancel_run_def Let_def split_beta inv_cancel)

text \<open>
  Failing or parking a set of runs: each row is rewritten, their running steps are closed,
  and the executions of those that end are.
\<close>

lemma inv_bulk:
  assumes "lifecycle_inv db" and "run_ids db' = run_ids db"
    and rows: "\<And>k. runs db' k = map_option (\<lambda>r. if k \<in> K then f k r else r) (runs db k)"
    and ok: "\<And>k r. k \<in> K \<Longrightarrow> runs db k = Some r \<Longrightarrow> row_ok (f k r)"
    and execs: "\<And>k r e. k \<in> K \<Longrightarrow> runs db k = Some r \<Longrightarrow> executions db' k = Some e \<Longrightarrow> exec_ok (f k r) e"
    and other: "\<And>k r e. k \<notin> K \<Longrightarrow> runs db k = Some r \<Longrightarrow> executions db' k = Some e \<Longrightarrow> exec_ok r e"
    and closed: "\<And>s. s \<in> set (steps db') \<Longrightarrow> step_status s = STEP_RUNNING \<Longrightarrow> s \<in> set (steps db) \<and> step_run s \<notin> K"
  shows "lifecycle_inv db'"
proof (rule inv_change [OF assms(1,2)])
  show "runs db' k = None \<longleftrightarrow> runs db k = None" for k
    by (simp add: rows)
  show "row_ok q" if "runs db' k = Some q" for k q
    using that ok inv_rowD [OF assms(1)] by (auto simp: rows)
  show "exec_ok q e" if "runs db' k = Some q" "executions db' k = Some e" for k q e
    using that execs other by (auto simp: rows)
  show "run_status q = RUN_CANCELLED"
    if "s \<in> set (steps db')" "step_status s = STEP_RUNNING" "runs db' (step_run s) = Some q"
      "terminal_status (run_status q)" for s q
    using closed [OF that(1,2)] that(2-4) inv_stepD [OF assms(1)] by (auto simp: rows)
qed

lemma inv_fail_active:
  assumes "lifecycle_inv db"
  shows "lifecycle_inv (snd (fail_active_runs_for_lensnode now n db))"
proof -
  let ?K = "set (active_on_node n db)"
  have "lifecycle_inv (fail_running_steps_for_runs now (active_on_node n db) STEP_FAILED
          (update_runs (\<lambda>k _. k \<in> ?K) (\<lambda>_. fail_row now ''LENSNODE_DISCONNECTED'') db))"
  proof (rule inv_bulk [OF assms, of _ ?K "\<lambda>_. fail_row now ''LENSNODE_DISCONNECTED''"])
    show "s \<in> set (steps db) \<and> step_run s \<notin> ?K"
      if "s \<in> set (steps (fail_running_steps_for_runs now (active_on_node n db) STEP_FAILED
          (update_runs (\<lambda>k _. k \<in> ?K) (\<lambda>_. fail_row now ''LENSNODE_DISCONNECTED'') db)))"
        "step_status s = STEP_RUNNING" for s
      using steps_closed_for [OF that(1) _ that(2)] by simp
  qed (auto simp: exec_ok_def dest: inv_execD [OF assms, unfolded exec_ok_def])
  then show ?thesis
    using assms by (simp add: fail_active_runs_for_lensnode_def Let_def)
qed

lemma closed_exec:
  assumes "executions (close_open_execs now ks d) k = Some e"
  shows "k \<in> set ks \<and> \<not> open_exec (exec_status e) \<or> k \<notin> set ks \<and> executions d k = Some e"
proof -
  obtain e0 where e0: "executions d k = Some e0"
    "e = (if k \<in> set ks \<and> open_exec (exec_status e0)
          then e0\<lparr>exec_status := EXEC_FAILED, exec_finished_at := Some now\<rparr> else e0)"
    using assms by (auto simp: close_open_execs_def simp del: if_split)
  then show ?thesis by (cases "k \<in> set ks \<and> open_exec (exec_status e0)") auto
qed

lemma execs_close_other: "k \<notin> set ks \<Longrightarrow> executions (close_open_execs now ks d) k = executions d k"
  by (simp add: close_open_execs_def map_option.identity)

lemma close_open_execs_frame [simp]:
  "run_ids (close_open_execs now ks d) = run_ids d" "runs (close_open_execs now ks d) = runs d"
  "steps (close_open_execs now ks d) = steps d" "effects (close_open_execs now ks d) = effects d"
  "nodes (close_open_execs now ks d) = nodes d" "sessions (close_open_execs now ks d) = sessions d"
  by (simp_all add: close_open_execs_def)

lemma park_open: "\<not> t \<le> now \<Longrightarrow> \<not> terminal_status (run_status (park_row now t r))"
  by (simp add: park_row_def)

text \<open>Parking the runs \<open>ks\<close>, each with its deadline, and closing the expired ones.\<close>

lemma inv_park:
  assumes "lifecycle_inv db"
  shows "lifecycle_inv (close_open_execs now (filter (\<lambda>k. deadline k \<le> now) ks)
           (fail_running_steps_for_runs now ks STEP_FAILED
             (update_runs (\<lambda>k _. k \<in> set ks) (\<lambda>k. park_row now (deadline k)) db)))"
  (is "lifecycle_inv ?d")
proof (rule inv_bulk [OF assms, of ?d "set ks" "\<lambda>k. park_row now (deadline k)"])
  show "exec_ok (park_row now (deadline k) r) e"
    if "k \<in> set ks" "executions ?d k = Some e" for k r e
    using closed_exec [OF that(2)] that(1) park_open
    by (cases "deadline k \<le> now") (auto intro: exec_ok_closed exec_ok_nonterminal)
  show "exec_ok r e" if "k \<notin> set ks" "runs db k = Some r" "executions ?d k = Some e" for k r e
    using closed_exec [OF that(3)] that(1,2) inv_execD [OF assms] by auto
  show "s \<in> set (steps db) \<and> step_run s \<notin> set ks"
    if "s \<in> set (steps ?d)" "step_status s = STEP_RUNNING" for s
    using that steps_closed_for [of s now ks STEP_FAILED] by fastforce
qed simp_all

lemma inv_mark:
  assumes "lifecycle_inv db"
  shows "lifecycle_inv (snd (mark_active_runs_awaiting_resume en now n db))"
  using assms inv_park [OF assms, of now _ "active_on_node n db"] inv_fail_active [OF assms]
  by (simp add: mark_active_runs_awaiting_resume_def Let_def)

lemma inv_grace:
  "lifecycle_inv db \<Longrightarrow> lifecycle_inv (check_lensnode_disconnect_grace_period en now n sch db)"
  by (simp add: check_lensnode_disconnect_grace_period_def inv_mark split: option.splits)

lemma inv_requeue:
  assumes "lifecycle_inv db" "runs db k = Some r"
  shows "lifecycle_inv (requeue_run en now k db)"
proof -
  let ?f = "\<lambda>r. r\<lparr>run_status := RUN_QUEUED, resume_by := None, last_activity_at := Some now,
     run_error := [], run_outcome := None, termination_detail := [], run_updated_at := now\<rparr>"
  show ?thesis
    using assms(2)
    by (intro inv_focus_same [OF assms, of "?f r"])
      (simp_all add: requeue_run_def row_ok_def map_option.identity)
qed

lemma inv_redispatch:
  assumes "lifecycle_inv db" "runs db k = Some r"
  shows "lifecycle_inv (redispatch_run now k db)"
proof -
  let ?f = "\<lambda>r. r\<lparr>run_status := RUN_STREAMING, last_activity_at := Some now, run_updated_at := now\<rparr>"
  show ?thesis
    using assms(2)
    by (intro inv_focus_same [OF assms, of "?f r"])
      (simp_all add: redispatch_run_def Let_def row_ok_def map_option.identity)
qed

text \<open>Failing one run together with its execution and its steps.\<close>

lemma inv_fail_one:
  assumes "lifecycle_inv db" "runs db k = Some r"
    and "run_ids d = run_ids db" "runs d = runs (save_run k (fail_row now err) db)"
    and "steps d = steps (fail_running_steps_for_runs now [k] STEP_FAILED db)"
    and "\<And>j. j \<noteq> k \<Longrightarrow> executions d j = executions db j"
    and "\<And>e. executions d k = Some e \<Longrightarrow> \<not> open_exec (exec_status e)"
  shows "lifecycle_inv d"
proof (rule inv_focus [OF assms(1,3), of k "fail_row now err r"])
  show "s \<in> set (steps db)" if "s \<in> set (steps d)" "step_status s = STEP_RUNNING" for s
    using steps_closed_for [OF that(1) [unfolded assms(5)] _ that(2)] by simp
  show "run_status (fail_row now err r) = RUN_CANCELLED"
    if "s \<in> set (steps d)" "step_status s = STEP_RUNNING" "step_run s = k" for s
    using steps_closed_for [OF that(1) [unfolded assms(5)] _ that(2)] that(3) by simp
qed (use assms in \<open>auto simp: map_option.identity intro: exec_ok_closed\<close>)

lemma inv_resume_pass:
  assumes "lifecycle_inv db"
  shows "lifecycle_inv (snd (resume_pass en now n report_at k db))"
proof (cases "runs db k")
  case (Some r)
  have "lifecycle_inv (fail_running_steps_for_runs now [k] STEP_FAILED
          (save_exec k (\<lambda>e. e\<lparr>exec_status := EXEC_FAILED, exec_finished_at := Some now\<rparr>)
            (save_run k (fail_row now err) db)))" for err
    by (rule inv_fail_one [OF assms Some, of _ now err])
      (auto simp: map_option.identity fail_running_steps_for_runs_def)
  then show ?thesis
    using assms Some inv_requeue [OF assms Some] inv_redispatch [OF assms Some]
    by (simp add: resume_pass_def split: option.splits)
qed (use assms in \<open>simp add: resume_pass_def\<close>)

lemma inv_resume_loop:
  "lifecycle_inv db \<Longrightarrow> lifecycle_inv (snd (resume_loop en now n report_at ks db))"
  by (induction ks arbitrary: db) (auto simp: split_beta inv_resume_pass)

lemma inv_hello:
  "lifecycle_inv db \<Longrightarrow> resume_awaiting_runs_for_lensnode en now n rep db = Inr (c, db') \<Longrightarrow> lifecycle_inv db'"
  using inv_resume_loop by (auto simp: resume_awaiting_runs_for_lensnode_def Let_def split: option.splits)
    (metis snd_conv)

lemma inv_retry:
  "lifecycle_inv db \<Longrightarrow> retry_awaiting_run_resume en now k db = Inr (c, db') \<Longrightarrow> lifecycle_inv db'"
  by (auto simp: retry_awaiting_run_resume_def split: option.splits if_splits dest: inv_hello)

lemma inv_resume_one:
  "lifecycle_inv db \<Longrightarrow> resume_awaiting_run en now k db = Inr (c, db') \<Longrightarrow> lifecycle_inv db'"
  by (auto simp: resume_awaiting_run_def inv_requeue inv_redispatch split: option.splits if_splits)

lemma inv_confirm:
  assumes "lifecycle_inv db" "confirm_reconcile_orphan en now k db = Inr db'"
  shows "lifecycle_inv db'"
proof (cases "runs db k")
  case (Some r)
  define t where "t = get_run_resume_deadline en now db k r"
  define d where "d = fail_running_steps_for_runs now [k] STEP_FAILED (save_run k (park_row now t) db)"
  have park: "lifecycle_inv (close_open_execs now (if t \<le> now then [k] else []) d)"
    using inv_park [OF assms(1), of now "\<lambda>_. t" "[k]"] by (simp add: d_def cong: if_cong)
  have none: "close_open_execs now [] d = d"
    by (simp add: close_open_execs_def update_execs_def map_option.identity)
  have hello: "lifecycle_inv d'"
    if "resume_awaiting_runs_for_lensnode en now n [] (emit e d) = Inr (c, d')" "\<not> t \<le> now" for n e c d'
    using inv_hello [OF _ that(1)] park none that(2) by simp
  have emit_close: "lifecycle_inv (close_open_execs now [k] (emit e d)) = lifecycle_inv (close_open_execs now [k] d)" for e
    by (simp add: lifecycle_inv_def close_open_execs_def)
  show ?thesis
    using assms Some park none
    by (auto simp: confirm_reconcile_orphan_def Let_def rbind_Inr_iff t_def [symmetric] d_def [symmetric]
        emit_close split: option.splits if_splits dest: hello)
qed (use assms in \<open>simp add: confirm_reconcile_orphan_def\<close>)

lemma inv_expire:
  assumes "lifecycle_inv db"
  shows "lifecycle_inv (snd (expire_awaiting_run now k db))"
proof (cases "runs db k")
  case (Some r)
  have "lifecycle_inv (close_open_execs now [k] (emit (AlertEvaluation k)
          (fail_running_steps_for_runs now [k] STEP_FAILED (save_run k (fail_row now err) db))))" for err
    by (rule inv_fail_one [OF assms Some, of _ now err])
      (auto simp: execs_close_other map_option.identity fail_running_steps_for_runs_def dest!: closed_exec)
  then show ?thesis
    using assms Some by (simp add: expire_awaiting_run_def split: option.splits)
qed (use assms in \<open>simp add: expire_awaiting_run_def\<close>)

lemma timeout_row_simps [simp]:
  "run_status (timeout_row now r) = RUN_FAILED" "resume_by (timeout_row now r) = resume_by r"
  "run_finished_at (timeout_row now r) = Some now"
  by (simp_all add: timeout_row_def)

lemma reap_stale_runs:
  assumes "\<And>k. k \<in> set (run_ids db) \<longleftrightarrow> runs db k \<noteq> None"
  shows "runs (reap_stale now stale db) k =
    map_option (\<lambda>r. if k \<in> set stale then timeout_row now r else r) (runs db k)"
proof (cases "select_runs (\<lambda>k _. k \<in> set stale) db = []")
  case True
  have "k \<notin> set (select_runs (\<lambda>k _. k \<in> set stale) db)"
    unfolding True by simp
  then have "runs db k \<noteq> None \<Longrightarrow> k \<notin> set stale"
    using assms [of k] by (auto simp: set_select_runs)
  then show ?thesis
    by (cases "runs db k") (auto simp: reap_stale_def True)
qed (simp add: reap_stale_def Let_def)

lemma reap_stale_frame [simp]:
  "run_ids (reap_stale now stale db) = run_ids db" "executions (reap_stale now stale db) = executions db"
  by (simp_all add: reap_stale_def Let_def)

lemma reap_stale_steps:
  assumes "\<And>k. k \<in> set (run_ids db) \<longleftrightarrow> runs db k \<noteq> None"
    and "s \<in> set (steps (reap_stale now stale db))" "step_status s = STEP_RUNNING"
  shows "s \<in> set (steps db) \<and> (step_run s \<in> set stale \<longrightarrow> runs db (step_run s) = None)"
proof (cases "select_runs (\<lambda>k _. k \<in> set stale) db = []")
  case True
  have "step_run s \<notin> set (select_runs (\<lambda>k _. k \<in> set stale) db)"
    unfolding True by simp
  then have "step_run s \<in> set stale \<Longrightarrow> runs db (step_run s) = None"
    using assms(1) [of "step_run s"] by (auto simp: set_select_runs)
  then show ?thesis using True assms(2) by (simp add: reap_stale_def)
next
  case False
  then have "s \<in> set (steps (fail_running_steps_for_runs now stale STEP_FAILED db))"
    using assms(2) by (simp add: reap_stale_def Let_def)
  from steps_closed_for [OF this _ assms(3)] show ?thesis by simp
qed

lemma expire_overdue_frame [simp]:
  "run_ids (expire_overdue now db) = run_ids db" "executions (expire_overdue now db) = executions db"
  "runs (expire_overdue now db) k =
     map_option (\<lambda>r. if overdue now r then fail_row now ''LENSNODE_RESUME_EXPIRED'' r else r) (runs db k)"
  by (simp_all add: expire_overdue_def Let_def)

lemma expire_overdue_steps:
  assumes "\<And>k. k \<in> set (run_ids db) \<longleftrightarrow> runs db k \<noteq> None"
    and "s \<in> set (steps (expire_overdue now db))" "step_status s = STEP_RUNNING"
  shows "s \<in> set (steps db) \<and> (\<forall>r. runs db (step_run s) = Some r \<longrightarrow> \<not> overdue now r)"
proof -
  have "s \<in> set (steps (fail_running_steps_for_runs now (select_runs (\<lambda>_. overdue now) db) STEP_FAILED db))"
    using assms(2) by (simp add: expire_overdue_def Let_def)
  from steps_closed_for [OF this _ assms(3)] show ?thesis
    using assms(1) by (auto simp: set_select_runs)
qed

lemma closed_failed_exec:
  assumes "executions (close_failed_execs now d) k = Some e"
  shows "\<not> open_exec (exec_status e) \<or> \<not> run_failed d k \<and> executions d k = Some e"
proof -
  obtain e0 where e0: "executions d k = Some e0"
    "e = (if run_failed d k \<and> open_exec (exec_status e0)
          then e0\<lparr>exec_status := EXEC_FAILED, exec_finished_at := Some now\<rparr> else e0)"
    using assms by (auto simp: close_failed_execs_def simp del: if_split)
  then show ?thesis by (cases "run_failed d k \<and> open_exec (exec_status e0)") auto
qed

text \<open>
  The row a cleanup leaves, when the keys it reaps were found active and not parked.
\<close>

definition cleaned_row :: "int \<Rightarrow> nat list \<Rightarrow> nat \<Rightarrow> run \<Rightarrow> run" where
  "cleaned_row now stale k r =
     (if k \<in> set stale then timeout_row now r
      else if overdue now r then fail_row now ''LENSNODE_RESUME_EXPIRED'' r else r)"

lemma cleanup_reap_runs:
  assumes "\<And>k. k \<in> set (run_ids db) \<longleftrightarrow> runs db k \<noteq> None"
  shows "runs (snd (cleanup_reap now stale db)) k = map_option (cleaned_row now stale k) (runs db k)"
proof -
  have "\<not> overdue now (timeout_row now r)" for r
    by (simp add: overdue_def)
  then show ?thesis
    by (cases "runs db k")
      (simp_all add: cleanup_reap_def close_failed_execs_def reap_stale_runs [OF assms] cleaned_row_def)
qed

lemma inv_cleanup_reap:
  assumes "lifecycle_inv db"
    and stale: "\<And>k r. k \<in> set stale \<Longrightarrow> runs db k = Some r \<Longrightarrow> resume_by r = None"
  shows "lifecycle_inv (snd (cleanup_reap now stale db))"
proof (rule inv_change [OF assms(1)])
  let ?d1 = "reap_stale now stale db"
  let ?d2 = "expire_overdue now ?d1"
  let ?d = "snd (cleanup_reap now stale db)"
  have ids: "\<And>k. k \<in> set (run_ids db) \<longleftrightarrow> runs db k \<noteq> None"
    using inv_idsD [OF assms(1)] .
  have ids1: "\<And>k. k \<in> set (run_ids ?d1) \<longleftrightarrow> runs ?d1 k \<noteq> None"
    by (simp add: ids reap_stale_runs [OF ids])
  have rows: "runs ?d k = map_option (cleaned_row now stale k) (runs db k)" for k
    by (rule cleanup_reap_runs [OF ids])
  have d: "executions ?d = executions (close_failed_execs now ?d2)" "steps ?d = steps ?d2"
    "runs ?d = runs ?d2" "run_ids ?d = run_ids db"
    by (simp_all add: cleanup_reap_def close_failed_execs_def)
  show "run_ids ?d = run_ids db" by (rule d)
  show "runs ?d k = None \<longleftrightarrow> runs db k = None" for k by (simp add: rows)
  show "row_ok q" if "runs ?d k = Some q" for k q
  proof -
    from that obtain r where r: "runs db k = Some r" "q = cleaned_row now stale k r"
      by (auto simp: rows)
    have "row_ok (timeout_row now r)" if "k \<in> set stale"
      using stale [OF that r(1)] by (simp add: row_ok_def)
    then show ?thesis using r inv_rowD [OF assms(1) r(1)] by (simp add: cleaned_row_def)
  qed
  show "exec_ok q e" if "runs ?d k = Some q" "executions ?d k = Some e" for k q e
    using closed_failed_exec [OF that(2) [unfolded d(1)]]
  proof
    assume e: "\<not> run_failed ?d2 k \<and> executions ?d2 k = Some e"
    have "runs ?d2 k = Some q" using that(1) unfolding d(3) .
    then have "run_status q \<noteq> RUN_FAILED" using e by (simp add: run_failed_def del: expire_overdue_frame)
    moreover from that(1) obtain r where r: "runs db k = Some r" "q = cleaned_row now stale k r"
      by (auto simp: rows)
    ultimately have "q = r" by (auto simp: cleaned_row_def split: if_splits)
    then show ?thesis using r(1) e inv_execD [OF assms(1)] by simp
  qed (rule exec_ok_closed)
  show "run_status q = RUN_CANCELLED"
    if "s \<in> set (steps ?d)" "step_status s = STEP_RUNNING" "runs ?d (step_run s) = Some q"
      "terminal_status (run_status q)" for s q
  proof -
    have s2: "s \<in> set (steps ?d1)" "\<forall>r. runs ?d1 (step_run s) = Some r \<longrightarrow> \<not> overdue now r"
      using expire_overdue_steps [OF ids1 _ that(2)] that(1) by (simp_all add: d(2))
    have s1: "s \<in> set (steps db)" "step_run s \<in> set stale \<longrightarrow> runs db (step_run s) = None"
      using reap_stale_steps [OF ids s2(1) that(2)] by auto
    then have "runs db (step_run s) = Some q"
      using that(3) s2(2) by (auto simp: rows cleaned_row_def reap_stale_runs [OF ids])
    then show ?thesis using inv_stepD [OF assms(1) s1(1) that(2)] that(4) by simp
  qed
qed

lemma inv_cleanup:
  assumes "lifecycle_inv db" "lensnode_cleanup_task en now db = Inr (c, db')"
  shows "lifecycle_inv db'"
proof (cases "cleanup_enabled en")
  case True
  then obtain stale where st: "cleanup_scan en now db = Inr stale" "db' = snd (cleanup_reap now stale db)"
    using assms(2) by (auto simp: lensnode_cleanup_task_def rbind_Inr_iff)
  then have "k \<in> set stale \<Longrightarrow> runs db k = Some r \<Longrightarrow> resume_by r = None" for k r
    by (auto simp: cleanup_scan_def rbind_Inr_iff set_select_runs)
  then show ?thesis using inv_cleanup_reap [OF assms(1)] st(2) by simp
qed (use assms in \<open>simp add: lensnode_cleanup_task_def\<close>)

lemma inv_event:
  assumes "lifecycle_inv db" "run_event_res en now ev db = Inr db'"
  shows "lifecycle_inv db'"
  using assms(2)
  by (cases ev)
    (auto simp: run_event_res_def rbind_Inr_iff inv_append [OF assms(1)] inv_acknowledge [OF assms(1)] inv_activity [OF assms(1)]
      inv_admin_cancel [OF assms(1)] inv_user_cancel [OF assms(1)] inv_grace [OF assms(1)] inv_expire [OF assms(1)]
      acknowledge_run_admitted_def acknowledge_run_checkpoint_ready_def reconcile_lensnode_active_runs_def
      Let_def assms(1)
      split: option.splits
      dest: inv_step_event [OF assms(1)] inv_finish [OF assms(1)]
        inv_resume_one [OF assms(1)] inv_hello [OF assms(1)] inv_retry [OF assms(1)]
        inv_confirm [OF assms(1)] inv_cleanup [OF assms(1)])

interpretation run_tables: step_invariant "run_event_step en" lifecycle_inv for en
proof
  show "lifecycle_inv db \<Longrightarrow> lifecycle_inv (run_event_step en db e)" for db e
    by (cases "run_event_res en (fst e) (snd e) db") (simp_all add: run_event_step_def inv_event)
qed

end
