(* ===== verification/Event_Properties.thy ===== *)
theory Event_Properties
  imports Runtime_Events
begin

text \<open>
  Runtime events shown to users: a termination detail that passed the sanitizer holds allowlisted
  values only and passes it again unchanged; the sanitizer raises exactly on unhashable values;
  the activities of a step are public, and what one of them has shown stays as it was.
\<close>

section \<open>Parts of a dictionary\<close>

lemma gather_Inr: "gather ms = Inr xs \<Longrightarrow> \<exists>yss. ms = map Inr yss \<and> xs = concat yss"
proof (induction ms arbitrary: xs)
  case (Cons m ms)
  then obtain ys zs where p: "m = Inr ys" "gather ms = Inr zs" "xs = ys @ zs"
    by (auto simp: rbind_Inr_iff)
  from Cons.IH [OF p(2)] obtain yss where "ms = map Inr yss" "zs = concat yss" by blast
  with p show ?case by (intro exI [of _ "ys # yss"]) simp
qed simp

lemma gather_Inl: "gather ms = Inl e \<Longrightarrow> Inl e \<in> set ms"
proof (induction ms)
  case (Cons m ms)
  then show ?case by (cases m; cases "gather ms") auto
qed simp

lemma gather_raises: "Inl e \<in> set ms \<Longrightarrow> \<exists>e'. gather ms = Inl e'"
proof (induction ms)
  case (Cons m ms)
  then show ?case by (cases m; cases "gather ms") auto
qed simp

lemma dget_skip: "k \<notin> fst ` set xs \<Longrightarrow> dget (xs @ ys) k = dget ys k"
  by (simp add: dget_def map_add_def map_of_eq_None_iff split: option.split)
    (metis map_of_eq_None_iff option.distinct(1))

lemma dget_stop: "k \<notin> fst ` set ys \<Longrightarrow> dget (xs @ ys) k = dget xs k"
  by (induction xs) (auto simp: dget_def map_of_eq_None_iff [symmetric] split: option.split)

lemma dget_absent: "k \<notin> fst ` set xs \<Longrightarrow> dget xs k = PNone"
  by (simp add: dget_def map_of_eq_None_iff [symmetric])

section \<open>Termination details: each field\<close>

lemma in_texts_Inl: "in_texts v S = Inl e \<longleftrightarrow> e = TypeError \<and> (is_dict v \<or> (\<exists>xs. v = PList xs))"
  by (auto simp: in_texts_def split: py.split)

lemma kept_if_Inr:
  "kept_if k v S = Inr p \<longleftrightarrow>
     (\<exists>s. v = PStr s \<and> s \<in> S \<and> p = [(k, v)]) \<or> ((\<forall>s. v = PStr s \<longrightarrow> s \<notin> S) \<and> \<not> is_dict v \<and> (\<forall>xs. v \<noteq> PList xs) \<and> p = [])"
  by (cases v) (auto simp: kept_if_def in_texts_def)

lemma kept_if_again: "kept_if k v S = Inr p \<Longrightarrow> kept_if k (dget p k) S = Inr p"
  by (auto simp: kept_if_Inr)

lemma kept_if_keys: "kept_if k v S = Inr p \<Longrightarrow> k' \<noteq> k \<Longrightarrow> k' \<notin> fst ` set p"
  by (auto simp: kept_if_Inr)

lemma text_choices_keys: "(k, w) \<in> set (text_choices table d) \<Longrightarrow>
    \<exists>S s. (k, S) \<in> set table \<and> w = PStr s \<and> s \<in> S \<and> dget d k = w"
  by (fastforce simp: text_choices_def split: py.splits if_splits)

lemma text_choices_Nil [simp]: "text_choices table [] = []"
  by (induction table) (auto simp: text_choices_def)

lemma choices_again_tail:
  assumes "k \<notin> fst ` set table"
  shows "text_choices table ((k, v) # d) = text_choices table d"
  unfolding text_choices_def
  by (intro arg_cong [of _ _ concat] map_cong refl) (use assms in \<open>force simp: dget_def\<close>)

lemma choices_absent: "k \<notin> fst ` set table \<Longrightarrow> k \<notin> fst ` set (text_choices table d)"
  by (auto dest!: text_choices_keys simp: image_iff)

lemma choices_again: "distinct (map fst table) \<Longrightarrow> text_choices table (text_choices table d) = text_choices table d"
proof (induction table)
  case (Cons kS table)
  obtain k S where kS: "kS = (k, S)" by force
  let ?rest = "text_choices table d"
  have k: "k \<notin> fst ` set table" using Cons.prems kS by simp
  have ih: "text_choices table ?rest = ?rest" using Cons kS by simp
  show ?case
  proof (cases "\<exists>s. dget d k = PStr s \<and> s \<in> S")
    case True
    then obtain s where s: "dget d k = PStr s" "s \<in> S" by blast
    then have "text_choices (kS # table) d = (k, PStr s) # ?rest" by (simp add: text_choices_def kS)
    then show ?thesis using s(2) choices_again_tail [OF k] ih
      by (simp add: kS) (simp add: text_choices_def)
  next
    case False
    then have "text_choices (kS # table) d = ?rest"
      by (auto simp: text_choices_def kS split: py.split)
    then show ?thesis using ih dget_absent [OF choices_absent [OF k, of d]]
      by (simp add: kS) (simp add: text_choices_def)
  qed
qed (simp add: text_choices_def)

lemma assessment_again:
  "assessment_field (dget (assessment_field v) ''assessment'') = assessment_field v"
proof (cases "public_assessment v = []")
  case True
  then show ?thesis by (simp add: assessment_field_def public_assessment_def)
next
  case False
  have "distinct (map fst assessment_values)" by (simp add: assessment_values_def)
  then have "public_assessment (PDict (public_assessment v)) = public_assessment v"
    using choices_again by (auto simp: public_assessment_def split: py.split)
  with False show ?thesis by (simp add: assessment_field_def)
qed

lemma text_values_map: "text_values S (map PStr ts) = filter (\<lambda>t. t \<in> S) ts"
  by (induction ts) (simp_all add: text_values_def List.map_filter_def)

lemma text_values_in: "t \<in> set (text_values S vs) \<Longrightarrow> t \<in> S"
proof -
  assume "t \<in> set (text_values S vs)"
  then obtain v where "(case v of PStr s \<Rightarrow> if s \<in> S then Some s else None | _ \<Rightarrow> None) = Some t"
    by (auto simp only: text_values_def set_map_filter)
  then show ?thesis by (cases v) (auto split: if_splits)
qed

lemma list_again: "public_list_field k S (dget (public_list_field k S v) k) = public_list_field k S v"
proof (cases v)
  case (PList vs)
  show ?thesis
  proof (cases "keep_first (text_values S vs)")
    case Nil
    then show ?thesis by (simp add: public_list_field_def PList)
  next
    case (Cons t ts)
    have "filter (\<lambda>t. t \<in> S) (t # ts) = t # ts"
      unfolding Cons [symmetric] by (auto simp: filter_id_conv dest: text_values_in)
    then have "keep_first (text_values S (map PStr (t # ts))) = t # ts"
      using distinct_keep_first [of "text_values S vs"] Cons
      by (simp only: text_values_map) simp
    then show ?thesis by (simp add: public_list_field_def PList Cons)
  qed
qed (simp_all add: public_list_field_def)

lemma keep_texts_values: "keep_texts S vs = Inr ws \<Longrightarrow> w \<in> set ws \<Longrightarrow> \<exists>s. w = PStr s \<and> s \<in> S"
proof (induction vs arbitrary: ws)
  case (Cons v vs)
  from Cons.prems(1) obtain b ws' where r: "in_texts v S = Inr b" "keep_texts S vs = Inr ws'"
    "ws = (if b then v # ws' else ws')" by (auto simp: rbind_Inr_iff)
  then show ?case using Cons.IH [OF r(2)] Cons.prems(2) in_texts_True [of v S] by (auto split: if_splits)
qed simp

lemma keep_texts_same: "set ts \<subseteq> S \<Longrightarrow> keep_texts S (map PStr ts) = Inr (map PStr ts)"
  by (induction ts) simp_all

lemma str_of_map [simp]: "List.map_filter str_of (map PStr ts) = ts"
  by (induction ts) (simp_all add: List.map_filter_def)

lemma issues_cases:
  assumes "issues_field v = Inr p"
  obtains "p = []"
  | ts where "ts \<noteq> []" "sorted ts" "distinct ts" "set ts \<subseteq> completion_codes"
      "p = [(''completion_issues'', PList (map (\<lambda>t. PDict [(''code'', PStr t)]) ts))]"
proof (cases v)
  case (PList issues)
  with assms obtain cs where cs: "issue_codes issues = Inr cs"
    and p: "p = (let ts = sort (remdups (List.map_filter str_of cs))
                 in if ts = [] then [] else [(''completion_issues'', PList (map (\<lambda>t. PDict [(''code'', PStr t)]) ts))])"
    by (auto simp: issues_field_def rbind_Inr_iff Let_def)
  have "set (sort (remdups (List.map_filter str_of cs))) \<subseteq> completion_codes"
    using keep_texts_values [OF cs [unfolded issue_codes_def]] by (fastforce simp: set_map_filter)
  then show thesis using p that by (auto simp: Let_def split: if_splits)
qed (use assms that in \<open>auto simp: issues_field_def\<close>)

lemma issues_again: "issues_field v = Inr p \<Longrightarrow> issues_field (dget p ''completion_issues'') = Inr p"
proof (elim issues_cases)
  fix ts assume t: "ts \<noteq> []" "sorted ts" "distinct ts" "set ts \<subseteq> completion_codes"
    "p = [(''completion_issues'', PList (map (\<lambda>t. PDict [(''code'', PStr t)]) ts))]"
  have "issue_codes (map (\<lambda>t. PDict [(''code'', PStr t)]) ts) = Inr (map PStr ts)"
    using keep_texts_same [OF t(4)] by (simp add: issue_codes_def filter_map comp_def)
  then show ?thesis using t by (simp add: issues_field_def sorted_sort_id distinct_remdups_id)
qed (simp add: issues_field_def)

lemma error_cases:
  "error_fields r v = Inr p \<longleftrightarrow>
     (\<exists>s. v = PStr s \<and> s \<in> PUBLIC_ERROR_TYPES \<and> p = [(''error_type'', v), (''recovery'', PStr (recovery_text r s))])
   \<or> ((\<forall>s. v = PStr s \<longrightarrow> s \<notin> PUBLIC_ERROR_TYPES) \<and> \<not> is_dict v \<and> (\<forall>xs. v \<noteq> PList xs) \<and> p = [])"
proof (cases v)
  case (PStr s)
  have "error_fields r (PStr s) = Inr (if s \<in> PUBLIC_ERROR_TYPES
      then [(''error_type'', PStr s), (''recovery'', PStr (recovery_text r s))] else [])"
    by (simp add: error_fields_def)
  then show ?thesis unfolding PStr by (cases "s \<in> PUBLIC_ERROR_TYPES") auto
qed (auto simp: error_fields_def in_texts_def)

text \<open>The reason the sanitizer keeps has the effects of the one it was given.\<close>

lemma kept_reason:
  assumes "kept_if ''reason'' r PUBLIC_TERMINATION_REASONS = Inr p"
  shows "recovery_text (dget p ''reason'') s = recovery_text r s"
    and "dget p ''reason'' = PStr ''needs_user_input'' \<longleftrightarrow> r = PStr ''needs_user_input''"
proof -
  have "p = [(''reason'', r)] \<or> p = [] \<and> r \<notin> PStr ` PUBLIC_TERMINATION_REASONS"
    using assms by (auto simp: kept_if_Inr)
  moreover have "{PStr ''evidence_incomplete'', PStr ''review_material_incomplete'', PStr ''review_unavailable'',
      PStr ''needs_user_input''} \<subseteq> PStr ` PUBLIC_TERMINATION_REASONS"
    by (simp add: PUBLIC_TERMINATION_REASONS_def)
  ultimately have p: "p = [(''reason'', r)] \<or> p = [] \<and> r \<noteq> PStr ''evidence_incomplete''
      \<and> r \<noteq> PStr ''review_material_incomplete'' \<and> r \<noteq> PStr ''review_unavailable'' \<and> r \<noteq> PStr ''needs_user_input''"
    by blast
  then show "recovery_text (dget p ''reason'') s = recovery_text r s"
    by (elim disjE conjE) (simp_all add: recovery_text_def)
  from p show "dget p ''reason'' = PStr ''needs_user_input'' \<longleftrightarrow> r = PStr ''needs_user_input''"
    by (elim disjE conjE) simp_all
qed

lemma request_cases:
  assumes "request_field repr r v = Inr p"
  obtains "p = []"
  | i t s where "r = PStr ''needs_user_input''" "py_strip i = i" "i \<noteq> []" "length i \<le> 128"
      "py_strip t = t" "t \<noteq> []" "length t \<le> 1000" "s \<in> request_reasons"
      "p = [(''request'', PDict [(''request_id'', PStr i), (''question'', PStr t), (''reason'', PStr s),
             (''answer_type'', PStr ''text'')])]"
proof (cases v)
  case (PDict q)
  let ?i = "py_strip (text_or_empty repr (dget q ''request_id''))"
  let ?t = "py_strip (text_or_empty repr (dget q ''question''))"
  show thesis
  proof (cases "r \<noteq> PStr ''needs_user_input'' \<or> ?i = [] \<or> length ?i > 128 \<or> ?t = [] \<or> length ?t > 1000
      \<or> dget q ''answer_type'' \<noteq> PStr ''text''")
    case True
    then have "p = []" using assms by (auto simp: request_field_def PDict Let_def split: if_splits)
    then show thesis by (rule that(1))
  next
    case False
    then obtain b where b: "in_texts (dget q ''reason'') request_reasons = Inr b"
      and p: "p = (if b then [(''request'', PDict [(''request_id'', PStr ?i), (''question'', PStr ?t),
                                   (''reason'', dget q ''reason''), (''answer_type'', PStr ''text'')])] else [])"
      using assms by (auto simp: request_field_def PDict Let_def rbind_Inr_iff)
    show thesis
    proof (cases b)
      case True
      with b obtain s where "dget q ''reason'' = PStr s" "s \<in> request_reasons" by (auto simp: in_texts_True)
      then show thesis using that(2) [of ?i ?t s] False p True by simp
    qed (use p that(1) in simp)
  qed
qed (use assms that in \<open>auto simp: request_field_def\<close>)

lemma request_again:
  assumes "request_field repr r v = Inr p" and "r' = PStr ''needs_user_input'' \<longleftrightarrow> r = PStr ''needs_user_input''"
  shows "request_field repr r' (dget p ''request'') = Inr p"
  using assms(1) by (rule request_cases) (use assms(2) in \<open>simp_all add: request_field_def\<close>)

section \<open>Termination details\<close>

lemma termination_Inr:
  assumes "sanitize_termination_detail repr (PDict d) = Inr p"
  obtains R T I C E K Q where
    "kept_if ''reason'' (dget d ''reason'') PUBLIC_TERMINATION_REASONS = Inr R"
    "kept_if ''trigger'' (dget d ''trigger'') PUBLIC_TERMINATION_REASONS = Inr T"
    "issues_field (dget d ''completion_issues'') = Inr I"
    "kept_if ''capability'' (dget d ''capability'') PUBLIC_CAPABILITIES = Inr C"
    "error_fields (dget d ''reason'') (dget d ''error_type'') = Inr E"
    "kept_if ''code'' (dget d ''code'') PUBLIC_RUNTIME_CODES = Inr K"
    "request_field repr (dget d ''reason'') (dget d ''request'') = Inr Q"
    "p = assessment_field (dget d ''assessment'')
       @ public_list_field ''warnings'' public_warnings (dget d ''warnings'')
       @ public_list_field ''blocking_reasons'' PUBLIC_TERMINATION_REASONS (dget d ''blocking_reasons'')
       @ R @ T @ I @ C @ E @ K @ Q"
proof -
  from assms have "gather (termination_parts repr d) = Inr p" by (simp add: sanitize_termination_detail_def)
  then show thesis
    unfolding termination_parts_def gather.simps rbind_simps rbind_Inr_iff using that by auto
qed

lemma assessment_keys: "k \<noteq> ''assessment'' \<Longrightarrow> k \<notin> fst ` set (assessment_field v)"
  by (simp add: assessment_field_def)

lemma list_keys: "k' \<noteq> k \<Longrightarrow> k' \<notin> fst ` set (public_list_field k S v)"
  by (cases v) (auto simp: public_list_field_def split: list.split)

lemma issues_keys: "issues_field v = Inr p \<Longrightarrow> k \<noteq> ''completion_issues'' \<Longrightarrow> k \<notin> fst ` set p"
  by (elim issues_cases) auto

lemma error_keys: "error_fields r v = Inr p \<Longrightarrow> k \<noteq> ''error_type'' \<Longrightarrow> k \<noteq> ''recovery'' \<Longrightarrow> k \<notin> fst ` set p"
  by (auto simp: error_cases)

lemma request_keys: "request_field repr r v = Inr p \<Longrightarrow> k \<noteq> ''request'' \<Longrightarrow> k \<notin> fst ` set p"
  by (elim request_cases) auto

lemma no_termination:
  "\<not> is_dict v \<Longrightarrow> sanitize_termination_detail repr v = Inr []"
  "sanitize_termination_detail repr (PDict []) = Inr []"
proof -
  have "termination_parts repr [] = replicate 10 (Inr [])"
    by (simp add: termination_parts_def assessment_field_def public_assessment_def public_list_field_def
        kept_if_def issues_field_def error_fields_def request_field_def eval_nat_numeral)
  then show "sanitize_termination_detail repr (PDict []) = Inr []"
    by (simp add: sanitize_termination_detail_def eval_nat_numeral)
qed (cases v, simp_all add: sanitize_termination_detail_def)

lemma termination_again:
  assumes "sanitize_termination_detail repr v = Inr p"
  shows "sanitize_termination_detail repr (PDict p) = Inr p"
proof (cases v)
  case (PDict d)
  from assms [unfolded PDict] show ?thesis
  proof (rule termination_Inr)
    fix R T I C E K Q
    let ?A = "assessment_field (dget d ''assessment'')"
    let ?W = "public_list_field ''warnings'' public_warnings (dget d ''warnings'')"
    let ?B = "public_list_field ''blocking_reasons'' PUBLIC_TERMINATION_REASONS (dget d ''blocking_reasons'')"
    assume f: "kept_if ''reason'' (dget d ''reason'') PUBLIC_TERMINATION_REASONS = Inr R"
      "kept_if ''trigger'' (dget d ''trigger'') PUBLIC_TERMINATION_REASONS = Inr T"
      "issues_field (dget d ''completion_issues'') = Inr I"
      "kept_if ''capability'' (dget d ''capability'') PUBLIC_CAPABILITIES = Inr C"
      "error_fields (dget d ''reason'') (dget d ''error_type'') = Inr E"
      "kept_if ''code'' (dget d ''code'') PUBLIC_RUNTIME_CODES = Inr K"
      "request_field repr (dget d ''reason'') (dget d ''request'') = Inr Q"
      and p: "p = ?A @ ?W @ ?B @ R @ T @ I @ C @ E @ K @ Q"
    note keys = assessment_keys list_keys kept_if_keys [OF f(1)] kept_if_keys [OF f(2)] issues_keys [OF f(3)]
      kept_if_keys [OF f(4)] error_keys [OF f(5)] kept_if_keys [OF f(6)] request_keys [OF f(7)]
    have at: "dget p ''assessment'' = dget ?A ''assessment''" "dget p ''warnings'' = dget ?W ''warnings''"
      "dget p ''blocking_reasons'' = dget ?B ''blocking_reasons''" "dget p ''reason'' = dget R ''reason''"
      "dget p ''trigger'' = dget T ''trigger''" "dget p ''completion_issues'' = dget I ''completion_issues''"
      "dget p ''capability'' = dget C ''capability''" "dget p ''error_type'' = dget E ''error_type''"
      "dget p ''code'' = dget K ''code''" "dget p ''request'' = dget Q ''request''"
      unfolding p by (simp_all add: dget_skip dget_stop keys image_Un)
    have "error_fields (dget R ''reason'') (dget E ''error_type'') = Inr E"
      using f(5) kept_reason(1) [OF f(1)] by (auto simp: error_cases)
    then have "gather (termination_parts repr p) = Inr p"
      unfolding termination_parts_def at assessment_again list_again
      by (simp add: kept_if_again [OF f(1)] kept_if_again [OF f(2)] issues_again [OF f(3)]
          kept_if_again [OF f(4)] kept_if_again [OF f(6)] request_again [OF f(7) kept_reason(2) [OF f(1)]] p)
    then show ?thesis by (simp add: sanitize_termination_detail_def)
  qed
qed (use assms in \<open>auto simp: no_termination\<close>)


text \<open>A field users may see, with its values.\<close>

definition public_field :: "string \<Rightarrow> py \<Rightarrow> bool" where
  "public_field k v \<longleftrightarrow>
     (k = ''assessment'' \<and> (\<exists>a. v = PDict a \<and>
        (\<forall>(j, w) \<in> set a. \<exists>S s. (j, S) \<in> set assessment_values \<and> w = PStr s \<and> s \<in> S)))
   \<or> (k = ''warnings'' \<and> (\<exists>ts. v = PList (map PStr ts) \<and> set ts \<subseteq> public_warnings))
   \<or> (k = ''blocking_reasons'' \<and> (\<exists>ts. v = PList (map PStr ts) \<and> set ts \<subseteq> PUBLIC_TERMINATION_REASONS))
   \<or> (k \<in> {''reason'', ''trigger''} \<and> (\<exists>s \<in> PUBLIC_TERMINATION_REASONS. v = PStr s))
   \<or> (k = ''completion_issues'' \<and>
        (\<exists>ts. v = PList (map (\<lambda>t. PDict [(''code'', PStr t)]) ts) \<and> set ts \<subseteq> completion_codes))
   \<or> (k = ''capability'' \<and> (\<exists>s \<in> PUBLIC_CAPABILITIES. v = PStr s))
   \<or> (k = ''error_type'' \<and> (\<exists>s \<in> PUBLIC_ERROR_TYPES. v = PStr s))
   \<or> (k = ''recovery'' \<and> (\<exists>r. \<exists>s \<in> PUBLIC_ERROR_TYPES. v = PStr (recovery_text r s)))
   \<or> (k = ''code'' \<and> (\<exists>s \<in> PUBLIC_RUNTIME_CODES. v = PStr s))
   \<or> (k = ''request'' \<and> (\<exists>i t s. v = PDict [(''request_id'', PStr i), (''question'', PStr t), (''reason'', PStr s),
        (''answer_type'', PStr ''text'')] \<and> length i \<le> 128 \<and> length t \<le> 1000 \<and> s \<in> request_reasons))"

lemma assessment_public: "(k, v) \<in> set (assessment_field w) \<Longrightarrow> public_field k v"
  by (cases w) (fastforce simp: assessment_field_def public_assessment_def public_field_def
      dest: text_choices_keys split: if_splits)+

lemma list_public:
  assumes "(k', v) \<in> set (public_list_field k S w)"
  shows "k' = k \<and> (\<exists>ts. v = PList (map PStr ts) \<and> set ts \<subseteq> S)"
proof (cases w)
  case (PList vs)
  have "set (keep_first (text_values S vs)) \<subseteq> S" by (auto dest: text_values_in)
  moreover have "k' = k \<and> v = PList (map PStr (keep_first (text_values S vs)))"
    using assms by (cases "keep_first (text_values S vs)") (auto simp: public_list_field_def PList)
  ultimately show ?thesis by blast
qed (use assms in \<open>simp_all add: public_list_field_def\<close>)

lemma kept_public: "kept_if k v S = Inr p \<Longrightarrow> (k', w) \<in> set p \<Longrightarrow> k' = k \<and> (\<exists>s \<in> S. w = PStr s)"
  by (auto simp: kept_if_Inr)

lemma issues_public: "issues_field v = Inr p \<Longrightarrow> (k, w) \<in> set p \<Longrightarrow> public_field k w"
  by (elim issues_cases) (auto simp: public_field_def)

lemma error_public: "error_fields r v = Inr p \<Longrightarrow> (k, w) \<in> set p \<Longrightarrow> public_field k w"
proof -
  have fields: "public_field ''error_type'' (PStr s)" "public_field ''recovery'' (PStr (recovery_text r s))"
    if "s \<in> PUBLIC_ERROR_TYPES" for s
  proof -
    show "public_field ''error_type'' (PStr s)" using that by (simp add: public_field_def)
    have "\<exists>r'. \<exists>s' \<in> PUBLIC_ERROR_TYPES. PStr (recovery_text r s) = PStr (recovery_text r' s')"
      using that by blast
    then show "public_field ''recovery'' (PStr (recovery_text r s))" by (simp add: public_field_def)
  qed
  assume p: "error_fields r v = Inr p" "(k, w) \<in> set p"
  from p(1) [unfolded error_cases] show ?thesis
  proof (elim disjE exE conjE)
    fix s
    assume s: "v = PStr s" "s \<in> PUBLIC_ERROR_TYPES"
      "p = [(''error_type'', v), (''recovery'', PStr (recovery_text r s))]"
    from p(2) have "(k, w) = (''error_type'', PStr s) \<or> (k, w) = (''recovery'', PStr (recovery_text r s))"
      unfolding s(1,3) by simp
    then show ?thesis using fields [OF s(2)] by (elim disjE) (simp_all only: prod.inject)
  qed (use p(2) in simp)
qed

lemma request_public: "request_field repr r v = Inr p \<Longrightarrow> (k, w) \<in> set p \<Longrightarrow> public_field k w"
  by (elim request_cases) (auto simp: public_field_def)

lemma termination_public:
  assumes "sanitize_termination_detail repr v = Inr p" "(k, w) \<in> set p"
  shows "public_field k w"
proof (cases v)
  case (PDict d)
  from assms(1) [unfolded PDict] show ?thesis
  proof (rule termination_Inr)
    fix R T I C E K Q
    assume f: "kept_if ''reason'' (dget d ''reason'') PUBLIC_TERMINATION_REASONS = Inr R"
      "kept_if ''trigger'' (dget d ''trigger'') PUBLIC_TERMINATION_REASONS = Inr T"
      "issues_field (dget d ''completion_issues'') = Inr I"
      "kept_if ''capability'' (dget d ''capability'') PUBLIC_CAPABILITIES = Inr C"
      "error_fields (dget d ''reason'') (dget d ''error_type'') = Inr E"
      "kept_if ''code'' (dget d ''code'') PUBLIC_RUNTIME_CODES = Inr K"
      "request_field repr (dget d ''reason'') (dget d ''request'') = Inr Q"
      and p: "p = assessment_field (dget d ''assessment'')
       @ public_list_field ''warnings'' public_warnings (dget d ''warnings'')
       @ public_list_field ''blocking_reasons'' PUBLIC_TERMINATION_REASONS (dget d ''blocking_reasons'')
       @ R @ T @ I @ C @ E @ K @ Q"
    note fields = assessment_public issues_public [OF f(3)] error_public [OF f(5)] request_public [OF f(7)]
    note kept = list_public kept_public [OF f(1)] kept_public [OF f(2)] kept_public [OF f(4)] kept_public [OF f(6)]
    from assms(2) show ?thesis
      unfolding p set_append Un_iff
      by (elim disjE) ((drule fields, assumption) | (drule kept, simp add: public_field_def))+
  qed
qed (use assms in \<open>auto simp: no_termination\<close>)

text \<open>C35.
  Whatever a node sends as termination detail, each field that is stored and shown is one of the
  allowlisted ones with an allowlisted value or a bounded text; and a stored detail passes the
  sanitizer unchanged, so every view of a run shows the same detail.
\<close>

theorem termination_detail_is_public:
  assumes "sanitize_termination_detail repr v = Inr p"
  shows "(\<forall>(k, w) \<in> set p. public_field k w) \<and> sanitize_termination_detail repr (PDict p) = Inr p"
  using termination_public [OF assms] termination_again [OF assms] by blast

definition sample_detail :: py where
  "sample_detail = PDict [(''secret'', PStr ''key''), (''reason'', PStr ''runtime_failure''),
     (''error_type'', PStr ''tool''), (''warnings'', PList [PStr ''evidence_incomplete'', PInt 3, PStr ''other''])]"

lemma sample_termination:
  "sanitize_termination_detail (\<lambda>_. []) sample_detail
     = Inr [(''warnings'', PList [PStr ''evidence_incomplete'']), (''reason'', PStr ''runtime_failure''),
            (''error_type'', PStr ''tool''),
            (''recovery'', PStr ''Use another available capability or contact an administrator.'')]"
proof -
  have "public_list_field ''warnings'' public_warnings (PList [PStr ''evidence_incomplete'', PInt 3, PStr ''other''])
      = [(''warnings'', PList [PStr ''evidence_incomplete''])]"
    by (simp add: public_list_field_def text_values_def List.map_filter_def public_warnings_def keep_first_def)
  moreover have "kept_if ''reason'' (PStr ''runtime_failure'') PUBLIC_TERMINATION_REASONS
      = Inr [(''reason'', PStr ''runtime_failure'')]"
    by (simp add: kept_if_def PUBLIC_TERMINATION_REASONS_def)
  moreover have "error_fields (PStr ''runtime_failure'') (PStr ''tool'') = Inr [(''error_type'', PStr ''tool''),
      (''recovery'', PStr ''Use another available capability or contact an administrator.'')]"
    by (simp add: error_fields_def PUBLIC_ERROR_TYPES_def recovery_text_def RECOVERY_MESSAGES_def)
  ultimately show ?thesis
    by (simp add: sanitize_termination_detail_def termination_parts_def sample_detail_def assessment_field_def
        public_assessment_def public_list_field_def [of _ _ PNone] kept_if_def [of _ PNone] issues_field_def request_field_def)
qed

theorem termination_detail_is_public_witness:
  "\<exists>p. sanitize_termination_detail (\<lambda>_. []) sample_detail = Inr p \<and> dget p ''secret'' = PNone
     \<and> dget p ''reason'' = PStr ''runtime_failure'' \<and> sanitize_termination_detail (\<lambda>_. []) (PDict p) = Inr p"
proof -
  have "\<exists>p. sanitize_termination_detail (\<lambda>_. []) sample_detail = Inr p \<and> dget p ''secret'' = PNone
      \<and> dget p ''reason'' = PStr ''runtime_failure''"
    by (simp add: sample_termination)
  then show ?thesis using termination_detail_is_public by blast
qed

section \<open>When the sanitizer raises\<close>

definition unhashable :: "py \<Rightarrow> bool" where
  "unhashable v \<longleftrightarrow> is_dict v \<or> (\<exists>xs. v = PList xs)"

definition complete_request :: "(py \<Rightarrow> string) \<Rightarrow> pydict \<Rightarrow> bool" where
  "complete_request repr q =
     (let i = py_strip (text_or_empty repr (dget q ''request_id''));
          t = py_strip (text_or_empty repr (dget q ''question''))
      in i \<noteq> [] \<and> length i \<le> 128 \<and> t \<noteq> [] \<and> length t \<le> 1000 \<and> dget q ''answer_type'' = PStr ''text'')"

lemma kept_if_Inl: "kept_if k v S = Inl e \<longleftrightarrow> e = TypeError \<and> unhashable v"
  by (cases v) (auto simp: kept_if_def in_texts_def unhashable_def)

lemma error_Inl: "error_fields r v = Inl e \<longleftrightarrow> e = TypeError \<and> unhashable v"
  by (cases v) (auto simp: error_fields_def in_texts_def unhashable_def)

lemma keep_texts_Inl: "keep_texts S vs = Inl e \<longleftrightarrow> e = TypeError \<and> (\<exists>v \<in> set vs. unhashable v)"
proof (induction vs)
  case (Cons v vs)
  show ?case
  proof (cases "in_texts v S")
    case (Inl e')
    then have "unhashable v" "e' = TypeError" by (auto simp: in_texts_Inl unhashable_def)
    then show ?thesis using Inl by auto
  next
    case (Inr b)
    then have "\<not> unhashable v" using in_texts_Inl [of v S TypeError] by (auto simp: unhashable_def)
    then show ?thesis using Inr Cons by (cases "keep_texts S vs") auto
  qed
qed simp

lemma is_dict_iff: "is_dict v \<longleftrightarrow> (\<exists>q. v = PDict q)"
  by (cases v) auto

lemma issues_Inl: "issues_field v = Inl e \<longleftrightarrow>
    e = TypeError \<and> (\<exists>issues q. v = PList issues \<and> PDict q \<in> set issues \<and> unhashable (dget q ''code''))"
proof (cases v)
  case (PList issues)
  have "issues_field v = Inl e \<longleftrightarrow> issue_codes issues = Inl e"
    by (cases "issue_codes issues") (auto simp: issues_field_def PList Let_def)
  also have "\<dots> \<longleftrightarrow> e = TypeError \<and> (\<exists>q. PDict q \<in> set issues \<and> unhashable (dget q ''code''))"
  proof -
    have "(\<exists>w \<in> {x \<in> set issues. is_dict x}. unhashable (dget (dict_of w) ''code''))
        \<longleftrightarrow> (\<exists>q. PDict q \<in> set issues \<and> unhashable (dget q ''code''))"
      by (auto simp: is_dict_iff)
    then show ?thesis by (simp add: issue_codes_def keep_texts_Inl)
  qed
  finally show ?thesis by (simp add: PList)
qed (simp_all add: issues_field_def)

lemma request_Inl: "request_field repr r v = Inl e \<longleftrightarrow>
    e = TypeError \<and> r = PStr ''needs_user_input''
    \<and> (\<exists>q. v = PDict q \<and> complete_request repr q \<and> unhashable (dget q ''reason''))"
proof (cases v)
  case (PDict q)
  show ?thesis
  proof (cases "r = PStr ''needs_user_input'' \<and> complete_request repr q")
    case True
    then have "request_field repr r v = Inl e \<longleftrightarrow> in_texts (dget q ''reason'') request_reasons = Inl e"
      by (cases "in_texts (dget q ''reason'') request_reasons")
        (auto simp: request_field_def PDict complete_request_def Let_def)
    then show ?thesis using True by (auto simp: PDict in_texts_Inl unhashable_def)
  next
    case False
    then have "request_field repr r v = Inr []"
      by (auto simp: request_field_def PDict complete_request_def Let_def)
    then show ?thesis using False by (auto simp: PDict)
  qed
qed (simp_all add: request_field_def)

lemma gather_type_error:
  assumes "\<And>e. Inl e \<in> set ms \<Longrightarrow> e = TypeError"
  shows "gather ms = Inl e \<longleftrightarrow> e = TypeError \<and> Inl TypeError \<in> set ms"
  using assms gather_Inl gather_raises by (metis sum.inject(1))

text \<open>C38.
  The sanitizer of a termination detail raises exactly when a code of the detail is a list or a
  dictionary: one of its scalar codes, the code of a completion issue, or the reason of a complete
  clarification request. The membership test then cannot hash the value, and the error is a
  \<open>TypeError\<close>; every other detail, of any shape, is sanitized.
\<close>

theorem termination_raises_iff:
  "sanitize_termination_detail repr (PDict d) = Inl e \<longleftrightarrow>
     e = TypeError \<and>
     ((\<exists>k \<in> {''reason'', ''trigger'', ''capability'', ''error_type'', ''code''}. unhashable (dget d k))
      \<or> (\<exists>issues q. dget d ''completion_issues'' = PList issues \<and> PDict q \<in> set issues \<and> unhashable (dget q ''code''))
      \<or> (dget d ''reason'' = PStr ''needs_user_input''
         \<and> (\<exists>q. dget d ''request'' = PDict q \<and> complete_request repr q \<and> unhashable (dget q ''reason''))))"
proof -
  have inl: "Inl e' \<in> set (termination_parts repr d) \<longleftrightarrow> e' = TypeError \<and>
     ((\<exists>k \<in> {''reason'', ''trigger'', ''capability'', ''error_type'', ''code''}. unhashable (dget d k))
      \<or> (\<exists>issues q. dget d ''completion_issues'' = PList issues \<and> PDict q \<in> set issues \<and> unhashable (dget q ''code''))
      \<or> (dget d ''reason'' = PStr ''needs_user_input''
         \<and> (\<exists>q. dget d ''request'' = PDict q \<and> complete_request repr q \<and> unhashable (dget q ''reason''))))" for e'
    unfolding termination_parts_def set_simps insert_iff empty_iff bex_simps
      eq_commute [of "Inl e'"] kept_if_Inl issues_Inl error_Inl request_Inl
    by blast
  have "gather (termination_parts repr d) = Inl e \<longleftrightarrow> e = TypeError \<and> Inl TypeError \<in> set (termination_parts repr d)"
    by (rule gather_type_error) (simp add: inl)
  then show ?thesis unfolding inl by (simp add: sanitize_termination_detail_def)
qed

end
