(* ===== verification/Citation_Properties.thy ===== *)
theory Citation_Properties
  imports Citations
begin

text \<open>
  Source citations: every citation kept has a workspace-relative path of its own and a captured
  source that covers its lines; the public view and the code viewer render each of them; the
  marker removal takes out markers and nothing else.
\<close>

section \<open>Paths\<close>

lemma split_on_nonempty [simp]: "split_on d s \<noteq> []"
  by (cases s) (auto split: list.split)

lemma split_on_no_sep: "p \<in> set (split_on d s) \<Longrightarrow> d \<notin> set p"
  by (induction s arbitrary: p) (auto split: if_splits list.splits)

lemma split_on_chars: "p \<in> set (split_on d s) \<Longrightarrow> set p \<subseteq> set s"
  by (induction s arbitrary: p) (fastforce split: if_splits list.splits)+

lemma split_on_append:
  "d \<notin> set p \<Longrightarrow> split_on d (p @ s) =
     (case split_on d s of [] \<Rightarrow> [p] | q # qs \<Rightarrow> (p @ q) # qs)"
proof (induction p)
  case Nil
  then show ?case by (cases "split_on d s") auto
next
  case (Cons c p)
  then show ?case by (cases "split_on d s") auto
qed

lemma split_join:
  assumes "ps \<noteq> []" "\<And>p. p \<in> set ps \<Longrightarrow> d \<notin> set p"
  shows "split_on d (join_with [d] ps) = ps"
  using assms
proof (induction "[d]" ps rule: join_with.induct)
  case (2 p)
  then show ?case using split_on_append [of d p "[]"] by simp
next
  case (3 p q ps)
  then show ?case by (simp add: split_on_append)
qed simp

lemma join_chars: "set (join_with d ps) \<subseteq> set d \<union> \<Union> (set ` set ps)"
  by (induction d ps rule: join_with.induct) auto

definition proper_part :: "string \<Rightarrow> bool" where
  "proper_part p = (p \<noteq> [] \<and> p \<noteq> ''.'' \<and> CHR ''/'' \<notin> set p)"

lemma proper_parts: "p \<in> set (path_parts s) \<Longrightarrow> proper_part p"
  by (auto simp: path_parts_def proper_part_def dest: split_on_no_sep)

lemma parts_as_posix:
  assumes "ps \<noteq> []" "\<And>p. p \<in> set ps \<Longrightarrow> proper_part p"
  shows "path_parts (as_posix ps) = ps"
  using assms split_join [of ps "CHR ''/''"]
  by (simp add: path_parts_def as_posix_def proper_part_def filter_id_conv)

lemma as_posix_relative:
  assumes "\<And>p. p \<in> set ps \<Longrightarrow> proper_part p"
  shows "as_posix ps \<noteq> [] \<and> \<not> is_absolute (as_posix ps)"
proof (cases ps)
  case Nil
  then show ?thesis by (simp add: as_posix_def is_absolute_def)
next
  case (Cons p qs)
  with assms have "proper_part p" by simp
  then obtain c r where "p = c # r" "c \<noteq> CHR ''/''" by (cases p) (auto simp: proper_part_def)
  then show ?thesis using Cons by (cases qs) (simp_all add: as_posix_def is_absolute_def)
qed

text \<open>A path that stays in the workspace it is relative to.\<close>

definition safe_path :: "string \<Rightarrow> bool" where
  "safe_path p = (p \<noteq> [] \<and> \<not> is_absolute p \<and> ''..'' \<notin> set (path_parts p) \<and> CHR 92 \<notin> set p)"

lemma safe_as_posix:
  assumes proper: "\<And>p. p \<in> set ps \<Longrightarrow> proper_part p" and up: "''..'' \<notin> set ps"
    and chars: "\<And>p. p \<in> set ps \<Longrightarrow> CHR 92 \<notin> set p"
  shows "safe_path (as_posix ps)"
proof (cases "ps = []")
  case True
  then show ?thesis by (simp add: safe_path_def as_posix_def is_absolute_def path_parts_def)
next
  case False
  then have "path_parts (as_posix ps) = ps" using proper by (rule parts_as_posix)
  moreover have "CHR 92 \<notin> set (as_posix ps)"
    using False chars join_chars [of "''/''" ps] by (auto simp: as_posix_def)
  ultimately show ?thesis using as_posix_relative [OF proper] up by (simp add: safe_path_def)
qed

lemma public_path_safe: "\<not> path_refused p \<Longrightarrow> safe_path (public_path (path_parts p))"
proof -
  assume ok: "\<not> path_refused p"
  have parts: "proper_part q" "CHR 92 \<notin> set q" if "q \<in> set (path_parts p)" for q
    using that ok proper_parts [OF that] split_on_chars [of q "CHR ''/''" p]
    by (auto simp: path_refused_def path_parts_def)
  have up: "''..'' \<notin> set (path_parts p)" using ok by (simp add: path_refused_def)
  have tl: "q \<in> set (path_parts p)" if "q \<in> set (tl (path_parts p))" for q
    using that by (cases "path_parts p") auto
  have "safe_path (as_posix (path_parts p))" by (rule safe_as_posix [OF parts(1) up parts(2)])
  moreover have "safe_path (as_posix (tl (path_parts p)))"
    using parts [OF tl] up tl by (blast intro: safe_as_posix)
  ultimately show ?thesis by (simp add: public_path_def)
qed

section \<open>Citations that are kept\<close>

text \<open>What a stored citation looks like.\<close>

definition stored_citation :: "pydict \<Rightarrow> bool" where
  "stored_citation d \<longleftrightarrow>
     (\<exists>cid ev pr repo rev p sym a b sup src.
        d = [(''id'', PStr cid), (''evidence_id'', PStr ev), (''project'', PStr pr),
             (''repository'', PStr repo), (''revision'', PStr rev), (''path'', PStr p),
             (''symbol'', PStr sym), (''start_line'', PInt a), (''end_line'', PInt b),
             (''supports'', PStr sup), (''source'', PStr src)]
        \<and> citation_id_ok cid \<and> safe_path p \<and> rev \<noteq> [] \<and> sup \<noteq> []
        \<and> length ev \<le> 128 \<and> length pr \<le> 160 \<and> length repo \<le> 240 \<and> length rev \<le> 160
        \<and> length sym \<le> 500 \<and> length sup \<le> 1000 \<and> length src \<le> MAX_CITATION_SOURCE_CHARS
        \<and> 1 \<le> a \<and> a \<le> b \<and> b \<le> MAX_LINE_NUMBER \<and> b - a + 1 \<le> int (length (splitlines src)))"

lemma citation_dict_stored:
  assumes "citation_id_ok cid" "\<not> path_refused p" "\<not> lines_refused a b src"
    "bounded repr (dget d ''revision'') 160 \<noteq> []" "bounded repr (dget d ''supports'') 1000 \<noteq> []"
  shows "stored_citation (citation_dict repr d cid p a b src)"
  unfolding stored_citation_def citation_dict_def
  using assms public_path_safe [OF assms(2)] by (auto simp: lines_refused_def)

lemma sanitized_stored: "sanitize_citation repr v = Inr (Some d) \<Longrightarrow> stored_citation d"
  by (auto simp: sanitize_citation_def Let_def rbind_Inr_iff citation_dict_stored
      split: py.splits if_splits option.splits)

lemma collected_citations:
  "collect_citations repr seen vs = Inr cs \<Longrightarrow>
     list_all stored_citation cs \<and> distinct (map (\<lambda>c. dget c ''path'') cs)
     \<and> (\<forall>c \<in> set cs. dget c ''path'' \<notin> seen)"
proof (induction vs arbitrary: seen cs)
  case (Cons v vs)
  from Cons.prems obtain c where c: "sanitize_citation repr v = Inr c" by (auto simp: rbind_Inr_iff)
  show ?case
  proof (cases c)
    case None
    then show ?thesis using Cons.prems c by (simp add: Cons.IH)
  next
    case (Some d)
    show ?thesis
    proof (cases "dget d ''path'' \<in> seen")
      case True
      then show ?thesis using Cons.prems c Some by (simp add: Cons.IH)
    next
      case False
      with Cons.prems c Some obtain ds
        where ds: "collect_citations repr (insert (dget d ''path'') seen) vs = Inr ds" "cs = d # ds"
        by (auto simp: rbind_Inr_iff)
      from Cons.IH [OF ds(1)] sanitized_stored [OF c [unfolded Some]] False ds(2)
      show ?thesis by auto
    qed
  qed
qed simp

lemma sanitized_citations:
  "sanitize_run_citations repr v = Inr cs \<Longrightarrow>
     list_all stored_citation cs \<and> distinct (map (\<lambda>c. dget c ''path'') cs)"
  by (auto simp: sanitize_run_citations_def dest: collected_citations split: py.splits)

text \<open>Whatever a node reports as citations, each one kept has a path of its own that is relative,
  free of parent references and backslashes, an identifier of the fixed form, texts within their
  bounds, and a line range that its captured source covers; no two share a path.
\<close>

lemma citations_are_safe:
  assumes "sanitize_run_citations repr v = Inr cs"
  shows "list_all stored_citation cs \<and> distinct (map (\<lambda>c. dget c ''path'') cs)"
  by (rule sanitized_citations) (rule assms)

definition sample_cite :: "string \<Rightarrow> py" where
  "sample_cite p = PDict [(''id'', PStr ''c1''), (''path'', PStr p), (''start_line'', PStr ''4''),
     (''end_line'', PInt 5), (''source'', PStr [CHR ''x'', CHR 0x0A, CHR ''y'']),
     (''revision'', PStr ''r1''), (''supports'', PStr ''claim'')]"

lemmas cite_eval = sample_cite_def sanitize_run_citations_def sanitize_citation_def
  citation_dict_def text_or_empty_def py_or_def py_strip_def is_space_def citation_id_ok_def is_alnum_def
  path_refused_def is_absolute_def path_parts_def caught_int_def parse_int_def digit_val_def
  lines_refused_def is_line_break_def MAX_LINE_NUMBER_def MAX_CITATION_SOURCE_CHARS_def
  bounded_def public_path_def datasource_mount_def as_posix_def Let_def dget_def

lemma sample_citations:
  "\<exists>c. sanitize_run_citations (\<lambda>_. []) (PList [sample_cite ''a/./b.py'', sample_cite ''a/b.py'', sample_cite ''../x''])
     = Inr [c] \<and> dget c ''path'' = PStr ''a/b.py'' \<and> dget c ''start_line'' = PInt 4"
  by (simp add: cite_eval)

lemma citations_are_safe_sample:
  "\<exists>c. sanitize_run_citations (\<lambda>_. []) (PList [sample_cite ''a/./b.py'', sample_cite ''a/b.py'', sample_cite ''../x''])
     = Inr [c] \<and> stored_citation c"
proof -
  from sample_citations obtain c where
    c: "sanitize_run_citations (\<lambda>_. []) (PList [sample_cite ''a/./b.py'', sample_cite ''a/b.py'', sample_cite ''../x'']) = Inr [c]"
    by blast
  then show ?thesis using citations_are_safe [OF c] by simp
qed

section \<open>Rendering\<close>

definition public_of :: "pydict \<Rightarrow> pydict" where
  "public_of d = map (\<lambda>k. (k, dget d k)) PUBLIC_CITATION_FIELDS"

lemma stored_public: "stored_citation d \<Longrightarrow> public_fields d = Inr (public_of d)"
  by (auto simp: stored_citation_def public_fields_def public_of_def PUBLIC_CITATION_FIELDS_def)

lemma nth_numbered: "i < length ls \<Longrightarrow>
    numbered_lines a ls ! i = PDict [(''number'', PInt (a + int i)), (''content'', PStr (ls ! i))]"
  by (simp add: numbered_lines_def nth_enumerate_eq)

lemma stored_viewed:
  assumes "stored_citation c"
  shows "\<exists>a b src ls. dget c ''source'' = PStr src \<and> ls = splitlines src
        \<and> citation_source_payload c = Inr (public_of c @ [(''highlight_start_line'', PInt a),
            (''highlight_end_line'', PInt b), (''lines'', PList (numbered_lines a ls))])
        \<and> a \<le> b \<and> (\<forall>n. a \<le> n \<and> n \<le> b \<longrightarrow>
             nat (n - a) < length ls \<and> numbered_lines a ls ! nat (n - a)
               = PDict [(''number'', PInt n), (''content'', PStr (ls ! nat (n - a)))])"
proof -
  from assms obtain a b src where f: "map_of c ''start_line'' = Some (PInt a)" "map_of c ''source'' = Some (PStr src)"
      "map_of c ''end_line'' = Some (PInt b)" "a \<le> b" "b - a + 1 \<le> int (length (splitlines src))"
    unfolding stored_citation_def by auto
  have "citation_source_payload c = Inr (public_of c @ [(''highlight_start_line'', PInt a),
            (''highlight_end_line'', PInt b), (''lines'', PList (numbered_lines a (splitlines src)))])"
    by (simp add: citation_source_payload_def f stored_public [OF assms])
  moreover have "nat (n - a) < length (splitlines src) \<and> numbered_lines a (splitlines src) ! nat (n - a)
        = PDict [(''number'', PInt n), (''content'', PStr (splitlines src ! nat (n - a)))]"
    if "a \<le> n \<and> n \<le> b" for n
    using that f(5) by (subst nth_numbered) auto
  moreover have "dget c ''source'' = PStr src" by (simp add: dget_def f(2))
  ultimately show ?thesis using f(4) by blast
qed

text \<open>Each citation kept can be shown: the public list holds exactly the public fields of the stored
  citations, in their order, so never the captured source; and the code viewer numbers the
  captured lines from the first line and has every line of the highlighted range. Neither ever
  raises on a citation that was kept.
\<close>

lemma citations_render:
  assumes "sanitize_run_citations repr v = Inr cs"
  shows "public_run_citations repr v = Inr (map public_of cs)
       \<and> (\<forall>c \<in> set cs. \<exists>a b src ls. dget c ''source'' = PStr src \<and> ls = splitlines src
            \<and> citation_source_payload c = Inr (public_of c @ [(''highlight_start_line'', PInt a),
                (''highlight_end_line'', PInt b), (''lines'', PList (numbered_lines a ls))])
            \<and> a \<le> b \<and> (\<forall>n. a \<le> n \<and> n \<le> b \<longrightarrow>
                 nat (n - a) < length ls \<and> numbered_lines a ls ! nat (n - a)
                   = PDict [(''number'', PInt n), (''content'', PStr (ls ! nat (n - a)))]))"
proof -
  have stored: "stored_citation d" if "d \<in> set cs" for d
    using sanitized_citations [OF assms] that by (auto simp: list_all_iff)
  have "public_run_citations repr v = Inr (map public_of cs)"
    unfolding public_run_citations_def assms rbind_simps by (rule map_res_Inr) (simp add: stored stored_public)
  then show ?thesis using stored stored_viewed by blast
qed

lemma sample_cited:
  "\<exists>c. sanitize_run_citations (\<lambda>_. []) (PList [sample_cite ''a/b.py'']) = Inr [c]
      \<and> dget c ''start_line'' = PInt 4 \<and> dget c ''end_line'' = PInt 5
      \<and> dget c ''source'' = PStr [CHR ''x'', CHR 0x0A, CHR ''y'']"
  by (simp add: cite_eval)

lemma citations_render_sample:
  "\<exists>c. sanitize_run_citations (\<lambda>_. []) (PList [sample_cite ''a/b.py'']) = Inr [c]
     \<and> public_run_citations (\<lambda>_. []) (PList [sample_cite ''a/b.py'']) = Inr [public_of c]
     \<and> dget (public_of c) ''source'' = PNone"
proof -
  from sample_cited obtain c where c: "sanitize_run_citations (\<lambda>_. []) (PList [sample_cite ''a/b.py'']) = Inr [c]"
    by blast
  moreover have "dget (public_of c) ''source'' = PNone"
    by (simp add: public_of_def PUBLIC_CITATION_FIELDS_def)
  ultimately show ?thesis using citations_render [OF c] by simp
qed

section \<open>Inline markers\<close>

lemma suffix_cut:
  "suffix t s \<Longrightarrow> suffix (drop n t) s" "suffix t s \<Longrightarrow> suffix (dropWhile P t) s"
  by (blast intro: suffix_drop suffix_dropWhile suffix_order.trans)+

lemma match_marker_cut: "match_marker s = Some r \<Longrightarrow> \<exists>m. s = m @ r"
  unfolding match_marker_def Let_def suffix_def [symmetric]
  by (simp split: if_splits) (blast intro: suffix_cut suffix_order.refl)

lemma strip_is_subseq: "subseq (strip_source_markers s) s"
proof (induction s rule: strip_source_markers.induct)
  case (1 s)
  show ?case
  proof (cases "match_marker s")
    case (Some r)
    with match_marker_cut obtain m where "s = m @ r" by blast
    then show ?thesis using 1(2) [OF Some] Some
      by (subst strip_source_markers.simps) (simp add: list_emb_append2)
  next
    case None
    then show ?thesis using 1(1) [OF None]
      by (cases s) (subst strip_source_markers.simps, simp)+
  qed
qed

lemma no_bracket_no_marker:
  assumes "p = []  \<or> \<not> is_blank (last p)" "p \<noteq> []" "CHR ''['' \<notin> set p"
  shows "match_marker (p @ s) = None"
proof -
  obtain q c r where d: "dropWhile is_blank (p @ s) = c # r" "c \<in> set p"
  proof -
    have "last p \<in> set p" "\<not> is_blank (last p)" using assms by auto
    then have "dropWhile is_blank (p @ s) = dropWhile is_blank p @ s" "dropWhile is_blank p \<noteq> []"
      by (auto simp: dropWhile_append dropWhile_eq_Nil_conv)
    then show thesis using that set_dropWhileD [of _ is_blank p]
      by (cases "dropWhile is_blank p") auto
  qed
  then show ?thesis using assms(3) by (auto simp: match_marker_def Let_def)
qed

lemma strip_keeps_prefix:
  "p = [] \<or> \<not> is_blank (last p) \<Longrightarrow> CHR ''['' \<notin> set p \<Longrightarrow>
     strip_source_markers (p @ s) = p @ strip_source_markers s"
proof (induction p)
  case (Cons c p)
  have "match_marker ((c # p) @ s) = None" by (rule no_bracket_no_marker) (use Cons.prems in auto)
  then have "strip_source_markers ((c # p) @ s) = c # strip_source_markers (p @ s)"
    by (subst strip_source_markers.simps) simp
  then show ?case using Cons by (auto split: if_splits)
qed simp

lemma strip_marker:
  assumes "list_all is_blank w" "CHR '']'' \<notin> set tag" "CHR 0x0A \<notin> set tag"
  shows "strip_source_markers (w @ ''[[source:'' @ tag @ '']]'' @ s) = strip_source_markers s"
proof -
  have blanks: "dropWhile is_blank (w @ ''[[source:'' @ tag @ '']]'' @ s) = ''[[source:'' @ tag @ '']]'' @ s"
    using assms(1) by (induction w) (simp_all add: is_blank_def)
  have body: "dropWhile (\<lambda>x. x \<noteq> CHR '']'' \<and> x \<noteq> CHR 0x0A) (tag @ '']]'' @ s) = '']]'' @ s"
    using assms(2,3) by (induction tag) auto
  have "match_marker (w @ ''[[source:'' @ tag @ '']]'' @ s) = Some s"
    using blanks body by (simp add: match_marker_def Let_def is_space_def lower_char_def)
  then show ?thesis by (subst strip_source_markers.simps) simp
qed

text \<open>The removal of inline markers only deletes: the answer that is left is a subsequence of the
  text. A marker goes together with the blanks before it, and the text around it stays: what
  precedes it is unchanged and what follows is treated on its own.
\<close>

lemma markers_are_cut_out:
  assumes "p = [] \<or> \<not> is_blank (last p)" "CHR ''['' \<notin> set p"
    and "list_all is_blank w" "CHR '']'' \<notin> set tag" "CHR 0x0A \<notin> set tag"
  shows "strip_source_markers (p @ w @ ''[[source:'' @ tag @ '']]'' @ s) = p @ strip_source_markers s
      \<and> subseq (strip_source_markers s) s"
  using strip_keeps_prefix [OF assms(1,2)] strip_marker [OF assms(3-5)] strip_is_subseq by simp

lemma markers_are_cut_out_sample:
  "strip_source_markers (''See a.py [[source: c1]].'') = ''See a.py.''"
proof -
  have "strip_source_markers ''.'' = ''.''"
    by (subst strip_source_markers.simps, simp add: match_marker_def is_blank_def)+
  then show ?thesis
    using markers_are_cut_out [of "''See a.py''" "'' ''" "'' c1''" "''.''"] by (simp add: is_blank_def)
qed

end
