(* ===== verification/Run_Properties.thy ===== *)
theory Run_Properties
  imports Run_Verdicts Event_Properties Citation_Properties
begin

text \<open>
  The properties of answer runs, over the operations of \<open>Run_Lifecycle\<close> and
  \<open>Run_Recovery\<close> and the lemmas of \<open>Run_Verdicts\<close>. The witnesses share one small table:
  run 1 with its execution and a running step on node 9, and run 2 delegated by it.
\<close>

section \<open>A table for the witnesses\<close>

definition sample_env :: env where
  "sample_env = \<lparr>resume_ttl_setting = None, confirm_grace_setting = None, idle_timeout_setting = None,
     absolute_timeout_setting = None, cleanup_enabled = True,
     value_text = (\<lambda>_. []), datasource_name = (\<lambda>_. None), assistant_name = (\<lambda>_. ''a''),
     document_expectation = (\<lambda>_. None), dispatch_ok = (\<lambda>_. True)\<rparr>"

definition sample_run :: "run_status \<Rightarrow> nat option \<Rightarrow> int option \<Rightarrow> run" where
  "sample_run st parent rb = \<lparr>run_session = (if parent = None then 5 else 6), run_source = SOURCE_USER, run_status = st,
     input_content = ''q'', output_content = Some ''d'', parent_run = parent, run_node = Some 9,
     run_error = [], run_outcome = None, termination_detail = [], run_citations = PNone,
     run_planned_evidence = PNone, run_created_at = 0, run_started_at = Some 0,
     run_finished_at = (if terminal_status st then Some 1 else None), last_activity_at = None,
     resume_by = rb, run_updated_at = 0\<rparr>"

definition sample_exec :: execution where
  "sample_exec = \<lparr>exec_status = EXEC_RUNNING, dispatch_id = Some 7, admitted_at = Some 0,
     checkpoint_ready_at = Some 0, exec_finished_at = None, run_timeout_s = None, delegated_results = None\<rparr>"

definition sample_db :: "run_status \<Rightarrow> int option \<Rightarrow> db" where
  "sample_db st rb = \<lparr>run_ids = [1, 2],
     runs = (\<lambda>k. if k = 1 then Some (sample_run st None rb)
                 else if k = 2 then Some (sample_run RUN_RUNNING (Some 1) None) else None),
     executions = (\<lambda>k. if k = 1 \<and> \<not> terminal_status st then Some sample_exec else None),
     steps = (if terminal_status st then [] else [new_step 0 1 ANSWER STEP_RUNNING]), files = [],
     nodes = (\<lambda>n. if n = 9 then Some \<lparr>node_status = NODE_ONLINE,
        node_labels = PDict [(''run_checkpoint_resume'', PBool True)], node_updated_at = 0,
        disconnected_at = None\<rparr> else None),
     sessions = (\<lambda>s. if s = 5 \<or> s = 6 then Some \<lparr>cs_assistant = 3, cs_title_manually_edited = False,
        cs_title_pending = False\<rparr> else None),
     trace_exports = [], next_uuid = 100, effects = []\<rparr>"

definition sample_frame :: "run_status \<Rightarrow> string \<Rightarrow> frame" where
  "sample_frame st err = \<lparr>fr_status = st, fr_error = err, fr_outcome = [], fr_termination = PDict [],
     fr_content = Some ''answer'', fr_citations = None, fr_evidence = None, fr_deliverables = None\<rparr>"

lemmas sample_defs = sample_db_def sample_run_def sample_exec_def sample_env_def sample_frame_def

lemma sample_simps [simp]:
  "runs (sample_db st rb) (Suc 0) = Some (sample_run st None rb)"
  "runs (sample_db st rb) 1 = Some (sample_run st None rb)"
  "runs (sample_db st rb) 2 = Some (sample_run RUN_RUNNING (Some 1) None)"
  "run_status (sample_run st p rb) = st" "resume_by (sample_run st p rb) = rb"
  "run_node (sample_run st p rb) = Some 9" "run_created_at (sample_run st p rb) = 0"
  "run_started_at (sample_run st p rb) = Some 0" "parent_run (sample_run st p rb) = p"
  "last_activity_at (sample_run st p rb) = None"
  "run_ids (sample_db st rb) = [1, 2]"
  by (simp_all add: sample_defs)

lemma sample_inv: "(rb \<noteq> None \<longrightarrow> active_status st) \<Longrightarrow> lifecycle_inv (sample_db st rb)"
  by (auto simp: lifecycle_inv_def sample_db_def sample_run_def row_ok_def exec_ok_def new_step_def)

section \<open>Verdicts\<close>



text \<open>C2.
  Every lifecycle and recovery operation keeps the tables consistent: only an active run is
  parked (\<open>resume_by\<close> set), a settled run has a finish time and a closed execution (unless it
  was failed with its node and awaits the cleanup), and no step of a finished or failed run is
  left running.
\<close>

theorem run_tables_stay_consistent:
  assumes "lifecycle_inv db"
  shows "lifecycle_inv (foldl (run_event_step en) db es)"
  using assms by (rule run_tables.inv_run)

theorem run_tables_stay_consistent_witness:
  "lifecycle_inv (foldl (run_event_step sample_env) (sample_db RUN_RUNNING (Some 50))
     [(10, NodeHello 9 []), (20, GraceCheck 9 (Some 0)), (60, ExpireTask 1)])"
  by (rule run_tables_stay_consistent) (simp add: sample_inv)

section \<open>The terminal frame\<close>

lemma descendant_settled:
  assumes "descendant db k j" "j \<noteq> k"
  shows "runs db k = Some r \<Longrightarrow> descendant (save_run k (\<lambda>_. settled_row en now fr err r) db) k j"
  using assms
proof (induction rule: descendant.induct)
  case (child c)
  then show ?case
    by (intro descendant.child) (auto simp: active_children_def set_select_runs)
next
  case (grandchild p c)
  have c: "c \<in> set (active_children (save_run k (\<lambda>_. settled_row en now fr err r) db) p)"
    using grandchild by (auto simp: active_children_def set_select_runs)
  show ?case
  proof (cases "p = k")
    case True
    then show ?thesis using c by (auto intro: descendant.child)
  next
    case False
    then show ?thesis using c grandchild by (auto intro: descendant.grandchild)
  qed
qed

lemma after_settle_tables:
  fixes en k a cs r' d
  defines "d' \<equiv> (if parent_run r' = None then finalize_delegated_children en k (register_trace_export k d)
                  else register_trace_export k d)"
  shows "executions (after_settle en k a cs r' d) = executions d'"
    "steps (after_settle en k a cs r' d) = steps d'" "runs (after_settle en k a cs r' d) = runs d'"
    "files (after_settle en k a cs r' d) = files d'"
proof -
  have "executions (promote_next_queued_run en x d) = executions d" "steps (promote_next_queued_run en x d) = steps d"
    "files (promote_next_queued_run en x d) = files d" for x d
    by (simp_all add: promote_next_queued_run_def split: list.splits)
  then show "executions (after_settle en k a cs r' d) = executions d'"
    "steps (after_settle en k a cs r' d) = steps d'" "runs (after_settle en k a cs r' d) = runs d'"
    "files (after_settle en k a cs r' d) = files d'"
    unfolding d'_def by (cases "parent_run r'"; simp add: after_settle_def Let_def)+
qed

lemma register_tables [simp]:
  "executions (register_trace_export k d) = executions d" "steps (register_trace_export k d) = steps d"
  "files (register_trace_export k d) = files d"
  by (simp_all add: register_trace_export_def)

lemma finalize_row:
  "runs (finalize_delegated_children en k d) j = Some q \<Longrightarrow> \<exists>q0. runs d j = Some q0 \<and> same_row q0 q"
  using delete_runs_row
  by (fastforce simp: finalize_delegated_children_def reap_sessions_def Let_def same_row_def split: if_splits)

lemma finalize_exec:
  assumes "executions (finalize_delegated_children en k d) j = Some e"
  shows "\<exists>e0. executions d j = Some e0 \<and> exec_status e = exec_status e0"
proof -
  have fold: "executions (fold_results en k rows d) j = Some e \<Longrightarrow>
      \<exists>e0. executions d j = Some e0 \<and> exec_status e = exec_status e0" for rows
    by (auto simp: fold_results_def)
  show ?thesis
    using assms by (auto simp: finalize_delegated_children_def reap_sessions_def delete_runs_def Let_def
        split: if_splits dest: fold)
qed

lemma finalize_steps: "set (steps (finalize_delegated_children en k d)) \<subseteq> set (steps d)"
  by (auto simp: finalize_delegated_children_def reap_sessions_def delete_runs_def fold_results_def Let_def)

lemma finalize_files: "set (files (finalize_delegated_children en k d)) \<subseteq> set (files d)"
  by (auto simp: finalize_delegated_children_def reap_sessions_def delete_runs_def fold_results_def
      update_execs_def Let_def)

lemma after_settle_row:
  "runs (after_settle en k a cs r' d) j = Some q \<Longrightarrow> \<exists>q0. runs d j = Some q0 \<and> same_row q0 q"
  using finalize_row [of en k "register_trace_export k d" j q]
  by (auto simp: after_settle_tables split: if_splits)

lemma after_settle_exec:
  "executions (after_settle en k a cs r' d) j = Some e \<Longrightarrow>
     \<exists>e0. executions d j = Some e0 \<and> exec_status e = exec_status e0"
  using finalize_exec [of en k "register_trace_export k d" j e]
  by (auto simp: after_settle_tables split: if_splits)

lemma after_settle_steps: "set (steps (after_settle en k a cs r' d)) \<subseteq> set (steps d)"
  using finalize_steps [of en k "register_trace_export k d"]
  by (auto simp: after_settle_tables)

lemma after_settle_files: "set (files (after_settle en k a cs r' d)) \<subseteq> set (files d)"
  using finalize_files [of en k "register_trace_export k d"]
  by (auto simp: after_settle_tables)

text \<open>Sanitizing a frame changes three payloads only.\<close>

lemma clean_frame_fields:
  assumes "clean_frame en fr = Inr fr'"
  shows "fr_status fr' = fr_status fr" "fr_error fr' = fr_error fr" "fr_outcome fr' = fr_outcome fr"
    "fr_content fr' = fr_content fr" "fr_deliverables fr' = fr_deliverables fr"
  using assms by (auto simp: clean_frame_def rbind_Inr_iff)

lemma clean_plain_frame:
  "fr_termination fr = PDict [] \<Longrightarrow> fr_citations fr = None \<Longrightarrow> fr_evidence fr = None \<Longrightarrow> clean_frame en fr = Inr fr"
  by (simp add: clean_frame_def py_or_def if_given_def no_termination)

text \<open>A frame is not an admission retry.\<close>

definition final_frame :: "env \<Rightarrow> int \<Rightarrow> frame \<Rightarrow> run \<Rightarrow> bool" where
  "final_frame en now fr r \<longleftrightarrow>
     (fr_status fr = RUN_FAILED \<and> retryable_admission_error (resolve_lensnode_error en (fr_error fr)) r \<longrightarrow>
        resume_by r = None \<and> now - run_created_at r \<ge> seconds BUSY_RETRY_WINDOW_S)"

lemma finish_final:
  assumes "runs db k = Some r" "\<not> terminal_status (run_status r)" "final_frame en now fr r"
  shows "finish_lensnode_run en now k fr db =
     rbind (approved_files k fr db)
       (\<lambda>a. rbind (clean_frame en fr)
       (\<lambda>fr'. Inr (settle_run en now k fr' (resolve_lensnode_error en (fr_error fr)) a r db)))"
  using assms by (auto simp: finish_lensnode_run_def final_frame_def Let_def)

lemma terminal_frame_settles_aux:
  assumes "runs db k = Some r" "\<not> terminal_status (run_status r)" "final_frame en now fr0 r"
    and "clean_frame en fr0 = Inr fr"
    and "finish_lensnode_run en now k fr0 db = Inr db'"
  shows "(\<forall>q. runs db' k = Some q \<longrightarrow>
            same_row (settled_row en now fr (resolve_lensnode_error en (fr_error fr0)) r) q)
       \<and> (\<forall>e. executions db' k = Some e \<longrightarrow> \<not> open_exec (exec_status e))
       \<and> (\<forall>s \<in> set (steps db'). step_run s = k \<longrightarrow> step_status s \<noteq> STEP_RUNNING)
       \<and> (\<forall>j q. descendant db k j \<longrightarrow> j \<noteq> k \<longrightarrow> runs db' j = Some q \<longrightarrow> run_status q = RUN_CANCELLED)"
proof -
  let ?err = "resolve_lensnode_error en (fr_error fr0)"
  obtain a where db': "db' = settle_run en now k fr ?err a r db"
    using assms(5) unfolding finish_final [OF assms(1-3)] assms(4) by (auto simp: rbind_Inr_iff)
  define d where "d = snd (close_run en now k fr ?err a r db)"
  obtain cs where d: "db' = after_settle en k (run_assistant db r) cs (settled_row en now fr ?err r) d"
    unfolding db' d_def by (simp add: settle_run_def split_beta)
  have "same_row (settled_row en now fr ?err r) q" if "runs db' k = Some q" for q
    using after_settle_row [OF that [unfolded d]] assms(1) unfolding d_def
    by (auto simp: close_run_rows [OF assms(1)])
  moreover have "\<not> open_exec (exec_status e)" if "executions db' k = Some e" for e
    using after_settle_exec [OF that [unfolded d]] close_run_exec [OF _ assms(1)] unfolding d_def by fastforce
  moreover have "step_status s \<noteq> STEP_RUNNING" if "s \<in> set (steps db')" "step_run s = k" for s
    using after_settle_steps that close_run_steps unfolding d d_def by blast
  moreover have "run_status q = RUN_CANCELLED" if "descendant db k j" "j \<noteq> k" "runs db' j = Some q" for j q
  proof -
    from after_settle_row [OF that(3) [unfolded d]]
    obtain q0 where "runs d j = Some q0" "same_row q0 q" by blast
    then show ?thesis
      using descendant_settled [OF that(1,2) assms(1), of en now fr ?err] that(2) same_row_status
      by (auto simp: d_def close_run_rows [OF assms(1)])
  qed
  ultimately show ?thesis by blast
qed

text \<open>C3.
  A terminal frame for an unfinished run (one that is not an admission retry) settles
  everything the run owns in one step: the row gets the frame's verdict, outcome, answer, finish
  time and its sanitized termination detail, citations and evidence, its execution is closed, none of its steps is left running, and every run it
  delegated to, directly or through others, that was still active is cancelled (a delegated
  run may also be deleted with its transient session).
\<close>

theorem terminal_frame_settles_all:
  assumes "runs db k = Some r" "\<not> terminal_status (run_status r)" "final_frame en now fr r"
    and "finish_lensnode_run en now k fr db = Inr db'"
  shows "(\<exists>fr'. clean_frame en fr = Inr fr' \<and> (\<forall>q. runs db' k = Some q \<longrightarrow>
            same_row (settled_row en now fr' (resolve_lensnode_error en (fr_error fr)) r) q))
       \<and> (\<forall>e. executions db' k = Some e \<longrightarrow> \<not> open_exec (exec_status e))
       \<and> (\<forall>s \<in> set (steps db'). step_run s = k \<longrightarrow> step_status s \<noteq> STEP_RUNNING)
       \<and> (\<forall>j q. descendant db k j \<longrightarrow> j \<noteq> k \<longrightarrow> runs db' j = Some q \<longrightarrow> run_status q = RUN_CANCELLED)"
proof -
  obtain fr' where c: "clean_frame en fr = Inr fr'"
    using assms(4) unfolding finish_final [OF assms(1-3)] by (auto simp: rbind_Inr_iff)
  show ?thesis using c terminal_frame_settles_aux [OF assms(1-3) c assms(4)] by blast
qed

text \<open>The table after a \<open>DONE\<close> frame for run 1.\<close>

definition sample_done :: db where
  "sample_done = (case finish_lensnode_run sample_env 10 1 (sample_frame RUN_DONE []) (sample_db RUN_RUNNING None) of
     Inl _ \<Rightarrow> sample_db RUN_RUNNING None | Inr d \<Rightarrow> d)"

lemma sample_done_finish:
  "finish_lensnode_run sample_env 10 1 (sample_frame RUN_DONE []) (sample_db RUN_RUNNING None) = Inr sample_done"
proof -
  have "\<not> isl (finish_lensnode_run sample_env 10 1 (sample_frame RUN_DONE []) (sample_db RUN_RUNNING None))"
    by code_simp
  then show ?thesis
    unfolding sample_done_def by (simp split: sum.split add: isl_def)
qed

lemma sample_done_rows: "runs sample_done 1 \<noteq> None" "executions sample_done 1 \<noteq> None"
  by (code_simp, code_simp)

theorem terminal_frame_settles_all_witness:
  "same_row (settled_row sample_env 10 (sample_frame RUN_DONE []) [] (sample_run RUN_RUNNING None None))
     (the (runs sample_done 1))
   \<and> \<not> open_exec (exec_status (the (executions sample_done 1)))"
proof -
  have "resolve_lensnode_error sample_env (fr_error (sample_frame RUN_DONE [])) = []"
    "clean_frame sample_env (sample_frame RUN_DONE []) = Inr (sample_frame RUN_DONE [])"
    by (simp add: resolve_lensnode_error_def sample_frame_def, simp add: clean_plain_frame sample_frame_def)
  then show ?thesis
    using terminal_frame_settles_all [OF _ _ _ sample_done_finish, of "sample_run RUN_RUNNING None None"]
      sample_done_rows
    by (auto simp: final_frame_def sample_frame_def)
qed

text \<open>Terminal frames are delivered at least once: once a frame has settled a run (or its
  transient row is gone), any further frame for it, the same or a different one, at any later
  time, changes nothing.
\<close>

lemma terminal_frame_redelivery:
  assumes "finish_lensnode_run en now k fr db = Inr db'"
    and "case runs db' k of None \<Rightarrow> True | Some r \<Rightarrow> terminal_status (run_status r)"
  shows "finish_lensnode_run en now' k fr' db' = Inr db'"
  using assms(2) by (simp add: finish_lensnode_run_def split: option.splits)

lemma terminal_frame_redelivery_sample:
  "finish_lensnode_run sample_env 30 1 (sample_frame RUN_FAILED ''LENSNODE_BUSY'') sample_done = Inr sample_done"
  by (rule terminal_frame_redelivery [OF sample_done_finish]) code_simp

text \<open>Admission retries are bounded: a run its node rejects as busy before it ever started
  (no resume deadline) goes back to the queue and is enqueued again in 5 s while it is less
  than 120 s old, and is settled as failed with that error from then on.
\<close>

lemma busy_retry_is_bounded:
  assumes "runs db k = Some r" "\<not> terminal_status (run_status r)" "resume_by r = None"
    and "fr_status fr = RUN_FAILED" "fr_error fr = ''LENSNODE_BUSY''" "fr_deliverables fr = None"
    and "clean_frame en fr = Inr fr'"
  shows "if now < run_created_at r + seconds 120
     then finish_lensnode_run en now k fr db =
            Inr (emit (EnqueueAnswer k (expected_count en k) (seconds 5))
                   (save_run k (unsettled_row now RUN_QUEUED) db))
     else \<exists>db'. finish_lensnode_run en now k fr db = Inr db' \<and>
            (\<forall>q. runs db' k = Some q \<longrightarrow> run_status q = RUN_FAILED \<and> run_error q = ''LENSNODE_BUSY'')"
proof -
  have err: "resolve_lensnode_error en (fr_error fr) = ''LENSNODE_BUSY''"
    using assms(5) by (simp add: resolve_lensnode_error_def)
  show ?thesis
  proof (cases "now < run_created_at r + seconds 120")
    case True
    then show ?thesis
      using assms err by (simp add: finish_lensnode_run_def retryable_admission_error_def Let_def
          BUSY_RETRY_WINDOW_S_def BUSY_RETRY_INTERVAL_S_def)
  next
    case False
    have ff: "final_frame en now fr r"
      using False assms(3) by (simp add: final_frame_def BUSY_RETRY_WINDOW_S_def)
    define db' where "db' = settle_run en now k fr' ''LENSNODE_BUSY'' [] r db"
    have eq: "finish_lensnode_run en now k fr db = Inr db'"
      unfolding finish_final [OF assms(1,2) ff] err db'_def assms(7) by (simp add: approved_files_def assms(6))
    have "run_status q = RUN_FAILED \<and> run_error q = ''LENSNODE_BUSY''" if "runs db' k = Some q" for q
    proof -
      have "same_row (settled_row en now fr' ''LENSNODE_BUSY'' r) q"
        using terminal_frame_settles_aux [OF assms(1,2) ff assms(7) eq] that err by simp
      from same_row_status [OF this] same_row_error [OF this] show ?thesis
        by (simp add: status_settled error_settled verdict_def assms(4) clean_frame_fields [OF assms(7)])
    qed
    then show ?thesis using False eq by auto
  qed
qed

lemma busy_retry_is_bounded_sample:
  "finish_lensnode_run sample_env 100 1 (sample_frame RUN_FAILED ''LENSNODE_BUSY'') (sample_db RUN_STREAMING None) =
     Inr (emit (EnqueueAnswer 1 (-1) (seconds 5))
            (save_run 1 (unsettled_row 100 RUN_QUEUED) (sample_db RUN_STREAMING None)))"
  using busy_retry_is_bounded [of "sample_db RUN_STREAMING None" 1 "sample_run RUN_STREAMING None None"
      "sample_frame RUN_FAILED ''LENSNODE_BUSY''" sample_env _ 100]
    clean_plain_frame [of "sample_frame RUN_FAILED ''LENSNODE_BUSY''" sample_env]
  by (simp add: sample_frame_def seconds_def expected_count_def sample_env_def)

lemma close_run_files:
  "files (snd (close_run en now k fr err a r db)) =
     (if fr_status fr = RUN_DONE \<and> fr_outcome fr \<noteq> ''blocked'' \<and> output_content r \<noteq> None
      then files (publish_files k a db) else files db)"
  by (cases "output_content r") (simp_all add: close_run_def Let_def split_beta)

lemma finish_files:
  assumes "finish_lensnode_run en now k fr db = Inr db'"
  shows "files db' = files db \<or>
    (\<exists>r err a fr'. approved_files k fr db = Inr a \<and> clean_frame en fr = Inr fr'
       \<and> db' = settle_run en now k fr' err a r db)"
proof (cases "runs db k")
  case (Some r)
  let ?err = "resolve_lensnode_error en (fr_error fr)"
  show ?thesis
  proof (cases "terminal_status (run_status r) \<or> \<not> final_frame en now fr r")
    case True
    then show ?thesis
      using assms Some
      by (cases "terminal_status (run_status r)"; cases "resume_by r = None")
        (auto simp: finish_lensnode_run_def final_frame_def Let_def)
  next
    case False
    then show ?thesis
      using assms unfolding finish_final [OF Some] by (auto simp: finish_final [OF Some] rbind_Inr_iff)
  qed
qed (use assms in \<open>simp add: finish_lensnode_run_def\<close>)

text \<open>Publication of output files is all or nothing: a manifest that names anything but
  unpublished candidates of this very run raises, and the files a settled run newly publishes
  are files of that run named by its manifest, on a \<open>DONE\<close> frame that is not blocked.
\<close>

lemma published_files_were_approved:
  assumes "finish_lensnode_run en now k fr db = Inr db'" "f \<in> set (files db')" "file_published f"
    and "f \<notin> set (files db)"
  shows "file_run f = k \<and> fr_status fr = RUN_DONE \<and> fr_outcome fr \<noteq> ''blocked''
       \<and> (\<exists>vs. fr_deliverables fr = Some (Manifest vs) \<and> Some (file_key f) \<in> set vs)"
proof -
  have "files db' \<noteq> files db" using assms(2,4) by auto
  then obtain r err a fr' where a: "approved_files k fr db = Inr a" "db' = settle_run en now k fr' err a r db"
    and c: "clean_frame en fr = Inr fr'"
    using finish_files [OF assms(1)] by blast
  have "f \<in> set (files (snd (close_run en now k fr' err a r db)))"
    using assms(2) after_settle_files unfolding a(2) settle_run_def split_beta by blast
  then have f: "fr_status fr = RUN_DONE" "fr_outcome fr \<noteq> ''blocked''" "file_run f = k" "file_key f \<in> set a"
    using assms(3,4) by (auto simp: close_run_files publish_files_def clean_frame_fields [OF c] split: if_splits)
  then obtain vs where "fr_deliverables fr = Some (Manifest vs)" "a = remdups (map the vs)" "None \<notin> set vs"
    using a(1) by (auto simp: approved_files_def Let_def split: option.splits manifest.splits if_splits)
  moreover from this f(4) have "Some (file_key f) \<in> set vs"
    by (auto simp: image_iff) (metis option.collapse)
  ultimately show ?thesis using f by blast
qed

definition files_db :: db where
  "files_db = (sample_db RUN_RUNNING None)\<lparr>files := [\<lparr>file_key = 4, file_run = 1, file_published = False\<rparr>]\<rparr>"

definition files_done :: db where
  "files_done = (case finish_lensnode_run sample_env 10 1
       ((sample_frame RUN_DONE [])\<lparr>fr_deliverables := Some (Manifest [Some 4])\<rparr>) files_db of
     Inl _ \<Rightarrow> files_db | Inr d \<Rightarrow> d)"

lemma published_files_were_approved_sample:
  "files files_done = [\<lparr>file_key = 4, file_run = 1, file_published = True\<rparr>]
   \<and> (\<exists>vs. fr_deliverables ((sample_frame RUN_DONE [])\<lparr>fr_deliverables := Some (Manifest [Some 4])\<rparr>) =
          Some (Manifest vs) \<and> Some 4 \<in> set vs)"
proof -
  have ok: "\<not> isl (finish_lensnode_run sample_env 10 1
       ((sample_frame RUN_DONE [])\<lparr>fr_deliverables := Some (Manifest [Some 4])\<rparr>) files_db)"
    by code_simp
  then have eq: "finish_lensnode_run sample_env 10 1
       ((sample_frame RUN_DONE [])\<lparr>fr_deliverables := Some (Manifest [Some 4])\<rparr>) files_db = Inr files_done"
    unfolding files_done_def by (simp split: sum.split add: isl_def)
  have fs: "files files_done = [\<lparr>file_key = 4, file_run = 1, file_published = True\<rparr>]"
    by code_simp
  show ?thesis
    using published_files_were_approved [OF eq, of "\<lparr>file_key = 4, file_run = 1, file_published = True\<rparr>"] fs
    by (simp add: files_db_def)
qed

section \<open>Cancellation\<close>

text \<open>Cancelling a run's descendants terminates for every table (also one whose parent links form
  a cycle) and hits exactly the runs reachable from it through active children: those are the
  runs reported to the caller and their rows and executions become cancelled, and every other
  row is as it was.
\<close>

lemma cancel_descendants_exact:
  "set (fst (cancel_descendant_runs now k db)) = {j. descendant db k j}
   \<and> (\<forall>j. runs (snd (cancel_descendant_runs now k db)) j =
          map_option (\<lambda>r. if descendant db k j then cancelled_row now r else r) (runs db j))
   \<and> (\<forall>j. executions (snd (cancel_descendant_runs now k db)) j =
          map_option (\<lambda>e. if descendant db k j then cancelled_exec now e else e) (executions db j))"
proof -
  have "descend db [k] [] = [] \<Longrightarrow> \<not> descendant db k j" for j
    using set_descend [of db k] by auto
  moreover have "j \<in> set (descend db [k] []) \<longleftrightarrow> descendant db k j" for j
    using set_descend [of db k] by simp
  ultimately have "set (fst (cancel_descendant_runs now k db)) = {j. descendant db k j}"
    by (auto simp: cancel_descendant_runs_def Let_def dest: descendant_active)
  then show ?thesis
    by (simp add: cancel_descendants_runs cancel_descendants_execs)
qed

section \<open>Parking, resuming, expiry\<close>

text \<open>When a node that can resume from checkpoints is confirmed gone, each of its active runs is
  parked until its resume deadline, with an expiry task scheduled for that moment, or is
  failed and reported at once when the deadline has already passed. For a run that started,
  the deadline never exceeds its start time plus its own timeout.
\<close>

lemma lost_node_parks_every_active_run:
  assumes "supports_run_checkpoint_resume (nodes db n)" "k \<in> set (run_ids db)" "runs db k = Some r"
    and "run_node r = Some n" "active_status (run_status r)"
    and "db' = snd (mark_active_runs_awaiting_resume en now n db)"
    and "t = get_run_resume_deadline en now db k r"
  shows "(if now < t
          then (\<exists>q. runs db' k = Some q \<and> run_status q = RUN_RUNNING \<and> resume_by q = Some t)
               \<and> ScheduleExpiration k (t - now) \<in> set (effects db')
          else (\<exists>q. runs db' k = Some q \<and> run_status q = RUN_FAILED
                    \<and> run_error q = ''LENSNODE_RESUME_EXPIRED'' \<and> resume_by q = None)
               \<and> AlertEvaluation k \<in> set (effects db'))
       \<and> (\<forall>st e. run_started_at r = Some st \<longrightarrow> executions db k = Some e \<longrightarrow>
            t \<le> st + seconds (case run_timeout_s e of None \<Rightarrow> 3600 | Some x \<Rightarrow> if x = 0 then 3600 else x))"
proof -
  have k: "k \<in> set (active_on_node n db)"
    using assms(2-5) by (auto simp: active_on_node_def set_select_runs)
  then have ne: "active_on_node n db \<noteq> []" by auto
  have row: "runs db' k = Some (park_row now t r)"
    using k ne assms(1,3,6,7) by (simp add: mark_active_runs_awaiting_resume_def Let_def)
  have eff: "effects db' = effects db
     @ map AlertEvaluation (filter (\<lambda>k. (case runs db k of None \<Rightarrow> now
          | Some r \<Rightarrow> get_run_resume_deadline en now db k r) \<le> now) (active_on_node n db))
     @ map (\<lambda>k. ScheduleExpiration k (max ((case runs db k of None \<Rightarrow> now
          | Some r \<Rightarrow> get_run_resume_deadline en now db k r) - now) 0))
         (filter (\<lambda>k. \<not> (case runs db k of None \<Rightarrow> now
          | Some r \<Rightarrow> get_run_resume_deadline en now db k r) \<le> now) (active_on_node n db))"
    using ne assms(1,6) by (simp add: mark_active_runs_awaiting_resume_def Let_def emit_all_def)
  have "now < t \<Longrightarrow> ScheduleExpiration k (t - now) \<in> set (effects db')"
    unfolding eff using k assms(3,7) by (force simp: image_iff)
  moreover have "\<not> now < t \<Longrightarrow> AlertEvaluation k \<in> set (effects db')"
    unfolding eff using k assms(3,7) by (force simp: image_iff)
  moreover have "t \<le> st + seconds (case run_timeout_s e of None \<Rightarrow> 3600 | Some x \<Rightarrow> if x = 0 then 3600 else x)"
    if "run_started_at r = Some st" "executions db k = Some e" for st e
    unfolding assms(7) by (rule deadline_within_run_timeout [OF that])
  moreover have "now < t \<Longrightarrow> run_status (park_row now t r) = RUN_RUNNING \<and> resume_by (park_row now t r) = Some t"
    by (simp add: park_row_def)
  moreover have "\<not> now < t \<Longrightarrow> run_status (park_row now t r) = RUN_FAILED
      \<and> run_error (park_row now t r) = ''LENSNODE_RESUME_EXPIRED'' \<and> resume_by (park_row now t r) = None"
    by (simp add: park_row_def fail_row_def)
  ultimately show ?thesis using row by simp
qed

lemma lost_node_parks_every_active_run_sample:
  "ScheduleExpiration 1 (seconds 3600 - 10) \<in>
     set (effects (snd (mark_active_runs_awaiting_resume sample_env 10 9 (sample_db RUN_STREAMING None))))"
proof -
  have t: "get_run_resume_deadline sample_env 10 (sample_db RUN_STREAMING None) 1 (sample_run RUN_STREAMING None None)
      = seconds 3600"
    by code_simp
  show ?thesis
    using lost_node_parks_every_active_run [of "sample_db RUN_STREAMING None" 9 1 "sample_run RUN_STREAMING None None"
        _ sample_env 10, OF _ _ _ _ _ refl refl] t
    by (simp add: sample_db_def supports_run_checkpoint_resume_def label_true_def seconds_def)
qed

text \<open>The expiry task never fails a parked run before its deadline: it then only reschedules
  itself for the remaining time. At the deadline or later it fails the run, closes its
  execution and raises the alert.
\<close>

lemma expiry_is_exact:
  assumes "runs db k = Some r" "active_status (run_status r)" "resume_by r = Some t"
  shows "if now < t
     then expire_awaiting_run now k db = (0, emit (ScheduleExpiration k (t - now)) db)
     else fst (expire_awaiting_run now k db) = 1
          \<and> runs (snd (expire_awaiting_run now k db)) k = Some (fail_row now ''LENSNODE_RESUME_EXPIRED'' r)
          \<and> (\<forall>e. executions (snd (expire_awaiting_run now k db)) k = Some e \<longrightarrow> \<not> open_exec (exec_status e))
          \<and> AlertEvaluation k \<in> set (effects (snd (expire_awaiting_run now k db)))"
proof (cases "now < t")
  case True
  then show ?thesis using assms by (simp add: expire_awaiting_run_def)
next
  case False
  then have eq: "expire_awaiting_run now k db = (1, close_open_execs now [k]
      (emit (AlertEvaluation k) (fail_running_steps_for_runs now [k] STEP_FAILED
         (save_run k (fail_row now ''LENSNODE_RESUME_EXPIRED'') db))))"
    using assms by (simp add: expire_awaiting_run_def)
  show ?thesis
    unfolding eq using False assms(1) closed_exec [of now "[k]"] by (auto simp: emit_def)
qed

lemma expiry_is_exact_sample:
  "expire_awaiting_run 20 1 (sample_db RUN_RUNNING (Some 50)) =
     (0, emit (ScheduleExpiration 1 30) (sample_db RUN_RUNNING (Some 50)))
   \<and> runs (snd (expire_awaiting_run 50 1 (sample_db RUN_RUNNING (Some 50)))) 1 =
     Some (fail_row 50 ''LENSNODE_RESUME_EXPIRED'' (sample_run RUN_RUNNING None (Some 50)))"
  using expiry_is_exact [of "sample_db RUN_RUNNING (Some 50)" 1 "sample_run RUN_RUNNING None (Some 50)" 50 20]
    expiry_is_exact [of "sample_db RUN_RUNNING (Some 50)" 1 "sample_run RUN_RUNNING None (Some 50)" 50 50]
  by simp



section \<open>Acknowledgements and reconciliation\<close>

text \<open>A node's acknowledgement counts only if it names the current dispatch of an unfinished run
  of that node; otherwise nothing changes. When it counts, the execution is past dispatch and
  stamped, and the run is no longer parked.
\<close>

lemma acknowledgement_needs_current_dispatch:
  assumes "acknowledge_run_protocol_state now k d n ready db = (b, db')"
  shows "b = (\<exists>r e d'. d = Some d' \<and> runs db k = Some r \<and> run_node r = Some n
                \<and> \<not> terminal_status (run_status r) \<and> executions db k = Some e \<and> dispatch_id e = Some d')
       \<and> (if b then (\<exists>r e. runs db' k = Some r \<and> resume_by r = None \<and> executions db' k = Some e
                       \<and> exec_status e \<noteq> EXEC_DISPATCHED \<and> admitted_at e \<noteq> None
                       \<and> (ready \<longrightarrow> checkpoint_ready_at e \<noteq> None))
          else db' = db)"
proof (cases "\<exists>r e d'. d = Some d' \<and> runs db k = Some r \<and> run_node r = Some n
                \<and> \<not> terminal_status (run_status r) \<and> executions db k = Some e \<and> dispatch_id e = Some d'")
  case True
  then obtain r e d' where h: "d = Some d'" "runs db k = Some r" "run_node r = Some n"
    "\<not> terminal_status (run_status r)" "executions db k = Some e" "dispatch_id e = Some d'" by blast
  have "exec_status (admit_exec now ready e) \<noteq> EXEC_DISPATCHED" "admitted_at (admit_exec now ready e) \<noteq> None"
    "ready \<longrightarrow> checkpoint_ready_at (admit_exec now ready e) \<noteq> None"
    by (auto simp: admit_exec_def Let_def)
  then show ?thesis
    using assms h by (cases "resume_by r") (auto simp: acknowledge_run_protocol_state_def Let_def)
next
  case False
  then have "acknowledge_run_protocol_state now k d n ready db = (False, db)"
    by (auto simp: acknowledge_run_protocol_state_def split: option.splits)
  then show ?thesis using assms False by (simp; blast)
qed

lemma acknowledgement_needs_current_dispatch_sample:
  "acknowledge_run_protocol_state 3 1 (Some 8) 9 True (sample_db RUN_STREAMING None) = (False, sample_db RUN_STREAMING None)
   \<and> fst (acknowledge_run_protocol_state 3 1 (Some 7) 9 True (sample_db RUN_STREAMING None))"
proof
  have e: "executions (sample_db RUN_STREAMING None) 1 = Some sample_exec" "dispatch_id sample_exec = Some 7"
    by (simp_all add: sample_db_def sample_exec_def)
  show "acknowledge_run_protocol_state 3 1 (Some 8) 9 True (sample_db RUN_STREAMING None) = (False, sample_db RUN_STREAMING None)"
    using acknowledgement_needs_current_dispatch [OF prod.collapse [symmetric],
        of 3 1 "Some 8" 9 True "sample_db RUN_STREAMING None"] e
    by (auto simp: prod_eq_iff split: if_splits)
  show "fst (acknowledge_run_protocol_state 3 1 (Some 7) 9 True (sample_db RUN_STREAMING None))"
    using acknowledgement_needs_current_dispatch [OF prod.collapse [symmetric],
        of 3 1 "Some 7" 9 True "sample_db RUN_STREAMING None"] e
    by simp
qed

text \<open>A reconnecting node never has a run written off on the spot: each candidate orphan gets a
  delayed confirmation, at least the confirmation grace away and, for a started run, not
  before it is 60 s old; runs the node reported are not candidates; no row changes.
\<close>

lemma reconcile_only_schedules:
  assumes "ConfirmOrphan k c \<in> set (effects (snd (reconcile_lensnode_active_runs en now n active db)))"
    and "ConfirmOrphan k c \<notin> set (effects db)"
  shows "k \<notin> set active \<and> c \<ge> seconds (get_reconcile_confirm_grace_seconds en) \<and> c \<ge> seconds 1
       \<and> (\<exists>r. runs db k = Some r \<and> active_status (run_status r) \<and> resume_by r = None
            \<and> (\<forall>t. run_started_at r = Some t \<longrightarrow> t \<le> now \<longrightarrow> now + c \<ge> t + seconds 60))
       \<and> runs (snd (reconcile_lensnode_active_runs en now n active db)) = runs db"
proof -
  from assms obtain r where r: "k \<in> set (reconcile_candidates now n active db)" "runs db k = Some r"
    "c = orphan_countdown en now r"
    by (auto simp: reconcile_lensnode_active_runs_def Let_def emit_all_def List.map_filter_def split: option.splits)
  have "seconds (get_reconcile_confirm_grace_seconds en) \<ge> seconds 1"
    by (auto simp: get_reconcile_confirm_grace_seconds_def seconds_def split: option.splits sum.splits)
  then show ?thesis
    using r by (auto simp: reconcile_candidates_def set_select_runs orphan_countdown_def Let_def
        RECONCILE_GRACE_SECONDS_def reconcile_lensnode_active_runs_def)
qed

lemma reconcile_only_schedules_sample:
  "seconds 60 - 10 \<ge> seconds (get_reconcile_confirm_grace_seconds sample_env)
   \<and> runs (snd (reconcile_lensnode_active_runs sample_env 10 9 [] (sample_db RUN_STREAMING None)))
       = runs (sample_db RUN_STREAMING None)"
proof -
  have a: "effects (snd (reconcile_lensnode_active_runs sample_env 10 9 [] (sample_db RUN_STREAMING None)))
      = [ConfirmOrphan 1 (seconds 60 - 10)]"
    by code_simp
  show ?thesis
    using reconcile_only_schedules [of 1 "seconds 60 - 10" sample_env 10 9 "[]" "sample_db RUN_STREAMING None"]
    unfolding a by (simp add: sample_db_def)
qed

section \<open>Promotion\<close>

text \<open>Settling a run promotes at most one queued run of the same assistant: a queued, not an
  evaluation run, and none of that assistant's is older. Nothing is promoted only if none is
  queued. The tables are not changed.
\<close>

lemma promotion_takes_the_oldest:
  "(case queued_for_assistant db a of
      [] \<Rightarrow> promote_next_queued_run en a db = db
    | _ \<Rightarrow> \<exists>k r. promote_next_queued_run en a db = emit (EnqueueAnswer k (expected_count en k) 0) db
          \<and> runs db k = Some r \<and> run_status r = RUN_QUEUED \<and> run_source r \<noteq> SOURCE_EVALUATION
          \<and> (\<forall>j \<in> set (queued_for_assistant db a). run_created_at r \<le> created_key db j))"
proof (cases "queued_for_assistant db a")
  case (Cons q qs)
  let ?s = "sort_key (created_key db) (queued_for_assistant db a)"
  obtain k ks where k: "?s = k # ks"
    using Cons by (metis length_sort list.exhaust length_0_conv list.discI)
  have "sorted (map (created_key db) ?s)" by (rule sorted_sort_key)
  then have least: "\<forall>j \<in> set (queued_for_assistant db a). created_key db k \<le> created_key db j"
    using k by (metis (no_types, lifting) imageE list.set_map list.simps(9) order_refl set_ConsD set_sort sorted_simps(2) imageI)
  have "k \<in> set (queued_for_assistant db a)"
    using k by (metis list.set_intros(1) set_sort)
  then obtain r where "runs db k = Some r" "run_status r = RUN_QUEUED" "run_source r \<noteq> SOURCE_EVALUATION"
    by (auto simp: queued_for_assistant_def set_select_runs)
  moreover from this(1) have "created_key db k = run_created_at r" by (simp add: created_key_def)
  ultimately show ?thesis
    using least k Cons by (fastforce simp: promote_next_queued_run_def)
qed (simp add: promote_next_queued_run_def)

lemma promotion_takes_the_oldest_sample:
  "promote_next_queued_run sample_env 3 (sample_db RUN_QUEUED None) =
     emit (EnqueueAnswer 1 (-1) 0) (sample_db RUN_QUEUED None)"
proof -
  have q: "queued_for_assistant (sample_db RUN_QUEUED None) 3 = [1]" by code_simp
  from promotion_takes_the_oldest [where db = "sample_db RUN_QUEUED None" and a = 3 and en = sample_env] q
  obtain k where k: "promote_next_queued_run sample_env 3 (sample_db RUN_QUEUED None) =
      emit (EnqueueAnswer k (expected_count sample_env k) 0) (sample_db RUN_QUEUED None)"
    by auto
  have "effects (promote_next_queued_run sample_env 3 (sample_db RUN_QUEUED None)) = [EnqueueAnswer 1 (-1) 0]"
    by code_simp
  moreover have "effects (promote_next_queued_run sample_env 3 (sample_db RUN_QUEUED None))
      = [EnqueueAnswer k (expected_count sample_env k) 0]"
    unfolding k by (simp add: emit_def) (simp add: sample_db_def)
  moreover have "expected_count sample_env k = -1"
    by (simp add: expected_count_def sample_env_def)
  ultimately have "k = 1" "expected_count sample_env k = -1" by simp_all
  then show ?thesis using k by simp
qed

section \<open>Cleanup\<close>

text \<open>One pass of the cleanup, run with nothing in between, leaves no run that is stale, no parked
  run past its deadline, and no failed run with an open execution; and it fails only runs that
  were stale or overdue.
\<close>

lemma cleanup_is_complete:
  assumes "lifecycle_inv db" "cleanup_enabled en" "lensnode_cleanup_task en now db = Inr (c, db')"
  shows "(\<forall>k q idle. idle_timeout en = Inr idle \<longrightarrow> runs db' k = Some q \<longrightarrow> active_status (run_status q) \<longrightarrow>
            resume_by q = None \<longrightarrow> \<not> stale_run now idle (absolute_timeout en) db k q)
       \<and> (\<forall>k q. runs db' k = Some q \<longrightarrow> \<not> overdue now q)
       \<and> (\<forall>k q e. runs db' k = Some q \<longrightarrow> run_status q = RUN_FAILED \<longrightarrow> executions db' k = Some e \<longrightarrow>
            \<not> open_exec (exec_status e))
       \<and> (\<forall>k r. runs db k = Some r \<longrightarrow> runs db' k = Some r
            \<or> active_status (run_status r) \<and> (\<exists>q. runs db' k = Some q \<and> run_status q = RUN_FAILED))"
proof -
  obtain stale where st: "cleanup_scan en now db = Inr stale" "db' = snd (cleanup_reap now stale db)"
    using assms(2,3) by (auto simp: lensnode_cleanup_task_def rbind_Inr_iff)
  then obtain idle where idle: "idle_timeout en = Inr idle"
    "set stale = {k \<in> set (run_ids db). \<exists>r. runs db k = Some r \<and> active_status (run_status r) \<and> resume_by r = None
        \<and> stale_run now idle (absolute_timeout en) db k r}"
    by (auto simp: cleanup_scan_def rbind_Inr_iff set_select_runs)
  have rows: "runs db' k = map_option (cleaned_row now stale k) (runs db k)" for k
    unfolding st(2) by (rule cleanup_reap_runs [OF inv_idsD [OF assms(1)]])
  have "\<not> overdue now (cleaned_row now stale k r)" for k r
    by (auto simp: cleaned_row_def overdue_def fail_row_def)
  moreover have "\<not> stale_run now i (absolute_timeout en) db k (cleaned_row now stale k r)"
    if "idle_timeout en = Inr i" "runs db k = Some r" "active_status (run_status (cleaned_row now stale k r))"
      "resume_by (cleaned_row now stale k r) = None" for k r i
    using that idle inv_idsD [OF assms(1), of k]
    by (auto simp: cleaned_row_def split: if_splits)
  moreover have "\<not> open_exec (exec_status e)"
    if "runs db' k = Some q" "run_status q = RUN_FAILED" "executions db' k = Some e" for k q e
  proof -
    let ?d2 = "expire_overdue now (reap_stale now stale db)"
    have "executions (close_failed_execs now ?d2) k = Some e" "runs ?d2 k = Some q"
      using that(1,3) unfolding st(2)
      by (simp_all add: cleanup_reap_def close_failed_execs_def del: expire_overdue_frame)
    then show ?thesis
      using closed_failed_exec [of now ?d2 k e] that(2) by (simp add: run_failed_def del: expire_overdue_frame)
  qed
  moreover have "cleaned_row now stale k r = r \<or>
      active_status (run_status r) \<and> run_status (cleaned_row now stale k r) = RUN_FAILED"
    if "runs db k = Some r" for k r
    using that idle(2) by (auto simp: cleaned_row_def overdue_def)
  ultimately show ?thesis by (auto simp: rows)
qed

definition cleaned_db :: db where
  "cleaned_db = (case lensnode_cleanup_task sample_env (seconds 20000) (sample_db RUN_STREAMING None) of
     Inl _ \<Rightarrow> sample_db RUN_STREAMING None | Inr (_, d) \<Rightarrow> d)"

lemma cleanup_is_complete_sample:
  "map_option run_status (runs cleaned_db 1) = Some RUN_FAILED
   \<and> \<not> open_exec (exec_status (the (executions cleaned_db 1)))"
proof -
  have "\<not> isl (lensnode_cleanup_task sample_env (seconds 20000) (sample_db RUN_STREAMING None))"
    by code_simp
  then obtain c where eq: "lensnode_cleanup_task sample_env (seconds 20000) (sample_db RUN_STREAMING None) = Inr (c, cleaned_db)"
    unfolding cleaned_db_def
    by (cases "lensnode_cleanup_task sample_env (seconds 20000) (sample_db RUN_STREAMING None)")
      (auto simp: isl_def)
  have st: "map_option run_status (runs cleaned_db 1) = Some RUN_FAILED" "executions cleaned_db 1 \<noteq> None"
    by (code_simp, code_simp)
  show ?thesis
    using cleanup_is_complete [OF _ _ eq] st sample_inv [of None RUN_STREAMING]
    by (auto simp: sample_env_def)
qed

section \<open>Where the code falls short\<close>

text \<open>The cleanup decides which runs are stale before it locks them and does not look at their
  status again: every row with a chosen key is failed with \<open>LENS_RUN_TIMEOUT\<close>, also one that
  has finished in between.
\<close>

lemma reap_overwrites_finished_runs:
  assumes "lifecycle_inv db" "k \<in> set stale" "runs db k = Some r"
  shows "\<exists>q. runs (snd (cleanup_reap now stale db)) k = Some q \<and> run_status q = RUN_FAILED
       \<and> run_error q = ''LENS_RUN_TIMEOUT''"
  using assms(2,3) cleanup_reap_runs [OF inv_idsD [OF assms(1)], of now stale k]
  by (simp add: cleaned_row_def timeout_row_def)

lemma reap_overwrites_finished_runs_sample:
  "cleanup_scan sample_env (seconds 20000) (sample_db RUN_STREAMING None) = Inr [1, 2]
   \<and> runs (sample_db RUN_DONE None) 1 = Some (sample_run RUN_DONE None None)
   \<and> (\<exists>q. runs (snd (cleanup_reap (seconds 20000) [1, 2] (sample_db RUN_DONE None))) 1 = Some q
        \<and> run_status q = RUN_FAILED \<and> run_error q = ''LENS_RUN_TIMEOUT'')"
proof (intro conjI)
  show "cleanup_scan sample_env (seconds 20000) (sample_db RUN_STREAMING None) = Inr [1, 2]"
    by code_simp
  show "\<exists>q. runs (snd (cleanup_reap (seconds 20000) [1, 2] (sample_db RUN_DONE None))) 1 = Some q
        \<and> run_status q = RUN_FAILED \<and> run_error q = ''LENS_RUN_TIMEOUT''"
    by (rule reap_overwrites_finished_runs) (simp_all add: sample_inv)
qed simp

text \<open>The user's cancel checks the status of a row it has not locked: when the run finishes after
  that read, the cancel still overwrites the finished row, whatever it held.
\<close>

lemma user_cancel_overwrites_finished_runs:
  assumes "\<not> terminal_status seen" "runs db k = Some r"
  shows "\<exists>q. runs (user_cancel_run now k seen db) k = Some q \<and> run_status q = RUN_CANCELLED"
  using assms by (auto simp: user_cancel_run_def Let_def split_beta cancel_descendants_runs)

lemma user_cancel_overwrites_finished_runs_sample:
  "run_verdict (sample_db RUN_DONE None) 1 = Some (sample_run RUN_DONE None None)
   \<and> (\<exists>q. runs (user_cancel_run 20 1 RUN_STREAMING (sample_db RUN_DONE None)) 1 = Some q
        \<and> run_status q = RUN_CANCELLED)"
  using user_cancel_overwrites_finished_runs [of RUN_STREAMING "sample_db RUN_DONE None" 1 _ 20]
  by (simp add: run_verdict_def sample_run_def)

text \<open>Cancellation does not close steps: a step that was running when its run, or an ancestor of
  it, was cancelled stays running, and a later terminal frame for the run does not repair it,
  because frames for a settled run are dropped.
\<close>

lemma cancelled_runs_keep_running_steps:
  assumes "runs db k = Some r" "cancellable (run_status r)" "s \<in> set (steps db)" "step_run s = k"
  shows "s \<in> set (steps (admin_cancel_run now k db))
       \<and> finish_lensnode_run en now' k fr (admin_cancel_run now k db) = Inr (admin_cancel_run now k db)"
proof -
  have "\<exists>q. runs (admin_cancel_run now k db) k = Some q \<and> run_status q = RUN_CANCELLED"
    using assms(1,2) by (auto simp: admin_cancel_run_def Let_def split_beta cancel_descendants_runs)
  then show ?thesis
    using assms by (auto simp: admin_cancel_run_def Let_def split_beta finish_lensnode_run_def)
qed

lemma cancelled_runs_keep_running_steps_sample:
  "new_step 0 1 ANSWER STEP_RUNNING \<in> set (steps (admin_cancel_run 5 1 (sample_db RUN_STREAMING None)))
   \<and> finish_lensnode_run sample_env 9 1 (sample_frame RUN_DONE []) (admin_cancel_run 5 1 (sample_db RUN_STREAMING None))
      = Inr (admin_cancel_run 5 1 (sample_db RUN_STREAMING None))"
proof (rule cancelled_runs_keep_running_steps)
  show "runs (sample_db RUN_STREAMING None) 1 = Some (sample_run RUN_STREAMING None None)" by simp
qed (simp_all add: cancellable_def sample_db_def new_step_def)

text \<open>The candidate query of the reconnect resume includes streaming runs without an activity
  stamp, but the check made under the lock takes exactly those as claimed on the current
  report: such a run is passed over on every reconnect.
\<close>

lemma unstamped_streaming_run_is_never_resumed:
  assumes "runs db k = Some r" "run_status r = RUN_STREAMING" "last_activity_at r = None"
  shows "resume_pass en now n report_at k db = (False, db)"
  using assms by (simp add: resume_pass_def claimed_on_report_def)

lemma unstamped_streaming_run_is_never_resumed_sample:
  "1 \<in> set (resume_candidates 10 9 5 [] (sample_db RUN_STREAMING (Some 50)))
   \<and> resume_pass sample_env 10 9 5 1 (sample_db RUN_STREAMING (Some 50)) = (False, sample_db RUN_STREAMING (Some 50))"
proof
  show "1 \<in> set (resume_candidates 10 9 5 [] (sample_db RUN_STREAMING (Some 50)))"
    by (simp add: resume_candidates_def set_select_runs)
  show "resume_pass sample_env 10 9 5 1 (sample_db RUN_STREAMING (Some 50)) = (False, sample_db RUN_STREAMING (Some 50))"
    by (rule unstamped_streaming_run_is_never_resumed [where r = "sample_run RUN_STREAMING None (Some 50)"]) simp_all
qed

end
