(* ===== verification/Run_Views.thy ===== *)
theory Run_Views
  imports Run_Properties
begin

text \<open>
  What a settled run shows: the termination detail and the citations a terminal frame leaves in
  the row can always be rendered by the views, which sanitize them a second time.
\<close>

lemma stored_again:
  assumes "stored_citation d"
  shows "\<exists>c. sanitize_citation repr (PDict d) = Inr c"
proof -
  from assms obtain a b where "dget d ''start_line'' = PInt a" "dget d ''end_line'' = PInt b"
    by (auto simp: stored_citation_def)
  then show ?thesis by (simp add: sanitize_citation_def Let_def caught_int_def)
qed

lemma collect_stored:
  "list_all stored_citation ds \<Longrightarrow> \<exists>cs. collect_citations repr seen (map PDict ds) = Inr cs"
proof (induction ds arbitrary: seen)
  case (Cons d ds)
  then obtain c where c: "sanitize_citation repr (PDict d) = Inr c" using stored_again [of d repr] by auto
  show ?case
  proof (cases c)
    case (Some e)
    from Cons obtain cs cs' where "collect_citations repr seen (map PDict ds) = Inr cs"
      "collect_citations repr (insert (dget e ''path'') seen) (map PDict ds) = Inr cs'" by fastforce
    then show ?thesis using c Some by simp
  qed (use Cons c in simp)
qed simp

lemma stored_list_shown:
  assumes "list_all stored_citation ds"
  shows "\<exists>ps. public_run_citations repr (PList (map PDict ds)) = Inr ps"
proof -
  obtain cs where cs: "sanitize_run_citations repr (PList (map PDict ds)) = Inr cs"
    using collect_stored [OF assms] by (auto simp: sanitize_run_citations_def)
  have "map_res public_fields cs = Inr (map public_of cs)"
    using sanitized_citations [OF cs] by (intro map_res_Inr stored_public) (auto simp: list_all_iff)
  then show ?thesis by (simp add: public_run_citations_def cs)
qed

lemma clean_frame_payloads:
  assumes "clean_frame en fr = Inr fr'"
  obtains t where "fr_termination fr' = PDict t" "sanitize_termination_detail (value_text en) (PDict t) = Inr t"
    "\<And>v. fr_citations fr = Some v \<Longrightarrow>
        \<exists>cs. fr_citations fr' = Some (PList (map PDict cs)) \<and> list_all stored_citation cs"
proof -
  from assms obtain t c p where
    t: "sanitize_termination_detail (value_text en) (py_or (fr_termination fr) (PDict [])) = Inr t"
    and c: "if_given (clean_citations en) (fr_citations fr) = Inr c"
    and fr': "fr' = fr\<lparr>fr_termination := PDict t, fr_citations := c, fr_evidence := p\<rparr>"
    by (auto simp: clean_frame_def rbind_Inr_iff)
  have "\<exists>cs. fr_citations fr' = Some (PList (map PDict cs)) \<and> list_all stored_citation cs"
    if "fr_citations fr = Some v" for v
    using c that sanitized_citations by (fastforce simp: if_given_def clean_citations_def rbind_Inr_iff fr')
  then show thesis using that [of t] termination_again [OF t] by (simp add: fr')
qed

lemma same_row_payloads:
  assumes "same_row r q"
  shows "termination_detail q = termination_detail r" "run_citations q = run_citations r"
  using arg_cong [OF assms [unfolded same_row_def], of termination_detail]
    arg_cong [OF assms [unfolded same_row_def], of run_citations] by simp_all

text \<open>C24.
  Whatever payloads a terminal frame carries, the row it leaves can be shown: the stored
  termination detail holds public fields only and is shown as it is stored, and the citations
  it brought are records of the stored schema for which the public view never raises.
\<close>

theorem settled_run_can_be_shown:
  assumes "runs db k = Some r" "\<not> terminal_status (run_status r)" "final_frame en now fr r"
    and "finish_lensnode_run en now k fr db = Inr db'" "runs db' k = Some q"
  shows "(\<forall>(f, w) \<in> set (termination_detail q). public_field f w)
       \<and> sanitize_termination_detail (value_text en) (PDict (termination_detail q)) = Inr (termination_detail q)
       \<and> (\<forall>v. fr_citations fr = Some v \<longrightarrow>
            (\<exists>cs ps. run_citations q = PList (map PDict cs) \<and> list_all stored_citation cs
               \<and> public_run_citations (value_text en) (run_citations q) = Inr ps))"
proof -
  obtain fr' where c: "clean_frame en fr = Inr fr'"
    using assms(4) unfolding finish_final [OF assms(1-3)] by (auto simp: rbind_Inr_iff)
  have row: "same_row (settled_row en now fr' (resolve_lensnode_error en (fr_error fr)) r) q"
    using terminal_frame_settles_aux [OF assms(1-3) c assms(4)] assms(5) by blast
  from c show ?thesis
  proof (rule clean_frame_payloads)
    fix t assume t: "fr_termination fr' = PDict t" "sanitize_termination_detail (value_text en) (PDict t) = Inr t"
      and cited: "\<And>v. fr_citations fr = Some v \<Longrightarrow>
        \<exists>cs. fr_citations fr' = Some (PList (map PDict cs)) \<and> list_all stored_citation cs"
    have q: "termination_detail q = t"
      "\<And>x. fr_citations fr' = Some x \<Longrightarrow> run_citations q = x"
      using same_row_payloads [OF row] t(1) by (auto simp: settled_row_def split: prod.splits)
    show ?thesis using t(2) termination_public [OF t(2)] q cited stored_list_shown by fastforce
  qed
qed

lemma finish_keeps_child:
  assumes "runs db k = Some r" "\<not> terminal_status (run_status r)" "parent_run r \<noteq> None" "final_frame en now fr r"
    and "finish_lensnode_run en now k fr db = Inr db'"
  shows "runs db' k \<noteq> None"
proof -
  let ?err = "resolve_lensnode_error en (fr_error fr)"
  obtain fr' a where db': "db' = settle_run en now k fr' ?err a r db"
    using assms(5) unfolding finish_final [OF assms(1,2,4)] by (auto simp: rbind_Inr_iff)
  have "parent_run (settled_row en now fr' ?err r) \<noteq> None"
    using assms(3) by (simp add: settled_row_def split: prod.split)
  then have "runs db' = runs (snd (close_run en now k fr' ?err a r db))"
    by (auto simp add: db' settle_run_def split_beta after_settle_runs)
  then show ?thesis by (simp add: close_run_rows [OF assms(1)] assms(1))
qed

definition cited_frame :: frame where
  "cited_frame = (sample_frame RUN_DONE [])\<lparr>fr_citations := Some (PList [sample_cite ''a/b.py'']),
     fr_termination := PDict [(''secret'', PStr ''key'')]\<rparr>"

definition cited_db :: db where
  "cited_db = (case finish_lensnode_run sample_env 10 2 cited_frame (sample_db RUN_RUNNING None) of
     Inl _ \<Rightarrow> sample_db RUN_RUNNING None | Inr d \<Rightarrow> d)"

lemma cited_finish:
  "finish_lensnode_run sample_env 10 2 cited_frame (sample_db RUN_RUNNING None) = Inr cited_db"
proof -
  have ff: "final_frame sample_env 10 cited_frame (sample_run RUN_RUNNING (Some 1) None)"
    by (simp add: final_frame_def cited_frame_def sample_frame_def)
  have "\<exists>c. sanitize_run_citations (\<lambda>_. []) (PList [sample_cite ''a/b.py'']) = Inr [c]"
    using sample_cited by blast
  moreover have "sanitize_termination_detail (\<lambda>_. []) (PDict [(''secret'', PStr ''key'')]) = Inr []"
  proof -
    have "termination_parts (\<lambda>_. []) [(''secret'', PStr ''key'')] = termination_parts (\<lambda>_. []) []"
      by (simp add: termination_parts_def)
    then show ?thesis using no_termination(2) [of "\<lambda>_. []"] by (simp add: sanitize_termination_detail_def)
  qed
  ultimately obtain fr' where "clean_frame sample_env cited_frame = Inr fr'"
    by (auto simp: clean_frame_def cited_frame_def sample_frame_def sample_env_def py_or_def if_given_def clean_citations_def)
  moreover have "approved_files 2 cited_frame (sample_db RUN_RUNNING None) = Inr []"
    by (simp add: approved_files_def cited_frame_def sample_frame_def)
  ultimately have "\<exists>d. finish_lensnode_run sample_env 10 2 cited_frame (sample_db RUN_RUNNING None) = Inr d"
    by (subst finish_final [OF _ _ ff]) simp_all
  then show ?thesis unfolding cited_db_def by auto
qed

theorem settled_run_can_be_shown_witness:
  "\<exists>cs ps. runs cited_db 2 \<noteq> None \<and> run_citations (the (runs cited_db 2)) = PList (map PDict cs)
     \<and> public_run_citations (\<lambda>_. []) (run_citations (the (runs cited_db 2))) = Inr ps"
proof -
  have ff: "final_frame sample_env 10 cited_frame (sample_run RUN_RUNNING (Some 1) None)"
    by (simp add: final_frame_def cited_frame_def sample_frame_def)
  have kept: "runs cited_db 2 \<noteq> None"
    using finish_keeps_child [OF _ _ _ ff cited_finish] by simp
  then obtain q where q: "runs cited_db 2 = Some q" by blast
  from settled_run_can_be_shown [OF _ _ ff cited_finish q] show ?thesis
    using kept q by (simp add: cited_frame_def sample_env_def) blast
qed

end
