(* ===== verification/Json_Values.thy ===== *)
theory Json_Values
  imports SL_Prelude
begin

text \<open>
  JSON-like values as the source re-reads them: \<open>canon\<close> is what \<open>json.loads\<close> gives back after
  \<open>json.dumps(..., sort_keys=True)\<close>, and \<open>getitem\<close> is \<open>value["key"]\<close>.
\<close>

fun canon :: "py \<Rightarrow> py" where
  "canon (PList vs) = PList (map canon vs)"
| "canon (PDict d) = PDict (sort_key fst (map (map_prod id canon) d))"
| "canon v = v"

definition canon_dict :: "pydict \<Rightarrow> pydict" where
  "canon_dict d = sort_key fst (map (map_prod id canon) d)"

lemma canon_PDict: "canon (PDict d) = PDict (canon_dict d)"
  by (simp add: canon_dict_def)

lemma canon_dict_Nil [simp]: "canon_dict [] = []"
  by (simp add: canon_dict_def)

lemma map_of_insort:
  "k \<notin> fst ` set d \<Longrightarrow> map_of (insort_key fst (k, v) d) = (map_of d)(k \<mapsto> v)"
  by (induction d) (auto simp: fun_eq_iff)

lemma map_of_canon_dict:
  assumes "distinct (map fst d)"
  shows "map_of (canon_dict d) k = map_option canon (map_of d k)"
proof -
  have "map_of (canon_dict d) k = map_of (map (map_prod id canon) d) k"
    unfolding canon_dict_def by (subst map_of_sort_key) (use assms in \<open>simp_all add: comp_def\<close>)
  also have "\<dots> = map_option canon (map_of d k)"
    by (induction d) (auto simp: map_prod_def)
  finally show ?thesis .
qed

lemma distinct_canon_dict:
  assumes "distinct (map fst d)"
  shows "distinct (map fst (canon_dict d))"
proof -
  have "distinct (map fst (sort_key fst xs))" if "distinct (map fst xs)" for xs :: pydict
    using that by (induction xs) (simp_all add: distinct_insort_key)
  then show ?thesis using assms by (simp add: canon_dict_def comp_def)
qed

lemma dict_case_Inr:
  "(case v of PDict d \<Rightarrow> f d | _ \<Rightarrow> Inl e) = Inr y \<longleftrightarrow> (\<exists>d. v = PDict d \<and> f d = Inr y)"
  by (cases v) auto

definition getitem :: "py \<Rightarrow> string \<Rightarrow> py res" where
  "getitem v k =
     (case v of
        PDict d \<Rightarrow> (case map_of d k of None \<Rightarrow> Inl KeyError | Some w \<Rightarrow> Inr w)
      | _ \<Rightarrow> Inl TypeError)"

text \<open>\<open>dict(mapping, key=value)\<close> and \<open>{**mapping, "key": value}\<close>.\<close>

abbreviation put :: "string \<Rightarrow> py \<Rightarrow> pydict \<Rightarrow> pydict" where
  "put \<equiv> AList.update"

text \<open>The size of a value: characters of its texts and parts of its lists and objects.\<close>

fun weight :: "py \<Rightarrow> nat" where
  "weight (PStr s) = length s"
| "weight (PList vs) = sum_list (map (\<lambda>v. Suc (weight v)) vs)"
| "weight (PDict d) = sum_list (map (\<lambda>(k, v). Suc (weight v)) d)"
| "weight v = 0"

lemma weight_dget: "map_of d k = Some v \<Longrightarrow> weight v < weight (PDict d)"
  by (induction d) (auto split: if_splits)

end
