(* ===== verification/Tool_Evidence.thy ===== *)
theory Tool_Evidence
  imports Json_Values
begin

text \<open>
  Durable tool evidence of \<open>lensnode/lensnode/tool_evidence.py\<close>: the store of immutable source
  results of one run, the review progress kept per snapshot of the store, the bounded reader
  the agent pages through, and the wrapper that answers a repeated source request from the store.

  A JSON text that is written and read back is represented by the value it decodes to
  (\<open>canon\<close>, the keys in sorted order). The encoder, the digest and the Plugin's projection are
  parameters; \<open>linked\<close> says that a symbolic link was found on the store's path. The locks
  serialise the operations, so each is one step.
\<close>

record ev_env =
  compact :: "py \<Rightarrow> string"
  sha256 :: "string \<Rightarrow> string"
  linked :: bool

record source_id =
  si_provider :: string
  si_connection :: string
  si_version :: string
  si_tool :: string

record evidence_snapshot =
  sn_source :: source_id
  sn_arguments :: py
  sn_result :: pydict
  sn_sequence :: int

type_synonym page = "int \<times> int"

record review =
  rv_snapshot :: string
  rv_ranges :: "page list"
  rv_read :: bool

record ev_store =
  ev_entries :: "(string \<times> evidence_snapshot) list"
  ev_review :: "string \<rightharpoonup> review"

definition MAX_EVIDENCE_PAGE_CHARS :: nat where
  "MAX_EVIDENCE_PAGE_CHARS = 24000"

section \<open>The store\<close>

definition evidence_key :: "ev_env \<Rightarrow> source_id \<Rightarrow> py \<Rightarrow> string" where
  "evidence_key env src arguments =
     sha256 env (compact env (PList [PStr (si_provider src), PStr (si_connection src),
       PStr (si_version src), PStr (si_tool src), arguments]))"

definition cached :: "ev_env \<Rightarrow> source_id \<Rightarrow> py \<Rightarrow> ev_store \<Rightarrow> py option" where
  "cached env src arguments s =
     map_option (\<lambda>e. canon (PDict (sn_result e))) (map_of (ev_entries s) (evidence_key env src arguments))"

definition has_evidence :: "ev_store \<Rightarrow> bool" where
  "has_evidence s \<longleftrightarrow> ev_entries s \<noteq> []"

definition newest_sequence :: "(string \<times> evidence_snapshot) list \<Rightarrow> int" where
  "newest_sequence es = (if es = [] then 0 else Max (set (map (sn_sequence \<circ> snd) es)))"

definition record_evidence :: "ev_env \<Rightarrow> source_id \<Rightarrow> py \<Rightarrow> py \<Rightarrow> ev_store \<Rightarrow> ev_store res" where
  "record_evidence env src arguments result s =
     (case result of
        PDict d \<Rightarrow>
          if dget d ''ok'' \<noteq> PBool True then Inr s
          else if linked env then Inl ValueError
          else Inr (s\<lparr>ev_entries := AList.update (evidence_key env src arguments)
                 \<lparr>sn_source = src, sn_arguments = canon arguments, sn_result = canon_dict d,
                  sn_sequence = newest_sequence (ev_entries s) + 1\<rparr> (ev_entries s)\<rparr>)
      | _ \<Rightarrow> Inr s)"

section \<open>Review progress\<close>

text \<open>The merge loop of \<open>read_progress\<close>; the merged ranges are kept last first.\<close>

fun merge_ranges :: "page list \<Rightarrow> page list \<Rightarrow> page list" where
  "merge_ranges merged [] = rev merged"
| "merge_ranges [] (r # rs) = merge_ranges [r] rs"
| "merge_ranges ((a, b) # merged) ((s, e) # rs) =
     (if s \<le> b then merge_ranges ((a, max b e) # merged) rs
      else merge_ranges ((s, e) # (a, b) # merged) rs)"

fun cursor_from :: "int \<Rightarrow> page list \<Rightarrow> int" where
  "cursor_from c [] = c"
| "cursor_from c ((s, e) # rs) = (if s > c then c else cursor_from (max c e) rs)"

fun first_after :: "int \<Rightarrow> page list \<Rightarrow> int option" where
  "first_after c [] = None"
| "first_after c ((s, e) # rs) = (if s > c then Some s else first_after c rs)"

record progress =
  pg_complete :: bool
  pg_total :: int
  pg_next :: "int option"
  pg_unread_end :: "int option"
  pg_snapshot :: string

definition progress_of :: "string \<Rightarrow> int \<Rightarrow> review \<Rightarrow> progress" where
  "progress_of digest records rv =
     (let cursor = cursor_from 0 (rv_ranges rv);
          complete = (rv_read rv \<and> cursor \<ge> records)
      in \<lparr>pg_complete = complete, pg_total = records,
          pg_next = (if complete then None else Some cursor),
          pg_unread_end = (if complete then None
             else Some (case first_after cursor (rv_ranges rv) of None \<Rightarrow> records | Some s \<Rightarrow> s)),
          pg_snapshot = digest\<rparr>)"

definition fresh_review :: "string \<Rightarrow> review" where
  "fresh_review digest = \<lparr>rv_snapshot = digest, rv_ranges = [], rv_read = False\<rparr>"

definition stored_review :: "string \<Rightarrow> ev_store \<Rightarrow> review" where
  "stored_review digest s =
     (case ev_review s digest of
        Some rv \<Rightarrow> if rv_snapshot rv = digest then rv else fresh_review digest
      | None \<Rightarrow> fresh_review digest)"

definition note_page :: "page \<Rightarrow> review \<Rightarrow> review" where
  "note_page p rv = rv\<lparr>rv_read := True, rv_ranges := merge_ranges [] (sort (rv_ranges rv @ [p]))\<rparr>"

text \<open>What the store hands to the reader and to the answer review.\<close>

record source_row =
  sr_snapshot :: string
  sr_source :: source_id
  sr_arguments :: py
  sr_coverage :: pydict

record material =
  ma_records :: "pydict list"
  ma_sources :: "source_row list"
  ma_complete :: bool

definition source_row_py :: "source_row \<Rightarrow> py" where
  "source_row_py r = PDict
     [(''arguments'', sr_arguments r), (''connection'', PStr (si_connection (sr_source r))),
      (''coverage'', PDict (sr_coverage r)), (''provider'', PStr (si_provider (sr_source r))),
      (''snapshot_id'', PStr (sr_snapshot r)), (''tool'', PStr (si_tool (sr_source r))),
      (''version'', PStr (si_version (sr_source r)))]"

definition material_py :: "material \<Rightarrow> py" where
  "material_py m = PDict
     [(''complete'', PBool (ma_complete m)), (''records'', PList (map PDict (ma_records m))),
      (''sources'', PList (map source_row_py (ma_sources m)))]"

definition material_digest :: "ev_env \<Rightarrow> material \<Rightarrow> string" where
  "material_digest env m = sha256 env (compact env (material_py m))"

definition total_records :: "material \<Rightarrow> int" where
  "total_records m = int (length (ma_records m))"

definition read_progress :: "ev_env \<Rightarrow> material \<Rightarrow> page option \<Rightarrow> bool \<Rightarrow> ev_store \<Rightarrow> (progress \<times> ev_store) res" where
  "read_progress env m pg persist s =
     (let digest = material_digest env m;
          rv = stored_review digest s;
          rv' = (case pg of None \<Rightarrow> rv | Some p \<Rightarrow> note_page p rv);
          s' = (if pg \<noteq> None \<and> persist then s\<lparr>ev_review := (ev_review s)(digest \<mapsto> rv')\<rparr> else s)
      in if linked env then Inl ValueError else Inr (progress_of digest (total_records m) rv', s'))"

text \<open>The contribution of one snapshot: its numbered records and its coverage.\<close>

fun numbered_records :: "string \<Rightarrow> nat \<Rightarrow> py list \<Rightarrow> pydict list" where
  "numbered_records key n [] = []"
| "numbered_records key n (r # rs) =
     put ''evidence_id'' (PStr (take 24 key @ '':'' @ dec_digits n))
       (case r of PDict d \<Rightarrow> d | v \<Rightarrow> [(''value'', v)]) # numbered_records key (Suc n) rs"

definition snapshot_part :: "string \<times> evidence_snapshot \<Rightarrow> (pydict list \<times> source_row) res" where
  "snapshot_part ke =
     (let (key, e) = ke
      in rbind (getitem (PDict (sn_result e)) ''_evidence'') (\<lambda>evidence.
         rbind (getitem evidence ''records'') (\<lambda>records.
         rbind (py_iter records) (\<lambda>rs.
           Inr (numbered_records key 0 rs,
             \<lparr>sr_snapshot = key, sr_source = sn_source e, sr_arguments = sn_arguments e,
              sr_coverage = filter (\<lambda>(k, v). k \<noteq> ''records'') (dict_of evidence)\<rparr>)))))"

definition covered_fully :: "source_row \<Rightarrow> bool" where
  "covered_fully r \<longleftrightarrow> dget (sr_coverage r) ''complete'' = PBool True"

definition canon_row :: "source_row \<Rightarrow> source_row" where
  "canon_row r = r\<lparr>sr_arguments := canon (sr_arguments r), sr_coverage := canon_dict (sr_coverage r)\<rparr>"

definition store_material :: "ev_store \<Rightarrow> material res" where
  "store_material s =
     rbind (map_res snapshot_part (sort_key (sn_sequence \<circ> snd) (ev_entries s))) (\<lambda>parts.
       Inr \<lparr>ma_records = map canon_dict (concat (map fst parts)),
            ma_sources = map (canon_row \<circ> snd) parts,
            ma_complete = (parts \<noteq> [] \<and> list_all (covered_fully \<circ> snd) parts)\<rparr>)"

section \<open>The reader\<close>

definition opt_int :: "int option \<Rightarrow> py" where
  "opt_int v = (case v of None \<Rightarrow> PNone | Some i \<Rightarrow> PInt i)"

definition progress_py :: "progress \<Rightarrow> py" where
  "progress_py p = PDict
     [(''complete'', PBool (pg_complete p)), (''total_records'', PInt (pg_total p)),
      (''next_offset'', opt_int (pg_next p)), (''next_unread_end'', opt_int (pg_unread_end p)),
      (''snapshot_sha256'', PStr (pg_snapshot p))]"

definition refusal :: "string \<Rightarrow> py" where
  "refusal code = PDict [(''ok'', PBool False), (''error'', PStr code)]"

definition short_source :: "source_row \<Rightarrow> py" where
  "short_source r = PDict
     [(''snapshot_id'', PStr (sr_snapshot r)), (''tool'', PStr (si_tool (sr_source r))),
      (''complete'', PBool (covered_fully r))]"

definition page_payload :: "material \<Rightarrow> progress \<Rightarrow> int \<Rightarrow> int \<Rightarrow> int \<Rightarrow> pydict" where
  "page_payload m p start end limit =
     [(''ok'', PBool True),
      (''records'', PList (map PDict (take (nat end - nat start) (drop (nat start) (ma_records m))))),
      (''total_records'', PInt (total_records m)),
      (''sources'', PList (map source_row_py (ma_sources m))),
      (''_evidence'', PDict [(''complete'', PBool (ma_complete m))]),
      (''read_progress'', progress_py p),
      (''next_offset'', opt_int (pg_next p)),
      (''next_page'', if pg_complete p then PNone
         else PDict [(''tool'', PStr ''read_tool_evidence''),
                     (''arguments'', PDict [(''offset'', opt_int (pg_next p)), (''limit'', PInt limit)])])]"

definition too_long :: "ev_env \<Rightarrow> py \<Rightarrow> bool" where
  "too_long env v \<longleftrightarrow> length (compact env v) > MAX_EVIDENCE_PAGE_CHARS"

definition page_reply :: "ev_env \<Rightarrow> material \<Rightarrow> progress \<Rightarrow> int \<Rightarrow> int \<Rightarrow> int \<Rightarrow> py" where
  "page_reply env m p start end limit =
     (let payload = page_payload m p start end limit
      in if start > 0 \<or> too_long env (PDict payload)
         then PDict (put ''sources'' (PList (map short_source (ma_sources m))) payload
                @ [(''source_details_omitted'', PBool True)])
         else PDict payload)"

text \<open>
  One round of the search for the largest page that fits: the page \<open>[start, end)\<close> is rendered
  with the progress it would leave.
\<close>

type_synonym found_page = "(int \<times> py) option"

definition probe :: "ev_env \<Rightarrow> material \<Rightarrow> ev_store \<Rightarrow> int \<Rightarrow> int \<Rightarrow> int \<Rightarrow>
    int \<times> int \<times> found_page \<Rightarrow> (int \<times> int \<times> found_page) res" where
  "probe env m s start limit end st =
     (let (lower, upper, best) = st
      in rbind (read_progress env m (Some (start, end)) False s) (\<lambda>(p, _).
           let reply = page_reply env m p start end limit
           in if \<not> too_long env reply then Inr (end + 1, upper, Some (end, reply))
              else Inr (lower, end - 1, best)))"

function search_page :: "ev_env \<Rightarrow> material \<Rightarrow> ev_store \<Rightarrow> int \<Rightarrow> int \<Rightarrow> int \<times> int \<times> found_page \<Rightarrow> found_page res" where
  "search_page env m s start limit st =
     (if fst st > fst (snd st) then Inr (snd (snd st))
      else case probe env m s start limit ((fst st + fst (snd st)) div 2) st of
             Inl e \<Rightarrow> Inl e
           | Inr st' \<Rightarrow> search_page env m s start limit st')"
  by pat_completeness auto
termination
  by (relation "measure (\<lambda>(env, m, s, start, limit, lower, upper, best). nat (upper + 1 - lower))")
     (auto simp: probe_def rbind_Inr_iff Let_def split: prod.splits if_splits)

declare search_page.simps [simp del]

definition read_records :: "ev_env \<Rightarrow> string list \<Rightarrow> material \<Rightarrow> progress \<Rightarrow> ev_store \<Rightarrow> (py \<times> ev_store) res" where
  "read_records env ids m p s =
     (let selected = filter (\<lambda>(i, r). (case dget r ''evidence_id'' of PStr t \<Rightarrow> t \<in> set ids | _ \<Rightarrow> False))
                       (enumerate 0 (ma_records m));
          found = List.map_filter (\<lambda>(i, r). str_of (dget r ''evidence_id'')) selected;
          missing = sorted_list_of_set (set ids - set found);
          payload = [(''ok'', PBool True), (''records'', PList (map (PDict \<circ> snd) selected)),
                     (''read_progress'', progress_py p)]
      in if missing \<noteq> []
         then Inr (PDict [(''ok'', PBool False), (''error'', PStr ''TOOL_EVIDENCE_IDS_UNKNOWN''),
                          (''missing'', PList (map PStr missing))], s)
         else if too_long env (PDict payload) then Inr (refusal ''TOOL_EVIDENCE_PAGE_TOO_LARGE'', s)
         else rbind (foldl (\<lambda>acc (i, r). rbind acc (\<lambda>(_, s'). read_progress env m (Some (int i, int i + 1)) True s'))
                       (Inr (p, s)) selected) (\<lambda>(p', s').
              Inr (PDict (put ''read_progress'' (progress_py p') payload), s')))"

definition page_start :: "material \<Rightarrow> progress \<Rightarrow> py \<Rightarrow> py" where
  "page_start m p offset =
     (if offset \<noteq> PNone then offset
      else if \<not> pg_complete p then opt_int (pg_next p) else PInt (total_records m))"

definition page_end :: "material \<Rightarrow> progress \<Rightarrow> int \<Rightarrow> int \<Rightarrow> int" where
  "page_end m p start limit =
     (let end = min (start + limit) (total_records m)
      in if pg_next p = Some start
         then min end (case pg_unread_end p of Some e \<Rightarrow> if e \<noteq> 0 then e else end | None \<Rightarrow> end)
         else end)"

definition read_page :: "ev_env \<Rightarrow> int \<Rightarrow> int \<Rightarrow> material \<Rightarrow> progress \<Rightarrow> ev_store \<Rightarrow> (py \<times> ev_store) res" where
  "read_page env start limit m p s =
     (let end = page_end m p start limit
      in rbind (probe env m s start limit end (start + 1, end, None)) (\<lambda>st.
         rbind (search_page env m s start limit st) (\<lambda>best.
           case best of
             None \<Rightarrow> Inr (refusal ''TOOL_EVIDENCE_PAGE_TOO_LARGE'', s)
           | Some (stop, reply) \<Rightarrow>
               rbind (read_progress env m (Some (start, stop)) True s) (\<lambda>(_, s'). Inr (reply, s')))))"

definition read_tool_evidence :: "ev_env \<Rightarrow> py \<Rightarrow> py \<Rightarrow> string list option \<Rightarrow> ev_store \<Rightarrow> (py \<times> ev_store) res" where
  "read_tool_evidence env offset limit record_ids s =
     (if \<not> has_evidence s then Inr (refusal ''TOOL_EVIDENCE_REQUIRED'', s)
      else rbind (store_material s) (\<lambda>m.
           rbind (read_progress env m None True s) (\<lambda>(p, _).
             case limit of
               PInt l \<Rightarrow>
                 if l < 1 \<or> 100 < l then Inr (refusal ''TOOL_EVIDENCE_PAGE_INVALID'', s)
                 else (case record_ids of
                   Some ids \<Rightarrow>
                     if offset \<noteq> PNone \<or> ids = [] \<or> length ids > 100
                     then Inr (refusal ''TOOL_EVIDENCE_IDS_INVALID'', s)
                     else read_records env ids m p s
                 | None \<Rightarrow> (case page_start m p offset of
                       PInt start \<Rightarrow>
                         if start < 0 \<or> total_records m < start then Inr (refusal ''TOOL_EVIDENCE_PAGE_INVALID'', s)
                         else read_page env start l m p s
                     | _ \<Rightarrow> Inr (refusal ''TOOL_EVIDENCE_PAGE_INVALID'', s)))
             | _ \<Rightarrow> Inr (refusal ''TOOL_EVIDENCE_PAGE_INVALID'', s))))"

section \<open>The extension\<close>

text \<open>
  \<open>ToolEvidenceExtension.__init__\<close>: entries of tools that are no longer bound are dropped, entries
  without projected records are projected again. \<open>project\<close> is the Plugin's contract, \<open>None\<close> when
  it projects nothing.
\<close>

type_synonym projection = "source_id \<Rightarrow> (pydict \<Rightarrow> py res) option"

definition project_again :: "projection \<Rightarrow> evidence_snapshot \<Rightarrow> py res" where
  "project_again project e =
     (case project (sn_source e) of None \<Rightarrow> Inl TypeError | Some f \<Rightarrow> f (sn_result e))"

definition admit_entry :: "ev_env \<Rightarrow> source_id set \<Rightarrow> projection \<Rightarrow> string \<times> evidence_snapshot \<Rightarrow> ev_store \<Rightarrow> ev_store res" where
  "admit_entry env bindings project ke s =
     (let (key, e) = ke
      in if sn_source e \<notin> bindings then Inr (s\<lparr>ev_entries := AList.delete key (ev_entries s)\<rparr>)
         else (case dget_default (sn_result e) ''_evidence'' (PDict []) of
             PDict evidence \<Rightarrow>
               (case dget evidence ''records'' of
                  PList _ \<Rightarrow> Inr s
                | _ \<Rightarrow> rbind (project_again project e) (\<lambda>v.
                         record_evidence env (sn_source e) (sn_arguments e)
                           (PDict (put ''_evidence'' v (sn_result e))) s))
           | _ \<Rightarrow> Inl AttributeError))"

definition open_extension :: "ev_env \<Rightarrow> source_id set \<Rightarrow> projection \<Rightarrow> ev_store \<Rightarrow> ev_store res" where
  "open_extension env bindings project s =
     (if linked env then Inl ValueError
      else foldl (\<lambda>acc ke. rbind acc (admit_entry env bindings project ke)) (Inr s) (ev_entries s))"

text \<open>
  The wrapper of a source tool's executor. The result carries the event it emits, if any.
\<close>

definition valid_evidence :: "py \<Rightarrow> bool" where
  "valid_evidence v =
     (case v of
        PDict d \<Rightarrow> (case dget d ''records'' of PList _ \<Rightarrow> True | _ \<Rightarrow> False)
                  \<and> (case dget d ''complete'' of PBool _ \<Rightarrow> True | _ \<Rightarrow> False)
      | _ \<Rightarrow> False)"

lemma valid_evidence_iff:
  "valid_evidence v \<longleftrightarrow> (\<exists>d rs b. v = PDict d \<and> dget d ''records'' = PList rs \<and> dget d ''complete'' = PBool b)"
  by (auto simp: valid_evidence_def split: py.splits)

definition record_count :: "pydict \<Rightarrow> nat" where
  "record_count evidence = (case dget evidence ''records'' of PList rs \<Rightarrow> length rs | _ \<Rightarrow> 0)"

definition narrowed :: "py \<Rightarrow> pydict \<Rightarrow> pydict" where
  "narrowed reported evidence =
     (case reported of
        PDict d \<Rightarrow> if dget d ''complete'' = PBool False then put ''complete'' (PBool False) evidence else evidence
      | _ \<Rightarrow> evidence)"

definition receipt :: "ev_env \<Rightarrow> source_id \<Rightarrow> py \<Rightarrow> pydict \<Rightarrow> py" where
  "receipt env src arguments evidence = PDict
     [(''ok'', PBool True), (''evidence_saved'', PBool True), (''tool'', PStr (si_tool src)),
      (''snapshot_id'', PStr (evidence_key env src arguments)),
      (''record_count'', PInt (int (record_count evidence))),
      (''_evidence'', PDict [(''complete'', PBool (dget evidence ''complete'' = PBool True))]),
      (''next_page'', PDict [(''tool'', PStr ''read_tool_evidence''), (''arguments'', PDict [])])]"

type_synonym source_call = "py \<Rightarrow> py res"

definition invoke :: "ev_env \<Rightarrow> source_id \<Rightarrow> (pydict \<Rightarrow> py res) \<Rightarrow> source_call \<Rightarrow> string \<Rightarrow> string option \<Rightarrow> py \<Rightarrow>
    ev_store \<Rightarrow> (py \<times> string option \<times> ev_store) res" where
  "invoke env src project executor tool_key call_id arguments s =
     (if tool_key \<noteq> si_tool src \<or> call_id = None \<or> call_id = Some []
      then rbind (executor arguments) (\<lambda>v. Inr (v, None, s))
      else let hit = cached env src arguments s
       in rbind (case hit of Some v \<Rightarrow> Inr v | None \<Rightarrow> executor arguments) (\<lambda>result.
          case result of
            PDict d \<Rightarrow>
              if dget d ''ok'' \<noteq> PBool True then Inr (PDict d, None, s)
              else rbind (if hit \<noteq> None then Inr (dget d ''_evidence'') else project d) (\<lambda>v.
                if \<not> valid_evidence v then Inl (RuntimeError ''plugin evidence projection is invalid'')
                else let evidence = narrowed (dget d ''_evidence'') (dict_of v)
                 in if hit \<noteq> None
                    then Inr (receipt env src arguments evidence, Some ''tool.plugin.cache_hit'', s)
                    else rbind (record_evidence env src arguments (PDict (put ''_evidence'' (PDict evidence) d)) s) (\<lambda>s'.
                           Inr (receipt env src arguments evidence, Some ''tool.evidence.saved'', s')))
          | _ \<Rightarrow> Inl AttributeError))"

definition wrap_executor :: "ev_env \<Rightarrow> source_id set \<Rightarrow> projection \<Rightarrow> source_id \<Rightarrow> string \<Rightarrow> source_call \<Rightarrow>
    string \<Rightarrow> string option \<Rightarrow> py \<Rightarrow> ev_store \<Rightarrow> (py \<times> string option \<times> ev_store) res" where
  "wrap_executor env bindings project src side_effect executor tool_key call_id arguments s =
     (case project src of
        Some f \<Rightarrow>
          if src \<notin> bindings \<or> side_effect \<noteq> ''none''
          then rbind (executor arguments) (\<lambda>v. Inr (v, None, s))
          else invoke env src f executor tool_key call_id arguments s
      | None \<Rightarrow> rbind (executor arguments) (\<lambda>v. Inr (v, None, s)))"

definition unread_check :: pydict where
  "unread_check =
     [(''code'', PStr ''tool_evidence_unread''),
      (''message'', PStr ''Source evidence has unread records.''),
      (''recovery'', PStr ''Call read_tool_evidence() and follow next_page until read_progress.complete, then update affected output files and retry delivery.'')]"

definition completion_checks :: "ev_env \<Rightarrow> ev_store \<Rightarrow> pydict list res" where
  "completion_checks env s =
     (if \<not> has_evidence s then Inr []
      else rbind (store_material s) (\<lambda>m.
           rbind (read_progress env m None True s) (\<lambda>(p, _).
             Inr (if pg_complete p then [] else [unread_check]))))"

definition completeness :: "bool \<Rightarrow> py" where
  "completeness b = PStr (if b then ''complete'' else ''incomplete'')"

definition extension_evidence :: "ev_env \<Rightarrow> ev_store \<Rightarrow> pydict res" where
  "extension_evidence env s =
     (if \<not> has_evidence s then Inr []
      else rbind (store_material s) (\<lambda>m.
           rbind (read_progress env m None True s) (\<lambda>(p, _).
             Inr [(''plugin_evidence'', PDict [(''tool-results'',
                     PDict (put ''read_progress'' (progress_py p) (dict_of (material_py m))))]),
                  (''review_replacements'', PDict (map (\<lambda>name. (name, PStr ''tool-results''))
                     (keep_first (''read_tool_evidence'' # map (si_tool \<circ> sr_source) (ma_sources m))))),
                  (''evidence_completeness'', completeness (ma_complete m)),
                  (''review_completeness'', completeness (pg_complete p))])))"

end
