(* ===== verification/Evidence_Paging.thy ===== *)
theory Evidence_Paging
  imports Tool_Evidence
begin

text \<open>
  What the evidence reader promises: consumed ranges are kept exactly, the review of a snapshot
  is complete only when every record was handed out, paging reaches the end, every page fits,
  and a saved snapshot answers a repeated source request.
\<close>

section \<open>Ranges\<close>

definition range_points :: "page list \<Rightarrow> int set" where
  "range_points rs = (\<Union>(s, e) \<in> set rs. {s..<e})"

lemma range_points_simps [simp]:
  "range_points [] = {}"
  "range_points ((s, e) # rs) = {s..<e} \<union> range_points rs"
  "range_points (rs @ ts) = range_points rs \<union> range_points ts"
  "range_points (rev rs) = range_points rs"
  by (auto simp: range_points_def)

lemma range_points_I: "(a, b) \<in> set rs \<Longrightarrow> a \<le> i \<Longrightarrow> i < b \<Longrightarrow> i \<in> range_points rs"
  unfolding range_points_def by (rule UN_I [of "(a, b)"]) auto

definition wf_ranges :: "page list \<Rightarrow> bool" where
  "wf_ranges rs \<longleftrightarrow> (\<forall>(a, b) \<in> set rs. 0 \<le> a \<and> a \<le> b) \<and> sorted_wrt (\<lambda>p q. snd p < fst q) rs"

lemma wf_ranges_Nil [simp]: "wf_ranges []"
  by (simp add: wf_ranges_def)

lemma merge_ranges_sound:
  assumes "wf_ranges (rev acc)" "sorted rs" "\<forall>(a, b) \<in> set rs. 0 \<le> a \<and> a \<le> b"
    and "\<forall>(a, b) \<in> set acc. \<forall>(s, e) \<in> set rs. a \<le> s"
  shows "wf_ranges (merge_ranges acc rs) \<and> range_points (merge_ranges acc rs) = range_points acc \<union> range_points rs"
  using assms
proof (induction acc rs rule: merge_ranges.induct)
  case (1 merged)
  then show ?case by simp
next
  case (2 r rs)
  obtain s e where r: "r = (s, e)" by (cases r)
  have le: "\<forall>(a, b) \<in> set [r]. \<forall>(s, e) \<in> set rs. a \<le> s"
    using 2(3) by (auto simp: r less_eq_prod_def)
  have "wf_ranges (merge_ranges [r] rs) \<and> range_points (merge_ranges [r] rs) = range_points [r] \<union> range_points rs"
    by (rule 2(1)) (use 2 le in \<open>auto simp: wf_ranges_def\<close>)
  then show ?case by (simp add: r)
next
  case (3 a b merged s e rs)
  have later: "\<forall>(s', e') \<in> set rs. s \<le> s'" using 3(4) by (auto simp: less_eq_prod_def)
  have as: "a \<le> s" using 3(6) by auto
  have se: "0 \<le> s" "s \<le> e" using 3(5) by auto
  have ab: "a \<le> b" "0 \<le> a" using 3(3) by (auto simp: wf_ranges_def)
  have pre: "\<forall>p \<in> set merged. snd p < a" using 3(3) by (auto simp: wf_ranges_def sorted_wrt_append)
  have wfm: "wf_ranges (rev merged)" using 3(3) by (auto simp: wf_ranges_def sorted_wrt_append)
  show ?case
  proof (cases "s \<le> b")
    case True
    have "wf_ranges (rev ((a, max b e) # merged))"
      using wfm pre ab by (auto simp: wf_ranges_def sorted_wrt_append)
    moreover have "\<forall>(a', b') \<in> set ((a, max b e) # merged). \<forall>(s', e') \<in> set rs. a' \<le> s'"
      using 3(6) by auto
    ultimately have "wf_ranges (merge_ranges ((a, max b e) # merged) rs) \<and>
        range_points (merge_ranges ((a, max b e) # merged) rs) = range_points ((a, max b e) # merged) \<union> range_points rs"
      using 3(1) [OF True] 3(4,5) by auto
    moreover have "{a..<max b e} = {a..<b} \<union> {s..<e}" using True as by auto
    ultimately show ?thesis using True by auto
  next
    case False
    have "wf_ranges (rev ((s, e) # (a, b) # merged))"
      using 3(3) pre ab se False by (auto simp: wf_ranges_def sorted_wrt_append)
    moreover have "\<forall>(a', b') \<in> set ((s, e) # (a, b) # merged). \<forall>(s', e') \<in> set rs. a' \<le> s'"
      using 3(6) later by auto
    ultimately have "wf_ranges (merge_ranges ((s, e) # (a, b) # merged) rs) \<and>
        range_points (merge_ranges ((s, e) # (a, b) # merged) rs) = range_points ((s, e) # (a, b) # merged) \<union> range_points rs"
      using 3(2) [OF False] 3(4,5) by auto
    then show ?thesis using False by auto
  qed
qed

lemma note_page_ranges:
  assumes "wf_ranges (rv_ranges rv)" "0 \<le> start" "start \<le> stop"
  shows "wf_ranges (rv_ranges (note_page (start, stop) rv))"
    "range_points (rv_ranges (note_page (start, stop) rv)) = range_points (rv_ranges rv) \<union> {start..<stop}"
proof -
  let ?rs = "sort (rv_ranges rv @ [(start, stop)])"
  have "wf_ranges (merge_ranges [] ?rs) \<and> range_points (merge_ranges [] ?rs) = range_points [] \<union> range_points ?rs"
    by (rule merge_ranges_sound) (use assms in \<open>auto simp: wf_ranges_def\<close>)
  moreover have "range_points ?rs = range_points (rv_ranges rv) \<union> {start..<stop}"
    by (auto simp: range_points_def)
  ultimately show "wf_ranges (rv_ranges (note_page (start, stop) rv))"
    "range_points (rv_ranges (note_page (start, stop) rv)) = range_points (rv_ranges rv) \<union> {start..<stop}"
    by (simp_all add: note_page_def)
qed

text \<open>The cursor is the first index that was not handed out.\<close>

lemma cursor_from_mono: "c \<le> cursor_from c rs"
  by (induction c rs rule: cursor_from.induct) auto

lemma cursor_from_exact:
  assumes "wf_ranges rs"
  shows "{c..<cursor_from c rs} \<subseteq> range_points rs \<and> cursor_from c rs \<notin> range_points (filter (\<lambda>r. c \<le> snd r) rs)"
  using assms
proof (induction c rs rule: cursor_from.induct)
  case (1 c)
  then show ?case by simp
next
  case (2 c s e rs)
  have tail: "wf_ranges rs" and later: "\<forall>r \<in> set rs. e < fst r" and se: "s \<le> e"
    using 2(2) by (auto simp: wf_ranges_def)
  show ?case
  proof (cases "s > c")
    case True
    have "c \<notin> range_points rs" using later True se by (auto simp: range_points_def)
    then have "c \<notin> range_points (filter (\<lambda>r. c \<le> snd r) rs)" by (auto simp: range_points_def)
    then show ?thesis using True by auto
  next
    case False
    have IH: "{max c e..<cursor_from (max c e) rs} \<subseteq> range_points rs"
      "cursor_from (max c e) rs \<notin> range_points (filter (\<lambda>r. max c e \<le> snd r) rs)"
      using 2(1) [OF False tail] by auto
    have sub: "{c..<cursor_from (max c e) rs} \<subseteq> {s..<e} \<union> range_points rs"
    proof
      fix i assume "i \<in> {c..<cursor_from (max c e) rs}"
      then show "i \<in> {s..<e} \<union> range_points rs"
        using IH(1) False by (cases "i < e") (auto simp: subset_iff)
    qed
    have le: "max c e \<le> cursor_from (max c e) rs" by (rule cursor_from_mono)
    have "\<not> (a \<le> cursor_from (max c e) rs \<and> cursor_from (max c e) rs < b)" if "(a, b) \<in> set rs" for a b
    proof
      assume in_ab: "a \<le> cursor_from (max c e) rs \<and> cursor_from (max c e) rs < b"
      then have "(a, b) \<in> set (filter (\<lambda>r. max c e \<le> snd r) rs)" using that le by simp
      with in_ab IH(2) show False using range_points_I by blast
    qed
    then have "cursor_from (max c e) rs \<notin> range_points (filter (\<lambda>r. c \<le> snd r) rs)"
      by (auto simp: range_points_def)
    then show ?thesis using False sub le by auto
  qed
qed

lemma cursor_exact:
  assumes "wf_ranges rs"
  shows "{0..<cursor_from 0 rs} \<subseteq> range_points rs" "cursor_from 0 rs \<notin> range_points rs"
proof -
  have "filter (\<lambda>r. 0 \<le> snd r) rs = rs"
    using assms by (auto simp: wf_ranges_def filter_id_conv)
  then show "{0..<cursor_from 0 rs} \<subseteq> range_points rs" "cursor_from 0 rs \<notin> range_points rs"
    using cursor_from_exact [OF assms, of 0] by simp_all
qed

lemma first_after_gt: "first_after c rs = Some s \<Longrightarrow> c < s"
  by (induction c rs rule: first_after.induct) (auto split: if_splits)

lemma cursor_from_cover:
  assumes "wf_ranges rs" "{0..<n} \<subseteq> range_points rs"
  shows "n \<le> cursor_from 0 rs"
  using cursor_exact [OF assms(1)] assms(2) cursor_from_mono [of 0 rs]
  by (meson atLeastLessThan_iff linorder_not_le subsetD)

section \<open>Progress\<close>

lemma progress_complete_iff:
  assumes "wf_ranges (rv_ranges rv)"
  shows "pg_complete (progress_of d n rv) \<longleftrightarrow> rv_read rv \<and> {0..<n} \<subseteq> range_points (rv_ranges rv)"
proof -
  have "cursor_from 0 (rv_ranges rv) \<ge> n \<longleftrightarrow> {0..<n} \<subseteq> range_points (rv_ranges rv)"
    using cursor_exact(1) [OF assms] cursor_from_cover [OF assms, of n] by (auto simp: subset_iff)
  then show ?thesis by (simp add: progress_of_def Let_def)
qed

definition review_ok :: "ev_store \<Rightarrow> bool" where
  "review_ok s \<longleftrightarrow> (\<forall>d rv. ev_review s d = Some rv \<longrightarrow> wf_ranges (rv_ranges rv) \<and> rv_snapshot rv = d \<and> rv_read rv)"

lemma stored_review_ok: "review_ok s \<Longrightarrow> wf_ranges (rv_ranges (stored_review d s))"
  by (auto simp: review_ok_def stored_review_def fresh_review_def split: option.split)

lemma read_progress_Inr:
  "read_progress env m pg persist s = Inr (p, s') \<longleftrightarrow>
     \<not> linked env \<and>
     p = progress_of (material_digest env m) (total_records m)
           (case pg of None \<Rightarrow> stored_review (material_digest env m) s
                     | Some r \<Rightarrow> note_page r (stored_review (material_digest env m) s)) \<and>
     s' = (case pg of Some r \<Rightarrow> if persist
              then s\<lparr>ev_review := (ev_review s)(material_digest env m \<mapsto>
                       note_page r (stored_review (material_digest env m) s))\<rparr> else s
           | None \<Rightarrow> s)"
  by (auto simp: read_progress_def Let_def split: option.splits)

lemma rv_snapshot_stored [simp]: "rv_snapshot (stored_review d s) = d"
  by (simp add: stored_review_def fresh_review_def split: option.split)

lemma rv_note [simp]: "rv_snapshot (note_page r rv) = rv_snapshot rv" "rv_read (note_page r rv)"
  by (simp_all add: note_page_def)

lemma stored_review_set [simp]:
  "rv_snapshot rv = d \<Longrightarrow> stored_review d (s\<lparr>ev_review := (ev_review s)(d \<mapsto> rv)\<rparr>) = rv"
  by (simp add: stored_review_def)


section \<open>One page\<close>

text \<open>The page \<open>[start, stop)\<close> as it is rendered, with the progress it leaves.\<close>

definition rendered :: "ev_env \<Rightarrow> material \<Rightarrow> ev_store \<Rightarrow> int \<Rightarrow> int \<Rightarrow> int \<Rightarrow> py" where
  "rendered env m s start limit stop =
     page_reply env m
       (progress_of (material_digest env m) (total_records m)
          (note_page (start, stop) (stored_review (material_digest env m) s)))
       start stop limit"

lemma probe_eq:
  "probe env m s start limit stop (lower, upper, best) =
     (if linked env then Inl ValueError
      else if too_long env (rendered env m s start limit stop) then Inr (lower, stop - 1, best)
      else Inr (stop + 1, upper, Some (stop, rendered env m s start limit stop)))"
  by (simp add: probe_def read_progress_def rendered_def Let_def)

definition fits :: "ev_env \<Rightarrow> material \<Rightarrow> ev_store \<Rightarrow> int \<Rightarrow> int \<Rightarrow> int \<Rightarrow> int \<times> py \<Rightarrow> bool" where
  "fits env m s start limit bound b \<longleftrightarrow>
     start \<le> fst b \<and> fst b \<le> bound \<and> snd b = rendered env m s start limit (fst b) \<and> \<not> too_long env (snd b)"

lemma search_page_keeps:
  assumes "search_page env m s start limit (lower, upper, best) = Inr r"
    and "low \<le> lower" "upper \<le> high" "pred_option Q best"
    and new: "\<And>stop. low \<le> stop \<Longrightarrow> stop \<le> high \<Longrightarrow> \<not> too_long env (rendered env m s start limit stop) \<Longrightarrow>
        Q (stop, rendered env m s start limit stop)"
  shows "pred_option Q r"
  using assms(1-4)
proof (induction "nat (upper + 1 - lower)" arbitrary: lower upper best rule: less_induct)
  case less
  let ?mid = "(lower + upper) div 2"
  show ?case
  proof (cases "lower > upper")
    case True
    then show ?thesis using less.prems by (simp add: search_page.simps)
  next
    case False
    then have mid: "lower \<le> ?mid" "?mid \<le> upper" by auto
    show ?thesis
    proof (cases "linked env")
      case True
      then show ?thesis using less.prems(1) False by (subst (asm) search_page.simps) (simp add: probe_eq)
    next
      case nl: False
      show ?thesis
      proof (cases "too_long env (rendered env m s start limit ?mid)")
        case True
        then have eq: "search_page env m s start limit (lower, ?mid - 1, best) = Inr r"
          using less.prems(1) False nl by (subst (asm) search_page.simps) (simp add: probe_eq)
        show ?thesis
          by (rule less.hyps [OF _ eq]) (use less.prems mid in auto)
      next
        case fit: False
        then have eq: "search_page env m s start limit
            (?mid + 1, upper, Some (?mid, rendered env m s start limit ?mid)) = Inr r"
          using less.prems(1) False nl by (subst (asm) search_page.simps) (simp add: probe_eq)
        show ?thesis
          by (rule less.hyps [OF _ eq]) (use less.prems mid fit new [of ?mid] in auto)
      qed
    qed
  qed
qed

lemma search_page_sound:
  assumes "search_page env m s start limit (lower, upper, best) = Inr r"
    and "start < lower" "upper \<le> bound" "pred_option (fits env m s start limit bound) best"
  shows "pred_option (fits env m s start limit bound) r"
  by (rule search_page_keeps [OF assms(1) order_refl assms(3,4)]) (use assms(2) in \<open>auto simp: fits_def\<close>)

lemma search_page_low:
  assumes "search_page env m s start limit (lower, upper, None) = Inr (Some b)"
  shows "lower \<le> fst b"
  using search_page_keeps [OF assms order_refl order_refl, of "\<lambda>b. lower \<le> fst b"] by simp

text \<open>The search only gives up when the smallest page it may try does not fit.\<close>

lemma search_page_complete:
  assumes "\<not> linked env" "\<not> too_long env (rendered env m s start limit lower)" "lower \<le> upper \<or> best \<noteq> None"
  shows "\<exists>b. search_page env m s start limit (lower, upper, best) = Inr (Some b)"
proof -
  have grown: "\<exists>b. search_page env m s start limit (lo, hi, Some b') = Inr (Some b)" for lo hi b'
  proof (induction "nat (hi + 1 - lo)" arbitrary: lo hi b' rule: less_induct)
    case less
    then show ?case
      by (subst search_page.simps) (use assms(1) in \<open>auto simp: probe_eq\<close>)
  qed
  show ?thesis
    using assms(3)
  proof (induction "nat (upper + 1 - lower)" arbitrary: upper best rule: less_induct)
    case less
    let ?mid = "(lower + upper) div 2"
    show ?case
    proof (cases best)
      case (Some b)
      then show ?thesis using grown by simp
    next
      case None
      then have le: "lower \<le> upper" using less.prems by simp
      then have mid: "lower \<le> ?mid" "?mid \<le> upper" by auto
      show ?thesis
      proof (cases "too_long env (rendered env m s start limit ?mid)")
        case True
        then have "lower \<noteq> ?mid" using assms(2) by auto
        then have "\<exists>b. search_page env m s start limit (lower, ?mid - 1, best) = Inr (Some b)"
          by (intro less.hyps) (use mid in auto)
        then show ?thesis
          using True le assms(1) by (subst search_page.simps) (simp add: probe_eq)
      next
        case False
        then show ?thesis
          using grown le assms(1) by (subst search_page.simps) (simp add: probe_eq)
      qed
    qed
  qed
qed

lemma search_page_returns: "\<not> linked env \<Longrightarrow> \<exists>r. search_page env m s start limit st = Inr r"
proof (induction env m s start limit st rule: search_page.induct)
  case (1 env m s start limit st)
  obtain lo hi best where st: "st = (lo, hi, best)" by (cases st)
  show ?case
    using 1 unfolding st by (subst search_page.simps) (auto simp: probe_eq)
qed

lemma page_end_bounds:
  assumes "0 \<le> start" "start \<le> total_records m" "1 \<le> limit"
    and "p = progress_of d (total_records m) rv"
  shows "start \<le> page_end m p start limit" "page_end m p start limit \<le> total_records m"
    "page_end m p start limit \<le> start + limit"
    "start < total_records m \<Longrightarrow> start < page_end m p start limit"
  using assms first_after_gt [of "cursor_from 0 (rv_ranges rv)" "rv_ranges rv"]
  by (auto simp: page_end_def progress_of_def Let_def min_def split: option.splits if_splits)

definition mark_page :: "ev_env \<Rightarrow> material \<Rightarrow> page \<Rightarrow> ev_store \<Rightarrow> ev_store" where
  "mark_page env m pg s =
     s\<lparr>ev_review := (ev_review s)(material_digest env m \<mapsto> note_page pg (stored_review (material_digest env m) s))\<rparr>"

lemma read_page_cases:
  assumes "read_page env start limit m p s = Inr (v, s')"
    and "0 \<le> start" "start \<le> total_records m" "1 \<le> limit" "p = progress_of d (total_records m) rv"
  obtains "v = refusal ''TOOL_EVIDENCE_PAGE_TOO_LARGE''" "s' = s"
  | stop where "start \<le> stop" "stop \<le> total_records m" "stop \<le> start + limit"
      "v = rendered env m s start limit stop" "\<not> too_long env v" "s' = mark_page env m (start, stop) s"
proof -
  let ?upto = "page_end m p start limit"
  note ends = page_end_bounds [OF assms(2-5)]
  obtain st best where pr: "probe env m s start limit ?upto (start + 1, ?upto, None) = Inr st"
    and se: "search_page env m s start limit st = Inr best"
    and out: "(case best of None \<Rightarrow> Inr (refusal ''TOOL_EVIDENCE_PAGE_TOO_LARGE'', s)
        | Some (stop, reply) \<Rightarrow> rbind (read_progress env m (Some (start, stop)) True s) (\<lambda>(_, s'). Inr (reply, s')))
       = Inr (v, s')"
    using assms(1) by (auto simp: read_page_def Let_def rbind_Inr_iff)
  have "pred_option (fits env m s start limit ?upto) best"
  proof (cases "too_long env (rendered env m s start limit ?upto)")
    case True
    then have "st = (start + 1, ?upto - 1, None)"
      using pr by (auto simp: probe_eq split: if_splits)
    then show ?thesis
      using search_page_sound [OF se [unfolded \<open>st = _\<close>], of ?upto] by simp
  next
    case False
    then have st: "st = (?upto + 1, ?upto, Some (?upto, rendered env m s start limit ?upto))"
      using pr by (auto simp: probe_eq split: if_splits)
    show ?thesis
      by (rule search_page_sound [OF se [unfolded st], of ?upto]) (use ends False in \<open>auto simp: fits_def\<close>)
  qed
  note found = this
  show ?thesis
  proof (cases best)
    case None
    then show ?thesis using out by (intro that(1)) simp_all
  next
    case (Some b)
    obtain stop reply where b: "b = (stop, reply)" by (cases b)
    have "fits env m s start limit ?upto (stop, reply)" using found by (simp add: Some b)
    then have fit: "start \<le> stop" "stop \<le> ?upto" "reply = rendered env m s start limit stop" "\<not> too_long env reply"
      unfolding fits_def fst_conv snd_conv by blast+
    have "v = reply" "s' = mark_page env m (start, stop) s"
      using out by (auto simp: Some b rbind_Inr_iff read_progress_Inr mark_page_def)
    then show ?thesis
      by (intro that(2) [of stop]) (use fit ends in auto)
  qed
qed


section \<open>Histories\<close>

text \<open>The records a reply hands to the agent.\<close>

definition shown_records :: "py \<Rightarrow> py list" where
  "shown_records v =
     (case v of
        PDict d \<Rightarrow> if dget d ''ok'' = PBool True
                   then (case dget d ''records'' of PList rs \<Rightarrow> rs | _ \<Rightarrow> []) else []
      | _ \<Rightarrow> [])"

datatype ev_op =
    ReadEvidence py py "string list option"
  | SourceCall source_id string source_call string "string option" py

fun ev_step :: "ev_env \<Rightarrow> source_id set \<Rightarrow> projection \<Rightarrow> py list \<times> ev_store \<Rightarrow> ev_op \<Rightarrow> py list \<times> ev_store" where
  "ev_step env bindings project (shown, s) (ReadEvidence offset limit ids) =
     (case read_tool_evidence env offset limit ids s of
        Inl _ \<Rightarrow> (shown, s)
      | Inr (v, s') \<Rightarrow> (shown @ shown_records v, s'))"
| "ev_step env bindings project (shown, s) (SourceCall src side_effect executor tool_key call_id arguments) =
     (case wrap_executor env bindings project src side_effect executor tool_key call_id arguments s of
        Inl _ \<Rightarrow> (shown, s)
      | Inr (v, ev, s') \<Rightarrow> (shown, s'))"

lemma shown_refusal [simp]: "shown_records (refusal c) = []"
  by (simp add: shown_records_def refusal_def)

lemma shown_rendered:
  "shown_records (rendered env m s start limit stop) =
     map PDict (take (nat stop - nat start) (drop (nat start) (ma_records m)))"
  by (simp add: rendered_def page_reply_def page_payload_def shown_records_def Let_def)

definition seen :: "ev_env \<Rightarrow> material \<Rightarrow> py list \<times> ev_store \<Rightarrow> bool" where
  "seen env m st \<longleftrightarrow> review_ok (snd st) \<and>
     (\<forall>rv i. ev_review (snd st) (material_digest env m) = Some rv \<longrightarrow> i \<in> range_points (rv_ranges rv) \<longrightarrow>
        0 \<le> i \<longrightarrow> i < total_records m \<longrightarrow> PDict (ma_records m ! nat i) \<in> set (fst st))"

lemma review_ok_mark_page:
  "review_ok s \<Longrightarrow> 0 \<le> start \<Longrightarrow> start \<le> stop \<Longrightarrow> review_ok (mark_page env m (start, stop) s)"
  using note_page_ranges(1) [OF stored_review_ok]
  by (auto simp: mark_page_def review_ok_def)

lemma range_points_stored:
  "i \<in> range_points (rv_ranges (stored_review d s)) \<Longrightarrow> \<exists>rv. ev_review s d = Some rv \<and> i \<in> range_points (rv_ranges rv)"
  by (auto simp: stored_review_def fresh_review_def split: option.splits if_splits)

lemma seen_mark_page:
  assumes "seen env m (shown, s)" "0 \<le> start" "start \<le> stop"
    and same: "material_digest env m' = material_digest env m \<Longrightarrow> m' = m"
    and new: "\<And>i. start \<le> i \<Longrightarrow> i < stop \<Longrightarrow> i < total_records m' \<Longrightarrow> PDict (ma_records m' ! nat i) \<in> set new"
  shows "seen env m (shown @ new, mark_page env m' (start, stop) s)"
proof (cases "material_digest env m' = material_digest env m")
  case False
  then show ?thesis
    using assms(1) review_ok_mark_page [OF _ assms(2,3)] by (auto simp: seen_def mark_page_def)
next
  case True
  then have m': "m' = m" by (rule same)
  have ok: "review_ok s" using assms(1) by (simp add: seen_def)
  have "PDict (ma_records m ! nat i) \<in> set (shown @ new)"
    if "i \<in> range_points (rv_ranges (note_page (start, stop) (stored_review (material_digest env m) s)))"
      "0 \<le> i" "i < total_records m" for i
  proof -
    from that(1) have "i \<in> range_points (rv_ranges (stored_review (material_digest env m) s)) \<or> (start \<le> i \<and> i < stop)"
      using note_page_ranges(2) [OF stored_review_ok [OF ok] assms(2,3)] by auto
    then show ?thesis
    proof
      assume "i \<in> range_points (rv_ranges (stored_review (material_digest env m) s))"
      then show ?thesis using range_points_stored assms(1) that(2,3) by (fastforce simp: seen_def)
    qed (use new that(3) m' in auto)
  qed
  then show ?thesis
    using review_ok_mark_page [OF ok assms(2,3)] by (simp add: seen_def m' mark_page_def)
qed

lemma slice_has:
  assumes "0 \<le> start" "start \<le> i" "i < stop" "nat i < length rs"
  shows "PDict (rs ! nat i) \<in> set (map PDict (take (nat stop - nat start) (drop (nat start) rs)))"
proof -
  have "drop (nat start) rs ! (nat i - nat start) = rs ! nat i" using assms by simp
  moreover have "nat i - nat start < length (take (nat stop - nat start) (drop (nat start) rs))"
    using assms by auto
  ultimately have "rs ! nat i \<in> set (take (nat stop - nat start) (drop (nat start) rs))"
    by (metis nth_mem nth_take length_take min_less_iff_conj)
  then show ?thesis by simp
qed

lemma seen_more: "seen env m (shown, s) \<Longrightarrow> seen env m (shown @ new, s)"
  by (auto simp: seen_def)

text \<open>Reading by identifier marks one page per record.\<close>

lemma read_records_fold:
  assumes "foldl (\<lambda>acc (i, r). rbind acc (\<lambda>(_, s'). read_progress env m' (Some (int i, int i + 1)) True s'))
      (Inr (p, s)) selected = Inr (p', s')"
    and "seen env m (shown, s)" "\<And>m'. material_digest env m' = material_digest env m \<Longrightarrow> m' = m"
    and "\<forall>(i, r) \<in> set selected. r = ma_records m' ! i"
  shows "seen env m (shown @ map (PDict \<circ> snd) selected, s')"
  using assms
proof (induction selected arbitrary: p s shown)
  case Nil
  then show ?case by simp
next
  case (Cons ir selected)
  obtain i r where ir: "ir = (i, r)" by (cases ir)
  have stays: "foldl (\<lambda>acc (i, r). rbind acc (\<lambda>(_, s'). read_progress env m' (Some (int i, int i + 1)) True s'))
      (Inl e) xs = Inl e" for e and xs :: "(nat \<times> pydict) list"
    by (induction xs) auto
  obtain p1 s1 where one: "read_progress env m' (Some (int i, int i + 1)) True s = Inr (p1, s1)"
    using Cons.prems(1) by (cases "read_progress env m' (Some (int i, int i + 1)) True s") (auto simp: ir stays)
  then have s1: "s1 = mark_page env m' (int i, int i + 1) s"
    by (simp add: read_progress_Inr mark_page_def)
  have "seen env m (shown @ [PDict r], s1)"
    unfolding s1
    by (rule seen_mark_page [OF Cons.prems(2)])
       (use Cons.prems(3,4) in \<open>auto simp: ir dest: zless_add1_eq [THEN iffD1] intro: antisym\<close>)
  then have "seen env m ((shown @ [PDict r]) @ map (PDict \<circ> snd) selected, s')"
    by (rule Cons.IH [rotated]) (use Cons.prems(1,3,4) one in \<open>auto simp: ir\<close>)
  then show ?case by (simp add: ir comp_def)
qed


lemma read_tool_evidence_Inr:
  assumes "read_tool_evidence env offset limit ids s = Inr (v, s')"
  obtains "s' = s" "shown_records v = []"
  | m p l rids where "store_material s = Inr m" "read_progress env m None True s = Inr (p, s)"
      "limit = PInt l" "1 \<le> l" "l \<le> 100" "ids = Some rids" "read_records env rids m p s = Inr (v, s')"
  | m p l start where "store_material s = Inr m" "read_progress env m None True s = Inr (p, s)"
      "limit = PInt l" "1 \<le> l" "l \<le> 100" "ids = None" "page_start m p offset = PInt start"
      "0 \<le> start" "start \<le> total_records m" "read_page env start l m p s = Inr (v, s')"
proof (cases "has_evidence s")
  case False
  then show ?thesis using assms by (intro that(1)) (auto simp: read_tool_evidence_def)
next
  case True
  obtain m p where m: "store_material s = Inr m" and p: "read_progress env m None True s = Inr (p, s)"
    and rest: "read_tool_evidence env offset limit ids s = Inr (v, s')"
    using assms True by (auto simp: read_tool_evidence_def rbind_Inr_iff read_progress_Inr)
  show ?thesis
  proof (cases "\<exists>l. limit = PInt l \<and> 1 \<le> l \<and> l \<le> 100")
    case False
    then show ?thesis
      using rest True m p by (intro that(1)) (auto simp: read_tool_evidence_def split: py.splits if_splits)
  next
    case valid: True
    then obtain l where l: "limit = PInt l" "1 \<le> l" "l \<le> 100" by blast
    show ?thesis
    proof (cases ids)
      case (Some rids)
      then show ?thesis
        using rest True m p l by (cases "offset \<noteq> PNone \<or> rids = [] \<or> length rids > 100")
          (auto simp: read_tool_evidence_def intro: that(1) that(2))
    next
      case None
      then show ?thesis
        using rest True m p l
        by (cases "page_start m p offset")
           (auto simp: read_tool_evidence_def split: if_splits intro: that(1) that(3))
    qed
  qed
qed

lemma enumerate_nth: "(i, r) \<in> set (enumerate 0 rs) \<Longrightarrow> r = rs ! i"
  by (auto simp: in_set_enumerate_eq)

lemma seen_read:
  assumes "read_tool_evidence env offset limit ids s = Inr (v, s')" "seen env m (shown, s)"
    and same: "\<And>m'. material_digest env m' = material_digest env m \<Longrightarrow> m' = m"
  shows "seen env m (shown @ shown_records v, s')"
  using assms(1)
proof (cases rule: read_tool_evidence_Inr)
  case 1
  then show ?thesis using assms(2) by simp
next
  case (2 m' p l rids)
  let ?sel = "filter (\<lambda>(i, r). (case dget r ''evidence_id'' of PStr t \<Rightarrow> t \<in> set rids | _ \<Rightarrow> False))
                (enumerate 0 (ma_records m'))"
  have sel: "\<forall>(i, r) \<in> set ?sel. r = ma_records m' ! i" by (auto dest: enumerate_nth)
  show ?thesis
  proof (cases "s' = s \<and> shown_records v = []")
    case True
    then show ?thesis using assms(2) by simp
  next
    case False
    obtain p' where fold: "foldl (\<lambda>acc (i, r). rbind acc (\<lambda>(_, s'). read_progress env m' (Some (int i, int i + 1)) True s'))
        (Inr (p, s)) ?sel = Inr (p', s')"
      and v: "v = PDict (put ''read_progress'' (progress_py p')
        [(''ok'', PBool True), (''records'', PList (map (PDict \<circ> snd) ?sel)), (''read_progress'', progress_py p)])"
      using 2(7) False
      by (auto simp: read_records_def Let_def rbind_Inr_iff shown_records_def refusal_def split: if_splits)
    have "shown_records v = map (PDict \<circ> snd) ?sel" by (simp add: v shown_records_def)
    then show ?thesis using read_records_fold [OF fold assms(2) same sel] by simp
  qed
next
  case (3 m' p l start)
  have "p = progress_of (material_digest env m') (total_records m') (stored_review (material_digest env m') s)"
    using 3(2) by (simp add: read_progress_Inr)
  from 3(10,8,9,4) this show ?thesis
  proof (cases rule: read_page_cases)
    case 1
    then show ?thesis using assms(2) by simp
  next
    case (2 stop)
    show ?thesis
      unfolding 2(4,6) shown_rendered
      by (rule seen_mark_page [OF assms(2) 3(8) 2(1) same])
         (use 3(8) slice_has [of start _ stop "ma_records m'"] in \<open>auto simp: total_records_def\<close>)
  qed
qed

lemma record_evidence_review: "record_evidence env src a r s = Inr s' \<Longrightarrow> ev_review s' = ev_review s"
  by (auto simp: record_evidence_def split: py.splits if_splits)

lemma wrap_executor_review:
  "wrap_executor env bd pj src se ex tk ci a s = Inr (v, ev, s') \<Longrightarrow> ev_review s' = ev_review s"
  by (auto simp: wrap_executor_def invoke_def Let_def rbind_Inr_iff record_evidence_review dict_case_Inr
           split: option.splits if_splits)

lemma seen_step:
  assumes "seen env m st" "\<And>m'. material_digest env m' = material_digest env m \<Longrightarrow> m' = m"
  shows "seen env m (ev_step env bd pj st op)"
proof (cases st)
  case (Pair shown s)
  show ?thesis
  proof (cases op)
    case (ReadEvidence offset limit ids)
    then show ?thesis using assms seen_read [OF _ assms(1) [unfolded Pair] assms(2)]
      by (auto simp: Pair split: sum.split)
  next
    case (SourceCall src se ex tk ci a)
    then show ?thesis using assms(1) wrap_executor_review
      by (auto simp: Pair seen_def review_ok_def split: sum.split)
  qed
qed

interpretation reader: step_invariant "ev_step env bd pj"
    "\<lambda>st. (\<forall>m'. material_digest env m' = material_digest env m \<longrightarrow> m' = m) \<longrightarrow> seen env m st"
  for env bd pj m
  by unfold_locales (auto intro: seen_step)



section \<open>Reading on\<close>

definition read_next :: "ev_env \<Rightarrow> int \<Rightarrow> ev_store \<Rightarrow> ev_store" where
  "read_next env limit s = or_same s (map_sum id snd (read_tool_evidence env PNone (PInt limit) None s))"

text \<open>Every page of at most one record fits the reply.\<close>

definition single_pages_fit :: "ev_env \<Rightarrow> material \<Rightarrow> int \<Rightarrow> bool" where
  "single_pages_fit env m limit \<longleftrightarrow>
     (\<forall>p start stop. 0 \<le> start \<longrightarrow> start \<le> stop \<longrightarrow> stop \<le> start + 1 \<longrightarrow> stop \<le> total_records m \<longrightarrow>
        \<not> too_long env (page_reply env m p start stop limit))"

lemma read_page_advances:
  assumes "\<not> linked env" "single_pages_fit env m limit"
    and "0 \<le> start" "start \<le> total_records m" "1 \<le> limit" "p = progress_of d (total_records m) rv"
  shows "\<exists>stop v. min (start + 1) (total_records m) \<le> stop \<and> start \<le> stop
           \<and> read_page env start limit m p s = Inr (v, mark_page env m (start, stop) s)"
proof -
  let ?upto = "page_end m p start limit"
  note ends = page_end_bounds [OF assms(3-6)]
  have small: "\<not> too_long env (rendered env m s start limit stop)"
    if "start \<le> stop" "stop \<le> start + 1" "stop \<le> total_records m" for stop
    using assms(2,3) that unfolding single_pages_fit_def rendered_def by blast
  have mark: "read_progress env m (Some (start, stop)) True s =
      Inr (progress_of (material_digest env m) (total_records m)
             (note_page (start, stop) (stored_review (material_digest env m) s)),
           mark_page env m (start, stop) s)" for stop
    using assms(1) by (auto simp: read_progress_Inr mark_page_def)
  show ?thesis
  proof (cases "start < total_records m")
    case False
    then have eq: "?upto = start" "start = total_records m" using ends assms(4) by auto
    have "search_page env m s start limit (start + 1, start, Some (start, rendered env m s start limit start))
        = Inr (Some (start, rendered env m s start limit start))"
      by (simp add: search_page.simps)
    then show ?thesis
      using small [of start] eq assms(1) mark
      by (intro exI [of _ start] exI [of _ "rendered env m s start limit start"])
         (auto simp: read_page_def probe_eq Let_def)
  next
    case True
    then have below: "start + 1 \<le> ?upto" using ends by auto
    have fit1: "\<not> too_long env (rendered env m s start limit (start + 1))"
      using small [of "start + 1"] True by auto
    obtain b st where pr: "probe env m s start limit ?upto (start + 1, ?upto, None) = Inr st"
      and se: "search_page env m s start limit st = Inr (Some b)" and low: "start + 1 \<le> fst b"
    proof (cases "too_long env (rendered env m s start limit ?upto)")
      case True
      then have ne: "start + 1 \<le> ?upto - 1" using fit1 below by (cases "?upto = start + 1") auto
      then obtain b where "search_page env m s start limit (start + 1, ?upto - 1, None) = Inr (Some b)"
        using search_page_complete [OF assms(1) fit1, of "?upto - 1" None] by auto
      moreover have "start + 1 \<le> fst b"
        using search_page_low [OF calculation] by simp
      ultimately show ?thesis
        using that [of "(start + 1, ?upto - 1, None)" b] True assms(1) by (simp add: probe_eq)
    next
      case False
      have "search_page env m s start limit (?upto + 1, ?upto, Some (?upto, rendered env m s start limit ?upto))
          = Inr (Some (?upto, rendered env m s start limit ?upto))"
        by (simp add: search_page.simps)
      then show ?thesis
        using that [of "(?upto + 1, ?upto, Some (?upto, rendered env m s start limit ?upto))"] False assms(1) below
        by (simp add: probe_eq)
    qed
    obtain stop v where b: "b = (stop, v)" by (cases b)
    have "read_page env start limit m p s = Inr (v, mark_page env m (start, stop) s)"
      using pr se mark by (simp add: read_page_def b Let_def)
    then show ?thesis using low b True by (intro exI [of _ stop] exI [of _ v]) auto
  qed
qed

lemma mark_page_frame [simp]:
  "ev_entries (mark_page env m pg s) = ev_entries s"
  "has_evidence (mark_page env m pg s) = has_evidence s"
  "store_material (mark_page env m pg s) = store_material s"
  by (simp_all add: mark_page_def has_evidence_def store_material_def)

definition read_upto :: "ev_env \<Rightarrow> material \<Rightarrow> int \<Rightarrow> ev_store \<Rightarrow> bool" where
  "read_upto env m k s \<longleftrightarrow>
     {0..<min k (total_records m)} \<subseteq> range_points (rv_ranges (stored_review (material_digest env m) s))"

lemma read_next_step:
  assumes "\<not> linked env" "single_pages_fit env m limit" "1 \<le> limit" "limit \<le> 100"
    and "has_evidence s" "store_material s = Inr m" "review_ok s" "read_upto env m k s"
  shows "\<exists>start stop. 0 \<le> start \<and> start \<le> stop \<and> read_next env limit s = mark_page env m (start, stop) s
           \<and> read_upto env m (k + 1) (read_next env limit s)"
proof -
  let ?d = "material_digest env m"
  let ?rv = "stored_review ?d s"
  let ?p = "progress_of ?d (total_records m) ?rv"
  let ?c = "cursor_from 0 (rv_ranges ?rv)"
  have wf: "wf_ranges (rv_ranges ?rv)" using assms(7) by (rule stored_review_ok)
  have total: "0 \<le> total_records m" by (simp add: total_records_def)
  have c0: "0 \<le> ?c" by (rule cursor_from_mono)
  have fresh: "rv_read ?rv \<or> rv_ranges ?rv = []"
    using assms(7) by (auto simp: stored_review_def fresh_review_def review_ok_def split: option.split)
  define start where "start = (if pg_complete ?p then total_records m else ?c)"
  have start: "page_start m ?p PNone = PInt start"
    by (simp add: page_start_def start_def opt_int_def progress_of_def Let_def)
  have range: "0 \<le> start" "start \<le> total_records m"
    using c0 total fresh by (auto simp: start_def progress_of_def Let_def)
  obtain stop v where stop: "min (start + 1) (total_records m) \<le> stop" "start \<le> stop"
    and read: "read_page env start limit m ?p s = Inr (v, mark_page env m (start, stop) s)"
    using read_page_advances [OF assms(1,2) range assms(3) refl] by blast
  have "read_progress env m None True s = Inr (?p, s)" using assms(1) by (simp add: read_progress_Inr)
  then have next_eq: "read_next env limit s = mark_page env m (start, stop) s"
    using assms(3-6) start range read by (simp add: read_next_def read_tool_evidence_def)
  have cov: "range_points (rv_ranges (stored_review ?d (mark_page env m (start, stop) s))) = range_points (rv_ranges ?rv) \<union> {start..<stop}"
    using note_page_ranges(2) [OF wf range(1) stop(2)] by (simp add: mark_page_def)
  have upto: "min k (total_records m) \<le> ?c"
    using assms(8) by (intro cursor_from_cover [OF wf]) (simp add: read_upto_def)
  have "{0..<min (k + 1) (total_records m)} \<subseteq> range_points (rv_ranges ?rv) \<union> {start..<stop}"
  proof (cases "?c \<ge> total_records m")
    case True
    then show ?thesis using cursor_exact(1) [OF wf] by (auto simp: subset_iff)
  next
    case False
    then have "start = ?c" by (simp add: start_def progress_of_def Let_def)
    then show ?thesis
      using cursor_exact(1) [OF wf] upto stop(1) False by (fastforce simp: subset_iff)
  qed
  then have "read_upto env m (k + 1) (mark_page env m (start, stop) s)"
    by (simp add: read_upto_def cov)
  then show ?thesis using next_eq range(1) stop(2) by auto
qed

lemma read_next_run:
  assumes "\<not> linked env" "single_pages_fit env m limit" "1 \<le> limit" "limit \<le> 100"
    and "has_evidence s" "store_material s = Inr m" "review_ok s"
  shows "read_upto env m (int n) ((read_next env limit ^^ n) s) \<and> review_ok ((read_next env limit ^^ n) s)
    \<and> has_evidence ((read_next env limit ^^ n) s) \<and> store_material ((read_next env limit ^^ n) s) = Inr m
    \<and> (n > 0 \<longrightarrow> rv_read (stored_review (material_digest env m) ((read_next env limit ^^ n) s)))"
proof (induction n)
  case 0
  then show ?case using assms by (simp add: read_upto_def)
next
  case (Suc n)
  let ?t = "(read_next env limit ^^ n) s"
  obtain start stop where pg: "0 \<le> start" "start \<le> stop" "read_next env limit ?t = mark_page env m (start, stop) ?t"
    and upto: "read_upto env m (int n + 1) (read_next env limit ?t)"
    using read_next_step [OF assms(1-4), of ?t "int n"] Suc.IH by blast
  have "rv_read (stored_review (material_digest env m) (mark_page env m (start, stop) ?t))"
    by (simp add: mark_page_def)
  then show ?case
    using Suc.IH pg upto review_ok_mark_page [of ?t start stop env m] by (simp add: add.commute)
qed



text \<open>Pages are bounded: a reply to a read by page or by offset that hands out any record is at most
  24000 characters long and holds at most as many records as were asked for, never more than 100.
\<close>

lemma evidence_page_is_bounded:
  assumes "read_tool_evidence env offset (PInt limit) None s = Inr (v, s')"
    and "shown_records v \<noteq> []"
  shows "length (compact env v) \<le> 24000 \<and> int (length (shown_records v)) \<le> limit \<and> limit \<le> 100"
  using assms(1)
proof (cases rule: read_tool_evidence_Inr)
  case (3 m p l start)
  have "p = progress_of (material_digest env m) (total_records m) (stored_review (material_digest env m) s)"
    using 3(2) by (simp add: read_progress_Inr)
  from 3(10,8,9,4) this show ?thesis
  proof (cases rule: read_page_cases)
    case (2 stop)
    have "int (length (shown_records v)) \<le> limit"
      unfolding 2(4) shown_rendered using 2(1-3) 3(3,8) by auto
    then show ?thesis using 2(5) 3(3,5) by (simp add: too_long_def MAX_EVIDENCE_PAGE_CHARS_def)
  qed (use assms(2) in simp)
qed (use assms(2) in auto)

section \<open>Saved snapshots\<close>

lemma dget_canon_dict: "distinct (map fst d) \<Longrightarrow> dget (canon_dict d) k = canon (dget d k)"
  by (simp add: dget_def map_of_canon_dict split: option.split)

text \<open>Entries are never replaced: a source call only records what the store does not have.\<close>

lemma invoke_keeps:
  assumes "invoke env src f ex tk ci a s = Inr (v, ev, s')" "map_of (ev_entries s) key = Some e"
  shows "map_of (ev_entries s') key = Some e"
  using assms
  by (auto simp: invoke_def cached_def record_evidence_def Let_def rbind_Inr_iff dict_case_Inr update_conv'
           split: if_splits option.splits)

lemma read_keeps:
  assumes "read_tool_evidence env offset limit ids s = Inr (v, s')"
  shows "ev_entries s' = ev_entries s"
proof -
  have fold: "foldl (\<lambda>acc (i, r). rbind acc (\<lambda>(_, s'). read_progress env m (Some (int i, int i + 1)) True s'))
      acc sel = Inr (p', t) \<Longrightarrow> (case acc of Inl _ \<Rightarrow> True | Inr (p, u) \<Rightarrow> ev_entries u = ev_entries s)
      \<Longrightarrow> ev_entries t = ev_entries s" for acc m p' t and sel :: "(nat \<times> pydict) list"
  proof (induction sel arbitrary: acc)
    case (Cons ir sel)
    show ?case
    proof (rule Cons.IH)
      show "foldl (\<lambda>acc (i, r). rbind acc (\<lambda>(_, s'). read_progress env m (Some (int i, int i + 1)) True s'))
        ((\<lambda>(i, r). rbind acc (\<lambda>(_, s'). read_progress env m (Some (int i, int i + 1)) True s')) ir) sel = Inr (p', t)"
        using Cons.prems(1) by (cases ir) simp
      show "case (\<lambda>(i, r). rbind acc (\<lambda>(_, s'). read_progress env m (Some (int i, int i + 1)) True s')) ir of
        Inl _ \<Rightarrow> True | Inr (p, u) \<Rightarrow> ev_entries u = ev_entries s"
        using Cons.prems(2) by (cases ir; cases acc) (auto simp: read_progress_def Let_def)
    qed
  qed simp
  from assms show ?thesis
  proof (cases rule: read_tool_evidence_Inr)
    case (2 m p l rids)
    then show ?thesis
      by (auto simp: read_records_def Let_def rbind_Inr_iff dest!: fold split: if_splits)
  next
    case (3 m p l start)
    then show ?thesis
      by (auto simp: read_page_def Let_def rbind_Inr_iff read_progress_Inr split: option.splits)
  qed simp
qed

lemma ev_step_keeps:
  assumes "map_of (ev_entries (snd st)) key = Some e"
  shows "map_of (ev_entries (snd (ev_step env bd pj st op))) key = Some e"
proof (cases st)
  case (Pair shown s)
  show ?thesis
  proof (cases op)
    case (ReadEvidence offset limit ids)
    then show ?thesis using assms by (auto simp: Pair dest: read_keeps split: sum.split)
  next
    case (SourceCall src se ex tk ci a)
    then show ?thesis using assms
      by (auto simp: Pair wrap_executor_def rbind_Inr_iff split: sum.split option.splits if_splits dest: invoke_keeps)
  qed
qed

interpretation entries: settled_view "ev_step env bd pj"
    "\<lambda>st key. map_of (ev_entries (snd st)) key" "\<lambda>st key. False" for env bd pj
  by unfold_locales (auto intro: ev_step_keeps)

lemma count_canon: "distinct (map fst d) \<Longrightarrow> record_count (canon_dict d) = record_count d"
  by (simp add: record_count_def dget_canon_dict split: py.split)

lemma valid_canon: "distinct (map fst d) \<Longrightarrow> valid_evidence (PDict d) \<Longrightarrow> valid_evidence (PDict (canon_dict d))"
  by (auto simp: valid_evidence_iff dget_canon_dict)

lemma canon_bool [simp]: "canon v = PBool b \<longleftrightarrow> v = PBool b"
  by (cases v) auto

lemma receipt_canon:
  "distinct (map fst d) \<Longrightarrow> receipt env src a (canon_dict d) = receipt env src a d"
  by (simp add: receipt_def count_canon dget_canon_dict)

lemma receipt_narrowed_self:
  "valid_evidence (PDict d) \<Longrightarrow> receipt env src a (narrowed (PDict d) d) = receipt env src a d"
  by (auto simp: receipt_def narrowed_def record_count_def dget_update valid_evidence_iff)

lemma distinct_narrowed: "distinct (map fst d) \<Longrightarrow> distinct (map fst (narrowed w d))"
  by (auto simp: narrowed_def distinct_update split: py.split)

lemma valid_narrowed: "valid_evidence (PDict d) \<Longrightarrow> valid_evidence (PDict (narrowed w d))"
  by (auto simp: narrowed_def valid_evidence_iff dget_update split: py.split)

text \<open>A source is asked once: when a source call has saved its evidence, the same call made any
  time later in the run, after any other source calls and reads, returns the same receipt from
  the store, whatever the source or the Plugin's projection would answer now, and leaves the
  store as it is.
\<close>

lemma saved_snapshot_answers_again:
  assumes first: "invoke env src project executor tool_key call_id arguments s0
        = Inr (v, Some ''tool.evidence.saved'', s1)"
    and dicts: "\<And>d. executor arguments = Inr (PDict d) \<Longrightarrow> distinct (map fst d)"
      "\<And>d w. project d = Inr (PDict w) \<Longrightarrow> distinct (map fst w)"
    and later: "foldl (ev_step env bindings projects) (shown, s1) ops = (shown', s2)"
    and again: "call_id' = Some cid" "cid \<noteq> []"
  shows "invoke env src project' executor' tool_key call_id' arguments s2
    = Inr (v, Some ''tool.plugin.cache_hit'', s2)"
proof -
  let ?key = "evidence_key env src arguments"
  obtain d w where ex: "executor arguments = Inr (PDict d)" and ok: "dget d ''ok'' = PBool True"
    and pr: "project d = Inr w" and valid: "valid_evidence w" and tk: "tool_key = si_tool src"
    and v: "v = receipt env src arguments (narrowed (dget d ''_evidence'') (dict_of w))"
    and rec: "record_evidence env src arguments
        (PDict (put ''_evidence'' (PDict (narrowed (dget d ''_evidence'') (dict_of w))) d)) s0 = Inr s1"
    using first by (auto simp: invoke_def Let_def rbind_Inr_iff dict_case_Inr split: option.splits if_splits)
  obtain wd where w: "w = PDict wd" using valid by (auto simp: valid_evidence_iff)
  define n where "n = narrowed (dget d ''_evidence'') wd"
  define full where "full = put ''_evidence'' (PDict n) d"
  have dn: "distinct (map fst n)" using dicts(2) pr by (simp add: n_def w distinct_narrowed)
  have df: "distinct (map fst full)" using dicts(1) ex by (simp add: full_def distinct_update)
  have vn: "valid_evidence (PDict n)" using valid by (simp add: n_def w valid_narrowed)
  obtain e where e: "map_of (ev_entries s1) ?key = Some e" "sn_result e = canon_dict full"
    using rec ok by (auto simp: record_evidence_def w n_def [symmetric] full_def dget_update update_conv' split: if_splits)
  then have kept: "map_of (ev_entries s2) ?key = Some e"
    using entries.settled_run [of "(shown, s1)" ?key e env bindings projects ops] later by simp
  let ?c = "canon_dict (canon_dict full)" and ?m = "canon_dict (canon_dict n)"
  have hit: "cached env src arguments s2 = Some (PDict ?c)"
    using kept e(2) by (simp add: cached_def canon_PDict del: canon.simps)
  have fields: "dget ?c ''ok'' = PBool True" "dget ?c ''_evidence'' = PDict ?m"
    using df ok by (simp_all add: dget_canon_dict distinct_canon_dict full_def dget_update canon_PDict del: canon.simps)
  have vm: "valid_evidence (PDict ?m)" using vn dn by (simp add: valid_canon distinct_canon_dict)
  have "receipt env src arguments (narrowed (PDict ?m) ?m) = receipt env src arguments ?m"
    by (rule receipt_narrowed_self [OF vm])
  also have "\<dots> = receipt env src arguments n"
    using dn by (simp add: receipt_canon distinct_canon_dict)
  finally have "receipt env src arguments (narrowed (PDict ?m) ?m) = v"
    by (simp add: v w n_def)
  then show ?thesis
    using hit fields vm again by (simp add: invoke_def tk Let_def)
qed


section \<open>Samples\<close>

lemma material_py_inj: "material_py m = material_py m' \<Longrightarrow> m = m'"
proof -
  assume eq: "material_py m = material_py m'"
  have "map PDict rs = map PDict rs' \<Longrightarrow> rs = rs'" for rs rs'
    by (rule map_injective) (auto simp: inj_def)
  moreover have "inj source_row_py"
    by (rule injI) (simp add: source_row_py_def)
  then have "map source_row_py ss = map source_row_py ss' \<Longrightarrow> ss = ss'" for ss ss'
    by (metis map_injective)
  ultimately show "m = m'" using eq by (simp add: material_py_def)
qed

definition sample_source :: source_id where
  "sample_source = \<lparr>si_provider = ''jira'', si_connection = ''c1'', si_version = ''1'', si_tool = ''issues''\<rparr>"

definition sample_project :: "pydict \<Rightarrow> py res" where
  "sample_project d = Inr (PDict [(''records'', PList [PStr ''a'', PDict [(''id'', PInt 7)]]), (''complete'', PBool True)])"

definition sample_material :: material where
  "sample_material =
     \<lparr>ma_records = [[(''evidence_id'', PStr ''k:0''), (''value'', PStr ''a'')],
                    [(''evidence_id'', PStr ''k:1''), (''id'', PInt 7)]],
      ma_sources = [\<lparr>sr_snapshot = ''k'', sr_source = sample_source, sr_arguments = PDict [],
                     sr_coverage = [(''complete'', PBool True)]\<rparr>],
      ma_complete = True\<rparr>"

definition sample_ev_env :: ev_env where
  "sample_ev_env = \<lparr>compact = (\<lambda>v. if v = material_py sample_material then ''m'' else ''k''), sha256 = id, linked = False\<rparr>"

definition empty_store :: ev_store where
  "empty_store = \<lparr>ev_entries = [], ev_review = Map.empty\<rparr>"

definition sample_ev_op :: ev_op where
  "sample_ev_op = SourceCall sample_source ''none'' (\<lambda>_. Inr (PDict [(''ok'', PBool True)])) ''issues'' (Some ''call'') (PDict [])"

definition sample_history :: "py list \<times> ev_store" where
  "sample_history = foldl (ev_step sample_ev_env {sample_source} (\<lambda>_. Some sample_project)) ([], empty_store)
     [sample_ev_op, ReadEvidence PNone (PInt 1) None, ReadEvidence PNone (PInt 50) None]"


definition sample_answer :: source_call where
  "sample_answer = (\<lambda>_. Inr (PDict [(''ok'', PBool True)]))"

definition sample_ev_store :: ev_store where
  "sample_ev_store =
     \<lparr>ev_entries = [(''k'', \<lparr>sn_source = sample_source, sn_arguments = PDict [],
         sn_result = [(''_evidence'', PDict [(''complete'', PBool True),
                         (''records'', PList [PStr ''a'', PDict [(''id'', PInt 7)]])]),
                      (''ok'', PBool True)],
         sn_sequence = 1\<rparr>)],
      ev_review = Map.empty\<rparr>"

lemma digits_01: "dec_digits 0 = ''0''" "dec_digits (Suc 0) = ''1''"
  by code_simp+

lemma sample_store_material: "store_material sample_ev_store = Inr sample_material"
  by (simp add: sample_ev_store_def store_material_def snapshot_part_def getitem_def sample_material_def
      digits_01 canon_dict_def covered_fully_def canon_row_def)

lemma sample_call_saves:
  "invoke sample_ev_env sample_source sample_project sample_answer ''issues'' (Some ''call'') (PDict []) empty_store
     = Inr (receipt sample_ev_env sample_source (PDict []) [(''records'', PList [PStr ''a'', PDict [(''id'', PInt 7)]]),
         (''complete'', PBool True)], Some ''tool.evidence.saved'', sample_ev_store)"
  by (simp add: sample_ev_store_def sample_source_def sample_project_def sample_ev_env_def empty_store_def sample_answer_def
      invoke_def Let_def cached_def evidence_key_def valid_evidence_def narrowed_def record_evidence_def material_py_def
      newest_sequence_def canon_dict_def)

definition sample_read :: ev_op where
  "sample_read = ReadEvidence PNone (PInt 50) None"

definition sample_seen :: "py list \<times> ev_store" where
  "sample_seen = ev_step sample_ev_env {sample_source} (\<lambda>_. Some sample_project) ([], sample_ev_store) sample_read"

lemma sample_short: "\<not> too_long sample_ev_env v"
  by (simp add: too_long_def sample_ev_env_def MAX_EVIDENCE_PAGE_CHARS_def)

lemma sample_digest: "material_digest sample_ev_env m = material_digest sample_ev_env sample_material \<Longrightarrow> m = sample_material"
  by (auto simp: material_digest_def sample_ev_env_def intro: material_py_inj split: if_splits)

lemma sample_facts [simp]:
  "stored_review d sample_ev_store = fresh_review d" "\<not> linked sample_ev_env"
  "total_records sample_material = 2" "ev_entries sample_ev_store \<noteq> []" "ev_review sample_ev_store = Map.empty"
  by (simp_all add: stored_review_def sample_ev_store_def sample_ev_env_def total_records_def sample_material_def)

lemma sample_read_eval:
  "read_tool_evidence sample_ev_env PNone (PInt 50) None sample_ev_store
     = Inr (rendered sample_ev_env sample_material sample_ev_store 0 50 2, mark_page sample_ev_env sample_material (0, 2) sample_ev_store)"
proof -
  let ?p = "progress_of (material_digest sample_ev_env sample_material) 2 (fresh_review (material_digest sample_ev_env sample_material))"
  have p: "read_progress sample_ev_env sample_material None True sample_ev_store = Inr (?p, sample_ev_store)"
    by (simp add: read_progress_Inr)
  have ends: "page_start sample_material ?p PNone = PInt 0" "page_end sample_material ?p 0 50 = 2"
    by (simp_all add: page_start_def page_end_def progress_of_def fresh_review_def opt_int_def)
  have page: "read_page sample_ev_env 0 50 sample_material ?p sample_ev_store
      = Inr (rendered sample_ev_env sample_material sample_ev_store 0 50 2, mark_page sample_ev_env sample_material (0, 2) sample_ev_store)"
    by (simp add: read_page_def ends probe_eq sample_short search_page.simps read_progress_def mark_page_def Let_def)
  show ?thesis
    by (simp add: read_tool_evidence_def has_evidence_def sample_store_material p ends page)
qed

lemma sample_seen_eval:
  "sample_seen = (map PDict (ma_records sample_material), mark_page sample_ev_env sample_material (0, 2) sample_ev_store)"
  by (simp add: sample_seen_def sample_read_def sample_read_eval shown_rendered) (simp add: sample_material_def)



lemma evidence_page_is_bounded_witness:
  "length (compact sample_ev_env (rendered sample_ev_env sample_material sample_ev_store 0 50 2)) \<le> 24000
   \<and> int (length (shown_records (rendered sample_ev_env sample_material sample_ev_store 0 50 2))) \<le> 50 \<and> (50 :: int) \<le> 100"
  by (rule evidence_page_is_bounded [OF sample_read_eval]) (simp add: shown_rendered sample_material_def)

lemma saved_snapshot_answers_again_witness:
  "\<exists>v. invoke sample_ev_env sample_source (\<lambda>_. Inl TypeError) (\<lambda>_. Inl TypeError) ''issues'' (Some ''again'') (PDict [])
      (snd sample_seen) = Inr (v, Some ''tool.plugin.cache_hit'', snd sample_seen)"
  by (rule exI, rule saved_snapshot_answers_again [OF sample_call_saves, of "{sample_source}" "\<lambda>_. Some sample_project" "[]"
        "[sample_read]" "fst sample_seen"])
     (auto simp: sample_answer_def sample_project_def sample_seen_def)

end
