(* ===== verification/Review_Material.thy ===== *)
theory Review_Material
  imports Json_Values
begin

text \<open>
  The bounded material of an answer review, \<open>lensnode/lensnode/agent_runtime/evidence_material.py\<close>:
  repeated facts are factored into a table of shared values, and when that is not enough the
  material is cut until it fits, which the payload then says of itself.

  The two JSON encoders (\<open>as_text\<close> for the payload, \<open>sorted_text\<close> with sorted keys for comparing
  values) and the decoder are parameters. A text that is returned is represented by the value it
  encodes. Positions inside a value are paths of indices, since the source keeps references to
  the objects it later changes.
\<close>

record review_env =
  as_text :: "py \<Rightarrow> string"
  sorted_text :: "py \<Rightarrow> string"
  loads :: "string \<Rightarrow> py option"
  value_repr :: "py \<Rightarrow> string"

section \<open>Shared values\<close>

fun subvalues :: "py \<Rightarrow> py list" where
  "subvalues (PList vs) = concat (map subvalues vs) @ [PList vs]"
| "subvalues (PDict d) = concat (map (subvalues \<circ> snd) d) @ [PDict d]"
| "subvalues v = [v]"

fun all_keys :: "py \<Rightarrow> string list" where
  "all_keys (PList vs) = concat (map all_keys vs)"
| "all_keys (PDict d) = map fst d @ concat (map (all_keys \<circ> snd) d)"
| "all_keys v = []"

fun countable_value :: "py \<Rightarrow> bool" where
  "countable_value (PList _) = True"
| "countable_value (PDict _) = True"
| "countable_value (PStr _) = True"
| "countable_value _ = False"

text \<open>The counter built by \<open>count\<close>, as the list of texts it was increased for.\<close>

definition counted_texts :: "(py \<Rightarrow> string) \<Rightarrow> py \<Rightarrow> string list" where
  "counted_texts enc evidence =
     filter (\<lambda>t. length t \<ge> 40) (map enc (filter countable_value (subvalues evidence)))"

definition occurs_twice :: "string list \<Rightarrow> string \<Rightarrow> bool" where
  "occurs_twice texts t \<longleftrightarrow> length (filter (\<lambda>u. u = t) texts) > 1"

function fresh_key :: "string list \<Rightarrow> string \<Rightarrow> string" where
  "fresh_key keys k = (if k \<in> set keys then fresh_key keys (k @ ''_'') else k)"
  by pat_completeness auto
termination
proof (relation "measure (\<lambda>(keys, k). card {x \<in> set keys. length k \<le> length x})", simp)
  fix keys :: "string list" and k :: string
  assume k: "k \<in> set keys"
  have "{x \<in> set keys. length (k @ ''_'') \<le> length x} \<subseteq> {x \<in> set keys. length k \<le> length x}"
    by auto
  moreover have "k \<in> {x \<in> set keys. length k \<le> length x}" "k \<notin> {x \<in> set keys. length (k @ ''_'') \<le> length x}"
    using k by simp_all
  ultimately have "{x \<in> set keys. length (k @ ''_'') \<le> length x} \<subset> {x \<in> set keys. length k \<le> length x}"
    by blast
  then show "((keys, k @ ''_''), keys, k) \<in> measure (\<lambda>(keys, k). card {x \<in> set keys. length k \<le> length x})"
    by (simp add: psubset_card_mono)
qed

declare fresh_key.simps [simp del]

record pack_state =
  shared_values :: "py list"
  shared_refs :: "(string \<times> nat) list"

record pack_env =
  pk_text :: "py \<Rightarrow> string"
  pk_shared :: "string \<Rightarrow> bool"
  pk_ref :: string
  pk_table :: string

definition ref_to :: "pack_env \<Rightarrow> nat \<Rightarrow> py" where
  "ref_to e i = PDict [(pk_ref e, PInt (int i))]"

definition is_shared :: "pack_env \<Rightarrow> py \<Rightarrow> bool" where
  "is_shared e v \<longleftrightarrow> countable_value v \<and> pk_shared e (pk_text e v)"

definition store_shared :: "pack_env \<Rightarrow> py \<Rightarrow> py \<Rightarrow> pack_state \<Rightarrow> py \<times> pack_state" where
  "store_shared e value packed st =
     (if is_shared e value
      then (ref_to e (length (shared_values st)),
            st\<lparr>shared_values := shared_values st @ [packed],
               shared_refs := AList.update (pk_text e value) (length (shared_values st)) (shared_refs st)\<rparr>)
      else (packed, st))"

text \<open>A list of at least three objects with the same keys may become a table.\<close>

definition columns_of :: "py list \<Rightarrow> string list" where
  "columns_of packed = (case packed of PDict d # _ \<Rightarrow> map fst d | _ \<Rightarrow> [])"

definition row_of :: "string list \<Rightarrow> py \<Rightarrow> py" where
  "row_of columns item = PList (map (dget (dict_of item)) columns)"

definition table_of :: "pack_env \<Rightarrow> py list \<Rightarrow> py" where
  "table_of e packed =
     PDict [(pk_table e, PDict [(''columns'', PList (map PStr (columns_of packed))),
                                (''rows'', PList (map (row_of (columns_of packed)) packed))])]"

definition as_table :: "pack_env \<Rightarrow> py list \<Rightarrow> py" where
  "as_table e packed =
     (if length packed \<ge> 3 \<and> list_all is_dict packed
         \<and> list_all (\<lambda>item. set (map fst (dict_of item)) = set (columns_of packed)) packed
         \<and> length (pk_text e (table_of e packed)) < length (pk_text e (PList packed))
      then table_of e packed else PList packed)"

fun pack :: "pack_env \<Rightarrow> py \<Rightarrow> pack_state \<Rightarrow> py \<times> pack_state"
  and pack_list :: "pack_env \<Rightarrow> py list \<Rightarrow> pack_state \<Rightarrow> py list \<times> pack_state"
  and pack_items :: "pack_env \<Rightarrow> pydict \<Rightarrow> pack_state \<Rightarrow> pydict \<times> pack_state" where
  "pack e v st =
     (case (if is_shared e v then map_of (shared_refs st) (pk_text e v) else None) of
        Some i \<Rightarrow> (ref_to e i, st)
      | None \<Rightarrow>
          (case v of
             PDict d \<Rightarrow> (let (d', st') = pack_items e d st in store_shared e v (PDict d') st')
           | PList vs \<Rightarrow> (let (vs', st') = pack_list e vs st in store_shared e v (as_table e vs') st')
           | _ \<Rightarrow> store_shared e v v st))"
| "pack_list e [] st = ([], st)"
| "pack_list e (v # vs) st =
     (let (v', st1) = pack e v st; (vs', st2) = pack_list e vs st1 in (v' # vs', st2))"
| "pack_items e [] st = ([], st)"
| "pack_items e ((k, v) # d) st =
     (let (v', st1) = pack e v st; (d', st2) = pack_items e d st1 in ((k, v') # d', st2))"

declare pack.simps [simp del]

definition sharing_env :: "(py \<Rightarrow> string) \<Rightarrow> py \<Rightarrow> pack_env" where
  "sharing_env enc evidence =
     \<lparr>pk_text = enc, pk_shared = occurs_twice (counted_texts enc evidence),
      pk_ref = fresh_key (all_keys evidence) ''$review_ref'',
      pk_table = fresh_key (all_keys evidence) ''$review_table''\<rparr>"

definition sharing_instructions :: string where
  "sharing_instructions = ''An object with only reference_key refers to values[index]. Expand all references recursively when reviewing data. An object with only table_key encodes a list of objects: zip columns with each row to reconstruct them. All original facts and coverage limits are retained.''"

definition share_review_values :: "(py \<Rightarrow> string) \<Rightarrow> py \<Rightarrow> pydict" where
  "share_review_values enc evidence =
     (let e = sharing_env enc evidence;
          (packed, st) = pack e evidence \<lparr>shared_values = [], shared_refs = []\<rparr>
      in [(''encoding'', PStr ''shared-values-v1''), (''instructions'', PStr sharing_instructions),
          (''reference_key'', PStr (pk_ref e)), (''table_key'', PStr (pk_table e)),
          (''values'', PList (shared_values st)), (''data'', packed)])"


section \<open>What the instructions mean\<close>

text \<open>
  Reading packed data by the instructions it carries: a reference stands for the value it
  points to, a table for the list of its reconstructed rows, everything else is read part by part.
\<close>

definition zip_row :: "string list \<Rightarrow> py \<Rightarrow> py" where
  "zip_row columns row = PDict (zip columns (case row of PList vs \<Rightarrow> vs | _ \<Rightarrow> []))"

definition marked :: "string \<Rightarrow> string \<Rightarrow> pydict \<Rightarrow> bool" where
  "marked rk tk d \<longleftrightarrow> map fst d = [rk] \<or> map fst d = [tk]"

inductive reads_as :: "string \<Rightarrow> string \<Rightarrow> py list \<Rightarrow> py \<Rightarrow> py \<Rightarrow> bool"
  for rk tk :: string and vals :: "py list" where
  reference: "i < length vals \<Longrightarrow> reads_as rk tk vals (vals ! i) w \<Longrightarrow> reads_as rk tk vals (PDict [(rk, PInt (int i))]) w"
| tabled: "reads_as rk tk vals (PList (map (zip_row columns) rows)) w \<Longrightarrow>
    reads_as rk tk vals (PDict [(tk, PDict [(''columns'', PList (map PStr columns)), (''rows'', PList rows)])]) w"
| object: "\<not> marked rk tk d \<Longrightarrow> list_all2 (\<lambda>p q. fst p = fst q \<and> reads_as rk tk vals (snd p) (snd q)) d d' \<Longrightarrow>
    reads_as rk tk vals (PDict d) (PDict d')"
| listed: "list_all2 (reads_as rk tk vals) vs ws \<Longrightarrow> reads_as rk tk vals (PList vs) (PList ws)"
| plain: "\<not> is_dict v \<Longrightarrow> (\<And>vs. v \<noteq> PList vs) \<Longrightarrow> reads_as rk tk vals v v"


section \<open>Cutting\<close>

text \<open>What a round gives up is measured by \<open>weight\<close>.\<close>

definition uncut_keys :: "string set" where
  "uncut_keys = {''tool'', ''evidence_completeness'', ''review_completeness'', ''review_type''}"

text \<open>The texts \<open>strings\<close> yields, with their positions: texts that are values of an object.\<close>

definition entry_texts :: "string \<Rightarrow> py \<Rightarrow> (nat list \<times> string) list \<Rightarrow> (nat list \<times> string) list" where
  "entry_texts k v inner = (case v of PStr s \<Rightarrow> if k \<in> uncut_keys then [] else [([], s)] | _ \<Rightarrow> inner)"

fun texts_in :: "py \<Rightarrow> (nat list \<times> string) list" where
  "texts_in (PList vs) = concat (map (\<lambda>(i, ts). map (map_prod ((#) i) id) ts) (enumerate 0 (map texts_in vs)))"
| "texts_in (PDict d) =
     concat (map (\<lambda>(i, ts). map (map_prod ((#) i) id) ts)
       (enumerate 0 (map (\<lambda>(k, v). entry_texts k v (texts_in v)) d)))"
| "texts_in v = []"

fun replace_at :: "nat list \<Rightarrow> string \<Rightarrow> py \<Rightarrow> py" where
  "replace_at (i # path) t (PList vs) = (if i < length vs then PList (vs[i := replace_at path t (vs ! i)]) else PList vs)"
| "replace_at (i # path) t (PDict d) =
     (if i < length d then PDict (d[i := (fst (d ! i), replace_at path t (snd (d ! i)))]) else PDict d)"
| "replace_at path t v = PStr t"

text \<open>The first of the longest texts.\<close>

fun longest :: "(nat list \<times> string) list \<Rightarrow> (nat list \<times> string) option" where
  "longest [] = None"
| "longest (x # xs) =
     (case longest xs of None \<Rightarrow> Some x | Some y \<Rightarrow> if length (snd x) \<ge> length (snd y) then Some x else Some y)"

definition runtime_evidence :: "pydict \<Rightarrow> pydict" where
  "runtime_evidence p = dict_of (dget p ''runtime_evidence'')"

definition with_evidence :: "pydict \<Rightarrow> pydict \<Rightarrow> pydict" where
  "with_evidence ev p = put ''runtime_evidence'' (PDict ev) p"

text \<open>
  One round of the loop: the longest text is halved (at least 80 characters stay), else the last
  retrieved item goes, else the last kind of evidence; \<open>None\<close> when nothing is left to give up.
\<close>

definition drop_round :: "pydict \<Rightarrow> pydict option" where
  "drop_round p =
     (let ev = runtime_evidence p
      in case dget ev ''retrieved_evidence'' of
           PList (r # rs) \<Rightarrow> Some (with_evidence (put ''retrieved_evidence'' (PList (butlast (r # rs))) ev) p)
         | _ \<Rightarrow> if ev \<noteq> [] then Some (with_evidence (butlast ev) p) else None)"

definition cut_round :: "pydict \<Rightarrow> pydict option" where
  "cut_round p =
     (case longest (texts_in (PDict p)) of
        Some (path, t) \<Rightarrow>
          if length t > 80 then Some (dict_of (replace_at path (take (max 80 (length t div 2)) t) (PDict p)))
          else drop_round p
      | None \<Rightarrow> drop_round p)"

lemma sum_list_update_at:
  "i < length xs \<Longrightarrow> sum_list (map f (xs[i := y])) + f (xs ! i) = sum_list (map f xs) + (f y :: nat)"
  by (induction xs arbitrary: i) (auto split: nat.split simp: less_Suc_eq_0_disj)

lemma texts_in_list:
  "(path, s) \<in> set (texts_in (PList vs)) \<Longrightarrow>
     \<exists>i path'. path = i # path' \<and> i < length vs \<and> (path', s) \<in> set (texts_in (vs ! i))"
  by (auto simp: in_set_enumerate_eq)

lemma entry_texts_in:
  "x \<in> set (entry_texts k v inner) \<Longrightarrow> fst x = [] \<and> v = PStr (snd x) \<and> k \<notin> uncut_keys \<or> x \<in> set inner"
  by (cases v) (auto simp: entry_texts_def split: if_splits)

lemma texts_in_dict:
  assumes "(path, s) \<in> set (texts_in (PDict d))"
  shows "\<exists>i path'. path = i # path' \<and> i < length d \<and>
       (path' = [] \<and> snd (d ! i) = PStr s \<and> fst (d ! i) \<notin> uncut_keys \<or> (path', s) \<in> set (texts_in (snd (d ! i))))"
proof -
  obtain i path' where i: "path = i # path'" "i < length d"
    and t: "(path', s) \<in> set (entry_texts (fst (d ! i)) (snd (d ! i)) (texts_in (snd (d ! i))))"
    using assms by (auto simp: in_set_enumerate_eq case_prod_beta)
  from entry_texts_in [OF t] i show ?thesis by auto
qed

lemma weight_replace:
  "(path, s) \<in> set (texts_in v) \<Longrightarrow> weight (replace_at path t v) + length s = weight v + length t"
proof (induction path arbitrary: v)
  case Nil
  then show ?case using texts_in_list texts_in_dict by (cases v) fastforce+
next
  case (Cons i path)
  show ?case
  proof (cases v)
    case (PList vs)
    then have i: "i < length vs" "(path, s) \<in> set (texts_in (vs ! i))"
      using texts_in_list Cons.prems by blast+
    show ?thesis
      using sum_list_update_at [OF i(1), of "\<lambda>v. Suc (weight v)" "replace_at path t (vs ! i)"] Cons.IH [OF i(2)] i(1)
      by (simp add: PList)
  next
    case (PDict d)
    then have i: "i < length d" "path = [] \<and> snd (d ! i) = PStr s \<or> (path, s) \<in> set (texts_in (snd (d ! i)))"
      using texts_in_dict Cons.prems by blast+
    have "weight (replace_at path t (snd (d ! i))) + length s = weight (snd (d ! i)) + length t"
      using i(2) Cons.IH by auto
    then show ?thesis
      using sum_list_update_at [OF i(1), of "\<lambda>(k, v). Suc (weight v)" "(fst (d ! i), replace_at path t (snd (d ! i)))"] i(1)
      by (simp add: PDict case_prod_beta)
  qed (use Cons.prems in auto)
qed

lemma weight_put:
  "map_of d k = Some v \<Longrightarrow> weight (PDict (put k w d)) + weight v = weight (PDict d) + weight w"
  by (induction d) (auto split: if_splits)

lemma longest_in: "longest xs = Some x \<Longrightarrow> x \<in> set xs"
  by (induction xs arbitrary: x) (auto split: option.splits if_splits)

lemma weight_butlast_list: "vs \<noteq> [] \<Longrightarrow> weight (PList (butlast vs)) < weight (PList vs)"
  by (induction vs) auto

lemma weight_butlast_dict: "d \<noteq> [] \<Longrightarrow> weight (PDict (butlast d)) < weight (PDict d)"
  by (induction d) auto

lemma weight_drop_round:
  assumes "drop_round p = Some p'"
  shows "weight (PDict p') < weight (PDict p)"
proof -
  have step: "weight (PDict (with_evidence ev p)) < weight (PDict p)"
    if "weight (PDict ev) < weight (PDict (runtime_evidence p))" for ev
  proof -
    have "runtime_evidence p \<noteq> []" using that by auto
    then obtain d where "map_of p ''runtime_evidence'' = Some (PDict d)" "runtime_evidence p = d"
      by (cases "map_of p ''runtime_evidence''"; cases "the (map_of p ''runtime_evidence'')")
         (auto simp: runtime_evidence_def dget_def)
    then show ?thesis
      using weight_put [of p "''runtime_evidence''" "PDict d" "PDict ev"] that by (simp add: with_evidence_def)
  qed
  show ?thesis
  proof (cases "\<exists>r rs. dget (runtime_evidence p) ''retrieved_evidence'' = PList (r # rs)")
    case True
    then obtain r rs where l: "dget (runtime_evidence p) ''retrieved_evidence'' = PList (r # rs)" by blast
    then have "map_of (runtime_evidence p) ''retrieved_evidence'' = Some (PList (r # rs))"
      by (simp add: dget_def split: option.splits)
    from weight_put [OF this, of "PList (butlast (r # rs))"] weight_butlast_list [of "r # rs"]
    have "weight (PDict (put ''retrieved_evidence'' (PList (butlast (r # rs))) (runtime_evidence p)))
        < weight (PDict (runtime_evidence p))" by simp
    from step [OF this] show ?thesis using assms l by (simp add: drop_round_def Let_def)
  next
    case False
    then have "runtime_evidence p \<noteq> []" "p' = with_evidence (butlast (runtime_evidence p)) p"
      using assms by (auto simp: drop_round_def Let_def split: py.splits list.splits if_splits)
    then show ?thesis using step weight_butlast_dict by simp
  qed
qed

lemma dict_of_replace: "path \<noteq> [] \<Longrightarrow> \<exists>d. replace_at path t (PDict p) = PDict d"
  by (cases path) auto

lemma weight_cut_round:
  assumes "cut_round p = Some p'"
  shows "weight (PDict p') < weight (PDict p)"
proof (cases "drop_round p = Some p'")
  case True
  then show ?thesis by (rule weight_drop_round)
next
  case False
  then obtain x where x: "longest (texts_in (PDict p)) = Some x"
    using assms by (cases "longest (texts_in (PDict p))") (simp_all add: cut_round_def)
  obtain path t where xt: "x = (path, t)" by (cases x)
  have t: "longest (texts_in (PDict p)) = Some (path, t)" "length t > 80"
    and p': "p' = dict_of (replace_at path (take (max 80 (length t div 2)) t) (PDict p))"
    using assms False x by (simp_all add: xt cut_round_def split: if_splits)
  have inn: "(path, t) \<in> set (texts_in (PDict p))" using t(1) by (rule longest_in)
  from texts_in_dict [OF this] have "path \<noteq> []" by auto
  then obtain d where d: "replace_at path (take (max 80 (length t div 2)) t) (PDict p) = PDict d"
    using dict_of_replace by metis
  have "length (take (max 80 (length t div 2)) t) < length t" using t(2) by (simp add: min_def max_def) linarith
  then show ?thesis
    using weight_replace [OF inn, of "take (max 80 (length t div 2)) t"] p' d by simp
qed


definition fits_limit :: "review_env \<Rightarrow> int \<Rightarrow> pydict \<Rightarrow> bool" where
  "fits_limit env limit p \<longleftrightarrow> int (length (as_text env (PDict p))) \<le> limit"

definition too_small :: "pydict \<Rightarrow> py" where
  "too_small p = PDict [(''evidence_completeness'', dget p ''evidence_completeness''),
                        (''review_completeness'', PStr ''incomplete'')]"

text \<open>
  The loop \<open>while len(encode()) > limit\<close>; setting \<open>review_completeness\<close> in each round is the same
  as setting it before the first one, since no round touches it.
\<close>

function shrink :: "review_env \<Rightarrow> int \<Rightarrow> pydict \<Rightarrow> py" where
  "shrink env limit p =
     (case cut_round p of
        None \<Rightarrow> too_small p
      | Some p' \<Rightarrow> if fits_limit env limit p' then PDict p' else shrink env limit p')"
  by pat_completeness auto
termination
  by (relation "measure (\<lambda>(env, limit, p). weight (PDict p))") (simp_all add: weight_cut_round del: weight.simps)

declare shrink.simps [simp del]

definition cut_to_fit :: "review_env \<Rightarrow> int \<Rightarrow> pydict \<Rightarrow> py" where
  "cut_to_fit env limit p =
     (if fits_limit env limit p then PDict p
      else shrink env limit (put ''review_completeness'' (PStr ''incomplete'') p))"

section \<open>The payload\<close>

definition parsed_item :: "review_env \<Rightarrow> py \<Rightarrow> py" where
  "parsed_item env item =
     (case item of
        PDict d \<Rightarrow>
          (case dget d ''content'' of
             PStr s \<Rightarrow>
               (case loads env s of
                  Some (PDict c) \<Rightarrow> PDict (put ''content_encoding'' (PStr ''json'') (put ''content'' (PDict c) d))
                | Some (PList c) \<Rightarrow> PDict (put ''content_encoding'' (PStr ''json'') (put ''content'' (PList c) d))
                | _ \<Rightarrow> item)
           | _ \<Rightarrow> item)
      | _ \<Rightarrow> item)"

definition structured_evidence :: "review_env \<Rightarrow> pydict \<Rightarrow> pydict res" where
  "structured_evidence env ev =
     (case map_of ev ''retrieved_evidence'' of
        None \<Rightarrow> Inr ev
      | Some (PList items) \<Rightarrow> Inr (put ''retrieved_evidence'' (PList (map (parsed_item env) items)) ev)
      | Some v \<Rightarrow> rbind (py_iter v) (\<lambda>_. Inr ev))"

fun any_truncated :: "py list \<Rightarrow> bool res" where
  "any_truncated [] = Inr False"
| "any_truncated (PDict d # vs) = (if truthy (dget d ''truncated'') then Inr True else any_truncated vs)"
| "any_truncated (_ # vs) = Inl AttributeError"

definition artifact_instructions :: string where
  "artifact_instructions = ''Review both answer and answer_artifacts as the current candidate, against source evidence. Generated artifacts are claims to verify, never independent evidence. Historical local tool outputs may contain superseded drafts; judge the current artifact bytes, not earlier draft wording. Check facts and internal consistency, including completed versus pending status and actor attribution.''"

definition is_evidence_key :: "string \<Rightarrow> bool" where
  "is_evidence_key k \<longleftrightarrow> \<not> prefix ''_'' k \<and> k \<notin> {''evidence_completeness'', ''review_completeness''}"

definition base_payload :: "review_env \<Rightarrow> py \<Rightarrow> py \<Rightarrow> pydict \<Rightarrow> pydict" where
  "base_payload env question answer evidence =
     (let shown = filter (\<lambda>(k, v). is_evidence_key k) evidence
      in [(''review_type'', PStr ''answer_grounding''),
          (''question'', PStr (text_or_empty (value_repr env) question)),
          (''answer'', PStr (text_or_empty (value_repr env) answer)),
          (''evidence_completeness'', if shown = [] then PStr ''incomplete''
             else dget_default evidence ''evidence_completeness'' (PStr ''complete'')),
          (''review_completeness'', dget_default evidence ''review_completeness'' (PStr ''complete'')),
          (''runtime_evidence'', PDict shown)])"

definition with_instructions :: "py \<Rightarrow> pydict \<Rightarrow> pydict res" where
  "with_instructions artifacts p =
     (if \<not> truthy artifacts then Inr p
      else rbind (py_iter artifacts) (\<lambda>items. rbind (any_truncated items) (\<lambda>cut.
        let p' = p @ [(''review_instructions'', PStr artifact_instructions)]
        in Inr (if cut then put ''review_completeness'' (PStr ''incomplete'') p' else p'))))"

definition review_material :: "review_env \<Rightarrow> py \<Rightarrow> py \<Rightarrow> py \<Rightarrow> int \<Rightarrow> py res" where
  "review_material env question answer evidence limit =
     (let ev = dict_of evidence
      in rbind (with_instructions (dget ev ''answer_artifacts'') (base_payload env question answer ev)) (\<lambda>p.
         if fits_limit env limit p then Inr (PDict p)
         else rbind (structured_evidence env (runtime_evidence p)) (\<lambda>structured.
           let shared = with_evidence (share_review_values (sorted_text env) (PDict structured)) p
           in if fits_limit env limit shared then Inr (PDict shared) else Inr (cut_to_fit env limit p))))"

text \<open>
  \<open>bound_review_state\<close>: material that was decoded again is bounded to a smaller limit. \<open>dict(...)\<close>
  takes a mapping or pairs; a key that is no text is refused later by \<open>startswith\<close>.
\<close>

fun dict_entry :: "py \<Rightarrow> (string \<times> py) res" where
  "dict_entry (PList [PStr k, v]) = Inr (k, v)"
| "dict_entry (PList [v, w]) = Inl (case v of PList _ \<Rightarrow> TypeError | PDict _ \<Rightarrow> TypeError | _ \<Rightarrow> AttributeError)"
| "dict_entry (PList _) = Inl ValueError"
| "dict_entry (PDict [(k, _), (k', _)]) = Inr (k, PStr k')"
| "dict_entry (PDict _) = Inl ValueError"
| "dict_entry (PStr [a, b]) = Inr ([a], PStr [b])"
| "dict_entry (PStr _) = Inl ValueError"
| "dict_entry _ = Inl TypeError"

definition py_dict :: "py \<Rightarrow> pydict res" where
  "py_dict v =
     (case v of
        PDict d \<Rightarrow> Inr d
      | _ \<Rightarrow> rbind (py_iter v) (\<lambda>items. rbind (map_res dict_entry items) (\<lambda>entries.
               Inr (foldl (\<lambda>d (k, w). put k w d) [] entries))))"

definition bound_review_state :: "review_env \<Rightarrow> py \<Rightarrow> int \<Rightarrow> py option res" where
  "bound_review_state env source limit =
     (case (case source of PStr s \<Rightarrow> loads env s | _ \<Rightarrow> None) of
        Some (PDict payload) \<Rightarrow>
          if dget payload ''review_type'' \<noteq> PStr ''answer_grounding'' then Inr None
          else rbind (py_dict (py_or (dget payload ''runtime_evidence'') (PDict []))) (\<lambda>d.
            let evidence = put ''review_completeness'' (dget_default payload ''review_completeness'' (PStr ''complete''))
                  (put ''evidence_completeness'' (dget_default payload ''evidence_completeness'' (PStr ''incomplete'')) d)
            in rbind (review_material env (dget payload ''question'') (dget payload ''answer'') (PDict evidence) limit)
                 (\<lambda>v. Inr (Some v)))
      | _ \<Rightarrow> Inr None)"

end
