(* ===== verification/Review_Sharing.thy ===== *)
theory Review_Sharing
  imports Review_Material
begin

text \<open>
  Sharing loses nothing: whatever the encoder's lengths make \<open>share_review_values\<close> put into the
  table of shared values or into a column table, reading the result by its own instructions
  gives the evidence back.
\<close>

section \<open>Canonical values\<close>

fun wf_py :: "py \<Rightarrow> bool" where
  "wf_py (PList vs) = list_all wf_py vs"
| "wf_py (PDict d) = (distinct (map fst d) \<and> list_all (wf_py \<circ> snd) d)"
| "wf_py v = True"

lemma sort_key_same:
  assumes "set xs = set ys" "distinct (map fst xs)" "distinct (map fst ys)"
  shows "sort_key fst xs = sort_key fst (ys :: pydict)"
proof (rule map_sorted_distinct_set_unique [of fst])
  have dist: "distinct (map fst (sort_key fst zs))" if "distinct (map fst zs)" for zs :: pydict
    using that by (induction zs) (simp_all add: distinct_insort_key)
  show "distinct (map fst (sort_key fst xs))" "distinct (map fst (sort_key fst ys))"
    using dist assms(2,3) by blast+
  show "inj_on fst (set (sort_key fst xs) \<union> set (sort_key fst ys))"
    using assms by (simp add: distinct_map)
qed (use assms in simp_all)

lemma canon_dict_perm:
  assumes "set xs = set ys" "distinct (map fst xs)" "distinct (map fst ys)"
  shows "canon (PDict xs) = canon (PDict ys)"
proof -
  have "sort_key fst (map (map_prod id canon) xs) = sort_key fst (map (map_prod id canon) ys)"
    by (rule sort_key_same) (use assms in \<open>simp_all add: comp_def\<close>)
  then show ?thesis by simp
qed

lemma canon_dict_cong:
  assumes "map fst d = map fst d'" "map (canon \<circ> snd) d = map (canon \<circ> snd) d'"
  shows "canon (PDict d) = canon (PDict d')"
proof -
  have "map (map_prod id canon) xs = zip (map fst xs) (map (canon \<circ> snd) xs)" for xs :: pydict
    by (induction xs) auto
  then show ?thesis using assms by simp
qed

section \<open>Reading\<close>

lemma reads_as_append: "reads_as rk tk vals v w \<Longrightarrow> reads_as rk tk (vals @ us) v w"
proof (induction rule: reads_as.induct)
  case (reference i w)
  then show ?case using reads_as.reference [of i "vals @ us"] by (simp add: nth_append)
next
  case (object d d')
  then show ?case by (auto intro!: reads_as.object elim!: list_all2_mono)
next
  case (listed vs ws)
  then show ?case by (auto intro!: reads_as.listed elim!: list_all2_mono)
qed (auto intro: reads_as.intros)

inductive_cases reads_as_dictE: "reads_as rk tk vals (PDict d) w"
inductive_cases reads_as_listE: "reads_as rk tk vals (PList vs) w"

text \<open>The instructions are unambiguous.\<close>

lemma list_all2_unique:
  "list_all2 (\<lambda>x y. R x y \<and> (\<forall>z. R x z \<longrightarrow> y = z)) xs ys \<Longrightarrow> list_all2 R xs zs \<Longrightarrow> ys = zs"
  by (induction arbitrary: zs rule: list_all2_induct) (auto simp: list_all2_Cons1)

lemma reads_as_unique:
  assumes "rk \<noteq> tk"
  shows "reads_as rk tk vals v w \<Longrightarrow> reads_as rk tk vals v w' \<Longrightarrow> w = w'"
proof (induction arbitrary: w' rule: reads_as.induct)
  case (reference i w)
  from reference.prems have "reads_as rk tk vals (vals ! i) w'"
    by (rule reads_as_dictE) (use assms in \<open>auto simp: marked_def\<close>)
  then show ?case by (rule reference.IH)
next
  case (tabled columns rows w)
  have inj: "map PStr cs = map PStr columns \<Longrightarrow> cs = columns" for cs
    by (rule map_injective) (auto simp: inj_def)
  from tabled.prems have "reads_as rk tk vals (PList (map (zip_row columns) rows)) w'"
    by (rule reads_as_dictE) (use assms in \<open>auto simp: marked_def dest!: inj sym [of "map PStr columns"]\<close>)
  then show ?case by (rule tabled.IH)
next
  case (object d d')
  from object.prems obtain d'' where w': "w' = PDict d''"
    and d'': "list_all2 (\<lambda>p q. fst p = fst q \<and> reads_as rk tk vals (snd p) (snd q)) d d''"
    by (rule reads_as_dictE) (use object(1) in \<open>auto simp: marked_def\<close>)
  have "list_all2 (\<lambda>p q. (fst p = fst q \<and> reads_as rk tk vals (snd p) (snd q)) \<and>
      (\<forall>z. fst p = fst z \<and> reads_as rk tk vals (snd p) (snd z) \<longrightarrow> q = z)) d d'"
    using object(2) by (rule list_all2_mono) (auto intro: prod_eqI)
  from list_all2_unique [OF this d''] show ?case by (simp add: w')
next
  case (listed vs ws)
  from listed.prems obtain ws' where w': "w' = PList ws'" and ws': "list_all2 (reads_as rk tk vals) vs ws'"
    by (rule reads_as_listE) auto
  have "list_all2 (\<lambda>v w. reads_as rk tk vals v w \<and> (\<forall>z. reads_as rk tk vals v z \<longrightarrow> w = z)) vs ws"
    using listed(1) by (rule list_all2_mono) auto
  from list_all2_unique [OF this ws'] show ?case by (simp add: w')
next
  case (plain v)
  from plain.prems show ?case by (cases rule: reads_as.cases) (use plain in auto)
qed

section \<open>Tables\<close>

definition top_ok :: "py \<Rightarrow> bool" where
  "top_ok v \<longleftrightarrow> distinct (map fst (dict_of v))"

lemma list_all2_dget:
  "list_all2 (\<lambda>p q. fst p = fst q \<and> R (snd p) (snd q)) d d' \<Longrightarrow> k \<in> set (map fst d) \<Longrightarrow> R (dget d k) (dget d' k)"
proof (induction rule: list_all2_induct)
  case (Cons p d q d')
  then show ?case by (cases p; cases q; cases "fst p = k") simp_all
qed simp

lemma list_all2_keys:
  "list_all2 (\<lambda>p q. fst p = fst q \<and> R (snd p) (snd q)) d d' \<Longrightarrow> map fst d = map fst d'"
  by (induction rule: list_all2_induct) auto

lemma set_reordered:
  assumes "distinct (map fst d)" "set cols = set (map fst d)"
  shows "set (map (\<lambda>k. (k, dget d k)) cols) = set d"
proof -
  have dget_in: "(k, v) \<in> set d \<Longrightarrow> dget d k = v" for k v
    using assms(1) by (simp add: dget_def)
  have "(k, dget d k) \<in> set d" if "k \<in> set cols" for k
  proof -
    from that assms(2) obtain v where "(k, v) \<in> set d" by auto
    then show ?thesis using dget_in by auto
  qed
  moreover have "(k, v) \<in> set (map (\<lambda>k. (k, dget d k)) cols)" if "(k, v) \<in> set d" for k v
  proof -
    have "k \<in> set cols" using that assms(2) by force
    then show ?thesis using dget_in [OF that] by auto
  qed
  ultimately show ?thesis by auto
qed

lemma singleton_cols: "distinct cols \<Longrightarrow> set cols = {k} \<Longrightarrow> cols = [k]"
  by (cases cols; cases "tl cols") auto

lemma reads_reordered:
  assumes read: "reads_as rk tk vals (PDict d) w" and "distinct (map fst d)"
    and cols: "distinct cols" "set cols = set (map fst d)"
  shows "\<exists>w'. reads_as rk tk vals (PDict (map (\<lambda>k. (k, dget d k)) cols)) w' \<and> canon w' = canon w"
proof -
  consider (single) k x where "d = [(k, x)]"
    | (parts) d' where "w = PDict d'" "\<not> marked rk tk d"
        "list_all2 (\<lambda>p q. fst p = fst q \<and> reads_as rk tk vals (snd p) (snd q)) d d'"
    using read by (rule reads_as_dictE) blast+
  then show ?thesis
proof cases
  case single
  then have "cols = [k]" using cols singleton_cols by simp
  then show ?thesis using read single by auto
next
  case 3: (parts d')
  let ?R = "\<lambda>p q. fst p = fst q \<and> reads_as rk tk vals (snd p) (snd q)"
  have keys: "map fst d = map fst d'" using 3(3) by (rule list_all2_keys)
  have "\<not> marked rk tk (map (\<lambda>k. (k, dget d k)) cols)"
  proof
    assume "marked rk tk (map (\<lambda>k. (k, dget d k)) cols)"
    then have "cols = [rk] \<or> cols = [tk]" by (simp add: marked_def comp_def)
    then have "map fst d = [rk] \<or> map fst d = [tk]"
      by (elim disjE) (use singleton_cols [OF assms(2)] cols(2) [symmetric] in simp_all)
    then show False using 3(2) by (simp add: marked_def)
  qed
  moreover have "list_all2 ?R (map (\<lambda>k. (k, dget d k)) cols) (map (\<lambda>k. (k, dget d' k)) cols)"
    using list_all2_dget [OF 3(3)] cols(2) nth_mem [of _ cols] by (simp add: list_all2_conv_all_nth)
  ultimately have "reads_as rk tk vals (PDict (map (\<lambda>k. (k, dget d k)) cols)) (PDict (map (\<lambda>k. (k, dget d' k)) cols))"
    by (rule reads_as.object)
  moreover have "canon (PDict (map (\<lambda>k. (k, dget d' k)) cols)) = canon (PDict d')"
    by (rule canon_dict_perm) (use set_reordered [of d' cols] keys assms(2) cols in \<open>auto simp: comp_def\<close>)
  ultimately show ?thesis using 3(1) by auto
qed
qed

lemma reads_as_table:
  assumes "list_all2 (reads_as (pk_ref e) (pk_table e) vals) packed ws" "list_all top_ok packed"
  shows "\<exists>w. reads_as (pk_ref e) (pk_table e) vals (as_table e packed) w \<and> canon w = canon (PList ws)"
proof (cases "as_table e packed = PList packed")
  case True
  then show ?thesis using assms(1) by (auto intro: reads_as.listed)
next
  case False
  let ?cols = "columns_of packed"
  have table: "as_table e packed = table_of e packed" and dicts: "list_all is_dict packed"
    and keys: "list_all (\<lambda>item. set (map fst (dict_of item)) = set ?cols) packed" and len: "length packed \<ge> 3"
    using False by (auto simp: as_table_def split: if_splits)
  have dcols: "distinct ?cols"
    using dicts len assms(2) by (cases packed; cases "hd packed") (auto simp: columns_of_def top_ok_def)
  let ?zip = "\<lambda>p. zip_row ?cols (row_of ?cols p)"
  have zip: "?zip p = PDict (map (\<lambda>k. (k, dget (dict_of p) k)) ?cols)" for p
    by (simp add: zip_row_def row_of_def zip_map2 zip_same_conv_map comp_def)
  have one: "\<exists>w'. reads_as (pk_ref e) (pk_table e) vals (?zip p) w' \<and> canon w' = canon w"
    if rd: "reads_as (pk_ref e) (pk_table e) vals p w" and p_in: "p \<in> set packed" for p w
  proof -
    obtain d where p: "p = PDict d" using dicts p_in by (cases p) (auto simp: list_all_iff)
    have "set (map fst (dict_of p)) = set ?cols"
      using p_in keys by (simp only: list_all_iff)
    moreover have "distinct (map fst (dict_of p))"
      using p_in assms(2) unfolding list_all_iff top_ok_def by blast
    ultimately show ?thesis
      unfolding zip p dict_of.simps
      by (intro reads_reordered) (use rd dcols p in simp_all)
  qed
  have "\<exists>ws'. list_all2 (reads_as (pk_ref e) (pk_table e) vals) (map ?zip ps) ws' \<and> map canon ws' = map canon us"
    if "list_all2 (reads_as (pk_ref e) (pk_table e) vals) ps us" "set ps \<subseteq> set packed" for ps us
    using that
  proof (induction rule: list_all2_induct)
    case (Cons p ps w us)
    then obtain ws' where ws': "list_all2 (reads_as (pk_ref e) (pk_table e) vals) (map ?zip ps) ws'" "map canon ws' = map canon us"
      by auto
    obtain w' where "reads_as (pk_ref e) (pk_table e) vals (?zip p) w'" "canon w' = canon w"
      using one [of p w] Cons by auto
    then show ?case using ws' by (intro exI [of _ "w' # ws'"]) simp
  qed simp
  then obtain ws' where ws': "list_all2 (reads_as (pk_ref e) (pk_table e) vals) (map ?zip packed) ws'"
    "map canon ws' = map canon ws"
    using assms(1) by blast
  have "reads_as (pk_ref e) (pk_table e) vals (table_of e packed) (PList ws')"
    unfolding table_of_def
    by (rule reads_as.tabled, rule reads_as.listed) (use ws'(1) in \<open>simp add: comp_def\<close>)
  then show ?thesis using table ws'(2) by (intro exI [of _ "PList ws'"]) simp
qed


section \<open>Packing\<close>

definition table_refs_ok :: "pack_env \<Rightarrow> py set \<Rightarrow> pack_state \<Rightarrow> bool" where
  "table_refs_ok e S st \<longleftrightarrow> (\<forall>t i. map_of (shared_refs st) t = Some i \<longrightarrow>
     i < length (shared_values st) \<and>
     (\<exists>v w. v \<in> S \<and> pk_text e v = t \<and> canon w = canon v
        \<and> reads_as (pk_ref e) (pk_table e) (shared_values st) (shared_values st ! i) w))"

definition extends :: "pack_state \<Rightarrow> pack_state \<Rightarrow> bool" where
  "extends st st' \<longleftrightarrow> (\<exists>us. shared_values st' = shared_values st @ us)"

lemma extends_refl [simp]: "extends st st"
  by (simp add: extends_def)

lemma extends_trans: "extends a b \<Longrightarrow> extends b c \<Longrightarrow> extends a c"
  by (auto simp: extends_def)

lemma reads_extends: "extends st st' \<Longrightarrow> reads_as rk tk (shared_values st) v w \<Longrightarrow> reads_as rk tk (shared_values st') v w"
  by (auto simp: extends_def intro: reads_as_append)

lemma reads_list_extends:
  "extends st st' \<Longrightarrow> list_all2 (reads_as rk tk (shared_values st)) vs ws \<Longrightarrow>
    list_all2 (reads_as rk tk (shared_values st')) vs ws"
  by (erule list_all2_mono) (rule reads_extends)

lemma reads_ref:
  "i < length (shared_values st) \<Longrightarrow> reads_as (pk_ref e) (pk_table e) (shared_values st) (shared_values st ! i) w \<Longrightarrow>
    reads_as (pk_ref e) (pk_table e) (shared_values st) (ref_to e i) w"
  by (simp add: ref_to_def reads_as.reference)

text \<open>What a packed value is worth.\<close>

definition worth :: "pack_env \<Rightarrow> py set \<Rightarrow> pack_state \<Rightarrow> py \<Rightarrow> py \<times> pack_state \<Rightarrow> bool" where
  "worth e S st v r \<longleftrightarrow> table_refs_ok e S (snd r) \<and> extends st (snd r) \<and> top_ok (fst r) \<and>
     (\<exists>w. reads_as (pk_ref e) (pk_table e) (shared_values (snd r)) (fst r) w \<and> canon w = canon v)"

lemma store_shared_worth:
  assumes "table_refs_ok e S st'" "extends st st'" "top_ok packed" "v \<in> S"
    and read: "reads_as (pk_ref e) (pk_table e) (shared_values st') packed w" "canon w = canon v"
  shows "worth e S st v (store_shared e v packed st')"
proof (cases "is_shared e v")
  case False
  then show ?thesis using assms by (auto simp: store_shared_def worth_def)
next
  case True
  let ?st = "st'\<lparr>shared_values := shared_values st' @ [packed],
      shared_refs := AList.update (pk_text e v) (length (shared_values st')) (shared_refs st')\<rparr>"
  have ext: "extends st' ?st" by (simp add: extends_def)
  have last: "reads_as (pk_ref e) (pk_table e) (shared_values ?st) (shared_values ?st ! length (shared_values st')) w"
    using reads_as_append [OF read(1), of "[packed]"] by simp
  have "table_refs_ok e S ?st"
    unfolding table_refs_ok_def
  proof (intro allI impI)
    fix t i assume look: "map_of (shared_refs ?st) t = Some i"
    show "i < length (shared_values ?st) \<and> (\<exists>v w. v \<in> S \<and> pk_text e v = t \<and> canon w = canon v
        \<and> reads_as (pk_ref e) (pk_table e) (shared_values ?st) (shared_values ?st ! i) w)"
    proof (cases "t = pk_text e v")
      case True
      then have "i = length (shared_values st')" using look by (simp add: update_conv')
      then show ?thesis using True last assms(4) read(2) by auto
    next
      case False
      then have "map_of (shared_refs st') t = Some i" using look by (simp add: update_conv')
      then obtain v' w' where i: "i < length (shared_values st')" and v': "v' \<in> S" "pk_text e v' = t" "canon w' = canon v'"
        "reads_as (pk_ref e) (pk_table e) (shared_values st') (shared_values st' ! i) w'"
        using assms(1) unfolding table_refs_ok_def by blast
      then show ?thesis using reads_as_append [OF v'(4), of "[packed]"] by (auto simp: nth_append)
    qed
  qed
  moreover have "reads_as (pk_ref e) (pk_table e) (shared_values ?st) (ref_to e (length (shared_values st'))) w"
    by (rule reads_ref) (use last in simp_all)
  ultimately show ?thesis
    using True ext assms(2) read(2) extends_trans
    by (auto simp: store_shared_def worth_def top_ok_def ref_to_def)
qed

lemma subvalues_self: "v \<in> set (subvalues v)"
  by (cases v) auto

definition pack_ok :: "pack_env \<Rightarrow> py set \<Rightarrow> string set \<Rightarrow> bool" where
  "pack_ok e S K \<longleftrightarrow> (\<forall>a \<in> S. \<forall>b \<in> S. pk_text e a = pk_text e b \<longrightarrow> canon a = canon b)
     \<and> pk_ref e \<notin> K \<and> pk_table e \<notin> K"

definition inside :: "py set \<Rightarrow> string set \<Rightarrow> py \<Rightarrow> bool" where
  "inside S K v \<longleftrightarrow> wf_py v \<and> set (all_keys v) \<subseteq> K \<and> set (subvalues v) \<subseteq> S"

lemma inside_list: "inside S K (PList vs) \<Longrightarrow> v \<in> set vs \<Longrightarrow> inside S K v"
  unfolding inside_def by (auto simp: list_all_iff)

lemma inside_dict:
  assumes "inside S K (PDict d)"
  shows "(k, v) \<in> set d \<Longrightarrow> inside S K v" "distinct (map fst d)" "set (map fst d) \<subseteq> K"
proof -
  have sub: "(\<Union>x \<in> set d. set (all_keys (snd x))) \<subseteq> K" "(\<Union>x \<in> set d. set (subvalues (snd x))) \<subseteq> S"
    "\<forall>x \<in> set d. wf_py (snd x)"
    using assms unfolding inside_def by (auto simp: list_all_iff)
  show "inside S K v" if "(k, v) \<in> set d"
    unfolding inside_def using sub that by (force simp: UN_subset_iff)
  show "distinct (map fst d)" "set (map fst d) \<subseteq> K"
    using assms by (auto simp: inside_def)
qed

lemma inside_in: "inside S K v \<Longrightarrow> v \<in> S"
  using subvalues_self by (auto simp: inside_def)

lemma list_all2_keys_canon:
  "list_all2 (\<lambda>p q. fst p = fst q \<and> R (snd p) (snd q)) d d' \<Longrightarrow> map (canon \<circ> snd) d' = map (canon \<circ> snd) c
    \<Longrightarrow> map fst d = map fst c \<Longrightarrow> canon (PDict d') = canon (PDict c)"
  by (rule canon_dict_cong) (use list_all2_keys in fastforce)+

lemma pack_worth:
  "pack_ok e S K \<Longrightarrow> table_refs_ok e S st \<Longrightarrow> inside S K v \<Longrightarrow> worth e S st v (pack e v st)"
  "pack_ok e S K \<Longrightarrow> table_refs_ok e S st \<Longrightarrow> (\<forall>v \<in> set vs. inside S K v) \<Longrightarrow>
      table_refs_ok e S (snd (pack_list e vs st)) \<and> extends st (snd (pack_list e vs st)) \<and>
      list_all top_ok (fst (pack_list e vs st)) \<and>
      (\<exists>ws. list_all2 (reads_as (pk_ref e) (pk_table e) (shared_values (snd (pack_list e vs st)))) (fst (pack_list e vs st)) ws
        \<and> map canon ws = map canon vs)"
  "pack_ok e S K \<Longrightarrow> table_refs_ok e S st \<Longrightarrow> (\<forall>(k, v) \<in> set d. inside S K v) \<Longrightarrow>
      table_refs_ok e S (snd (pack_items e d st)) \<and> extends st (snd (pack_items e d st)) \<and>
      map fst (fst (pack_items e d st)) = map fst d \<and>
      (\<exists>d'. list_all2 (\<lambda>p q. fst p = fst q \<and> reads_as (pk_ref e) (pk_table e) (shared_values (snd (pack_items e d st))) (snd p) (snd q))
             (fst (pack_items e d st)) d' \<and> map (canon \<circ> snd) d' = map (canon \<circ> snd) d)"
proof (induction e v st and e vs st and e d st rule: pack_pack_list_pack_items.induct)
  case (1 e v st)
  note in_S = inside_in [OF 1(5)]
  let ?look = "if is_shared e v then map_of (shared_refs st) (pk_text e v) else None"
  show ?case
  proof (cases ?look)
    case (Some i)
    then have look: "map_of (shared_refs st) (pk_text e v) = Some i" by (auto split: if_splits)
    then obtain v' w where i: "i < length (shared_values st)" and v': "v' \<in> S" "pk_text e v' = pk_text e v" "canon w = canon v'"
      and rd: "reads_as (pk_ref e) (pk_table e) (shared_values st) (shared_values st ! i) w"
      using 1(4) unfolding table_refs_ok_def by blast
    have "canon v' = canon v" using 1(3) v'(1,2) in_S unfolding pack_ok_def by blast
    then have "worth e S st v (ref_to e i, st)"
      using 1(4) v'(3) reads_ref [OF i rd] by (auto simp: worth_def top_ok_def ref_to_def)
    then show ?thesis by (simp only: pack.simps Some option.case)
  next
    case None
    have eq: "pack e v st = (case v of
             PDict d \<Rightarrow> (let (d', st') = pack_items e d st in store_shared e v (PDict d') st')
           | PList vs \<Rightarrow> (let (vs', st') = pack_list e vs st in store_shared e v (as_table e vs') st')
           | _ \<Rightarrow> store_shared e v v st)"
      by (simp only: pack.simps None option.case)
    have scalar: "worth e S st v (pack e v st)" if "\<not> is_dict v" "\<And>vs. v \<noteq> PList vs"
    proof -
      have "pack e v st = store_shared e v v st" unfolding eq using that by (cases v) auto
      moreover have "top_ok v" using that by (cases v) (simp_all add: top_ok_def)
      ultimately show ?thesis
        using store_shared_worth [OF 1(4) extends_refl _ in_S reads_as.plain refl] that by simp
    qed
    show ?thesis
    proof (cases v)
      case (PDict d)
      obtain d' st' where pk: "pack_items e d st = (d', st')" by (cases "pack_items e d st")
      have "\<forall>(k, v) \<in> set d. inside S K v" using 1(5) inside_dict(1) unfolding PDict by blast
      then obtain c where ih: "table_refs_ok e S st'" "extends st st'" "map fst d' = map fst d"
        "list_all2 (\<lambda>p q. fst p = fst q \<and> reads_as (pk_ref e) (pk_table e) (shared_values st') (snd p) (snd q)) d' c"
        "map (canon \<circ> snd) c = map (canon \<circ> snd) d"
        using 1(2) [OF None PDict 1(3,4)] unfolding pk fst_conv snd_conv by blast
      have dk: "distinct (map fst d)" "set (map fst d) \<subseteq> K" using 1(5) inside_dict(2,3) unfolding PDict by blast+
      have "\<not> marked (pk_ref e) (pk_table e) d'"
        using dk(2) 1(3) by (auto simp: marked_def pack_ok_def ih(3))
      then have "reads_as (pk_ref e) (pk_table e) (shared_values st') (PDict d') (PDict c)"
        using ih(4) by (rule reads_as.object)
      moreover have "canon (PDict c) = canon v"
        unfolding PDict by (rule list_all2_keys_canon [OF ih(4,5,3)])
      moreover have "top_ok (PDict d')" using ih(3) dk(1) by (simp add: top_ok_def)
      ultimately have "worth e S st v (store_shared e v (PDict d') st')"
        by (intro store_shared_worth [OF ih(1,2) _ in_S])
      then show ?thesis by (simp add: eq [unfolded PDict] PDict pk)
    next
      case (PList vs)
      obtain vs' st' where pk: "pack_list e vs st = (vs', st')" by (cases "pack_list e vs st")
      have "\<forall>v \<in> set vs. inside S K v" using 1(5) inside_list unfolding PList by blast
      then obtain ws where ih: "table_refs_ok e S st'" "extends st st'" "list_all top_ok vs'"
        "list_all2 (reads_as (pk_ref e) (pk_table e) (shared_values st')) vs' ws" "map canon ws = map canon vs"
        using 1(1) [OF None PList 1(3,4)] unfolding pk fst_conv snd_conv by blast
      obtain w where w: "reads_as (pk_ref e) (pk_table e) (shared_values st') (as_table e vs') w" "canon w = canon (PList ws)"
        using reads_as_table [OF ih(4,3)] by blast
      have "worth e S st v (store_shared e v (as_table e vs') st')"
        by (rule store_shared_worth [OF ih(1,2) _ in_S w(1)])
           (use w(2) ih(5) PList in \<open>auto simp: top_ok_def as_table_def table_of_def\<close>)
      then show ?thesis by (simp add: eq [unfolded PList] PList pk)
    qed (use scalar in simp_all)
  qed
next
  case (3 e v vs st)
  obtain v' st1 where p1: "pack e v st = (v', st1)" by (cases "pack e v st")
  obtain vs' st2 where p2: "pack_list e vs st1 = (vs', st2)" by (cases "pack_list e vs st1")
  have "worth e S st v (v', st1)" using 3(1,3,4,5) p1 by simp
  then obtain w where w: "table_refs_ok e S st1" "extends st st1" "top_ok v'"
    "reads_as (pk_ref e) (pk_table e) (shared_values st1) v' w" "canon w = canon v"
    by (auto simp: worth_def)
  obtain ws where ws: "table_refs_ok e S st2" "extends st1 st2" "list_all top_ok vs'"
    "list_all2 (reads_as (pk_ref e) (pk_table e) (shared_values st2)) vs' ws" "map canon ws = map canon vs"
    using 3(2) [OF p1 [symmetric] refl 3(3) w(1)] 3(5) unfolding p2 by auto
  show ?case
    using w ws reads_extends [OF ws(2) w(4)] extends_trans [OF w(2) ws(2)]
    by (auto simp: p1 p2 intro!: exI [of _ "w # ws"])
next
  case (5 e k v d st)
  obtain v' st1 where p1: "pack e v st = (v', st1)" by (cases "pack e v st")
  obtain d' st2 where p2: "pack_items e d st1 = (d', st2)" by (cases "pack_items e d st1")
  have "worth e S st v (v', st1)" using 5(1,3,4,5) p1 by simp
  then obtain w where w: "table_refs_ok e S st1" "extends st st1"
    "reads_as (pk_ref e) (pk_table e) (shared_values st1) v' w" "canon w = canon v"
    by (auto simp: worth_def)
  have sub: "\<forall>(k, v) \<in> set d. inside S K v" using 5(5) by simp
  obtain c where c: "table_refs_ok e S st2" "extends st1 st2" "map fst d' = map fst d"
    "list_all2 (\<lambda>p q. fst p = fst q \<and> reads_as (pk_ref e) (pk_table e) (shared_values st2) (snd p) (snd q)) d' c"
    "map (canon \<circ> snd) c = map (canon \<circ> snd) d"
    using 5(2) [OF p1 [symmetric] refl 5(3) w(1) sub] unfolding p2 fst_conv snd_conv by blast
  show ?case
    using w c reads_extends [OF c(2) w(3)] extends_trans [OF w(2) c(2)]
    by (auto simp: p1 p2 comp_def intro!: exI [of _ "(k, w) # c"])
qed auto


section \<open>The whole evidence\<close>

lemma fresh_key_fresh: "fresh_key keys k \<notin> set keys"
  by (induction keys k rule: fresh_key.induct) (subst fresh_key.simps, simp)

lemma fresh_key_tail: "\<exists>n. fresh_key keys k = k @ replicate n CHR ''_''"
proof (induction keys k rule: fresh_key.induct)
  case (1 keys k)
  show ?case
  proof (cases "k \<in> set keys")
    case True
    then obtain n where "fresh_key keys (k @ ''_'') = (k @ ''_'') @ replicate n CHR ''_''" using 1 by blast
    then show ?thesis using True by (subst fresh_key.simps) (auto intro!: exI [of _ "Suc n"])
  next
    case False
    then show ?thesis by (subst fresh_key.simps) (auto intro: exI [of _ 0])
  qed
qed

lemma markers_differ: "fresh_key keys ''$review_ref'' \<noteq> fresh_key keys ''$review_table''"
proof -
  have "(''$review_ref'' @ us) ! 8 \<noteq> (''$review_table'' @ vs) ! 8" for us vs :: string
    by simp
  then show ?thesis using fresh_key_tail by metis
qed

text \<open>What a reader of the shared form is given.\<close>

definition shared_reading :: "pydict \<Rightarrow> py \<Rightarrow> bool" where
  "shared_reading d w \<longleftrightarrow>
     (\<exists>rk tk vals. dget d ''reference_key'' = PStr rk \<and> dget d ''table_key'' = PStr tk
        \<and> dget d ''values'' = PList vals \<and> reads_as rk tk vals (dget d ''data'') w)"

lemma share_fields:
  assumes "pack (sharing_env enc evidence) evidence \<lparr>shared_values = [], shared_refs = []\<rparr> = (packed, st)"
  shows "shared_reading (share_review_values enc evidence) w \<longleftrightarrow>
    reads_as (pk_ref (sharing_env enc evidence)) (pk_table (sharing_env enc evidence)) (shared_values st) packed w"
  using assms by (simp add: share_review_values_def shared_reading_def Let_def)

lemma shared_reading_unique:
  assumes "wf_py evidence"
    and "\<forall>a \<in> set (subvalues evidence). \<forall>b \<in> set (subvalues evidence). enc a = enc b \<longrightarrow> canon a = canon b"
  shows "\<exists>w. shared_reading (share_review_values enc evidence) = (\<lambda>w'. w' = w) \<and> canon w = canon evidence"
proof -
  let ?e = "sharing_env enc evidence" and ?st = "\<lparr>shared_values = [], shared_refs = []\<rparr>"
  let ?S = "set (subvalues evidence)" and ?K = "set (all_keys evidence)"
  obtain packed st where pk: "pack ?e evidence ?st = (packed, st)" by (cases "pack ?e evidence ?st")
  have env: "pk_text ?e = enc" "pk_ref ?e \<notin> ?K" "pk_table ?e \<notin> ?K"
    by (simp_all add: sharing_env_def fresh_key_fresh)
  then have "pack_ok ?e ?S ?K"
    unfolding pack_ok_def env(1) using assms(2) by blast
  moreover have "table_refs_ok ?e ?S ?st" by (simp add: table_refs_ok_def)
  moreover have "inside ?S ?K evidence" using assms(1) by (simp add: inside_def)
  ultimately have "worth ?e ?S ?st evidence (packed, st)"
    using pack_worth(1) [of ?e ?S ?K ?st evidence] pk by simp
  then obtain w where w: "reads_as (pk_ref ?e) (pk_table ?e) (shared_values st) packed w" "canon w = canon evidence"
    by (auto simp: worth_def)
  have "pk_ref ?e \<noteq> pk_table ?e" by (simp add: sharing_env_def markers_differ)
  from reads_as_unique [OF this _ w(1)] have "shared_reading (share_review_values enc evidence) w' \<longleftrightarrow> w' = w" for w'
    using w(1) share_fields [OF pk] by blast
  then show ?thesis using w(2) by blast
qed


text \<open>C7.
  Sharing is lossless: for evidence whose objects have distinct keys and an encoder that
  distinguishes different values inside it, the shared form can be read by its own instructions
  in exactly one way, and what is read is the evidence, up to the order of object keys. This
  covers references into the table of values, column tables, tables whose rows are references or
  tables, and evidence that itself uses the marker keys.
\<close>

theorem shared_review_is_lossless:
  assumes "wf_py evidence"
    and "\<forall>a \<in> set (subvalues evidence). \<forall>b \<in> set (subvalues evidence). enc a = enc b \<longrightarrow> canon a = canon b"
  shows "\<exists>w. shared_reading (share_review_values enc evidence) = (\<lambda>w'. w' = w) \<and> canon w = canon evidence"
  using assms by (rule shared_reading_unique)

definition sample_facts_text :: "py \<Rightarrow> string" where
  "sample_facts_text v = (case v of PDict d \<Rightarrow> if map fst d = [''facts''] then ''f'' else CHR ''d'' # replicate 39 CHR ''d'' | PList _ \<Rightarrow> ''l'' | _ \<Rightarrow> ''s'')"

definition sample_facts_list :: py where
  "sample_facts_list =
     PList [PDict [(''$review_ref'', PStr ''a'')], PDict [(''$review_ref'', PStr ''a'')], PDict [(''$review_ref'', PStr ''a'')]]"

lemma shared_review_is_lossless_witness:
  "\<exists>w. shared_reading (share_review_values sample_facts_text sample_facts_list) = (\<lambda>w'. w' = w)
     \<and> canon w = canon sample_facts_list"
  by (rule shared_review_is_lossless) (simp_all add: sample_facts_list_def sample_facts_text_def)

end
