(* ===== verification/Review_Honesty.thy ===== *)
theory Review_Honesty
  imports Review_Sharing
begin

text \<open>
  What a reader of the review material can rely on: the text fits its limit or is the notice that
  nothing useful fits, and material that does not call itself incomplete has lost nothing.
\<close>

section \<open>What cutting keeps\<close>

definition marked_cut :: "pydict \<Rightarrow> bool" where
  "marked_cut p \<longleftrightarrow> distinct (map fst p) \<and> dget p ''review_completeness'' = PStr ''incomplete''"

lemma map_fst_update_at: "i < length d \<Longrightarrow> map fst (d[i := (fst (d ! i), x)]) = map fst d"
  by (simp add: map_update list_update_same_conv)

lemma dget_update_at:
  assumes "distinct (map fst d)" "i < length d" "fst (d ! i) \<noteq> k"
  shows "dget (d[i := (fst (d ! i), x)]) k = dget d k"
  using assms
proof (induction d arbitrary: i)
  case (Cons p d)
  then show ?case by (cases p; cases i) auto
qed simp

lemma dget_nth: "distinct (map fst d) \<Longrightarrow> i < length d \<Longrightarrow> dget d (fst (d ! i)) = snd (d ! i)"
proof -
  assume d: "distinct (map fst d)" "i < length d"
  then have "(fst (d ! i), snd (d ! i)) \<in> set d" by simp
  then show ?thesis using map_of_is_SomeI [OF d(1), of "fst (d ! i)" "snd (d ! i)"] by (simp add: dget_def)
qed

lemma marked_cut_put:
  "marked_cut p \<Longrightarrow> k \<noteq> ''review_completeness'' \<Longrightarrow> marked_cut (put k v p)"
  by (simp add: marked_cut_def distinct_update dget_update)

lemma marked_cut_round:
  assumes "cut_round p = Some p'" "marked_cut p"
  shows "marked_cut p'"
proof (cases "drop_round p = Some p'")
  case True
  then show ?thesis
    using marked_cut_put [OF assms(2), of "''runtime_evidence''"]
    by (auto simp: drop_round_def Let_def with_evidence_def split: py.splits list.splits if_splits)
next
  case False
  then obtain x where x: "longest (texts_in (PDict p)) = Some x"
    using assms(1) by (cases "longest (texts_in (PDict p))") (simp_all add: cut_round_def)
  obtain path t where xt: "x = (path, t)" by (cases x)
  have p': "p' = dict_of (replace_at path (take (max 80 (length t div 2)) t) (PDict p))"
    using assms(1) False x by (simp_all add: xt cut_round_def split: if_splits)
  have "(path, t) \<in> set (texts_in (PDict p))" using x unfolding xt by (rule longest_in)
  then obtain i path' where i: "path = i # path'" "i < length p"
    and t: "path' = [] \<and> snd (p ! i) = PStr t \<and> fst (p ! i) \<notin> uncut_keys \<or> (path', t) \<in> set (texts_in (snd (p ! i)))"
    using texts_in_dict by blast
  have "fst (p ! i) \<noteq> ''review_completeness''"
  proof
    assume k: "fst (p ! i) = ''review_completeness''"
    have "dget p (fst (p ! i)) = snd (p ! i)"
      using dget_nth assms(2) i(2) by (simp add: marked_cut_def)
    then have "snd (p ! i) = PStr ''incomplete''"
      using assms(2) by (simp add: k marked_cut_def)
    then show False using t k by (simp add: uncut_keys_def)
  qed
  then show ?thesis
    using assms(2) i dget_update_at [of p i "''review_completeness''"]
    by (simp add: p' marked_cut_def map_fst_update_at)
qed

lemma shrink_result:
  assumes "marked_cut p"
  shows "(\<exists>p'. shrink env limit p = PDict p' \<and> marked_cut p' \<and> fits_limit env limit p')
    \<or> (\<exists>c. shrink env limit p = PDict [(''evidence_completeness'', c), (''review_completeness'', PStr ''incomplete'')])"
  using assms
proof (induction env limit p rule: shrink.induct)
  case (1 env limit p)
  show ?case
  proof (cases "cut_round p")
    case None
    then show ?thesis by (subst (2) shrink.simps) (simp add: too_small_def)
  next
    case (Some p')
    note marked = marked_cut_round [OF Some 1(2)]
    show ?thesis
    proof (cases "fits_limit env limit p'")
      case True
      then show ?thesis using Some marked by (subst shrink.simps) simp
    next
      case False
      then show ?thesis
        using 1(1) [OF Some False marked] Some by (subst (1 2) shrink.simps) simp
    qed
  qed
qed


section \<open>The payload\<close>

definition shown_evidence :: "pydict \<Rightarrow> pydict" where
  "shown_evidence ev = filter (\<lambda>(k, v). is_evidence_key k) ev"

text \<open>What the payload holds before any cutting.\<close>

definition whole :: "review_env \<Rightarrow> py \<Rightarrow> py \<Rightarrow> pydict \<Rightarrow> pydict \<Rightarrow> bool" where
  "whole env question answer ev p \<longleftrightarrow> distinct (map fst p)
     \<and> dget p ''question'' = PStr (text_or_empty (value_repr env) question)
     \<and> dget p ''answer'' = PStr (text_or_empty (value_repr env) answer)
     \<and> runtime_evidence p = shown_evidence ev"

lemma whole_payload:
  assumes "with_instructions a (base_payload env question answer ev) = Inr p"
  shows "whole env question answer ev p"
proof -
  have base: "whole env question answer ev (base_payload env question answer ev)"
    by (simp add: whole_def base_payload_def runtime_evidence_def shown_evidence_def Let_def)
  have more: "whole env question answer ev (base_payload env question answer ev @ [(''review_instructions'', v)])" for v
    by (simp add: whole_def base_payload_def runtime_evidence_def shown_evidence_def Let_def)
  have cut: "whole env question answer ev (put ''review_completeness'' v p)" if "whole env question answer ev p" for p v
    using that by (simp add: whole_def runtime_evidence_def distinct_update dget_update)
  show ?thesis
    using assms base more cut by (auto simp: with_instructions_def Let_def rbind_Inr_iff split: if_splits)
qed

lemma cut_to_fit_result:
  assumes "distinct (map fst p)"
  shows "(fits_limit env limit p \<and> cut_to_fit env limit p = PDict p)
    \<or> (\<exists>p'. cut_to_fit env limit p = PDict p' \<and> marked_cut p' \<and> fits_limit env limit p')
    \<or> (\<exists>c. cut_to_fit env limit p = PDict [(''evidence_completeness'', c), (''review_completeness'', PStr ''incomplete'')])"
proof (cases "fits_limit env limit p")
  case False
  have "marked_cut (put ''review_completeness'' (PStr ''incomplete'') p)"
    using assms by (simp add: marked_cut_def distinct_update dget_update)
  from shrink_result [OF this, of env limit] show ?thesis using False by (auto simp: cut_to_fit_def)
qed (simp add: cut_to_fit_def)

lemma review_material_cases:
  assumes "review_material env question answer evidence limit = Inr v"
  obtains p where "whole env question answer (dict_of evidence) p" "v = PDict p" "fits_limit env limit p"
  | p structured where "whole env question answer (dict_of evidence) p" "fits_limit env limit (with_evidence (share_review_values (sorted_text env) (PDict structured)) p)"
      "structured_evidence env (shown_evidence (dict_of evidence)) = Inr structured"
      "v = PDict (with_evidence (share_review_values (sorted_text env) (PDict structured)) p)"
  | p where "v = PDict p" "marked_cut p" "fits_limit env limit p"
  | c where "v = PDict [(''evidence_completeness'', c), (''review_completeness'', PStr ''incomplete'')]"
proof -
  obtain p where p: "with_instructions (dget (dict_of evidence) ''answer_artifacts'') (base_payload env question answer (dict_of evidence)) = Inr p"
    and rest: "(if fits_limit env limit p then Inr (PDict p)
         else rbind (structured_evidence env (runtime_evidence p)) (\<lambda>structured.
           let shared = with_evidence (share_review_values (sorted_text env) (PDict structured)) p
           in if fits_limit env limit shared then Inr (PDict shared) else Inr (cut_to_fit env limit p))) = Inr v"
    using assms by (auto simp: review_material_def Let_def rbind_Inr_iff)
  have whole: "whole env question answer (dict_of evidence) p" using p by (rule whole_payload)
  show ?thesis
  proof (cases "fits_limit env limit p")
    case True
    then show ?thesis using rest whole that(1) by simp
  next
    case False
    obtain structured where st: "structured_evidence env (shown_evidence (dict_of evidence)) = Inr structured"
      and v: "v = (let shared = with_evidence (share_review_values (sorted_text env) (PDict structured)) p
           in if fits_limit env limit shared then PDict shared else cut_to_fit env limit p)"
      using rest False whole by (auto simp: rbind_Inr_iff whole_def Let_def split: if_splits)
    show ?thesis
    proof (cases "fits_limit env limit (with_evidence (share_review_values (sorted_text env) (PDict structured)) p)")
      case True
      then show ?thesis using that(2) [OF whole True st] v by simp
    next
      case no: False
      then have "v = cut_to_fit env limit p" using v by simp
      then show ?thesis
        using cut_to_fit_result [of p env limit] whole False that(3,4) unfolding whole_def by metis
    qed
  qed
qed

lemma review_fits_limit:
  assumes "review_material env question answer evidence limit = Inr v"
  shows "int (length (as_text env v)) \<le> limit
    \<or> (\<exists>c. v = PDict [(''evidence_completeness'', c), (''review_completeness'', PStr ''incomplete'')])"
  using assms by (cases rule: review_material_cases) (auto simp: fits_limit_def)

text \<open>What a reviewer may conclude from evidence in a payload: it is the evidence, or the shared
  form of the evidence whose JSON contents were parsed, which reads back as exactly that.\<close>

definition tells :: "review_env \<Rightarrow> pydict \<Rightarrow> pydict \<Rightarrow> bool" where
  "tells env shown r \<longleftrightarrow> r = shown \<or>
     (\<exists>structured w. structured_evidence env shown = Inr structured
        \<and> shared_reading r = (\<lambda>w'. w' = w) \<and> canon w = canon (PDict structured))"

definition told_apart :: "review_env \<Rightarrow> pydict \<Rightarrow> bool" where
  "told_apart env shown \<longleftrightarrow>
     (\<forall>structured. structured_evidence env shown = Inr structured \<longrightarrow> wf_py (PDict structured)
        \<and> (\<forall>a \<in> set (subvalues (PDict structured)). \<forall>b \<in> set (subvalues (PDict structured)).
             sorted_text env a = sorted_text env b \<longrightarrow> canon a = canon b))"

text \<open>C8.
  Nothing is dropped silently: if the material of a review does not declare itself incomplete,
  then question and answer are whole and the evidence tells everything that was collected,
  directly or through its own table of shared values.
\<close>

theorem complete_review_hides_nothing:
  assumes "review_material env question answer evidence limit = Inr (PDict p)"
    and "dget p ''review_completeness'' \<noteq> PStr ''incomplete''"
    and "told_apart env (shown_evidence (dict_of evidence))"
  shows "dget p ''question'' = PStr (text_or_empty (value_repr env) question)
    \<and> dget p ''answer'' = PStr (text_or_empty (value_repr env) answer)
    \<and> tells env (shown_evidence (dict_of evidence)) (runtime_evidence p)"
  using assms(1)
proof (cases rule: review_material_cases)
  case (1 p')
  then show ?thesis by (simp add: whole_def tells_def)
next
  case (2 p' structured)
  let ?shared = "share_review_values (sorted_text env) (PDict structured)"
  have p: "p = with_evidence ?shared p'" using 2(4) by simp
  have "\<exists>w. shared_reading ?shared = (\<lambda>w'. w' = w) \<and> canon w = canon (PDict structured)"
    using assms(3) 2(3) unfolding told_apart_def by (intro shared_reading_unique) blast+
  then have "tells env (shown_evidence (dict_of evidence)) ?shared" using 2(3) unfolding tells_def by blast
  moreover have "runtime_evidence p = ?shared"
    by (simp add: p with_evidence_def runtime_evidence_def dget_update)
  moreover have "dget p ''question'' = dget p' ''question''" "dget p ''answer'' = dget p' ''answer''"
    by (simp_all add: p with_evidence_def dget_update)
  ultimately show ?thesis using 2(1) by (simp add: whole_def)
next
  case (3 p')
  then show ?thesis using assms(2) by (simp add: marked_cut_def)
next
  case (4 c)
  then show ?thesis using assms(2) by simp
qed


section \<open>A sample review\<close>

definition sample_review_env :: review_env where
  "sample_review_env =
     \<lparr>as_text = (\<lambda>v. if dget (runtime_evidence (dict_of v)) ''encoding'' = PNone then replicate 50 CHR ''t'' else ''t''),
      sorted_text = sample_facts_text, loads = (\<lambda>s. None), value_repr = (\<lambda>v. ''?'')\<rparr>"

definition sample_evidence :: pydict where
  "sample_evidence = [(''facts'', sample_facts_list), (''_state'', PInt 1)]"

definition sample_payload :: pydict where
  "sample_payload =
     with_evidence (share_review_values sample_facts_text (PDict [(''facts'', sample_facts_list)]))
       (base_payload sample_review_env (PStr ''q'') (PStr ''a'') sample_evidence)"

lemma sample_text:
  "as_text sample_review_env v =
     (if dget (runtime_evidence (dict_of v)) ''encoding'' = PNone then replicate 50 CHR ''t'' else ''t'')"
  by (simp add: sample_review_env_def)

lemma sample_shown: "shown_evidence sample_evidence = [(''facts'', sample_facts_list)]"
  by (simp add: shown_evidence_def sample_evidence_def is_evidence_key_def)

lemma sample_review:
  "review_material sample_review_env (PStr ''q'') (PStr ''a'') (PDict sample_evidence) 10 = Inr (PDict sample_payload)"
proof -
  let ?p = "base_payload sample_review_env (PStr ''q'') (PStr ''a'') sample_evidence"
  have base: "runtime_evidence ?p = [(''facts'', sample_facts_list)]"
    by (simp add: base_payload_def runtime_evidence_def sample_shown [unfolded shown_evidence_def] Let_def)
  have long: "\<not> fits_limit sample_review_env 10 ?p"
    by (simp add: fits_limit_def sample_text base)
  have short: "fits_limit sample_review_env 10 sample_payload"
    by (simp add: fits_limit_def sample_text sample_payload_def with_evidence_def runtime_evidence_def dget_update
        share_review_values_def Let_def split: prod.split)
  have "with_instructions (dget sample_evidence ''answer_artifacts'') ?p = Inr ?p"
    by (simp add: with_instructions_def sample_evidence_def)
  then show ?thesis
    using long short
    by (simp add: review_material_def base structured_evidence_def sample_payload_def Let_def)
       (simp add: sample_review_env_def)
qed

lemma complete_review_hides_nothing_witness:
  "dget sample_payload ''question'' = PStr ''q'' \<and> dget sample_payload ''answer'' = PStr ''a''
   \<and> tells sample_review_env [(''facts'', sample_facts_list)] (runtime_evidence sample_payload)"
proof -
  have "dget sample_payload ''review_completeness'' \<noteq> PStr ''incomplete''"
    by (simp add: sample_payload_def with_evidence_def dget_update base_payload_def sample_evidence_def dget_default_def Let_def)
  moreover have "told_apart sample_review_env (shown_evidence (dict_of (PDict sample_evidence)))"
    by (simp add: told_apart_def sample_shown structured_evidence_def sample_review_env_def sample_facts_list_def sample_facts_text_def)
  ultimately show ?thesis
    using complete_review_hides_nothing [OF sample_review] by (simp add: sample_shown)
qed

end
