(* ===== verification/Answer_Review.thy ===== *)
theory Answer_Review
  imports SL_Prelude
begin

text \<open>
  How the verdicts of the bound Decision gates read as one status,
  \<open>evidence_gate._review_status\<close> (\<open>lensnode/lensnode/agent_runtime/evidence_gate.py\<close>).
\<close>

definition text_in :: "string list \<Rightarrow> py \<Rightarrow> bool" where
  "text_in xs v = (case v of PStr s \<Rightarrow> s \<in> set xs | _ \<Rightarrow> False)"

definition review_status :: "pydict \<Rightarrow> string" where
  "review_status v =
     (if dget v ''review_completeness'' = PStr ''incomplete'' then ''inconclusive''
      else case map_of v ''answer_supported'' of
             Some option \<Rightarrow>
               (if option = PStr ''supported'' then ''supported''
                else if option = PStr ''unsupported'' then ''unsupported'' else ''inconclusive'')
           | None \<Rightarrow>
               let strength = dget v ''evidence_strength''; sufficient = map_of v ''evidence_sufficient''
               in if dget v ''review_available'' = PBool False then ''inconclusive''
                  else if sufficient = Some (PBool False)
                     \<or> text_in [''adapted_only'', ''example_only'', ''planned'', ''unsupported'', ''contradicted''] strength
                  then ''unsupported''
                  else if sufficient = Some PNone \<or> strength = PStr ''unknown'' then ''inconclusive''
                  else if sufficient = Some (PBool True) \<or> text_in [''direct'', ''derived'', ''qualified_weak''] strength
                  then ''supported'' else ''not_requested'')"

end
