(* ===== verification/Evidence_Gate.thy ===== *)
theory Evidence_Gate
  imports Answer_Review Citations Json_Values
begin

text \<open>
  The middleware around the agent's model calls, \<open>EvidenceGateMiddleware\<close> of
  \<open>lensnode/lensnode/agent_runtime/evidence_gate.py\<close>: before each call it ends a search that no
  longer gains information, after each proposed answer it sends unsupported answers back. The
  fields of the object and of its persisted \<open>review_state\<close> are one record, since the source keeps
  them equal. Decision gates, delivery staging and completion checks are the run's own: their
  answers are arguments. JSON decoding and digests are parameters.
\<close>

definition DEFAULT_DELIVERY_TURNS :: int where "DEFAULT_DELIVERY_TURNS = 8"
definition PUBLICATION_GRACE_TURNS :: int where "PUBLICATION_GRACE_TURNS = 2"
definition MAX_EVIDENCE_RECORDS :: int where "MAX_EVIDENCE_RECORDS = 600"

record gate_env =
  ge_loads :: "string \<Rightarrow> py option"
  ge_digest :: "py \<Rightarrow> string"
  ge_digest_text :: "string \<Rightarrow> string"
  ge_repr :: "py \<Rightarrow> string"

record review_config =
  gc_interval :: int
  gc_max_nudges :: int
  gc_max_convergence :: int
  gc_max_stall :: int
  gc_max_pages :: int
  gc_page_grace :: int
  gc_artifact_required :: bool
  gc_prepares :: bool
  gc_checks :: bool
  gc_active :: bool
  gc_review_enabled :: bool

definition make_config :: "int \<Rightarrow> int \<Rightarrow> int \<Rightarrow> int \<Rightarrow> int \<Rightarrow> int \<Rightarrow> bool \<Rightarrow> bool \<Rightarrow> bool \<Rightarrow> bool \<Rightarrow> bool \<Rightarrow> review_config" where
  "make_config interval nudges convergence stall pages grace artifact prepares checks active enabled =
     \<lparr>gc_interval = max interval 1, gc_max_nudges = max nudges 0, gc_max_convergence = max convergence 0,
      gc_max_stall = max stall 0, gc_max_pages = max pages 0, gc_page_grace = max grace 0,
      gc_artifact_required = artifact, gc_prepares = prepares, gc_checks = checks,
      gc_active = active, gc_review_enabled = enabled\<rparr>"

record gate_state =
  g_model_calls :: int
  g_convergence_calls :: int
  g_answer_nudges :: int
  g_convergence_nudges :: int
  g_delivery_turns :: int
  g_corrections :: int
  g_saw_final :: bool
  g_stall :: int
  g_observed :: string
  g_grace :: int
  g_progress_seen :: "string set"
  g_allowances :: "(string \<times> int) list"
  g_cursors :: "(string \<times> int option) list"
  g_signatures :: "string set"
  g_page_reads :: int
  g_page_limit :: bool
  g_delivery_corrections :: int
  g_check_codes :: "string set"
  g_delivery_nudged :: bool
  g_action :: string
  g_exhausted :: bool
  g_reason :: string

definition fresh_gate :: gate_state where
  "fresh_gate =
     \<lparr>g_model_calls = 0, g_convergence_calls = 0, g_answer_nudges = 0, g_convergence_nudges = 0,
      g_delivery_turns = 0, g_corrections = 0, g_saw_final = False, g_stall = 0, g_observed = [],
      g_grace = 0, g_progress_seen = {}, g_allowances = [], g_cursors = [], g_signatures = {},
      g_page_reads = 0, g_page_limit = False, g_delivery_corrections = 0, g_check_codes = {},
      g_delivery_nudged = False, g_action = [], g_exhausted = False, g_reason = []\<rparr>"

section \<open>Messages\<close>

record gate_call =
  tc_id :: string
  tc_name :: string
  tc_args :: pydict

datatype gate_message =
    AIMessage py "gate_call list"
  | ToolMessage string string string py
  | OtherMessage py

text \<open>\<open>_message_text\<close>\<close>

definition content_text :: "gate_env \<Rightarrow> py \<Rightarrow> string" where
  "content_text env content =
     (case content of
        PStr s \<Rightarrow> s
      | PList items \<Rightarrow> join_with '' '' (map (\<lambda>item. text_or_empty (ge_repr env) (dget (dict_of item) ''text''))
                                          (filter is_dict items))
      | v \<Rightarrow> text_or_empty (ge_repr env) v)"

text \<open>The latest call under each identifier.\<close>

fun calls_in :: "gate_message \<Rightarrow> gate_call list" where
  "calls_in (AIMessage _ calls) = calls"
| "calls_in _ = []"

definition calls_by_id :: "gate_message list \<Rightarrow> string \<Rightarrow> gate_call option" where
  "calls_by_id messages i =
     map_of (map (\<lambda>c. (tc_id c, c)) (rev (concat (map calls_in messages)))) i"

text \<open>The trailing tool messages, the last one first.\<close>

fun is_tool :: "gate_message \<Rightarrow> bool" where
  "is_tool (ToolMessage _ _ _ _) = True"
| "is_tool _ = False"

definition last_batch :: "gate_message list \<Rightarrow> gate_message list" where
  "last_batch messages = takeWhile is_tool (rev messages)"

section \<open>Reading tool results\<close>

fun resolve_dots :: "string list \<Rightarrow> string list \<Rightarrow> string list" where
  "resolve_dots acc [] = rev acc"
| "resolve_dots acc (p # ps) =
     (if p = ''..'' then resolve_dots (tl acc) ps else resolve_dots (p # acc) ps)"

text \<open>\<open>posixpath.normpath("/" + text.lstrip("/"))\<close>\<close>

definition rooted_path :: "string \<Rightarrow> string" where
  "rooted_path s = ''/'' @ join_with ''/'' (resolve_dots [] (path_parts s))"

definition artifact_write_ok :: "gate_env \<Rightarrow> gate_message \<Rightarrow> bool" where
  "artifact_write_ok env msg =
     (case msg of
        ToolMessage name status _ content \<Rightarrow>
          name \<in> {''write_file'', ''edit_file'', ''append_file''} \<and>
          (let text = py_strip (content_text env content)
           in status \<noteq> ''error'' \<and> \<not> prefix ''error'' (map lower_char text) \<and>
              (case ge_loads env text of
                 Some (PDict d) \<Rightarrow> dget d ''ok'' \<noteq> PBool False \<and> \<not> truthy (dget d ''error'')
               | _ \<Rightarrow> True))
      | _ \<Rightarrow> False)"

definition collection_keys :: "string list" where
  "collection_keys = [''items'', ''results'', ''matches'', ''hits'', ''data'', ''records'', ''files'', ''rows'']"

definition carries_payload :: "gate_env \<Rightarrow> string \<Rightarrow> bool" where
  "carries_payload env text =
     (let stripped = py_strip text
      in stripped \<noteq> [] \<and>
         (case ge_loads env stripped of
            None \<Rightarrow> True
          | Some (PDict d) \<Rightarrow>
              (let lists = List.map_filter (\<lambda>k. case dget d k of PList vs \<Rightarrow> Some vs | _ \<Rightarrow> None) collection_keys
               in if lists \<noteq> [] then \<exists>vs \<in> set lists. vs \<noteq> [] else d \<noteq> [])
          | Some v \<Rightarrow> truthy v))"

text \<open>\<open>text.replace(old, "")\<close> for a text that is not empty.\<close>

function erase :: "string \<Rightarrow> string \<Rightarrow> string" where
  "erase old [] = []"
| "erase old (c # cs) =
     (if old \<noteq> [] \<and> prefix old (c # cs) then erase old (drop (length old) (c # cs)) else c # erase old cs)"
  by pat_completeness auto
termination
  by (relation "measure (\<lambda>(old, s). length s)") (auto simp: length_greater_0_conv [symmetric] simp del: length_greater_0_conv)

definition result_signature :: "gate_env \<Rightarrow> string \<Rightarrow> pydict \<Rightarrow> string" where
  "result_signature env text args =
     ge_digest_text env
       (foldl (\<lambda>t (k, v). case v of PStr s \<Rightarrow> if length s \<ge> 3 then erase s t else t | _ \<Rightarrow> t) text args)"

section \<open>Progress\<close>

text \<open>
  \<open>_artifact_progress\<close>, one trailing tool message at a time. The pair says whether anything
  advanced and whether the last evidence page completed its snapshot.
\<close>

type_synonym progress_acc = "gate_state \<times> bool \<times> bool"

definition note_progress :: "gate_env \<Rightarrow> py \<Rightarrow> string option \<Rightarrow> bool \<Rightarrow> progress_acc \<Rightarrow> progress_acc" where
  "note_progress env progress allowance completed acc =
     (let (g, advanced, _) = acc; signature = ge_digest env progress
      in if signature \<notin> g_progress_seen g \<and>
            (case allowance of None \<Rightarrow> True | Some a \<Rightarrow> cget (g_allowances g) a < DEFAULT_DELIVERY_TURNS)
         then (g\<lparr>g_progress_seen := insert signature (g_progress_seen g),
                 g_allowances := (case allowance of None \<Rightarrow> g_allowances g | Some a \<Rightarrow> cinc a (g_allowances g))\<rparr>,
               True, completed)
         else (g, advanced, completed))"

definition page_progress :: "review_config \<Rightarrow> gate_env \<Rightarrow> py \<Rightarrow> progress_acc \<Rightarrow> progress_acc" where
  "page_progress cfg env content acc =
     (let (g, advanced, completed) = acc
      in case ge_loads env (content_text env content) of
           Some (PDict payload) \<Rightarrow>
             (case dget payload ''read_progress'' of
                PDict page \<Rightarrow>
                  (case dget page ''snapshot_sha256'' of
                     PStr snapshot \<Rightarrow>
                       if snapshot = [] then acc
                       else
                         let infeasible = (case dget page ''total_records'' of PInt n \<Rightarrow> n > MAX_EVIDENCE_RECORDS | _ \<Rightarrow> False);
                             reads = g_page_reads g + 1;
                             g1 = (if infeasible then g\<lparr>g_page_reads := reads\<rparr> else g);
                             complete = (dget page ''complete'' = PBool True);
                             previous = (case map_of (g_cursors g) snapshot of None \<Rightarrow> Some (-1) | Some c \<Rightarrow> c);
                             advances = (case previous of
                                 None \<Rightarrow> False
                               | Some c \<Rightarrow> complete \<or> (case dget page ''next_offset'' of PInt n \<Rightarrow> n > c | _ \<Rightarrow> False));
                             cursor = (if complete then None
                                       else case dget page ''next_offset'' of PInt n \<Rightarrow> Some n | _ \<Rightarrow> None);
                             g2 = g1\<lparr>g_cursors := AList.update snapshot cursor (g_cursors g)\<rparr>
                         in if infeasible \<and> reads > gc_max_pages cfg then (g1\<lparr>g_page_limit := True\<rparr>, advanced, completed)
                            else if \<not> advances then (g1, advanced, completed)
                            else if infeasible \<and> reads > gc_page_grace cfg then (g2, advanced, completed)
                            else note_progress env
                                   (PList [PStr snapshot, dget page ''next_offset'', dget page ''complete'']) None complete
                                   (g2, advanced, completed)
                   | _ \<Rightarrow> acc)
              | _ \<Rightarrow> acc)
         | _ \<Rightarrow> acc)"

definition message_progress :: "review_config \<Rightarrow> gate_env \<Rightarrow> (string \<Rightarrow> gate_call option) \<Rightarrow> progress_acc \<Rightarrow> gate_message \<Rightarrow> progress_acc" where
  "message_progress cfg env calls acc msg =
     (case msg of
        ToolMessage _ status cid content \<Rightarrow>
          if status = ''error'' then acc
          else (case calls cid of
             None \<Rightarrow> acc
           | Some call \<Rightarrow>
               let name = tc_name call; args = tc_args call; (g, advanced, completed) = acc;
                   path = rooted_path (text_or_empty (ge_repr env) (dget args ''file_path''));
                   output = rooted_path (text_or_empty (ge_repr env) (py_or (dget args ''file_path'') (dget args ''path'')))
               in if name \<in> {''ls'', ''write_todos''}
                     \<or> (name = ''read_file'' \<and> (prefix ''/skills/'' path \<or> prefix ''/mcp/'' path))
                  then note_progress env (PList [PStr name, PDict args]) (Some ''preparation'') completed acc
                  else if artifact_write_ok env msg
                  then (if prefix ''/deliverables/'' output
                        then note_progress env (PList [PStr name, PDict args]) (Some ''writing'') completed acc else acc)
                  else if name = ''read_tool_evidence'' then page_progress cfg env content acc
                  else acc)
      | _ \<Rightarrow> acc)"

datatype progressed = Stalled | Advanced | Completed

definition artifact_progress :: "review_config \<Rightarrow> gate_env \<Rightarrow> gate_message list \<Rightarrow> gate_state \<Rightarrow> progressed \<times> gate_state" where
  "artifact_progress cfg env messages g =
     (let (g', advanced, completed) =
            foldl (message_progress cfg env (calls_by_id messages)) (g, False, False) (last_batch messages)
      in (if \<not> advanced then Stalled else if completed then Completed else Advanced, g'))"


section \<open>Information gain\<close>

definition known_results :: "(string \<Rightarrow> gate_call option) \<Rightarrow> gate_message list \<Rightarrow> (gate_call \<times> string \<times> py \<times> gate_message) list" where
  "known_results calls batch =
     List.map_filter (\<lambda>m. case m of
         ToolMessage _ status cid content \<Rightarrow> map_option (\<lambda>c. (c, status, content, m)) (calls cid)
       | _ \<Rightarrow> None) batch"

text \<open>The loop over the batch: what was seen, whether anything was new, whether anything counted.\<close>

type_synonym gain_acc = "string set \<times> bool \<times> bool"

definition result_gain :: "gate_env \<Rightarrow> gain_acc \<Rightarrow> gate_call \<times> string \<times> py \<times> gate_message \<Rightarrow> gain_acc" where
  "result_gain env acc r =
     (let (call, status, content, msg) = r; (seen, gained, eligible) = acc;
          text = content_text env content;
          signature = result_signature env text (tc_args call)
      in if status = ''error'' \<or> tc_name call \<in> {''ls'', ''write_todos'', ''read_tool_evidence''} \<or> artifact_write_ok env msg
         then acc
         else if \<not> carries_payload env text then (seen, gained, True)
         else if signature \<in> seen then (seen, gained, True)
         else (insert signature seen, True, True))"

definition information_gain :: "gate_env \<Rightarrow> gate_message list \<Rightarrow> gate_state \<Rightarrow> bool option \<times> gate_state" where
  "information_gain env messages g =
     (let results = known_results (calls_by_id messages) (last_batch messages);
          batch = PList (map (\<lambda>(c, _, content, _). PList [PStr (tc_name c), PStr (content_text env content)]) results);
          signature = ge_digest env batch;
          (seen, gained, eligible) = foldl (result_gain env) (g_signatures g, False, False) results
      in if results = [] \<or> signature = g_observed g then (None, g)
         else (if eligible then Some gained else None, g\<lparr>g_observed := signature, g_signatures := seen\<rparr>))"

definition record_stall :: "bool option \<Rightarrow> gate_state \<Rightarrow> gate_state" where
  "record_stall progressed g =
     (case progressed of
        None \<Rightarrow> g
      | Some b \<Rightarrow> g\<lparr>g_stall := (if b then 0 else g_stall g + 1)\<rparr>)"

section \<open>Before a model call\<close>

text \<open>What the middleware answers: nothing, a message to the agent, the end of the loop with its
  reason, or another model call with guidance.\<close>

datatype gate_move =
    Proceed
  | Guide string
  | EndLoop string
  | BackToModel string

definition end_convergence :: "string \<Rightarrow> gate_state \<Rightarrow> gate_move \<times> gate_state" where
  "end_convergence reason g = (EndLoop reason, g\<lparr>g_exhausted := True, g_reason := reason\<rparr>)"

definition recent_write :: "gate_env \<Rightarrow> gate_message list \<Rightarrow> bool" where
  "recent_write env messages = (\<exists>m \<in> set (last_batch messages). artifact_write_ok env m)"

text \<open>The part after the nudges are used up: a bounded number of turns to write the artifact.\<close>

definition deliver_or_end :: "review_config \<Rightarrow> gate_env \<Rightarrow> gate_message list \<Rightarrow> gate_state \<Rightarrow> gate_move \<times> gate_state" where
  "deliver_or_end cfg env messages g =
     (let late = gc_artifact_required cfg \<and> g_delivery_turns g \<ge> DEFAULT_DELIVERY_TURNS;
          grace = late \<and> g_grace g < PUBLICATION_GRACE_TURNS \<and> (recent_write env messages \<or> g_grace g \<noteq> 0);
          g1 = (if grace then g\<lparr>g_grace := g_grace g + 1\<rparr> else g)
      in if gc_artifact_required cfg \<and> (g_delivery_turns g < DEFAULT_DELIVERY_TURNS \<or> grace)
         then (if g_delivery_turns g + 1 = 1 then Guide ''delivery'' else Proceed,
               g1\<lparr>g_delivery_turns := g_delivery_turns g + 1\<rparr>)
         else end_convergence ''convergence_budget'' g1)"

definition count_call :: "review_config \<Rightarrow> gate_env \<Rightarrow> gate_message list \<Rightarrow> gate_state \<Rightarrow> gate_move \<times> gate_state" where
  "count_call cfg env messages g0 =
     (let g = g0\<lparr>g_convergence_calls := g_convergence_calls g0 + 1\<rparr>
      in if g_corrections g > 0 then (Proceed, g\<lparr>g_corrections := g_corrections g - 1\<rparr>)
         else if g_convergence_nudges g \<ge> gc_max_convergence cfg then deliver_or_end cfg env messages g
         else if g_convergence_calls g mod gc_interval cfg \<noteq> 0 then (Proceed, g)
         else (Guide (if gc_artifact_required cfg then ''delivery'' else ''convergence''),
               g\<lparr>g_convergence_nudges := g_convergence_nudges g + 1\<rparr>))"

definition before_model :: "review_config \<Rightarrow> gate_env \<Rightarrow> gate_message list \<Rightarrow> gate_state \<Rightarrow> gate_move \<times> gate_state" where
  "before_model cfg env messages g =
     (if g_saw_final g \<or> gc_max_convergence cfg \<le> 0 then (Proceed, g)
      else
        let g0 = g\<lparr>g_model_calls := g_model_calls g + 1\<rparr>;
            (progress, g1) = artifact_progress cfg env messages g0;
            (gain, g2) = (if progress \<noteq> Stalled then (Some True, g1) else information_gain env messages g1);
            g3 = record_stall gain g2
        in if g_page_limit g3 then end_convergence ''evidence_corpus_limit'' g3
           else if gc_max_stall cfg \<noteq> 0 \<and> g_stall g3 \<ge> gc_max_stall cfg then end_convergence ''no_information_gain'' g3
           else if g_convergence_nudges g3 < gc_max_convergence cfg \<and> progress \<noteq> Stalled
           then (if progress = Completed
                 then Guide (if gc_artifact_required cfg then ''delivery'' else ''analysis'') else Proceed, g3)
           else count_call cfg env messages g3)"

section \<open>After a proposed answer\<close>

definition begin_correction :: "review_config \<Rightarrow> gate_state \<Rightarrow> gate_state" where
  "begin_correction cfg g =
     g\<lparr>g_saw_final := False, g_convergence_calls := 0, g_convergence_nudges := 0, g_delivery_turns := 0,
       g_corrections := gc_interval cfg, g_grace := 0, g_allowances := [], g_stall := 0, g_observed := [],
       g_exhausted := False\<rparr>"

record gate_check =
  ck_code :: "string option"
  ck_recovery :: string
  ck_message :: string

definition failed_check :: gate_check where
  "failed_check = \<lparr>ck_code = Some ''completion_check_failed'',
     ck_recovery = ''Completion verification failed. Retry once.'', ck_message = []\<rparr>"

definition check_text :: "gate_check \<Rightarrow> string" where
  "check_text c = (if ck_recovery c \<noteq> [] then ck_recovery c else if ck_message c \<noteq> [] then ck_message c
     else ''Correct the answer from the evidence.'')"

definition fresh_checks :: "string set \<Rightarrow> gate_check list \<Rightarrow> gate_check list" where
  "fresh_checks seen = filter (\<lambda>c. case ck_code c of None \<Rightarrow> True | Some k \<Rightarrow> k \<notin> seen)"

definition code_of_check :: "gate_check \<Rightarrow> string" where
  "code_of_check c = (case ck_code c of None \<Rightarrow> ''completion_check'' | Some k \<Rightarrow> k)"

text \<open>
  What the run says of one proposed answer: the issues of delivery staging, the completion
  checks (\<open>None\<close> when they raised), whether deliverables are staged, and the verdicts of the
  gates (\<open>None\<close> when the review failed or gave nothing).
\<close>

record answer_facts =
  af_issues :: "string list"
  af_checks :: "gate_check list option"
  af_deliverables :: bool
  af_verdicts :: "pydict option"

definition review_answer :: "review_config \<Rightarrow> answer_facts \<Rightarrow> gate_state \<Rightarrow> gate_move \<times> gate_state" where
  "review_answer cfg facts g0 =
     (if \<not> gc_active cfg then (Proceed, g0)
      else if gc_artifact_required cfg \<and> \<not> af_deliverables facts \<and> \<not> g_delivery_nudged g0
      then (BackToModel ''delivery'', g0\<lparr>g_delivery_nudged := True\<rparr>)
      else
        let g = g0\<lparr>g_saw_final := True\<rparr>
        in if \<not> gc_review_enabled cfg then (Proceed, g)
           else case af_verdicts facts of
             None \<Rightarrow> (Proceed, g)
           | Some verdicts \<Rightarrow>
               let status = review_status verdicts
               in if status = ''inconclusive'' then (Proceed, g\<lparr>g_action := ''inconclusive''\<rparr>)
                  else if status \<in> {''supported'', ''not_requested''} then (Proceed, g\<lparr>g_action := ''accept''\<rparr>)
                  else if g_answer_nudges g \<ge> gc_max_nudges cfg
                  then (Proceed, g\<lparr>g_action := ''accept_best_effort''\<rparr>)
                  else (BackToModel ''review'',
                        (begin_correction cfg (g\<lparr>g_answer_nudges := g_answer_nudges g + 1\<rparr>))\<lparr>g_action := ''recheck''\<rparr>))"

definition after_model :: "review_config \<Rightarrow> gate_env \<Rightarrow> gate_message option \<Rightarrow> answer_facts \<Rightarrow> gate_state \<Rightarrow> gate_move \<times> gate_state" where
  "after_model cfg env last_message facts g =
     (case last_message of
        Some (AIMessage content []) \<Rightarrow>
          if py_strip (content_text env content) = [] then (Proceed, g)
          else if gc_prepares cfg \<and> af_issues facts \<noteq> []
          then (if g_delivery_corrections g \<ge> 2 then (Proceed, g)
                else (BackToModel (join_with [CHR 0x0A] (af_issues facts)),
                      begin_correction cfg (g\<lparr>g_delivery_corrections := g_delivery_corrections g + 1\<rparr>)))
          else
            let checks = (if gc_checks cfg
                   then fresh_checks (g_check_codes g) (case af_checks facts of None \<Rightarrow> [failed_check] | Some cs \<Rightarrow> cs)
                   else [])
            in if checks \<noteq> []
               then (BackToModel (join_with [CHR 0x0A] (map check_text checks)),
                     (begin_correction cfg (g\<lparr>g_check_codes := g_check_codes g \<union> set (map code_of_check checks)\<rparr>))\<lparr>g_action := ''recheck''\<rparr>)
               else review_answer cfg facts g
      | _ \<Rightarrow> (Proceed, g))"

text \<open>
  One turn of the agent loop: the middleware, the model's message, the middleware again. The
  loop goes on when the message has pending tool calls or the answer is sent back.
\<close>

record turn =
  tn_messages :: "gate_message list"
  tn_reply :: gate_message
  tn_facts :: answer_facts

definition gate_turn :: "review_config \<Rightarrow> gate_env \<Rightarrow> turn \<Rightarrow> gate_state \<Rightarrow> bool \<times> gate_state" where
  "gate_turn cfg env t g =
     (case before_model cfg env (tn_messages t) g of
        (EndLoop _, g1) \<Rightarrow> (False, g1)
      | (_, g1) \<Rightarrow>
          (case tn_reply t of
             AIMessage _ (c # cs) \<Rightarrow> (True, g1)
           | reply \<Rightarrow>
               (case after_model cfg env (Some reply) (tn_facts t) g1 of
                  (BackToModel _, g2) \<Rightarrow> (True, g2)
                | (_, g2) \<Rightarrow> (False, g2))))"

text \<open>The turns of the list that are taken, and the state they end in.\<close>

fun gate_loop :: "review_config \<Rightarrow> gate_env \<Rightarrow> turn list \<Rightarrow> gate_state \<Rightarrow> turn list \<times> gate_state" where
  "gate_loop cfg env [] g = ([], g)"
| "gate_loop cfg env (t # ts) g =
     (let (goes_on, g') = gate_turn cfg env t g
      in if goes_on then (let (taken, g'') = gate_loop cfg env ts g' in (t # taken, g'')) else ([t], g'))"

end
