(* ===== verification/Gate_Bounds.thy ===== *)
theory Gate_Bounds
  imports Evidence_Gate
begin

text \<open>
  The evidence gate cannot keep a run busy: the number of model calls of the loop is bounded by
  the corrections it may ask for, the calls each phase allows, and the distinct pieces of
  progress that were made.
\<close>

section \<open>What progress changes\<close>

text \<open>The fields the convergence rules count with.\<close>

definition counters :: "gate_state \<Rightarrow> int \<times> int \<times> int \<times> int \<times> int \<times> int \<times> int \<times> string set \<times> bool \<times> bool" where
  "counters g = (g_convergence_calls g, g_convergence_nudges g, g_delivery_turns g, g_corrections g, g_grace g,
     g_answer_nudges g, g_delivery_corrections g, g_check_codes g, g_delivery_nudged g, g_saw_final g)"

lemma counters_upd [simp]:
  "counters (g_progress_seen_update f g) = counters g" "counters (g_allowances_update f1 g) = counters g"
  "counters (g_cursors_update f2 g) = counters g" "counters (g_page_reads_update f3 g) = counters g"
  "counters (g_page_limit_update f4 g) = counters g" "counters (g_stall_update f5 g) = counters g"
  "counters (g_observed_update f6 g) = counters g" "counters (g_signatures_update f7 g) = counters g"
  "counters (g_model_calls_update f8 g) = counters g" "counters (g_exhausted_update f9 g) = counters g"
  "counters (g_reason_update f10 g) = counters g" "counters (g_action_update f11 g) = counters g"
  by (simp_all add: counters_def)

text \<open>Seen signatures only grow, and an advance adds one.\<close>

definition grows :: "progress_acc \<Rightarrow> progress_acc \<Rightarrow> bool" where
  "grows acc acc' \<longleftrightarrow> counters (fst acc') = counters (fst acc) \<and> g_action (fst acc') = g_action (fst acc)
     \<and> g_progress_seen (fst acc) \<subseteq> g_progress_seen (fst acc')
     \<and> (finite (g_progress_seen (fst acc)) \<longrightarrow> finite (g_progress_seen (fst acc')))
     \<and> (fst (snd acc') \<and> \<not> fst (snd acc) \<longrightarrow> g_progress_seen (fst acc) \<noteq> g_progress_seen (fst acc'))
     \<and> (fst (snd acc) \<longrightarrow> fst (snd acc'))"

lemma grows_refl [simp]: "grows acc acc"
  by (simp add: grows_def)

lemma grows_trans: "grows a b \<Longrightarrow> grows b c \<Longrightarrow> grows a c"
  unfolding grows_def by (metis subset_antisym subset_trans)

lemma grows_note_progress: "grows acc (note_progress env p al done_page acc)"
  by (cases acc) (auto simp: note_progress_def grows_def Let_def)

lemma grows_page_progress: "grows acc (page_progress cfg env content acc)"
proof -
  obtain g advanced completed where acc: "acc = (g, advanced, completed)" by (cases acc)
  have same: "grows acc (g', advanced, completed')"
    if "counters g' = counters g" "g_action g' = g_action g" "g_progress_seen g' = g_progress_seen g" for g' completed'
    using that by (simp add: grows_def acc)
  have noted: "grows acc (note_progress env p al done_page (g', advanced, completed'))"
    if "counters g' = counters g" "g_action g' = g_action g" "g_progress_seen g' = g_progress_seen g" for g' completed' p al done_page
    using grows_trans [OF same [OF that] grows_note_progress] .
  show ?thesis
    unfolding page_progress_def acc prod.case Let_def
    using same noted by (auto simp: acc split: option.split py.split)
qed

lemma grows_message: "grows acc (message_progress cfg env calls acc m)"
  by (cases m; cases acc)
     (auto simp: message_progress_def Let_def intro: grows_note_progress grows_page_progress split: option.split)

lemma grows_fold: "grows acc (foldl (message_progress cfg env calls) acc ms)"
proof (induction ms arbitrary: acc)
  case (Cons m ms)
  then show ?case using grows_trans [OF grows_message Cons.IH] by simp
qed simp

lemma artifact_progress_effect:
  assumes "artifact_progress cfg env ms g = (p, g')"
  shows "counters g' = counters g" "g_progress_seen g \<subseteq> g_progress_seen g'"
    "finite (g_progress_seen g) \<Longrightarrow> finite (g_progress_seen g')"
    "p \<noteq> Stalled \<Longrightarrow> g_progress_seen g \<noteq> g_progress_seen g'" "g_action g' = g_action g"
proof -
  let ?f = "foldl (message_progress cfg env (calls_by_id ms)) (g, False, False) (last_batch ms)"
  have "grows (g, False, False) ?f" by (rule grows_fold)
  moreover have "g' = fst ?f" "p \<noteq> Stalled \<longleftrightarrow> fst (snd ?f)"
    using assms by (auto simp: artifact_progress_def Let_def split: prod.splits if_splits)
  ultimately show "counters g' = counters g" "g_progress_seen g \<subseteq> g_progress_seen g'"
    "finite (g_progress_seen g) \<Longrightarrow> finite (g_progress_seen g')"
    "p \<noteq> Stalled \<Longrightarrow> g_progress_seen g \<noteq> g_progress_seen g'" "g_action g' = g_action g"
    by (auto simp: grows_def)
qed

lemma information_gain_effect:
  "counters (snd (information_gain env ms g)) = counters g"
  "g_progress_seen (snd (information_gain env ms g)) = g_progress_seen g"
  "g_action (snd (information_gain env ms g)) = g_action g"
  by (simp_all add: information_gain_def Let_def split: prod.split)

lemma record_stall_effect [simp]:
  "counters (record_stall b g) = counters g" "g_progress_seen (record_stall b g) = g_progress_seen g"
  "g_action (record_stall b g) = g_action g"
  by (simp_all add: record_stall_def split: option.split)

section \<open>One phase\<close>

definition phase_ok :: "review_config \<Rightarrow> gate_state \<Rightarrow> bool" where
  "phase_ok cfg g \<longleftrightarrow> 0 \<le> g_corrections g \<and> 0 \<le> g_convergence_calls g
     \<and> 0 \<le> g_convergence_nudges g \<and> g_convergence_nudges g \<le> gc_max_convergence cfg
     \<and> 0 \<le> g_grace g \<and> g_grace g \<le> 2 \<and> 0 \<le> g_delivery_turns g \<and> g_delivery_turns g \<le> 8 + g_grace g
     \<and> (g_corrections g > 0 \<longrightarrow> g_convergence_nudges g = 0
          \<and> g_convergence_calls g + g_corrections g = gc_interval cfg)"

definition calls_left :: "review_config \<Rightarrow> gate_state \<Rightarrow> int" where
  "calls_left cfg g =
     (if g_corrections g > 0 then g_corrections g + gc_max_convergence cfg * gc_interval cfg
      else if g_convergence_nudges g < gc_max_convergence cfg
      then (gc_max_convergence cfg - g_convergence_nudges g) * gc_interval cfg
             - g_convergence_calls g mod gc_interval cfg
      else 0) + (10 - g_delivery_turns g)"

definition phase_bound :: "review_config \<Rightarrow> int" where
  "phase_bound cfg = gc_interval cfg * (gc_max_convergence cfg + 1) + 10"

lemma counters_cong:
  assumes "counters g' = counters g"
  shows "phase_ok cfg g' = phase_ok cfg g" "calls_left cfg g' = calls_left cfg g"
  using assms by (simp_all add: counters_def phase_ok_def calls_left_def)

lemma calls_left_nonneg:
  assumes "phase_ok cfg g" "1 \<le> gc_interval cfg" "0 < gc_max_convergence cfg"
  shows "0 \<le> calls_left cfg g"
proof -
  have "g_convergence_calls g mod gc_interval cfg < gc_interval cfg" using assms(2) by simp
  moreover have "gc_interval cfg \<le> (gc_max_convergence cfg - g_convergence_nudges g) * gc_interval cfg"
    if "g_convergence_nudges g < gc_max_convergence cfg"
    using that assms(2) by (simp add: mult_le_cancel_right1)
  moreover have "0 \<le> gc_max_convergence cfg * gc_interval cfg" using assms(2,3) by simp
  ultimately show ?thesis using assms(1) by (auto simp: calls_left_def phase_ok_def)
qed

lemma mod_step:
  fixes c :: int
  assumes "1 \<le> i"
  shows "(c + 1) mod i = (if c mod i = i - 1 then 0 else c mod i + 1)"
proof (cases "c mod i = i - 1")
  case True
  then have "(c + 1) mod i = 0" by (metis diff_add_cancel mod_add_left_eq mod_self)
  then show ?thesis using True by simp
next
  case False
  have "0 \<le> c mod i" "c mod i < i" using assms by simp_all
  then have "(c mod i + 1) mod i = c mod i + 1" using False by (intro mod_pos_pos_trivial) auto
  then show ?thesis using False by (simp add: mod_add_left_eq)
qed

lemma deliver_or_end_phase:
  assumes "phase_ok cfg g" "deliver_or_end cfg env ms g = (mv, g')" "\<forall>r. mv \<noteq> EndLoop r"
  shows "phase_ok cfg g' \<and> g_delivery_turns g' = g_delivery_turns g + 1
    \<and> g_corrections g' = g_corrections g \<and> g_convergence_nudges g' = g_convergence_nudges g
    \<and> g_convergence_calls g' = g_convergence_calls g"
  using assms
  by (auto simp: deliver_or_end_def Let_def end_convergence_def phase_ok_def DEFAULT_DELIVERY_TURNS_def
      PUBLICATION_GRACE_TURNS_def split: if_splits)

lemma count_call_phase:
  assumes ok: "phase_ok cfg g" and cfg: "1 \<le> gc_interval cfg" "0 < gc_max_convergence cfg"
    and move: "count_call cfg env ms g = (mv, g')" "\<forall>r. mv \<noteq> EndLoop r"
  shows "phase_ok cfg g' \<and> calls_left cfg g' < calls_left cfg g"
proof -
  let ?I = "gc_interval cfg" and ?M = "gc_max_convergence cfg"
  let ?g = "g\<lparr>g_convergence_calls := g_convergence_calls g + 1\<rparr>"
  consider (correcting) "g_corrections g > 0" | (late) "g_corrections g = 0" "g_convergence_nudges g \<ge> ?M"
    | (nudge) "g_corrections g = 0" "g_convergence_nudges g < ?M" "(g_convergence_calls g + 1) mod ?I = 0"
    | (plain) "g_corrections g = 0" "g_convergence_nudges g < ?M" "(g_convergence_calls g + 1) mod ?I \<noteq> 0"
  proof -
    have "g_corrections g > 0 \<or> g_corrections g = 0" using ok by (auto simp: phase_ok_def)
    moreover have "g_convergence_nudges g \<ge> ?M \<or> g_convergence_nudges g < ?M" by linarith
    ultimately show ?thesis using that by blast
  qed
  then show ?thesis
  proof cases
    case correcting
    then have g': "g' = ?g\<lparr>g_corrections := g_corrections g - 1\<rparr>"
      using move by (auto simp: count_call_def Let_def)
    have "0 \<le> (g_convergence_calls g + 1) mod ?I" using cfg(1) by simp
    then have "- ((g_convergence_calls g + 1) mod ?I) < g_corrections g" using correcting by linarith
    then show ?thesis using ok correcting cfg by (auto simp: g' phase_ok_def calls_left_def)
  next
    case late
    have d: "deliver_or_end cfg env ms ?g = (mv, g')"
      using move late by (simp add: count_call_def Let_def)
    have "phase_ok cfg ?g" using ok late by (simp add: phase_ok_def)
    from deliver_or_end_phase [OF this d move(2)] show ?thesis
      using late by (simp add: calls_left_def)
  next
    case nudge
    then have g': "g' = ?g\<lparr>g_convergence_nudges := g_convergence_nudges g + 1\<rparr>"
      using move by (auto simp: count_call_def Let_def split: if_splits)
    have m: "g_convergence_calls g mod ?I = ?I - 1"
      using nudge(3) mod_step [OF cfg(1), of "g_convergence_calls g"] cfg(1) by (auto split: if_splits)
         (metis add_nonneg_eq_0_iff mod_pos_pos_trivial pos_mod_sign zero_le_one zero_neq_one less_le_trans zero_less_one)
    have "(?M - g_convergence_nudges g) * ?I = (?M - (g_convergence_nudges g + 1)) * ?I + ?I" by (simp add: algebra_simps)
    moreover have "0 \<le> (?M - (g_convergence_nudges g + 1)) * ?I" using nudge(2) cfg(1) by simp
    ultimately show ?thesis using ok nudge m by (auto simp: g' phase_ok_def calls_left_def)
  next
    case plain
    then have g': "g' = ?g" using move by (auto simp: count_call_def Let_def)
    have "(g_convergence_calls g + 1) mod ?I = g_convergence_calls g mod ?I + 1"
      using plain(3) mod_step [OF cfg(1), of "g_convergence_calls g"] by (auto split: if_splits)
    then show ?thesis using ok plain by (simp add: g' phase_ok_def calls_left_def)
  qed
qed


section \<open>One turn\<close>

lemma counters_count:
  assumes "counters g' = counters g"
  shows "g_answer_nudges g' = g_answer_nudges g" "g_delivery_corrections g' = g_delivery_corrections g"
    "g_check_codes g' = g_check_codes g" "g_delivery_nudged g' = g_delivery_nudged g" "g_saw_final g' = g_saw_final g"
    "g_convergence_nudges g' = g_convergence_nudges g"
  using assms by (simp_all add: counters_def)

definition reserves :: "gate_state \<Rightarrow> int \<times> int \<times> string set \<times> bool \<times> bool" where
  "reserves g = (g_answer_nudges g, g_delivery_corrections g, g_check_codes g, g_delivery_nudged g, g_saw_final g)"

lemma count_call_keeps:
  "count_call cfg env ms g = (mv, g') \<Longrightarrow>
    reserves g' = reserves g \<and> g_progress_seen g' = g_progress_seen g \<and> g_action g' = g_action g"
  by (auto simp: count_call_def deliver_or_end_def end_convergence_def reserves_def Let_def split: if_splits)

text \<open>A call that goes on either makes progress or uses up one of the phase's calls.\<close>

lemma before_model_phase:
  assumes ok: "phase_ok cfg g" "\<not> g_saw_final g" and cfg: "1 \<le> gc_interval cfg" "0 < gc_max_convergence cfg"
    and fin: "finite (g_progress_seen g)"
    and move: "before_model cfg env ms g = (mv, g')" "\<forall>r. mv \<noteq> EndLoop r"
  shows "phase_ok cfg g' \<and> reserves g' = reserves g \<and> finite (g_progress_seen g')
    \<and> calls_left cfg g' + int (card (g_progress_seen g)) < calls_left cfg g + int (card (g_progress_seen g'))
    \<and> calls_left cfg g' \<le> calls_left cfg g"
proof -
  obtain p g1 where p: "artifact_progress cfg env ms (g\<lparr>g_model_calls := g_model_calls g + 1\<rparr>) = (p, g1)"
    by (cases "artifact_progress cfg env ms (g\<lparr>g_model_calls := g_model_calls g + 1\<rparr>)")
  note eff = artifact_progress_effect [OF p]
  define gg where "gg = (if p \<noteq> Stalled then (Some True, g1) else information_gain env ms g1)"
  define g3 where "g3 = record_stall (fst gg) (snd gg)"
  have c3: "counters g3 = counters g"
    using eff(1) information_gain_effect(1) by (simp add: g3_def gg_def)
  have s3: "g_progress_seen g3 = g_progress_seen g1"
    using information_gain_effect(2) by (simp add: g3_def gg_def)
  have seen: "g_progress_seen g \<subseteq> g_progress_seen g3" "finite (g_progress_seen g3)"
    "p \<noteq> Stalled \<Longrightarrow> g_progress_seen g \<noteq> g_progress_seen g3"
    using eff(2-4) fin by (simp_all add: s3)
  have run: "(if g_page_limit g3 then end_convergence ''evidence_corpus_limit'' g3
           else if gc_max_stall cfg \<noteq> 0 \<and> g_stall g3 \<ge> gc_max_stall cfg then end_convergence ''no_information_gain'' g3
           else if g_convergence_nudges g3 < gc_max_convergence cfg \<and> p \<noteq> Stalled
           then (if p = Completed then Guide (if gc_artifact_required cfg then ''delivery'' else ''analysis'') else Proceed, g3)
           else count_call cfg env ms g3) = (mv, g')"
  proof -
    have go: "\<not> (g_saw_final g \<or> gc_max_convergence cfg \<le> 0)" using ok(2) cfg(2) by simp
    show ?thesis
      using move(1) unfolding before_model_def if_not_P [OF go] Let_def p g3_def gg_def case_prod_beta fst_conv snd_conv .
  qed
  have r3: "reserves g3 = reserves g" using counters_count [OF c3] by (simp add: reserves_def)
  note cong = counters_cong [OF c3]
  show ?thesis
  proof (cases "g_convergence_nudges g3 < gc_max_convergence cfg \<and> p \<noteq> Stalled \<and> g' = g3")
    case True
    then have "g_progress_seen g \<subset> g_progress_seen g3" using seen(1,3) by auto
    then have "card (g_progress_seen g) < card (g_progress_seen g3)" using seen(2) by (rule psubset_card_mono [rotated])
    then show ?thesis using True seen ok(1) cong r3 by auto
  next
    case False
    then have c: "count_call cfg env ms g3 = (mv, g')"
      using run move(2) by (auto simp: end_convergence_def split: if_splits)
    have "phase_ok cfg g3" using ok(1) cong(1) by simp
    from count_call_phase [OF this cfg c move(2)] have "phase_ok cfg g' \<and> calls_left cfg g' < calls_left cfg g"
      using cong(2) by simp
    moreover have "reserves g' = reserves g" "g_progress_seen g' = g_progress_seen g3"
      using count_call_keeps [OF c] r3 by simp_all
    moreover have "card (g_progress_seen g) \<le> card (g_progress_seen g3)" using seen(1,2) by (rule card_mono [rotated])
    ultimately show ?thesis using seen(1,2) by auto
  qed
qed


section \<open>The loop\<close>

text \<open>The corrections a run can still be sent into; \<open>K\<close> holds the codes its checks can report.\<close>

definition corrections_left :: "review_config \<Rightarrow> string set \<Rightarrow> gate_state \<Rightarrow> int" where
  "corrections_left cfg K g =
     (gc_max_nudges cfg - g_answer_nudges g) + (2 - g_delivery_corrections g)
       + int (card (K - g_check_codes g)) + (if g_delivery_nudged g then 0 else 1)"

definition loop_ok :: "review_config \<Rightarrow> gate_state \<Rightarrow> bool" where
  "loop_ok cfg g \<longleftrightarrow> phase_ok cfg g \<and> \<not> g_saw_final g \<and> finite (g_progress_seen g)
     \<and> g_answer_nudges g \<le> gc_max_nudges cfg \<and> g_delivery_corrections g \<le> 2"

definition coded :: "string set \<Rightarrow> answer_facts \<Rightarrow> bool" where
  "coded K facts \<longleftrightarrow> (case af_checks facts of None \<Rightarrow> ''completion_check_failed'' \<in> K
     | Some cs \<Rightarrow> list_all (\<lambda>c. case ck_code c of None \<Rightarrow> False | Some k \<Rightarrow> k \<in> K) cs)"

definition turns_left :: "review_config \<Rightarrow> string set \<Rightarrow> gate_state \<Rightarrow> int" where
  "turns_left cfg K g = calls_left cfg g + (phase_bound cfg + 1) * corrections_left cfg K g - int (card (g_progress_seen g))"

lemma begin_correction_phase:
  assumes "1 \<le> gc_interval cfg" "0 < gc_max_convergence cfg"
  shows "phase_ok cfg (begin_correction cfg g)" "calls_left cfg (begin_correction cfg g) = phase_bound cfg"
    "\<not> g_saw_final (begin_correction cfg g)" "g_progress_seen (begin_correction cfg g) = g_progress_seen g"
  using assms by (simp_all add: begin_correction_def phase_ok_def calls_left_def phase_bound_def algebra_simps)

lemma begin_correction_keeps:
  "g_answer_nudges (begin_correction cfg g) = g_answer_nudges g"
  "g_delivery_corrections (begin_correction cfg g) = g_delivery_corrections g"
  "g_check_codes (begin_correction cfg g) = g_check_codes g"
  "g_delivery_nudged (begin_correction cfg g) = g_delivery_nudged g"
  by (simp_all add: begin_correction_def)

lemma new_code:
  assumes "finite K" "k \<in> K" "k \<notin> C" "C' \<supseteq> insert k C"
  shows "card (K - C') < card (K - C)"
  by (rule psubset_card_mono) (use assms in auto)

lemma action_irrelevant [simp]:
  "phase_ok cfg (g\<lparr>g_action := a\<rparr>) = phase_ok cfg g" "calls_left cfg (g\<lparr>g_action := a\<rparr>) = calls_left cfg g"
  "corrections_left cfg K (g\<lparr>g_action := a\<rparr>) = corrections_left cfg K g"
  by (simp_all add: phase_ok_def calls_left_def corrections_left_def)

text \<open>Sending an answer back uses up a correction.\<close>

lemma after_model_back:
  assumes ok: "loop_ok cfg g" and cfg: "1 \<le> gc_interval cfg" "0 < gc_max_convergence cfg"
    and K: "finite K" "gc_checks cfg \<Longrightarrow> coded K facts"
    and move: "after_model cfg env m facts g = (BackToModel text, g')"
  shows "loop_ok cfg g' \<and> corrections_left cfg K g' + 1 \<le> corrections_left cfg K g
    \<and> (calls_left cfg g' \<le> calls_left cfg g \<or> calls_left cfg g' = phase_bound cfg)
    \<and> g_progress_seen g' = g_progress_seen g"
proof -
  note bc = begin_correction_phase [OF cfg] begin_correction_keeps
  obtain content where m: "m = Some (AIMessage content [])" "py_strip (content_text env content) \<noteq> []"
    using move by (auto simp: after_model_def split: option.splits gate_message.splits list.splits if_splits)
  let ?fresh = "fresh_checks (g_check_codes g) (case af_checks facts of None \<Rightarrow> [failed_check] | Some cs \<Rightarrow> cs)"
  consider (delivery) "gc_prepares cfg" "af_issues facts \<noteq> []" "g_delivery_corrections g < 2"
      "g' = begin_correction cfg (g\<lparr>g_delivery_corrections := g_delivery_corrections g + 1\<rparr>)"
    | (check) "gc_checks cfg" "?fresh \<noteq> []"
      "g' = (begin_correction cfg (g\<lparr>g_check_codes := g_check_codes g \<union> set (map code_of_check ?fresh)\<rparr>))\<lparr>g_action := ''recheck''\<rparr>"
    | (review) "review_answer cfg facts g = (BackToModel text, g')"
    using move m by (auto simp: after_model_def Let_def split: if_splits)
  then show ?thesis
  proof cases
    case delivery
    then show ?thesis using ok bc by (simp add: loop_ok_def corrections_left_def)
  next
    case check
    obtain c where c: "c \<in> set ?fresh" using check(2) by (cases ?fresh) auto
    have "\<exists>k. ck_code c = Some k \<and> k \<in> K \<and> k \<notin> g_check_codes g"
      using c K(2) [OF check(1)]
      by (auto simp: fresh_checks_def coded_def failed_check_def list_all_iff split: option.splits)
    then obtain k where k: "ck_code c = Some k" "k \<in> K" "k \<notin> g_check_codes g" by blast
    have "k \<in> set (map code_of_check ?fresh)" using c k(1) by (force simp: code_of_check_def)
    then have "card (K - (g_check_codes g \<union> set (map code_of_check ?fresh))) < card (K - g_check_codes g)"
      by (intro new_code [OF K(1) k(2,3)]) auto
    then show ?thesis
      unfolding check(3) loop_ok_def using ok bc by (simp add: loop_ok_def) (simp add: corrections_left_def bc)
  next
    case review
    then consider (nudge) "\<not> g_delivery_nudged g" "g' = g\<lparr>g_delivery_nudged := True\<rparr>"
      | (bounce) "g_answer_nudges g < gc_max_nudges cfg"
        "g' = (begin_correction cfg (g\<lparr>g_saw_final := True, g_answer_nudges := g_answer_nudges g + 1\<rparr>))\<lparr>g_action := ''recheck''\<rparr>"
      by (auto simp: review_answer_def Let_def split: if_splits option.splits)
    then show ?thesis
    proof cases
      case nudge
      have "phase_ok cfg g' = phase_ok cfg g" "calls_left cfg g' = calls_left cfg g"
        by (simp_all add: nudge(2) phase_ok_def calls_left_def)
      then show ?thesis using ok nudge by (simp add: loop_ok_def corrections_left_def)
    next
      case bounce
      show ?thesis
        unfolding bounce(2) loop_ok_def using ok bounce(1) bc by (simp add: loop_ok_def) (simp add: corrections_left_def bc)
    qed
  qed
qed

lemma gate_turn_going:
  assumes ok: "loop_ok cfg g" and cfg: "1 \<le> gc_interval cfg" "0 < gc_max_convergence cfg"
    and K: "finite K" "gc_checks cfg \<Longrightarrow> coded K (tn_facts t)"
    and turn: "gate_turn cfg env t g = (True, g')"
  shows "loop_ok cfg g' \<and> turns_left cfg K g' < turns_left cfg K g"
proof -
  obtain mv g1 where bm: "before_model cfg env (tn_messages t) g = (mv, g1)"
    by (cases "before_model cfg env (tn_messages t) g")
  have noend: "\<forall>r. mv \<noteq> EndLoop r" using turn bm by (auto simp: gate_turn_def)
  have b: "phase_ok cfg g1 \<and> reserves g1 = reserves g \<and> finite (g_progress_seen g1)
    \<and> calls_left cfg g1 + int (card (g_progress_seen g)) < calls_left cfg g + int (card (g_progress_seen g1))
    \<and> calls_left cfg g1 \<le> calls_left cfg g"
    by (rule before_model_phase [OF _ _ cfg _ bm noend]) (use ok in \<open>simp_all add: loop_ok_def\<close>)
  have ok1: "loop_ok cfg g1" using b ok by (simp add: loop_ok_def reserves_def)
  have left1: "corrections_left cfg K g1 = corrections_left cfg K g" using b by (simp add: corrections_left_def reserves_def)
  have less1: "turns_left cfg K g1 < turns_left cfg K g" using b left1 by (simp add: turns_left_def)
  consider "g' = g1" | msg m where "after_model cfg env m (tn_facts t) g1 = (BackToModel msg, g')"
    using turn bm noend
    by (auto simp: gate_turn_def split: gate_move.splits gate_message.splits list.splits prod.splits)
  then show ?thesis
  proof cases
    case 1
    then show ?thesis using ok1 less1 by simp
  next
    case 2
    have a: "loop_ok cfg g' \<and> corrections_left cfg K g' + 1 \<le> corrections_left cfg K g1
      \<and> (calls_left cfg g' \<le> calls_left cfg g1 \<or> calls_left cfg g' = phase_bound cfg)
      \<and> g_progress_seen g' = g_progress_seen g1"
      using after_model_back [OF ok1 cfg K(1) _ 2] K(2) by blast
    have pb: "0 \<le> phase_bound cfg" using cfg by (simp add: phase_bound_def)
    have step: "(phase_bound cfg + 1) * corrections_left cfg K g' + (phase_bound cfg + 1)
        \<le> (phase_bound cfg + 1) * corrections_left cfg K g1"
      using a pb mult_left_mono [of "corrections_left cfg K g' + 1" "corrections_left cfg K g1" "phase_bound cfg + 1"]
      by (simp add: algebra_simps)
    have c1: "0 \<le> calls_left cfg g1" using calls_left_nonneg [OF _ cfg] b by simp
    have "turns_left cfg K g' < turns_left cfg K g1"
      unfolding turns_left_def using a step pb c1 by (elim conjE disjE) auto
    then show ?thesis using a less1 by auto
  qed
qed


lemma before_model_seen:
  "g_progress_seen g \<subseteq> g_progress_seen (snd (before_model cfg env ms g))
   \<and> (finite (g_progress_seen g) \<longrightarrow> finite (g_progress_seen (snd (before_model cfg env ms g))))"
proof -
  obtain p g1 where p: "artifact_progress cfg env ms (g\<lparr>g_model_calls := g_model_calls g + 1\<rparr>) = (p, g1)"
    by (cases "artifact_progress cfg env ms (g\<lparr>g_model_calls := g_model_calls g + 1\<rparr>)")
  have e: "g_progress_seen (snd (end_convergence r g)) = g_progress_seen g" for r g
    by (simp add: end_convergence_def)
  have c: "g_progress_seen (snd (count_call cfg env ms g)) = g_progress_seen g" for g
    using count_call_keeps [of cfg env ms g] by (metis prod.collapse)
  have i: "g_progress_seen (snd (information_gain env ms g1)) = g_progress_seen g1"
    by (rule information_gain_effect)
  show ?thesis
    using artifact_progress_effect(2,3) [OF p]
    by (simp add: before_model_def p Let_def case_prod_beta e c i)
qed

lemma begin_correction_seen [simp]: "g_progress_seen (begin_correction cfg g) = g_progress_seen g"
  by (simp add: begin_correction_def)

lemma review_answer_seen: "g_progress_seen (snd (review_answer cfg facts g)) = g_progress_seen g"
  by (cases "af_verdicts facts") (simp_all add: review_answer_def Let_def)

lemma after_model_seen: "g_progress_seen (snd (after_model cfg env m facts g)) = g_progress_seen g"
proof (cases "\<exists>content. m = Some (AIMessage content [])")
  case True
  then obtain content where m: "m = Some (AIMessage content [])" by blast
  show ?thesis
    by (simp add: m after_model_def Let_def review_answer_seen)
next
  case False
  then show ?thesis by (auto simp: after_model_def split: option.split gate_message.split list.split)
qed

lemma gate_turn_seen:
  assumes "gate_turn cfg env t g = (b, g')" "finite (g_progress_seen g)"
  shows "card (g_progress_seen g) \<le> card (g_progress_seen g')"
proof -
  obtain mv g1 where bm: "before_model cfg env (tn_messages t) g = (mv, g1)"
    by (cases "before_model cfg env (tn_messages t) g")
  have am: "after_model cfg env m facts g1 = (mv', g2) \<Longrightarrow> g_progress_seen g2 = g_progress_seen g1" for m facts mv' g2
    using after_model_seen [of cfg env m facts g1] by simp
  have "g_progress_seen g' = g_progress_seen g1"
    using assms(1) bm am
    by (auto simp: gate_turn_def split: gate_move.splits gate_message.splits list.splits prod.splits)
  moreover have "g_progress_seen g \<subseteq> g_progress_seen g1" "finite (g_progress_seen g1)"
    using before_model_seen [of g cfg env "tn_messages t"] bm assms(2) by auto
  ultimately show ?thesis by (simp add: card_mono)
qed

lemma corrections_left_nonneg: "loop_ok cfg g \<Longrightarrow> 0 \<le> corrections_left cfg K g"
  by (simp add: loop_ok_def corrections_left_def)

lemma turns_left_nonneg:
  assumes "loop_ok cfg g" "1 \<le> gc_interval cfg" "0 < gc_max_convergence cfg"
  shows "0 \<le> turns_left cfg K g + int (card (g_progress_seen g))"
proof -
  have "0 \<le> phase_bound cfg + 1" using assms(2,3) by (simp add: phase_bound_def)
  then have "0 \<le> (phase_bound cfg + 1) * corrections_left cfg K g"
    using corrections_left_nonneg [OF assms(1)] by (intro mult_nonneg_nonneg)
  moreover have "0 \<le> calls_left cfg g"
    using calls_left_nonneg [OF _ assms(2,3)] assms(1) by (simp add: loop_ok_def)
  ultimately show ?thesis by (simp add: turns_left_def)
qed

lemma gate_loop_bound:
  assumes "loop_ok cfg g" "1 \<le> gc_interval cfg" "0 < gc_max_convergence cfg" "finite K"
    and "gate_loop cfg env ts g = (taken, g')" "\<forall>t \<in> set ts. coded K (tn_facts t)"
  shows "int (length taken) \<le> turns_left cfg K g + int (card (g_progress_seen g')) + 1"
  using assms(1,5,6)
proof (induction ts arbitrary: g taken)
  case Nil
  then show ?case using turns_left_nonneg [OF Nil(1) assms(2,3), of K] by auto
next
  case (Cons t ts)
  obtain b g1 where turn: "gate_turn cfg env t g = (b, g1)" by (cases "gate_turn cfg env t g")
  have fin: "finite (g_progress_seen g)" using Cons.prems(1) by (simp add: loop_ok_def)
  show ?case
  proof (cases b)
    case False
    then have "taken = [t]" "g' = g1" using Cons.prems(2) turn by auto
    then show ?thesis
      using turns_left_nonneg [OF Cons.prems(1) assms(2,3), of K] gate_turn_seen [OF turn fin] by simp
  next
    case True
    obtain rest where rest: "gate_loop cfg env ts g1 = (rest, g')" "taken = t # rest"
      using Cons.prems(2) turn True by (auto split: prod.splits)
    have "loop_ok cfg g1 \<and> turns_left cfg K g1 < turns_left cfg K g"
      by (rule gate_turn_going [OF Cons.prems(1) assms(2,3,4)]) (use Cons.prems(3) turn True in auto)
    then show ?thesis using Cons.IH [OF _ rest(1)] Cons.prems(3) rest(2) by auto
  qed
qed

lemma loop_ok_new: "1 \<le> gc_interval cfg \<Longrightarrow> 0 < gc_max_convergence cfg \<Longrightarrow> 0 \<le> gc_max_nudges cfg \<Longrightarrow> loop_ok cfg fresh_gate"
  by (simp add: loop_ok_def phase_ok_def fresh_gate_def)

text \<open>C9.
  The agent's loop ends: with convergence control on, whatever the agent does and whatever the
  reviews, delivery issues and completion checks say, the loop takes no more turns than the
  distinct pieces of progress it recorded plus a fixed number for each of its phases: the
  interval and nudges of the search, ten delivery turns, and one phase per review bounce, two per
  delivery problem, one per completion code and one reminder to deliver.
\<close>

theorem evidence_loop_is_bounded:
  assumes cfg: "cfg = make_config interval nudges convergence stall pages grace artifact prepares checks active enabled"
    and guard: "0 < convergence"
    and run: "gate_loop cfg env ts fresh_gate = (taken, g)"
    and codes: "finite K" "\<forall>t \<in> set ts. coded K (tn_facts t)"
  shows "int (length taken) \<le> int (card (g_progress_seen g))
    + (max interval 1 * (convergence + 1) + 11) * (max nudges 0 + int (card K) + 4)"
proof -
  have c: "1 \<le> gc_interval cfg" "0 < gc_max_convergence cfg" "0 \<le> gc_max_nudges cfg"
    "gc_interval cfg = max interval 1" "gc_max_convergence cfg = convergence" "gc_max_nudges cfg = max nudges 0"
    using guard by (simp_all add: cfg make_config_def)
  let ?B = "max interval 1 * (convergence + 1) + 10"
  have pb: "phase_bound cfg = ?B" by (simp add: phase_bound_def c)
  have left: "calls_left cfg fresh_gate \<le> ?B" "corrections_left cfg K fresh_gate = max nudges 0 + int (card K) + 3"
    using c by (simp_all add: calls_left_def corrections_left_def fresh_gate_def algebra_simps)
  have "int (length taken) \<le> turns_left cfg K fresh_gate + int (card (g_progress_seen g)) + 1"
    by (rule gate_loop_bound [OF loop_ok_new [OF c(1-3)] c(1,2) codes(1) run codes(2)])
  also have "turns_left cfg K fresh_gate \<le> ?B + (?B + 1) * (max nudges 0 + int (card K) + 3)"
    using left pb by (simp add: turns_left_def fresh_gate_def)
  finally show ?thesis by (simp add: algebra_simps)
qed


section \<open>Unsupported answers\<close>

lemma before_model_verdicts:
  "g_answer_nudges (snd (before_model cfg env ms g)) = g_answer_nudges g \<and>
   g_action (snd (before_model cfg env ms g)) = g_action g"
proof -
  obtain p g1 where p: "artifact_progress cfg env ms (g\<lparr>g_model_calls := g_model_calls g + 1\<rparr>) = (p, g1)"
    by (cases "artifact_progress cfg env ms (g\<lparr>g_model_calls := g_model_calls g + 1\<rparr>)")
  have a1: "g_answer_nudges g1 = g_answer_nudges g" "g_action g1 = g_action g"
    using counters_count(1) [OF artifact_progress_effect(1) [OF p]] artifact_progress_effect(5) [OF p] by simp_all
  have e: "g_answer_nudges (snd (end_convergence r g)) = g_answer_nudges g"
    "g_action (snd (end_convergence r g)) = g_action g" for r g
    by (simp_all add: end_convergence_def)
  have c: "g_answer_nudges (snd (count_call cfg env ms g)) = g_answer_nudges g"
    "g_action (snd (count_call cfg env ms g)) = g_action g" for g
    using count_call_keeps [of cfg env ms g "fst (count_call cfg env ms g)" "snd (count_call cfg env ms g)"]
    by (simp_all add: reserves_def)
  have i: "g_answer_nudges (snd (information_gain env ms g1)) = g_answer_nudges g1"
    "g_action (snd (information_gain env ms g1)) = g_action g1"
    using counters_count(1) [OF information_gain_effect(1)] information_gain_effect(3) by simp_all
  have r: "g_answer_nudges (record_stall b g) = g_answer_nudges g" for b g
    using counters_count(1) [OF record_stall_effect(1)] .
  show ?thesis
    by (simp add: before_model_def p Let_def case_prod_beta a1 e c i r)
qed

definition fair_move :: "review_config \<Rightarrow> gate_state \<Rightarrow> gate_move \<times> gate_state \<Rightarrow> bool" where
  "fair_move cfg g r \<longleftrightarrow>
     (\<exists>text. fst r = BackToModel text) \<and> g_answer_nudges (snd r) \<le> g_answer_nudges g + 1 \<and>
        (g_action (snd r) = g_action g \<or> g_action (snd r) = ''recheck'')
    \<or> fst r = Proceed \<and> g_answer_nudges (snd r) = g_answer_nudges g \<and>
        (g_action (snd r) = ''accept_best_effort'' \<longrightarrow> g_action g = ''accept_best_effort'' \<or> gc_max_nudges cfg \<le> g_answer_nudges g)"

lemma begin_correction_verdicts [simp]:
  "g_answer_nudges (begin_correction cfg g) = g_answer_nudges g" "g_action (begin_correction cfg g) = g_action g"
  by (simp_all add: begin_correction_def)

lemma review_answer_fair: "fair_move cfg g (review_answer cfg facts g)"
proof (cases "af_verdicts facts")
  case None
  then show ?thesis by (simp add: review_answer_def fair_move_def Let_def)
next
  case (Some v)
  let ?g = "g\<lparr>g_saw_final := True\<rparr>"
  have "fair_move cfg g (BackToModel ''delivery'', g\<lparr>g_delivery_nudged := True\<rparr>)" "fair_move cfg g (Proceed, g)"
    "fair_move cfg g (Proceed, ?g)" "fair_move cfg g (Proceed, ?g\<lparr>g_action := ''inconclusive''\<rparr>)"
    "fair_move cfg g (Proceed, ?g\<lparr>g_action := ''accept''\<rparr>)"
    "gc_max_nudges cfg \<le> g_answer_nudges g \<Longrightarrow> fair_move cfg g (Proceed, ?g\<lparr>g_action := ''accept_best_effort''\<rparr>)"
    "fair_move cfg g (BackToModel ''review'', (begin_correction cfg (?g\<lparr>g_answer_nudges := g_answer_nudges g + 1\<rparr>))\<lparr>g_action := ''recheck''\<rparr>)"
    by (simp_all add: fair_move_def)
  then show ?thesis
    unfolding review_answer_def Some option.case Let_def by (simp only: split: if_split) simp
qed

lemma after_model_verdicts: "fair_move cfg g (after_model cfg env m facts g)"
proof (cases "\<exists>content. m = Some (AIMessage content [])")
  case True
  then obtain content where m: "m = Some (AIMessage content [])" by blast
  have "fair_move cfg g (Proceed, g)"
    "fair_move cfg g (BackToModel msg, begin_correction cfg (g\<lparr>g_delivery_corrections := n\<rparr>))"
    "fair_move cfg g (BackToModel msg, (begin_correction cfg (g\<lparr>g_check_codes := C\<rparr>))\<lparr>g_action := ''recheck''\<rparr>)" for msg n C
    by (simp_all add: fair_move_def)
  then show ?thesis
    using review_answer_fair unfolding m after_model_def option.case gate_message.case list.case Let_def
    by (simp only: split: if_split) simp
next
  case False
  then have "after_model cfg env m facts g = (Proceed, g)"
    by (auto simp: after_model_def split: option.split gate_message.split list.split)
  then show ?thesis by (simp add: fair_move_def)
qed

lemma gate_turn_verdicts:
  assumes "gate_turn cfg env t g = (b, g')" "g_action g \<noteq> ''accept_best_effort''"
  shows "if b then g_answer_nudges g' \<le> g_answer_nudges g + 1 \<and> g_action g' \<noteq> ''accept_best_effort''
    else g_answer_nudges g' = g_answer_nudges g \<and>
      (g_action g' = ''accept_best_effort'' \<longrightarrow> gc_max_nudges cfg \<le> g_answer_nudges g)"
proof -
  obtain mv g1 where bm: "before_model cfg env (tn_messages t) g = (mv, g1)"
    by (cases "before_model cfg env (tn_messages t) g")
  have g1: "g_answer_nudges g1 = g_answer_nudges g" "g_action g1 = g_action g"
    using before_model_verdicts [of cfg env "tn_messages t" g] bm by simp_all
  show ?thesis
  proof (cases "(\<exists>r. mv = EndLoop r) \<or> (\<exists>c d ds. tn_reply t = AIMessage c (d # ds))")
    case True
    then show ?thesis using assms bm g1 by (auto simp: gate_turn_def split: gate_move.splits gate_message.splits list.splits)
  next
    case False
    obtain mv' g2 where am: "after_model cfg env (Some (tn_reply t)) (tn_facts t) g1 = (mv', g2)"
      by (cases "after_model cfg env (Some (tn_reply t)) (tn_facts t) g1")
    have "gate_turn cfg env t g = (case mv' of BackToModel _ \<Rightarrow> True | _ \<Rightarrow> False, g2)"
      using False bm am by (cases mv; cases mv'; cases "tn_reply t") (auto simp: gate_turn_def split: list.splits)
    then show ?thesis using after_model_verdicts [of cfg g1 env "Some (tn_reply t)" "tn_facts t"] assms g1 am
      by (auto simp: fair_move_def)
  qed
qed

lemma gate_loop_verdicts:
  "gate_loop cfg env ts g = (taken, g') \<Longrightarrow> g_action g \<noteq> ''accept_best_effort'' \<Longrightarrow> g_action g' = ''accept_best_effort'' \<Longrightarrow>
    gc_max_nudges cfg \<le> g_answer_nudges g' \<and> g_answer_nudges g' + 1 \<le> g_answer_nudges g + int (length taken)"
proof (induction ts arbitrary: g taken)
  case (Cons t ts)
  obtain b g1 where turn: "gate_turn cfg env t g = (b, g1)" by (cases "gate_turn cfg env t g")
  note v = gate_turn_verdicts [OF turn Cons.prems(2)]
  show ?case
  proof (cases b)
    case True
    then obtain rest where "gate_loop cfg env ts g1 = (rest, g')" "taken = t # rest"
      using Cons.prems(1) turn by (auto split: prod.splits)
    then show ?thesis using Cons.IH [of g1 rest] v True Cons.prems(3) by simp
  next
    case False
    then have "taken = [t]" "g' = g1" using Cons.prems(1) turn by auto
    then show ?thesis using v False Cons.prems(3) by simp
  qed
qed auto


text \<open>
  A check without a code is not remembered: the loop asks for its correction again each time.
  The bound above therefore assumes that every check has a code.
\<close>

lemma check_without_code_repeats:
  assumes "gc_checks cfg" "af_checks facts = Some cs" "c \<in> set cs" "ck_code c = None"
    and "\<not> (gc_prepares cfg \<and> af_issues facts \<noteq> [])" "py_strip (content_text env content) \<noteq> []"
  shows "\<exists>text g'. after_model cfg env (Some (AIMessage content [])) facts g = (BackToModel text, g')"
proof -
  have "c \<in> set (fresh_checks (g_check_codes g) cs)" using assms(3,4) by (simp add: fresh_checks_def)
  then have "fresh_checks (g_check_codes g) cs \<noteq> []" by auto
  then show ?thesis using assms by (simp add: after_model_def Let_def)
qed

section \<open>A sample run\<close>

definition sample_gate_env :: gate_env where
  "sample_gate_env = \<lparr>ge_loads = (\<lambda>s. None), ge_digest = (\<lambda>v. ''d''), ge_digest_text = id, ge_repr = (\<lambda>v. ''?'')\<rparr>"

definition sample_gate_config :: review_config where
  "sample_gate_config = make_config 12 1 3 4 12 3 False False True True True"

definition sample_turn :: "gate_check list \<Rightarrow> turn" where
  "sample_turn cs =
     \<lparr>tn_messages = [], tn_reply = AIMessage (PStr ''answer'') [],
      tn_facts = \<lparr>af_issues = [], af_checks = Some cs, af_deliverables = False,
                  af_verdicts = Some [(''answer_supported'', PStr ''unsupported'')]\<rparr>\<rparr>"

definition sample_turns :: "turn list" where
  "sample_turns = [sample_turn [\<lparr>ck_code = Some ''unread'', ck_recovery = ''read'', ck_message = []\<rparr>], sample_turn [], sample_turn []]"


definition sample_loop :: "turn list \<times> gate_state" where
  "sample_loop = gate_loop sample_gate_config sample_gate_env sample_turns fresh_gate"

lemma evidence_loop_is_bounded_witness:
  "int (length (fst sample_loop)) \<le> int (card (g_progress_seen (snd sample_loop)))
    + (max 12 1 * (3 + 1) + 11) * (max 1 0 + int (card {''unread''}) + 4)"
  by (rule evidence_loop_is_bounded [OF sample_gate_config_def, of sample_gate_env sample_turns])
     (simp_all add: sample_loop_def sample_turns_def sample_turn_def coded_def)

lemma sample_loop_accepts: "g_action (snd sample_loop) = ''accept_best_effort''"
  by (simp add: sample_loop_def sample_turns_def sample_turn_def gate_turn_def before_model_def artifact_progress_def
      last_batch_def information_gain_def known_results_def record_stall_def count_call_def fresh_gate_def
      sample_gate_config_def make_config_def after_model_def content_text_def py_strip_def fresh_checks_def
      begin_correction_def review_answer_def review_status_def code_of_check_def is_space_def Let_def List.map_filter_def)


end
