(* ===== verification/Tool_Errors.thy ===== *)
theory Tool_Errors
  imports SL_Prelude
begin

text \<open>
  Classification of failed tool results (\<open>lensnode/lensnode/gateway_model.py\<close>,
  \<open>_tool_error_code\<close> and \<open>_tool_result_metadata\<close>) and the visible plan
  (\<open>agent_runtime/messages.py\<close>, \<open>normalize_plan_steps\<close>). Text is a list of bytes (UTF-8);
  upper-casing acts on ASCII letters.
\<close>

section \<open>Text\<close>

definition starts_with :: "string \<Rightarrow> string \<Rightarrow> bool" where
  "starts_with p s = (take (length p) s = p)"

fun contains_text :: "string \<Rightarrow> string \<Rightarrow> bool" where
  "contains_text p [] = (p = [])"
| "contains_text p (c # s) = (starts_with p (c # s) \<or> contains_text p s)"

definition contains_any :: "string list \<Rightarrow> string \<Rightarrow> bool" where
  "contains_any ps s = list_ex (\<lambda>p. contains_text p s) ps"

definition upper_char :: "char \<Rightarrow> char" where
  "upper_char c = (let n = (of_char c :: nat) in if 97 \<le> n \<and> n \<le> 122 then char_of (n - 32) else c)"

definition upper :: "string \<Rightarrow> string" where
  "upper s = map upper_char s"

definition word_char :: "char \<Rightarrow> bool" where
  "word_char c = (let n = (of_char c :: nat) in 48 \<le> n \<and> n \<le> 57 \<or> 65 \<le> n \<and> n \<le> 90 \<or> 97 \<le> n \<and> n \<le> 122 \<or> n = 95)"

definition is_digit :: "char \<Rightarrow> bool" where
  "is_digit c = (digit_val c \<noteq> None)"

text \<open>\<open>5\d{2}\b\<close> at the front of the text.\<close>

fun server_code :: "string \<Rightarrow> bool" where
  "server_code (a # b # c # rest) = (a = CHR ''5'' \<and> is_digit b \<and> is_digit c
     \<and> (case rest of [] \<Rightarrow> True | d # _ \<Rightarrow> \<not> word_char d))"
| "server_code _ = False"

text \<open>\<open>re.search(r"\b(?:HTTP\s*)?5\d{2}\b", s)\<close>; the flag says whether the previous
  character is a word character.\<close>

fun server_failure :: "bool \<Rightarrow> string \<Rightarrow> bool" where
  "server_failure prev [] = False"
| "server_failure prev (c # s) =
     (\<not> prev \<and> (server_code (c # s)
        \<or> starts_with ''HTTP'' (c # s) \<and> server_code (dropWhile is_space (drop 4 (c # s))))
      \<or> server_failure (word_char c) s)"

section \<open>Error codes\<close>

definition py_upper :: "(py \<Rightarrow> string) \<Rightarrow> py \<Rightarrow> string" where
  "py_upper render v = upper (py_str render v)"

definition tool_error_code :: "(py \<Rightarrow> string) \<Rightarrow> pydict \<Rightarrow> string" where
  "tool_error_code render result =
     (let error = (case dget result ''error'' of
                     PDict d \<Rightarrow> py_or (dget d ''code'') (py_or (dget d ''type'') (dget d ''message''))
                   | e \<Rightarrow> e)
      in py_upper render (py_or error (py_or (dget result ''code'') (PStr []))))"

definition diagnostic_text :: "(py \<Rightarrow> string) \<Rightarrow> pydict \<Rightarrow> string" where
  "diagnostic_text render result =
     upper (concat (let t = (\<lambda>k. py_str render (py_or (dget result k) (PStr [])))
       in t ''error'' # map (\<lambda>k. '' '' @ t k) [''code'', ''message'', ''detail'', ''stderr'']))"

text \<open>The UTF-8 bytes of the marker the source writes in Chinese.\<close>

definition no_data_marker :: string where
  "no_data_marker = map (char_of :: nat \<Rightarrow> char)
     [230, 149, 176, 230, 141, 174, 228, 184, 141, 229, 173, 152, 229, 156, 168]"

definition status_code_of :: "pydict \<Rightarrow> int res" where
  "status_code_of result =
     (case py_int (py_or (dget result ''status_code'') (PInt 0)) of
        Inl OverflowError \<Rightarrow> Inl OverflowError
      | Inl _ \<Rightarrow> Inr 0
      | Inr i \<Rightarrow> Inr i)"

definition classify :: "string \<Rightarrow> string \<Rightarrow> int \<Rightarrow> string" where
  "classify code diagnostic status =
     (let auth = status \<in> {401, 403};
          request = 400 \<le> status \<and> status < 500 \<and> \<not> auth;
          server = 500 \<le> status \<and> status < 600
      in if auth \<or> contains_any [''AUTH'', ''CONFIG'', ''CREDENTIAL'', ''PERMISSION''] code
         then ''configuration''
         else if server_failure False diagnostic \<or> server
                 \<or> contains_any [''HTTP_REQUEST_FAILED'', ''RATE_LIMIT'', ''TIMEOUT''] code
         then ''transient''
         else if contains_any [''BUDGET'', ''LOOP'', ''POLICY'', ''REPEATED'', ''STALLED''] code
         then ''policy''
         else if request
                 \<or> contains_any [''404'', ''NOTFOUND'', ''NOT FOUND'', ''UNKNOWN FLAG'', ''INVALID ARGUMENT'',
                      ''USAGE:'', no_data_marker] diagnostic
                 \<or> contains_any [''INVALID'', ''MALFORMED'', ''NOT_FOUND'', ''PARSE'', ''PATH'', ''SCHEMA'',
                      ''SYNTAX'', ''VALIDATION''] code
                 \<or> contains_any [''INVALID QUERY'', ''INVALID EXPRESSION'', ''SQL SYNTAX'', ''SYNTAX ERROR'',
                      ''UNKNOWN FLAG'', ''UNKNOWN JSON FIELD'', ''USAGE:'', ''VALIDATION ERROR'',
                      ''RESPONSE VALIDATION'', ''MUST NOT BE EMPTY'', ''MISSING REQUIRED''] diagnostic
         then ''request''
         else ''tool'')"

text \<open>
  The \<open>error_type\<close> of the metadata; \<open>None\<close> for a successful result. An infinite
  \<open>status_code\<close> raises, as \<open>int\<close> raises an exception the source does not catch.
\<close>

definition tool_error_type :: "(py \<Rightarrow> string) \<Rightarrow> pydict \<Rightarrow> string option res" where
  "tool_error_type render result =
     (if dget result ''ok'' = PBool True then Inr None
      else rbind (status_code_of result)
             (\<lambda>status. Inr (Some (classify (tool_error_code render result)
                (diagnostic_text render result) status))))"

definition error_types :: "string list" where
  "error_types = [''configuration'', ''transient'', ''policy'', ''request'', ''tool'']"

lemma classify_in: "classify c d s \<in> set error_types"
  by (simp add: classify_def error_types_def Let_def)

lemma tool_error_type_in: "tool_error_type render result = Inr (Some e) \<Longrightarrow> e \<in> set error_types"
  by (auto simp: tool_error_type_def rbind_Inr_iff classify_in split: if_splits)

section \<open>Plans\<close>

record plan_step =
  ps_index :: nat
  ps_title :: string
  ps_status :: string

definition plan_title :: "(py \<Rightarrow> string) \<Rightarrow> pydict \<Rightarrow> string" where
  "plan_title render d =
     py_strip (py_str render (py_or (dget d ''content'') (py_or (dget d ''title'') (PStr []))))"

definition plan_status :: "(py \<Rightarrow> string) \<Rightarrow> pydict \<Rightarrow> string" where
  "plan_status render d =
     (let st = py_str render (py_or (dget d ''status'') (PStr ''pending''))
      in if st \<in> {''pending'', ''in_progress'', ''completed''} then st else ''pending'')"

fun plan_steps_from :: "(py \<Rightarrow> string) \<Rightarrow> nat \<Rightarrow> py list \<Rightarrow> plan_step list" where
  "plan_steps_from render i [] = []"
| "plan_steps_from render i (PDict d # rest) =
     (let title = plan_title render d
      in if title = [] then plan_steps_from render (Suc i) rest
         else \<lparr>ps_index = i, ps_title = take 240 title, ps_status = plan_status render d\<rparr>
              # plan_steps_from render (Suc i) rest)"
| "plan_steps_from render i (_ # rest) = plan_steps_from render (Suc i) rest"

definition normalize_plan_steps :: "(py \<Rightarrow> string) \<Rightarrow> py \<Rightarrow> plan_step list" where
  "normalize_plan_steps render todos =
     (case todos of PList xs \<Rightarrow> plan_steps_from render 1 (take 12 xs) | _ \<Rightarrow> [])"

lemma plan_steps_length: "length (plan_steps_from render i xs) \<le> length xs"
  by (induction render i xs rule: plan_steps_from.induct) (auto simp: Let_def)

lemma plan_steps_fields:
  "p \<in> set (plan_steps_from render i xs) \<Longrightarrow>
     ps_title p \<noteq> [] \<and> length (ps_title p) \<le> 240 \<and> ps_status p \<in> {''pending'', ''in_progress'', ''completed''}"
  by (induction render i xs rule: plan_steps_from.induct)
    (auto simp: Let_def plan_status_def split: if_splits)

lemma plan_steps_index:
  "p \<in> set (plan_steps_from render i xs) \<Longrightarrow> i \<le> ps_index p \<and> ps_index p < i + length xs"
  by (induction render i xs rule: plan_steps_from.induct) (auto simp: Let_def split: if_splits)

lemma plan_steps_sorted: "sorted_wrt (<) (map ps_index (plan_steps_from render i xs))"
proof (induction render i xs rule: plan_steps_from.induct)
  case (2 render i d rest)
  then show ?case
    by (auto simp: Let_def dest!: plan_steps_index)
qed simp_all

text \<open>
  The visible plan is bounded and well formed for every payload the model may send: at most
  twelve steps, in order and with distinct numbers from 1 to 12, titles of 1 to 240
  characters, and one of the three statuses.
\<close>

lemma visible_plan_is_bounded:
  "length (normalize_plan_steps render todos) \<le> 12
   \<and> sorted_wrt (<) (map ps_index (normalize_plan_steps render todos))
   \<and> set (normalize_plan_steps render todos) \<subseteq>
       {p. 1 \<le> ps_index p \<and> ps_index p \<le> 12 \<and> 1 \<le> length (ps_title p) \<and> length (ps_title p) \<le> 240
         \<and> ps_status p \<in> {''pending'', ''in_progress'', ''completed''}}"
proof (cases todos)
  case (PList xs)
  have n: "length (take 12 xs) \<le> 12" by simp
  have "length (plan_steps_from render 1 (take 12 xs)) \<le> 12"
    using plan_steps_length n by (rule order_trans)
  moreover have "1 \<le> ps_index p \<and> ps_index p \<le> 12" if "p \<in> set (plan_steps_from render 1 (take 12 xs))" for p
    using plan_steps_index [OF that] n by linarith
  moreover have "1 \<le> length (ps_title p) \<and> length (ps_title p) \<le> 240
      \<and> ps_status p \<in> {''pending'', ''in_progress'', ''completed''}"
    if "p \<in> set (plan_steps_from render 1 (take 12 xs))" for p
    using plan_steps_fields [OF that] by (cases "ps_title p") simp_all
  ultimately show ?thesis
    using plan_steps_sorted [of render 1 "take 12 xs"] PList by (auto simp: normalize_plan_steps_def)
qed (simp_all add: normalize_plan_steps_def)

end
