(* ===== verification/Retrieval_Plan.thy ===== *)
theory Retrieval_Plan
  imports Tool_Errors Json_Values
begin

text \<open>
  Retrieval plans of planned code analysis, \<open>lensnode/lensnode/planned_evidence.py\<close>: the
  planner's response is untrusted, so \<open>parse_retrieval_plan\<close> validates and bounds it before
  anything runs. \<open>json.loads\<close> and the text of floats and containers are parameters.
\<close>

record plan_env =
  pe_loads :: "string \<Rightarrow> py option"
  pe_repr :: "py \<Rightarrow> string"

definition MAX_FILES :: int where "MAX_FILES = 8"
definition MAX_SOURCE_WINDOW_LINES :: int where "MAX_SOURCE_WINDOW_LINES = 250"
definition MAX_EVIDENCE_TOKENS :: int where "MAX_EVIDENCE_TOKENS = 20000"
definition MAX_OBJECTIVE_CHARS :: nat where "MAX_OBJECTIVE_CHARS = 2000"
definition MAX_QUERY_CHARS :: nat where "MAX_QUERY_CHARS = 500"
definition MAX_CODEGRAPH_QUERIES :: nat where "MAX_CODEGRAPH_QUERIES = 2"
definition MAX_LITERAL_QUERIES :: nat where "MAX_LITERAL_QUERIES = 8"
definition MAX_SOURCE_WINDOWS :: nat where "MAX_SOURCE_WINDOWS = 8"

definition ALLOWED_CODEGRAPH_OPERATIONS :: "string set" where
  "ALLOWED_CODEGRAPH_OPERATIONS =
     {''callers'', ''callees'', ''context'', ''explore'', ''impact'', ''node'', ''search'', ''trace''}"

definition OPERATION_ALIASES :: "(string \<times> string) list" where
  "OPERATION_ALIASES =
     [(''symbol_search'', ''search''), (''code_search'', ''search''), (''search_symbol'', ''search''),
      (''search_code'', ''search''), (''symbol_lookup'', ''node''), (''callers_of'', ''callers''),
      (''callees_of'', ''callees''), (''dependency_graph'', ''impact''), (''subgraph'', ''explore''),
      (''code_analysis'', ''explore'')]"

record codegraph_query =
  cq_operation :: string
  cq_query :: string
  cq_symbol :: string

record source_window =
  sw_path :: string
  sw_start :: int
  sw_end :: "int option"

record clarification =
  cl_question :: string
  cl_reason :: string

record retrieval_plan =
  rp_objective :: string
  rp_project :: string
  rp_repository :: string
  rp_revision :: string
  rp_question_type :: string
  rp_requirements :: "string list"
  rp_codegraph :: "codegraph_query list"
  rp_literals :: "string list"
  rp_scopes :: "string list"
  rp_windows :: "source_window list"
  rp_clarification :: "clarification option"
  rp_max_files :: int
  rp_max_fallback :: int
  rp_window_lines :: int
  rp_evidence_tokens :: int

section \<open>Fields\<close>

definition required_text :: "plan_env \<Rightarrow> py \<Rightarrow> string \<Rightarrow> nat \<Rightarrow> string res" where
  "required_text env value label max_chars =
     (let t = py_strip (text_or_empty (pe_repr env) value)
      in if t = [] \<or> length t > max_chars
         then Inl (PlanValidationError (label @ '' is missing or too long'')) else Inr t)"

definition bounded_query :: "plan_env \<Rightarrow> py \<Rightarrow> string res" where
  "bounded_query env value =
     (if value = PNone then Inr []
      else let t = py_strip (py_str (pe_repr env) value)
           in if length t > MAX_QUERY_CHARS then Inl (PlanValidationError ''plan query is too long'') else Inr t)"

definition list_value :: "py \<Rightarrow> py list res" where
  "list_value v =
     (case v of
        PNone \<Rightarrow> Inr []
      | PList vs \<Rightarrow> Inr vs
      | _ \<Rightarrow> Inl (PlanValidationError ''plan list fields must be arrays''))"

definition literal_query_value :: "py \<Rightarrow> py" where
  "literal_query_value v =
     (case v of PDict d \<Rightarrow> py_or (py_or (dget d ''pattern'') (dget d ''query'')) (PStr []) | _ \<Rightarrow> v)"

definition unique_queries :: "plan_env \<Rightarrow> py \<Rightarrow> string list res" where
  "unique_queries env v =
     rbind (list_value v) (\<lambda>items.
     rbind (map_res (\<lambda>item. bounded_query env (literal_query_value item)) items) (\<lambda>queries.
       Inr (keep_first (filter (\<lambda>q. q \<noteq> []) queries))))"

definition plan_int :: "py \<Rightarrow> int \<Rightarrow> int res" where
  "plan_int v absent =
     (if v = PNone then Inr absent
      else rbind (caught_int v) (\<lambda>i. case i of
             None \<Rightarrow> Inl (PlanValidationError ''plan numeric fields must be integers'')
           | Some n \<Rightarrow> Inr n))"

definition clamped :: "py \<Rightarrow> int \<Rightarrow> int \<Rightarrow> int \<Rightarrow> int res" where
  "clamped v absent low high = rbind (plan_int v absent) (\<lambda>n. Inr (min (max n low) high))"

section \<open>Parts of a plan\<close>

definition codegraph_operation :: "pydict \<Rightarrow> string res" where
  "codegraph_operation item =
     (let raw = (case dget item ''operation'' of PStr s \<Rightarrow> map lower_char (py_strip s) | _ \<Rightarrow> []);
          named = (if raw \<noteq> [] then raw else if truthy (dget item ''symbol'') then ''search'' else ''explore'');
          operation = (case map_of OPERATION_ALIASES named of Some o' \<Rightarrow> o' | None \<Rightarrow> named)
      in if operation \<in> ALLOWED_CODEGRAPH_OPERATIONS then Inr operation
         else Inl (PlanValidationError (''unsupported CodeGraph operation: '' @ operation)))"

definition parse_codegraph :: "plan_env \<Rightarrow> py \<Rightarrow> codegraph_query res" where
  "parse_codegraph env item =
     (case item of
        PDict d \<Rightarrow>
          rbind (codegraph_operation d) (\<lambda>operation.
          rbind (bounded_query env (dget d ''query'')) (\<lambda>query.
          rbind (bounded_query env (dget d ''symbol'')) (\<lambda>symbol.
            if query = [] \<and> symbol = []
            then Inl (PlanValidationError ''CodeGraph query needs query or symbol'')
            else Inr \<lparr>cq_operation = operation, cq_query = query, cq_symbol = symbol\<rparr>)))
      | _ \<Rightarrow> Inl (PlanValidationError ''codegraph query must be an object''))"

definition parse_window :: "plan_env \<Rightarrow> py \<Rightarrow> source_window res" where
  "parse_window env item =
     (case item of
        PDict d \<Rightarrow>
          rbind (required_text env (py_or (dget d ''path'') (dget d ''file_path'')) ''source window path'' MAX_QUERY_CHARS) (\<lambda>path.
          rbind (plan_int (py_or (dget d ''start_line'') (dget d ''line_start'')) 1) (\<lambda>start.
            let stop = (if dget d ''end_line'' = PNone then dget d ''line_end'' else dget d ''end_line'')
            in if stop = PNone then Inr \<lparr>sw_path = path, sw_start = start, sw_end = None\<rparr>
               else rbind (plan_int stop start) (\<lambda>e.
                 if e < start then Inl (PlanValidationError ''source window ends before it starts'')
                 else Inr \<lparr>sw_path = path, sw_start = start, sw_end = Some e\<rparr>)))
      | _ \<Rightarrow> Inl (PlanValidationError ''source window must be an object''))"

definition clarification_reasons :: "string set" where
  "clarification_reasons = {''missing_input'', ''ambiguous_scope'', ''ambiguous_target''}"

definition parse_clarification :: "plan_env \<Rightarrow> py \<Rightarrow> clarification option res" where
  "parse_clarification env v =
     (if v = PNone \<or> v = PDict [] then Inr None
      else case v of
        PDict d \<Rightarrow>
          rbind (required_text env (dget d ''question'') ''clarification question'' MAX_QUERY_CHARS) (\<lambda>question.
            if length question > 1000 then Inl (PlanValidationError ''clarification question is too long'')
            else if dget_default d ''answer_type'' (PStr ''text'') \<noteq> PStr ''text''
            then Inl (PlanValidationError ''only text clarification is supported'')
            else let reason = py_strip (py_str (pe_repr env) (py_or (dget d ''reason'') (PStr ''missing_input'')))
                 in Inr (Some \<lparr>cl_question = question,
                     cl_reason = (if reason \<in> clarification_reasons then reason else ''missing_input'')\<rparr>))
      | _ \<Rightarrow> Inl (PlanValidationError ''clarification must be an object''))"

definition budget_fields :: "py \<Rightarrow> pydict res" where
  "budget_fields v =
     (case v of
        PNone \<Rightarrow> Inr []
      | PDict d \<Rightarrow> Inr d
      | _ \<Rightarrow> Inl (PlanValidationError ''budgets must be an object''))"

section \<open>The plan\<close>

definition plan_object :: "plan_env \<Rightarrow> py \<Rightarrow> pydict res" where
  "plan_object env raw =
     (case raw of
        PStr s \<Rightarrow>
          (case pe_loads env s of
             None \<Rightarrow> Inl (PlanValidationError ''retrieval plan must be JSON'')
           | Some (PDict d) \<Rightarrow> Inr d
           | Some _ \<Rightarrow> Inl (PlanValidationError ''retrieval plan must be an object''))
      | PDict d \<Rightarrow> Inr d
      | _ \<Rightarrow> Inl (PlanValidationError ''retrieval plan must be an object''))"

definition parse_retrieval_plan :: "plan_env \<Rightarrow> py \<Rightarrow> retrieval_plan res" where
  "parse_retrieval_plan env source =
     rbind (plan_object env source) (\<lambda>raw.
     rbind (required_text env (dget raw ''objective'') ''objective'' MAX_OBJECTIVE_CHARS) (\<lambda>objective.
     rbind (list_value (dget raw ''codegraph_queries'')) (\<lambda>graph_items.
     rbind (map_res (parse_codegraph env) (take MAX_CODEGRAPH_QUERIES graph_items)) (\<lambda>graph.
     rbind (list_value (dget raw ''source_windows'')) (\<lambda>window_items.
     rbind (map_res (parse_window env) (take MAX_SOURCE_WINDOWS window_items)) (\<lambda>windows.
     rbind (budget_fields (dget raw ''budgets'')) (\<lambda>budgets.
     rbind (clamped (dget budgets ''max_source_window_lines'') MAX_SOURCE_WINDOW_LINES 1 MAX_SOURCE_WINDOW_LINES) (\<lambda>lines.
     rbind (clamped (dget budgets ''max_evidence_tokens'') MAX_EVIDENCE_TOKENS 1 MAX_EVIDENCE_TOKENS) (\<lambda>tokens.
     rbind (parse_clarification env (dget raw ''clarification'')) (\<lambda>clar.
     rbind (unique_queries env (dget raw ''literal_queries'')) (\<lambda>literals.
     rbind (unique_queries env (dget raw ''file_scopes'')) (\<lambda>scopes.
       if clar = None \<and> graph = [] \<and> literals = [] \<and> windows = []
       then Inl (PlanValidationError ''retrieval request is required'')
       else
     rbind (bounded_query env (dget raw ''project'')) (\<lambda>project.
     rbind (bounded_query env (dget raw ''repository'')) (\<lambda>repository.
     rbind (bounded_query env (dget raw ''revision'')) (\<lambda>revision.
     rbind (bounded_query env (dget raw ''question_type'')) (\<lambda>kind.
     rbind (unique_queries env (dget raw ''evidence_requirements'')) (\<lambda>requirements.
     rbind (clamped (dget raw ''max_files'') MAX_FILES 1 MAX_FILES) (\<lambda>files.
     rbind (clamped (dget raw ''max_fallback_rounds'') 1 0 1) (\<lambda>rounds.
       Inr \<lparr>rp_objective = objective, rp_project = project, rp_repository = repository,
            rp_revision = revision, rp_question_type = (if kind = [] then ''mixed'' else kind),
            rp_requirements = take MAX_LITERAL_QUERIES requirements, rp_codegraph = graph,
            rp_literals = take MAX_LITERAL_QUERIES literals, rp_scopes = take MAX_LITERAL_QUERIES scopes,
            rp_windows = windows, rp_clarification = clar, rp_max_files = files, rp_max_fallback = rounds,
            rp_window_lines = lines, rp_evidence_tokens = tokens\<rparr>)))))))))))))))))))"

section \<open>What a validated plan satisfies\<close>

definition query_text :: "string \<Rightarrow> bool" where
  "query_text t \<longleftrightarrow> t \<noteq> [] \<and> length t \<le> MAX_QUERY_CHARS"

definition codegraph_ok :: "codegraph_query \<Rightarrow> bool" where
  "codegraph_ok q \<longleftrightarrow> cq_operation q \<in> ALLOWED_CODEGRAPH_OPERATIONS
     \<and> length (cq_query q) \<le> MAX_QUERY_CHARS \<and> length (cq_symbol q) \<le> MAX_QUERY_CHARS
     \<and> (cq_query q \<noteq> [] \<or> cq_symbol q \<noteq> [])"

definition window_ok :: "source_window \<Rightarrow> bool" where
  "window_ok w \<longleftrightarrow> query_text (sw_path w) \<and> (case sw_end w of None \<Rightarrow> True | Some e \<Rightarrow> sw_start w \<le> e)"

definition queries_ok :: "string list \<Rightarrow> bool" where
  "queries_ok qs \<longleftrightarrow> list_all query_text qs \<and> distinct qs \<and> length qs \<le> MAX_LITERAL_QUERIES"

definition plan_ok :: "retrieval_plan \<Rightarrow> bool" where
  "plan_ok p \<longleftrightarrow>
     rp_objective p \<noteq> [] \<and> length (rp_objective p) \<le> MAX_OBJECTIVE_CHARS
     \<and> length (rp_codegraph p) \<le> MAX_CODEGRAPH_QUERIES \<and> list_all codegraph_ok (rp_codegraph p)
     \<and> length (rp_windows p) \<le> MAX_SOURCE_WINDOWS \<and> list_all window_ok (rp_windows p)
     \<and> queries_ok (rp_literals p) \<and> queries_ok (rp_scopes p) \<and> queries_ok (rp_requirements p)
     \<and> 1 \<le> rp_max_files p \<and> rp_max_files p \<le> MAX_FILES
     \<and> 1 \<le> rp_window_lines p \<and> rp_window_lines p \<le> MAX_SOURCE_WINDOW_LINES
     \<and> 1 \<le> rp_evidence_tokens p \<and> rp_evidence_tokens p \<le> MAX_EVIDENCE_TOKENS
     \<and> rp_max_fallback p \<in> {0, 1}
     \<and> (rp_clarification p \<noteq> None \<or> rp_codegraph p \<noteq> [] \<or> rp_literals p \<noteq> [] \<or> rp_windows p \<noteq> [])"


lemma required_text_ok: "required_text env v l n = Inr t \<Longrightarrow> t \<noteq> [] \<and> length t \<le> n"
  by (auto simp: required_text_def Let_def split: if_splits)

lemma bounded_query_ok: "bounded_query env v = Inr t \<Longrightarrow> length t \<le> MAX_QUERY_CHARS"
  by (auto simp: bounded_query_def Let_def split: if_splits)

lemma map_res_all: "map_res f xs = Inr ys \<Longrightarrow> (\<And>x y. f x = Inr y \<Longrightarrow> P y) \<Longrightarrow> list_all P ys \<and> length ys = length xs"
  by (induction xs arbitrary: ys) (auto simp: rbind_Inr_iff)

lemma if_Inl_Inr: "(if b then Inl e else x) = Inr y \<longleftrightarrow> \<not> b \<and> x = Inr y"
  by simp

lemma unique_queries_ok:
  assumes "unique_queries env v = Inr qs"
  shows "list_all query_text qs \<and> distinct qs"
proof -
  obtain items queries where q: "map_res (\<lambda>item. bounded_query env (literal_query_value item)) items = Inr queries"
    "qs = keep_first (filter (\<lambda>q. q \<noteq> []) queries)"
    using assms by (auto simp: unique_queries_def rbind_Inr_iff)
  have "list_all (\<lambda>t. length t \<le> MAX_QUERY_CHARS) queries"
    using map_res_all [OF q(1), of "\<lambda>t. length t \<le> MAX_QUERY_CHARS"] bounded_query_ok by blast
  then show ?thesis by (auto simp: q(2) list_all_iff query_text_def)
qed

lemma queries_ok_take:
  "unique_queries env v = Inr qs \<Longrightarrow> queries_ok (take MAX_LITERAL_QUERIES qs)"
  using unique_queries_ok by (auto simp: queries_ok_def list_all_iff dest: in_set_takeD)

lemma clamped_ok: "clamped v absent low high = Inr n \<Longrightarrow> low \<le> high \<Longrightarrow> low \<le> n \<and> n \<le> high"
  by (auto simp: clamped_def rbind_Inr_iff)

lemma codegraph_operation_ok: "codegraph_operation d = Inr o' \<Longrightarrow> o' \<in> ALLOWED_CODEGRAPH_OPERATIONS"
  by (auto simp: codegraph_operation_def Let_def split: if_splits)

lemma parse_codegraph_ok: "parse_codegraph env item = Inr q \<Longrightarrow> codegraph_ok q"
  by (auto simp: parse_codegraph_def dict_case_Inr rbind_Inr_iff codegraph_ok_def
      dest: bounded_query_ok codegraph_operation_ok split: if_splits)

lemma parse_window_ok: "parse_window env item = Inr w \<Longrightarrow> window_ok w"
  by (auto simp: parse_window_def dict_case_Inr rbind_Inr_iff Let_def window_ok_def query_text_def
      dest: required_text_ok split: if_splits)

lemma parsed_plan_ok:
  assumes "parse_retrieval_plan env source = Inr plan"
  shows "plan_ok plan"
proof -
  obtain raw objective graph_items graph window_items windows budgets lines tokens clar literals scopes
      project repository revision kind requirements files rounds where
    parts: "required_text env (dget raw ''objective'') ''objective'' MAX_OBJECTIVE_CHARS = Inr objective"
      "map_res (parse_codegraph env) (take MAX_CODEGRAPH_QUERIES graph_items) = Inr graph"
      "map_res (parse_window env) (take MAX_SOURCE_WINDOWS window_items) = Inr windows"
      "clamped (dget budgets ''max_source_window_lines'') MAX_SOURCE_WINDOW_LINES 1 MAX_SOURCE_WINDOW_LINES = Inr lines"
      "clamped (dget budgets ''max_evidence_tokens'') MAX_EVIDENCE_TOKENS 1 MAX_EVIDENCE_TOKENS = Inr tokens"
      "unique_queries env (dget raw ''literal_queries'') = Inr literals"
      "unique_queries env (dget raw ''file_scopes'') = Inr scopes"
      "\<not> (clar = None \<and> graph = [] \<and> literals = [] \<and> windows = [])"
      "unique_queries env (dget raw ''evidence_requirements'') = Inr requirements"
      "clamped (dget raw ''max_files'') MAX_FILES 1 MAX_FILES = Inr files"
      "clamped (dget raw ''max_fallback_rounds'') 1 0 1 = Inr rounds"
    and plan: "plan = \<lparr>rp_objective = objective, rp_project = project, rp_repository = repository,
            rp_revision = revision, rp_question_type = (if kind = [] then ''mixed'' else kind),
            rp_requirements = take MAX_LITERAL_QUERIES requirements, rp_codegraph = graph,
            rp_literals = take MAX_LITERAL_QUERIES literals, rp_scopes = take MAX_LITERAL_QUERIES scopes,
            rp_windows = windows, rp_clarification = clar, rp_max_files = files, rp_max_fallback = rounds,
            rp_window_lines = lines, rp_evidence_tokens = tokens\<rparr>"
    using assms unfolding parse_retrieval_plan_def rbind_Inr_iff if_Inl_Inr sum.inject
    by (elim exE conjE) (rule that, (assumption | rule sym)+)
  have graph: "list_all codegraph_ok graph" "length graph \<le> MAX_CODEGRAPH_QUERIES"
    using map_res_all [OF parts(2), of codegraph_ok] parse_codegraph_ok by auto
  have windows: "list_all window_ok windows" "length windows \<le> MAX_SOURCE_WINDOWS"
    using map_res_all [OF parts(3), of window_ok] parse_window_ok by auto
  have "0 < MAX_LITERAL_QUERIES" by (simp add: MAX_LITERAL_QUERIES_def)
  then have lits: "take MAX_LITERAL_QUERIES literals = [] \<longleftrightarrow> literals = []" by auto
  have "rounds \<in> {0, 1}" using clamped_ok [OF parts(11)] by auto
  then show ?thesis
    using required_text_ok [OF parts(1)] graph windows lits parts(8) queries_ok_take [OF parts(6)]
      queries_ok_take [OF parts(7)] queries_ok_take [OF parts(9)]
      clamped_ok [OF parts(4)] clamped_ok [OF parts(5)] clamped_ok [OF parts(10)]
    by (auto simp: plan plan_ok_def MAX_SOURCE_WINDOW_LINES_def MAX_EVIDENCE_TOKENS_def MAX_FILES_def)
qed


definition sample_plan_env :: plan_env where
  "sample_plan_env = \<lparr>pe_loads = (\<lambda>s. None), pe_repr = (\<lambda>v. ''?'')\<rparr>"

definition sample_plan_source :: py where
  "sample_plan_source = PDict
     [(''objective'', PStr ''find it''), (''literal_queries'', PList [PStr ''run'', PStr ''run'']),
      (''max_files'', PInt 99)]"

definition sample_plan :: retrieval_plan where
  "sample_plan =
     \<lparr>rp_objective = ''find it'', rp_project = [], rp_repository = [], rp_revision = [],
      rp_question_type = ''mixed'', rp_requirements = [], rp_codegraph = [], rp_literals = [''run''],
      rp_scopes = [], rp_windows = [], rp_clarification = None, rp_max_files = 8, rp_max_fallback = 1,
      rp_window_lines = 250, rp_evidence_tokens = 20000\<rparr>"

lemma sample_plan_parsed: "parse_retrieval_plan sample_plan_env sample_plan_source = Inr sample_plan"
proof -
  have strip: "py_strip ''find it'' = ''find it''" "py_strip ''run'' = ''run''" "py_strip [] = []"
    by (simp_all add: py_strip_def is_space_def)
  then show ?thesis
    by (simp add: parse_retrieval_plan_def sample_plan_source_def plan_object_def required_text_def strip list_value_def
        budget_fields_def clamped_def plan_int_def parse_clarification_def unique_queries_def bounded_query_def
        literal_query_value_def sample_plan_def keep_first_def caught_int_def
        MAX_OBJECTIVE_CHARS_def MAX_QUERY_CHARS_def MAX_LITERAL_QUERIES_def MAX_FILES_def
        MAX_SOURCE_WINDOW_LINES_def MAX_EVIDENCE_TOKENS_def MAX_CODEGRAPH_QUERIES_def MAX_SOURCE_WINDOWS_def)
qed


end
