(* ===== verification/Evidence_Bundle.thy ===== *)
theory Evidence_Bundle
  imports Retrieval_Plan Citations
begin

text \<open>
  Evidence of planned code analysis, \<open>lensnode/lensnode/planned_evidence.py\<close>: items with their
  provenance, the bundle that fits a token budget, the sufficiency check, and the citations a
  model may make of a bundle. SHA-1, JSON text and the file system (resolving a path, telling
  files) are parameters.
\<close>

record evidence_env =
  ee_plan :: plan_env
  ee_sha1 :: "string \<Rightarrow> string"
  ee_dumps :: "py \<Rightarrow> string"

abbreviation ee_repr :: "evidence_env \<Rightarrow> py \<Rightarrow> string" where
  "ee_repr env \<equiv> pe_repr (ee_plan env)"

section \<open>Items\<close>

record evidence_item =
  ei_id :: string
  ei_type :: string
  ei_content :: string
  ei_path :: string
  ei_symbol :: string
  ei_start :: "int option"
  ei_end :: "int option"
  ei_provenance :: string
  ei_score :: int

text \<open>\<open>str(number or "")\<close>\<close>

definition opt_text :: "int option \<Rightarrow> string" where
  "opt_text n = (case n of None \<Rightarrow> [] | Some i \<Rightarrow> if i = 0 then [] else dec_int i)"

definition evidence_id :: "evidence_env \<Rightarrow> evidence_item \<Rightarrow> string" where
  "evidence_id env i =
     ''evidence-'' @ take 16 (ee_sha1 env (join_with [CHR 0x00]
       [ei_type i, ei_path i, ei_symbol i, opt_text (ei_start i), opt_text (ei_end i), ei_content i]))"

text \<open>The constructor: \<open>__post_init__\<close> derives an identifier when none is given.\<close>

definition identified :: "evidence_env \<Rightarrow> evidence_item \<Rightarrow> evidence_item" where
  "identified env i = (if ei_id i = [] then i\<lparr>ei_id := evidence_id env i\<rparr> else i)"

definition optional_int :: "py \<Rightarrow> int option res" where
  "optional_int v = (if v = PNone then Inr None else caught_int v)"

definition type_score :: "string \<Rightarrow> int" where
  "type_score t =
     (if t = ''source'' then 4 else if t = ''structural'' then 3
      else if t = ''runtime'' then 2 else if t = ''literal'' then 2 else 1)"

definition to_item :: "evidence_env \<Rightarrow> py \<Rightarrow> evidence_item res" where
  "to_item env v =
     (case v of
        PDict d \<Rightarrow>
          rbind (optional_int (dget d ''start_line'')) (\<lambda>start.
          rbind (optional_int (dget d ''end_line'')) (\<lambda>stop.
            let t = py_str (ee_repr env) (py_or (dget d ''evidence_type'') (PStr ''unknown''))
            in Inr (identified env
              \<lparr>ei_id = [], ei_type = t,
               ei_content = text_or_empty (ee_repr env) (dget d ''content''),
               ei_path = text_or_empty (ee_repr env) (dget d ''path''),
               ei_symbol = text_or_empty (ee_repr env) (dget d ''symbol''),
               ei_start = start, ei_end = stop,
               ei_provenance = text_or_empty (ee_repr env) (dget d ''provenance''),
               ei_score = type_score t\<rparr>)))
      | _ \<Rightarrow> Inl AttributeError)"

definition opt_line :: "int option \<Rightarrow> py" where
  "opt_line n = (case n of None \<Rightarrow> PNone | Some i \<Rightarrow> PInt i)"

definition item_dict :: "evidence_item \<Rightarrow> py" where
  "item_dict i = PDict
     [(''id'', PStr (ei_id i)), (''evidence_type'', PStr (ei_type i)), (''path'', PStr (ei_path i)),
      (''symbol'', PStr (ei_symbol i)), (''start_line'', opt_line (ei_start i)),
      (''end_line'', opt_line (ei_end i)), (''provenance'', PStr (ei_provenance i)),
      (''content'', PStr (ei_content i))]"

section \<open>Bundles\<close>

record evidence_bundle =
  eb_items :: "evidence_item list"
  eb_duplicates :: int
  eb_tokens :: int
  eb_files :: int

text \<open>The loops that keep the first item for each key.\<close>

fun first_by :: "('a \<Rightarrow> 'k) \<Rightarrow> 'k set \<Rightarrow> 'a list \<Rightarrow> 'a list" where
  "first_by key seen [] = []"
| "first_by key seen (x # xs) =
     (if key x \<in> seen then first_by key seen xs else x # first_by key (insert (key x) seen) xs)"

type_synonym item_identity = "string \<times> string \<times> string \<times> int option \<times> int option \<times> string"

definition item_key :: "evidence_item \<Rightarrow> item_identity" where
  "item_key i = (ei_type i, ei_path i, ei_symbol i, ei_start i, ei_end i, ei_content i)"

definition rank_key :: "evidence_item \<Rightarrow> int \<times> string \<times> int" where
  "rank_key i = (- ei_score i, ei_path i, case ei_start i of None \<Rightarrow> 0 | Some n \<Rightarrow> n)"

definition estimate_tokens :: "string \<Rightarrow> int" where
  "estimate_tokens t = max 1 ((int (length t) + 3) div 4)"

definition cut_item :: "evidence_env \<Rightarrow> int \<Rightarrow> evidence_item \<Rightarrow> evidence_item" where
  "cut_item env remaining i =
     identified env (i\<lparr>ei_id := [], ei_content := take (nat (remaining * 4)) (ei_content i)\<rparr>)"

fun fill_budget :: "evidence_env \<Rightarrow> int \<Rightarrow> evidence_item list \<Rightarrow> evidence_item list" where
  "fill_budget env remaining [] = []"
| "fill_budget env remaining (i # is) =
     (if remaining \<le> 0 then []
      else if ei_content (cut_item env remaining i) = [] then fill_budget env remaining is
      else cut_item env remaining i
        # fill_budget env (remaining - estimate_tokens (ei_content (cut_item env remaining i))) is)"

definition ranked_items :: "evidence_item list \<Rightarrow> evidence_item list" where
  "ranked_items is = sort_key rank_key (first_by item_key {} is)"

definition build_evidence_bundle :: "evidence_env \<Rightarrow> py list \<Rightarrow> int \<Rightarrow> evidence_bundle res" where
  "build_evidence_bundle env raw_items max_tokens =
     rbind (map_res (to_item env) raw_items) (\<lambda>normalized.
       let selected = fill_budget env max_tokens (ranked_items normalized)
       in Inr \<lparr>eb_items = selected,
               eb_duplicates = int (length normalized) - int (length (ranked_items normalized)),
               eb_tokens = sum_list (map (estimate_tokens \<circ> ei_content) selected),
               eb_files = int (card (set (map ei_path (filter (\<lambda>i. ei_path i \<noteq> []) selected))))\<rparr>)"

section \<open>Sufficiency\<close>

definition requirement_category :: "string \<Rightarrow> string" where
  "requirement_category requirement =
     (let v = map lower_char requirement
      in if contains_any [''runtime'', ''traceback'', ''error''] v then ''runtime_error''
         else if contains_any [''source'', ''line'', ''citation''] v then ''source''
         else if contains_any [''caller'', ''context''] v then ''caller_context''
         else ''structural'')"

definition has_category :: "evidence_item list \<Rightarrow> string \<Rightarrow> bool" where
  "has_category items category =
     (if category = ''runtime_error'' then list_ex (\<lambda>i. ei_type i \<in> {''runtime'', ''literal''}) items
      else if category = ''source''
      then list_ex (\<lambda>i. ei_type i = ''source'' \<and> ei_path i \<noteq> [] \<and> ei_start i \<noteq> None \<and> ei_end i \<noteq> None) items
      else if category = ''structural'' then list_ex (\<lambda>i. ei_type i = ''structural'') items
      else list_ex (\<lambda>i. ei_type i = ''structural''
             \<and> (ei_provenance i \<in> {''callers'', ''callees'', ''trace'', ''search_workspace.caller_context''}
                \<or> contains_any [''caller'', ''call'', ''invoke''] (map lower_char (ei_content i)))) items)"

text \<open>The gaps of a bundle; it is sufficient when there are none.\<close>

definition evidence_gaps :: "evidence_bundle \<Rightarrow> string list \<Rightarrow> string list" where
  "evidence_gaps b requirements =
     keep_first (filter (\<lambda>c. \<not> has_category (eb_items b) c) (map requirement_category requirements))"

section \<open>Citations of a bundle\<close>

text \<open>
  A path is its list of components. \<open>ws_resolve\<close> is \<open>Path.resolve\<close> (\<open>None\<close> when it raises one of
  the exceptions caught here), \<open>ws_root\<close> the resolved workspace.
\<close>

record workspace =
  ws_root :: "string list"
  ws_resolve :: "string list \<Rightarrow> string list option"
  ws_is_file :: "string list \<Rightarrow> bool"

definition resolved_path :: "workspace \<Rightarrow> string \<Rightarrow> string list option" where
  "resolved_path ws p = ws_resolve ws (if is_absolute p then path_parts p else ws_root ws @ path_parts p)"

definition sources_by_id :: "evidence_bundle \<Rightarrow> string \<Rightarrow> evidence_item option" where
  "sources_by_id b =
     map_of (rev (map (\<lambda>i. (ei_id i, i)) (filter (\<lambda>i. ei_type i = ''source'') (eb_items b))))"

definition context_text :: "evidence_env \<Rightarrow> pydict \<Rightarrow> string \<Rightarrow> string" where
  "context_text env context k = py_str (ee_repr env) (py_or (dget context k) (PStr ''workspace''))"

definition grounded_citation ::
    "evidence_env \<Rightarrow> pydict \<Rightarrow> evidence_item \<Rightarrow> string \<Rightarrow> string \<Rightarrow> string \<Rightarrow> int \<Rightarrow> int \<Rightarrow> pydict" where
  "grounded_citation env context i cid supports path a b =
     [(''id'', PStr cid), (''evidence_id'', PStr cid),
      (''project'', PStr (context_text env context ''project'')),
      (''repository'', PStr (context_text env context ''repository'')),
      (''revision'', PStr (context_text env context ''revision'')),
      (''path'', PStr path), (''symbol'', PStr (ei_symbol i)),
      (''start_line'', PInt a), (''end_line'', PInt b),
      (''supports'', PStr supports), (''source'', PStr (ei_content i))]"

definition item_citation ::
    "evidence_env \<Rightarrow> workspace \<Rightarrow> pydict \<Rightarrow> string \<Rightarrow> string \<Rightarrow> evidence_item \<Rightarrow> pydict option" where
  "item_citation env ws context cid supports i =
     (case (resolved_path ws (ei_path i), ei_start i, ei_end i) of
        (Some parts, Some a, Some b) \<Rightarrow>
          if prefix (ws_root ws) parts \<and> ws_is_file ws parts \<and> 1 \<le> a \<and> a \<le> b
             \<and> b - a + 1 \<le> int (length (splitlines (ei_content i)))
          then Some (grounded_citation env context i cid supports
                      (as_posix (drop (length (ws_root ws)) parts)) a b)
          else None
      | _ \<Rightarrow> None)"

text \<open>One round of the loop: the identifier of an invalid citation, or the trusted citation.\<close>

definition check_citation :: "evidence_env \<Rightarrow> evidence_bundle \<Rightarrow> workspace \<Rightarrow> pydict \<Rightarrow> py \<Rightarrow> string + pydict" where
  "check_citation env b ws context citation =
     (let c = dict_of citation;
          cid = py_strip (text_or_empty (ee_repr env) (dget c ''evidence_id''));
          supports = py_strip (text_or_empty (ee_repr env) (dget c ''supports''));
          failed = Inl (if cid = [] then ''<missing-evidence-id>'' else cid)
      in case sources_by_id b cid of
           None \<Rightarrow> failed
         | Some i \<Rightarrow>
             if supports = [] then failed
             else (case item_citation env ws context cid supports i of None \<Rightarrow> failed | Some d \<Rightarrow> Inr d))"

definition validate_citations ::
    "evidence_env \<Rightarrow> py list \<Rightarrow> evidence_bundle \<Rightarrow> workspace \<Rightarrow> pydict \<Rightarrow> pydict list \<times> string list" where
  "validate_citations env citations b ws context =
     (let checked = map (check_citation env b ws context) citations
      in (List.map_filter (\<lambda>r. case r of Inr d \<Rightarrow> Some d | Inl _ \<Rightarrow> None) checked,
          List.map_filter (\<lambda>r. case r of Inl i \<Rightarrow> Some i | Inr _ \<Rightarrow> None) checked))"

end
