(* ===== verification/Evidence_Retrieval.thy ===== *)
theory Evidence_Retrieval
  imports Evidence_Bundle
begin

text \<open>
  Deterministic retrieval for a validated plan, \<open>EvidenceExecutor\<close> of
  \<open>lensnode/lensnode/planned_evidence.py\<close>: planned searches, a fallback search when they were not
  enough, and the source windows derived from what was found. A tool is a function from its
  arguments to a result or the name of the exception it raises. Requests of a batch run in
  parallel, so the order in which they complete is an argument (\<open>order\<close>). Trajectory records of
  the calls are the log of the requests that were started.
\<close>

type_synonym adapter = "pydict \<Rightarrow> string + py"

record retrieval_tools =
  rt_search :: "adapter option"
  rt_read :: "adapter option"
  rt_codegraph :: "string \<Rightarrow> adapter option"

section \<open>Items of a result\<close>

definition structural_type :: "string \<Rightarrow> string" where
  "structural_type t = (if t = ''codegraph'' then ''structural'' else t)"

definition error_item :: "string \<Rightarrow> string \<Rightarrow> py" where
  "error_item content provenance = PDict
     [(''evidence_type'', PStr ''retrieval_error''), (''content'', PStr content), (''provenance'', PStr provenance)]"

definition text_item :: "string \<Rightarrow> string \<Rightarrow> string \<Rightarrow> py" where
  "text_item t content provenance = PDict
     [(''evidence_type'', PStr t), (''content'', PStr content), (''provenance'', PStr provenance)]"

definition match_item :: "string \<Rightarrow> string \<Rightarrow> pydict \<Rightarrow> py" where
  "match_item t provenance d = PDict
     [(''evidence_type'', PStr t), (''path'', dget_default d ''path'' (PStr [])), (''start_line'', dget d ''line''),
      (''end_line'', dget d ''line''), (''content'', dget_default d ''text'' (PStr [])),
      (''provenance'', PStr provenance)]"

definition object_items :: "evidence_env \<Rightarrow> pydict \<Rightarrow> string \<Rightarrow> string \<Rightarrow> py list" where
  "object_items env d t provenance =
     (if truthy (dget d ''error'')
      then [PDict [(''evidence_type'', PStr ''retrieval_error''), (''path'', dget_default d ''path'' (PStr [])),
                   (''content'', PStr (py_str (ee_repr env) (dget d ''error''))), (''provenance'', PStr provenance)]]
      else case dget d ''matches'' of
        PList matches \<Rightarrow> List.map_filter (\<lambda>m. case m of PDict e \<Rightarrow> Some (match_item (structural_type t) provenance e) | _ \<Rightarrow> None) matches
      | _ \<Rightarrow>
          if map_of d ''content'' \<noteq> None
          then [PDict [(''evidence_type'', PStr (structural_type t)), (''path'', dget_default d ''path'' (PStr [])),
                       (''symbol'', dget_default d ''symbol'' (PStr [])), (''start_line'', dget d ''start_line''),
                       (''end_line'', dget d ''end_line''),
                       (''content'', PStr (text_or_empty (ee_repr env) (dget d ''content''))),
                       (''provenance'', PStr provenance)]]
          else if d = [] then []
          else [text_item (structural_type t) (ee_dumps env (PDict d)) provenance])"

text \<open>
  \<open>json.loads\<close> of a text. A decoded value is smaller than its text, which is checked here, since
  a result may contain a text that is decoded in turn.
\<close>

definition decoded :: "evidence_env \<Rightarrow> string \<Rightarrow> py option" where
  "decoded env s =
     (case pe_loads (ee_plan env) s of
        None \<Rightarrow> None
      | Some v \<Rightarrow> if weight v < length s then Some v else None)"

lemma decoded_smaller: "decoded env s = Some v \<Longrightarrow> weight v < length s"
  by (auto simp: decoded_def split: option.splits if_splits)

definition tool_error :: "evidence_env \<Rightarrow> pydict \<Rightarrow> string" where
  "tool_error env d = py_str (ee_repr env) (py_or (dget d ''error'') (PStr ''MCP_TOOL_FAILED''))"

text \<open>The items of a value that needs neither decoding nor unwrapping.\<close>

definition plain_items :: "evidence_env \<Rightarrow> py \<Rightarrow> string \<Rightarrow> string \<Rightarrow> py list" where
  "plain_items env v t provenance =
     (case v of
        PDict d \<Rightarrow>
          if dget d ''ok'' = PBool False then [error_item (tool_error env d) provenance]
          else object_items env d t provenance
      | PList vs \<Rightarrow> if vs = [] then [] else [text_item (structural_type t) (ee_dumps env v) provenance]
      | PNone \<Rightarrow> []
      | _ \<Rightarrow> [text_item (structural_type t) (py_str (ee_repr env) v) provenance])"

definition read_text :: "evidence_env \<Rightarrow> py \<Rightarrow> py option" where
  "read_text env v = (case v of PStr s \<Rightarrow> (if py_strip s = [] then None else decoded env s) | _ \<Rightarrow> Some v)"

text \<open>The value an envelope \<open>{"ok": true, "result": ...}\<close> stands for.\<close>

definition enveloped :: "py \<Rightarrow> py option" where
  "enveloped v = (case v of PDict d \<Rightarrow> (if dget d ''ok'' = PBool True then Some (dget d ''result'') else None) | _ \<Rightarrow> None)"

lemma enveloped_smaller: "enveloped v = Some w \<Longrightarrow> weight w < weight v"
proof -
  assume "enveloped v = Some w"
  then obtain d where d: "v = PDict d" "dget d ''ok'' = PBool True" "w = dget d ''result''"
    by (auto simp: enveloped_def split: py.splits if_splits)
  have "d \<noteq> []" using d(2) by auto
  then show ?thesis
    using d weight_dget [of d "''result''"]
    by (cases "map_of d ''result''"; cases d) (auto simp: dget_def split: option.splits)
qed

lemma read_text_smaller: "read_text env v = Some w \<Longrightarrow> weight w \<le> weight v"
  by (auto simp: read_text_def dest: decoded_smaller split: py.splits if_splits)

function items_from_result :: "evidence_env \<Rightarrow> py \<Rightarrow> string \<Rightarrow> string \<Rightarrow> py list" where
  "items_from_result env v t provenance =
     (case read_text env v of
        None \<Rightarrow> (case v of
            PStr s \<Rightarrow> if py_strip s = [] then [] else [text_item (structural_type t) s provenance]
          | _ \<Rightarrow> [])
      | Some w \<Rightarrow> (case enveloped w of
            Some inner \<Rightarrow> items_from_result env inner t provenance
          | None \<Rightarrow> plain_items env w t provenance))"
  by pat_completeness auto
termination
  by (relation "measure (\<lambda>(env, v, t, p). weight v)")
     (auto dest!: enveloped_smaller read_text_smaller)

declare items_from_result.simps [simp del]

section \<open>Requests\<close>

record tool_request =
  rq_kind :: string
  rq_provenance :: string
  rq_tool :: adapter
  rq_args :: pydict

definition as_args :: "codegraph_query \<Rightarrow> pydict" where
  "as_args q = (if cq_query q \<noteq> [] then [(''query'', PStr (cq_query q))] else [])
     @ (if cq_symbol q \<noteq> [] then [(''symbol'', PStr (cq_symbol q))] else [])"

definition explore_args :: "codegraph_query \<Rightarrow> pydict" where
  "explore_args q =
     [(''query'', PStr (join_with '' '' (filter (\<lambda>s. s \<noteq> []) [cq_query q, cq_symbol q])))]"

definition codegraph_request :: "retrieval_tools \<Rightarrow> codegraph_query \<Rightarrow> tool_request option" where
  "codegraph_request tools q =
     (case rt_codegraph tools (cq_operation q) of
        Some f \<Rightarrow> Some \<lparr>rq_kind = ''codegraph'', rq_provenance = cq_operation q, rq_tool = f, rq_args = as_args q\<rparr>
      | None \<Rightarrow> (case rt_codegraph tools ''explore'' of
            Some f \<Rightarrow> Some \<lparr>rq_kind = ''codegraph'', rq_provenance = cq_operation q, rq_tool = f, rq_args = explore_args q\<rparr>
          | None \<Rightarrow> None))"

definition search_args :: "retrieval_plan \<Rightarrow> string \<Rightarrow> bool \<Rightarrow> pydict" where
  "search_args plan query regex =
     [(''query'', PStr query)] @ (if regex then [(''regex'', PBool True)] else [])
     @ [(''max_results'', PInt (rp_max_files plan * 4)), (''output_mode'', PStr ''content'')]"

definition search_request :: "retrieval_plan \<Rightarrow> adapter \<Rightarrow> string \<Rightarrow> string \<Rightarrow> string \<Rightarrow> tool_request" where
  "search_request plan f kind provenance query =
     \<lparr>rq_kind = kind, rq_provenance = provenance, rq_tool = f,
      rq_args = search_args plan query (kind = ''structural_search'')\<rparr>"

definition planned_requests :: "retrieval_tools \<Rightarrow> retrieval_plan \<Rightarrow> tool_request list" where
  "planned_requests tools plan =
     List.map_filter (codegraph_request tools) (rp_codegraph plan)
     @ (case rt_search tools of
          None \<Rightarrow> []
        | Some f \<Rightarrow> map (\<lambda>q. search_request plan f ''literal'' q q) (rp_literals plan))"

text \<open>
  The state of a retrieval: the items in the order in which they were appended, the three call
  counters, and the kinds and arguments of the calls that were started.
\<close>

record retrieval =
  rv_items :: "py list"
  rv_codegraph_calls :: int
  rv_literal_calls :: int
  rv_file_calls :: int
  rv_log :: "(string \<times> pydict) list"

definition request_items :: "evidence_env \<Rightarrow> tool_request \<Rightarrow> py list" where
  "request_items env rq =
     (case rq_tool rq (rq_args rq) of
        Inl name \<Rightarrow> [error_item name (rq_provenance rq)]
      | Inr v \<Rightarrow> items_from_result env v
          (if rq_kind rq = ''structural_search'' then ''structural'' else rq_kind rq) (rq_provenance rq))"

definition finish_request :: "evidence_env \<Rightarrow> retrieval \<Rightarrow> tool_request \<Rightarrow> retrieval" where
  "finish_request env st rq =
     st\<lparr>rv_items := rv_items st @ request_items env rq,
        rv_codegraph_calls := rv_codegraph_calls st + (if rq_kind rq = ''codegraph'' then 1 else 0),
        rv_literal_calls := rv_literal_calls st + (if rq_kind rq = ''codegraph'' then 0 else 1)\<rparr>"

definition run_requests ::
    "evidence_env \<Rightarrow> (tool_request list \<Rightarrow> tool_request list) \<Rightarrow> tool_request list \<Rightarrow> retrieval \<Rightarrow> retrieval" where
  "run_requests env order pending st =
     foldl (finish_request env)
       (st\<lparr>rv_log := rv_log st @ map (\<lambda>rq. (rq_provenance rq, rq_args rq)) pending\<rparr>) (order pending)"

section \<open>Fallback searches\<close>

definition is_word_start :: "char \<Rightarrow> bool" where
  "is_word_start c \<longleftrightarrow> word_char c \<and> \<not> is_digit c"

definition is_term_char :: "char \<Rightarrow> bool" where
  "is_term_char c \<longleftrightarrow> word_char c \<or> c \<in> {CHR ''.'', CHR ''/'', CHR '':'', CHR ''-''}"

text \<open>
  \<open>[A-Za-z_][A-Za-z0-9_./:-]{2,}|[0-9]{3,}\<close> at the front of a text: how many characters match.
  (The third alternative of the source matches Chinese characters only.)
\<close>

definition term_match :: "string \<Rightarrow> nat" where
  "term_match s =
     (case s of
        [] \<Rightarrow> 0
      | c # cs \<Rightarrow>
          let n = length (takeWhile is_term_char cs); m = length (takeWhile is_digit s)
          in if is_word_start c \<and> n \<ge> 2 then Suc n else if m \<ge> 3 then m else 0)"

text \<open>\<open>[A-Za-z_][A-Za-z0-9_]*(?:\.[A-Za-z_][A-Za-z0-9_]*)?\<close>\<close>

definition symbol_match :: "string \<Rightarrow> nat" where
  "symbol_match s =
     (case s of
        [] \<Rightarrow> 0
      | c # cs \<Rightarrow>
          if \<not> is_word_start c then 0
          else let n = Suc (length (takeWhile word_char cs))
               in case drop n s of
                    d # e # rest \<Rightarrow> if d = CHR ''.'' \<and> is_word_start e
                                    then n + 2 + length (takeWhile word_char rest) else n
                  | _ \<Rightarrow> n)"

text \<open>\<open>re.findall\<close> for a pattern that never matches the empty text.\<close>

function find_all :: "(string \<Rightarrow> nat) \<Rightarrow> string \<Rightarrow> string list" where
  "find_all m [] = []"
| "find_all m (c # cs) =
     (if m (c # cs) = 0 then find_all m cs
      else take (m (c # cs)) (c # cs) # find_all m (drop (m (c # cs)) (c # cs)))"
  by pat_completeness auto
termination
  by (relation "measure (\<lambda>(m, s). length s)") auto

definition fallback_stopwords :: "string set" where
  "fallback_stopwords =
     {''about'', ''after'', ''analyze'', ''analysis'', ''and'', ''code'', ''find'', ''for'', ''from'',
      ''implementation'', ''inspect'', ''into'', ''issue'', ''look'', ''the'', ''this'', ''trace'', ''where'', ''with''}"

definition strip_chars :: "char set \<Rightarrow> string \<Rightarrow> string" where
  "strip_chars C s = rev (dropWhile (\<lambda>c. c \<in> C) (rev (dropWhile (\<lambda>c. c \<in> C) s)))"

definition lower :: "string \<Rightarrow> string" where
  "lower s = map lower_char s"

text \<open>
  The loops collect the first terms, at most eight, that are no stop words and differ when their
  case is ignored.
\<close>

definition fallback_keyword_queries :: "retrieval_plan \<Rightarrow> string list" where
  "fallback_keyword_queries plan =
     (let candidates = rp_literals plan @ concat (map (\<lambda>q. [cq_symbol q, cq_query q]) (rp_codegraph plan)) @ [rp_objective plan];
          terms = map (strip_chars {CHR ''.'', CHR ''/'', CHR '':'', CHR ''-''}) (concat (map (find_all term_match) candidates))
      in take 8 (first_by lower {} (filter (\<lambda>t. t \<noteq> [] \<and> lower t \<notin> fallback_stopwords) terms)))"

definition requires_caller_context :: "retrieval_plan \<Rightarrow> bool" where
  "requires_caller_context plan =
     contains_any [''caller'', ''callee'', ''call chain'', ''call path'', ''invoke'']
       (join_with '' '' (map lower (rp_question_type plan # rp_objective plan # rp_requirements plan)))"

definition caller_symbols :: "retrieval_plan \<Rightarrow> string list" where
  "caller_symbols plan =
     (let values = map cq_symbol (rp_codegraph plan) @ map cq_query (rp_codegraph plan);
          symbols = concat (map (find_all symbol_match) values)
      in take 4 (first_by lower {} (filter (\<lambda>t. lower t \<notin> fallback_stopwords) symbols)))"

text \<open>\<open>re.escape\<close> of a symbol, whose only special character is the dot.\<close>

definition escaped :: "string \<Rightarrow> string" where
  "escaped s = concat (map (\<lambda>c. if c = CHR ''.'' then [CHR 92, c] else [c]) s)"

definition caller_search_pattern :: "string \<Rightarrow> string" where
  "caller_search_pattern symbol =
     (let e = escaped symbol; b = [CHR 92, CHR ''b'']; sp = [CHR 92, CHR ''s'']
      in ''(?:'' @ b @ ''(?:def|class|function)'' @ sp @ ''+'' @ e @ b @ ''|'' @ b @ e @ sp @ ''*'' @ [CHR 92] @ ''()'')"

definition fallback_requests :: "adapter \<Rightarrow> retrieval_plan \<Rightarrow> tool_request list" where
  "fallback_requests f plan =
     map (search_request plan f ''literal'' ''search_workspace.fallback'')
       (filter (\<lambda>q. q \<notin> set (rp_literals plan)) (fallback_keyword_queries plan))
     @ (if requires_caller_context plan
        then map (\<lambda>s. search_request plan f ''structural_search'' ''search_workspace.caller_context'' (caller_search_pattern s))
               (caller_symbols plan)
        else [])"

section \<open>Source windows\<close>

text \<open>Windows at the locations of items, with their priority and position.\<close>

definition window_priority :: "string \<Rightarrow> string \<Rightarrow> int" where
  "window_priority t provenance =
     (if provenance = ''search_workspace.caller_context'' then 0
      else if provenance = ''search_workspace.fallback'' then 1
      else if t = ''structural'' then 2 else 3)"

definition located_window ::
    "string \<Rightarrow> string \<Rightarrow> string \<Rightarrow> int option \<Rightarrow> int option \<Rightarrow> (int \<times> source_window) option" where
  "located_window t provenance path start end_line =
     (let stop = (case end_line of Some e \<Rightarrow> if e = 0 then start else Some e | None \<Rightarrow> start)
      in case (start, stop) of
           (Some a, Some b) \<Rightarrow>
             if path = [] \<or> a < 1 then None
             else Some (window_priority t provenance, \<lparr>sw_path = path, sw_start = a, sw_end = Some (max a b)\<rparr>)
         | _ \<Rightarrow> None)"

definition item_window :: "evidence_env \<Rightarrow> py \<Rightarrow> (int \<times> source_window) option res" where
  "item_window env item =
     (case item of
        PDict d \<Rightarrow>
          rbind (in_texts (dget d ''evidence_type'') {''structural'', ''literal''}) (\<lambda>located.
            if \<not> located then Inr None
            else rbind (optional_int (dget d ''start_line'')) (\<lambda>start.
                 rbind (optional_int (dget d ''end_line'')) (\<lambda>end_line.
                   Inr (located_window (text_or_empty (ee_repr env) (dget d ''evidence_type''))
                     (text_or_empty (ee_repr env) (dget d ''provenance''))
                     (py_strip (text_or_empty (ee_repr env) (dget d ''path''))) start end_line))))
      | _ \<Rightarrow> Inr None)"

text \<open>The first window of each path comes before the others.\<close>

fun split_windows :: "string set \<Rightarrow> source_window list \<Rightarrow> source_window list \<times> source_window list" where
  "split_windows seen [] = ([], [])"
| "split_windows seen (w # ws) =
     (if sw_path w \<in> seen then map_prod id ((#) w) (split_windows seen ws)
      else map_prod ((#) w) id (split_windows (insert (sw_path w) seen) ws))"

definition window_key :: "source_window \<Rightarrow> string \<times> int \<times> int option" where
  "window_key w = (sw_path w, sw_start w, sw_end w)"

definition source_windows_from_items :: "evidence_env \<Rightarrow> py list \<Rightarrow> source_window list res" where
  "source_windows_from_items env items =
     rbind (map_res (item_window env) items) (\<lambda>found.
       let candidates = sort_key fst (List.map_filter (\<lambda>w. w) found);
           (primary, secondary) = split_windows {} (first_by window_key {} (map snd candidates))
       in Inr (primary @ secondary))"

type_synonym line_range = "int \<times> int"

text \<open>Ranges of one path, sorted, merged as far as the line budget of a window allows.\<close>

definition window_range :: "int \<Rightarrow> source_window \<Rightarrow> line_range" where
  "window_range max_lines w =
     (let stop = (case sw_end w of Some e \<Rightarrow> if e = 0 then sw_start w + max_lines - 1 else e
                    | None \<Rightarrow> sw_start w + max_lines - 1)
      in (sw_start w, min stop (sw_start w + max_lines - 1)))"

fun merge_windows :: "int \<Rightarrow> line_range \<Rightarrow> line_range list \<Rightarrow> line_range list" where
  "merge_windows max_lines (a, b) [] = [(a, b)]"
| "merge_windows max_lines (a, b) ((s, e) # rs) =
     (if s \<le> b + 1 then merge_windows max_lines (a, min (max b e) (a + max_lines - 1)) rs
      else (a, b) # merge_windows max_lines (s, e) rs)"

definition path_windows :: "int \<Rightarrow> source_window list \<Rightarrow> string \<Rightarrow> source_window list" where
  "path_windows max_lines windows path =
     (case sort (map (window_range max_lines) (filter (\<lambda>w. sw_path w = path) windows)) of
        [] \<Rightarrow> []
      | r # rs \<Rightarrow> map (\<lambda>(a, b). \<lparr>sw_path = path, sw_start = a, sw_end = Some b\<rparr>) (merge_windows max_lines r rs))"

definition coalesce_source_windows :: "source_window list \<Rightarrow> int \<Rightarrow> source_window list" where
  "coalesce_source_windows windows max_lines =
     concat (map (path_windows max_lines windows) (keep_first (map sw_path windows)))"

section \<open>Executing a plan\<close>

definition read_args :: "int \<Rightarrow> source_window \<Rightarrow> pydict" where
  "read_args max_lines w =
     (let stop = (case sw_end w of Some e \<Rightarrow> if e = 0 then sw_start w + max_lines - 1 else e
                    | None \<Rightarrow> sw_start w + max_lines - 1)
      in [(''path'', PStr (sw_path w)), (''offset'', PInt (sw_start w)),
          (''limit'', PInt (min (stop - sw_start w + 1) max_lines))])"

definition read_error :: "string \<Rightarrow> string \<Rightarrow> py" where
  "read_error path name = PDict
     [(''evidence_type'', PStr ''retrieval_error''), (''path'', PStr path), (''content'', PStr name),
      (''provenance'', PStr ''read_workspace_file'')]"

text \<open>Reads are collected in the order of the windows; only successful ones are counted.\<close>

definition complete_read :: "evidence_env \<Rightarrow> adapter \<Rightarrow> int \<Rightarrow> retrieval \<Rightarrow> source_window \<Rightarrow> retrieval" where
  "complete_read env f max_lines st w =
     (case f (read_args max_lines w) of
        Inl name \<Rightarrow> st\<lparr>rv_items := rv_items st @ [read_error (sw_path w) name]\<rparr>
      | Inr v \<Rightarrow> st\<lparr>rv_file_calls := rv_file_calls st + 1,
                   rv_items := rv_items st @ items_from_result env v ''source'' ''read_workspace_file''\<rparr>)"

definition read_windows :: "evidence_env \<Rightarrow> adapter \<Rightarrow> retrieval_plan \<Rightarrow> retrieval \<Rightarrow> retrieval res" where
  "read_windows env f plan st =
     rbind (source_windows_from_items env (rv_items st)) (\<lambda>found.
       let planned = take (nat (rp_max_files plan)) (rp_windows plan);
           derived = take (nat (rp_max_files plan - int (length planned))) found;
           windows = coalesce_source_windows (planned @ derived) (rp_window_lines plan)
       in Inr (foldl (complete_read env f (rp_window_lines plan))
            (st\<lparr>rv_log := rv_log st @ map (\<lambda>w. (''read_workspace_file'', read_args (rp_window_lines plan) w)) windows\<rparr>)
            windows))"

text \<open>Whether any structural item has content.\<close>

definition structural_found :: "evidence_env \<Rightarrow> py list \<Rightarrow> bool" where
  "structural_found env items =
     list_ex (\<lambda>v. dget (dict_of v) ''evidence_type'' = PStr ''structural''
                \<and> py_strip (text_or_empty (ee_repr env) (dget (dict_of v) ''content'')) \<noteq> []) items"

definition needs_fallback :: "evidence_env \<Rightarrow> retrieval_plan \<Rightarrow> py list \<Rightarrow> bool res" where
  "needs_fallback env plan items =
     rbind (build_evidence_bundle env items (rp_evidence_tokens plan)) (\<lambda>b.
       Inr (rp_codegraph plan \<noteq> [] \<and> \<not> structural_found env items
            \<or> evidence_gaps b (rp_requirements plan) \<noteq> []))"

definition empty_retrieval :: retrieval where
  "empty_retrieval = \<lparr>rv_items = [], rv_codegraph_calls = 0, rv_literal_calls = 0, rv_file_calls = 0, rv_log = []\<rparr>"

definition retrieve ::
    "evidence_env \<Rightarrow> (tool_request list \<Rightarrow> tool_request list) \<Rightarrow> retrieval_tools \<Rightarrow> retrieval_plan \<Rightarrow> retrieval res" where
  "retrieve env order tools plan =
     (let st = run_requests env order (planned_requests tools plan) empty_retrieval
      in rbind (needs_fallback env plan (rv_items st)) (\<lambda>fallback.
         let st' = (case rt_search tools of
                Some f \<Rightarrow> if fallback then run_requests env order (fallback_requests f plan) st else st
              | None \<Rightarrow> st)
         in case rt_read tools of None \<Rightarrow> Inr st' | Some f \<Rightarrow> read_windows env f plan st'))"

text \<open>\<open>execute\<close>: the bundle and the number of calls it reports.\<close>

definition execute_plan ::
    "evidence_env \<Rightarrow> (tool_request list \<Rightarrow> tool_request list) \<Rightarrow> retrieval_tools \<Rightarrow> retrieval_plan \<Rightarrow>
     (evidence_bundle \<times> retrieval) res" where
  "execute_plan env order tools plan =
     rbind (retrieve env order tools plan) (\<lambda>st.
     rbind (build_evidence_bundle env (rv_items st) (rp_evidence_tokens plan)) (\<lambda>b. Inr (b, st)))"

end
