(* ===== verification/Planned_Run.thy ===== *)
theory Planned_Run
  imports Evidence_Retrieval
begin

text \<open>
  Planned code analysis from the question to the answer, \<open>_run_planned_code_analysis\<close> of
  \<open>lensnode/lensnode/agent_runtime/runtime.py\<close>: a plan from the planner, a repaired or a safe
  plan, one retrieval and at most one more for the gaps, a structured answer and its validation.
  What the model returns to each of the prompts is an argument. Texts shown instead of an answer
  and the presentation of paths and links are left out: \<open>po_answer = None\<close> stands for the fixed
  text of a blocked run.
\<close>

record planned_env =
  pd_evidence :: evidence_env
  pd_raw_decode :: "string \<Rightarrow> py option"

abbreviation pd_plan :: "planned_env \<Rightarrow> plan_env" where
  "pd_plan env \<equiv> ee_plan (pd_evidence env)"

abbreviation pd_repr :: "planned_env \<Rightarrow> py \<Rightarrow> string" where
  "pd_repr env \<equiv> pe_repr (pd_plan env)"

section \<open>Capabilities\<close>

type_synonym named_tools = "(string \<times> adapter) list"

definition planned_workspace_adapters :: "named_tools \<Rightarrow> string \<Rightarrow> adapter option" where
  "planned_workspace_adapters tools =
     map_of (rev (filter (\<lambda>(n, f). n \<in> {''search_workspace'', ''read_workspace_file''}) tools))"

text \<open>\<open>name.rsplit("_", 1)[-1]\<close>\<close>

definition last_segment :: "string \<Rightarrow> string" where
  "last_segment n = rev (takeWhile (\<lambda>c. c \<noteq> CHR ''_'') (rev n))"

definition planned_codegraph_adapters :: "named_tools \<Rightarrow> string \<Rightarrow> adapter option" where
  "planned_codegraph_adapters tools =
     map_of (rev (map (\<lambda>(n, f). (last_segment n, f))
       (filter (\<lambda>(n, f). starts_with ''mcp__codegraph__codegraph_'' n \<and> last_segment n \<in> ALLOWED_CODEGRAPH_OPERATIONS) tools)))"

definition planned_tools :: "named_tools \<Rightarrow> named_tools \<Rightarrow> retrieval_tools" where
  "planned_tools tools mcp_tools =
     \<lparr>rt_search = planned_workspace_adapters tools ''search_workspace'',
      rt_read = planned_workspace_adapters tools ''read_workspace_file'',
      rt_codegraph = planned_codegraph_adapters mcp_tools\<rparr>"

text \<open>The capabilities that are missing; the analysis runs unless both are.\<close>

definition missing_capabilities :: "retrieval_tools \<Rightarrow> string list" where
  "missing_capabilities tools =
     (if rt_search tools = None \<and> rt_read tools = None then [''workspace''] else [])
     @ (if list_all (\<lambda>k. rt_codegraph tools k = None)
             [''callers'', ''callees'', ''context'', ''explore'', ''impact'', ''node'', ''search'', ''trace'']
        then [''codegraph''] else [])"

definition retrieval_ready :: "retrieval_tools \<Rightarrow> bool" where
  "retrieval_ready tools \<longleftrightarrow> missing_capabilities tools \<noteq> [''workspace'', ''codegraph'']"

section \<open>Responses\<close>

definition response_part :: "planned_env \<Rightarrow> py \<Rightarrow> string res" where
  "response_part env v =
     (case v of
        PDict d \<Rightarrow> (case dget_default d ''text'' (PStr []) of PStr s \<Rightarrow> Inr s | _ \<Rightarrow> Inl TypeError)
      | _ \<Rightarrow> Inr (py_str (pd_repr env) v))"

definition message_content :: "planned_env \<Rightarrow> py \<Rightarrow> string res" where
  "message_content env content =
     (case content of
        PStr s \<Rightarrow> Inr s
      | PList items \<Rightarrow> rbind (map_res (response_part env) items) (\<lambda>ts. Inr (concat ts))
      | v \<Rightarrow> Inr (text_or_empty (pd_repr env) v))"

text \<open>\<open>[A-Za-z_][A-Za-z0-9_./:-]*\<close> (the other pattern matches Chinese characters only).\<close>

definition word_match :: "string \<Rightarrow> nat" where
  "word_match s =
     (case s of [] \<Rightarrow> 0 | c # cs \<Rightarrow> if is_word_start c then Suc (length (takeWhile is_term_char cs)) else 0)"

definition query_stop_words :: "string set" where
  "query_stop_words =
     {''a'', ''an'', ''and'', ''are'', ''be'', ''can'', ''do'', ''does'', ''how'', ''is'', ''it'', ''of'', ''the'',
      ''this'', ''to'', ''what'', ''where'', ''which'', ''why''}"

definition fallback_query_terms :: "string \<Rightarrow> string list" where
  "fallback_query_terms question =
     (let terms = map (strip_chars {CHR '' '', CHR ''_'', CHR ''-'', CHR ''.'', CHR ''/'', CHR '':''})
                    (find_all word_match (py_strip question));
          kept = take 3 (first_by id {} (filter (\<lambda>t. length t \<ge> 2 \<and> lower t \<notin> query_stop_words) terms))
      in if kept = [] then [''workspace''] else kept)"

definition command_text :: "pydict \<Rightarrow> string \<Rightarrow> py" where
  "command_text command k = py_or (dget command k) (PStr ''workspace'')"

definition safe_plan :: "string \<Rightarrow> pydict \<Rightarrow> py" where
  "safe_plan question command =
     (let terms = fallback_query_terms question
      in PDict
        [(''objective'', PStr (if take 500 question = [] then ''analyze the workspace'' else take 500 question)),
         (''project'', command_text command ''project''), (''repository'', command_text command ''repository''),
         (''revision'', command_text command ''revision''), (''question_type'', PStr ''mixed''),
         (''evidence_requirements'', PList [PStr ''source lines'']),
         (''codegraph_queries'', PList [PDict [(''operation'', PStr ''explore''), (''query'', PStr (hd terms))]]),
         (''literal_queries'', PList (map PStr (take 2 terms))),
         (''max_files'', PInt 8), (''max_fallback_rounds'', PInt 0)])"

definition parse_planner_response :: "planned_env \<Rightarrow> py \<Rightarrow> string \<Rightarrow> pydict \<Rightarrow> retrieval_plan res" where
  "parse_planner_response env content question command =
     rbind (message_content env content) (\<lambda>t.
       case parse_retrieval_plan (pd_plan env) (PStr t) of
         Inr plan \<Rightarrow> Inr plan
       | Inl _ \<Rightarrow> parse_retrieval_plan (pd_plan env) (safe_plan question command))"

section \<open>The plan\<close>

record planned_replies =
  pr_planner :: py
  pr_repair :: py
  pr_gap :: py
  pr_final :: py
  pr_final_capped :: bool
  pr_compact :: py

definition read_plan :: "planned_env \<Rightarrow> py \<Rightarrow> retrieval_plan res" where
  "read_plan env content =
     rbind (message_content env content) (\<lambda>t. parse_retrieval_plan (pd_plan env) (PStr t))"

text \<open>The plan, its status and the number of repairs that were asked for.\<close>

definition planned_plan ::
    "planned_env \<Rightarrow> planned_replies \<Rightarrow> bool \<Rightarrow> string \<Rightarrow> pydict \<Rightarrow> (retrieval_plan \<times> string \<times> int) res" where
  "planned_plan env replies repairs question command =
     (case read_plan env (pr_planner replies) of
        Inr plan \<Rightarrow> Inr (plan, ''valid'', 0)
      | Inl _ \<Rightarrow>
          if \<not> repairs
          then rbind (parse_planner_response env (pr_planner replies) question command) (\<lambda>plan. Inr (plan, ''fallback'', 0))
          else rbind (message_content env (pr_planner replies)) (\<lambda>_.
               case read_plan env (pr_repair replies) of
                 Inr plan \<Rightarrow> Inr (plan, ''repaired'', 1)
               | Inl _ \<Rightarrow> rbind (parse_planner_response env (pr_repair replies) question command) (\<lambda>plan.
                            Inr (plan, ''fallback'', 1))))"

section \<open>The evidence\<close>

text \<open>The bundle, its gaps, and the number of further rounds.\<close>

definition gather_evidence ::
    "planned_env \<Rightarrow> (tool_request list \<Rightarrow> tool_request list) \<Rightarrow> retrieval_tools \<Rightarrow> planned_replies \<Rightarrow> string \<Rightarrow> pydict \<Rightarrow>
     retrieval_plan \<Rightarrow> (evidence_bundle \<times> string list \<times> int) res" where
  "gather_evidence env order tools replies question command plan =
     rbind (execute_plan (pd_evidence env) order tools plan) (\<lambda>(b, _).
       let gaps = evidence_gaps b (rp_requirements plan)
       in if gaps = [] \<or> rp_max_fallback plan = 0 then Inr (b, gaps, 0)
          else rbind (parse_planner_response env (pr_gap replies) question command) (\<lambda>gap_plan.
               rbind (execute_plan (pd_evidence env) order tools gap_plan) (\<lambda>(fb, _).
               rbind (build_evidence_bundle (pd_evidence env) (map item_dict (eb_items b @ eb_items fb)) (rp_evidence_tokens plan)) (\<lambda>b'.
                 Inr (b', evidence_gaps b' (rp_requirements plan), 1)))))"

section \<open>The answer\<close>

definition answer_keys :: "string list" where
  "answer_keys = [''answer'', ''citations'', ''unsupported_claims'']"

text \<open>The texts from each opening brace on.\<close>

fun brace_suffixes :: "string \<Rightarrow> string list" where
  "brace_suffixes [] = []"
| "brace_suffixes (c # cs) = (if c = CHR 0x7B then (c # cs) # brace_suffixes cs else brace_suffixes cs)"

definition answer_object :: "planned_env \<Rightarrow> string \<Rightarrow> pydict option" where
  "answer_object env t =
     (case pd_raw_decode env t of
        Some (PDict d) \<Rightarrow> if list_ex (\<lambda>k. map_of d k \<noteq> None) answer_keys then Some d else None
      | _ \<Rightarrow> None)"

definition json_object :: "planned_env \<Rightarrow> string \<Rightarrow> pydict option" where
  "json_object env content =
     (case List.map_filter (answer_object env) (py_strip content # brace_suffixes (py_strip content)) of
        [] \<Rightarrow> None
      | d # _ \<Rightarrow> Some d)"

definition looks_like_envelope :: "string \<Rightarrow> bool" where
  "looks_like_envelope content \<longleftrightarrow>
     length (filter (\<lambda>k. contains_text ([CHR 0x22] @ k @ [CHR 0x22]) content) answer_keys) \<ge> 2"

definition citation_request_ok :: "planned_env \<Rightarrow> py \<Rightarrow> bool" where
  "citation_request_ok env v =
     (case v of
        PDict d \<Rightarrow> py_strip (text_or_empty (pd_repr env) (dget d ''evidence_id'')) \<noteq> []
                  \<and> py_strip (text_or_empty (pd_repr env) (dget d ''supports'')) \<noteq> []
      | _ \<Rightarrow> False)"

definition valid_answer_payload :: "planned_env \<Rightarrow> pydict \<Rightarrow> bool" where
  "valid_answer_payload env d =
     (list_all (\<lambda>k. map_of d k \<noteq> None) answer_keys
      \<and> (case dget d ''answer'' of PStr s \<Rightarrow> py_strip s \<noteq> [] | _ \<Rightarrow> False)
      \<and> (case dget d ''citations'' of PList cs \<Rightarrow> list_all (citation_request_ok env) cs | _ \<Rightarrow> False)
      \<and> (case dget d ''unsupported_claims'' of PList us \<Rightarrow> list_all (\<lambda>u. str_of u \<noteq> None) us | _ \<Rightarrow> False))"

definition MAX_PRESENTED_CITATIONS :: nat where "MAX_PRESENTED_CITATIONS = 5"

definition citation_key :: "pydict \<Rightarrow> py list" where
  "citation_key c = map (dget c)
     [''project'', ''repository'', ''revision'', ''path'', ''symbol'', ''start_line'', ''end_line'']"

definition select_presented_citations :: "pydict list \<Rightarrow> pydict list" where
  "select_presented_citations citations = take MAX_PRESENTED_CITATIONS (first_by citation_key {} citations)"

definition citation_context :: pydict where
  "citation_context =
     [(''project'', PStr ''workspace''), (''repository'', PStr ''workspace''), (''revision'', PStr ''working-tree'')]"

definition list_items :: "py \<Rightarrow> py list" where
  "list_items v = (case v of PList vs \<Rightarrow> vs | _ \<Rightarrow> [])"

text \<open>The answer, its citations, and the number of claims that are not supported.\<close>

definition validated_planned_answer ::
    "planned_env \<Rightarrow> string \<Rightarrow> evidence_bundle \<Rightarrow> workspace \<Rightarrow> string \<times> pydict list \<times> int" where
  "validated_planned_answer env content b ws =
     (case json_object env content of
        Some d \<Rightarrow>
          if valid_answer_payload env d
          then let (valid, invalid) = validate_citations (pd_evidence env) (list_items (dget d ''citations'')) b ws citation_context;
                   shown = select_presented_citations valid;
                   unsupported = int (length (list_items (dget d ''unsupported_claims''))) + int (length invalid)
               in (py_strip (text_or_empty (pd_repr env) (dget d ''answer'')), shown,
                   if shown = [] \<and> unsupported = 0 \<and> eb_items b = [] then 1 else unsupported)
          else if looks_like_envelope content then (''The code analysis result could not be validated.'', [], 1)
          else (content, [], 1)
      | None \<Rightarrow>
          if looks_like_envelope content then (''The code analysis result could not be validated.'', [], 1)
          else (content, [], 1))"

definition response_needs_retry :: "planned_env \<Rightarrow> string \<Rightarrow> bool \<Rightarrow> bool" where
  "response_needs_retry env content capped \<longleftrightarrow>
     capped \<or> (case json_object env content of
                 Some d \<Rightarrow> \<not> valid_answer_payload env d
               | None \<Rightarrow> looks_like_envelope content)"

text \<open>The final response: its text and whether the compact prompt was needed.\<close>

definition final_text :: "planned_env \<Rightarrow> planned_replies \<Rightarrow> (string \<times> int) res" where
  "final_text env replies =
     (if pr_final_capped replies then rbind (message_content env (pr_compact replies)) (\<lambda>t. Inr (t, 1))
      else rbind (message_content env (pr_final replies)) (\<lambda>t.
           if response_needs_retry env t False
           then rbind (message_content env (pr_compact replies)) (\<lambda>t'. Inr (t', 1))
           else Inr (t, 0)))"

section \<open>The run\<close>

record planned_outcome =
  po_outcome :: string
  po_reason :: string
  po_answer :: "string option"
  po_citations :: "pydict list"
  po_plan_status :: string
  po_gaps :: "string list"
  po_model_calls :: int

definition blocked_outcome :: "string \<Rightarrow> string option \<Rightarrow> string \<Rightarrow> int \<Rightarrow> planned_outcome" where
  "blocked_outcome reason answer status calls =
     \<lparr>po_outcome = ''blocked'', po_reason = reason, po_answer = answer, po_citations = [],
      po_plan_status = status, po_gaps = [], po_model_calls = calls\<rparr>"

definition outcome_of_answer :: "bool \<Rightarrow> pydict list \<Rightarrow> int \<Rightarrow> evidence_bundle \<Rightarrow> string" where
  "outcome_of_answer sufficient citations unsupported b =
     (if sufficient \<and> unsupported = 0 then ''completed''
      else if citations \<noteq> [] \<or> eb_items b \<noteq> [] \<and> unsupported = 0
      then (if \<not> sufficient then ''partial'' else ''completed'')
      else ''blocked'')"

definition answer_planned ::
    "planned_env \<Rightarrow> planned_replies \<Rightarrow> workspace \<Rightarrow> string \<Rightarrow> int \<Rightarrow> evidence_bundle \<Rightarrow> string list \<Rightarrow> int \<Rightarrow> planned_outcome res" where
  "answer_planned env replies ws status repairs b gaps rounds =
     rbind (final_text env replies) (\<lambda>(t, retried).
       let (answer, citations, unsupported) = validated_planned_answer env t b ws;
           outcome = outcome_of_answer (gaps = []) citations unsupported b
       in Inr \<lparr>po_outcome = outcome,
               po_reason = (if gaps \<noteq> [] \<or> unsupported \<noteq> 0 then ''evidence_insufficient'' else []),
               po_answer = (if outcome = ''blocked'' then None else Some answer),
               po_citations = citations, po_plan_status = status, po_gaps = gaps,
               po_model_calls = 2 + repairs + rounds + retried\<rparr>)"

definition run_planned_code_analysis ::
    "planned_env \<Rightarrow> (tool_request list \<Rightarrow> tool_request list) \<Rightarrow> retrieval_tools \<Rightarrow> workspace \<Rightarrow> bool \<Rightarrow> planned_replies \<Rightarrow>
     pydict \<Rightarrow> planned_outcome res" where
  "run_planned_code_analysis env order tools ws repairs_on replies command =
     (let question = text_or_empty (pd_repr env) (dget command ''question'')
      in if \<not> retrieval_ready tools then Inr (blocked_outcome ''capability_unavailable'' None [] 0)
         else rbind (planned_plan env replies repairs_on question command) (\<lambda>(plan, status, repairs).
           case rp_clarification plan of
             Some c \<Rightarrow> Inr (blocked_outcome ''needs_user_input'' (Some (cl_question c)) status (1 + repairs))
           | None \<Rightarrow>
               rbind (gather_evidence env order tools replies question command plan) (\<lambda>(b, gaps, rounds).
                 answer_planned env replies ws status repairs b gaps rounds)))"

end
