(* ===== verification/Evidence_Limits.thy ===== *)
theory Evidence_Limits
  imports Evidence_Retrieval "HOL-Library.Multiset"
begin

text \<open>
  What planned retrieval promises whatever the planner and the tools answer: a bounded number of
  calls, bounded and disjoint source windows, and a bundle within its token budget that gives up
  content only when the budget is spent.
\<close>

section \<open>Keeping the first of each key\<close>

lemma first_by_subset: "set (first_by key seen xs) \<subseteq> set xs"
  by (induction key seen xs rule: first_by.induct) auto

lemma first_by_keys: "key ` set (first_by key seen xs) = key ` set xs - seen"
  by (induction key seen xs rule: first_by.induct) auto

lemma distinct_first_by: "distinct (map key (first_by key seen xs))"
proof (induction key seen xs rule: first_by.induct)
  case (2 key seen x xs)
  then show ?case using first_by_keys [of key "insert (key x) seen" xs] by auto
qed simp

lemma length_first_by: "length (first_by key seen xs) \<le> length xs"
  by (induction key seen xs rule: first_by.induct) auto

section \<open>Bundles\<close>

lemma estimate_positive: "1 \<le> estimate_tokens t"
  by (simp add: estimate_tokens_def)

lemma estimate_take:
  assumes "0 < n" shows "estimate_tokens (take (nat (n * 4)) t) \<le> n"
  using assms by (auto simp: estimate_tokens_def min_def)

lemma estimate_cut:
  assumes "0 < n" "take (nat (n * 4)) t \<noteq> t" shows "estimate_tokens (take (nat (n * 4)) t) = n"
  using assms by (auto simp: estimate_tokens_def min_def)

lemma cut_item_fields [simp]:
  "ei_content (cut_item env n i) = take (nat (n * 4)) (ei_content i)"
  "ei_type (cut_item env n i) = ei_type i" "ei_path (cut_item env n i) = ei_path i"
  "ei_symbol (cut_item env n i) = ei_symbol i" "ei_start (cut_item env n i) = ei_start i"
  "ei_end (cut_item env n i) = ei_end i" "ei_provenance (cut_item env n i) = ei_provenance i"
  "ei_score (cut_item env n i) = ei_score i" "rank_key (cut_item env n i) = rank_key i"
  by (simp_all add: cut_item_def identified_def rank_key_def)

abbreviation item_tokens :: "evidence_item list \<Rightarrow> int" where
  "item_tokens is \<equiv> sum_list (map (\<lambda>i. estimate_tokens (ei_content i)) is)"

lemma item_tokens_nonneg: "0 \<le> item_tokens is"
  using estimate_positive by (intro sum_list_nonneg) (auto intro: order_trans [OF zero_le_one])

lemma fill_budget_tokens: "0 \<le> n \<Longrightarrow> item_tokens (fill_budget env n is) \<le> n"
proof (induction env n "is" rule: fill_budget.induct)
  case (2 env n i "is")
  show ?case
  proof (cases "n \<le> 0 \<or> take (nat (n * 4)) (ei_content i) = []")
    case True
    then show ?thesis using 2 by auto
  next
    case False
    then have "estimate_tokens (take (nat (n * 4)) (ei_content i)) \<le> n" by (intro estimate_take) simp
    then show ?thesis using 2(2) False by simp
  qed
qed simp

text \<open>What became of an item: the same but for its identifier and the end of its content.\<close>

definition shortened :: "evidence_item \<Rightarrow> evidence_item \<Rightarrow> bool" where
  "shortened i j \<longleftrightarrow> ei_content j \<noteq> [] \<and> prefix (ei_content j) (ei_content i)
     \<and> ei_type j = ei_type i \<and> ei_path j = ei_path i \<and> ei_symbol j = ei_symbol i \<and> ei_start j = ei_start i
     \<and> ei_end j = ei_end i \<and> ei_provenance j = ei_provenance i \<and> ei_score j = ei_score i"

lemma fill_budget_shortened:
  "j \<in> set (fill_budget env n is) \<Longrightarrow> \<exists>i \<in> set is. shortened i j"
proof (induction env n "is" rule: fill_budget.induct)
  case (2 env n i "is")
  then show ?case
    by (auto simp: shortened_def take_is_prefix split: if_splits)
qed simp

lemma fill_budget_ranks: "subseq (map rank_key (fill_budget env n is)) (map rank_key is)"
  by (induction env n "is" rule: fill_budget.induct) auto

text \<open>Content is given up only when the whole budget is spent.\<close>

lemma fill_budget_greedy:
  assumes "0 \<le> n" "item_tokens (fill_budget env n is) < n" "i \<in> set is" "ei_content i \<noteq> []"
  shows "\<exists>j \<in> set (fill_budget env n is). shortened i j \<and> ei_content j = ei_content i"
  using assms
proof (induction env n "is" rule: fill_budget.induct)
  case (2 env n k "is")
  let ?c = "take (nat (n * 4)) (ei_content k)"
  have pos: "0 < n" using 2(3) 2(4) item_tokens_nonneg by (cases "n \<le> 0") auto
  show ?case
  proof (cases "?c = []")
    case True
    then have "ei_content k = []" using pos by auto
    then have "i \<in> set is" using 2(5,6) by auto
    then show ?thesis using 2(1) [OF _ _ 2(3)] 2(4,6) True pos by auto
  next
    case False
    have est: "estimate_tokens ?c \<le> n" using estimate_take [OF pos] .
    have rest: "item_tokens (fill_budget env (n - estimate_tokens ?c) is) < n - estimate_tokens ?c"
      using 2(4) False pos by simp
    then have "estimate_tokens ?c \<noteq> n" using item_tokens_nonneg [of "fill_budget env (n - estimate_tokens ?c) is"] by auto
    then have whole: "?c = ei_content k" using estimate_cut [OF pos] by blast
    show ?thesis
    proof (cases "i = k")
      case True
      then have "shortened i (cut_item env n k) \<and> ei_content (cut_item env n k) = ei_content i"
        using whole 2(6) True by (simp add: shortened_def)
      then show ?thesis using False pos by auto
    next
      case neq: False
      then have "i \<in> set is" using 2(5) by simp
      then have "\<exists>j \<in> set (fill_budget env (n - estimate_tokens ?c) is). shortened i j \<and> ei_content j = ei_content i"
        using 2(2) [OF _ _ _ _ _ 2(6)] False pos est rest by simp
      then show ?thesis using False pos by auto
    qed
  qed
qed simp

lemma ranked_items_facts:
  "set (ranked_items is) \<subseteq> set is" "item_key ` set (ranked_items is) = item_key ` set is"
  "sorted (map rank_key (ranked_items is))"
  using first_by_subset [of item_key "{}" "is"] first_by_keys [of item_key "{}" "is"]
  by (simp_all add: ranked_items_def)

lemma map_res_image: "map_res f xs = Inr ys \<Longrightarrow> f ` set xs = Inr ` set ys"
proof (induction xs arbitrary: ys)
  case (Cons x xs)
  then obtain z zs where "f x = Inr z" "map_res f xs = Inr zs" "ys = z # zs" by (auto simp: rbind_Inr_iff)
  then show ?case using Cons.IH [of zs] by simp
qed simp

lemma sorted_on_subseq: "subseq xs ys \<Longrightarrow> sorted ys \<Longrightarrow> sorted xs"
  by (induction rule: list_emb.induct) (auto dest: list_emb_set)

lemma bundle_tokens:
  assumes "build_evidence_bundle env items n = Inr b" "0 \<le> n" shows "eb_tokens b \<le> n"
  using assms fill_budget_tokens
  by (auto simp: build_evidence_bundle_def rbind_Inr_iff Let_def comp_def)

lemma bundle_origin:
  assumes "build_evidence_bundle env items n = Inr b" "j \<in> set (eb_items b)"
  shows "\<exists>v \<in> set items. \<exists>i. to_item env v = Inr i \<and> shortened i j"
proof -
  obtain normal where normal: "map_res (to_item env) items = Inr normal"
    and b: "eb_items b = fill_budget env n (ranked_items normal)"
    using assms(1) by (auto simp: build_evidence_bundle_def rbind_Inr_iff Let_def)
  obtain i where i: "i \<in> set (ranked_items normal)" "shortened i j"
    using fill_budget_shortened assms(2) unfolding b by blast
  then have "Inr i \<in> to_item env ` set items"
    using ranked_items_facts(1) [of normal] map_res_image [OF normal] by blast
  then show ?thesis using i(2) by force
qed

text \<open>C29.
  A bundle keeps its token budget and gives up evidence only for it: its items are ranked, each
  is an item of the retrieval with its provenance, shortened at most at the end, and when tokens
  are left over, everything that was retrieved and has content is in the bundle whole.
\<close>

theorem evidence_bundle_fits:
  assumes built: "build_evidence_bundle env items n = Inr b" and n: "0 \<le> n"
  shows "eb_tokens b \<le> n \<and> sorted (map rank_key (eb_items b))
    \<and> (\<forall>j \<in> set (eb_items b). \<exists>v \<in> set items. \<exists>i. to_item env v = Inr i \<and> shortened i j)
    \<and> (eb_tokens b < n \<longrightarrow> (\<forall>v \<in> set items. \<forall>i. to_item env v = Inr i \<longrightarrow> ei_content i \<noteq> [] \<longrightarrow>
          item_key i \<in> item_key ` set (eb_items b)))"
proof -
  obtain normal where normal: "map_res (to_item env) items = Inr normal"
    and b: "eb_items b = fill_budget env n (ranked_items normal)" "eb_tokens b = item_tokens (eb_items b)"
    using built by (auto simp: build_evidence_bundle_def rbind_Inr_iff Let_def comp_def)
  have all: "to_item env ` set items = Inr ` set normal" by (rule map_res_image [OF normal])
  have "eb_tokens b \<le> n" by (rule bundle_tokens [OF built n])
  moreover have "sorted (map rank_key (eb_items b))"
    unfolding b(1) by (rule sorted_on_subseq [OF fill_budget_ranks ranked_items_facts(3)])
  moreover have "\<forall>j \<in> set (eb_items b). \<exists>v \<in> set items. \<exists>i. to_item env v = Inr i \<and> shortened i j"
    using bundle_origin [OF built] by blast
  moreover have "item_key i \<in> item_key ` set (eb_items b)"
    if less: "eb_tokens b < n" and v: "v \<in> set items" "to_item env v = Inr i" "ei_content i \<noteq> []" for v i
  proof -
    have "i \<in> set normal" using all v(1,2) by (metis imageE imageI sum.inject(2))
    then obtain k where k: "k \<in> set (ranked_items normal)" "item_key k = item_key i"
      using ranked_items_facts(2) [of normal] by (metis imageE imageI)
    then have "ei_content k \<noteq> []" using v(3) by (simp add: item_key_def)
    then obtain j where "j \<in> set (eb_items b)" "shortened k j" "ei_content j = ei_content k"
      using fill_budget_greedy [OF n _ k(1)] less unfolding b by blast
    then show ?thesis using k(2) by (auto simp: shortened_def item_key_def intro!: image_eqI [of _ _ j])
  qed
  ultimately show ?thesis by blast
qed

section \<open>Source windows\<close>

abbreviation lines_of :: "line_range list \<Rightarrow> int set" where
  "lines_of rs \<equiv> \<Union>(a, b) \<in> set rs. {a..b}"

definition range_ok :: "int \<Rightarrow> line_range \<Rightarrow> bool" where
  "range_ok n r \<longleftrightarrow> fst r \<le> snd r \<and> snd r \<le> fst r + n - 1"

abbreviation apart :: "line_range list \<Rightarrow> bool" where
  "apart \<equiv> sorted_wrt (\<lambda>p q. snd p + 1 < fst q)"

lemma merge_windows_facts:
  assumes "1 \<le> n" "sorted (map fst (r # rs))" "list_all (range_ok n) (r # rs)"
  shows "list_all (range_ok n) (merge_windows n r rs) \<and> apart (merge_windows n r rs)
    \<and> lines_of (merge_windows n r rs) \<subseteq> lines_of (r # rs)
    \<and> (\<forall>q \<in> set (merge_windows n r rs). fst r \<le> fst q) \<and> length (merge_windows n r rs) \<le> Suc (length rs)"
  using assms(2,3)
proof (induction n r rs rule: merge_windows.induct)
  case (2 n a b s e rs)
  show ?case
  proof (cases "s \<le> b + 1")
    case True
    let ?m = "min (max b e) (a + n - 1)"
    have ok: "range_ok n (a, ?m)" using 2(4) by (auto simp: range_ok_def)
    have sub: "{a..?m} \<subseteq> {a..b} \<union> {s..e}" using True 2(3) by auto
    have IH: "list_all (range_ok n) (merge_windows n (a, ?m) rs) \<and> apart (merge_windows n (a, ?m) rs)
        \<and> lines_of (merge_windows n (a, ?m) rs) \<subseteq> lines_of ((a, ?m) # rs)
        \<and> (\<forall>q \<in> set (merge_windows n (a, ?m) rs). fst (a, ?m) \<le> fst q)
        \<and> length (merge_windows n (a, ?m) rs) \<le> Suc (length rs)"
      using 2(1) [OF True] 2(3,4) ok by simp
    have "lines_of ((a, ?m) # rs) \<subseteq> lines_of ((a, b) # (s, e) # rs)" using sub by auto
    then show ?thesis using IH True by auto
  next
    case False
    have IH: "list_all (range_ok n) (merge_windows n (s, e) rs) \<and> apart (merge_windows n (s, e) rs)
        \<and> lines_of (merge_windows n (s, e) rs) \<subseteq> lines_of ((s, e) # rs)
        \<and> (\<forall>q \<in> set (merge_windows n (s, e) rs). fst (s, e) \<le> fst q)
        \<and> length (merge_windows n (s, e) rs) \<le> Suc (length rs)"
      using 2(2) [OF False] 2(3,4) by simp
    have far: "\<forall>q \<in> set (merge_windows n (s, e) rs). b + 1 < fst q \<and> a \<le> fst q" using IH False 2(3) by force
    have "lines_of ((a, b) # merge_windows n (s, e) rs) \<subseteq> lines_of ((a, b) # (s, e) # rs)" using IH by auto
    then show ?thesis using IH far False 2(4) by auto
  qed
qed (auto simp: range_ok_def)

lemma sorted_fst: "sorted (rs :: line_range list) \<Longrightarrow> sorted (map fst rs)"
  by (induction rs) (auto simp: less_eq_prod_def)

text \<open>A window whose end, if it has one, is not before its start.\<close>

definition window_forward :: "source_window \<Rightarrow> bool" where
  "window_forward w \<longleftrightarrow> (case sw_end w of None \<Rightarrow> True | Some e \<Rightarrow> sw_start w \<le> e)"

lemma window_range_ok: "1 \<le> n \<Longrightarrow> window_forward w \<Longrightarrow> range_ok n (window_range n w)"
  by (auto simp: window_range_def window_forward_def range_ok_def Let_def split: option.splits)

abbreviation requested :: "int \<Rightarrow> source_window list \<Rightarrow> string \<Rightarrow> line_range list" where
  "requested n ws p \<equiv> map (window_range n) (filter (\<lambda>w. sw_path w = p) ws)"

abbreviation line_window :: "string \<Rightarrow> line_range \<Rightarrow> source_window" where
  "line_window p r \<equiv> \<lparr>sw_path = p, sw_start = fst r, sw_end = Some (snd r)\<rparr>"

lemma path_windows_cases:
  assumes "1 \<le> n" "list_all window_forward ws"
  obtains rs where "path_windows n ws p = map (line_window p) rs" "list_all (range_ok n) rs" "apart rs"
    "lines_of rs \<subseteq> lines_of (requested n ws p)" "length rs \<le> length (requested n ws p)"
proof (cases "sort (requested n ws p)")
  case Nil
  then show ?thesis using that [of "[]"] by (simp add: path_windows_def)
next
  case (Cons r rs)
  have set: "set (r # rs) = set (requested n ws p)" and len: "length (r # rs) = length (requested n ws p)"
    unfolding Cons [symmetric] by simp_all
  have "sorted (r # rs)" unfolding Cons [symmetric] by simp
  then have "sorted (map fst (r # rs))" by (rule sorted_fst)
  moreover have "list_all (range_ok n) (r # rs)"
    unfolding list_all_iff set using assms by (auto simp: list_all_iff intro: window_range_ok)
  ultimately have merged: "list_all (range_ok n) (merge_windows n r rs) \<and> apart (merge_windows n r rs)
      \<and> lines_of (merge_windows n r rs) \<subseteq> lines_of (r # rs)
      \<and> (\<forall>q \<in> set (merge_windows n r rs). fst r \<le> fst q) \<and> length (merge_windows n r rs) \<le> Suc (length rs)"
    by (rule merge_windows_facts [OF assms(1)])
  have "path_windows n ws p = map (line_window p) (merge_windows n r rs)"
    using Cons by (simp add: path_windows_def case_prod_beta)
  moreover have "lines_of (merge_windows n r rs) \<subseteq> lines_of (requested n ws p)"
    using merged unfolding set by blast
  ultimately show ?thesis using merged len by (intro that [of "merge_windows n r rs"]) simp_all
qed

lemma sum_filter_le:
  "distinct ps \<Longrightarrow> sum_list (map (\<lambda>p. length (filter (\<lambda>x. f x = p) xs)) ps) \<le> length xs"
proof (induction xs)
  case (Cons x xs)
  have "sum_list (map (\<lambda>p. length (filter (\<lambda>x. f x = p) (x # xs))) ps)
      = sum_list (map (\<lambda>p. length (filter (\<lambda>x. f x = p) xs)) ps) + sum_list (map (\<lambda>p. if f x = p then 1 else 0) ps)"
    by (simp add: sum_list_addf [symmetric] if_distrib cong: if_cong)
  moreover have "sum_list (map (\<lambda>p. if f x = p then 1 else 0) ps) \<le> (1 :: nat)"
    using Cons.prems by (induction ps) (auto simp: sum_list_eq_0_iff)
  ultimately show ?case using Cons by simp
qed simp

lemma length_coalesced:
  assumes "1 \<le> n" "list_all window_forward ws"
  shows "length (coalesce_source_windows ws n) \<le> length ws"
proof -
  have "length (path_windows n ws p) \<le> length (filter (\<lambda>w. sw_path w = p) ws)" for p
    by (rule path_windows_cases [OF assms, of p]) simp
  then have "length (coalesce_source_windows ws n)
      \<le> sum_list (map (\<lambda>p. length (filter (\<lambda>w. sw_path w = p) ws)) (keep_first (map sw_path ws)))"
    unfolding coalesce_source_windows_def length_concat map_map comp_def by (intro sum_list_mono) simp
  also have "\<dots> \<le> length ws" by (rule sum_filter_le) simp
  finally show ?thesis .
qed

text \<open>
  Source windows are read once and within the line budget: the windows of a path are apart, each
  is at most the budget long, and no line is read that no window asked for.
\<close>

lemma coalesced_windows:
  assumes "1 \<le> n" "list_all window_forward ws"
  shows "\<exists>rs. filter (\<lambda>w. sw_path w = p) (coalesce_source_windows ws n) = map (line_window p) rs
    \<and> list_all (range_ok n) rs \<and> apart rs \<and> lines_of rs \<subseteq> lines_of (requested n ws p)"
proof -
  have paths: "filter (\<lambda>w. sw_path w = p) (path_windows n ws q) = (if p = q then path_windows n ws q else [])" for q
    by (rule path_windows_cases [OF assms, of q]) (auto simp: filter_empty_conv filter_id_conv)
  have "filter (\<lambda>w. sw_path w = p) (concat (map (path_windows n ws) ps))
      = (if p \<in> set ps then path_windows n ws p else [])" if "distinct ps" for ps
    using that by (induction ps) (auto simp: paths)
  then have "filter (\<lambda>w. sw_path w = p) (coalesce_source_windows ws n)
      = (if p \<in> sw_path ` set ws then path_windows n ws p else [])"
    by (simp add: coalesce_source_windows_def)
  moreover obtain rs where "path_windows n ws p = map (line_window p) rs" "list_all (range_ok n) rs" "apart rs"
    "lines_of rs \<subseteq> lines_of (requested n ws p)"
    by (rule path_windows_cases [OF assms, of p])
  ultimately show ?thesis
    by (cases "p \<in> sw_path ` set ws") (auto intro: exI [of _ rs] exI [of _ "[]"])
qed

text \<open>A window that touches a full one is dropped although it was asked for.\<close>

lemma adjacent_window_is_lost:
  "coalesce_source_windows [\<lparr>sw_path = ''a'', sw_start = 1, sw_end = Some 250\<rparr>,
     \<lparr>sw_path = ''a'', sw_start = 251, sw_end = Some 500\<rparr>] 250
   = [\<lparr>sw_path = ''a'', sw_start = 1, sw_end = Some 250\<rparr>]"
  by code_simp

section \<open>Calls\<close>

lemma length_map_filter: "length (List.map_filter f xs) \<le> length xs"
  by (simp add: List.map_filter_def)

lemma planned_requests_bound: "length (planned_requests tools plan) \<le> length (rp_codegraph plan) + length (rp_literals plan)"
  using length_map_filter [of "codegraph_request tools" "rp_codegraph plan"]
  by (auto simp: planned_requests_def split: option.split)

lemma fallback_requests_bound: "length (fallback_requests f plan) \<le> 12"
proof -
  have "length (fallback_keyword_queries plan) \<le> 8" by (simp add: fallback_keyword_queries_def Let_def)
  then have "length (filter (\<lambda>q. q \<notin> set (rp_literals plan)) (fallback_keyword_queries plan)) \<le> 8"
    by (rule order_trans [OF length_filter_le])
  moreover have "length (caller_symbols plan) \<le> 4" by (simp add: caller_symbols_def Let_def)
  ultimately show ?thesis by (simp add: fallback_requests_def)
qed

definition reported_calls :: "retrieval \<Rightarrow> int" where
  "reported_calls st = rv_codegraph_calls st + rv_literal_calls st + rv_file_calls st"

lemma finish_requests:
  "rv_log (foldl (finish_request env) st rqs) = rv_log st
   \<and> reported_calls (foldl (finish_request env) st rqs) = reported_calls st + int (length rqs)"
  by (induction rqs arbitrary: st) (simp_all add: finish_request_def reported_calls_def)

lemma run_requests_calls:
  assumes "\<And>rqs. mset (order rqs) = mset rqs"
  shows "rv_log (run_requests env order pending st) = rv_log st @ map (\<lambda>rq. (rq_provenance rq, rq_args rq)) pending"
    "reported_calls (run_requests env order pending st) = reported_calls st + int (length pending)"
proof -
  let ?st = "st\<lparr>rv_log := rv_log st @ map (\<lambda>rq. (rq_provenance rq, rq_args rq)) pending\<rparr>"
  have "reported_calls ?st = reported_calls st" by (simp add: reported_calls_def)
  then show "rv_log (run_requests env order pending st) = rv_log st @ map (\<lambda>rq. (rq_provenance rq, rq_args rq)) pending"
    "reported_calls (run_requests env order pending st) = reported_calls st + int (length pending)"
    using finish_requests [of env ?st "order pending"] mset_eq_length [OF assms [of pending]] by (simp_all add: run_requests_def)
qed

lemma complete_reads:
  "rv_log (foldl (complete_read env f n) st ws) = rv_log st
   \<and> reported_calls (foldl (complete_read env f n) st ws) \<le> reported_calls st + int (length ws)"
proof (induction ws arbitrary: st)
  case (Cons w ws)
  have "rv_log (complete_read env f n st w) = rv_log st"
    "reported_calls (complete_read env f n st w) \<le> reported_calls st + 1"
    by (simp_all add: complete_read_def reported_calls_def split: sum.split)
  then show ?case using Cons [of "complete_read env f n st w"] by simp
qed (simp add: reported_calls_def)

lemma located_window_forward: "located_window t p path start stop = Some pw \<Longrightarrow> window_forward (snd pw)"
  by (auto simp: located_window_def window_forward_def Let_def split: option.splits if_splits)

lemma item_window_forward:
  assumes "item_window env v = Inr (Some pw)" shows "window_forward (snd pw)"
proof (cases v)
  case (PDict d)
  then show ?thesis
    using assms by (auto simp: item_window_def rbind_Inr_iff intro: located_window_forward split: if_split_asm)
qed (use assms in \<open>simp_all add: item_window_def\<close>)

lemma split_windows_set: "set (fst (split_windows seen ws)) \<union> set (snd (split_windows seen ws)) = set ws"
  by (induction seen ws rule: split_windows.induct) auto

lemma found_windows_forward:
  assumes "source_windows_from_items env items = Inr ws" shows "list_all window_forward ws"
proof -
  obtain found where found: "map_res (item_window env) items = Inr found"
    and ws: "set ws = set (first_by window_key {} (map snd (sort_key fst (List.map_filter (\<lambda>w. w) found))))"
  proof -
    obtain found where found: "map_res (item_window env) items = Inr found"
      and ws: "ws = (let (primary, secondary) = split_windows {} (first_by window_key {} (map snd (sort_key fst
            (List.map_filter (\<lambda>w. w) found)))) in primary @ secondary)"
      using assms by (auto simp: source_windows_from_items_def rbind_Inr_iff Let_def case_prod_beta)
    show thesis
      by (rule that [OF found])
        (simp add: ws case_prod_beta Let_def split_windows_set)
  qed
  have "set ws \<subseteq> snd ` set (List.map_filter (\<lambda>w. w) found)" unfolding ws using first_by_subset by fastforce
  moreover have "window_forward (snd pw)" if "Some pw \<in> set found" for pw
    using map_res_image [OF found] that item_window_forward by (metis imageE imageI)
  ultimately show ?thesis by (fastforce simp: list_all_iff set_map_filter)
qed

text \<open>The reads of a retrieval, as the windows that are read.\<close>

definition reads :: "int \<Rightarrow> source_window list \<Rightarrow> (string \<times> pydict) list" where
  "reads n ws = map (\<lambda>w. (''read_workspace_file'', read_args n w)) ws"

lemma read_windows_calls:
  assumes "read_windows env f plan st = Inr st'" and plan: "plan_ok plan"
  shows "\<exists>windows. rv_log st' = rv_log st @ reads (rp_window_lines plan) windows \<and> int (length windows) \<le> rp_max_files plan
     \<and> reported_calls st' \<le> reported_calls st + int (length windows)"
proof -
  let ?n = "rp_window_lines plan"
  obtain found where found: "source_windows_from_items env (rv_items st) = Inr found"
    and st': "st' = (let planned = take (nat (rp_max_files plan)) (rp_windows plan);
           derived = take (nat (rp_max_files plan - int (length planned))) found;
           windows = coalesce_source_windows (planned @ derived) ?n
       in foldl (complete_read env f ?n)
            (st\<lparr>rv_log := rv_log st @ map (\<lambda>w. (''read_workspace_file'', read_args ?n w)) windows\<rparr>) windows)"
    using assms(1) by (auto simp: read_windows_def rbind_Inr_iff Let_def)
  let ?planned = "take (nat (rp_max_files plan)) (rp_windows plan)"
  let ?all = "?planned @ take (nat (rp_max_files plan - int (length ?planned))) found"
  let ?windows = "coalesce_source_windows ?all ?n"
  have n: "1 \<le> ?n" "0 \<le> rp_max_files plan" using plan by (simp_all add: plan_ok_def)
  have "list_all window_forward (rp_windows plan)"
    using plan by (auto simp: plan_ok_def list_all_iff window_ok_def window_forward_def)
  then have forward: "list_all window_forward ?all"
    using found_windows_forward [OF found] by (auto simp: list_all_iff dest: in_set_takeD)
  have "length ?windows \<le> length ?all" by (rule length_coalesced [OF n(1) forward])
  moreover have "int (length ?all) \<le> rp_max_files plan" using n(2) by auto
  ultimately have len: "int (length ?windows) \<le> rp_max_files plan" by simp
  let ?st = "st\<lparr>rv_log := rv_log st @ map (\<lambda>w. (''read_workspace_file'', read_args ?n w)) ?windows\<rparr>"
  have "reported_calls ?st = reported_calls st" by (simp add: reported_calls_def)
  moreover have "st' = foldl (complete_read env f ?n) ?st ?windows" by (simp only: st' Let_def)
  ultimately show ?thesis
    using complete_reads [of env f ?n ?st ?windows] len by (auto simp: reads_def intro: exI [of _ ?windows])
qed

lemma retrieve_calls:
  assumes run: "retrieve env order tools plan = Inr st" and plan: "plan_ok plan"
    and order: "\<And>rqs. mset (order rqs) = mset rqs"
  shows "\<exists>searches windows. rv_log st = searches @ reads (rp_window_lines plan) windows \<and> length searches \<le> 22
     \<and> int (length windows) \<le> rp_max_files plan \<and> reported_calls st \<le> int (length (rv_log st))"
proof -
  let ?st = "run_requests env order (planned_requests tools plan) empty_retrieval"
  obtain fallback where st: "(case rt_read tools of
        None \<Rightarrow> Inr (case rt_search tools of
            Some f \<Rightarrow> if fallback then run_requests env order (fallback_requests f plan) ?st else ?st | None \<Rightarrow> ?st)
      | Some f \<Rightarrow> read_windows env f plan (case rt_search tools of
            Some f \<Rightarrow> if fallback then run_requests env order (fallback_requests f plan) ?st else ?st | None \<Rightarrow> ?st)) = Inr st"
    using run by (auto simp: retrieve_def rbind_Inr_iff Let_def)
  define st' where "st' = (case rt_search tools of
      Some f \<Rightarrow> if fallback then run_requests env order (fallback_requests f plan) ?st else ?st | None \<Rightarrow> ?st)"
  have empty: "rv_log empty_retrieval = []" "reported_calls empty_retrieval = 0"
    by (simp_all add: empty_retrieval_def reported_calls_def)
  have "length (planned_requests tools plan) \<le> 10"
    using planned_requests_bound [of tools plan] plan
    by (simp add: plan_ok_def queries_ok_def MAX_CODEGRAPH_QUERIES_def MAX_LITERAL_QUERIES_def)
  then have first: "length (rv_log ?st) \<le> 10" "reported_calls ?st = int (length (rv_log ?st))"
    using empty by (simp_all add: run_requests_calls [OF order])
  have st'_calls: "length (rv_log st') \<le> 22 \<and> reported_calls st' = int (length (rv_log st'))"
  proof (cases "rt_search tools = None \<or> \<not> fallback")
    case True
    then have "st' = ?st" by (auto simp: st'_def split: option.split)
    then show ?thesis using first by simp
  next
    case False
    then obtain f where "st' = run_requests env order (fallback_requests f plan) ?st" by (auto simp: st'_def)
    then show ?thesis
      using first fallback_requests_bound [of f plan] by (simp add: run_requests_calls(1,2) [OF order])
  qed
  show ?thesis
  proof (cases "rt_read tools")
    case None
    then have "st = st'" using st by (simp add: st'_def)
    then show ?thesis
      using st'_calls plan by (intro exI [of _ "rv_log st'"] exI [of _ "[]"]) (simp add: reads_def plan_ok_def)
  next
    case (Some f)
    then have "read_windows env f plan st' = Inr st" using st by (simp add: st'_def)
    from read_windows_calls [OF this plan] obtain windows where
      "rv_log st = rv_log st' @ reads (rp_window_lines plan) windows" "int (length windows) \<le> rp_max_files plan"
      "reported_calls st \<le> reported_calls st' + int (length windows)" by blast
    then show ?thesis
      using st'_calls by (intro exI [of _ "rv_log st'"] exI [of _ windows]) (simp add: reads_def)
  qed
qed

lemma read_limit:
  "1 \<le> n \<Longrightarrow> \<exists>k. dget (read_args n w) ''limit'' = PInt k \<and> k \<le> n"
  by (simp add: read_args_def Let_def)


definition sample_evidence_env :: evidence_env where
  "sample_evidence_env = \<lparr>ee_plan = sample_plan_env, ee_sha1 = (\<lambda>s. ''aaaaaaaaaaaaaaaaaaaa''), ee_dumps = (\<lambda>v. ''{}'')\<rparr>"

definition sample_items :: "py list" where
  "sample_items = [PDict [(''evidence_type'', PStr ''source''), (''content'', PStr ''0123456789'')]]"

definition sample_source_item :: evidence_item where
  "sample_source_item =
     \<lparr>ei_id = ''evidence-aaaaaaaaaaaaaaaa'', ei_type = ''source'', ei_content = ''01234567'', ei_path = [],
      ei_symbol = [], ei_start = None, ei_end = None, ei_provenance = [], ei_score = 4\<rparr>"

lemmas bundle_eval = build_evidence_bundle_def to_item_def optional_int_def identified_def evidence_id_def
  type_score_def py_or_def ranked_items_def cut_item_def estimate_tokens_def Let_def

lemma sample_bundle_built:
  "build_evidence_bundle sample_evidence_env sample_items 2 =
     Inr \<lparr>eb_items = [sample_source_item], eb_duplicates = 0, eb_tokens = 2, eb_files = 0\<rparr>"
  by (simp add: bundle_eval sample_evidence_env_def sample_items_def sample_source_item_def numeral_eq_Suc)

lemma evidence_bundle_fits_witness:
  "eb_tokens \<lparr>eb_items = [sample_source_item], eb_duplicates = 0, eb_tokens = 2, eb_files = 0\<rparr> \<le> (2 :: int)
   \<and> (\<exists>v \<in> set sample_items. \<exists>i. to_item sample_evidence_env v = Inr i \<and> shortened i sample_source_item)"
  using evidence_bundle_fits [OF sample_bundle_built] by simp

text \<open>A search that fails.\<close>

definition sample_tools :: retrieval_tools where
  "sample_tools = \<lparr>rt_search = Some (\<lambda>args. Inl ''TimeoutError''), rt_read = None, rt_codegraph = (\<lambda>name. None)\<rparr>"

definition sample_retrieval :: retrieval where
  "sample_retrieval =
     \<lparr>rv_items = [error_item ''TimeoutError'' ''run''], rv_codegraph_calls = 0, rv_literal_calls = 1, rv_file_calls = 0,
      rv_log = [(''run'', [(''query'', PStr ''run''), (''max_results'', PInt 32), (''output_mode'', PStr ''content'')])]\<rparr>"

definition sample_bundle :: evidence_bundle where
  "sample_bundle =
     \<lparr>eb_items = [\<lparr>ei_id = ''evidence-aaaaaaaaaaaaaaaa'', ei_type = ''retrieval_error'', ei_content = ''TimeoutError'',
          ei_path = [], ei_symbol = [], ei_start = None, ei_end = None, ei_provenance = ''run'', ei_score = 1\<rparr>],
      eb_duplicates = 0, eb_tokens = 3, eb_files = 0\<rparr>"

lemma sample_built:
  "build_evidence_bundle sample_evidence_env [error_item ''TimeoutError'' ''run''] 20000 = Inr sample_bundle"
  by (simp add: bundle_eval sample_evidence_env_def sample_bundle_def error_item_def)

lemma sample_executed: "execute_plan sample_evidence_env id sample_tools sample_plan = Inr (sample_bundle, sample_retrieval)"
proof -
  have "run_requests sample_evidence_env id (planned_requests sample_tools sample_plan) empty_retrieval = sample_retrieval"
    by (simp add: run_requests_def planned_requests_def sample_tools_def sample_plan_def List.map_filter_def
        search_request_def search_args_def empty_retrieval_def finish_request_def request_items_def sample_retrieval_def)
  moreover have "needs_fallback sample_evidence_env sample_plan [error_item ''TimeoutError'' ''run''] = Inr False"
    using sample_built by (simp add: needs_fallback_def sample_plan_def evidence_gaps_def keep_first_def)
  ultimately show ?thesis
    using sample_built
    by (simp add: execute_plan_def retrieve_def sample_tools_def Let_def) (simp add: sample_retrieval_def sample_plan_def)
qed


end
