(* ===== verification/Planned_Answers.thy ===== *)
theory Planned_Answers
  imports Planned_Run Evidence_Limits Citation_Properties
begin

text \<open>
  What a planned analysis may claim: every citation is text a read of this run returned, at a
  location inside the workspace, and the control plane keeps it; a completed run has evidence of
  every required kind.
\<close>

section \<open>Where source evidence comes from\<close>

definition typed :: "string set \<Rightarrow> py \<Rightarrow> bool" where
  "typed T v \<longleftrightarrow> (\<exists>d t. v = PDict d \<and> dget d ''evidence_type'' = PStr t \<and> t \<in> T)"

lemma typed_mono: "typed T v \<Longrightarrow> T \<subseteq> U \<Longrightarrow> typed U v"
  by (auto simp: typed_def)

lemma typed_dict [simp]: "typed T (PDict d) \<longleftrightarrow> (\<exists>t \<in> T. dget d ''evidence_type'' = PStr t)"
  by (auto simp: typed_def)

lemma typed_items:
  "typed {structural_type t} (text_item (structural_type t) c p)" "typed {''retrieval_error''} (error_item c p)"
  "typed {''retrieval_error''} (read_error path n)" "typed {t} (match_item t p d)"
  by (simp_all add: text_item_def error_item_def read_error_def match_item_def)

lemma matched_dict:
  "v \<in> set (List.map_filter (\<lambda>m. case m of PDict e \<Rightarrow> Some (g e) | _ \<Rightarrow> None) ms) \<Longrightarrow> \<exists>e. v = g e"
proof (induction ms)
  case (Cons m ms)
  then show ?case by (cases m) (auto simp: List.map_filter_simps)
qed (simp add: List.map_filter_simps)

lemma object_items_typed:
  assumes "v \<in> set (object_items env d t p)" shows "typed {structural_type t, ''retrieval_error''} v"
proof (cases "\<not> truthy (dget d ''error'') \<and> (\<exists>ms. dget d ''matches'' = PList ms)")
  case True
  then obtain ms where "v \<in> set (List.map_filter (\<lambda>m. case m of PDict e \<Rightarrow> Some (match_item (structural_type t) p e) | _ \<Rightarrow> None) ms)"
    using assms by (auto simp: object_items_def)
  then show ?thesis by (auto simp: match_item_def dest!: matched_dict)
next
  case False
  then show ?thesis
    using assms by (cases "dget d ''matches''") (auto simp: object_items_def text_item_def split: if_splits)
qed

lemma plain_items_typed:
  "v \<in> set (plain_items env w t p) \<Longrightarrow> typed {structural_type t, ''retrieval_error''} v"
  using typed_items object_items_typed
  by (auto simp: plain_items_def text_item_def error_item_def split: py.splits if_splits)

lemma items_undecoded:
  "read_text env w = None \<Longrightarrow> items_from_result env w t p =
     (case w of PStr s \<Rightarrow> if py_strip s = [] then [] else [text_item (structural_type t) s p] | _ \<Rightarrow> [])"
  by (subst items_from_result.simps) simp

lemma items_decoded:
  "read_text env w = Some u \<Longrightarrow> items_from_result env w t p =
     (case enveloped u of Some inner \<Rightarrow> items_from_result env inner t p | None \<Rightarrow> plain_items env u t p)"
  by (subst items_from_result.simps) simp

lemma items_from_result_typed:
  "v \<in> set (items_from_result env w t p) \<Longrightarrow> typed {structural_type t, ''retrieval_error''} v"
proof (induction env w t p rule: items_from_result.induct)
  case (1 env w t p)
  show ?case
  proof (cases "read_text env w")
    case None
    then show ?thesis using 1(2) by (auto simp: items_undecoded text_item_def split: py.splits if_splits)
  next
    case (Some u)
    then show ?thesis using 1(1) [OF Some] 1(2) plain_items_typed by (cases "enveloped u") (auto simp: items_decoded)
  qed
qed

definition search_kinds :: "string set" where
  "search_kinds = {''codegraph'', ''literal'', ''structural_search''}"

definition search_types :: "string set" where
  "search_types = {''structural'', ''literal'', ''retrieval_error''}"

lemma request_items_typed:
  assumes "rq_kind rq \<in> search_kinds" "v \<in> set (request_items env rq)" shows "typed search_types v"
proof (cases "rq_tool rq (rq_args rq)")
  case (Inl n)
  then show ?thesis using assms(2) by (auto simp: request_items_def search_types_def error_item_def)
next
  case (Inr w)
  let ?t = "if rq_kind rq = ''structural_search'' then ''structural'' else rq_kind rq"
  have "typed {structural_type ?t, ''retrieval_error''} v"
    using assms(2) items_from_result_typed by (auto simp: request_items_def Inr)
  then show ?thesis
    using assms(1) by (elim typed_mono) (auto simp: search_kinds_def search_types_def structural_type_def)
qed

lemma planned_requests_kinds: "rq \<in> set (planned_requests tools plan) \<Longrightarrow> rq_kind rq \<in> search_kinds"
  by (auto simp: planned_requests_def search_kinds_def set_map_filter codegraph_request_def search_request_def
      split: option.splits)

lemma fallback_requests_kinds: "rq \<in> set (fallback_requests f plan) \<Longrightarrow> rq_kind rq \<in> search_kinds"
  by (auto simp: fallback_requests_def search_kinds_def search_request_def split: if_splits)

lemma finish_requests_items:
  "rv_items (foldl (finish_request env) st rqs) = rv_items st @ concat (map (request_items env) rqs)"
  by (induction rqs arbitrary: st) (simp_all add: finish_request_def)

lemma run_requests_typed:
  assumes "\<And>rqs. mset (order rqs) = mset rqs" "\<And>rq. rq \<in> set pending \<Longrightarrow> rq_kind rq \<in> search_kinds"
    and "v \<in> set (rv_items (run_requests env order pending st))"
  shows "v \<in> set (rv_items st) \<or> typed search_types v"
proof -
  have "v \<in> set (rv_items st) \<or> (\<exists>rq \<in> set pending. v \<in> set (request_items env rq))"
    using assms(3) mset_eq_setD [OF assms(1) [of pending]] by (simp add: run_requests_def finish_requests_items)
  then show ?thesis using request_items_typed assms(2) by blast
qed

text \<open>An item that is the beginning of what a read returned.\<close>

definition read_result :: "evidence_env \<Rightarrow> retrieval_tools \<Rightarrow> py \<Rightarrow> bool" where
  "read_result env tools v \<longleftrightarrow>
     (\<exists>f args w. rt_read tools = Some f \<and> f args = Inr w \<and> v \<in> set (items_from_result env w ''source'' ''read_workspace_file''))"

definition was_read :: "evidence_env \<Rightarrow> retrieval_tools \<Rightarrow> evidence_item \<Rightarrow> bool" where
  "was_read env tools j \<longleftrightarrow> (\<exists>v i. read_result env tools v \<and> to_item env v = Inr i \<and> shortened i j)"

definition sourced :: "evidence_env \<Rightarrow> retrieval_tools \<Rightarrow> py \<Rightarrow> bool" where
  "sourced env tools v \<longleftrightarrow> typed search_types v \<or> typed {''source'', ''retrieval_error''} v \<and> (typed {''source''} v \<longrightarrow> read_result env tools v)"

lemma complete_reads_items:
  assumes "v \<in> set (rv_items (foldl (complete_read env f n) st ws))"
  shows "v \<in> set (rv_items st) \<or> typed {''retrieval_error''} v
    \<or> (\<exists>args w. f args = Inr w \<and> v \<in> set (items_from_result env w ''source'' ''read_workspace_file''))"
  using assms
proof (induction ws arbitrary: st)
  case (Cons w ws)
  have "v \<in> set (rv_items (complete_read env f n st w)) \<longrightarrow> v \<in> set (rv_items st) \<or> typed {''retrieval_error''} v
      \<or> (\<exists>args w. f args = Inr w \<and> v \<in> set (items_from_result env w ''source'' ''read_workspace_file''))"
    by (auto simp: complete_read_def read_error_def split: sum.splits)
  then show ?case using Cons.IH [of "complete_read env f n st w"] Cons.prems by auto
qed simp

lemma read_item_sourced:
  assumes "rt_read tools = Some f" "f args = Inr w" "v \<in> set (items_from_result env w ''source'' ''read_workspace_file'')"
  shows "sourced env tools v"
  using items_from_result_typed [OF assms(3)] assms
  by (auto simp: sourced_def read_result_def structural_type_def)

lemma error_sourced: "typed {''retrieval_error''} v \<Longrightarrow> sourced env tools v"
  unfolding sourced_def by (rule disjI1, erule typed_mono) (simp add: search_types_def)

lemma search_sourced: "typed search_types v \<Longrightarrow> sourced env tools v"
  by (simp add: sourced_def)

lemma retrieve_sourced:
  assumes run: "retrieve env order tools plan = Inr st" and order: "\<And>rqs. mset (order rqs) = mset rqs"
    and v: "v \<in> set (rv_items st)"
  shows "sourced env tools v"
proof -
  let ?st = "run_requests env order (planned_requests tools plan) empty_retrieval"
  have first: "typed search_types u" if "u \<in> set (rv_items ?st)" for u
    using run_requests_typed [OF order planned_requests_kinds that] by (auto simp: empty_retrieval_def)
  obtain st' where st': "\<And>u. u \<in> set (rv_items st') \<Longrightarrow> typed search_types u"
    and last_step: "(case rt_read tools of None \<Rightarrow> Inr st' | Some f \<Rightarrow> read_windows env f plan st') = Inr st"
  proof -
    obtain fallback where st: "(let st' = (case rt_search tools of
          Some f \<Rightarrow> if fallback then run_requests env order (fallback_requests f plan) ?st else ?st | None \<Rightarrow> ?st)
        in case rt_read tools of None \<Rightarrow> Inr st' | Some f \<Rightarrow> read_windows env f plan st') = Inr st"
      using run by (auto simp: retrieve_def rbind_Inr_iff Let_def)
    have "typed search_types u" if "u \<in> set (rv_items (case rt_search tools of
          Some f \<Rightarrow> if fallback then run_requests env order (fallback_requests f plan) ?st else ?st | None \<Rightarrow> ?st))" for u
    proof (cases "rt_search tools = None \<or> \<not> fallback")
      case True
      then show ?thesis using that first by (auto split: option.splits)
    next
      case False
      then obtain f where f: "rt_search tools = Some f" by (cases "rt_search tools") simp_all
      then have "u \<in> set (rv_items (run_requests env order (fallback_requests f plan) ?st))"
        using that False by simp
      from run_requests_typed [OF order _ this] show ?thesis
        using first fallback_requests_kinds [of _ f plan] by blast
    qed
    then show thesis using st by (intro that) (simp_all add: Let_def)
  qed
  show ?thesis
  proof (cases "rt_read tools")
    case None
    then show ?thesis using last_step v st' by (auto simp: sourced_def)
  next
    case (Some f)
    then obtain n ws log where "st = foldl (complete_read env f n) (st'\<lparr>rv_log := log\<rparr>) ws"
      using last_step by (auto simp: read_windows_def rbind_Inr_iff Let_def)
    from complete_reads_items [OF v [unfolded this]] consider "v \<in> set (rv_items st')" | "typed {''retrieval_error''} v"
      | args w where "f args = Inr w" "v \<in> set (items_from_result env w ''source'' ''read_workspace_file'')" by auto
    then show ?thesis
      by cases (rule search_sourced [OF st'] error_sourced read_item_sourced [OF Some]; assumption)+
  qed
qed

section \<open>Bundles\<close>

lemma shortened_trans: "shortened i j \<Longrightarrow> shortened j k \<Longrightarrow> shortened i k"
  by (auto simp: shortened_def)

lemma evidence_item_type:
  assumes "to_item env v = Inr i" "dget (dict_of v) ''evidence_type'' = PStr t"
  shows "ei_type i = (if t = [] then ''unknown'' else t)"
proof -
  obtain d start stop where v: "v = PDict d"
    and i: "i = identified env \<lparr>ei_id = [], ei_type = py_str (ee_repr env) (py_or (dget d ''evidence_type'') (PStr ''unknown'')),
               ei_content = text_or_empty (ee_repr env) (dget d ''content''),
               ei_path = text_or_empty (ee_repr env) (dget d ''path''),
               ei_symbol = text_or_empty (ee_repr env) (dget d ''symbol''),
               ei_start = start, ei_end = stop,
               ei_provenance = text_or_empty (ee_repr env) (dget d ''provenance''),
               ei_score = type_score (py_str (ee_repr env) (py_or (dget d ''evidence_type'') (PStr ''unknown'')))\<rparr>"
    using assms(1) unfolding to_item_def Let_def dict_case_Inr rbind_Inr_iff by blast
  show ?thesis using assms(2) by (simp add: i v identified_def py_or_def)
qed

lemma bundle_sourced:
  assumes "build_evidence_bundle env items n = Inr b" "\<And>v. v \<in> set items \<Longrightarrow> sourced env tools v"
    and "j \<in> set (eb_items b)" "ei_type j = ''source''"
  shows "was_read env tools j"
proof -
  obtain v i where v: "v \<in> set items" "to_item env v = Inr i" "shortened i j"
    using bundle_origin [OF assms(1,3)] by blast
  have i: "ei_type i = ''source''" using v(3) assms(4) by (simp add: shortened_def)
  have "\<not> typed search_types v" using evidence_item_type [OF v(2)] i by (auto simp: typed_def search_types_def)
  moreover have "typed {''source'', ''retrieval_error''} v \<Longrightarrow> typed {''source''} v"
    using evidence_item_type [OF v(2)] i by (auto simp: typed_def)
  ultimately show ?thesis using assms(2) [OF v(1)] v by (auto simp: sourced_def was_read_def)
qed

text \<open>An item survives \<open>as_dict\<close>.\<close>

lemma item_dict_item:
  "to_item env (item_dict j) = Inr (identified env
     (j\<lparr>ei_id := [], ei_type := if ei_type j = [] then ''unknown'' else ei_type j,
        ei_score := type_score (if ei_type j = [] then ''unknown'' else ei_type j)\<rparr>))"
proof -
  have "optional_int (opt_line n) = Inr n" for n
    by (simp add: optional_int_def opt_line_def caught_int_def split: option.split)
  then show ?thesis by (cases j) (simp add: to_item_def item_dict_def py_or_def Let_def)
qed

lemma evidence_item_score: "to_item env v = Inr i \<Longrightarrow> ei_score i = type_score (ei_type i)"
  by (auto simp: to_item_def Let_def dict_case_Inr rbind_Inr_iff identified_def)

lemma merged_sourced:
  assumes "build_evidence_bundle env (map item_dict js) n = Inr b" "j \<in> set (eb_items b)" "ei_type j = ''source''"
    and read: "\<And>k. k \<in> set js \<Longrightarrow> ei_type k = ''source'' \<Longrightarrow> was_read env tools k"
  shows "was_read env tools j"
proof -
  obtain k i where k: "k \<in> set js" "to_item env (item_dict k) = Inr i" "shortened i j"
    using bundle_origin [OF assms(1,2)] by auto
  have "ei_type i = ''source''" using k(3) assms(3) by (simp add: shortened_def)
  then have "ei_type k = ''source''" using k(2) by (auto simp: item_dict_item identified_def split: if_splits)
  moreover from read [OF k(1) this] obtain v i0 where v: "read_result env tools v" "to_item env v = Inr i0" "shortened i0 k"
    by (auto simp: was_read_def)
  ultimately have "shortened k i"
    using k(2) evidence_item_score [OF v(2)] by (auto simp: item_dict_item identified_def shortened_def)
  then show ?thesis using v k(3) by (meson shortened_trans was_read_def)
qed

lemma execute_sourced:
  assumes "execute_plan env order tools plan = Inr (b, st)" "\<And>rqs. mset (order rqs) = mset rqs"
    and "j \<in> set (eb_items b)" "ei_type j = ''source''"
  shows "was_read env tools j"
proof -
  have "retrieve env order tools plan = Inr st" "build_evidence_bundle env (rv_items st) (rp_evidence_tokens plan) = Inr b"
    using assms(1) by (auto simp: execute_plan_def rbind_Inr_iff)
  then show ?thesis using bundle_sourced retrieve_sourced [OF _ assms(2)] assms(3,4) by blast
qed

lemma gather_cases:
  assumes "gather_evidence env order tools replies question command plan = Inr (b, gaps, rounds)"
  obtains b0 st where "execute_plan (pd_evidence env) order tools plan = Inr (b0, st)" "b = b0" "rounds = 0"
      "gaps = evidence_gaps b (rp_requirements plan)"
    | b0 st gap_plan fb st' where "execute_plan (pd_evidence env) order tools plan = Inr (b0, st)"
      "execute_plan (pd_evidence env) order tools gap_plan = Inr (fb, st')" "rounds = 1"
      "build_evidence_bundle (pd_evidence env) (map item_dict (eb_items b0 @ eb_items fb)) (rp_evidence_tokens plan) = Inr b"
      "gaps = evidence_gaps b (rp_requirements plan)" "rp_max_fallback plan \<noteq> 0"
  using assms unfolding gather_evidence_def rbind_Inr_iff Let_def
  by (auto simp: rbind_Inr_iff split: if_splits)

lemma gathered_sourced:
  assumes "gather_evidence env order tools replies question command plan = Inr (b, gaps, rounds)"
    and order: "\<And>rqs. mset (order rqs) = mset rqs"
    and j: "j \<in> set (eb_items b)" "ei_type j = ''source''"
  shows "was_read (pd_evidence env) tools j"
  using assms(1)
proof (cases rule: gather_cases)
  case (1 b0 st)
  then show ?thesis using execute_sourced [OF 1(1) order] j by simp
next
  case (2 b0 st gap_plan fb st')
  show ?thesis
    by (rule merged_sourced [OF 2(4) j]) (use execute_sourced [OF 2(1) order] execute_sourced [OF 2(2) order] in auto)
qed

section \<open>The run\<close>

lemma read_plan_ok: "read_plan env content = Inr plan \<Longrightarrow> plan_ok plan"
  by (auto simp: read_plan_def rbind_Inr_iff dest: parsed_plan_ok)

lemma parse_planner_ok: "parse_planner_response env content question command = Inr plan \<Longrightarrow> plan_ok plan"
proof -
  assume "parse_planner_response env content question command = Inr plan"
  then obtain t where "(case parse_retrieval_plan (pd_plan env) (PStr t) of
      Inr plan \<Rightarrow> Inr plan | Inl _ \<Rightarrow> parse_retrieval_plan (pd_plan env) (safe_plan question command)) = Inr plan"
    by (auto simp: parse_planner_response_def rbind_Inr_iff)
  then show ?thesis by (cases "parse_retrieval_plan (pd_plan env) (PStr t)") (auto dest: parsed_plan_ok)
qed

lemma planned_plan_ok:
  assumes "planned_plan env replies on question command = Inr (plan, status, repairs)"
  shows "plan_ok plan \<and> 0 \<le> repairs \<and> repairs \<le> 1"
  using assms read_plan_ok parse_planner_ok
  by (auto simp: planned_plan_def rbind_Inr_iff split: sum.split_asm if_split_asm)

lemma answer_cases:
  assumes "answer_planned env replies ws status repairs b gaps rounds = Inr out"
  obtains t retried answer citations unsupported where "final_text env replies = Inr (t, retried)"
    "validated_planned_answer env t b ws = (answer, citations, unsupported)"
    "po_outcome out = outcome_of_answer (gaps = []) citations unsupported b"
    "po_answer out = (if po_outcome out = ''blocked'' then None else Some answer)"
    "po_citations out = citations" "po_gaps out = gaps" "po_model_calls out = 2 + repairs + rounds + retried"
    "po_reason out = (if gaps \<noteq> [] \<or> unsupported \<noteq> 0 then ''evidence_insufficient'' else [])"
proof -
  obtain t retried where t: "final_text env replies = Inr (t, retried)"
    and out: "out = (let (answer, citations, unsupported) = validated_planned_answer env t b ws;
           outcome = outcome_of_answer (gaps = []) citations unsupported b
       in \<lparr>po_outcome = outcome,
               po_reason = (if gaps \<noteq> [] \<or> unsupported \<noteq> 0 then ''evidence_insufficient'' else []),
               po_answer = (if outcome = ''blocked'' then None else Some answer),
               po_citations = citations, po_plan_status = status, po_gaps = gaps,
               po_model_calls = 2 + repairs + rounds + retried\<rparr>)"
    using assms by (auto simp: answer_planned_def rbind_Inr_iff Let_def case_prod_beta)
  obtain answer citations unsupported where v: "validated_planned_answer env t b ws = (answer, citations, unsupported)"
    by (rule prod_cases3)
  show thesis by (rule that [OF t v]) (simp_all add: out v Let_def)
qed

lemma run_cases:
  assumes "run_planned_code_analysis env order tools ws on replies command = Inr out"
  obtains reason answer status calls where "out = blocked_outcome reason answer status calls"
      "reason = ''needs_user_input'' \<or> reason = ''capability_unavailable'' \<and> answer = None" "calls \<le> 2"
    | plan status repairs b gaps rounds question where
      "planned_plan env replies on question command = Inr (plan, status, repairs)"
      "gather_evidence env order tools replies question command plan = Inr (b, gaps, rounds)"
      "answer_planned env replies ws status repairs b gaps rounds = Inr out"
proof (cases "retrieval_ready tools")
  case False
  then have "out = blocked_outcome ''capability_unavailable'' None [] 0"
    using assms by (simp add: run_planned_code_analysis_def Let_def)
  then show thesis by (rule that(1)) simp_all
next
  case True
  let ?question = "text_or_empty (pd_repr env) (dget command ''question'')"
  obtain plan status repairs where plan: "planned_plan env replies on ?question command = Inr (plan, status, repairs)"
    and rest: "(case rp_clarification plan of
             Some c \<Rightarrow> Inr (blocked_outcome ''needs_user_input'' (Some (cl_question c)) status (1 + repairs))
           | None \<Rightarrow>
               rbind (gather_evidence env order tools replies ?question command plan) (\<lambda>(b, gaps, rounds).
                 answer_planned env replies ws status repairs b gaps rounds)) = Inr out"
    using assms True by (auto simp: run_planned_code_analysis_def Let_def rbind_Inr_iff)
  show thesis
  proof (cases "rp_clarification plan")
    case None
    then show thesis using that(2) [OF plan] rest by (auto simp: rbind_Inr_iff)
  next
    case (Some c)
    then have "out = blocked_outcome ''needs_user_input'' (Some (cl_question c)) status (1 + repairs)" using rest by simp
    then show thesis by (rule that(1)) (use planned_plan_ok [OF plan] in simp_all)
  qed
qed

lemma right_value: "(case r of Inl _ \<Rightarrow> None | Inr d \<Rightarrow> Some d) = Some c \<longleftrightarrow> r = Inr c"
  by (cases r) auto

lemma shown_citation:
  assumes "validated_planned_answer env t b ws = (answer, citations, unsupported)" "c \<in> set citations"
  shows "\<exists>request. check_citation (pd_evidence env) b ws citation_context request = Inr c"
proof -
  obtain d where "citations = select_presented_citations (fst (validate_citations (pd_evidence env)
      (list_items (dget d ''citations'')) b ws citation_context))"
    using assms by (auto simp: validated_planned_answer_def Let_def case_prod_beta split: option.splits if_splits)
  then have "c \<in> set (fst (validate_citations (pd_evidence env) (list_items (dget d ''citations'')) b ws citation_context))"
    using assms(2) first_by_subset by (fastforce simp: select_presented_citations_def dest: in_set_takeD)
  then show ?thesis by (auto simp: validate_citations_def Let_def set_map_filter right_value)
qed

lemma shown_few: "length (fst (snd (validated_planned_answer env t b ws))) \<le> 5"
  by (simp add: validated_planned_answer_def Let_def select_presented_citations_def case_prod_beta
      MAX_PRESENTED_CITATIONS_def split: option.split)

lemma checked_citation:
  assumes "check_citation env b ws context request = Inr c"
  obtains i cid supports parts x y where "i \<in> set (eb_items b)" "ei_type i = ''source''" "ei_id i = cid"
    "cid = py_strip cid" "supports \<noteq> []" "supports = py_strip supports"
    "resolved_path ws (ei_path i) = Some (ws_root ws @ parts)" "ws_is_file ws (ws_root ws @ parts)"
    "ei_start i = Some x" "ei_end i = Some y" "1 \<le> x" "x \<le> y" "y - x + 1 \<le> int (length (splitlines (ei_content i)))"
    "c = grounded_citation env context i cid supports (as_posix parts) x y"
proof -
  let ?cid = "py_strip (text_or_empty (ee_repr env) (dget (dict_of request) ''evidence_id''))"
  let ?supports = "py_strip (text_or_empty (ee_repr env) (dget (dict_of request) ''supports''))"
  obtain i where i: "sources_by_id b ?cid = Some i" "?supports \<noteq> []"
    "item_citation env ws context ?cid ?supports i = Some c"
    using assms by (auto simp: check_citation_def Let_def split: option.splits if_splits)
  have mem: "i \<in> set (eb_items b)" "ei_type i = ''source''" "ei_id i = ?cid"
    using map_of_SomeD [OF i(1) [unfolded sources_by_id_def]] by auto
  obtain parts x y where p: "resolved_path ws (ei_path i) = Some parts" "ei_start i = Some x" "ei_end i = Some y"
    "prefix (ws_root ws) parts" "ws_is_file ws parts" "1 \<le> x" "x \<le> y"
    "y - x + 1 \<le> int (length (splitlines (ei_content i)))"
    "c = grounded_citation env context i ?cid ?supports (as_posix (drop (length (ws_root ws)) parts)) x y"
    using i(3) by (auto simp: item_citation_def split: option.splits if_splits)
  obtain rest where "parts = ws_root ws @ rest" using p(4) by (auto simp: prefix_def)
  then show thesis using that [OF mem _ i(2), of rest x y] p by simp
qed

text \<open>C10.
  A planned answer cites only what the run has read: for each of its at most five citations
  there is a result of the reading tool, the cited text is the beginning of an item of that
  result, it has a line for each number of the cited range, and the path names a file inside
  the workspace, whatever identifiers, paths or texts the model puts in its response.
\<close>

theorem planned_citations_were_read:
  assumes run: "run_planned_code_analysis env order tools ws repairs_on replies command = Inr out"
    and order: "\<And>rqs. mset (order rqs) = mset rqs"
    and c: "c \<in> set (po_citations out)"
  shows "\<exists>i parts x y. was_read (pd_evidence env) tools i \<and> dget c ''source'' = PStr (ei_content i)
    \<and> dget c ''start_line'' = PInt x \<and> dget c ''end_line'' = PInt y \<and> ei_start i = Some x \<and> ei_end i = Some y
    \<and> 1 \<le> x \<and> x \<le> y \<and> y - x + 1 \<le> int (length (splitlines (ei_content i)))
    \<and> dget c ''path'' = PStr (as_posix parts) \<and> resolved_path ws (ei_path i) = Some (ws_root ws @ parts)
    \<and> ws_is_file ws (ws_root ws @ parts) \<and> length (po_citations out) \<le> 5"
  using run
proof (cases rule: run_cases)
  case 1
  then show ?thesis using c by (simp add: blocked_outcome_def)
next
  case (2 plan status repairs b gaps rounds question)
  from 2(3) obtain t retried answer unsupported where
    v: "validated_planned_answer env t b ws = (answer, po_citations out, unsupported)"
    by (rule answer_cases) metis
  obtain request where "check_citation (pd_evidence env) b ws citation_context request = Inr c"
    using shown_citation [OF v c] by blast
  then obtain i cid supports parts x y where i: "i \<in> set (eb_items b)" "ei_type i = ''source''"
    "resolved_path ws (ei_path i) = Some (ws_root ws @ parts)" "ws_is_file ws (ws_root ws @ parts)"
    "ei_start i = Some x" "ei_end i = Some y" "1 \<le> x" "x \<le> y" "y - x + 1 \<le> int (length (splitlines (ei_content i)))"
    "c = grounded_citation (pd_evidence env) citation_context i cid supports (as_posix parts) x y"
    by (rule checked_citation) metis
  have "was_read (pd_evidence env) tools i" by (rule gathered_sourced [OF 2(2) order i(1,2)])
  moreover have "length (po_citations out) \<le> 5" using shown_few [of env t b ws] v by simp
  ultimately show ?thesis using i by (auto simp: grounded_citation_def)
qed

lemma blocked_without_payload:
  assumes v: "validated_planned_answer env t b ws = (answer, citations, unsupported)"
    and shown: "outcome_of_answer sufficient citations unsupported b \<noteq> ''blocked''"
  obtains d where "json_object env t = Some d" "valid_answer_payload env d"
    "answer = py_strip (text_or_empty (pd_repr env) (dget d ''answer''))"
    "citations \<noteq> [] \<or> dget d ''unsupported_claims'' = PList []"
proof -
  have "\<not> (citations = [] \<and> unsupported = 1)" using shown by (auto simp: outcome_of_answer_def split: if_splits)
  then obtain d where d: "json_object env t = Some d" "valid_answer_payload env d"
    using v by (cases "json_object env t") (auto simp: validated_planned_answer_def split: if_splits)
  have answer: "answer = py_strip (text_or_empty (pd_repr env) (dget d ''answer''))"
    and claims: "unsupported = 0 \<Longrightarrow> list_items (dget d ''unsupported_claims'') = []"
    using v d by (auto simp: validated_planned_answer_def Let_def case_prod_beta simp flip: of_nat_add split: if_splits)
  have "citations \<noteq> [] \<or> unsupported = 0" using shown by (auto simp: outcome_of_answer_def split: if_splits)
  moreover have "unsupported = 0 \<Longrightarrow> dget d ''unsupported_claims'' = PList []"
    using claims d(2) by (auto simp: valid_answer_payload_def list_items_def split: py.split_asm)
  ultimately show thesis using that [OF d answer] by blast
qed

lemma final_text_source:
  "final_text env replies = Inr (t, retried) \<Longrightarrow>
     (message_content env (pr_final replies) = Inr t \<or> message_content env (pr_compact replies) = Inr t) \<and> retried \<le> 1"
  by (auto simp: final_text_def rbind_Inr_iff split: if_splits)

lemma gather_rounds:
  "gather_evidence env order tools replies question command plan = Inr (b, gaps, rounds) \<Longrightarrow> rounds \<le> 1"
  by (erule gather_cases) simp_all


section \<open>Citations at the control plane\<close>

lemma bundle_tokens_sum: "build_evidence_bundle env items n = Inr b \<Longrightarrow> eb_tokens b = item_tokens (eb_items b)"
  by (auto simp: build_evidence_bundle_def rbind_Inr_iff Let_def comp_def)

lemma item_tokens_member: "i \<in> set is \<Longrightarrow> estimate_tokens (ei_content i) \<le> item_tokens is"
proof (induction "is")
  case (Cons k "is")
  then show ?case
    using item_tokens_nonneg [of "is"] estimate_positive [of "ei_content k"] by auto
qed simp

lemma bundle_content_bound:
  assumes "build_evidence_bundle env items n = Inr b" "0 \<le> n" "i \<in> set (eb_items b)"
  shows "int (length (ei_content i)) \<le> 4 * n"
proof -
  have "estimate_tokens (ei_content i) \<le> n"
    using item_tokens_member [OF assms(3)] bundle_tokens [OF assms(1,2)] bundle_tokens_sum [OF assms(1)] by simp
  then have "(int (length (ei_content i)) + 3) div 4 \<le> n" by (simp add: estimate_tokens_def)
  then show ?thesis by linarith
qed

lemma fill_budget_ids: "j \<in> set (fill_budget env n is) \<Longrightarrow> \<exists>s. ei_id j = ''evidence-'' @ take 16 (ee_sha1 env s)"
  by (induction env n "is" rule: fill_budget.induct)
     (auto simp: cut_item_def identified_def evidence_id_def split: if_splits)

lemma bundle_ids:
  assumes "build_evidence_bundle env items n = Inr b" "j \<in> set (eb_items b)"
  shows "\<exists>s. ei_id j = ''evidence-'' @ take 16 (ee_sha1 env s)"
  using assms fill_budget_ids by (fastforce simp: build_evidence_bundle_def rbind_Inr_iff Let_def)

lemma gathered_built:
  assumes "gather_evidence env order tools replies question command plan = Inr (b, gaps, rounds)"
  shows "\<exists>items. build_evidence_bundle (pd_evidence env) items (rp_evidence_tokens plan) = Inr b"
  using assms by (cases rule: gather_cases) (auto simp: execute_plan_def rbind_Inr_iff)

lemma evidence_id_ok:
  assumes "list_all is_lower_hex (h :: string)" shows "citation_id_ok (''evidence-'' @ take 16 h)"
proof -
  have "is_alnum c" if "is_lower_hex c" for c
    using that by (auto simp: is_lower_hex_def is_alnum_def Let_def)
  then have "list_all is_alnum (take 16 h)" using assms by (auto simp: list_all_iff dest: in_set_takeD)
  moreover have "list_all is_alnum ''evidence''" by code_simp
  ultimately show ?thesis by (auto simp: citation_id_ok_def list_all_iff)
qed

lemma strip_working_tree: "py_strip ''working-tree'' = ''working-tree''"
  by (simp add: py_strip_def is_space_def)


section \<open>An example\<close>

definition answer_plan_source :: py where
  "answer_plan_source = PDict
     [(''objective'', PStr ''find it''),
      (''source_windows'', PList [PDict [(''path'', PStr ''a.py''), (''start_line'', PInt 1), (''end_line'', PInt 1)]])]"

definition answer_envelope :: py where
  "answer_envelope = PDict
     [(''answer'', PStr ''It runs.''),
      (''citations'', PList [PDict [(''evidence_id'', PStr ''evidence-aaaaaaaaaaaaaaaa''), (''supports'', PStr ''it'')]]),
      (''unsupported_claims'', PList [])]"

definition sample_planned_env :: planned_env where
  "sample_planned_env =
     \<lparr>pd_evidence = \<lparr>ee_plan = \<lparr>pe_loads = (\<lambda>s. if s = ''plan'' then Some answer_plan_source else None), pe_repr = (\<lambda>v. ''?'')\<rparr>,
                     ee_sha1 = (\<lambda>s. ''aaaaaaaaaaaaaaaa''), ee_dumps = (\<lambda>v. ''{}'')\<rparr>,
      pd_raw_decode = (\<lambda>s. if s = ''reply'' then Some answer_envelope else None)\<rparr>"

definition sample_reply :: planned_replies where
  "sample_reply = \<lparr>pr_planner = PStr ''plan'', pr_repair = PNone, pr_gap = PNone, pr_final = PStr ''reply'',
     pr_final_capped = False, pr_compact = PNone\<rparr>"

definition sample_line :: py where
  "sample_line = PDict [(''path'', PStr ''a.py''), (''start_line'', PInt 1), (''end_line'', PInt 1), (''content'', PStr ''run()'')]"

definition reading_tools :: retrieval_tools where
  "reading_tools = \<lparr>rt_search = None, rt_read = Some (\<lambda>args. Inr sample_line), rt_codegraph = (\<lambda>name. None)\<rparr>"

definition sample_workspace :: workspace where
  "sample_workspace = \<lparr>ws_root = [''w''], ws_resolve = (\<lambda>q. if q = [''w'', ''a.py''] then Some q else None), ws_is_file = (\<lambda>p. True)\<rparr>"

definition answer_plan :: retrieval_plan where
  "answer_plan = sample_plan\<lparr>rp_literals := [], rp_windows := [\<lparr>sw_path = ''a.py'', sw_start = 1, sw_end = Some 1\<rparr>]\<rparr>"

definition answer_item :: evidence_item where
  "answer_item =
     \<lparr>ei_id = ''evidence-aaaaaaaaaaaaaaaa'', ei_type = ''source'', ei_content = ''run()'', ei_path = ''a.py'', ei_symbol = [],
      ei_start = Some 1, ei_end = Some 1, ei_provenance = ''read_workspace_file'', ei_score = 4\<rparr>"

definition answer_citation :: pydict where
  "answer_citation = grounded_citation (pd_evidence sample_planned_env) citation_context answer_item
     ''evidence-aaaaaaaaaaaaaaaa'' ''it'' ''a.py'' 1 1"

definition sample_answer_outcome :: planned_outcome where
  "sample_answer_outcome =
     \<lparr>po_outcome = ''completed'', po_reason = [], po_answer = Some ''It runs.'', po_citations = [answer_citation],
      po_plan_status = ''valid'', po_gaps = [], po_model_calls = 2\<rparr>"

lemma sample_plan_read: "read_plan sample_planned_env (PStr ''plan'') = Inr answer_plan"
proof -
  have strip: "py_strip ''find it'' = ''find it''" "py_strip ''a.py'' = ''a.py''" "py_strip [] = []"
    by (simp_all add: py_strip_def is_space_def)
  then show ?thesis
    by (simp add: read_plan_def message_content_def sample_planned_env_def parse_retrieval_plan_def answer_plan_source_def
        plan_object_def required_text_def strip list_value_def budget_fields_def clamped_def plan_int_def
        parse_clarification_def unique_queries_def bounded_query_def parse_window_def py_or_def
        answer_plan_def sample_plan_def keep_first_def caught_int_def
        MAX_OBJECTIVE_CHARS_def MAX_QUERY_CHARS_def MAX_LITERAL_QUERIES_def MAX_FILES_def
        MAX_SOURCE_WINDOW_LINES_def MAX_EVIDENCE_TOKENS_def MAX_CODEGRAPH_QUERIES_def MAX_SOURCE_WINDOWS_def)
qed

lemma sample_items_read:
  "items_from_result (pd_evidence sample_planned_env) sample_line ''source'' ''read_workspace_file'' =
     [PDict [(''evidence_type'', PStr ''source''), (''path'', PStr ''a.py''), (''symbol'', PStr []), (''start_line'', PInt 1),
             (''end_line'', PInt 1), (''content'', PStr ''run()''), (''provenance'', PStr ''read_workspace_file'')]]"
  by (subst items_from_result.simps)
     (simp add: read_text_def sample_line_def enveloped_def plain_items_def object_items_def structural_type_def dget_default_def)

lemma sample_answer_bundle:
  "build_evidence_bundle (pd_evidence sample_planned_env)
     [PDict [(''evidence_type'', PStr ''source''), (''path'', PStr ''a.py''), (''symbol'', PStr []), (''start_line'', PInt 1),
             (''end_line'', PInt 1), (''content'', PStr ''run()''), (''provenance'', PStr ''read_workspace_file'')]] 20000 =
   Inr \<lparr>eb_items = [answer_item], eb_duplicates = 0, eb_tokens = 2, eb_files = 1\<rparr>"
  by (simp add: bundle_eval sample_planned_env_def answer_item_def caught_int_def card_set del: set_map set_filter)

lemma sample_gathered:
  "gather_evidence sample_planned_env id reading_tools sample_reply q command answer_plan =
     Inr (\<lparr>eb_items = [answer_item], eb_duplicates = 0, eb_tokens = 2, eb_files = 1\<rparr>, [], 0)"
proof -
  have plan: "rp_literals answer_plan = []" "rp_codegraph answer_plan = []" "rp_requirements answer_plan = []"
    "rp_max_files answer_plan = 8" "rp_window_lines answer_plan = 250" "rp_evidence_tokens answer_plan = 20000"
    "rp_windows answer_plan = [\<lparr>sw_path = ''a.py'', sw_start = 1, sw_end = Some 1\<rparr>]"
    by (simp_all add: answer_plan_def sample_plan_def)
  have windows: "coalesce_source_windows [\<lparr>sw_path = ''a.py'', sw_start = 1, sw_end = Some 1\<rparr>] 250
      = [\<lparr>sw_path = ''a.py'', sw_start = 1, sw_end = Some 1\<rparr>]"
    by (simp add: coalesce_source_windows_def path_windows_def window_range_def keep_first_def Let_def)
  have "execute_plan (pd_evidence sample_planned_env) id reading_tools answer_plan =
      Inr (\<lparr>eb_items = [answer_item], eb_duplicates = 0, eb_tokens = 2, eb_files = 1\<rparr>,
           complete_read (pd_evidence sample_planned_env) (\<lambda>args. Inr sample_line) 250
             (empty_retrieval\<lparr>rv_log := reads 250 [\<lparr>sw_path = ''a.py'', sw_start = 1, sw_end = Some 1\<rparr>]\<rparr>)
             \<lparr>sw_path = ''a.py'', sw_start = 1, sw_end = Some 1\<rparr>)"
    using sample_answer_bundle windows
    by (simp add: execute_plan_def retrieve_def reading_tools_def planned_requests_def plan run_requests_def
        needs_fallback_def build_evidence_bundle_def ranked_items_def evidence_gaps_def keep_first_def read_windows_def
        source_windows_from_items_def empty_retrieval_def Let_def reads_def complete_read_def sample_items_read
        List.map_filter_simps)
  then show ?thesis
    by (simp add: gather_evidence_def plan evidence_gaps_def keep_first_def)
qed

lemma sample_planned_run:
  "run_planned_code_analysis sample_planned_env id reading_tools sample_workspace False sample_reply [] = Inr sample_answer_outcome"
proof -
  let ?b = "\<lparr>eb_items = [answer_item], eb_duplicates = 0, eb_tokens = 2, eb_files = 1\<rparr>"
  have strip: "py_strip ''evidence-aaaaaaaaaaaaaaaa'' = ''evidence-aaaaaaaaaaaaaaaa''" "py_strip ''it'' = ''it''"
    "py_strip ''reply'' = ''reply''" "py_strip ''It runs.'' = ''It runs.''"
    by (simp_all add: py_strip_def is_space_def)
  have parts: "path_parts ''a.py'' = [''a.py'']" "splitlines ''run()'' = [''run()'']" by code_simp+
  have plan: "planned_plan sample_planned_env sample_reply False [] [] = Inr (answer_plan, ''valid'', 0)"
    using sample_plan_read by (simp add: planned_plan_def sample_reply_def)
  have object: "json_object sample_planned_env ''reply'' = Some (dict_of answer_envelope)"
    by (simp add: json_object_def strip sample_planned_env_def answer_object_def answer_envelope_def answer_keys_def
        List.map_filter_simps)
  have valid: "valid_answer_payload sample_planned_env (dict_of answer_envelope)"
    by (simp add: valid_answer_payload_def answer_envelope_def answer_keys_def citation_request_ok_def strip)
  have reply: "final_text sample_planned_env sample_reply = Inr (''reply'', 0)"
    by (simp add: final_text_def sample_reply_def message_content_def response_needs_retry_def object valid)
  have item: "ei_type answer_item = ''source''" "ei_id answer_item = ''evidence-aaaaaaaaaaaaaaaa''" "ei_path answer_item = ''a.py''"
    "ei_start answer_item = Some 1" "ei_end answer_item = Some 1" "ei_content answer_item = ''run()''"
    by (simp_all add: answer_item_def)
  have checked: "check_citation (pd_evidence sample_planned_env) ?b sample_workspace citation_context
      (PDict [(''evidence_id'', PStr ''evidence-aaaaaaaaaaaaaaaa''), (''supports'', PStr ''it'')]) = Inr answer_citation"
    by (simp add: check_citation_def strip sources_by_id_def item item_citation_def resolved_path_def is_absolute_def
        sample_workspace_def parts answer_citation_def as_posix_def)
  have answer: "validated_planned_answer sample_planned_env ''reply'' ?b sample_workspace = (''It runs.'', [answer_citation], 0)"
    using checked
    by (simp add: validated_planned_answer_def object valid)
      (simp add: answer_envelope_def list_items_def validate_citations_def List.map_filter_simps select_presented_citations_def
        MAX_PRESENTED_CITATIONS_def strip)
  have ready: "retrieval_ready reading_tools"
    by (simp add: retrieval_ready_def missing_capabilities_def reading_tools_def)
  have none: "rp_clarification answer_plan = None" by (simp add: answer_plan_def sample_plan_def)
  show ?thesis
    by (simp add: run_planned_code_analysis_def ready plan none sample_gathered answer_planned_def reply answer
        outcome_of_answer_def sample_answer_outcome_def)
qed

lemma planned_citations_were_read_witness:
  "\<exists>i. was_read (pd_evidence sample_planned_env) reading_tools i \<and> dget answer_citation ''source'' = PStr (ei_content i)"
  using planned_citations_were_read [OF sample_planned_run, of answer_citation] by (auto simp: sample_answer_outcome_def)



section \<open>The safe plan\<close>

text \<open>
  The plan that is meant to replace an invalid one is itself refused when the question starts
  with a term of more than 500 characters, and the run ends with the exception.
\<close>

lemma long_term_has_no_safe_plan:
  assumes "n > 500"
  shows "parse_retrieval_plan env (safe_plan (replicate n (CHR ''x'')) []) = Inl (PlanValidationError ''plan query is too long'')"
proof -
  let ?q = "replicate n (CHR ''x'')"
  have cons: "?q = CHR ''x'' # replicate (n - 1) (CHR ''x'')" using assms by (cases n) simp_all
  have drop: "dropWhile P (replicate m c) = replicate m c" if "\<not> P c" for P and c :: char and m
    using that by (cases m) simp_all
  have strip: "py_strip (replicate m (CHR ''x'')) = replicate m (CHR ''x'')" for m
    by (simp add: py_strip_def drop is_space_def)
  have "word_match ?q = n"
    unfolding cons by (simp add: word_match_def is_word_start_def word_char_def is_digit_def digit_val_def is_term_char_def)
      (use assms in simp)
  then have "find_all word_match ?q = [?q]" using assms by (simp add: cons)
  moreover have "strip_chars {CHR '' '', CHR ''_'', CHR ''-'', CHR ''.'', CHR ''/'', CHR '':''} ?q = ?q"
    by (simp add: strip_chars_def drop)
  moreover have "lower ?q \<notin> query_stop_words"
  proof
    assume "lower ?q \<in> query_stop_words"
    then have "length (lower ?q) \<le> 5" by (auto simp: query_stop_words_def)
    then show False using assms by (simp add: lower_def)
  qed
  ultimately have terms: "fallback_query_terms ?q = [?q]"
    using assms by (simp add: fallback_query_terms_def strip)
  have explore: "map lower_char (py_strip ''explore'') = ''explore''"
    by (simp add: py_strip_def is_space_def lower_char_def)
  show ?thesis
    using assms
    by (simp add: explore parse_retrieval_plan_def safe_plan_def Let_def terms plan_object_def required_text_def strip
        MAX_OBJECTIVE_CHARS_def list_value_def MAX_CODEGRAPH_QUERIES_def parse_codegraph_def codegraph_operation_def
        ALLOWED_CODEGRAPH_OPERATIONS_def OPERATION_ALIASES_def bounded_query_def MAX_QUERY_CHARS_def)
qed

end
