(* ===== verification/Run_Trace.thy ===== *)
theory Run_Trace
  imports Run_Model
begin

text \<open>
  The append-only trajectory of a run on the control plane (\<open>backend/lens/run_trace.py\<close>):
  the validation of one event, the idempotent append of a batch, and the frame handler of
  \<open>backend/lens/consumers.py\<close> that answers with an acknowledgement. Event identifiers are the
  128-bit numbers \<open>uuid.UUID\<close> parses; the primary key of a row is its position in the table of
  its run, which is never deleted from. Django's \<open>parse_datetime\<close> is the parameter
  \<open>parse_dt\<close>: the instant with its awareness, \<open>None\<close>, or the \<open>ValueError\<close> it documents for a
  well-formed but impossible date. The shortest text of a float is the parameter \<open>float_text\<close>.
\<close>

section \<open>Python equality of JSON values\<close>

fun num_of :: "py \<Rightarrow> pyfloat option" where
  "num_of (PInt i) = Some (Fin (of_int i))"
| "num_of (PBool b) = Some (Fin (if b then 1 else 0))"
| "num_of (PFloat f) = Some f"
| "num_of _ = None"

definition num_eq :: "py \<Rightarrow> py \<Rightarrow> bool" where
  "num_eq a b = (num_of a \<noteq> None \<and> num_of a = num_of b \<and> num_of a \<noteq> Some NaN)"

fun py_eq :: "py \<Rightarrow> py \<Rightarrow> bool"
  and list_eq :: "py list \<Rightarrow> py list \<Rightarrow> bool"
  and dict_sub :: "(string \<times> py) list \<Rightarrow> (string \<times> py) list \<Rightarrow> bool" where
  "py_eq (PList xs) v = (case v of PList ys \<Rightarrow> list_eq xs ys | _ \<Rightarrow> False)"
| "py_eq (PDict d) v = (case v of PDict e \<Rightarrow> length d = length e \<and> dict_sub d e | _ \<Rightarrow> False)"
| "py_eq (PStr s) v = (v = PStr s)"
| "py_eq PNone v = (v = PNone)"
| "py_eq (PInt i) v = num_eq (PInt i) v"
| "py_eq (PBool b) v = num_eq (PBool b) v"
| "py_eq (PFloat f) v = num_eq (PFloat f) v"
| "list_eq [] ys = (ys = [])"
| "list_eq (x # xs) ys = (case ys of [] \<Rightarrow> False | y # ys' \<Rightarrow> py_eq x y \<and> list_eq xs ys')"
| "dict_sub [] e = True"
| "dict_sub ((k, x) # d) e = ((case map_of e k of None \<Rightarrow> False | Some y \<Rightarrow> py_eq x y) \<and> dict_sub d e)"

text \<open>A value a JSON parser can have built: its objects have distinct keys.\<close>

fun json_wf :: "py \<Rightarrow> bool" where
  "json_wf (PList xs) = (\<forall>x \<in> set xs. json_wf x)"
| "json_wf (PDict d) = (distinct (map fst d) \<and> (\<forall>(k, x) \<in> set d. json_wf x))"
| "json_wf _ = True"

section \<open>The size of the JSON text\<close>

text \<open>Strings are UTF-8 bytes (the length bounds on texts count characters in the source, so they
  are read for ASCII texts); only quotes, backslashes and control characters are escaped.\<close>

definition json_char_size :: "char \<Rightarrow> nat" where
  "json_char_size c =
     (let n = (of_char c :: nat)
      in if n = 34 \<or> n = 92 \<or> n \<in> {8, 9, 10, 12, 13} then 2 else if n < 32 then 6 else 1)"

definition json_str_size :: "string \<Rightarrow> nat" where
  "json_str_size s = 2 + sum_list (map json_char_size s)"

text \<open>Size of a container: brackets, one comma between the items, and the items.\<close>

definition bracketed :: "nat list \<Rightarrow> nat" where
  "bracketed ns = 2 + (length ns - 1) + sum_list ns"

fun json_size :: "(rat \<Rightarrow> string) \<Rightarrow> py \<Rightarrow> nat option" where
  "json_size ft PNone = Some 4"
| "json_size ft (PBool b) = Some (if b then 4 else 5)"
| "json_size ft (PInt i) = Some (length (dec_int i))"
| "json_size ft (PFloat f) = (case f of Fin r \<Rightarrow> Some (length (ft r)) | _ \<Rightarrow> None)"
| "json_size ft (PStr s) = Some (json_str_size s)"
| "json_size ft (PList xs) = map_option bracketed (those (map (json_size ft) xs))"
| "json_size ft (PDict d) =
     map_option bracketed
       (those (map (\<lambda>(k, v). map_option (\<lambda>n. json_str_size k + 1 + n) (json_size ft v)) d))"

section \<open>Reading the fields of an event\<close>

fun remove_all :: "string \<Rightarrow> string \<Rightarrow> string" where
  "remove_all p [] = []"
| "remove_all p (c # cs) =
     (if p \<noteq> [] \<and> prefix p (c # cs) then remove_all p (drop (length p - 1) cs)
      else c # remove_all p cs)"

definition hex_val :: "char \<Rightarrow> nat option" where
  "hex_val c =
     (let n = (of_char c :: nat)
      in if 48 \<le> n \<and> n \<le> 57 then Some (n - 48)
         else if 97 \<le> n \<and> n \<le> 102 then Some (n - 87)
         else if 65 \<le> n \<and> n \<le> 70 then Some (n - 55) else None)"

fun hex_digits :: "string \<Rightarrow> nat \<Rightarrow> bool \<Rightarrow> nat option" where
  "hex_digits [] acc prev = (if prev then Some acc else None)"
| "hex_digits (c # cs) acc prev =
     (if c = CHR ''_'' then (if prev then hex_digits cs acc False else None)
      else case hex_val c of None \<Rightarrow> None | Some d \<Rightarrow> hex_digits cs (acc * 16 + d) True)"

text \<open>\<open>int(s, 16)\<close>, with its optional sign and \<open>0x\<close> prefix.\<close>

definition parse_hex :: "string \<Rightarrow> int option" where
  "parse_hex s =
     (let (neg, body) = signed (py_strip s);
          prefixed = take 2 (map lower_char body) = ''0x'';
          rest = (if prefixed then drop 2 body else body);
          rest' = (if prefixed \<and> take 1 rest = ''_'' then drop 1 rest else rest)
      in map_option (\<lambda>n. if neg then - int n else int n) (hex_digits rest' 0 False))"

definition strip_braces :: "string \<Rightarrow> string" where
  "strip_braces s = (let p = (\<lambda>c. c \<in> {CHR ''{'', CHR ''}''}) in rev (dropWhile p (rev (dropWhile p s))))"

definition parse_uuid :: "string \<Rightarrow> nat option" where
  "parse_uuid s =
     (let h = filter (\<lambda>c. c \<noteq> CHR ''-'') (strip_braces (remove_all ''uuid:'' (remove_all ''urn:'' s)))
      in if length h \<noteq> 32 then None
         else case parse_hex h of None \<Rightarrow> None | Some i \<Rightarrow> if i < 0 then None else Some (nat i))"

definition event_type_char :: "char \<Rightarrow> bool" where
  "event_type_char c =
     (let n = (of_char c :: nat)
      in (97 \<le> n \<and> n \<le> 122) \<or> (48 \<le> n \<and> n \<le> 57) \<or> c \<in> {CHR ''_'', CHR ''.'', CHR ''-''})"

definition event_type_ok :: "string \<Rightarrow> bool" where
  "event_type_ok s =
     (case s of [] \<Rightarrow> False
      | c # cs \<Rightarrow> (let n = (of_char c :: nat) in 97 \<le> n \<and> n \<le> 122)
          \<and> length cs \<le> 127 \<and> list_all event_type_char cs)"

definition invalid :: "string \<Rightarrow> 'a res" where
  "invalid msg = Inl (ValidationError msg)"

definition positive_int :: "string \<Rightarrow> int option \<Rightarrow> py \<Rightarrow> int res" where
  "positive_int field maximum v =
     (case v of
        PBool b \<Rightarrow> invalid (field @ '' must be a positive integer'')
      | _ \<Rightarrow>
          (case py_int v of
             Inl e \<Rightarrow> if e \<in> {TypeError, ValueError} then invalid (field @ '' must be a positive integer'')
                      else Inl e
           | Inr i \<Rightarrow>
               if i < 1 \<or> (case maximum of None \<Rightarrow> False | Some m \<Rightarrow> i > m)
               then invalid (field @ '' is outside the allowed range'') else Inr i))"

definition optional_positive_int :: "string \<Rightarrow> py \<Rightarrow> int option res" where
  "optional_positive_int field v =
     (if v = PNone then Inr None else rbind (positive_int field None v) (\<lambda>i. Inr (Some i)))"

definition bounded_text :: "string \<Rightarrow> py \<Rightarrow> string res" where
  "bounded_text field v =
     (case v of PNone \<Rightarrow> Inr []
      | PStr s \<Rightarrow> if length s > 128 then invalid (field @ '' must be at most 128 characters'') else Inr s
      | _ \<Rightarrow> invalid (field @ '' must be at most 128 characters''))"

section \<open>Normalising one event\<close>

record trace_event =
  te_event_id :: nat
  te_sequence :: int
  te_attempt :: int
  te_type :: string
  te_timestamp :: int
  te_checkpoint :: string
  te_turn :: "int option"
  te_step :: "int option"
  te_call :: string
  te_parent_call :: string
  te_payload :: pydict

record trace_env =
  parse_dt :: "string \<Rightarrow> (int \<times> bool) option res"
  float_text :: "rat \<Rightarrow> string"
  repr_text :: "py \<Rightarrow> string"

definition MAX_BATCH_EVENTS :: nat where "MAX_BATCH_EVENTS = 100"
definition MAX_BATCH_BYTES :: nat where "MAX_BATCH_BYTES = 8 * 1024 * 1024"
definition MAX_EVENT_PAYLOAD_BYTES :: nat where "MAX_EVENT_PAYLOAD_BYTES = 2 * 1024 * 1024"

text \<open>\<open>f"events[{index}]..."\<close>\<close>

definition nth_event :: "nat \<Rightarrow> string \<Rightarrow> string" where
  "nth_event i msg = ''events['' @ dec_int (int i) @ '']'' @ msg"

definition event_timestamp :: "trace_env \<Rightarrow> nat \<Rightarrow> py \<Rightarrow> int res" where
  "event_timestamp te i v =
     (case v of
        PStr s \<Rightarrow>
          if length s > 64 then invalid (nth_event i ''.timestamp must be an ISO-8601 string'')
          else rbind (parse_dt te s)
                 (\<lambda>r. case r of Some (t, True) \<Rightarrow> Inr t
                   | _ \<Rightarrow> invalid (nth_event i ''.timestamp must include a timezone''))
      | _ \<Rightarrow> invalid (nth_event i ''.timestamp must be an ISO-8601 string''))"

definition event_payload :: "trace_env \<Rightarrow> nat \<Rightarrow> py \<Rightarrow> (pydict \<times> nat) res" where
  "event_payload te i v =
     (case v of
        PDict d \<Rightarrow>
          (case json_size (float_text te) (PDict d) of
             None \<Rightarrow> invalid (nth_event i ''.payload must contain JSON values'')
           | Some n \<Rightarrow> if n > MAX_EVENT_PAYLOAD_BYTES then invalid (nth_event i ''.payload exceeds the size limit'')
                       else Inr (d, n))
      | _ \<Rightarrow> invalid (nth_event i ''.payload must be an object''))"

definition event_kind :: "nat \<Rightarrow> py \<Rightarrow> string res" where
  "event_kind i v =
     (case v of PStr s \<Rightarrow> if event_type_ok s then Inr s else invalid (nth_event i ''.event_type is invalid'')
      | _ \<Rightarrow> invalid (nth_event i ''.event_type is invalid''))"

text \<open>One event with its index in the batch: the normalised row and the size of its payload.\<close>

definition normalize_event :: "trace_env \<Rightarrow> nat \<times> py \<Rightarrow> (trace_event \<times> nat) res" where
  "normalize_event te iv =
     (case iv of (i, PDict item) \<Rightarrow>
          (case parse_uuid (py_str (repr_text te) (dget item ''event_id'')) of
             None \<Rightarrow> invalid (nth_event i ''.event_id must be a UUID'')
           | Some eid \<Rightarrow>
             rbind (positive_int ''sequence'' None (dget item ''sequence''))
               (\<lambda>sq. rbind (positive_int ''attempt'' (Some 1000) (dget_default item ''attempt'' (PInt 1)))
               (\<lambda>att. rbind (event_kind i (dget item ''event_type''))
               (\<lambda>ty. rbind (event_timestamp te i (dget item ''timestamp''))
               (\<lambda>ts. rbind (event_payload te i (dget_default item ''payload'' (PDict [])))
               (\<lambda>(pl, n). rbind (bounded_text (nth_event i ''.checkpoint_id'') (dget item ''checkpoint_id''))
               (\<lambda>cp. rbind (optional_positive_int ''turn'' (dget item ''turn''))
               (\<lambda>tu. rbind (optional_positive_int ''step'' (dget item ''step''))
               (\<lambda>st. rbind (bounded_text (nth_event i ''.call_id'') (dget item ''call_id''))
               (\<lambda>ca. rbind (bounded_text (nth_event i ''.parent_call_id'') (dget item ''parent_call_id''))
               (\<lambda>pa. Inr (\<lparr>te_event_id = eid, te_sequence = sq, te_attempt = att, te_type = ty,
                           te_timestamp = ts, te_checkpoint = cp, te_turn = tu, te_step = st,
                           te_call = ca, te_parent_call = pa, te_payload = pl\<rparr>, n))))))))))))
      | (i, _) \<Rightarrow> invalid (nth_event i '' must be an object''))"

definition event_matches :: "trace_event \<Rightarrow> trace_event \<Rightarrow> bool" where
  "event_matches a b =
     (te_event_id a = te_event_id b \<and> te_sequence a = te_sequence b \<and> te_attempt a = te_attempt b
      \<and> te_type a = te_type b \<and> te_timestamp a = te_timestamp b \<and> te_checkpoint a = te_checkpoint b
      \<and> te_turn a = te_turn b \<and> te_step a = te_step b \<and> te_call a = te_call b
      \<and> te_parent_call a = te_parent_call b \<and> py_eq (PDict (te_payload a)) (PDict (te_payload b)))"

section \<open>Appending a batch\<close>

type_synonym trace_store = "nat \<Rightarrow> trace_event list"

text \<open>The row a dictionary built from the table holds under a key: the last one with it.\<close>

definition row_where :: "(trace_event \<Rightarrow> bool) \<Rightarrow> trace_event list \<Rightarrow> (nat \<times> trace_event) option" where
  "row_where p rows = (case filter (\<lambda>(i, e). p e) (enumerate 0 rows) of [] \<Rightarrow> None | xs \<Rightarrow> Some (last xs))"

definition last_persisted :: "trace_event list \<Rightarrow> int" where
  "last_persisted rows = fold max (map te_sequence rows) 0"

definition conflict :: "'a res" where
  "conflict = invalid ''event ID or sequence conflicts with persisted trajectory''"

text \<open>The loop over the batch: how many events are stored already, and the ones that are not.\<close>

fun split_batch :: "trace_event list \<Rightarrow> trace_event list \<Rightarrow> (nat \<times> trace_event list) res" where
  "split_batch rows [] = Inr (0, [])"
| "split_batch rows (x # xs) =
     (case (row_where (\<lambda>e. te_event_id e = te_event_id x) rows,
            row_where (\<lambda>e. te_sequence e = te_sequence x) rows) of
        (None, None) \<Rightarrow> rbind (split_batch rows xs) (\<lambda>(d, ps). Inr (d, x # ps))
      | (Some (i, a), Some (j, b)) \<Rightarrow>
          if i \<noteq> j \<or> \<not> event_matches a x then conflict
          else rbind (split_batch rows xs) (\<lambda>(d, ps). Inr (Suc d, ps))
      | _ \<Rightarrow> conflict)"

record append_result =
  inserted_count :: nat
  duplicate_count :: nat
  last_sequence :: int

definition checked_batch :: "trace_env \<Rightarrow> py \<Rightarrow> trace_event list res" where
  "checked_batch te events =
     (case events of
        PList (v # vs) \<Rightarrow>
          if length (v # vs) > MAX_BATCH_EVENTS then invalid ''events exceeds the batch size limit''
          else rbind (map_res (normalize_event te) (enumerate 0 (v # vs)))
            (\<lambda>ns. let items = map fst ns in
               if sum_list (map snd ns) > MAX_BATCH_BYTES then invalid ''events exceeds the batch byte limit''
               else if \<not> distinct (map te_sequence items) then invalid ''events contains duplicate sequences''
               else if \<not> distinct (map te_event_id items) then invalid ''events contains duplicate event IDs''
               else if \<not> sorted (map te_sequence items) then invalid ''events must be ordered by sequence''
               else Inr items)
      | _ \<Rightarrow> invalid ''events must be a non-empty list'')"

definition append_items :: "trace_event list \<Rightarrow> trace_event list \<Rightarrow> (append_result \<times> trace_event list) res" where
  "append_items rows items =
     rbind (split_batch rows items)
       (\<lambda>(d, pending).
          if map te_sequence pending
               \<noteq> [last_persisted rows + 1 .. last_persisted rows + int (length pending)]
          then invalid ''new events must continue the persisted sequence cursor''
          else Inr (\<lparr>inserted_count = length pending, duplicate_count = d,
                     last_sequence = fold max (map te_sequence items) 0\<rparr>, rows @ pending))"

definition append_run_trace_events ::
  "trace_env \<Rightarrow> nat \<Rightarrow> nat \<Rightarrow> py \<Rightarrow> db \<Rightarrow> trace_store \<Rightarrow> (append_result \<times> trace_store) res" where
  "append_run_trace_events te k n events db st =
     rbind (checked_batch te events)
       (\<lambda>items.
          case runs db k of
            None \<Rightarrow> invalid ''run does not exist''
          | Some r \<Rightarrow>
              if run_node r \<noteq> Some n then invalid ''run is not assigned to this LensNode''
              else rbind (append_items (st k) items) (\<lambda>(res, rows). Inr (res, st(k := rows))))"

text \<open>
  The consumer's handler: a validation error becomes a bad-frame answer, an accepted batch an
  acknowledgement; any other exception escapes it.
\<close>

datatype trace_reply = BadFrame string | TraceAck nat append_result

definition handle_run_trace_events ::
  "trace_env \<Rightarrow> nat option \<Rightarrow> nat \<Rightarrow> py \<Rightarrow> db \<Rightarrow> trace_store \<Rightarrow> (trace_reply \<times> trace_store) res" where
  "handle_run_trace_events te ko n events db st =
     (case ko of
        None \<Rightarrow> Inr (BadFrame ''run_uuid is invalid'', st)
      | Some k \<Rightarrow>
          (case append_run_trace_events te k n events db st of
             Inl (ValidationError msg) \<Rightarrow> Inr (BadFrame msg, st)
           | Inl e \<Rightarrow> Inl e
           | Inr (res, st') \<Rightarrow> Inr (TraceAck k res, st')))"

end
