(* ===== verification/Alert_Rules.thy ===== *)
theory Alert_Rules
  imports Tool_Errors Run_Trace
begin

text \<open>
  Business alerts: rules, subscriptions and what matches them
  (\<open>backend/lens/alerts.py\<close>, \<open>_matched_events\<close> to \<open>subscription_destination\<close>; the rows of
  \<open>models.py\<close>). The rules an operator manages, their subscriptions, the users and channels they
  name are one record, \<open>alert_config\<close>, because administrators change it at any time; its lists are
  in the order of the queries that read them. A row is found by its identifier, and one that is
  gone reads as none.
\<close>

section \<open>Configuration\<close>

record alert_rule =
  rl_id :: nat
  rl_created :: int
  rl_enabled :: bool
  rl_subject :: string
  rl_topic :: string
  rl_mode :: string
  rl_name :: string
  rl_events :: "string list"
  rl_token_threshold :: "nat option"
  rl_rounds_threshold :: "nat option"
  rl_duration_threshold :: "nat option"
  rl_cooldown :: nat
  rl_personal_enabled :: bool
  rl_personal_channel :: "string option"
  rl_diag_mode :: string
  rl_diag_timeout :: nat
  rl_diag_tokens :: nat
  rl_channel :: "string option"
  rl_recipients :: "string list"
  rl_assistants :: "string list"
  rl_datasources :: "string list"
  rl_lensnodes :: "string list"

record alert_user =
  us_id :: nat
  us_active :: bool
  us_email :: string
  us_language :: "string option"
  us_groups :: "nat list"
  us_visible :: "string list"

record alert_sub =
  sb_id :: nat
  sb_rule :: nat
  sb_name :: string
  sb_enabled :: bool
  sb_channel :: "string option"
  sb_emails :: "string list"
  sb_users :: "nat list"
  sb_groups :: "nat list"
  sb_language :: string
  sb_personal :: bool
  sb_user :: "nat option"

record alert_channel =
  ch_uuid :: string
  ch_type :: string
  ch_name :: string
  ch_active :: bool

record alert_config =
  cf_rules :: "alert_rule list"
  cf_subs :: "alert_sub list"
  cf_users :: "alert_user list"
  cf_channels :: "alert_channel list"

definition find_rule :: "alert_config \<Rightarrow> nat \<Rightarrow> alert_rule option" where
  "find_rule cf i = find (\<lambda>r. rl_id r = i) (cf_rules cf)"

definition find_sub :: "alert_config \<Rightarrow> nat \<Rightarrow> alert_sub option" where
  "find_sub cf i = find (\<lambda>r. sb_id r = i) (cf_subs cf)"

definition find_user :: "alert_config \<Rightarrow> nat \<Rightarrow> alert_user option" where
  "find_user cf i = find (\<lambda>r. us_id r = i) (cf_users cf)"

definition find_channel :: "alert_config \<Rightarrow> string \<Rightarrow> alert_channel option" where
  "find_channel cf c = find (\<lambda>r. ch_uuid r = c) (cf_channels cf)"

section \<open>Which events a rule sees\<close>

text \<open>
  The run an occurrence is about, when its row still exists: the tokens metered for it and its
  descendants and the last turn of its trace.
\<close>

record run_facts =
  rf_tokens :: int
  rf_rounds :: int

definition RUNNING_EVENTS :: "string list" where
  "RUNNING_EVENTS = [''token_exceeded'', ''rounds_exceeded'', ''run_slow'']"

definition SUBJECT_EVENTS :: "string \<Rightarrow> string list" where
  "SUBJECT_EVENTS s =
     (if s = ''message'' then [''message_published'']
      else if s = ''run'' then [''run_failed'', ''run_partial'', ''run_timeout'', ''run_token_limit'', ''run_round_limit'']
        @ RUNNING_EVENTS
      else if s = ''sync'' then [''sync_failed'', ''sync_partial'', ''sync_timeout'']
      else if s = ''processing'' then [''processing_failed'', ''processing_partial'', ''processing_timeout'']
      else [])"

fun not_hashable :: "py \<Rightarrow> bool" where
  "not_hashable (PList _) = True"
| "not_hashable (PDict _) = True"
| "not_hashable _ = False"

text \<open>\<open>set((payload.get("termination") or {}).values())\<close>\<close>

definition alert_reasons :: "pydict \<Rightarrow> py list res" where
  "alert_reasons payload =
     (case py_or (dget payload ''termination'') (PDict []) of
        PDict d \<Rightarrow> if list_ex not_hashable (map snd d) then Inl TypeError else Inr (map snd d)
      | _ \<Rightarrow> Inl AttributeError)"

definition has_reason :: "py list \<Rightarrow> string list \<Rightarrow> bool" where
  "has_reason reasons S = list_ex (\<lambda>s. PStr s \<in> set reasons) S"

text \<open>\<open>v > n\<close> for an integer \<open>n\<close>\<close>

fun exceeds :: "py \<Rightarrow> int \<Rightarrow> bool res" where
  "exceeds (PInt i) n = Inr (i > n)"
| "exceeds (PBool b) n = Inr ((if b then 1 else 0) > n)"
| "exceeds (PFloat (Fin r)) n = Inr (r > of_int n)"
| "exceeds (PFloat PosInf) n = Inr True"
| "exceeds (PFloat _) n = Inr False"
| "exceeds _ n = Inl TypeError"

definition over_threshold :: "nat option \<Rightarrow> py \<Rightarrow> bool res" where
  "over_threshold t v =
     (case t of None \<Rightarrow> Inr False | Some n \<Rightarrow> if n = 0 then Inr False else exceeds v (int n))"

definition alert_code :: "(py \<Rightarrow> string) \<Rightarrow> pydict \<Rightarrow> string" where
  "alert_code repr payload =
     upper (py_str repr (dget_default payload ''error'' (PStr [])) @ '' ''
       @ py_str repr (dget_default payload ''completion_reason'' (PStr [])))"

definition set_missing :: "string \<Rightarrow> py \<Rightarrow> pydict \<Rightarrow> pydict" where
  "set_missing k v d = (if map_of d k = None then d @ [(k, v)] else d)"

text \<open>The part that measures usage: only for a rule that asks, and once for an occurrence.\<close>

definition measured :: "alert_rule \<Rightarrow> run_facts option \<Rightarrow> bool" where
  "measured rule run \<longleftrightarrow>
     run \<noteq> None \<and> (''token_exceeded'' \<in> set (rl_events rule) \<or> ''rounds_exceeded'' \<in> set (rl_events rule))"

definition measure_usage :: "alert_rule \<Rightarrow> run_facts option \<Rightarrow> pydict \<Rightarrow> pydict" where
  "measure_usage rule run payload =
     (case run of
        Some f \<Rightarrow> if measured rule run
                   then set_missing ''rounds'' (PInt (rf_rounds f)) (set_missing ''total_tokens'' (PInt (rf_tokens f)) payload)
                   else payload
      | None \<Rightarrow> payload)"

definition usage_events :: "alert_rule \<Rightarrow> run_facts option \<Rightarrow> pydict \<Rightarrow> string list res" where
  "usage_events rule run payload =
     (if measured rule run
      then rbind (over_threshold (rl_token_threshold rule) (dget payload ''total_tokens'')) (\<lambda>t.
           rbind (over_threshold (rl_rounds_threshold rule) (dget payload ''rounds'')) (\<lambda>r.
             Inr ((if t then [''token_exceeded''] else []) @ (if r then [''rounds_exceeded''] else []))))
      else Inr [])"

definition outcome_events :: "string \<Rightarrow> bool \<Rightarrow> bool \<Rightarrow> py list \<Rightarrow> pydict \<Rightarrow> string list" where
  "outcome_events subject failed timeout reasons payload =
     (if timeout then [subject @ ''_timeout''] else [])
     @ (if subject = ''run''
        then (if has_reason reasons [''token_budget'', ''token_capped'', ''token_budget_wrapup''] then [''run_token_limit''] else [])
          @ (if has_reason reasons [''turn_limit'', ''step_limit''] then [''run_round_limit''] else [])
          @ (if dget payload ''outcome'' = PStr ''partial'' then [''run_partial''] else [])
        else if truthy (dget payload ''partial_success'') \<and> \<not> failed then [subject @ ''_partial''] else [])
     @ (if failed then [subject @ ''_failed''] else [])"

text \<open>The events in order of priority, and the payload with the usage measured.\<close>

definition matched_events ::
    "(py \<Rightarrow> string) \<Rightarrow> alert_rule \<Rightarrow> run_facts option \<Rightarrow> pydict \<Rightarrow> (string list \<times> pydict) res" where
  "matched_events repr rule run payload =
     (if rl_subject rule = ''message''
      then Inr (if dget payload ''topic'' = PStr (rl_topic rule) then [''message_published''] else [], payload)
      else rbind (alert_reasons payload) (\<lambda>reasons.
        let status = map lower_char (text_or_empty repr (dget payload ''status''));
            failed = (status \<in> {''failed'', ''failure''});
            cancelled = (status \<in> {''cancelled'', ''revoked''});
            timeout = (contains_text ''TIMEOUT'' (alert_code repr payload) \<or> has_reason reasons [''soft_deadline'']
                       \<or> truthy (dget payload ''timed_out''))
        in if cancelled \<and> \<not> timeout then Inr ([], payload)
           else let payload' = measure_usage rule run payload
             in rbind (usage_events rule run payload') (\<lambda>usage.
                rbind (over_threshold (rl_duration_threshold rule) (dget_default payload' ''duration_seconds'' (PInt 0)))
                  (\<lambda>slow. Inr (filter (\<lambda>e. e \<in> set (rl_events rule))
                       (outcome_events (rl_subject rule) failed timeout reasons payload @ usage
                        @ (if slow then [''run_slow''] else [])), payload')))))"

fun scopes_ok :: "(string list \<times> py) list \<Rightarrow> bool res" where
  "scopes_ok [] = Inr True"
| "scopes_ok ((targets, v) # xs) =
     (if targets = [] then scopes_ok xs
      else rbind (in_texts v (set targets)) (\<lambda>b. if b then scopes_ok xs else Inr False))"

definition rule_matches_scope :: "alert_rule \<Rightarrow> pydict \<Rightarrow> bool res" where
  "rule_matches_scope rule payload =
     scopes_ok [(rl_assistants rule, dget payload ''assistant_uuid''),
                (rl_datasources rule, dget payload ''datasource_uuid''),
                (rl_lensnodes rule, dget payload ''lensnode_uuid'')]"

section \<open>Who is told, and where\<close>

text \<open>
  \<open>us_visible\<close> are the active assistants a user may see. Without an occurrence (\<open>None\<close>) the check
  is the one of the list of rules a user may subscribe to.
\<close>

definition personal_subscription_allowed :: "alert_config \<Rightarrow> alert_sub \<Rightarrow> pydict option \<Rightarrow> bool" where
  "personal_subscription_allowed cf sub payload =
     (case (Option.bind (sb_user sub) (find_user cf), find_rule cf (sb_rule sub)) of
        (Some u, Some rule) \<Rightarrow>
          us_active u \<and> us_email u \<noteq> [] \<and> rl_subject rule \<in> {''run'', ''message''} \<and> rl_personal_enabled rule
          \<and> (rl_subject rule = ''message''
             \<or> (case payload of
                  Some d \<Rightarrow> py_eq (dget d ''user_id'') (PInt (int (us_id u)))
                              \<and> list_ex (\<lambda>a. dget d ''assistant_uuid'' = PStr a) (us_visible u)
                | None \<Rightarrow> rl_assistants rule = [] \<or> list_ex (\<lambda>a. a \<in> set (us_visible u)) (rl_assistants rule)))
      | _ \<Rightarrow> False)"

text \<open>\<open>accounts.models.normalize_answer_language\<close>\<close>

definition normalize_answer_language :: "string option \<Rightarrow> string" where
  "normalize_answer_language v =
     (let norm = map (\<lambda>c. lower_char (if c = CHR ''_'' then CHR ''-'' else c))
                   (py_strip (case v of None \<Rightarrow> [] | Some s \<Rightarrow> s));
          pre = takeWhile (\<lambda>c. c \<noteq> CHR ''-'') norm
      in if pre = ''zh'' then ''zh-CN'' else if pre = ''es'' then ''es'' else ''en-US'')"

definition notification_language :: "alert_config \<Rightarrow> alert_sub \<Rightarrow> string" where
  "notification_language cf sub =
     normalize_answer_language
       (if sb_personal sub
        then (case Option.bind (sb_user sub) (find_user cf) of None \<Rightarrow> None | Some u \<Rightarrow> us_language u)
        else Some (sb_language sub))"

record destination =
  ds_policy :: "string \<times> (nat \<times> nat) option"
  ds_language :: string
  ds_name :: string
  ds_channel :: string
  ds_type :: string
  ds_recipients :: "string list"
  ds_duplicate :: "nat option"

definition group_members :: "alert_config \<Rightarrow> alert_sub \<Rightarrow> string list" where
  "group_members cf sub =
     map us_email (filter (\<lambda>u. us_active u \<and> us_email u \<noteq> []
         \<and> (us_id u \<in> set (sb_users sub) \<or> list_ex (\<lambda>g. g \<in> set (sb_groups sub)) (us_groups u))) (cf_users cf))"

definition destination_emails :: "alert_config \<Rightarrow> alert_sub \<Rightarrow> string set res" where
  "destination_emails cf sub =
     (if sb_personal sub
      then (case Option.bind (sb_user sub) (find_user cf) of None \<Rightarrow> Inl AttributeError | Some u \<Rightarrow> Inr {us_email u})
      else Inr (set (sb_emails sub) \<union> set (group_members cf sub)))"

definition subscription_destination :: "alert_config \<Rightarrow> alert_sub \<Rightarrow> destination res" where
  "subscription_destination cf sub =
     (case find_rule cf (sb_rule sub) of
        None \<Rightarrow> Inl DoesNotExist
      | Some rule \<Rightarrow>
          let uuid = (if sb_personal sub then rl_personal_channel rule else sb_channel sub);
              channel = Option.bind uuid (find_channel cf)
          in rbind (destination_emails cf sub) (\<lambda>emails. Inr
               \<lparr>ds_policy = (rl_diag_mode rule,
                  if rl_diag_mode rule = ''direct'' then None else Some (rl_diag_tokens rule, rl_diag_timeout rule)),
                ds_language = notification_language cf sub,
                ds_name = (if sb_name sub \<noteq> [] then sb_name sub else case channel of Some c \<Rightarrow> ch_name c | None \<Rightarrow> []),
                ds_channel = (case uuid of Some c \<Rightarrow> c | None \<Rightarrow> []),
                ds_type = (case channel of Some c \<Rightarrow> ch_type c | None \<Rightarrow> []),
                ds_recipients = (case channel of Some c \<Rightarrow> if ch_type c = ''email'' then sorted_list_of_set emails else []
                                 | None \<Rightarrow> []),
                ds_duplicate = None\<rparr>))"

end
