(* ===== verification/Alert_Delivery.thy ===== *)
theory Alert_Delivery
  imports Alert_Rules
begin

text \<open>
  The durable alert pipeline (\<open>backend/lens/alerts.py\<close>, \<open>alert_diagnostics.py\<close>, the publication of
  \<open>messages.py\<close>, the dispatcher of \<open>tasks.py\<close>, the retry of \<open>views/alerts.py\<close>): occurrences in an
  outbox, events matched from them, one delivery per destination with a claim lease, and shared
  diagnoses with a deadline. A row is addressed by its position; nothing here deletes one.
  \<open>send_alert_delivery\<close> holds no lock while it talks to the provider, so it is four steps of a
  \<open>job\<close>: the claim, the check of the live subscription, the reply of the provider, and the
  final update, which counts only under the job's own claim token (its position in \<open>jobs\<close>). A
  worker that dies takes no further step. Work published on commit is counted in \<open>wakes\<close>. Texts
  of notifications are not modelled; SHA-256 of JSON is the parameter \<open>identity_digest\<close> on the identity.
\<close>

section \<open>State\<close>

datatype delivery_status = DELIVERY_PENDING | DELIVERY_DIAGNOSING | DELIVERY_SENDING | DELIVERY_SENT
  | DELIVERY_FAILED | DELIVERY_SKIPPED | DELIVERY_SUPPRESSED

datatype diagnosis_status = DIAGNOSIS_PENDING | DIAGNOSIS_RUNNING | DIAGNOSIS_COMPLETED | DIAGNOSIS_FAILED
  | DIAGNOSIS_TIMED_OUT

datatype event_status = EVENT_DISPATCHED | EVENT_PENDING | EVENT_SENT | EVENT_PARTIAL | EVENT_SKIPPED | EVENT_FAILED

record occurrence =
  oc_key :: string
  oc_subject :: string
  oc_source :: string
  oc_payload :: pydict
  oc_processed :: "int option"
  oc_created :: int

record alert_event =
  ae_rule :: nat
  ae_key :: "string option"
  ae_subject :: string
  ae_source :: string
  ae_run :: "string option"
  ae_type :: string
  ae_status :: event_status
  ae_mode :: string
  ae_detail :: pydict

record diagnosis =
  dg_key :: string
  dg_source_key :: string
  dg_subject :: string
  dg_source :: string
  dg_language :: string
  dg_tokens :: nat
  dg_timeout :: nat
  dg_status :: diagnosis_status
  dg_deadline :: int
  dg_dispatched :: "int option"
  dg_finished :: "int option"
  dg_error :: string

record delivery =
  dl_event :: nat
  dl_sub :: nat
  dl_diag :: "nat option"
  dl_phase :: string
  dl_key :: "string option"
  dl_dest :: destination
  dl_status :: delivery_status
  dl_attempts :: nat
  dl_next :: int
  dl_claimed :: "int option"
  dl_token :: "nat option"
  dl_sent :: "int option"
  dl_error :: string
  dl_created :: int

datatype job_result = NotSent string | Accepted | Rejected

datatype job_stage =
    Claimed
  | Ready delivery "string list"
  | Answered delivery job_result
  | Closed

record job =
  jb_delivery :: nat
  jb_stage :: job_stage

record sent_message =
  sm_delivery :: nat
  sm_channel :: string
  sm_recipients :: "string list"
  sm_result :: job_result

record alerts =
  config :: alert_config
  occurrences :: "occurrence list"
  alert_events :: "alert_event list"
  deliveries :: "delivery list"
  diagnoses :: "diagnosis list"
  jobs :: "job list"
  sent_messages :: "sent_message list"
  dispatched :: "nat list"
  wakes :: nat

type_synonym identity =
  "string option \<times> string \<times> string list \<times> string \<times> string \<times> string \<times> (nat \<times> nat) option"

record alert_env =
  al_repr :: "py \<Rightarrow> string"
  al_datetime :: "string \<Rightarrow> int option res"
  identity_digest :: "identity \<Rightarrow> string"
  diagnosis_digest :: "string \<times> string \<times> nat \<times> nat \<Rightarrow> string"
  message_digest :: "string \<times> string \<Rightarrow> string"
  al_iso :: "int \<Rightarrow> string"

definition positions :: "('a \<Rightarrow> bool) \<Rightarrow> 'a list \<Rightarrow> nat list" where
  "positions P xs = filter (\<lambda>i. P (xs ! i)) [0..<length xs]"

definition upd_at :: "nat \<Rightarrow> ('a \<Rightarrow> 'a) \<Rightarrow> 'a list \<Rightarrow> 'a list" where
  "upd_at i f xs = (if i < length xs then xs[i := f (xs ! i)] else xs)"

definition nth_opt :: "'a list \<Rightarrow> nat \<Rightarrow> 'a option" where
  "nth_opt xs i = (if i < length xs then Some (xs ! i) else None)"

abbreviation minute :: int where "minute \<equiv> 60000000"

section \<open>The outbox\<close>

definition wake_dispatcher :: "alerts \<Rightarrow> alerts" where
  "wake_dispatcher s = s\<lparr>wakes := wakes s + 1\<rparr>"

text \<open>\<open>f"{subject}:{source_uuid}:{phase}"\<close>\<close>

definition source_key :: "string \<Rightarrow> string \<Rightarrow> string \<Rightarrow> string" where
  "source_key subject source phase = subject @ '':'' @ source @ '':'' @ phase"

definition find_occurrence :: "alerts \<Rightarrow> string \<Rightarrow> nat option" where
  "find_occurrence s key = (case positions (\<lambda>x. oc_key x = key) (occurrences s) of [] \<Rightarrow> None | i # _ \<Rightarrow> Some i)"

definition enqueue_occurrence :: "string \<Rightarrow> string \<Rightarrow> pydict \<Rightarrow> string \<Rightarrow> int \<Rightarrow> alerts \<Rightarrow> alerts" where
  "enqueue_occurrence subject source payload phase now s =
     (let key = source_key subject source phase in
      case find_occurrence s key of
        None \<Rightarrow>
          let s' = s\<lparr>occurrences := occurrences s @ [\<lparr>oc_key = key, oc_subject = subject, oc_source = source,
                     oc_payload = payload, oc_processed = None, oc_created = now\<rparr>]\<rparr>
          in if phase = ''terminal'' then wake_dispatcher s' else s'
      | Some i \<Rightarrow>
          let old = occurrences s ! i;
              row = (if py_eq (PDict (oc_payload old)) (PDict payload) then old
                     else old\<lparr>oc_payload := payload, oc_processed := None\<rparr>);
              s' = s\<lparr>occurrences := (occurrences s)[i := row]\<rparr>
          in if phase = ''terminal'' \<and> oc_processed row = None then wake_dispatcher s' else s')"

definition publication_content :: "string \<Rightarrow> string \<Rightarrow> string \<Rightarrow> string \<Rightarrow> py \<Rightarrow> pydict" where
  "publication_content topic key title body translations =
     [(''topic'', PStr topic), (''idempotency_key'', PStr key), (''title'', PStr title), (''body'', PStr body)]
     @ (if truthy translations then [(''translations'', translations)] else [])"

text \<open>\<open>PublicationConflict\<close> is a \<open>ValueError\<close>; the publisher is its key and name.\<close>

definition publish_message ::
    "alert_env \<Rightarrow> string \<Rightarrow> string \<Rightarrow> string \<Rightarrow> string \<Rightarrow> py \<Rightarrow> int \<times> string \<Rightarrow> int \<Rightarrow> alerts \<Rightarrow> (alerts \<times> bool) res" where
  "publish_message en topic key title body translations publisher now s =
     (let source = message_digest en (topic, key);
          okey = source_key ''message'' source ''terminal'';
          content = publication_content topic key title body translations;
          (i, created, s') = (case find_occurrence s okey of
             Some i \<Rightarrow> (i, False, s)
           | None \<Rightarrow> (length (occurrences s), True,
               s\<lparr>occurrences := occurrences s @ [\<lparr>oc_key = okey, oc_subject = ''message'', oc_source = source,
                  oc_payload = content @ [(''occurred_at'', PStr (al_iso en now)), (''publisher_id'', PInt (fst publisher)),
                    (''publisher_name'', PStr (snd publisher))],
                  oc_processed = None, oc_created = now\<rparr>]\<rparr>));
          row = occurrences s' ! i
      in if list_ex (\<lambda>(k, v). \<not> py_eq (dget (oc_payload row) k) v) content
            \<or> \<not> py_eq (py_or (dget (oc_payload row) ''translations'') (PDict [])) (py_or translations (PDict []))
         then Inl ValueError
         else Inr (if created \<or> oc_processed row = None then wake_dispatcher s' else s', created))"

section \<open>Evaluating an occurrence\<close>

definition statuses :: "alerts \<Rightarrow> nat \<Rightarrow> delivery_status set" where
  "statuses s e = dl_status ` set (filter (\<lambda>d. dl_event d = e) (deliveries s))"

definition event_summary :: "delivery_status set \<Rightarrow> event_status" where
  "event_summary S =
     (if DELIVERY_PENDING \<in> S \<or> DELIVERY_SENDING \<in> S \<or> DELIVERY_DIAGNOSING \<in> S then EVENT_PENDING
      else if S = {DELIVERY_SENT} then EVENT_SENT
      else if DELIVERY_SENT \<in> S then EVENT_PARTIAL
      else if DELIVERY_FAILED \<in> S then EVENT_FAILED
      else EVENT_SKIPPED)"

definition refresh_event_status :: "nat \<Rightarrow> alerts \<Rightarrow> alerts" where
  "refresh_event_status e s =
     s\<lparr>alert_events := upd_at e (\<lambda>ev. ev\<lparr>ae_status := event_summary (statuses s e)\<rparr>) (alert_events s)\<rparr>"

definition casefold_emails :: "string list \<Rightarrow> string list" where
  "casefold_emails es = sorted_list_of_set (set (map (map lower_char) es))"

definition delivery_identity :: "alert_env \<Rightarrow> string option \<Rightarrow> destination \<Rightarrow> string \<Rightarrow> string" where
  "delivery_identity en key d phase =
     identity_digest en (key, ds_channel d, casefold_emails (ds_recipients d), ds_language d, phase,
                fst (ds_policy d), snd (ds_policy d))"

definition find_key :: "alerts \<Rightarrow> string \<Rightarrow> nat option" where
  "find_key s key = (case positions (\<lambda>d. dl_key d = Some key) (deliveries s) of [] \<Rightarrow> None | i # _ \<Rightarrow> Some i)"

definition find_diagnosis :: "alerts \<Rightarrow> string \<Rightarrow> nat option" where
  "find_diagnosis s key = (case positions (\<lambda>d. dg_key d = key) (diagnoses s) of [] \<Rightarrow> None | i # _ \<Rightarrow> Some i)"

definition new_delivery :: "nat \<Rightarrow> nat \<Rightarrow> string \<Rightarrow> destination \<Rightarrow> delivery_status \<Rightarrow> int \<Rightarrow> delivery" where
  "new_delivery e sub phase dest status now =
     \<lparr>dl_event = e, dl_sub = sub, dl_diag = None, dl_phase = phase, dl_key = None, dl_dest = dest,
      dl_status = status, dl_attempts = 0, dl_next = now, dl_claimed = None, dl_token = None, dl_sent = None,
      dl_error = [], dl_created = now\<rparr>"

text \<open>\<open>AlertDiagnosis.objects.get_or_create\<close>\<close>

definition shared_diagnosis :: "alert_env \<Rightarrow> alert_rule \<Rightarrow> string \<Rightarrow> int \<Rightarrow> delivery \<Rightarrow> alerts \<Rightarrow> nat \<times> alerts" where
  "shared_diagnosis en rule skey now d s =
     (let lang = ds_language (dl_dest d);
          key = diagnosis_digest en (skey, lang, rl_diag_tokens rule, rl_diag_timeout rule)
      in case find_diagnosis s key of
           Some g \<Rightarrow> (g, s)
         | None \<Rightarrow> (length (diagnoses s), s\<lparr>diagnoses := diagnoses s @
             [\<lparr>dg_key = key, dg_source_key = skey, dg_subject = ae_subject (alert_events s ! dl_event d),
               dg_source = ae_source (alert_events s ! dl_event d), dg_language = lang,
               dg_tokens = rl_diag_tokens rule, dg_timeout = rl_diag_timeout rule, dg_status = DIAGNOSIS_PENDING,
               dg_deadline = now + int (rl_diag_timeout rule) * 1000000, dg_dispatched = None,
               dg_finished = None, dg_error = []\<rparr>]\<rparr>))"

definition attach_diagnosis :: "alert_env \<Rightarrow> alert_rule \<Rightarrow> string \<Rightarrow> int \<Rightarrow> nat \<Rightarrow> alerts \<Rightarrow> alerts" where
  "attach_diagnosis en rule skey now i s =
     (if rl_diag_mode rule = ''direct'' \<or> dl_status (deliveries s ! i) \<noteq> DELIVERY_PENDING then s
      else
        let d = deliveries s ! i; (g, s') = shared_diagnosis en rule skey now d s
        in s'\<lparr>deliveries := (deliveries s')[i := d\<lparr>dl_diag := Some g,
             dl_status := (if rl_diag_mode rule = ''diagnose_first'' then DELIVERY_DIAGNOSING else DELIVERY_PENDING)\<rparr>]\<rparr>)"

text \<open>A scheduled operation that fails again within the rule's cooldown is not reported again.\<close>

definition cooling_down :: "alert_rule \<Rightarrow> alert_sub \<Rightarrow> pydict \<Rightarrow> int \<Rightarrow> alerts \<Rightarrow> bool" where
  "cooling_down rule sub payload now s \<longleftrightarrow>
     rl_cooldown rule \<noteq> 0 \<and> dget payload ''trigger'' = PStr ''scheduled'' \<and> truthy (dget payload ''datasource_uuid'')
     \<and> list_ex (\<lambda>d. dl_sub d = sb_id sub
          \<and> py_eq (dget (ae_detail (alert_events s ! dl_event d)) ''datasource_uuid'') (dget payload ''datasource_uuid'')
          \<and> dl_status d \<in> {DELIVERY_PENDING, DELIVERY_DIAGNOSING, DELIVERY_SENDING, DELIVERY_SENT}
          \<and> dl_created d \<ge> now - int (rl_cooldown rule) * 1000000) (deliveries s)"

definition add_delivery :: "alert_env \<Rightarrow> alert_rule \<Rightarrow> string \<Rightarrow> nat \<Rightarrow> alert_sub \<Rightarrow> destination \<Rightarrow> bool \<Rightarrow> int \<Rightarrow> alerts \<Rightarrow> alerts" where
  "add_delivery en rule skey e sub dest cooling now s =
     (if cooling
      then s\<lparr>deliveries := deliveries s @ [new_delivery e (sb_id sub) ''initial'' dest DELIVERY_SUPPRESSED now]\<rparr>
      else
        let key = delivery_identity en (Some skey) dest ''initial'' in
        case find_key s key of
          None \<Rightarrow> attach_diagnosis en rule skey now (length (deliveries s))
            (s\<lparr>deliveries := deliveries s @
               [(new_delivery e (sb_id sub) ''initial'' dest DELIVERY_PENDING now)\<lparr>dl_key := Some key\<rparr>]\<rparr>)
        | Some i \<Rightarrow> s\<lparr>deliveries := deliveries s @
            [(new_delivery e (sb_id sub) ''initial'' (dest\<lparr>ds_duplicate := Some i\<rparr>) DELIVERY_SUPPRESSED now)
               \<lparr>dl_error := ''Duplicate destination for this occurrence''\<rparr>]\<rparr>)"

fun add_deliveries ::
    "alert_env \<Rightarrow> alert_rule \<Rightarrow> string \<Rightarrow> nat \<Rightarrow> pydict \<Rightarrow> int \<Rightarrow> alert_sub list \<Rightarrow> alerts \<Rightarrow> alerts res" where
  "add_deliveries en rule skey e payload now [] s = Inr s"
| "add_deliveries en rule skey e payload now (sub # subs) s =
     (if sb_personal sub \<and> \<not> personal_subscription_allowed (config s) sub (Some payload)
      then add_deliveries en rule skey e payload now subs s
      else rbind (subscription_destination (config s) sub) (\<lambda>dest.
        add_deliveries en rule skey e payload now subs
          (add_delivery en rule skey e sub dest (cooling_down rule sub payload now s) now s)))"

definition legacy_destination :: "alert_rule \<Rightarrow> alerts \<Rightarrow> alerts" where
  "legacy_destination rule s =
     (if rl_channel rule \<noteq> None
         \<and> \<not> list_ex (\<lambda>b. sb_rule b = rl_id rule \<and> \<not> sb_personal b) (cf_subs (config s))
      then s\<lparr>config := (config s)\<lparr>cf_subs := cf_subs (config s) @
             [\<lparr>sb_id = Suc (fold max (map sb_id (cf_subs (config s))) 0), sb_rule = rl_id rule,
               sb_name = ''Legacy destination'', sb_enabled = True, sb_channel = rl_channel rule,
               sb_emails = rl_recipients rule, sb_users = [], sb_groups = [], sb_language = ''en-US'',
               sb_personal = False, sb_user = None\<rparr>]\<rparr>\<rparr>
      else s)"

definition nat_or_null :: "nat option \<Rightarrow> py" where
  "nat_or_null n = (case n of None \<Rightarrow> PNone | Some k \<Rightarrow> PInt (int k))"

definition event_detail :: "alert_rule \<Rightarrow> string list \<Rightarrow> pydict \<Rightarrow> pydict" where
  "event_detail rule matched payload =
     AList.update ''duration_threshold'' (nat_or_null (rl_duration_threshold rule))
      (AList.update ''rounds_threshold'' (nat_or_null (rl_rounds_threshold rule))
        (AList.update ''token_threshold'' (nat_or_null (rl_token_threshold rule))
          (AList.update ''matched_events'' (PList (map PStr matched)) payload)))"

definition create_event ::
    "alert_env \<Rightarrow> alert_rule \<Rightarrow> string \<Rightarrow> occurrence \<Rightarrow> run_facts option \<Rightarrow> string list \<Rightarrow> pydict \<Rightarrow> int \<Rightarrow> alerts \<Rightarrow> alerts res" where
  "create_event en rule skey occ run matched payload now s =
     (let e = length (alert_events s);
          s1 = legacy_destination rule (s\<lparr>alert_events := alert_events s @
            [\<lparr>ae_rule = rl_id rule, ae_key = Some skey, ae_subject = rl_subject rule, ae_source = oc_source occ,
              ae_run = (if run = None then None else Some (oc_source occ)), ae_type = hd matched,
              ae_status = EVENT_PENDING, ae_mode = rl_diag_mode rule, ae_detail = event_detail rule matched payload\<rparr>]\<rparr>)
      in rbind (add_deliveries en rule skey e payload now
                 (filter (\<lambda>b. sb_rule b = rl_id rule \<and> sb_enabled b) (cf_subs (config s1))) s1)
           (\<lambda>s2. Inr (refresh_event_status e s2)))"

text \<open>One rule; the payload it leaves is what the next rule reads.\<close>

definition evaluate_rule ::
    "alert_env \<Rightarrow> alert_rule \<Rightarrow> occurrence \<Rightarrow> run_facts option \<Rightarrow> bool \<Rightarrow> int \<Rightarrow> pydict \<times> alerts \<Rightarrow> (pydict \<times> alerts) res" where
  "evaluate_rule en rule occ run running now ps =
     (let (payload, s) = ps in
      if (rl_mode rule = ''running'') \<noteq> running then Inr ps
      else rbind (rule_matches_scope rule payload) (\<lambda>ok.
        if \<not> ok then Inr ps
        else rbind (matched_events (al_repr en) rule run payload) (\<lambda>(matched, payload').
          if matched = [] then Inr (payload', s)
          else if \<not> running \<and> run \<noteq> None
               \<and> list_ex (\<lambda>e. ae_rule e = rl_id rule \<and> ae_run e = Some (oc_source occ) \<and> ae_key e = None) (alert_events s)
          then Inr (payload', s)
          else let skey = (if running then oc_key occ @ '':'' @ hd matched else oc_key occ) in
            if list_ex (\<lambda>e. ae_rule e = rl_id rule \<and> ae_key e = Some skey) (alert_events s)
            then Inr (payload', s)
            else rbind (create_event en rule skey occ run matched payload' now s) (\<lambda>s'. Inr (payload', s')))))"

fun evaluate_rules ::
    "alert_env \<Rightarrow> occurrence \<Rightarrow> run_facts option \<Rightarrow> bool \<Rightarrow> int \<Rightarrow> alert_rule list \<Rightarrow> pydict \<times> alerts \<Rightarrow> (pydict \<times> alerts) res" where
  "evaluate_rules en occ run running now [] ps = Inr ps"
| "evaluate_rules en occ run running now (rule # rules) ps =
     rbind (evaluate_rule en rule occ run running now ps) (evaluate_rules en occ run running now rules)"

text \<open>\<open>parse_datetime(payload.get("occurred_at", "")) or outbox.created_at\<close>; the calendar is a parameter.\<close>

definition occurred_at :: "alert_env \<Rightarrow> occurrence \<Rightarrow> int res" where
  "occurred_at en occ =
     (case dget_default (oc_payload occ) ''occurred_at'' (PStr []) of
        PStr t \<Rightarrow> rbind (al_datetime en t) (\<lambda>d. Inr (case d of None \<Rightarrow> oc_created occ | Some x \<Rightarrow> x))
      | _ \<Rightarrow> Inl TypeError)"

definition evaluate_occurrence ::
    "alert_env \<Rightarrow> nat \<Rightarrow> (string \<Rightarrow> run_facts option) \<Rightarrow> bool \<Rightarrow> int \<Rightarrow> alerts \<Rightarrow> alerts res" where
  "evaluate_occurrence en i facts running now s =
     (if i \<ge> length (occurrences s) then Inl DoesNotExist
      else let occ = occurrences s ! i in
        if oc_processed occ \<noteq> None \<and> \<not> running then Inr s
        else rbind (occurred_at en occ) (\<lambda>since.
          rbind (evaluate_rules en occ (if oc_subject occ = ''run'' then facts (oc_source occ) else None) running now
                  (filter (\<lambda>r. rl_enabled r \<and> rl_subject r = oc_subject occ \<and> rl_created r \<le> since) (cf_rules (config s)))
                  (oc_payload occ, s))
            (\<lambda>(_, s'). Inr (s'\<lparr>occurrences := upd_at i (\<lambda>x. x\<lparr>oc_processed := Some now\<rparr>) (occurrences s')\<rparr>))))"

definition is_terminal_key :: "string \<Rightarrow> bool" where
  "is_terminal_key k = suffix '':terminal'' k"

text \<open>One bad occurrence is logged and does not stop the others.\<close>

definition process_alert_outbox ::
    "alert_env \<Rightarrow> (string \<Rightarrow> run_facts option) \<Rightarrow> nat \<Rightarrow> int \<Rightarrow> alerts \<Rightarrow> alerts" where
  "process_alert_outbox en facts limit now s =
     foldl (\<lambda>s i. or_same s (evaluate_occurrence en i facts False now s)) s
       (take limit (positions (\<lambda>x. oc_processed x = None \<and> is_terminal_key (oc_key x)) (occurrences s)))"

section \<open>Diagnoses\<close>

definition diagnosis_final :: "diagnosis_status \<Rightarrow> bool" where
  "diagnosis_final d \<longleftrightarrow> d \<in> {DIAGNOSIS_COMPLETED, DIAGNOSIS_FAILED, DIAGNOSIS_TIMED_OUT}"

definition diag_status :: "alerts \<Rightarrow> delivery \<Rightarrow> diagnosis_status option" where
  "diag_status s d = (case Option.bind (dl_diag d) (nth_opt (diagnoses s)) of None \<Rightarrow> None | Some g \<Rightarrow> Some (dg_status g))"

definition time_out_diagnoses :: "int \<Rightarrow> alerts \<Rightarrow> alerts" where
  "time_out_diagnoses now s =
     s\<lparr>diagnoses := map (\<lambda>g. if dg_status g \<in> {DIAGNOSIS_PENDING, DIAGNOSIS_RUNNING} \<and> dg_deadline g \<le> now
        then g\<lparr>dg_status := DIAGNOSIS_TIMED_OUT, dg_error := ''DIAGNOSIS_TIMEOUT'', dg_finished := Some now\<rparr> else g)
        (diagnoses s)\<rparr>"

definition waits_no_more :: "alerts \<Rightarrow> delivery \<Rightarrow> bool" where
  "waits_no_more s d \<longleftrightarrow> dl_status d = DELIVERY_DIAGNOSING
     \<and> (case diag_status s d of Some g \<Rightarrow> diagnosis_final g | None \<Rightarrow> False)"

definition release_waiting :: "int \<Rightarrow> alerts \<Rightarrow> alerts" where
  "release_waiting now s =
     s\<lparr>deliveries := map (\<lambda>d. if waits_no_more s d then d\<lparr>dl_status := DELIVERY_PENDING, dl_next := now\<rparr> else d)
        (deliveries s)\<rparr>"

text \<open>Accepted basic alerts whose diagnosis is complete and that have no supplement yet.\<close>

definition wants_supplement :: "alerts \<Rightarrow> delivery \<Rightarrow> bool" where
  "wants_supplement s d \<longleftrightarrow> dl_status d = DELIVERY_SENT \<and> dl_phase d = ''initial''
     \<and> find_sub (config s) (dl_sub d) \<noteq> None \<and> diag_status s d = Some DIAGNOSIS_COMPLETED
     \<and> ae_mode (alert_events s ! dl_event d) = ''notify_then_diagnose''
     \<and> \<not> list_ex (\<lambda>x. dl_event x = dl_event d \<and> dl_sub x = dl_sub d \<and> dl_phase x = ''diagnosis'') (deliveries s)"

definition add_supplement :: "alert_env \<Rightarrow> int \<Rightarrow> delivery \<Rightarrow> alerts \<times> nat set \<Rightarrow> alerts \<times> nat set" where
  "add_supplement en now d se =
     (let (s, touched) = se;
          key = delivery_identity en (ae_key (alert_events s ! dl_event d)) (dl_dest d) ''diagnosis'' in
      case find_key s key of
        None \<Rightarrow> (s\<lparr>deliveries := deliveries s @
                   [(new_delivery (dl_event d) (dl_sub d) ''diagnosis'' (dl_dest d) DELIVERY_PENDING now)
                      \<lparr>dl_key := Some key, dl_diag := dl_diag d\<rparr>]\<rparr>, insert (dl_event d) touched)
      | Some i \<Rightarrow>
          if (dl_event (deliveries s ! i), dl_sub (deliveries s ! i)) \<noteq> (dl_event d, dl_sub d)
             \<and> \<not> list_ex (\<lambda>x. dl_event x = dl_event d \<and> dl_sub x = dl_sub d \<and> dl_phase x = ''diagnosis'') (deliveries s)
          then (s\<lparr>deliveries := deliveries s @
                  [(new_delivery (dl_event d) (dl_sub d) ''diagnosis'' (dl_dest d) DELIVERY_SUPPRESSED now)
                     \<lparr>dl_error := ''Duplicate diagnosis destination''\<rparr>]\<rparr>, touched)
          else se)"

definition advance_alert_diagnoses :: "alert_env \<Rightarrow> int \<Rightarrow> alerts \<Rightarrow> alerts" where
  "advance_alert_diagnoses en now s =
     (let s1 = time_out_diagnoses now s;
          waiting = set (map dl_event (filter (waits_no_more s1) (deliveries s1)));
          s2 = release_waiting now s1;
          (s3, touched) = fold (add_supplement en now) (take 100 (filter (wants_supplement s2) (deliveries s2))) (s2, waiting);
          s4 = fold refresh_event_status (filter (\<lambda>e. e \<in> touched) [0..<length (alert_events s3)]) s3
      in if touched = {} then s4 else wake_dispatcher s4)"

text \<open>
  A worker claims a diagnosis, asks the model, and records what came back, unless the deadline
  has passed; an error is the code it is recorded with.
\<close>

definition start_diagnosis :: "nat \<Rightarrow> int \<Rightarrow> alerts \<Rightarrow> alerts" where
  "start_diagnosis g now s =
     s\<lparr>diagnoses := upd_at g (\<lambda>d. if dg_status d = DIAGNOSIS_PENDING \<and> dg_deadline d > now
        then d\<lparr>dg_status := DIAGNOSIS_RUNNING\<rparr> else d) (diagnoses s)\<rparr>"

definition end_diagnosis :: "alert_env \<Rightarrow> nat \<Rightarrow> string option \<Rightarrow> int \<Rightarrow> alerts \<Rightarrow> alerts" where
  "end_diagnosis en g error now s =
     advance_alert_diagnoses en now (s\<lparr>diagnoses := upd_at g (\<lambda>d.
        if dg_status d = DIAGNOSIS_RUNNING \<and> dg_deadline d > now
        then (case error of
                None \<Rightarrow> d\<lparr>dg_status := DIAGNOSIS_COMPLETED, dg_finished := Some now, dg_error := []\<rparr>
              | Some c \<Rightarrow> d\<lparr>dg_status := DIAGNOSIS_FAILED, dg_error := c, dg_finished := Some now\<rparr>)
        else d) (diagnoses s)\<rparr>)"

definition diagnosis_due :: "int \<Rightarrow> diagnosis \<Rightarrow> bool" where
  "diagnosis_due now g \<longleftrightarrow> dg_status g = DIAGNOSIS_PENDING \<and> dg_deadline g > now
     \<and> (case dg_dispatched g of None \<Rightarrow> True | Some t \<Rightarrow> t < now - minute)"

text \<open>A diagnosis whose message the broker refuses is due again at once.\<close>

definition dispatch_alert_diagnoses :: "alert_env \<Rightarrow> (nat \<Rightarrow> bool) \<Rightarrow> nat \<Rightarrow> int \<Rightarrow> alerts \<Rightarrow> alerts" where
  "dispatch_alert_diagnoses en broker limit now s =
     (let s1 = advance_alert_diagnoses en now s;
          due = take limit (positions (diagnosis_due now) (diagnoses s1))
      in s1\<lparr>diagnoses := fold (\<lambda>g. upd_at g (\<lambda>d. d\<lparr>dg_dispatched := if broker g then Some now else None\<rparr>)) due (diagnoses s1),
            dispatched := dispatched s1 @ filter broker due\<rparr>)"

section \<open>Delivering\<close>

definition claimable :: "int \<Rightarrow> delivery \<Rightarrow> bool" where
  "claimable now d \<longleftrightarrow> dl_attempts d < 5 \<and>
     (dl_status d = DELIVERY_PENDING \<and> dl_next d \<le> now
      \<or> dl_status d = DELIVERY_SENDING \<and> (case dl_claimed d of None \<Rightarrow> False | Some t \<Rightarrow> t < now - 5 * minute))"

definition claim_delivery :: "nat \<Rightarrow> int \<Rightarrow> alerts \<Rightarrow> alerts" where
  "claim_delivery i now s =
     (if i < length (deliveries s) \<and> claimable now (deliveries s ! i)
      then s\<lparr>deliveries := upd_at i (\<lambda>d. d\<lparr>dl_status := DELIVERY_SENDING, dl_claimed := Some now,
               dl_token := Some (length (jobs s)), dl_attempts := dl_attempts d + 1\<rparr>) (deliveries s),
             jobs := jobs s @ [\<lparr>jb_delivery = i, jb_stage = Claimed\<rparr>]\<rparr>
      else s)"

text \<open>
  \<open>_delivery_result\<close> up to the provider: either the reason to skip, or the recipients (none for a
  channel that is not e-mail) and the language the delivery is written in. The language is saved
  before the recipients of an e-mail are looked at.
\<close>

datatype delivery_decision = Skip string | SkipIn string string | SendIn string "string list"

definition delivery_plan :: "alerts \<Rightarrow> delivery \<Rightarrow> delivery_decision res" where
  "delivery_plan s d =
     (let cf = config s; event = alert_events s ! dl_event d in
      case find_sub cf (dl_sub d) of
        None \<Rightarrow> Inr (Skip ''Subscription disabled or removed'')
      | Some sub \<Rightarrow>
      case find_rule cf (sb_rule sub) of
        None \<Rightarrow> Inl DoesNotExist
      | Some rule \<Rightarrow>
      if \<not> sb_enabled sub \<or> \<not> rl_enabled rule then Inr (Skip ''Subscription disabled or removed'')
      else if ae_subject event = ''message''
           \<and> (rl_subject rule \<noteq> ''message'' \<or> dget (ae_detail event) ''topic'' \<noteq> PStr (rl_topic rule))
      then Inr (Skip ''Subscribed topic changed'')
      else if sb_personal sub \<and> \<not> personal_subscription_allowed cf sub (Some (ae_detail event))
      then Inr (Skip ''Subscription access revoked'')
      else rbind (subscription_destination cf sub) (\<lambda>dest.
        if ds_channel dest \<noteq> ds_channel (dl_dest d) then Inr (Skip ''Destination changed'')
        else case find_channel cf (ds_channel dest) of
          None \<Rightarrow> Inr (Skip ''Notification channel unavailable'')
        | Some ch \<Rightarrow>
        if \<not> ch_active ch \<or> ch_type ch \<notin> {''email'', ''webhook'', ''feishu'', ''wecom'', ''dingtalk''}
        then Inr (Skip ''Notification channel unavailable'')
        else let lang = notification_language cf sub in
          if dl_phase d = ''diagnosis''
             \<and> (rl_diag_mode rule \<noteq> ''notify_then_diagnose''
                \<or> (case Option.bind (dl_diag d) (nth_opt (diagnoses s)) of None \<Rightarrow> True | Some g \<Rightarrow> dg_language g \<noteq> lang))
          then Inr (Skip ''Diagnosis policy or language changed'')
          else if ch_type ch = ''email''
          then (let recipients = sorted_list_of_set (set (ds_recipients dest) \<inter> set (ds_recipients (dl_dest d)))
                in if recipients = [] then Inr (SkipIn lang ''No current email recipients'')
                   else Inr (SendIn lang recipients))
          else Inr (SendIn lang [])))"

definition in_language :: "string \<Rightarrow> delivery \<Rightarrow> delivery" where
  "in_language lang d = d\<lparr>dl_dest := (dl_dest d)\<lparr>ds_language := lang\<rparr>\<rparr>"

definition save_destination :: "nat \<Rightarrow> delivery \<Rightarrow> alerts \<Rightarrow> alerts" where
  "save_destination i row s = s\<lparr>deliveries := upd_at i (\<lambda>d. d\<lparr>dl_dest := dl_dest row\<rparr>) (deliveries s)\<rparr>"

definition set_stage :: "nat \<Rightarrow> job_stage \<Rightarrow> alerts \<Rightarrow> alerts" where
  "set_stage j st s = s\<lparr>jobs := upd_at j (\<lambda>b. b\<lparr>jb_stage := st\<rparr>) (jobs s)\<rparr>"

text \<open>The job reads its row and checks it; an exception counts as a refusal of the provider.\<close>

definition prepare_delivery :: "nat \<Rightarrow> alerts \<Rightarrow> alerts" where
  "prepare_delivery j s =
     (if j < length (jobs s) \<and> jb_stage (jobs s ! j) = Claimed \<and> jb_delivery (jobs s ! j) < length (deliveries s)
      then (let i = jb_delivery (jobs s ! j); row = deliveries s ! i in
        case delivery_plan s row of
          Inl _ \<Rightarrow> set_stage j (Answered row Rejected) s
        | Inr (Skip why) \<Rightarrow> set_stage j (Answered row (NotSent why)) s
        | Inr (SkipIn lang why) \<Rightarrow>
            save_destination i (in_language lang row) (set_stage j (Answered (in_language lang row) (NotSent why)) s)
        | Inr (SendIn lang recipients) \<Rightarrow>
            save_destination i (in_language lang row) (set_stage j (Ready (in_language lang row) recipients) s))
      else s)"

text \<open>The provider answers; a provider may also decline (\<open>skipped\<close>).\<close>

definition provider_answers :: "nat \<Rightarrow> job_result \<Rightarrow> alerts \<Rightarrow> alerts" where
  "provider_answers j reply s =
     (if j < length (jobs s)
      then (case jb_stage (jobs s ! j) of
              Ready row recipients \<Rightarrow>
                (set_stage j (Answered row reply) s)\<lparr>sent_messages := sent_messages s @
                   [\<lparr>sm_delivery = jb_delivery (jobs s ! j), sm_channel = ds_channel (dl_dest row),
                     sm_recipients = recipients, sm_result = reply\<rparr>]\<rparr>
            | _ \<Rightarrow> s)
      else s)"

definition backoff :: "nat \<Rightarrow> int" where
  "backoff attempts = min (60 * 2 ^ (attempts - 1)) 3600 * 1000000"

definition result_status :: "nat \<Rightarrow> job_result \<Rightarrow> delivery_status" where
  "result_status attempts r =
     (case r of NotSent _ \<Rightarrow> DELIVERY_SKIPPED | Accepted \<Rightarrow> DELIVERY_SENT
        | Rejected \<Rightarrow> if attempts \<ge> 5 then DELIVERY_FAILED else DELIVERY_PENDING)"

definition result_error :: "job_result \<Rightarrow> string" where
  "result_error r =
     (case r of NotSent why \<Rightarrow> if why = [] then ''Skipped'' else why | Accepted \<Rightarrow> []
        | Rejected \<Rightarrow> ''Notification provider rejected the delivery'')"

text \<open>A skipped delivery hands its place to the first of its suppressed duplicates.\<close>

definition duplicates_of :: "alerts \<Rightarrow> nat \<Rightarrow> nat list" where
  "duplicates_of s i =
     positions (\<lambda>d. dl_status d = DELIVERY_SUPPRESSED \<and> ds_duplicate (dl_dest d) = Some i) (deliveries s)"

definition point_to :: "nat option \<Rightarrow> delivery \<Rightarrow> delivery" where
  "point_to r d = d\<lparr>dl_dest := (dl_dest d)\<lparr>ds_duplicate := r\<rparr>\<rparr>"

definition promote_duplicate :: "nat \<Rightarrow> delivery \<Rightarrow> int \<Rightarrow> alerts \<Rightarrow> alerts" where
  "promote_duplicate i row now s =
     (if dl_key row = None then s
      else case duplicates_of s i of
        [] \<Rightarrow> s
      | r # rest \<Rightarrow>
          let s1 = s\<lparr>deliveries := upd_at i (\<lambda>d. d\<lparr>dl_key := None\<rparr>) (deliveries s)\<rparr>;
              s2 = s1\<lparr>deliveries := upd_at r (\<lambda>d. (point_to None d)\<lparr>dl_key := dl_key row, dl_diag := dl_diag row,
                       dl_status := DELIVERY_PENDING, dl_error := [], dl_next := now\<rparr>) (deliveries s1)\<rparr>;
              s3 = s2\<lparr>deliveries := fold (\<lambda>k. upd_at k (point_to (Some r))) rest (deliveries s2)\<rparr>
          in wake_dispatcher (refresh_event_status (dl_event (deliveries s3 ! r)) s3))"

definition finish_delivery :: "nat \<Rightarrow> int \<Rightarrow> alerts \<Rightarrow> alerts" where
  "finish_delivery j now s =
     (if j < length (jobs s)
      then (case jb_stage (jobs s ! j) of
              Answered row result \<Rightarrow>
                let i = jb_delivery (jobs s ! j); s0 = set_stage j Closed s;
                    status = result_status (dl_attempts row) result
                in if i < length (deliveries s) \<and> dl_token (deliveries s ! i) = Some j
                   then let s1 = s0\<lparr>deliveries := upd_at i (\<lambda>d. d\<lparr>dl_status := status, dl_attempts := dl_attempts row,
                                  dl_error := take 500 (result_error result), dl_token := None,
                                  dl_sent := (if status = DELIVERY_SENT then Some now else None),
                                  dl_next := now + backoff (dl_attempts row)\<rparr>) (deliveries s0)\<rparr>;
                            s2 = (if status = DELIVERY_SKIPPED then promote_duplicate i row now s1 else s1)
                        in refresh_event_status (dl_event row) s2
                   else s0
            | _ \<Rightarrow> s)
      else s)"

text \<open>The dispatcher closes what a dead worker left behind after its last attempt.\<close>

definition exhausted_lease :: "int \<Rightarrow> delivery \<Rightarrow> bool" where
  "exhausted_lease now d \<longleftrightarrow> dl_status d = DELIVERY_SENDING \<and> dl_attempts d \<ge> 5
     \<and> (case dl_claimed d of None \<Rightarrow> False | Some t \<Rightarrow> t < now - 5 * minute)"

definition fail_exhausted :: "int \<Rightarrow> alerts \<Rightarrow> alerts" where
  "fail_exhausted now s =
     (let hit = set (map dl_event (filter (exhausted_lease now) (deliveries s)));
          s1 = s\<lparr>deliveries := map (\<lambda>d. if exhausted_lease now d
                 then d\<lparr>dl_status := DELIVERY_FAILED, dl_error := ''Delivery worker lease expired after final attempt''\<rparr>
                 else d) (deliveries s)\<rparr>
      in fold refresh_event_status (filter (\<lambda>e. e \<in> hit) [0..<length (alert_events s1)]) s1)"

text \<open>The deliveries the dispatcher then hands to \<open>send_alert_delivery\<close>, the longest due first.\<close>

definition due_deliveries :: "int \<Rightarrow> alerts \<Rightarrow> nat list" where
  "due_deliveries now s = take 25 (sort_key (\<lambda>i. dl_next (deliveries s ! i))
     (positions (\<lambda>d. dl_status d = DELIVERY_PENDING \<and> dl_next d \<le> now
        \<or> dl_status d = DELIVERY_SENDING \<and> (case dl_claimed d of None \<Rightarrow> False | Some t \<Rightarrow> t < now - 5 * minute))
        (deliveries s)))"

text \<open>
  One run of the periodic dispatcher up to the deliveries it hands out; the recovery of sources
  that bypassed the outbox is not modelled.
\<close>

definition dispatch_alerts ::
    "alert_env \<Rightarrow> (string \<Rightarrow> run_facts option) \<Rightarrow> (nat \<Rightarrow> bool) \<Rightarrow> int \<Rightarrow> alerts \<Rightarrow> alerts \<times> nat list" where
  "dispatch_alerts en facts broker now s =
     (let s' = fail_exhausted now (dispatch_alert_diagnoses en broker 25 now (process_alert_outbox en facts 100 now s))
      in (s', due_deliveries now s'))"

definition retry_event :: "nat \<Rightarrow> int \<Rightarrow> alerts \<Rightarrow> alerts" where
  "retry_event e now s =
     (if list_ex (\<lambda>d. dl_event d = e \<and> dl_status d = DELIVERY_FAILED) (deliveries s)
      then wake_dispatcher (s\<lparr>
        deliveries := map (\<lambda>d. if dl_event d = e \<and> dl_status d = DELIVERY_FAILED
          then d\<lparr>dl_status := DELIVERY_PENDING, dl_attempts := 0, dl_next := now, dl_error := []\<rparr> else d) (deliveries s),
        alert_events := upd_at e (\<lambda>ev. ev\<lparr>ae_status := EVENT_PENDING\<rparr>) (alert_events s)\<rparr>)
      else s)"

section \<open>Steps\<close>

datatype alert_action =
    Configure alert_config
  | Occur string string pydict string int
  | Publish string string string string py "int \<times> string" int
  | Evaluate nat "string \<Rightarrow> run_facts option" bool int
  | ProcessOutbox "string \<Rightarrow> run_facts option" nat int
  | Claim nat int
  | Prepare nat
  | Provider nat job_result
  | Finish nat int
  | FailExhausted int
  | Retry nat int
  | StartDiagnosis nat int
  | EndDiagnosis nat "string option" int
  | AdvanceDiagnoses int
  | DispatchDiagnoses "nat \<Rightarrow> bool" nat int

fun alert_step :: "alert_env \<Rightarrow> alerts \<Rightarrow> alert_action \<Rightarrow> alerts" where
  "alert_step en s (Configure cf) = s\<lparr>config := cf\<rparr>"
| "alert_step en s (Occur subject source payload phase now) = enqueue_occurrence subject source payload phase now s"
| "alert_step en s (Publish topic key title body tr by now) =
     (case publish_message en topic key title body tr by now s of Inl _ \<Rightarrow> s | Inr (s', _) \<Rightarrow> s')"
| "alert_step en s (Evaluate i facts running now) = or_same s (evaluate_occurrence en i facts running now s)"
| "alert_step en s (ProcessOutbox facts limit now) = process_alert_outbox en facts limit now s"
| "alert_step en s (Claim i now) = claim_delivery i now s"
| "alert_step en s (Prepare j) = prepare_delivery j s"
| "alert_step en s (Provider j reply) = provider_answers j reply s"
| "alert_step en s (Finish j now) = finish_delivery j now s"
| "alert_step en s (FailExhausted now) = fail_exhausted now s"
| "alert_step en s (Retry e now) = retry_event e now s"
| "alert_step en s (StartDiagnosis g now) = start_diagnosis g now s"
| "alert_step en s (EndDiagnosis g err now) = end_diagnosis en g err now s"
| "alert_step en s (AdvanceDiagnoses now) = advance_alert_diagnoses en now s"
| "alert_step en s (DispatchDiagnoses broker limit now) = dispatch_alert_diagnoses en broker limit now s"

definition new_alerts :: "alert_config \<Rightarrow> alerts" where
  "new_alerts cf = \<lparr>config = cf, occurrences = [], alert_events = [], deliveries = [], diagnoses = [], jobs = [],
     sent_messages = [], dispatched = [], wakes = 0\<rparr>"

end
