(* ===== verification/Alert_Properties.thy ===== *)
theory Alert_Properties
  imports Alert_Delivery
begin

text \<open>
  What the alert pipeline promises whatever operators, workers and the provider do: one event
  for a rule and an occurrence, one delivery for a destination that is ever sent, at most five
  attempts between two retries by an operator, and no delivery that waits for ever.
\<close>

section \<open>Rows by position\<close>

lemma length_upd_at [simp]: "length (upd_at i f xs) = length xs"
  by (simp add: upd_at_def)

lemma nth_upd_at: "k < length xs \<Longrightarrow> upd_at i f xs ! k = (if k = i then f (xs ! k) else xs ! k)"
  by (auto simp: upd_at_def)

lemma map_upd_at: "(\<And>x. g (f x) = g x) \<Longrightarrow> map g (upd_at i f xs) = map g xs"
  by (rule nth_equalityI) (auto simp: nth_upd_at)

lemma set_positions: "set (positions P xs) = {i. i < length xs \<and> P (xs ! i)}"
  by (auto simp: positions_def)

lemma find_key_None: "find_key s key = None \<longleftrightarrow> (\<forall>i < length (deliveries s). dl_key (deliveries s ! i) \<noteq> Some key)"
proof -
  have "find_key s key = None \<longleftrightarrow> positions (\<lambda>d. dl_key d = Some key) (deliveries s) = []"
    by (auto simp: find_key_def split: list.splits)
  then show ?thesis using set_positions [of "\<lambda>d. dl_key d = Some key" "deliveries s"]
    by (metis (mono_tags, lifting) empty_iff list.set(1) mem_Collect_eq set_empty equals0I)
qed

section \<open>The invariant\<close>

text \<open>
  A delivery that may still be sent, or was, owns a key; a claim token names a job of the delivery.
\<close>

definition token_ok :: "alerts \<Rightarrow> nat \<Rightarrow> delivery \<Rightarrow> bool" where
  "token_ok s i d \<longleftrightarrow> (case dl_token d of None \<Rightarrow> True | Some j \<Rightarrow> j < length (jobs s) \<and> jb_delivery (jobs s ! j) = i)"

lemma token_ok_simps [simp]:
  "dl_token d = None \<Longrightarrow> token_ok s i d"
  "dl_token d = Some j \<Longrightarrow> token_ok s i d \<longleftrightarrow> j < length (jobs s) \<and> jb_delivery (jobs s ! j) = i"
  by (simp_all add: token_ok_def)

lemma token_ok_cong: "dl_token d' = dl_token d \<Longrightarrow> jobs s' = jobs s \<Longrightarrow> token_ok s' i d' = token_ok s i d"
  by (simp add: token_ok_def cong: option.case_cong)

lemma token_ok_keeps [simp]:
  "token_ok (s\<lparr>deliveries := D\<rparr>) = token_ok s" "token_ok (s\<lparr>diagnoses := G\<rparr>) = token_ok s"
  "token_ok (s\<lparr>alert_events := E\<rparr>) = token_ok s"
  "token_ok s i (d\<lparr>dl_status := st\<rparr>) = token_ok s i d" "token_ok s i (d\<lparr>dl_diag := g\<rparr>) = token_ok s i d"
  "token_ok s i (d\<lparr>dl_attempts := a\<rparr>) = token_ok s i d" "token_ok s i (d\<lparr>dl_next := t\<rparr>) = token_ok s i d"
  "token_ok s i (d\<lparr>dl_error := x\<rparr>) = token_ok s i d" "token_ok s i (d\<lparr>dl_dest := x'\<rparr>) = token_ok s i d"
  by (simp_all add: token_ok_def fun_eq_iff cong: option.case_cong)

definition delivery_ok :: "alerts \<Rightarrow> nat \<Rightarrow> delivery \<Rightarrow> bool" where
  "delivery_ok s i d \<longleftrightarrow>
     dl_event d < length (alert_events s) \<and> dl_attempts d \<le> 5
     \<and> (dl_status d = DELIVERY_PENDING \<longrightarrow> dl_attempts d < 5)
     \<and> (dl_status d = DELIVERY_SENDING \<longrightarrow> dl_claimed d \<noteq> None)
     \<and> (dl_status d \<noteq> DELIVERY_SUPPRESSED \<and> dl_status d \<noteq> DELIVERY_SKIPPED \<longrightarrow> dl_key d \<noteq> None)
     \<and> (dl_status d \<in> {DELIVERY_SUPPRESSED, DELIVERY_DIAGNOSING} \<longrightarrow> dl_attempts d = 0)
     \<and> (dl_status d \<in> {DELIVERY_SUPPRESSED, DELIVERY_DIAGNOSING, DELIVERY_SENT, DELIVERY_SKIPPED} \<longrightarrow> dl_token d = None)
     \<and> (dl_status d = DELIVERY_SUPPRESSED \<longrightarrow> dl_key d = None)
     \<and> (dl_status d = DELIVERY_SENT \<longrightarrow> dl_sent d \<noteq> None)
     \<and> (dl_status d = DELIVERY_DIAGNOSING \<longrightarrow> (\<exists>g < length (diagnoses s). dl_diag d = Some g))
     \<and> token_ok s i d"

definition deliveries_ok :: "alerts \<Rightarrow> bool" where
  "deliveries_ok s \<longleftrightarrow> (\<forall>i < length (deliveries s). delivery_ok s i (deliveries s ! i))"

definition keys_ok :: "alerts \<Rightarrow> bool" where
  "keys_ok s \<longleftrightarrow> (\<forall>i < length (deliveries s). \<forall>j < length (deliveries s). \<forall>k.
     dl_key (deliveries s ! i) = Some k \<and> dl_key (deliveries s ! j) = Some k \<longrightarrow> i = j)"

text \<open>What a job has read of its row is still so while it holds the claim.\<close>

definition seen_ok :: "alerts \<Rightarrow> nat \<Rightarrow> nat \<Rightarrow> delivery \<Rightarrow> bool" where
  "seen_ok s j i row \<longleftrightarrow>
     dl_attempts row \<le> 5 \<and> dl_event row = dl_event (deliveries s ! i)
     \<and> (dl_token (deliveries s ! i) = Some j \<longrightarrow> dl_key row = dl_key (deliveries s ! i))"

definition stage_row :: "job_stage \<Rightarrow> delivery option" where
  "stage_row st = (case st of Ready row _ \<Rightarrow> Some row | Answered row _ \<Rightarrow> Some row | _ \<Rightarrow> None)"

lemma stage_row_simps [simp]:
  "stage_row (Ready row rs) = Some row" "stage_row (Answered row x) = Some row"
  "stage_row Claimed = None" "stage_row Closed = None"
  by (simp_all add: stage_row_def)

definition jobs_ok :: "alerts \<Rightarrow> bool" where
  "jobs_ok s \<longleftrightarrow> (\<forall>j < length (jobs s). jb_delivery (jobs s ! j) < length (deliveries s)
     \<and> (\<forall>row. stage_row (jb_stage (jobs s ! j)) = Some row \<longrightarrow> seen_ok s j (jb_delivery (jobs s ! j)) row))"

definition events_ok :: "alerts \<Rightarrow> bool" where
  "events_ok s \<longleftrightarrow> (\<forall>i < length (alert_events s). \<forall>j < length (alert_events s).
     ae_key (alert_events s ! i) \<noteq> None \<and> ae_rule (alert_events s ! i) = ae_rule (alert_events s ! j)
     \<and> ae_key (alert_events s ! i) = ae_key (alert_events s ! j) \<longrightarrow> i = j)"

definition alerts_ok :: "alerts \<Rightarrow> bool" where
  "alerts_ok s \<longleftrightarrow> deliveries_ok s \<and> keys_ok s \<and> jobs_ok s \<and> events_ok s"

lemma alerts_okI: "deliveries_ok s \<Longrightarrow> keys_ok s \<Longrightarrow> jobs_ok s \<Longrightarrow> events_ok s \<Longrightarrow> alerts_ok s"
  by (simp add: alerts_ok_def)

lemma alerts_ok_row: "alerts_ok s \<Longrightarrow> i < length (deliveries s) \<Longrightarrow> delivery_ok s i (deliveries s ! i)"
  by (simp add: alerts_ok_def deliveries_ok_def)

lemma delivery_okD:
  assumes "delivery_ok s i d"
  shows delivery_ok_event: "dl_event d < length (alert_events s)" and delivery_ok_attempts: "dl_attempts d \<le> 5"
    and delivery_ok_pending: "dl_status d = DELIVERY_PENDING \<Longrightarrow> dl_attempts d < 5"
    and delivery_ok_sending: "dl_status d = DELIVERY_SENDING \<Longrightarrow> dl_claimed d \<noteq> None"
    and delivery_ok_key: "dl_status d \<noteq> DELIVERY_SUPPRESSED \<Longrightarrow> dl_status d \<noteq> DELIVERY_SKIPPED \<Longrightarrow> dl_key d \<noteq> None"
    and delivery_ok_untried: "dl_status d \<in> {DELIVERY_SUPPRESSED, DELIVERY_DIAGNOSING} \<Longrightarrow> dl_attempts d = 0"
    and delivery_ok_unclaimed: "dl_status d \<in> {DELIVERY_SUPPRESSED, DELIVERY_DIAGNOSING, DELIVERY_SENT, DELIVERY_SKIPPED} \<Longrightarrow> dl_token d = None"
    and delivery_ok_suppressed: "dl_status d = DELIVERY_SUPPRESSED \<Longrightarrow> dl_key d = None"
    and delivery_ok_sent: "dl_status d = DELIVERY_SENT \<Longrightarrow> dl_sent d \<noteq> None"
    and delivery_ok_diag: "dl_status d = DELIVERY_DIAGNOSING \<Longrightarrow> \<exists>g < length (diagnoses s). dl_diag d = Some g"
    and delivery_ok_token: "token_ok s i d"
  using assms by (simp_all only: delivery_ok_def simp_thms)

text \<open>What the invariant reads.\<close>

lemma alerts_ok_cong:
  assumes "deliveries s' = deliveries s" "jobs s' = jobs s" "length (diagnoses s') = length (diagnoses s)"
    and "map (\<lambda>e. (ae_rule e, ae_key e)) (alert_events s') = map (\<lambda>e. (ae_rule e, ae_key e)) (alert_events s)"
  shows "alerts_ok s' = alerts_ok s"
proof -
  have len: "length (alert_events s') = length (alert_events s)"
    using arg_cong [OF assms(4), of length] by simp
  have "ae_rule (alert_events s' ! i) = ae_rule (alert_events s ! i) \<and> ae_key (alert_events s' ! i) = ae_key (alert_events s ! i)"
    if "i < length (alert_events s)" for i
    using arg_cong [OF assms(4), of "\<lambda>xs. xs ! i"] that len by simp
  then have "events_ok s' = events_ok s" by (simp add: events_ok_def len)
  moreover have "delivery_ok s' = delivery_ok s" by (intro ext) (simp add: delivery_ok_def token_ok_cong [OF refl assms(2)] assms(3) len)
  moreover have "seen_ok s' = seen_ok s" by (intro ext) (simp add: seen_ok_def assms)
  ultimately show ?thesis by (simp add: alerts_ok_def deliveries_ok_def keys_ok_def jobs_ok_def assms)
qed

lemma events_ok_deliveries [simp]: "events_ok (s\<lparr>deliveries := D\<rparr>) = events_ok s"
  by (simp add: events_ok_def)

text \<open>One row changed; its event, and its key while it has a token, stay.\<close>

lemma alerts_ok_change:
  assumes ok: "alerts_ok s" and i: "i < length (deliveries s)"
    and row: "delivery_ok s i d'" and event: "dl_event d' = dl_event (deliveries s ! i)"
    and key: "dl_key d' = dl_key (deliveries s ! i) \<or> dl_key d' = None \<and> dl_token d' = None"
    and token: "dl_token d' = dl_token (deliveries s ! i) \<or> dl_token d' = None"
  shows "alerts_ok (s\<lparr>deliveries := (deliveries s)[i := d']\<rparr>)"
proof -
  let ?s = "s\<lparr>deliveries := (deliveries s)[i := d']\<rparr>"
  have rowcong: "delivery_ok ?s = delivery_ok s" by (intro ext) (simp add: delivery_ok_def)
  have "delivery_ok s a ((deliveries s)[i := d'] ! a)" if "a < length (deliveries s)" for a
    using alerts_ok_row [OF ok that] row i by (cases "a = i") simp_all
  then have "deliveries_ok ?s" by (simp add: deliveries_ok_def rowcong)
  moreover have "keys_ok ?s"
    unfolding keys_ok_def
  proof (intro allI impI)
    fix a b k
    assume ab: "a < length (deliveries ?s)" "b < length (deliveries ?s)"
      "dl_key (deliveries ?s ! a) = Some k \<and> dl_key (deliveries ?s ! b) = Some k"
    then have "dl_key (deliveries s ! a) = Some k" "dl_key (deliveries s ! b) = Some k"
      using key i by (auto simp: nth_list_update split: if_splits)
    then show "a = b" using ok ab(1,2) by (auto simp: alerts_ok_def keys_ok_def)
  qed
  moreover have "seen_ok ?s j a r" if "seen_ok s j a r" "a < length (deliveries s)" for j a r
    using that key token event i by (auto simp: seen_ok_def nth_list_update)
  then have "jobs_ok ?s" using ok by (auto simp: alerts_ok_def jobs_ok_def)
  ultimately show ?thesis using ok by (simp add: alerts_ok_def)
qed

lemma upd_at_update: "i < length xs \<Longrightarrow> upd_at i f xs = xs[i := f (xs ! i)]"
  by (simp add: upd_at_def)

lemma alerts_ok_upd_at:
  assumes "alerts_ok s"
    and "i < length (deliveries s) \<Longrightarrow> delivery_ok s i (f (deliveries s ! i))"
    and "\<And>d. dl_event (f d) = dl_event d"
    and "\<And>d. dl_key (f d) = dl_key d"
    and "\<And>d. dl_token (f d) = dl_token d \<or> dl_token (f d) = None"
  shows "alerts_ok (s\<lparr>deliveries := upd_at i f (deliveries s)\<rparr>)"
proof (cases "i < length (deliveries s)")
  case True
  then show ?thesis using alerts_ok_change [OF assms(1) True assms(2) [OF True]] assms(3-5)
    by (simp add: upd_at_update)
qed (simp add: upd_at_def assms(1))

lemma alerts_ok_map:
  assumes ok: "alerts_ok s"
    and row: "\<And>i. i < length (deliveries s) \<Longrightarrow> delivery_ok s i (f (deliveries s ! i))"
    and same: "\<And>d. dl_event (f d) = dl_event d \<and> dl_key (f d) = dl_key d \<and> dl_token (f d) = dl_token d"
  shows "alerts_ok (s\<lparr>deliveries := map f (deliveries s)\<rparr>)"
proof -
  let ?s = "s\<lparr>deliveries := map f (deliveries s)\<rparr>"
  have "delivery_ok ?s = delivery_ok s" by (intro ext) (simp add: delivery_ok_def)
  then have "deliveries_ok ?s" using row by (simp add: deliveries_ok_def)
  moreover have "keys_ok ?s" using ok same by (simp add: alerts_ok_def keys_ok_def)
  moreover have "seen_ok ?s j a r" if "seen_ok s j a r" "a < length (deliveries s)" for j a r
    using that same by (auto simp: seen_ok_def)
  then have "jobs_ok ?s" using ok by (auto simp: alerts_ok_def jobs_ok_def)
  ultimately show ?thesis using ok by (simp add: alerts_ok_def)
qed

text \<open>A new row without a token, whose key nobody owns.\<close>

lemma alerts_ok_append:
  assumes ok: "alerts_ok s" and row: "delivery_ok s (length (deliveries s)) d"
    and key: "\<And>k. dl_key d = Some k \<Longrightarrow> find_key s k = None"
  shows "alerts_ok (s\<lparr>deliveries := deliveries s @ [d]\<rparr>)"
proof -
  let ?s = "s\<lparr>deliveries := deliveries s @ [d]\<rparr>"
  have "delivery_ok ?s = delivery_ok s" by (intro ext) (simp add: delivery_ok_def)
  then have "deliveries_ok ?s" using ok row by (auto simp: alerts_ok_def deliveries_ok_def nth_append less_Suc_eq)
  moreover have "keys_ok ?s"
    using ok key by (auto simp: alerts_ok_def keys_ok_def nth_append less_Suc_eq find_key_None)
  moreover have "seen_ok ?s j a r" if "seen_ok s j a r" "a < length (deliveries s)" for j a r
    using that by (simp add: seen_ok_def nth_append)
  then have "jobs_ok ?s" using ok by (auto simp: alerts_ok_def jobs_ok_def less_Suc_eq)
  ultimately show ?thesis using ok by (simp add: alerts_ok_def)
qed

section \<open>Every step keeps the invariant\<close>

lemma alerts_ok_frame [simp]:
  "alerts_ok (s\<lparr>config := cf\<rparr>) = alerts_ok s" "alerts_ok (s\<lparr>occurrences := oc\<rparr>) = alerts_ok s"
  "alerts_ok (s\<lparr>sent_messages := ms\<rparr>) = alerts_ok s" "alerts_ok (s\<lparr>dispatched := ds\<rparr>) = alerts_ok s"
  "alerts_ok (wake_dispatcher s) = alerts_ok s"
  by (rule alerts_ok_cong; simp add: wake_dispatcher_def)+

lemma alerts_ok_refresh [simp]: "alerts_ok (refresh_event_status e s) = alerts_ok s"
  by (rule alerts_ok_cong) (simp_all add: refresh_event_status_def map_upd_at)

lemma alerts_ok_refreshes [simp]: "alerts_ok (fold refresh_event_status es s) = alerts_ok s"
  by (induction es arbitrary: s) simp_all

lemma alerts_ok_diagnoses:
  assumes "alerts_ok s" "length (diagnoses s) \<le> length G"
  shows "alerts_ok (s\<lparr>diagnoses := G\<rparr>)"
proof -
  let ?s = "s\<lparr>diagnoses := G\<rparr>"
  have "delivery_ok s i d \<Longrightarrow> delivery_ok ?s i d" for i d
    using assms(2) by (auto simp: delivery_ok_def intro: order.strict_trans2)
  then have "deliveries_ok ?s" using assms(1) by (simp add: alerts_ok_def deliveries_ok_def)
  moreover have "seen_ok ?s = seen_ok s" by (intro ext) (simp add: seen_ok_def)
  then have "jobs_ok ?s" using assms(1) by (simp add: alerts_ok_def jobs_ok_def)
  moreover have "keys_ok ?s = keys_ok s" "events_ok ?s = events_ok s" by (simp_all add: keys_ok_def events_ok_def)
  ultimately show ?thesis using assms(1) by (simp add: alerts_ok_def)
qed

lemma alerts_ok_enqueue: "alerts_ok s \<Longrightarrow> alerts_ok (enqueue_occurrence subject source payload phase now s)"
  by (simp add: enqueue_occurrence_def Let_def split: option.split)

lemma alerts_ok_publish:
  assumes "alerts_ok s" "publish_message en topic key title body tr by now s = Inr (s', c)"
  shows "alerts_ok s'"
  using assms by (auto simp: publish_message_def Let_def split: option.splits if_splits)

lemma alerts_ok_legacy: "alerts_ok (legacy_destination rule s) = alerts_ok s"
  by (simp add: legacy_destination_def)

lemma alerts_ok_event:
  assumes ok: "alerts_ok s"
    and fresh: "ae_key ev \<noteq> None \<Longrightarrow> \<forall>e \<in> set (alert_events s). \<not> (ae_rule e = ae_rule ev \<and> ae_key e = ae_key ev)"
  shows "alerts_ok (s\<lparr>alert_events := alert_events s @ [ev]\<rparr>)"
proof -
  let ?s = "s\<lparr>alert_events := alert_events s @ [ev]\<rparr>"
  have "delivery_ok s i d \<Longrightarrow> delivery_ok ?s i d" for i d by (auto simp: delivery_ok_def)
  then have "deliveries_ok ?s" using ok by (simp add: alerts_ok_def deliveries_ok_def)
  moreover have "seen_ok ?s = seen_ok s" by (intro ext) (simp add: seen_ok_def)
  then have "jobs_ok ?s" using ok by (simp add: alerts_ok_def jobs_ok_def)
  moreover have "events_ok ?s"
    unfolding events_ok_def
  proof (intro allI impI)
    fix a b
    assume ab: "a < length (alert_events ?s)" "b < length (alert_events ?s)"
      and eq: "ae_key (alert_events ?s ! a) \<noteq> None \<and> ae_rule (alert_events ?s ! a) = ae_rule (alert_events ?s ! b)
        \<and> ae_key (alert_events ?s ! a) = ae_key (alert_events ?s ! b)"
    have old: "\<not> (ae_rule (alert_events s ! c) = ae_rule ev \<and> ae_key (alert_events s ! c) = ae_key ev)"
      if "c < length (alert_events s)" "ae_key (alert_events s ! c) \<noteq> None" for c
      using fresh that nth_mem [OF that(1)] by metis
    show "a = b"
    proof (cases "a < length (alert_events s) \<and> b < length (alert_events s)")
      case True
      then show ?thesis using ok eq unfolding alerts_ok_def events_ok_def by (simp add: nth_append) blast
    next
      case False
      then consider "a = b" | "a < length (alert_events s)" "b = length (alert_events s)"
        | "a = length (alert_events s)" "b < length (alert_events s)"
        using ab by (auto simp: less_Suc_eq)
      then show ?thesis
      proof cases
        case 2
        then show ?thesis using eq old [of a] by (simp add: nth_append) metis
      next
        case 3
        then show ?thesis using eq old [of b] by (simp add: nth_append) metis
      qed
    qed
  qed
  ultimately show ?thesis using ok by (simp add: alerts_ok_def keys_ok_def)
qed

lemma delivery_ok_new:
  "e < length (alert_events s) \<Longrightarrow> delivery_ok s i (new_delivery e b ph dest DELIVERY_SUPPRESSED now)"
  "e < length (alert_events s) \<Longrightarrow>
     delivery_ok s i ((new_delivery e b ph dest DELIVERY_PENDING now)\<lparr>dl_key := Some k, dl_diag := g\<rparr>)"
  by (simp_all add: delivery_ok_def new_delivery_def)

lemma alert_events_attach [simp]: "alert_events (attach_diagnosis en rule skey now i s) = alert_events s"
  by (simp add: attach_diagnosis_def shared_diagnosis_def Let_def split: option.split)

lemma shared_diagnosis_ok:
  assumes "alerts_ok s" "shared_diagnosis en rule skey now d s = (g, s')"
  shows "alerts_ok s' \<and> deliveries s' = deliveries s \<and> g < length (diagnoses s')"
proof (cases "find_diagnosis s (diagnosis_digest en (skey, ds_language (dl_dest d), rl_diag_tokens rule, rl_diag_timeout rule))")
  case None
  then show ?thesis using assms by (auto simp: shared_diagnosis_def Let_def intro!: alerts_ok_diagnoses)
next
  case (Some g')
  then have "g' \<in> set (positions (\<lambda>x. dg_key x = diagnosis_digest en (skey, ds_language (dl_dest d), rl_diag_tokens rule,
      rl_diag_timeout rule)) (diagnoses s))"
    by (auto simp: find_diagnosis_def split: list.splits)
  then show ?thesis using assms Some by (simp add: shared_diagnosis_def Let_def set_positions)
qed

lemma alerts_ok_attach:
  assumes ok: "alerts_ok s" and i: "i < length (deliveries s)" and fresh: "dl_attempts (deliveries s ! i) = 0"
    "dl_token (deliveries s ! i) = None"
  shows "alerts_ok (attach_diagnosis en rule skey now i s)"
proof (cases "rl_diag_mode rule = ''direct'' \<or> dl_status (deliveries s ! i) \<noteq> DELIVERY_PENDING")
  case False
  obtain g s' where g: "shared_diagnosis en rule skey now (deliveries s ! i) s = (g, s')" by (cases "shared_diagnosis en rule skey now (deliveries s ! i) s")
  note s' = shared_diagnosis_ok [OF ok g]
  let ?d = "(deliveries s ! i)\<lparr>dl_diag := Some g,
    dl_status := (if rl_diag_mode rule = ''diagnose_first'' then DELIVERY_DIAGNOSING else DELIVERY_PENDING)\<rparr>"
  have "alerts_ok (s'\<lparr>deliveries := (deliveries s')[i := ?d]\<rparr>)"
    using i s' fresh False alerts_ok_row [of s' i]
    by (intro alerts_ok_change) (auto simp: delivery_ok_def)
  then show ?thesis using False g by (simp add: attach_diagnosis_def Let_def)
qed (simp add: attach_diagnosis_def ok)

lemma alert_events_add [simp]: "alert_events (add_delivery en rule skey e sub dest c now s) = alert_events s"
  by (simp add: add_delivery_def Let_def split: option.split)

lemma alerts_ok_add:
  assumes ok: "alerts_ok s" and e: "e < length (alert_events s)"
  shows "alerts_ok (add_delivery en rule skey e sub dest c now s)"
proof -
  have plain: "alerts_ok (s\<lparr>deliveries := deliveries s @ [(new_delivery e b ph d DELIVERY_SUPPRESSED now)\<lparr>dl_error := x\<rparr>]\<rparr>)"
    "alerts_ok (s\<lparr>deliveries := deliveries s @ [new_delivery e b ph d DELIVERY_SUPPRESSED now]\<rparr>)" for b ph d x
    by (rule alerts_ok_append [OF ok]; use e in \<open>simp add: delivery_ok_def new_delivery_def\<close>)+
  have keyed: "alerts_ok (s\<lparr>deliveries := deliveries s @
      [(new_delivery e b ph d DELIVERY_PENDING now)\<lparr>dl_key := Some k\<rparr>]\<rparr>)" if "find_key s k = None" for b ph d k
    by (rule alerts_ok_append [OF ok]) (use e that in \<open>simp_all add: delivery_ok_def new_delivery_def\<close>)
  show ?thesis
  proof (cases "find_key s (delivery_identity en (Some skey) dest ''initial'')")
    case None
    then show ?thesis
      unfolding add_delivery_def Let_def
      by (simp add: plain) (intro impI alerts_ok_attach keyed; simp add: new_delivery_def)
  qed (simp add: add_delivery_def plain)
qed

lemma alerts_ok_adds:
  assumes "alerts_ok s" "e < length (alert_events s)" "add_deliveries en rule skey e payload now subs s = Inr s'"
  shows "alerts_ok s' \<and> alert_events s' = alert_events s"
  using assms
proof (induction subs arbitrary: s)
  case (Cons sub subs)
  from Cons.prems(3) obtain s0 where "add_deliveries en rule skey e payload now subs s0 = Inr s'"
      "alerts_ok s0" "alert_events s0 = alert_events s"
    using Cons.prems(1) alerts_ok_add [OF Cons.prems(1,2)] by (auto simp: rbind_Inr_iff split: if_splits)
  then show ?case using Cons.IH [of s0] Cons.prems(2) by simp
qed simp

lemma alerts_ok_create:
  assumes ok: "alerts_ok s" and made: "create_event en rule skey occ run matched payload now s = Inr s'"
    and fresh: "\<not> list_ex (\<lambda>e. ae_rule e = rl_id rule \<and> ae_key e = Some skey) (alert_events s)"
  shows "alerts_ok s'"
proof -
  define s1 where s1: "s1 = legacy_destination rule (s\<lparr>alert_events := alert_events s @
      [\<lparr>ae_rule = rl_id rule, ae_key = Some skey, ae_subject = rl_subject rule, ae_source = oc_source occ,
        ae_run = (if run = None then None else Some (oc_source occ)), ae_type = hd matched,
        ae_status = EVENT_PENDING, ae_mode = rl_diag_mode rule, ae_detail = event_detail rule matched payload\<rparr>]\<rparr>)"
  obtain s2 where s2: "add_deliveries en rule skey (length (alert_events s)) payload now
      (filter (\<lambda>b. sb_rule b = rl_id rule \<and> sb_enabled b) (cf_subs (config s1))) s1 = Inr s2"
      "s' = refresh_event_status (length (alert_events s)) s2"
    using made unfolding s1 create_event_def Let_def rbind_Inr_iff by blast
  have "alerts_ok s1"
    unfolding s1 alerts_ok_legacy using fresh by (intro alerts_ok_event ok) (auto simp: list_ex_iff)
  moreover have "length (alert_events s1) = Suc (length (alert_events s))"
    by (simp add: s1 legacy_destination_def)
  ultimately show ?thesis using alerts_ok_adds [OF _ _ s2(1)] s2(2) by simp
qed

lemma alerts_ok_rule:
  assumes "alerts_ok s" "evaluate_rule en rule occ run running now (payload, s) = Inr (payload', s')"
  shows "alerts_ok s'"
  using assms by (auto simp: evaluate_rule_def Let_def rbind_Inr_iff split: if_splits prod.splits intro: alerts_ok_create)

lemma alerts_ok_rules:
  assumes "alerts_ok s" "evaluate_rules en occ run running now rules (payload, s) = Inr (payload', s')"
  shows "alerts_ok s'"
  using assms
proof (induction rules arbitrary: payload s)
  case (Cons rule rules)
  then show ?case using alerts_ok_rule by (fastforce simp: rbind_Inr_iff)
qed simp

lemma alerts_ok_evaluate:
  assumes ok: "alerts_ok s" and run: "evaluate_occurrence en i facts running now s = Inr s'"
  shows "alerts_ok s'"
  using run ok alerts_ok_rules [OF ok]
  by (auto simp: evaluate_occurrence_def Let_def rbind_Inr_iff split: if_splits)

lemma alerts_ok_or_same: "alerts_ok s \<Longrightarrow> alerts_ok (or_same s (evaluate_occurrence en i facts running now s))"
  by (cases "evaluate_occurrence en i facts running now s") (simp_all add: alerts_ok_evaluate)

lemma alerts_ok_process: "alerts_ok s \<Longrightarrow> alerts_ok (process_alert_outbox en facts limit now s)"
proof -
  have "alerts_ok s \<Longrightarrow> alerts_ok (foldl (\<lambda>s i. or_same s (evaluate_occurrence en i facts False now s)) s is)" for "is" s
    by (induction "is" arbitrary: s) (simp_all add: alerts_ok_or_same)
  then show "alerts_ok s \<Longrightarrow> ?thesis" by (simp add: process_alert_outbox_def)
qed

text \<open>Diagnoses.\<close>

lemma alerts_ok_time_out: "alerts_ok s \<Longrightarrow> alerts_ok (time_out_diagnoses now s)"
  unfolding time_out_diagnoses_def by (rule alerts_ok_diagnoses) simp_all

lemma alerts_ok_release: "alerts_ok s \<Longrightarrow> alerts_ok (release_waiting now s)"
  unfolding release_waiting_def
  by (rule alerts_ok_map) (auto simp: waits_no_more_def delivery_ok_def dest!: alerts_ok_row)

lemma alerts_ok_supplement:
  assumes ok: "alerts_ok (fst se)" and e: "dl_event d < length (alert_events (fst se))"
  shows "alerts_ok (fst (add_supplement en now d se)) \<and> alert_events (fst (add_supplement en now d se)) = alert_events (fst se)"
proof -
  obtain s touched where se: "se = (s, touched)" by (cases se)
  let ?key = "delivery_identity en (ae_key (alert_events s ! dl_event d)) (dl_dest d) ''diagnosis''"
  have "alerts_ok (s\<lparr>deliveries := deliveries s @ [(new_delivery (dl_event d) (dl_sub d) ''diagnosis'' (dl_dest d)
      DELIVERY_PENDING now)\<lparr>dl_key := Some ?key, dl_diag := dl_diag d\<rparr>]\<rparr>)" if "find_key s ?key = None"
    by (rule alerts_ok_append) (use ok e that se in \<open>simp_all add: delivery_ok_def new_delivery_def\<close>)
  moreover have "alerts_ok (s\<lparr>deliveries := deliveries s @ [(new_delivery (dl_event d) (dl_sub d) ''diagnosis'' (dl_dest d)
      DELIVERY_SUPPRESSED now)\<lparr>dl_error := ''Duplicate diagnosis destination''\<rparr>]\<rparr>)"
    by (rule alerts_ok_append) (use ok e se in \<open>simp_all add: delivery_ok_def new_delivery_def\<close>)
  ultimately show ?thesis
    using ok by (cases "find_key s ?key") (simp_all add: se add_supplement_def Let_def del: alerts_ok_frame)
qed

lemma alerts_ok_supplements:
  assumes "alerts_ok (fst se)" "\<forall>d \<in> set ds. dl_event d < length (alert_events (fst se))"
  shows "alerts_ok (fst (fold (add_supplement en now) ds se))"
  using assms by (induction ds arbitrary: se) (simp_all add: alerts_ok_supplement)

lemma alerts_ok_advance: "alerts_ok s \<Longrightarrow> alerts_ok (advance_alert_diagnoses en now s)"
proof -
  assume ok: "alerts_ok s"
  let ?s2 = "release_waiting now (time_out_diagnoses now s)"
  have s2: "alerts_ok ?s2" by (rule alerts_ok_release) (rule alerts_ok_time_out [OF ok])
  have "\<forall>d \<in> set (deliveries ?s2). dl_event d < length (alert_events ?s2)"
    using alerts_ok_row [OF s2] delivery_ok_event by (metis in_set_conv_nth)
  then have "alerts_ok (fst (fold (add_supplement en now) (take 100 (filter (wants_supplement ?s2) (deliveries ?s2))) (?s2, W)))" for W
    using s2 by (intro alerts_ok_supplements) (auto dest: in_set_takeD)
  then show ?thesis
    by (simp add: advance_alert_diagnoses_def Let_def split_beta)
qed

lemma length_fold_upd_at [simp]: "length (fold (\<lambda>k. upd_at k (f k)) ks xs) = length xs"
  by (induction ks arbitrary: xs) simp_all

lemma alerts_ok_start: "alerts_ok s \<Longrightarrow> alerts_ok (start_diagnosis g now s)"
  unfolding start_diagnosis_def by (rule alerts_ok_diagnoses) simp_all

lemma alerts_ok_end: "alerts_ok s \<Longrightarrow> alerts_ok (end_diagnosis en g error now s)"
  unfolding end_diagnosis_def by (intro alerts_ok_advance alerts_ok_diagnoses) simp_all

lemma alerts_ok_dispatch: "alerts_ok s \<Longrightarrow> alerts_ok (dispatch_alert_diagnoses en broker limit now s)"
  unfolding dispatch_alert_diagnoses_def Let_def alerts_ok_frame
  by (intro alerts_ok_diagnoses alerts_ok_advance) simp_all

text \<open>Deliveries.\<close>

lemma alerts_ok_claim:
  assumes ok: "alerts_ok s"
  shows "alerts_ok (claim_delivery i now s)"
proof (cases "i < length (deliveries s) \<and> claimable now (deliveries s ! i)")
  case True
  let ?d = "(deliveries s ! i)\<lparr>dl_status := DELIVERY_SENDING, dl_claimed := Some now,
    dl_token := Some (length (jobs s)), dl_attempts := dl_attempts (deliveries s ! i) + 1\<rparr>"
  let ?s = "s\<lparr>deliveries := (deliveries s)[i := ?d], jobs := jobs s @ [\<lparr>jb_delivery = i, jb_stage = Claimed\<rparr>]\<rparr>"
  have s': "claim_delivery i now s = ?s" using True by (simp add: claim_delivery_def upd_at_update)
  have token: "token_ok ?s a d" if "token_ok s a d" for a d
    using that by (auto simp: token_ok_def nth_append split: option.splits)
  have old: "delivery_ok ?s a d" if "delivery_ok s a d" for a d
    using that token [of a d] by (simp add: delivery_ok_def)
  have "delivery_ok ?s i ?d"
  proof -
    have "dl_status (deliveries s ! i) = DELIVERY_PENDING \<or> dl_status (deliveries s ! i) = DELIVERY_SENDING"
      "dl_attempts (deliveries s ! i) < 5"
      using True by (auto simp: claimable_def)
    moreover from this have "dl_key (deliveries s ! i) \<noteq> None"
      using True delivery_ok_key [OF alerts_ok_row [OF ok], of i] by auto
    ultimately show ?thesis
      using True delivery_ok_event [OF alerts_ok_row [OF ok], of i]
      by (simp add: delivery_ok_def token_ok_def)
  qed
  then have "deliveries_ok ?s"
    using ok old True by (auto simp: alerts_ok_def deliveries_ok_def nth_list_update)
  moreover have "dl_key (deliveries ?s ! a) = dl_key (deliveries s ! a)" for a
    using True by (cases "a = i") simp_all
  then have "keys_ok ?s" using ok by (simp add: alerts_ok_def keys_ok_def)
  moreover have "seen_ok ?s j a row" if "j < length (jobs s)" "a < length (deliveries s)" "seen_ok s j a row" for j a row
    using that True by (cases "a = i") (auto simp: seen_ok_def)
  then have "jobs_ok ?s"
    using ok True by (auto simp: alerts_ok_def jobs_ok_def nth_append less_Suc_eq stage_row_def)
  moreover have "events_ok ?s = events_ok s" by (simp add: events_ok_def)
  ultimately show ?thesis using ok by (simp add: s' alerts_ok_def)
qed (auto simp: claim_delivery_def ok)

lemma alerts_ok_stage:
  assumes ok: "alerts_ok s"
    and row: "\<And>row. j < length (jobs s) \<Longrightarrow> stage_row st = Some row \<Longrightarrow> seen_ok s j (jb_delivery (jobs s ! j)) row"
  shows "alerts_ok (set_stage j st s)"
proof -
  let ?s = "set_stage j st s"
  have jobs: "length (jobs ?s) = length (jobs s)" "k < length (jobs s) \<Longrightarrow> jb_delivery (jobs ?s ! k) = jb_delivery (jobs s ! k)"
    "k < length (jobs s) \<Longrightarrow> jb_stage (jobs ?s ! k) = (if k = j then st else jb_stage (jobs s ! k))" for k
    by (auto simp: set_stage_def nth_upd_at)
  have same: "deliveries ?s = deliveries s" "alert_events ?s = alert_events s" "diagnoses ?s = diagnoses s"
    by (simp_all add: set_stage_def)
  have "token_ok ?s i d = token_ok s i d" for i d by (auto simp: token_ok_def jobs split: option.splits)
  then have "delivery_ok ?s i d = delivery_ok s i d" for i d by (simp add: delivery_ok_def same)
  then have "deliveries_ok ?s" using ok by (simp add: alerts_ok_def deliveries_ok_def same)
  moreover have "keys_ok ?s = keys_ok s" "events_ok ?s = events_ok s" by (simp_all add: keys_ok_def events_ok_def same)
  moreover have "seen_ok ?s = seen_ok s" by (intro ext) (simp add: seen_ok_def same)
  then have "jobs_ok ?s" using ok row by (auto simp: alerts_ok_def jobs_ok_def jobs same)
  ultimately show ?thesis using ok by (simp add: alerts_ok_def)
qed

lemma stage_frame [simp]:
  "deliveries (set_stage j st s) = deliveries s" "alert_events (set_stage j st s) = alert_events s"
  "diagnoses (set_stage j st s) = diagnoses s" "config (set_stage j st s) = config s"
  "sent_messages (set_stage j st s) = sent_messages s"
  by (simp_all add: set_stage_def)

lemma jobs_ok_row:
  "alerts_ok s \<Longrightarrow> j < length (jobs s) \<Longrightarrow> jb_delivery (jobs s ! j) < length (deliveries s)"
  "alerts_ok s \<Longrightarrow> j < length (jobs s) \<Longrightarrow> stage_row (jb_stage (jobs s ! j)) = Some row \<Longrightarrow>
     seen_ok s j (jb_delivery (jobs s ! j)) row"
  by (simp_all add: alerts_ok_def jobs_ok_def)

lemma alerts_ok_save: "alerts_ok s \<Longrightarrow> alerts_ok (save_destination i row s)"
  unfolding save_destination_def by (rule alerts_ok_upd_at) (auto simp: delivery_ok_def dest!: alerts_ok_row)

lemma alerts_ok_prepare:
  assumes ok: "alerts_ok s"
  shows "alerts_ok (prepare_delivery j s)"
proof (cases "j < length (jobs s) \<and> jb_stage (jobs s ! j) = Claimed \<and> jb_delivery (jobs s ! j) < length (deliveries s)")
  case True
  let ?i = "jb_delivery (jobs s ! j)"
  have "seen_ok s j ?i (deliveries s ! ?i)" "seen_ok s j ?i (in_language lang (deliveries s ! ?i))" for lang
    using delivery_ok_attempts [OF alerts_ok_row [OF ok, of ?i]] True by (simp_all add: seen_ok_def in_language_def)
  note seen = this
  have stage: "alerts_ok (set_stage j (Answered row x) s)" "alerts_ok (set_stage j (Ready row y) s)"
    if "row = deliveries s ! ?i \<or> (\<exists>lang. row = in_language lang (deliveries s ! ?i))" for row x y
    by (rule alerts_ok_stage [OF ok]; use that seen in auto)+
  show ?thesis
    using True unfolding prepare_delivery_def Let_def
    by (auto intro!: alerts_ok_save stage split: sum.split delivery_decision.split)
qed (auto simp: prepare_delivery_def ok)

lemma alerts_ok_provider:
  assumes ok: "alerts_ok s"
  shows "alerts_ok (provider_answers j reply s)"
proof -
  have "alerts_ok (set_stage j (Answered row reply) s)" if "j < length (jobs s)" "jb_stage (jobs s ! j) = Ready row rs" for row rs
    using jobs_ok_row(2) [OF ok that(1)] that(2) by (intro alerts_ok_stage [OF ok]) simp
  then show ?thesis
    using ok by (simp add: provider_answers_def split: job_stage.split)
qed

text \<open>The promotion of a duplicate moves the key of a skipped delivery.\<close>

lemma point_to_simps [simp]:
  "dl_event (point_to r d) = dl_event d" "dl_token (point_to r d) = dl_token d" "dl_key (point_to r d) = dl_key d"
  "dl_attempts (point_to r d) = dl_attempts d" "dl_status (point_to r d) = dl_status d"
  by (simp_all add: point_to_def)

lemma alerts_ok_point_to:
  assumes "alerts_ok s"
  shows "alerts_ok (s\<lparr>deliveries := fold (\<lambda>k. upd_at k (point_to r)) ks (deliveries s)\<rparr>)"
  using assms
proof (induction ks arbitrary: s)
  case (Cons k ks)
  have "alerts_ok (s\<lparr>deliveries := upd_at k (point_to r) (deliveries s)\<rparr>)"
    by (rule alerts_ok_upd_at [OF Cons.prems])
      (auto simp: point_to_def delivery_ok_def dest!: alerts_ok_row [OF Cons.prems])
  from Cons.IH [OF this] show ?case by simp
qed simp

lemma alerts_ok_move_key:
  assumes ok: "alerts_ok s" and i: "i < length (deliveries s)" "dl_status (deliveries s ! i) = DELIVERY_SKIPPED"
    and r: "r < length (deliveries s)" "dl_status (deliveries s ! r) = DELIVERY_SUPPRESSED"
    and key: "dl_key (deliveries s ! i) = Some k"
  shows "alerts_ok (s\<lparr>deliveries := (deliveries s)[i := (deliveries s ! i)\<lparr>dl_key := None\<rparr>,
      r := (point_to None (deliveries s ! r))\<lparr>dl_key := Some k, dl_diag := g, dl_status := DELIVERY_PENDING,
             dl_error := [], dl_next := now\<rparr>]\<rparr>)"
proof -
  let ?r = "(point_to None (deliveries s ! r))\<lparr>dl_key := Some k, dl_diag := g, dl_status := DELIVERY_PENDING,
             dl_error := [], dl_next := now\<rparr>"
  let ?D = "(deliveries s)[i := (deliveries s ! i)\<lparr>dl_key := None\<rparr>, r := ?r]"
  let ?s = "s\<lparr>deliveries := ?D\<rparr>"
  have ne: "r \<noteq> i" using i r by auto
  have nth: "?D ! a = (if a = r then ?r else if a = i then (deliveries s ! i)\<lparr>dl_key := None\<rparr> else deliveries s ! a)" for a
    using i(1) r(1) ne by (auto simp: nth_list_update)
  note rowi = alerts_ok_row [OF ok i(1)] and rowr = alerts_ok_row [OF ok r(1)]
  have rowcong: "delivery_ok ?s = delivery_ok s" by (intro ext) (simp add: delivery_ok_def)
  have rr: "dl_attempts (deliveries s ! r) = 0" "dl_token (deliveries s ! r) = None" "dl_event (deliveries s ! r) < length (alert_events s)"
    using delivery_ok_untried [OF rowr] delivery_ok_unclaimed [OF rowr] delivery_ok_event [OF rowr] r(2) by simp_all
  then have "delivery_ok s r ?r" by (simp add: delivery_ok_def point_to_def)
  moreover have "delivery_ok s i ((deliveries s ! i)\<lparr>dl_key := None\<rparr>)"
    using delivery_ok_unclaimed [OF rowi] delivery_ok_event [OF rowi] delivery_ok_attempts [OF rowi] i(2) by (simp add: delivery_ok_def)
  ultimately have "deliveries_ok ?s"
    using alerts_ok_row [OF ok] by (simp add: deliveries_ok_def rowcong nth)
  moreover have uniq: "a = i" if "a < length (deliveries s)" "dl_key (deliveries s ! a) = Some k" for a
    using ok that i(1) key by (auto simp: alerts_ok_def keys_ok_def)
  have "keys_ok ?s"
    unfolding keys_ok_def
  proof (intro allI impI)
    fix a b x
    assume ab: "a < length (deliveries ?s)" "b < length (deliveries ?s)"
      "dl_key (deliveries ?s ! a) = Some x \<and> dl_key (deliveries ?s ! b) = Some x"
    show "a = b"
    proof (cases "a = r \<or> b = r")
      case True
      then show ?thesis using ab uniq [of a] uniq [of b] by (auto simp: nth split: if_splits)
    next
      case False
      then have "dl_key (deliveries s ! a) = Some x" "dl_key (deliveries s ! b) = Some x"
        using ab(3) by (auto simp: nth split: if_splits)
      then show ?thesis using ok ab(1,2) by (auto simp: alerts_ok_def keys_ok_def)
    qed
  qed
  moreover have "seen_ok ?s j a row" if "seen_ok s j a row" for j a row
    using that rr(2) delivery_ok_unclaimed [OF rowi] i(2) by (simp add: seen_ok_def nth)
  then have "jobs_ok ?s" using ok by (simp add: alerts_ok_def jobs_ok_def)
  ultimately show ?thesis using ok by (simp add: alerts_ok_def)
qed

lemma alerts_ok_promote:
  assumes ok: "alerts_ok s" and i: "i < length (deliveries s)" "dl_status (deliveries s ! i) = DELIVERY_SKIPPED"
    and key: "dl_key row = dl_key (deliveries s ! i)"
  shows "alerts_ok (promote_duplicate i row now s)"
proof (cases "dl_key row = None \<or> duplicates_of s i = []")
  case False
  then obtain k r rest where k: "dl_key row = Some k" and dup: "duplicates_of s i = r # rest"
    by (auto simp: neq_Nil_conv)
  from dup have r: "r < length (deliveries s)" "dl_status (deliveries s ! r) = DELIVERY_SUPPRESSED"
    using set_positions [of _ "deliveries s"] unfolding duplicates_of_def
    by (metis (mono_tags, lifting) list.set_intros(1) mem_Collect_eq)+
  have "r \<noteq> i" using r(2) i(2) by auto
  then have moved: "alerts_ok (s\<lparr>deliveries := upd_at r (\<lambda>d. (point_to None d)\<lparr>dl_key := Some k, dl_diag := dl_diag row,
      dl_status := DELIVERY_PENDING, dl_error := [], dl_next := now\<rparr>) (upd_at i (\<lambda>d. d\<lparr>dl_key := None\<rparr>) (deliveries s))\<rparr>)"
    using alerts_ok_move_key [OF ok i r trans [OF key [symmetric] k]] i(1) r(1) by (simp add: upd_at_update)
  from alerts_ok_point_to [OF this, of "Some r" rest] show ?thesis
    using k dup by (simp add: promote_duplicate_def Let_def)
qed (auto simp: promote_duplicate_def ok)

lemma result_status_cases: "result_status n x \<in> {DELIVERY_SKIPPED, DELIVERY_SENT, DELIVERY_FAILED, DELIVERY_PENDING}"
  by (simp add: result_status_def split: job_result.split)

lemma result_status_pending: "result_status n x = DELIVERY_PENDING \<Longrightarrow> n < 5"
  by (simp add: result_status_def split: job_result.splits if_splits)

definition settle_row :: "delivery \<Rightarrow> job_result \<Rightarrow> int \<Rightarrow> delivery \<Rightarrow> delivery" where
  "settle_row row x now d =
     d\<lparr>dl_status := result_status (dl_attempts row) x, dl_attempts := dl_attempts row,
       dl_error := take 500 (result_error x), dl_token := None,
       dl_sent := (if result_status (dl_attempts row) x = DELIVERY_SENT then Some now else None),
       dl_next := now + backoff (dl_attempts row)\<rparr>"

lemma finish_delivery_cases:
  assumes "j < length (jobs s)" "jb_stage (jobs s ! j) = Answered row x" "jb_delivery (jobs s ! j) = i"
  shows "finish_delivery j now s =
     (if i < length (deliveries s) \<and> dl_token (deliveries s ! i) = Some j
      then refresh_event_status (dl_event row)
        ((if result_status (dl_attempts row) x = DELIVERY_SKIPPED then promote_duplicate i row now else id)
          ((set_stage j Closed s)\<lparr>deliveries := (deliveries s)[i := settle_row row x now (deliveries s ! i)]\<rparr>))
      else set_stage j Closed s)"
  using assms by (simp add: finish_delivery_def Let_def settle_row_def upd_at_update)

lemma alerts_ok_finish:
  assumes ok: "alerts_ok s"
  shows "alerts_ok (finish_delivery j now s)"
proof (cases "j < length (jobs s) \<and> (\<exists>row x. jb_stage (jobs s ! j) = Answered row x)")
  case True
  then obtain row x where stage: "jb_stage (jobs s ! j) = Answered row x" by blast
  let ?i = "jb_delivery (jobs s ! j)"
  let ?d = "settle_row row x now (deliveries s ! ?i)"
  have closed: "alerts_ok (set_stage j Closed s)" by (rule alerts_ok_stage [OF ok]) simp
  show ?thesis
  proof (cases "?i < length (deliveries s) \<and> dl_token (deliveries s ! ?i) = Some j")
    case mine: True
    have seen: "dl_attempts row \<le> 5" "dl_key row = dl_key (deliveries s ! ?i)"
      using jobs_ok_row(2) [OF ok, of j row] True stage mine by (simp_all add: seen_ok_def)
    note row = alerts_ok_row [OF closed, of ?i]
    have "dl_status (deliveries s ! ?i) \<noteq> DELIVERY_SUPPRESSED" "dl_status (deliveries s ! ?i) \<noteq> DELIVERY_SKIPPED"
      using delivery_ok_unclaimed [OF row] mine by auto
    then have "dl_key (deliveries s ! ?i) \<noteq> None" using delivery_ok_key [OF row] mine by simp
    then have "delivery_ok (set_stage j Closed s) ?i ?d"
      using delivery_ok_event [OF row] mine seen(1) result_status_cases [of "dl_attempts row" x]
        result_status_pending [of "dl_attempts row" x]
      by (auto simp: delivery_ok_def settle_row_def)
    then have "alerts_ok ((set_stage j Closed s)\<lparr>deliveries := (deliveries s)[?i := ?d]\<rparr>)" (is "alerts_ok ?s1")
      using alerts_ok_change [OF closed, of ?i ?d] mine by (simp add: settle_row_def)
    moreover from this have "alerts_ok (promote_duplicate ?i row now ?s1)"
      if "result_status (dl_attempts row) x = DELIVERY_SKIPPED"
      by (rule alerts_ok_promote) (use that mine seen(2) in \<open>simp_all add: settle_row_def\<close>)
    ultimately show ?thesis
      using True mine by (simp add: finish_delivery_cases [OF _ stage refl])
  qed (use True closed in \<open>auto simp: finish_delivery_cases [OF _ stage refl]\<close>)
next
  case False
  then show ?thesis using ok by (auto simp: finish_delivery_def split: job_stage.split)
qed

lemma alerts_ok_fail: "alerts_ok s \<Longrightarrow> alerts_ok (fail_exhausted now s)"
proof -
  assume ok: "alerts_ok s"
  have "alerts_ok (s\<lparr>deliveries := map (\<lambda>d. if exhausted_lease now d
      then d\<lparr>dl_status := DELIVERY_FAILED, dl_error := ''Delivery worker lease expired after final attempt''\<rparr> else d)
      (deliveries s)\<rparr>)"
  proof (rule alerts_ok_map [OF ok])
    fix i
    assume "i < length (deliveries s)"
    note row = alerts_ok_row [OF ok this]
    show "delivery_ok s i (if exhausted_lease now (deliveries s ! i)
        then (deliveries s ! i)\<lparr>dl_status := DELIVERY_FAILED, dl_error := ''Delivery worker lease expired after final attempt''\<rparr>
        else deliveries s ! i)"
      using row delivery_okD [OF row] by (auto simp: delivery_ok_def exhausted_lease_def)
  qed auto
  then show ?thesis by (simp add: fail_exhausted_def Let_def)
qed

lemma alerts_ok_retry: "alerts_ok s \<Longrightarrow> alerts_ok (retry_event e now s)"
proof -
  assume ok: "alerts_ok s"
  let ?f = "\<lambda>d. if dl_event d = e \<and> dl_status d = DELIVERY_FAILED
     then d\<lparr>dl_status := DELIVERY_PENDING, dl_attempts := 0, dl_next := now, dl_error := []\<rparr> else d"
  have "alerts_ok (s\<lparr>deliveries := map ?f (deliveries s)\<rparr>)"
  proof (rule alerts_ok_map [OF ok])
    fix i
    assume "i < length (deliveries s)"
    note row = alerts_ok_row [OF ok this]
    show "delivery_ok s i (?f (deliveries s ! i))"
      using row delivery_okD [OF row] by (auto simp: delivery_ok_def)
  qed auto
  then have "alerts_ok (s\<lparr>deliveries := map ?f (deliveries s),
      alert_events := upd_at e (\<lambda>ev. ev\<lparr>ae_status := EVENT_PENDING\<rparr>) (alert_events s)\<rparr>)"
    by (rule alerts_ok_cong [THEN iffD2, rotated 4]) (simp_all add: map_upd_at)
  then show ?thesis using ok by (simp add: retry_event_def)
qed

lemma alerts_ok_step: "alerts_ok s \<Longrightarrow> alerts_ok (alert_step en s a)"
  by (cases a) (auto simp: alerts_ok_enqueue alerts_ok_or_same alerts_ok_process alerts_ok_claim alerts_ok_prepare
      alerts_ok_provider alerts_ok_finish alerts_ok_fail alerts_ok_retry alerts_ok_start alerts_ok_end alerts_ok_advance
      alerts_ok_dispatch dest: alerts_ok_publish split: sum.split)

interpretation alert_tables: step_invariant "alert_step en" alerts_ok for en
  by unfold_locales (rule alerts_ok_step)

lemma alerts_ok_new: "alerts_ok (new_alerts cf)"
  by (simp add: new_alerts_def alerts_ok_def deliveries_ok_def keys_ok_def jobs_ok_def events_ok_def)

end
