(* ===== verification/Alert_Promises.thy ===== *)
theory Alert_Promises
  imports Alert_Properties
begin

text \<open>
  The promises of the alert pipeline over whole histories of occurrences, workers, operators and
  provider answers: an accepted alert stays accepted and is never claimed again, a waiting delivery
  can always go on, and a message only goes to recipients that were and still are subscribed.
\<close>

section \<open>An accepted alert is final\<close>

text \<open>The key, the time and the claims of a delivery the provider has accepted.\<close>

definition claims_of :: "alerts \<Rightarrow> nat \<Rightarrow> nat list" where
  "claims_of s i = positions (\<lambda>b. jb_delivery b = i) (jobs s)"

definition sent_view :: "alerts \<Rightarrow> nat \<Rightarrow> (string option \<times> int option \<times> nat list) option" where
  "sent_view s i =
     (if i < length (deliveries s) \<and> dl_status (deliveries s ! i) = DELIVERY_SENT \<and> dl_token (deliveries s ! i) = None
      then Some (dl_key (deliveries s ! i), dl_sent (deliveries s ! i), claims_of s i) else None)"

lemma sent_view_Some:
  "sent_view s i = Some v \<longleftrightarrow> i < length (deliveries s) \<and> dl_status (deliveries s ! i) = DELIVERY_SENT
     \<and> dl_token (deliveries s ! i) = None \<and> v = (dl_key (deliveries s ! i), dl_sent (deliveries s ! i), claims_of s i)"
  by (auto simp: sent_view_def)

definition keeps_sent :: "alerts \<Rightarrow> alerts \<Rightarrow> bool" where
  "keeps_sent s s' \<longleftrightarrow> (\<forall>i v. sent_view s i = Some v \<longrightarrow> sent_view s' i = Some v)"

lemma keeps_sent_refl [simp]: "keeps_sent s s"
  by (simp add: keeps_sent_def)

lemma keeps_sent_trans: "keeps_sent s s' \<Longrightarrow> keeps_sent s' s'' \<Longrightarrow> keeps_sent s s''"
  by (simp add: keeps_sent_def)

lemma keeps_sentI:
  assumes "length (deliveries s) \<le> length (deliveries s')"
    and "\<And>i. i < length (deliveries s) \<Longrightarrow> dl_status (deliveries s ! i) = DELIVERY_SENT \<Longrightarrow> dl_token (deliveries s ! i) = None \<Longrightarrow>
       dl_status (deliveries s' ! i) = DELIVERY_SENT \<and> dl_token (deliveries s' ! i) = None
       \<and> dl_key (deliveries s' ! i) = dl_key (deliveries s ! i) \<and> dl_sent (deliveries s' ! i) = dl_sent (deliveries s ! i)"
    and "\<And>i. i < length (deliveries s) \<Longrightarrow> dl_status (deliveries s ! i) = DELIVERY_SENT \<Longrightarrow> claims_of s' i = claims_of s i"
  shows "keeps_sent s s'"
  using assms by (force simp: keeps_sent_def sent_view_Some)

lemma claims_of_cong: "map jb_delivery (jobs s') = map jb_delivery (jobs s) \<Longrightarrow> claims_of s' i = claims_of s i"
proof -
  assume eq: "map jb_delivery (jobs s') = map jb_delivery (jobs s)"
  have "claims_of t i = filter (\<lambda>j. map jb_delivery (jobs t) ! j = i) [0..<length (map jb_delivery (jobs t))]" for t
    unfolding claims_of_def positions_def length_map by (rule filter_cong) auto
  moreover have "length (jobs s') = length (jobs s)" using arg_cong [OF eq, of length] by simp
  ultimately show ?thesis using eq by simp
qed

text \<open>Rows are only added, or changed where nothing has been accepted.\<close>

lemma keeps_sent_prefix:
  assumes "prefix (deliveries s) (deliveries s')" "jobs s' = jobs s"
  shows "keeps_sent s s'"
  using assms by (intro keeps_sentI) (auto simp: prefix_def nth_append claims_of_def)

lemma keeps_sent_map:
  assumes "deliveries s' = map f (deliveries s)" "jobs s' = jobs s"
    and "\<And>d. dl_status d = DELIVERY_SENT \<Longrightarrow> f d = d"
  shows "keeps_sent s s'"
  using assms by (intro keeps_sentI) (auto simp: claims_of_def)

definition adds_rows :: "alerts \<Rightarrow> alerts \<Rightarrow> bool" where
  "adds_rows s s' \<longleftrightarrow> prefix (deliveries s) (deliveries s') \<and> prefix (diagnoses s) (diagnoses s') \<and> jobs s' = jobs s"

lemma adds_rows_refl [simp]: "adds_rows s s"
  by (simp add: adds_rows_def)

lemma adds_rows_frame [simp]:
  "adds_rows s (s'\<lparr>occurrences := x\<rparr>) = adds_rows s s'" "adds_rows s (refresh_event_status e s') = adds_rows s s'"
  by (simp_all add: adds_rows_def refresh_event_status_def)

lemma adds_rows_trans: "adds_rows s s' \<Longrightarrow> adds_rows s' s'' \<Longrightarrow> adds_rows s s''"
  using prefix_order.trans by (auto simp: adds_rows_def)

lemma kept_grows: "adds_rows s s' \<Longrightarrow> keeps_sent s s'"
  by (simp add: adds_rows_def keeps_sent_prefix)

lemma adds_rows_add: "adds_rows s (add_delivery en rule skey e sub dest c now s)"
proof (cases "c \<or> find_key s (delivery_identity en (Some skey) dest ''initial'') \<noteq> None")
  case False
  let ?s1 = "s\<lparr>deliveries := deliveries s @ [(new_delivery e (sb_id sub) ''initial'' dest DELIVERY_PENDING now)
    \<lparr>dl_key := Some (delivery_identity en (Some skey) dest ''initial'')\<rparr>]\<rparr>"
  obtain g s' where g: "shared_diagnosis en rule skey now (deliveries ?s1 ! length (deliveries s)) ?s1 = (g, s')"
    by (cases "shared_diagnosis en rule skey now (deliveries ?s1 ! length (deliveries s)) ?s1")
  have same: "deliveries s' = deliveries ?s1 \<and> jobs s' = jobs s \<and> prefix (diagnoses s) (diagnoses s')"
    using g by (auto simp: shared_diagnosis_def Let_def split: option.splits)
  show ?thesis
    using False g same by (auto simp: adds_rows_def add_delivery_def attach_diagnosis_def Let_def list_update_append)
qed (auto simp: add_delivery_def adds_rows_def)

lemma adds_rows_adds: "add_deliveries en rule skey e payload now subs s = Inr s' \<Longrightarrow> adds_rows s s'"
proof (induction subs arbitrary: s)
  case (Cons sub subs)
  then obtain s0 where "add_deliveries en rule skey e payload now subs s0 = Inr s'" "adds_rows s s0"
    using adds_rows_add adds_rows_refl by (fastforce simp: rbind_Inr_iff split: if_splits)
  then show ?case using Cons.IH adds_rows_trans by blast
qed simp

lemma legacy_frame [simp]:
  "deliveries (legacy_destination rule s) = deliveries s" "jobs (legacy_destination rule s) = jobs s"
  "diagnoses (legacy_destination rule s) = diagnoses s"
  by (simp_all add: legacy_destination_def)

lemma refresh_frame [simp]:
  "deliveries (refresh_event_status e s) = deliveries s" "jobs (refresh_event_status e s) = jobs s"
  "config (refresh_event_status e s) = config s" "diagnoses (refresh_event_status e s) = diagnoses s"
  by (simp_all add: refresh_event_status_def)

lemma refreshes_frame [simp]:
  "deliveries (fold refresh_event_status es s) = deliveries s" "jobs (fold refresh_event_status es s) = jobs s"
  "config (fold refresh_event_status es s) = config s" "diagnoses (fold refresh_event_status es s) = diagnoses s"
  by (induction es arbitrary: s) simp_all

lemma wake_frame [simp]:
  "deliveries (wake_dispatcher s) = deliveries s" "jobs (wake_dispatcher s) = jobs s"
  "config (wake_dispatcher s) = config s" "diagnoses (wake_dispatcher s) = diagnoses s"
  by (simp_all add: wake_dispatcher_def)

lemma adds_rows_create: "create_event en rule skey occ run matched payload now s = Inr s' \<Longrightarrow> adds_rows s s'"
  unfolding create_event_def Let_def rbind_Inr_iff
  by (elim exE conjE) (drule adds_rows_adds, auto simp: adds_rows_def)

lemma evaluate_rule_cases:
  assumes "evaluate_rule en rule occ run running now (payload, s) = Inr (payload', s')"
  shows "s' = s \<or> (\<exists>skey matched p. create_event en rule skey occ run matched p now s = Inr s')"
  using assms by (auto simp: evaluate_rule_def Let_def rbind_Inr_iff split: if_splits prod.splits)

lemma adds_rows_rules: "evaluate_rules en occ run running now rules (payload, s) = Inr (payload', s') \<Longrightarrow> adds_rows s s'"
proof (induction rules arbitrary: payload s)
  case (Cons rule rules)
  then obtain p0 s0 where step: "evaluate_rule en rule occ run running now (payload, s) = Inr (p0, s0)"
    "evaluate_rules en occ run running now rules (p0, s0) = Inr (payload', s')"
    by (auto simp: rbind_Inr_iff)
  have "adds_rows s s0"
    using evaluate_rule_cases [OF step(1)] adds_rows_create adds_rows_refl by blast
  then show ?case using Cons.IH [OF step(2)] adds_rows_trans by blast
qed simp

lemma adds_rows_evaluate: "adds_rows s (or_same s (evaluate_occurrence en i facts running now s))"
proof (cases "evaluate_occurrence en i facts running now s")
  case (Inr s')
  then have "adds_rows s s'"
    by (auto simp: evaluate_occurrence_def Let_def rbind_Inr_iff split: if_splits dest!: adds_rows_rules)
  then show ?thesis by (simp add: Inr)
qed simp

lemma adds_rows_process: "adds_rows s (process_alert_outbox en facts limit now s)"
proof -
  have "adds_rows s (foldl (\<lambda>s i. or_same s (evaluate_occurrence en i facts False now s)) s is)" for "is" s
    by (induction "is" arbitrary: s) (auto intro: adds_rows_trans adds_rows_evaluate)
  then show ?thesis by (simp add: process_alert_outbox_def)
qed

lemma adds_rows_supplements:
  "prefix (deliveries (fst se)) (deliveries (fst (fold (add_supplement en now) ds se)))
   \<and> jobs (fst (fold (add_supplement en now) ds se)) = jobs (fst se)"
proof (induction ds arbitrary: se)
  case (Cons d ds)
  have "prefix (deliveries (fst se)) (deliveries (fst (add_supplement en now d se)))
      \<and> jobs (fst (add_supplement en now d se)) = jobs (fst se)"
    by (cases se) (simp add: add_supplement_def Let_def split: option.split)
  then show ?case using Cons.IH [of "add_supplement en now d se"] prefix_order.trans by auto
qed simp

lemma kept_advance: "keeps_sent s (advance_alert_diagnoses en now s)"
proof -
  let ?s1 = "time_out_diagnoses now s"
  have "keeps_sent s (release_waiting now ?s1)"
    by (rule keeps_sent_map [where f = "\<lambda>d. if waits_no_more ?s1 d then d\<lparr>dl_status := DELIVERY_PENDING, dl_next := now\<rparr> else d"])
      (auto simp: release_waiting_def time_out_diagnoses_def waits_no_more_def)
  moreover have "keeps_sent (release_waiting now ?s1) (advance_alert_diagnoses en now s)"
    using adds_rows_supplements by (intro keeps_sent_prefix) (force simp: advance_alert_diagnoses_def Let_def split_beta)+
  ultimately show ?thesis by (rule keeps_sent_trans)
qed

lemma kept_deliveries_same:
  "deliveries s' = deliveries s \<Longrightarrow> map jb_delivery (jobs s') = map jb_delivery (jobs s) \<Longrightarrow> keeps_sent s s'"
  by (rule keeps_sentI) (simp_all add: claims_of_cong [of s' s])

lemma job_targets_stage [simp]: "map jb_delivery (jobs (set_stage j st s)) = map jb_delivery (jobs s)"
  by (simp add: set_stage_def map_upd_at)

lemma kept_stage [simp]: "keeps_sent s (set_stage j st s)"
  by (rule kept_deliveries_same) simp_all

lemma kept_change:
  assumes "dl_status (deliveries s ! i) \<noteq> DELIVERY_SENT \<or> dl_token (deliveries s ! i) \<noteq> None"
    and "deliveries s' = upd_at i f (deliveries s)" "map jb_delivery (jobs s') = map jb_delivery (jobs s)"
  shows "keeps_sent s s'"
  using assms by (intro keeps_sentI) (auto simp: nth_upd_at claims_of_cong [OF assms(3)])

lemma kept_claim: "keeps_sent s (claim_delivery i now s)"
proof (cases "i < length (deliveries s) \<and> claimable now (deliveries s ! i)")
  case True
  have "claims_of (claim_delivery i now s) k = claims_of s k" if "k \<noteq> i" for k
    using that True by (auto simp: claims_of_def positions_def claim_delivery_def nth_append intro: filter_cong)
  moreover have "dl_status (deliveries s ! i) \<noteq> DELIVERY_SENT" using True by (auto simp: claimable_def)
  moreover have "deliveries (claim_delivery i now s) ! k = deliveries s ! k" if "k < length (deliveries s)" "k \<noteq> i" for k
    using that by (simp add: claim_delivery_def nth_upd_at)
  moreover have "length (deliveries (claim_delivery i now s)) = length (deliveries s)" by (simp add: claim_delivery_def)
  ultimately show ?thesis by (intro keeps_sentI) (metis order_refl)+
qed (auto simp: claim_delivery_def)

lemma kept_save: "keeps_sent s (save_destination i row s)"
  by (intro keeps_sentI) (auto simp: save_destination_def nth_upd_at claims_of_def)

lemma kept_prepare: "keeps_sent s (prepare_delivery j s)"
  unfolding prepare_delivery_def Let_def
  by (auto intro: keeps_sent_trans [OF kept_stage kept_save] split: sum.split delivery_decision.split)

lemma kept_provider: "keeps_sent s (provider_answers j reply s)"
  unfolding provider_answers_def
  by (auto intro!: kept_deliveries_same split: job_stage.split)

lemma set_duplicates: "set (duplicates_of s i) =
    {r. r < length (deliveries s) \<and> dl_status (deliveries s ! r) = DELIVERY_SUPPRESSED \<and> ds_duplicate (dl_dest (deliveries s ! r)) = Some i}"
  by (simp add: duplicates_of_def set_positions)

lemma fold_point_to:
  assumes "k < length D"
  shows "dl_status (fold (\<lambda>k. upd_at k (point_to r)) ks D ! k) = dl_status (D ! k)
    \<and> dl_token (fold (\<lambda>k. upd_at k (point_to r)) ks D ! k) = dl_token (D ! k)
    \<and> dl_key (fold (\<lambda>k. upd_at k (point_to r)) ks D ! k) = dl_key (D ! k)
    \<and> dl_sent (fold (\<lambda>k. upd_at k (point_to r)) ks D ! k) = dl_sent (D ! k)"
  using assms
proof (induction ks arbitrary: D)
  case (Cons a ks)
  then show ?case using Cons.IH [of "upd_at a (point_to r) D"] by (simp add: nth_upd_at) (simp add: point_to_def)
qed simp

lemma kept_promote:
  assumes "dl_status (deliveries s ! i) = DELIVERY_SKIPPED"
  shows "keeps_sent s (promote_duplicate i row now s)"
proof (cases "dl_key row = None \<or> duplicates_of s i = []")
  case False
  then obtain key r rest where key: "dl_key row = Some key" and dup: "duplicates_of s i = r # rest"
    by (auto simp: neq_Nil_conv)
  then have r: "dl_status (deliveries s ! r) = DELIVERY_SUPPRESSED" "r < length (deliveries s)"
    using set_duplicates [of s i] by auto
  let ?D2 = "upd_at r (\<lambda>d. (point_to None d)\<lparr>dl_key := dl_key row, dl_diag := dl_diag row,
      dl_status := DELIVERY_PENDING, dl_error := [], dl_next := now\<rparr>) (upd_at i (\<lambda>d. d\<lparr>dl_key := None\<rparr>) (deliveries s))"
  have res: "deliveries (promote_duplicate i row now s) = fold (\<lambda>k. upd_at k (point_to (Some r))) rest ?D2"
    "jobs (promote_duplicate i row now s) = jobs s"
    using key dup by (simp_all add: promote_duplicate_def Let_def)
  show ?thesis
  proof (rule keeps_sentI)
    fix k
    assume k: "k < length (deliveries s)" "dl_status (deliveries s ! k) = DELIVERY_SENT" "dl_token (deliveries s ! k) = None"
    then have ne: "k \<noteq> r" "k \<noteq> i" using r(1) assms by auto
    have "?D2 ! k = deliveries s ! k" using k(1) ne by (simp add: nth_upd_at)
    then show "dl_status (deliveries (promote_duplicate i row now s) ! k) = DELIVERY_SENT
        \<and> dl_token (deliveries (promote_duplicate i row now s) ! k) = None
        \<and> dl_key (deliveries (promote_duplicate i row now s) ! k) = dl_key (deliveries s ! k)
        \<and> dl_sent (deliveries (promote_duplicate i row now s) ! k) = dl_sent (deliveries s ! k)"
      using fold_point_to [of k ?D2 "Some r" rest] k by (simp add: res)
  qed (simp_all add: res claims_of_def)
qed (auto simp: promote_duplicate_def)

lemma kept_finish: "keeps_sent s (finish_delivery j now s)"
proof (cases "j < length (jobs s) \<and> (\<exists>row x. jb_stage (jobs s ! j) = Answered row x)")
  case True
  then obtain row x where stage: "jb_stage (jobs s ! j) = Answered row x" by blast
  let ?i = "jb_delivery (jobs s ! j)"
  show ?thesis
  proof (cases "?i < length (deliveries s) \<and> dl_token (deliveries s ! ?i) = Some j")
    case mine: True
    let ?s1 = "(set_stage j Closed s)\<lparr>deliveries := (deliveries s)[?i := settle_row row x now (deliveries s ! ?i)]\<rparr>"
    have s1: "keeps_sent s ?s1"
      by (rule kept_change [of _ ?i _ "settle_row row x now"]) (use mine in \<open>simp_all add: upd_at_update\<close>)
    moreover have "keeps_sent ?s1 (promote_duplicate ?i row now ?s1)" if "result_status (dl_attempts row) x = DELIVERY_SKIPPED"
      by (rule kept_promote) (use that mine in \<open>simp add: settle_row_def\<close>)
    ultimately have "keeps_sent s ((if result_status (dl_attempts row) x = DELIVERY_SKIPPED then promote_duplicate ?i row now else id) ?s1)"
      by (auto intro: keeps_sent_trans)
    then have "keeps_sent s (refresh_event_status (dl_event row)
        ((if result_status (dl_attempts row) x = DELIVERY_SKIPPED then promote_duplicate ?i row now else id) ?s1))"
      by (rule keeps_sent_trans) (rule kept_deliveries_same; simp)
    then show ?thesis
      using conjunct1 [OF True] mine by (simp only: finish_delivery_cases [OF _ stage refl] if_True simp_thms)
  next
    case False
    then show ?thesis using conjunct1 [OF True] by (simp only: finish_delivery_cases [OF _ stage refl] if_False kept_stage)
  qed
qed (auto simp: finish_delivery_def split: job_stage.split)

lemma kept_fail: "keeps_sent s (fail_exhausted now s)"
  by (rule keeps_sent_map [where f = "\<lambda>d. if exhausted_lease now d then d\<lparr>dl_status := DELIVERY_FAILED,
        dl_error := ''Delivery worker lease expired after final attempt''\<rparr> else d"])
    (auto simp: fail_exhausted_def Let_def exhausted_lease_def)

lemma kept_retry: "keeps_sent s (retry_event e now s)"
proof (cases "list_ex (\<lambda>d. dl_event d = e \<and> dl_status d = DELIVERY_FAILED) (deliveries s)")
  case True
  show ?thesis
    by (rule keeps_sent_map [where f = "\<lambda>d. if dl_event d = e \<and> dl_status d = DELIVERY_FAILED
          then d\<lparr>dl_status := DELIVERY_PENDING, dl_attempts := 0, dl_next := now, dl_error := []\<rparr> else d"])
      (use True in \<open>auto simp: retry_event_def\<close>)
qed (simp add: retry_event_def)

lemma kept_publish: "publish_message en topic key title body tr by now s = Inr (s', c) \<Longrightarrow> keeps_sent s s'"
  by (auto simp: publish_message_def Let_def intro!: kept_deliveries_same split: option.splits if_splits)

lemma kept_enqueue: "keeps_sent s (enqueue_occurrence subject source payload phase now s)"
  by (auto simp: enqueue_occurrence_def Let_def intro!: kept_deliveries_same split: option.splits)

lemma kept_step: "keeps_sent s (alert_step en s a)"
proof (cases a)
  case (Publish t k ti b tr p n)
  then show ?thesis by (auto split: sum.split dest: kept_publish)
next
  case (EndDiagnosis g err n)
  then show ?thesis
    by (auto simp: end_diagnosis_def intro!: keeps_sent_trans [OF kept_deliveries_same kept_advance])
next
  case (DispatchDiagnoses broker limit n)
  then show ?thesis
    by (auto simp: dispatch_alert_diagnoses_def Let_def intro!: keeps_sent_trans [OF kept_advance kept_deliveries_same])
qed (auto simp: start_diagnosis_def intro: kept_enqueue kept_grows [OF adds_rows_evaluate] kept_grows [OF adds_rows_process] kept_claim kept_prepare
      kept_provider kept_finish kept_fail kept_retry kept_advance kept_deliveries_same)

interpretation sent_alerts: settled_view "alert_step en" sent_view "\<lambda>_ _. False" for en
  using kept_step by unfold_locales (auto simp: keeps_sent_def)


section \<open>No delivery waits for ever\<close>

text \<open>The moment a delivery is waiting for has passed.\<close>

definition delivery_overdue :: "int \<Rightarrow> alerts \<Rightarrow> delivery \<Rightarrow> bool" where
  "delivery_overdue now s d \<longleftrightarrow>
     (dl_status d = DELIVERY_PENDING \<and> dl_next d \<le> now)
     \<or> (dl_status d = DELIVERY_SENDING \<and> (\<forall>t. dl_claimed d = Some t \<longrightarrow> t < now - 5 * minute))
     \<or> (dl_status d = DELIVERY_DIAGNOSING
        \<and> (\<forall>g. Option.bind (dl_diag d) (nth_opt (diagnoses s)) = Some g \<longrightarrow> dg_deadline g \<le> now \<or> diagnosis_final (dg_status g)))"

lemma delivery_overdue_grows:
  assumes "adds_rows s s'" "delivery_ok s i (deliveries s ! i)" "i < length (deliveries s)" "delivery_overdue now s (deliveries s ! i)"
  shows "i < length (deliveries s') \<and> delivery_overdue now s' (deliveries s' ! i)"
proof -
  have "deliveries s' ! i = deliveries s ! i" "i < length (deliveries s')"
    using assms(1,3) by (auto simp: adds_rows_def prefix_def nth_append)
  moreover have "nth_opt (diagnoses s') g = nth_opt (diagnoses s) g" if "g < length (diagnoses s)" for g
    using assms(1) that by (auto simp: adds_rows_def prefix_def nth_append nth_opt_def)
  ultimately show ?thesis using assms(4) delivery_ok_diag [OF assms(2)] by (auto simp: delivery_overdue_def)
qed

text \<open>After the diagnoses have been looked at, nothing overdue still waits for one.\<close>

lemma advance_row:
  assumes "i < length (deliveries s)"
  shows "deliveries (advance_alert_diagnoses en now s) ! i = deliveries (release_waiting now (time_out_diagnoses now s)) ! i"
    and "i < length (deliveries (advance_alert_diagnoses en now s))"
proof -
  let ?s2 = "release_waiting now (time_out_diagnoses now s)"
  have "prefix (deliveries ?s2) (deliveries (advance_alert_diagnoses en now s))"
    using adds_rows_supplements by (force simp: advance_alert_diagnoses_def Let_def split_beta)
  moreover have "length (deliveries ?s2) = length (deliveries s)" by (simp add: release_waiting_def time_out_diagnoses_def)
  ultimately show "deliveries (advance_alert_diagnoses en now s) ! i = deliveries ?s2 ! i"
    "i < length (deliveries (advance_alert_diagnoses en now s))"
    using assms by (auto simp: prefix_def nth_append)
qed

lemma released:
  assumes ok: "delivery_ok s i (deliveries s ! i)" and i: "i < length (deliveries s)" and due: "delivery_overdue now s (deliveries s ! i)"
  shows "let d = deliveries (advance_alert_diagnoses en now s) ! i in
     dl_status d = DELIVERY_PENDING \<and> dl_next d \<le> now
     \<or> dl_status d = DELIVERY_SENDING \<and> d = deliveries s ! i"
proof (cases "dl_status (deliveries s ! i) = DELIVERY_DIAGNOSING")
  case True
  then obtain g where g: "g < length (diagnoses s)" "dl_diag (deliveries s ! i) = Some g"
    using delivery_ok_diag [OF ok] by blast
  then have "dg_deadline (diagnoses s ! g) \<le> now \<or> diagnosis_final (dg_status (diagnoses s ! g))"
    using due True by (auto simp: delivery_overdue_def nth_opt_def)
  then have "diagnosis_final (dg_status (diagnoses (time_out_diagnoses now s) ! g))"
    using g(1) by (cases "dg_status (diagnoses s ! g)") (auto simp: time_out_diagnoses_def diagnosis_final_def)
  then have "waits_no_more (time_out_diagnoses now s) (deliveries s ! i)"
    using g True by (simp add: waits_no_more_def diag_status_def nth_opt_def) (simp add: time_out_diagnoses_def)
  then show ?thesis
    unfolding advance_row(1) [OF i] using i by (simp add: release_waiting_def) (simp add: time_out_diagnoses_def)
next
  case False
  then have "deliveries (release_waiting now (time_out_diagnoses now s)) ! i = deliveries s ! i"
    using i by (simp add: release_waiting_def waits_no_more_def time_out_diagnoses_def)
  then show ?thesis using due False by (auto simp: advance_row(1) [OF i] delivery_overdue_def)
qed

text \<open>C16.
  No alert is stuck: in every state the pipeline can reach, one run of the dispatcher at a time
  when a delivery's next attempt, the lease of the worker that took it, or the deadline of the
  diagnosis it waits for has passed leaves the delivery either closed as failed, after five
  attempts, or open to be claimed at that very time; the claim then counts an attempt, of which
  there are never more than five.
\<close>

theorem alert_is_never_stuck:
  assumes s: "s = foldl (alert_step en) (new_alerts cf) history"
    and i: "i < length (deliveries s)" and due: "delivery_overdue now s (deliveries s ! i)"
    and s': "s' = fst (dispatch_alerts en facts broker now s)"
  shows "let d = deliveries s' ! i; d' = deliveries (alert_step en s' (Claim i now)) ! i in
     dl_status d = DELIVERY_FAILED \<and> dl_attempts d = 5
     \<or> claimable now d \<and> dl_status d' = DELIVERY_SENDING \<and> dl_attempts d' = Suc (dl_attempts d) \<and> dl_attempts d' \<le> 5"
proof -
  have ok: "alerts_ok s" unfolding s by (rule alert_tables.inv_run [OF alerts_ok_new])
  define s1 where "s1 = process_alert_outbox en facts 100 now s"
  define s2 where "s2 = dispatch_alert_diagnoses en broker 25 now s1"
  have ok1: "alerts_ok s1" unfolding s1_def by (rule alerts_ok_process [OF ok])
  have ok2: "alerts_ok s2" unfolding s2_def by (rule alerts_ok_dispatch [OF ok1])
  have i1: "i < length (deliveries s1)" "delivery_overdue now s1 (deliveries s1 ! i)"
    using delivery_overdue_grows [OF adds_rows_process alerts_ok_row [OF ok i] i due] by (simp_all add: s1_def)
  have same: "deliveries s2 = deliveries (advance_alert_diagnoses en now s1)"
    by (simp add: s2_def dispatch_alert_diagnoses_def Let_def)
  let ?d = "deliveries s2 ! i"
  have row: "delivery_ok s2 i ?d" using alerts_ok_row [OF ok2] advance_row(2) [OF i1(1)] same by simp
  have d: "dl_status ?d = DELIVERY_PENDING \<and> dl_next ?d \<le> now
      \<or> dl_status ?d = DELIVERY_SENDING \<and> (\<forall>t. dl_claimed ?d = Some t \<longrightarrow> t < now - 5 * minute)"
    using released [OF alerts_ok_row [OF ok1 i1(1)] i1, of en] i1(2) by (auto simp: same Let_def delivery_overdue_def)
  have i2: "i < length (deliveries s2)" using advance_row(2) [OF i1(1)] same by simp
  have s'_row: "deliveries s' ! i = (if exhausted_lease now ?d
      then ?d\<lparr>dl_status := DELIVERY_FAILED, dl_error := ''Delivery worker lease expired after final attempt''\<rparr> else ?d)"
    "i < length (deliveries s')"
    using i2 by (simp_all add: s' dispatch_alerts_def fail_exhausted_def Let_def s1_def [symmetric] s2_def [symmetric])
  show ?thesis
  proof (cases "exhausted_lease now ?d")
    case True
    then show ?thesis using delivery_ok_attempts [OF row] s'_row by (auto simp: Let_def exhausted_lease_def)
  next
    case False
    have "claimable now ?d"
      using d False delivery_ok_pending [OF row] delivery_ok_sending [OF row]
      by (auto simp: claimable_def exhausted_lease_def split: option.splits)
    then show ?thesis
      using s'_row False by (auto simp: Let_def claim_delivery_def nth_upd_at) (auto simp: claimable_def)
  qed
qed

section \<open>Consistency of the tables\<close>


section \<open>Who receives a message\<close>


section \<open>A sample history\<close>

definition ops_rule :: alert_rule where
  "ops_rule = \<lparr>rl_id = 1, rl_created = 0, rl_enabled = True, rl_subject = ''sync'', rl_topic = [],
     rl_mode = ''terminal'', rl_name = ''r'', rl_events = [''sync_failed'', ''sync_partial''], rl_token_threshold = None,
     rl_rounds_threshold = None, rl_duration_threshold = None, rl_cooldown = 0, rl_personal_enabled = False,
     rl_personal_channel = None, rl_diag_mode = ''direct'', rl_diag_timeout = 60, rl_diag_tokens = 2048,
     rl_channel = None, rl_recipients = [], rl_assistants = [], rl_datasources = [], rl_lensnodes = []\<rparr>"

definition ops_sub :: alert_sub where
  "ops_sub = \<lparr>sb_id = 1, sb_rule = 1, sb_name = ''ops'', sb_enabled = True, sb_channel = Some ''c'',
     sb_emails = [''ops@x'', ''a@x''], sb_users = [], sb_groups = [], sb_language = ''en'', sb_personal = False,
     sb_user = None\<rparr>"

definition mail_channel :: alert_channel where
  "mail_channel = \<lparr>ch_uuid = ''c'', ch_type = ''email'', ch_name = ''mail'', ch_active = True\<rparr>"

definition ops_config :: alert_config where
  "ops_config = \<lparr>cf_rules = [ops_rule], cf_subs = [ops_sub, ops_sub\<lparr>sb_id := 2\<rparr>], cf_users = [], cf_channels = [mail_channel]\<rparr>"

definition ops_env :: alert_env where
  "ops_env = \<lparr>al_repr = (\<lambda>_. []), al_datetime = (\<lambda>_. Inr None),
     identity_digest = (\<lambda>(key, channel, emails, lang, phase, policy). channel @ concat emails @ lang @ phase),
     diagnosis_digest = fst, message_digest = fst, al_iso = (\<lambda>_. [])\<rparr>"

definition ops_failure :: "alert_action list" where
  "ops_failure = [Occur ''sync'' ''t'' [(''status'', PStr ''FAILURE'')] ''terminal'' 5, Evaluate 0 (\<lambda>_. None) False 6, Claim 0 7]"

definition ops_accepted :: "alert_action list" where
  "ops_accepted = ops_failure @ [Prepare 0, Provider 0 Accepted, Finish 0 8]"

definition claimed_state :: alerts where
  "claimed_state = foldl (alert_step ops_env) (new_alerts ops_config) ops_failure"

definition accepted_state :: alerts where
  "accepted_state = foldl (alert_step ops_env) (new_alerts ops_config) ops_accepted"

text \<open>
  A subscription of a second rule asks for the same destination after the first delivery was
  skipped because its channel was gone, and the occurrence is reported again with more detail.
\<close>

definition late_state :: alerts where
  "late_state = foldl (alert_step ops_env) (new_alerts ops_config)
     [Configure (ops_config\<lparr>cf_subs := [ops_sub]\<rparr>),
      Occur ''sync'' ''t'' [(''status'', PStr ''FAILURE'')] ''terminal'' 5, Evaluate 0 (\<lambda>_. None) False 6, Claim 0 7,
      Configure (ops_config\<lparr>cf_channels := []\<rparr>), Prepare 0, Finish 0 8,
      Configure (ops_config\<lparr>cf_rules := [ops_rule, ops_rule\<lparr>rl_id := 2\<rparr>], cf_subs := [ops_sub\<lparr>sb_id := 2, sb_rule := 2\<rparr>]\<rparr>),
      Occur ''sync'' ''t'' [(''status'', PStr ''FAILURE''), (''failed_files'', PInt 1)] ''terminal'' 9,
      Evaluate 0 (\<lambda>_. None) False 10]"

definition shows_claim :: "alerts \<Rightarrow> bool" where
  "shows_claim s \<longleftrightarrow> 0 < length (deliveries s) \<and> 0 < length (jobs s) \<and> jobs s ! 0 = \<lparr>jb_delivery = 0, jb_stage = Claimed\<rparr>
     \<and> dl_status (deliveries s ! 0) = DELIVERY_SENDING \<and> dl_claimed (deliveries s ! 0) = Some 7
     \<and> dl_sub (deliveries s ! 0) = 1 \<and> config s = ops_config
     \<and> (case jb_stage (jobs (alert_step ops_env s (Prepare 0)) ! 0) of
          Ready row rs \<Rightarrow> rs = [''a@x'', ''ops@x''] | _ \<Rightarrow> False)"

definition shows_acceptance :: "alerts \<Rightarrow> bool" where
  "shows_acceptance s \<longleftrightarrow> 0 < length (deliveries s) \<and> dl_status (deliveries s ! 0) = DELIVERY_SENT
     \<and> ae_status (alert_events s ! 0) = EVENT_PARTIAL"

lemma sample_states:
  "shows_claim claimed_state \<and> shows_acceptance accepted_state"
  by code_simp

lemmas claimed_facts = sample_states [THEN conjunct1, unfolded shows_claim_def]
  and accepted_facts = sample_states [THEN conjunct2, unfolded shows_acceptance_def]


theorem alert_is_never_stuck_witness:
  "let s' = fst (dispatch_alerts ops_env (\<lambda>_. None) (\<lambda>_. True) 300000008 claimed_state);
       d = deliveries s' ! 0; d' = deliveries (alert_step ops_env s' (Claim 0 300000008)) ! 0
   in dl_status d = DELIVERY_FAILED \<and> dl_attempts d = 5
     \<or> claimable 300000008 d \<and> dl_status d' = DELIVERY_SENDING \<and> dl_attempts d' = Suc (dl_attempts d) \<and> dl_attempts d' \<le> 5"
  unfolding Let_def
  by (rule alert_is_never_stuck [unfolded Let_def, OF claimed_state_def _ _ refl])
    (use claimed_facts in \<open>simp_all add: delivery_overdue_def\<close>)



text \<open>
  Two findings. Destinations that were merged as duplicates count against the summary: the sample's
  one message reached every recipient, and its event still reads as partly sent. And a delivery
  that was skipped keeps its identity when it has no duplicate at that moment, so a subscription
  that asks for the same destination later, when the occurrence is evaluated again, is suppressed
  as its duplicate and never sent.
\<close>

lemma merged_duplicates_read_as_partial: "ae_status (alert_events accepted_state ! 0) = EVENT_PARTIAL"
  using accepted_facts by blast

lemma duplicate_of_skipped_is_never_sent:
  "map dl_status (deliveries late_state) = [DELIVERY_SKIPPED, DELIVERY_SUPPRESSED]"
  by code_simp

end
