(* ===== verification/Alert_Sources.thy ===== *)
theory Alert_Sources
  imports Alert_Promises
begin

text \<open>
  What is written to the alert outbox when a run or a datasource task ends
  (\<open>backend/lens/alerts.py\<close>, \<open>_error_code\<close> to \<open>capture_task_alert\<close>, called by the save signals of
  \<open>signals.py\<close>), and that the evaluation of what was written never raises, so one malformed task
  cannot keep its alert in the outbox. The rows of a run and of its session, assistant and user are
  one record; \<open>timezone.now\<close> is an argument, the text of a time and the datasource rows are
  parameters.
\<close>

section \<open>Snapshots\<close>

definition code_char :: "char \<Rightarrow> bool" where
  "code_char c = (let n = (of_char c :: nat) in 65 \<le> n \<and> n \<le> 90 \<or> 48 \<le> n \<and> n \<le> 57 \<or> c \<in> {CHR ''_'', CHR '':'', CHR ''.'', CHR '' '', CHR ''-''})"

definition upper_letter :: "char \<Rightarrow> bool" where
  "upper_letter c = (let n = (of_char c :: nat) in 65 \<le> n \<and> n \<le> 90)"

text \<open>Codes of machines only; free text of providers stays in protected logs.\<close>

definition error_code :: "(py \<Rightarrow> string) \<Rightarrow> py \<Rightarrow> string" where
  "error_code repr v =
     (let t = text_or_empty repr v
      in if t \<noteq> [] \<and> upper_letter (hd t) \<and> list_all code_char (tl t) \<and> length t \<le> 120 then take 120 t else [])"

record run_row =
  rr_parent :: bool
  rr_status :: string
  rr_finished :: "int option"
  rr_started :: "int option"
  rr_created :: int
  rr_uuid :: string
  rr_assistant :: string
  rr_assistant_name :: string
  rr_lensnode :: "string option"
  rr_assistant_lensnode :: "string option"
  rr_user :: nat
  rr_username :: string
  rr_full_name :: string
  rr_question :: "string option"
  rr_outcome :: string
  rr_error :: py
  rr_termination :: pydict

definition text_or :: "string \<Rightarrow> string \<Rightarrow> string" where
  "text_or a b = (if a \<noteq> [] then a else b)"

text \<open>A question of more than 2000 characters is cut and ends with the three bytes of an ellipsis.\<close>

definition ELLIPSIS :: string where
  "ELLIPSIS = [char_of (226::nat), char_of (128::nat), char_of (166::nat)]"

definition run_payload :: "alert_env \<Rightarrow> run_row \<Rightarrow> int \<Rightarrow> pydict" where
  "run_payload en r now =
     (let done_at = (case rr_finished r of None \<Rightarrow> now | Some t \<Rightarrow> t);
          begun_at = (case rr_started r of None \<Rightarrow> rr_created r | Some t \<Rightarrow> t);
          question = (case rr_question r of None \<Rightarrow> [] | Some q \<Rightarrow> q)
      in [(''occurred_at'', PStr (al_iso en done_at)), (''started_at'', PStr (al_iso en begun_at)),
          (''run_uuid'', PStr (rr_uuid r)), (''assistant_uuid'', PStr (rr_assistant r)),
          (''assistant_name'', PStr (rr_assistant_name r)),
          (''lensnode_uuid'', PStr (case rr_lensnode r of Some n \<Rightarrow> n
             | None \<Rightarrow> (case rr_assistant_lensnode r of Some n \<Rightarrow> n | None \<Rightarrow> []))),
          (''user_id'', PInt (int (rr_user r))), (''username'', PStr (rr_username r)),
          (''user_display_name'', PStr (text_or (rr_full_name r) (rr_username r))),
          (''question'', PStr (take 2000 question @ (if length question > 2000 then ELLIPSIS else []))),
          (''status'', PStr (rr_status r)), (''outcome'', PStr (rr_outcome r)),
          (''error'', PStr (error_code (al_repr en) (rr_error r))),
          (''termination'', PDict (concat (map (\<lambda>k. case map_of (rr_termination r) k of None \<Rightarrow> [] | Some v \<Rightarrow> [(k, v)])
             [''reason'', ''trigger'', ''code'']))),
          (''duration_seconds'', PInt (max 0 ((done_at - begun_at) div 1000000)))])"

text \<open>Usage is summed up only while some enabled rule has a threshold for it.\<close>

definition measures_runs :: "alert_config \<Rightarrow> bool" where
  "measures_runs cf = list_ex (\<lambda>r. rl_enabled r \<and> rl_subject r = ''run''
     \<and> (rl_token_threshold r \<noteq> None \<or> rl_rounds_threshold r \<noteq> None)) (cf_rules cf)"

definition captured_run :: "alert_env \<Rightarrow> alert_config \<Rightarrow> run_facts \<Rightarrow> run_row \<Rightarrow> int \<Rightarrow> pydict" where
  "captured_run en cf f r now =
     run_payload en r now
     @ (if measures_runs cf then [(''total_tokens'', PInt (rf_tokens f)), (''rounds'', PInt (rf_rounds f))] else [])"

definition capture_run_alert :: "alert_env \<Rightarrow> run_facts \<Rightarrow> run_row \<Rightarrow> int \<Rightarrow> alerts \<Rightarrow> alerts" where
  "capture_run_alert en f r now s =
     (if rr_parent r \<or> rr_status r \<notin> {''done'', ''failed''} \<or> rr_finished r = None then s
      else enqueue_occurrence ''run'' (rr_uuid r) (captured_run en (config s) f r now) ''terminal'' now s)"

record task_row =
  tk_id :: string
  tk_module :: string
  tk_status :: string
  tk_metadata :: py
  tk_result :: py
  tk_error :: py
  tk_finished :: "int option"

record datasource_row =
  so_uuid :: string
  so_name :: string
  so_lensnode :: "string option"

definition TASK_SUBJECTS :: "string \<Rightarrow> string option" where
  "TASK_SUBJECTS m = (if m = ''lens_datasource'' then Some ''sync''
     else if m = ''lens_datasource_conversion'' then Some ''processing'' else None)"

definition TERMINAL_TASKS :: "string list" where
  "TERMINAL_TASKS = [''SUCCESS'', ''FAILURE'', ''REVOKED'', ''success'', ''failed'', ''cancelled'']"

text \<open>Anything that is not a dictionary counts as an empty one.\<close>

definition dict_or_empty :: "py \<Rightarrow> pydict" where
  "dict_or_empty v = (case v of PDict d \<Rightarrow> d | _ \<Rightarrow> [])"

text \<open>\<open>max(0, int(... or 0))\<close> with its three exceptions read as none.\<close>

definition failed_files :: "py \<Rightarrow> int" where
  "failed_files v = (case py_int (py_or v (PInt 0)) of Inr n \<Rightarrow> max 0 n | Inl _ \<Rightarrow> 0)"

text \<open>
  The datasource named in the metadata: \<open>find\<close> takes the text of the identifier and knows whether it
  is a UUID of a row.
\<close>

definition captured_task ::
    "alert_env \<Rightarrow> (string \<Rightarrow> datasource_row option) \<Rightarrow> task_row \<Rightarrow> string \<Rightarrow> int \<Rightarrow> pydict" where
  "captured_task en find_source t subject now =
     (let metadata = dict_or_empty (tk_metadata t);
          result = dict_or_empty (py_or (tk_result t) (PDict []));
          summary = dict_or_empty (py_or (py_or (dget metadata ''conversion_summary'') (dget result ''conversion_summary'')) (PDict []));
          sync = dict_or_empty (py_or (dget metadata ''sync_summary'') (PDict result));
          failures = (if subject = ''processing'' then summary else sync);
          source = find_source (py_str (al_repr en) (dget metadata ''datasource_uuid''))
      in [(''occurred_at'', PStr (al_iso en (case tk_finished t of None \<Rightarrow> now | Some x \<Rightarrow> x))),
          (''status'', PStr (tk_status t)), (''error'', PStr (error_code (al_repr en) (tk_error t))),
          (''completion_reason'', PStr (error_code (al_repr en) (dget metadata ''completion_reason''))),
          (''timed_out'', PBool (truthy (py_or (dget metadata ''timeout_cancel_requested_at'') (dget metadata ''timeout_cancelled_at'')))),
          (''datasource_uuid'', PStr (case source of None \<Rightarrow> [] | Some d \<Rightarrow> so_uuid d)),
          (''datasource_name'', PStr (case source of None \<Rightarrow> [] | Some d \<Rightarrow> so_name d)),
          (''lensnode_uuid'', PStr (case source of None \<Rightarrow> [] | Some d \<Rightarrow> (case so_lensnode d of None \<Rightarrow> [] | Some n \<Rightarrow> n))),
          (''failed_files'', PInt (failed_files (dget failures ''failed''))),
          (''partial_success'', PBool (truthy (py_or (py_or (dget sync ''partial_success'') (dget sync ''failed'')) (dget summary ''failed'')))),
          (''trigger'', PStr (text_or_empty (al_repr en) (dget metadata ''trigger'')))])"

definition capture_task_alert ::
    "alert_env \<Rightarrow> (string \<Rightarrow> datasource_row option) \<Rightarrow> task_row \<Rightarrow> int \<Rightarrow> alerts \<Rightarrow> alerts" where
  "capture_task_alert en find_source t now s =
     (case TASK_SUBJECTS (tk_module t) of
        None \<Rightarrow> s
      | Some subject \<Rightarrow>
          if tk_status t \<notin> set TERMINAL_TASKS then s
          else enqueue_occurrence subject (tk_id t) (captured_task en find_source t subject now) ''terminal'' now s)"

section \<open>Evaluation of a snapshot never raises\<close>

text \<open>The fields the evaluation reads have types it can compare.\<close>

definition numeric :: "py \<Rightarrow> bool" where
  "numeric v \<longleftrightarrow> (case v of PInt _ \<Rightarrow> True | PBool _ \<Rightarrow> True | PFloat _ \<Rightarrow> True | _ \<Rightarrow> False)"

definition safe_payload :: "run_facts option \<Rightarrow> pydict \<Rightarrow> bool" where
  "safe_payload run d \<longleftrightarrow>
     (case dget d ''termination'' of PNone \<Rightarrow> True | PDict t \<Rightarrow> \<not> list_ex not_hashable (map snd t) | _ \<Rightarrow> False)
     \<and> numeric (dget_default d ''duration_seconds'' (PInt 0))
     \<and> (run \<noteq> None \<longrightarrow> (\<forall>v. map_of d ''total_tokens'' = Some v \<longrightarrow> numeric v) \<and> (\<forall>v. map_of d ''rounds'' = Some v \<longrightarrow> numeric v))
     \<and> list_all (\<lambda>k. \<not> not_hashable (dget d k)) [''assistant_uuid'', ''datasource_uuid'', ''lensnode_uuid'']"

lemma exceeds_total: "numeric v \<Longrightarrow> \<exists>b. exceeds v n = Inr b"
  by (cases "(v, n)" rule: exceeds.cases) (auto simp: numeric_def)

lemma over_threshold_total: "numeric v \<Longrightarrow> \<exists>b. over_threshold t v = Inr b"
  using exceeds_total by (auto simp: over_threshold_def split: option.split)

lemma in_texts_total: "\<not> not_hashable v \<Longrightarrow> \<exists>b. in_texts v S = Inr b"
  by (cases v) (auto simp: in_texts_def)

lemma scopes_total: "\<forall>(t, v) \<in> set xs. \<not> not_hashable v \<Longrightarrow> \<exists>b. scopes_ok xs = Inr b"
proof (induction xs)
  case (Cons x xs)
  obtain t v where x: "x = (t, v)" by (cases x)
  obtain b where "in_texts v (set t) = Inr b" using in_texts_total [of v "set t"] Cons.prems x by auto
  moreover obtain c where "scopes_ok xs = Inr c" using Cons by auto
  ultimately show ?case by (cases "t = []"; cases b) (auto simp: x intro: exI [of _ False])
next
  case Nil
  show ?case by (rule exI [of _ True]) simp
qed

lemma scope_total: "safe_payload run d \<Longrightarrow> \<exists>b. rule_matches_scope rule d = Inr b"
  unfolding rule_matches_scope_def by (rule scopes_total) (simp add: safe_payload_def)

lemma reasons_total: "safe_payload run d \<Longrightarrow> \<exists>rs. alert_reasons d = Inr rs"
  by (auto simp: safe_payload_def alert_reasons_def py_or_def split: py.splits)

lemma dget_set_missing: "dget (set_missing k v d) x = (if x = k \<and> map_of d k = None then v else dget d x)"
  by (auto simp: set_missing_def dget_def map_add_def split: option.splits)

lemma map_of_set_missing: "map_of (set_missing k v d) x = (if x = k \<and> map_of d k = None then Some v else map_of d x)"
  by (auto simp: set_missing_def map_add_def split: option.splits)

lemma safe_measured: "safe_payload run d \<Longrightarrow> safe_payload run (measure_usage rule run d)"
  by (auto simp: measure_usage_def safe_payload_def dget_set_missing map_of_set_missing dget_default_def numeric_def
      split: option.splits)

lemma usage_total:
  assumes "safe_payload run d"
  shows "\<exists>es. usage_events rule run (measure_usage rule run d) = Inr es"
proof (cases "measured rule run")
  case True
  then obtain f where f: "run = Some f" by (auto simp: measured_def)
  have "numeric (dget (measure_usage rule run d) ''total_tokens'')" "numeric (dget (measure_usage rule run d) ''rounds'')"
    using assms True f by (auto simp: measure_usage_def safe_payload_def dget_set_missing map_of_set_missing dget_def numeric_def
        split: option.splits)
  then obtain t r where "over_threshold (rl_token_threshold rule) (dget (measure_usage rule run d) ''total_tokens'') = Inr t"
    "over_threshold (rl_rounds_threshold rule) (dget (measure_usage rule run d) ''rounds'') = Inr r"
    using over_threshold_total by meson
  then show ?thesis using True by (simp add: usage_events_def)
qed (simp add: usage_events_def)

lemma matched_total:
  assumes "safe_payload run d"
  shows "\<exists>es d'. matched_events repr rule run d = Inr (es, d') \<and> safe_payload run d'"
proof -
  obtain rs where rs: "alert_reasons d = Inr rs" using reasons_total [OF assms] by blast
  obtain es where es: "usage_events rule run (measure_usage rule run d) = Inr es" using usage_total [OF assms] by blast
  have safe: "safe_payload run (measure_usage rule run d)" by (rule safe_measured [OF assms])
  then obtain slow where slow: "over_threshold (rl_duration_threshold rule)
      (dget_default (measure_usage rule run d) ''duration_seconds'' (PInt 0)) = Inr slow"
    using over_threshold_total by (fastforce simp: safe_payload_def)
  show ?thesis using assms safe by (simp add: matched_events_def rs es slow Let_def)
qed

lemma find_rule_Some: "rule \<in> set (cf_rules cf) \<Longrightarrow> find_rule cf (rl_id rule) \<noteq> None"
  by (auto simp: find_rule_def find_None_iff)

lemma destination_total:
  assumes "find_rule cf (sb_rule sub) \<noteq> None" "sb_personal sub \<Longrightarrow> personal_subscription_allowed cf sub d"
  shows "\<exists>dest. subscription_destination cf sub = Inr dest"
proof -
  obtain rule where rule: "find_rule cf (sb_rule sub) = Some rule" using assms(1) by blast
  have "\<exists>es. destination_emails cf sub = Inr es"
    using assms(2) by (auto simp: destination_emails_def personal_subscription_allowed_def split: option.splits)
  then show ?thesis by (auto simp: subscription_destination_def rule Let_def)
qed

lemma config_add [simp]: "config (add_delivery en rule skey e sub dest c now s) = config s"
  by (simp add: add_delivery_def attach_diagnosis_def shared_diagnosis_def Let_def split: option.split)

lemma add_deliveries_total:
  assumes "\<forall>b \<in> set subs. find_rule (config s) (sb_rule b) \<noteq> None"
  shows "\<exists>s'. add_deliveries en rule skey e payload now subs s = Inr s' \<and> config s' = config s"
  using assms
proof (induction subs arbitrary: s)
  case (Cons sub subs)
  show ?case
  proof (cases "sb_personal sub \<and> \<not> personal_subscription_allowed (config s) sub (Some payload)")
    case False
    then obtain dest where "subscription_destination (config s) sub = Inr dest"
      using destination_total [of "config s" sub "Some payload"] Cons.prems by auto
    moreover have "\<exists>s'. add_deliveries en rule skey e payload now subs
        (add_delivery en rule skey e sub dest (cooling_down rule sub payload now s) now s) = Inr s' \<and> config s' = config s"
      using Cons.IH [of "add_delivery en rule skey e sub dest (cooling_down rule sub payload now s) now s"] Cons.prems by simp
    ultimately show ?thesis using False by auto
  qed (use Cons in auto)
qed simp

lemma create_event_total:
  assumes "rule \<in> set (cf_rules (config s))"
  shows "\<exists>s'. create_event en rule skey occ run matched payload now s = Inr s' \<and> cf_rules (config s') = cf_rules (config s)"
proof -
  let ?s1 = "legacy_destination rule (s\<lparr>alert_events := alert_events s @
      [\<lparr>ae_rule = rl_id rule, ae_key = Some skey, ae_subject = rl_subject rule, ae_source = oc_source occ,
        ae_run = (if run = None then None else Some (oc_source occ)), ae_type = hd matched,
        ae_status = EVENT_PENDING, ae_mode = rl_diag_mode rule, ae_detail = event_detail rule matched payload\<rparr>]\<rparr>)"
  have rules: "cf_rules (config ?s1) = cf_rules (config s)" by (simp add: legacy_destination_def)
  have "\<forall>b \<in> set (filter (\<lambda>b. sb_rule b = rl_id rule \<and> sb_enabled b) (cf_subs (config ?s1))).
      find_rule (config ?s1) (sb_rule b) \<noteq> None"
    using find_rule_Some [of rule "config ?s1"] assms rules by auto
  then obtain s2 where s2: "add_deliveries en rule skey (length (alert_events s)) payload now
      (filter (\<lambda>b. sb_rule b = rl_id rule \<and> sb_enabled b) (cf_subs (config ?s1))) ?s1 = Inr s2" "config s2 = config ?s1"
    using add_deliveries_total by blast
  show ?thesis
    unfolding create_event_def Let_def s2(1) rbind_simps by (simp add: s2(2) rules)
qed

lemma evaluate_rule_total:
  assumes safe: "safe_payload run d" and rule: "rule \<in> set (cf_rules (config s))"
  shows "\<exists>d' s'. evaluate_rule en rule occ run running now (d, s) = Inr (d', s') \<and> safe_payload run d'
     \<and> cf_rules (config s') = cf_rules (config s)"
proof -
  obtain ok where ok: "rule_matches_scope rule d = Inr ok" using scope_total [OF safe] by blast
  obtain es d' where es: "matched_events (al_repr en) rule run d = Inr (es, d')" "safe_payload run d'"
    using matched_total [OF safe] by blast
  have "\<exists>s'. create_event en rule skey occ run es d' now s = Inr s' \<and> cf_rules (config s') = cf_rules (config s)" for skey
    by (rule create_event_total [OF rule])
  then obtain mk where mk: "create_event en rule skey occ run es d' now s = Inr (mk skey) \<and>
      cf_rules (config (mk skey)) = cf_rules (config s)" for skey by metis
  define legacy where "legacy \<longleftrightarrow> \<not> running \<and> run \<noteq> None
    \<and> list_ex (\<lambda>e. ae_rule e = rl_id rule \<and> ae_run e = Some (oc_source occ) \<and> ae_key e = None) (alert_events s)"
  define skey where "skey = (if running then oc_key occ @ '':'' @ hd es else oc_key occ)"
  have "evaluate_rule en rule occ run running now (d, s) =
      (if (rl_mode rule = ''running'') \<noteq> running \<or> \<not> ok then Inr (d, s)
       else if es = [] \<or> legacy \<or> list_ex (\<lambda>e. ae_rule e = rl_id rule \<and> ae_key e = Some skey) (alert_events s)
       then Inr (d', s) else Inr (d', mk skey))"
    using ok es(1) mk [of skey] by (cases run; cases running) (auto simp: evaluate_rule_def Let_def skey_def legacy_def)
  then show ?thesis using safe es(2) mk [of skey] by auto
qed

lemma evaluate_rules_total:
  assumes "safe_payload run d" "set rules \<subseteq> set (cf_rules (config s))"
  shows "\<exists>d' s'. evaluate_rules en occ run running now rules (d, s) = Inr (d', s')"
  using assms
proof (induction rules arbitrary: d s)
  case (Cons rule rules)
  then obtain d1 s1 where "evaluate_rule en rule occ run running now (d, s) = Inr (d1, s1)" "safe_payload run d1"
    "cf_rules (config s1) = cf_rules (config s)"
    using evaluate_rule_total [of run d rule s] by (metis insert_subset list.simps(15))
  then show ?case using Cons.IH [of d1 s1] Cons.prems(2) by auto
qed simp

lemma occurrences_rules:
  assumes "evaluate_rules en occ run running now rules (d, s) = Inr (d', s')"
  shows "occurrences s' = occurrences s"
proof -
  have add: "occurrences (add_delivery en rule skey e sub dest c now s) = occurrences s" for rule skey e sub dest c s
    by (simp add: add_delivery_def attach_diagnosis_def shared_diagnosis_def Let_def split: option.split)
  have adds: "add_deliveries en rule skey e p now subs s = Inr s' \<Longrightarrow> occurrences s' = occurrences s" for rule skey e p subs s s'
    by (induction subs arbitrary: s) (auto simp: rbind_Inr_iff add split: if_splits)
  have create: "create_event en rule skey occ run es p now s = Inr s' \<Longrightarrow> occurrences s' = occurrences s" for rule skey es p s s'
    unfolding create_event_def Let_def rbind_Inr_iff
    by (elim exE conjE) (drule adds, auto simp: legacy_destination_def refresh_event_status_def)
  show ?thesis
    using assms
  proof (induction rules arbitrary: d s)
    case (Cons rule rules)
    then obtain p0 s0 where "evaluate_rule en rule occ run running now (d, s) = Inr (p0, s0)"
      "evaluate_rules en occ run running now rules (p0, s0) = Inr (d', s')" by (auto simp: rbind_Inr_iff)
    then show ?case using Cons.IH evaluate_rule_cases create by metis
  qed simp
qed

text \<open>The snapshots are safe, and say when their source ended.\<close>

lemma captured_task_safe: "safe_payload None (captured_task en find_source t subject time)"
  by (simp add: captured_task_def Let_def safe_payload_def numeric_def dget_default_def)

lemma captured_task_time:
  "map_of (captured_task en find_source t subject time) ''occurred_at'' =
     Some (PStr (al_iso en (case tk_finished t of None \<Rightarrow> time | Some x \<Rightarrow> x)))"
  by (simp add: captured_task_def Let_def)

lemma captured_run_time:
  "map_of (captured_run en cf f r time) ''occurred_at'' =
     Some (PStr (al_iso en (case rr_finished r of None \<Rightarrow> time | Some x \<Rightarrow> x)))"
  by (simp add: captured_run_def run_payload_def Let_def)

lemma captured_run_safe:
  assumes "\<not> list_ex not_hashable (map snd (rr_termination r))"
  shows "safe_payload run (captured_run en cf f r time)"
proof -
  let ?d = "captured_run en cf f r time"
  let ?t = "concat (map (\<lambda>k. case map_of (rr_termination r) k of None \<Rightarrow> [] | Some v \<Rightarrow> [(k, v)]) [''reason'', ''trigger'', ''code''])"
  have kept: "v \<in> snd ` set (rr_termination r)" if "Some v = map_of (rr_termination r) k" for k v
    using map_of_SomeD [OF that [symmetric]] by force
  have old: "v \<in> snd ` set (rr_termination r)" if "(k, v) \<in> set ?t" for k v
    using that by (auto split: option.splits intro: kept)
  have "\<not> list_ex not_hashable (map snd xs)" if "\<And>k v. (k, v) \<in> set xs \<Longrightarrow> v \<in> snd ` set (rr_termination r)"
    for xs :: pydict
    using that assms by (force simp: list_ex_iff)
  from this [OF old] have hashable: "\<not> list_ex not_hashable (map snd ?t)" .
  have "dget ?d ''termination'' = PDict ?t"
    by (simp add: captured_run_def run_payload_def Let_def del: concat.simps list.map)
  moreover have "\<exists>n. dget_default ?d ''duration_seconds'' (PInt 0) = PInt n"
    by (simp add: captured_run_def run_payload_def Let_def dget_default_def)
  moreover have "map_of ?d ''total_tokens'' \<in> {None, Some (PInt (rf_tokens f))}" "map_of ?d ''rounds'' \<in> {None, Some (PInt (rf_rounds f))}"
    by (simp_all add: captured_run_def run_payload_def Let_def)
  moreover have "list_all (\<lambda>k. \<not> not_hashable (dget ?d k)) [''assistant_uuid'', ''datasource_uuid'', ''lensnode_uuid'']"
    by (simp add: captured_run_def run_payload_def Let_def)
  ultimately show ?thesis
    using hashable unfolding safe_payload_def by (auto simp: numeric_def simp del: concat.simps list.map)
qed


text \<open>A task whose metadata, result and error are not what the code expects; times are counted in letters.\<close>

definition odd_task :: task_row where
  "odd_task = \<lparr>tk_id = ''t'', tk_module = ''lens_datasource'', tk_status = ''FAILURE'', tk_metadata = PList [PInt 1],
     tk_result = PStr ''?'', tk_error = PDict [], tk_finished = None\<rparr>"

definition letters_env :: alert_env where
  "letters_env = ops_env\<lparr>al_iso := (\<lambda>t. if t < 0 then replicate (nat (- t)) CHR ''b'' else replicate (nat t) CHR ''a''),
     al_datetime := (\<lambda>s. Inr (Some (if s \<noteq> [] \<and> hd s = CHR ''b'' then - int (length s) else int (length s))))\<rparr>"

lemma letters_env_time: "al_datetime letters_env (al_iso letters_env t) = Inr (Some t)"
  by (cases "nat t") (auto simp: letters_env_def)

definition odd_state :: alerts where
  "odd_state = capture_task_alert letters_env (\<lambda>_. None) odd_task 5 (new_alerts ops_config)"


end
