(* ===== verification/Capability_Boundary.thy ===== *)
theory Capability_Boundary
  imports Tool_Errors
begin

text \<open>
  The execution gate around every tool call of an agent run
  (\<open>lensnode/lensnode/agent_runtime/capabilities.py\<close>, \<open>CapabilityBoundaryMiddleware\<close>): the
  initial plan, the blocked requests and sources, the tool-call budget, failure accounting
  with recovery, and the checkpoint of all of it. A counter (\<open>defaultdict(int)\<close>) is an
  association list, a Python set a finite set, \<open>failure_records\<close> keeps insertion order.
  The events handed to \<open>emit_event\<close> are a list in the state.
\<close>

section \<open>State\<close>

record tool =
  tool_label :: string
  tool_metadata :: py

record tool_call =
  call_name :: string
  call_args :: py
  call_id :: string
  call_tool :: "tool option"

text \<open>
  A tool message: the JSON object in its content (\<open>None\<close> when the content is not one) and
  whether its status is \<open>error\<close>.
\<close>

record tool_result =
  res_payload :: "pydict option"
  res_error :: bool

type_synonym failure_key = "string \<times> string \<times> string"

record gate =
  initial_plan_exists :: bool
  blocked_tools :: "string set"
  blocked_capabilities :: "string set"
  blocked_sources :: "string set"
  blocked_requests :: "(string \<times> string) set"
  failure_counts :: "(failure_key \<times> int) list"
  capability_failure_counts :: "(string \<times> int) list"
  capability_correction_counts :: "(string \<times> int) list"
  source_failure_counts :: "(string \<times> int) list"
  source_correction_counts :: "(string \<times> int) list"
  success_count :: int
  successful_capabilities :: "string set"
  successful_evidence :: "pydict list"
  failed_capabilities :: "string set"
  recovered_capabilities :: "string set"
  failed_sources :: "string set"
  recovered_sources :: "string set"
  correction_recovery_count :: int
  alternative_recovery_count :: int
  gate_termination :: pydict
  exhaustion_details :: "py list"
  failure_records :: "(failure_key \<times> pydict) list"
  tool_call_count :: int
  gate_events :: "(string \<times> pydict) list"

text \<open>
  The constructor's settings; \<open>render\<close> is \<open>str\<close> on floats and containers, \<open>digest\<close> the
  SHA-256 of the canonical JSON of the arguments.
\<close>

record gate_config =
  required_capabilities :: "string set"
  require_initial_plan :: bool
  max_tool_calls :: int
  planning_effort :: string
  execution_effort :: string
  render :: "py \<Rightarrow> string"
  digest :: "py \<Rightarrow> string"

definition new_gate :: gate where
  "new_gate = \<lparr>initial_plan_exists = False, blocked_tools = {}, blocked_capabilities = {},
     blocked_sources = {}, blocked_requests = {}, failure_counts = [], capability_failure_counts = [],
     capability_correction_counts = [], source_failure_counts = [], source_correction_counts = [],
     success_count = 0, successful_capabilities = {}, successful_evidence = [], failed_capabilities = {},
     recovered_capabilities = {}, failed_sources = {}, recovered_sources = {},
     correction_recovery_count = 0, alternative_recovery_count = 0, gate_termination = [],
     exhaustion_details = [], failure_records = [], tool_call_count = 0, gate_events = []\<rparr>"

definition emit_gate :: "string \<Rightarrow> pydict \<Rightarrow> gate \<Rightarrow> gate" where
  "emit_gate name detail g = g\<lparr>gate_events := gate_events g @ [(name, detail)]\<rparr>"

section \<open>Names, families and sources\<close>

definition tool_name :: "tool_call \<Rightarrow> string" where
  "tool_name c =
     (if call_name c \<noteq> [] then call_name c
      else case call_tool c of
             None \<Rightarrow> ''tool''
           | Some t \<Rightarrow> if tool_label t \<noteq> [] then tool_label t else ''tool'')"

definition capability_name :: "string \<Rightarrow> string" where
  "capability_name t =
     (if starts_with ''mcp__'' t \<or> t = ''tool_search'' then ''mcp''
      else if starts_with ''run_skill'' t \<or> t = ''call_skill_api'' then ''skill''
      else if contains_text ''workspace'' t
              \<or> t \<in> {''find_files'', ''git_diff'', ''git_log'', ''summarize_recent_changes''} then ''workspace''
      else if t = ''save_deliverable'' then ''artifact_delivery''
      else ''tool'')"

definition is_capability_family :: "py \<Rightarrow> bool" where
  "is_capability_family v =
     (case v of PStr s \<Rightarrow> s \<in> {''skill'', ''plugin'', ''mcp'', ''workspace'', ''artifact_delivery'', ''decision''}
      | _ \<Rightarrow> False)"

definition capability_for_tool :: "tool option \<Rightarrow> string \<Rightarrow> string" where
  "capability_for_tool t name =
     (let resolved = (if name \<noteq> [] then name else case t of None \<Rightarrow> [] | Some t \<Rightarrow> tool_label t)
      in case t of
           None \<Rightarrow> capability_name resolved
         | Some t \<Rightarrow>
             (case dget (dict_of (tool_metadata t)) ''capability_family'' of
                PStr s \<Rightarrow> if is_capability_family (PStr s) then s else capability_name resolved
              | _ \<Rightarrow> capability_name resolved))"

definition evidence_capability :: "tool option \<Rightarrow> string \<Rightarrow> string option" where
  "evidence_capability t name =
     (let resolved = (if name \<noteq> [] then name else case t of None \<Rightarrow> [] | Some t \<Rightarrow> tool_label t);
          cap = capability_for_tool t resolved
      in if resolved = ''tool_search'' \<or> cap = ''tool'' then None else Some cap)"

definition normalized_arguments :: "gate_config \<Rightarrow> tool_call \<Rightarrow> string" where
  "normalized_arguments cfg c = digest cfg (py_or (call_args c) (PDict []))"

definition source_scope :: "gate_config \<Rightarrow> string option \<Rightarrow> string \<Rightarrow> tool_call \<Rightarrow> string" where
  "source_scope cfg cap name c =
     (let args = py_or (call_args c) (PDict []);
          skill = take 128 (py_strip (py_str (render cfg) (py_or (dget (dict_of args) ''skill'') (PStr []))))
      in if cap = Some ''skill'' \<and> is_dict args
         then (if skill \<noteq> [] then ''skill:'' @ skill else ''skill:'' @ name)
         else case cap of
                Some m \<Rightarrow> if m \<in> {''mcp'', ''plugin''} then m @ '':'' @ name else ''tool:'' @ name
              | None \<Rightarrow> ''tool:'' @ name)"

definition request_scope :: "gate_config \<Rightarrow> tool_call \<Rightarrow> string \<times> string" where
  "request_scope cfg c = (tool_name c, normalized_arguments cfg c)"

section \<open>Recovery and success\<close>

definition detail_is :: "string \<Rightarrow> string \<Rightarrow> pydict \<Rightarrow> bool" where
  "detail_is k v d \<longleftrightarrow> dget d k = PStr v"

definition mark_recovered :: "(pydict \<Rightarrow> bool) \<Rightarrow> (failure_key \<times> pydict) list \<Rightarrow> (failure_key \<times> pydict) list" where
  "mark_recovered P rs =
     map (\<lambda>(k, d). (k, if P d
            then AList.update ''affects_required_evidence'' (PBool False)
                   (AList.update ''scope'' (PStr ''recovered'') d) else d)) rs"

text \<open>The sources of unresolved failures of other capabilities a success makes up for.\<close>

definition alternatives :: "gate_config \<Rightarrow> string \<Rightarrow> gate \<Rightarrow> string list" where
  "alternatives cfg cap g =
     List.map_filter (\<lambda>(_, d).
       if \<not> detail_is ''capability'' cap d
          \<and> (required_capabilities cfg = {}
             \<or> (case dget d ''capability'' of PStr c \<Rightarrow> c \<in> required_capabilities cfg | _ \<Rightarrow> False))
          \<and> detail_is ''scope'' ''unresolved'' d \<and> truthy (dget d ''source'')
       then str_of (dget d ''source'') else None) (failure_records g)"

definition recovery_kind :: "gate_config \<Rightarrow> string \<Rightarrow> string \<Rightarrow> gate \<Rightarrow> (string \<times> string list) option" where
  "recovery_kind cfg cap source g =
     (if source \<in> failed_sources g - recovered_sources g then Some (''corrected_request'', [source])
      else if (cap \<in> required_capabilities cfg \<or> required_capabilities cfg = {}) \<and> alternatives cfg cap g \<noteq> []
      then Some (''alternative_capability'', alternatives cfg cap g)
      else None)"

definition apply_recovery :: "string \<times> string list \<Rightarrow> gate \<Rightarrow> gate" where
  "apply_recovery kind g =
     (let g1 = (if fst kind = ''corrected_request''
                then g\<lparr>correction_recovery_count := correction_recovery_count g + 1,
                       blocked_sources := blocked_sources g - set (snd kind)\<rparr>
                else g\<lparr>alternative_recovery_count := alternative_recovery_count g + 1\<rparr>)
      in g1\<lparr>recovered_sources := recovered_sources g \<union> set (snd kind),
            failure_records := mark_recovered
              (\<lambda>d. detail_is ''scope'' ''unresolved'' d \<and> (\<exists>s \<in> set (snd kind). detail_is ''source'' s d))
              (failure_records g)\<rparr>)"

definition warning_of :: "string \<Rightarrow> string \<Rightarrow> pydict \<Rightarrow> bool" where
  "warning_of cap source d \<longleftrightarrow>
     detail_is ''capability'' cap d \<and> detail_is ''source'' source d \<and> detail_is ''scope'' ''warning'' d"

definition settle_capability :: "string \<Rightarrow> gate \<Rightarrow> gate" where
  "settle_capability cap g =
     (if cap \<notin> failed_capabilities g then g
      else if list_ex (\<lambda>(_, d). detail_is ''capability'' cap d \<and> detail_is ''scope'' ''unresolved'' d) (failure_records g)
      then g\<lparr>recovered_capabilities := recovered_capabilities g - {cap}\<rparr>
      else g\<lparr>recovered_capabilities := insert cap (recovered_capabilities g)\<rparr>)"

definition record_recovery :: "gate_config \<Rightarrow> string \<Rightarrow> string \<Rightarrow> gate \<Rightarrow> gate" where
  "record_recovery cfg cap source g =
     (let kind = recovery_kind cfg cap source g;
          g1 = (case kind of
                  Some k \<Rightarrow> apply_recovery k g
                | None \<Rightarrow>
                    if list_ex (\<lambda>(_, d). warning_of cap source d) (failure_records g)
                    then g\<lparr>correction_recovery_count := correction_recovery_count g + 1,
                           failure_records := mark_recovered (warning_of cap source) (failure_records g)\<rparr>
                    else g);
          recovery_type = (case kind of
                  Some k \<Rightarrow> Some (fst k)
                | None \<Rightarrow> if list_ex (\<lambda>(_, d). warning_of cap source d) (failure_records g)
                          then Some ''corrected_request'' else None);
          g2 = settle_capability cap g1
      in case recovery_type of
           None \<Rightarrow> g2
         | Some t \<Rightarrow> emit_gate ''deepagents.capability.recovered''
             [(''capability'', PStr cap), (''source'', PStr source), (''recovery_type'', PStr t),
              (''correction_recovery_count'', PInt (correction_recovery_count g2)),
              (''alternative_recovery_count'', PInt (alternative_recovery_count g2))] g2)"

definition zero_if_present :: "string \<Rightarrow> (string \<times> int) list \<Rightarrow> (string \<times> int) list" where
  "zero_if_present s d = (if map_of d s \<noteq> None then AList.update s 0 d else d)"

definition coverage_of :: "pydict option \<Rightarrow> py" where
  "coverage_of payload =
     (case payload of
        None \<Rightarrow> PNone
      | Some p \<Rightarrow> (case dget p ''_evidence'' of PDict e \<Rightarrow> dget e ''complete'' | _ \<Rightarrow> PNone))"

definition record_success :: "gate_config \<Rightarrow> string option \<Rightarrow> string \<Rightarrow> tool_call \<Rightarrow> pydict option \<Rightarrow> gate \<Rightarrow> gate" where
  "record_success cfg cap name c payload g =
     (case cap of
        None \<Rightarrow> g
      | Some cp \<Rightarrow>
          let source = source_scope cfg cap name c;
              sha = normalized_arguments cfg c;
              g1 = g\<lparr>blocked_requests := blocked_requests g - {(name, sha)},
                     failure_counts := filter (\<lambda>((t, _, h), _). \<not> (t = name \<and> h = sha)) (failure_counts g),
                     source_failure_counts := zero_if_present source (source_failure_counts g),
                     source_correction_counts := zero_if_present source (source_correction_counts g),
                     success_count := success_count g + 1,
                     successful_capabilities := insert cp (successful_capabilities g),
                     successful_evidence := successful_evidence g @
                       [[(''capability'', PStr cp), (''tool'', PStr name), (''source'', PStr source),
                         (''request_sha256'', PStr sha), (''coverage_complete'', coverage_of payload)]]\<rparr>
          in record_recovery cfg cp source g1)"

section \<open>Failures\<close>

definition failure_detail :: "gate_config \<Rightarrow> failure_key \<Rightarrow> string \<Rightarrow> string \<Rightarrow> string \<Rightarrow> bool \<Rightarrow> pydict" where
  "failure_detail cfg key cap source scope affects =
     (case key of (name, error_type, sha) \<Rightarrow>
        [(''capability'', PStr cap), (''error_type'', PStr error_type), (''tool'', PStr name),
         (''source'', PStr source), (''request_sha256'', PStr sha), (''scope'', PStr scope),
         (''required'', PBool (cap \<in> required_capabilities cfg)),
         (''affects_required_evidence'', PBool affects)])"

definition record_warning :: "gate_config \<Rightarrow> failure_key \<Rightarrow> string \<Rightarrow> string \<Rightarrow> gate \<Rightarrow> gate" where
  "record_warning cfg key cap source g =
     (let detail = failure_detail cfg key cap source ''warning'' False
      in emit_gate ''deepagents.capability.warning'' detail
           (g\<lparr>failure_records := AList.update key detail (failure_records g)\<rparr>))"

definition is_non_idempotent_write :: "tool_call \<Rightarrow> bool" where
  "is_non_idempotent_write c =
     (case call_tool c of
        None \<Rightarrow> False
      | Some t \<Rightarrow>
          let m = dict_of (tool_metadata t)
          in (dget m ''operation'' = PStr ''write'' \<or> dget m ''read_only'' = PBool False
              \<or> dget m ''side_effects'' = PBool True)
             \<and> dget m ''idempotent'' \<noteq> PBool True)"

definition failure_budget :: "tool_call \<Rightarrow> string \<Rightarrow> int" where
  "failure_budget c error_type =
     (if error_type = ''transient'' \<and> is_non_idempotent_write c then 1
      else if error_type \<in> {''transient'', ''request'', ''tool''} then 2 else 1)"

definition recovery_message :: "string \<Rightarrow> string" where
  "recovery_message error_type =
     (if error_type = ''configuration'' then ''Ask an administrator to configure or authorize it.''
      else if error_type = ''policy'' then ''Continue from the evidence already collected.''
      else if error_type = ''transient'' then ''Retry later or use another available capability.''
      else if error_type = ''request'' then ''Provide the missing or corrected input, then retry.''
      else ''Use another available capability or contact an administrator.'')"

definition count_failure :: "failure_key \<Rightarrow> string \<Rightarrow> string \<Rightarrow> gate \<Rightarrow> gate" where
  "count_failure key cap source g =
     (let correctable = fst (snd key) \<in> {''request'', ''tool''}
      in g\<lparr>failure_counts := cinc key (failure_counts g),
           capability_failure_counts := cinc cap (capability_failure_counts g),
           source_failure_counts := cinc source (source_failure_counts g),
           capability_correction_counts :=
             (if correctable then cinc cap (capability_correction_counts g) else capability_correction_counts g),
           source_correction_counts :=
             (if correctable then cinc source (source_correction_counts g) else source_correction_counts g)\<rparr>)"

definition exhaust :: "gate_config \<Rightarrow> failure_key \<Rightarrow> string \<Rightarrow> string \<Rightarrow> bool \<Rightarrow> gate \<Rightarrow> gate" where
  "exhaust cfg key cap source block_source g =
     (case key of (name, error_type, sha) \<Rightarrow>
        let detail = [(''reason'', PStr ''execution_failed''), (''capability'', PStr cap),
              (''error_type'', PStr error_type), (''tool'', PStr name), (''source'', PStr source),
              (''recovery'', PStr (recovery_message error_type))];
            g1 = g\<lparr>failed_capabilities := insert cap (failed_capabilities g),
                   recovered_capabilities := recovered_capabilities g - {cap},
                   failed_sources := insert source (failed_sources g),
                   recovered_sources := recovered_sources g - {source},
                   blocked_sources := (if block_source then insert source (blocked_sources g) else blocked_sources g),
                   blocked_requests := (if block_source then blocked_requests g
                                        else insert (name, sha) (blocked_requests g)),
                   failure_records := AList.update key
                     (failure_detail cfg key cap source ''unresolved'' (cap \<in> required_capabilities cfg))
                     (failure_records g),
                   exhaustion_details := exhaustion_details g @ [PDict detail],
                   gate_termination := (if gate_termination g = [] then detail else gate_termination g)\<rparr>
        in emit_gate ''deepagents.capability.exhausted''
             (detail @ [(''blocked_scope'', PStr (if block_source then ''source'' else ''request'')),
                (''exact_request_failures'', PInt (cget (failure_counts g) key)),
                (''capability_failures'', PInt (cget (capability_failure_counts g) cap)),
                (''capability_corrections'', PInt (cget (capability_correction_counts g) cap)),
                (''source_failures'', PInt (cget (source_failure_counts g) source)),
                (''source_corrections'', PInt (cget (source_correction_counts g) source))]) g1)"

definition record_failure :: "gate_config \<Rightarrow> tool_call \<Rightarrow> string \<Rightarrow> string \<Rightarrow> gate \<Rightarrow> gate" where
  "record_failure cfg c cap error_type g =
     (let name = tool_name c;
          source = source_scope cfg (Some cap) name c;
          key = (name, error_type, normalized_arguments cfg c);
          g1 = count_failure key cap source g;
          block_source = error_type \<in> {''configuration'', ''policy''};
          block_request = cget (failure_counts g1) key \<ge> failure_budget c error_type
      in if \<not> block_source \<and> \<not> block_request then record_warning cfg key cap source g1
         else exhaust cfg key cap source block_source g1)"

text \<open>\<open>_record_result\<close>; the result is returned unchanged, so only the state is.\<close>

definition record_result :: "gate_config \<Rightarrow> tool_call \<Rightarrow> tool_result \<Rightarrow> gate \<Rightarrow> gate res" where
  "record_result cfg c r g =
     (let name = tool_name c;
          cap = evidence_capability (call_tool c) name;
          plain = (case res_payload r of None \<Rightarrow> True | Some p \<Rightarrow> map_of p ''ok'' = None)
      in if plain \<and> \<not> starts_with ''mcp__'' name then Inr g
         else if plain \<and> \<not> res_error r then Inr (record_success cfg (Some ''mcp'') name c None g)
         else
           let payload = (if plain then [(''ok'', PBool False), (''error'', PStr ''MCP_TOOL_FAILED'')]
                          else the (res_payload r))
           in if dget payload ''ok'' = PBool True then Inr (record_success cfg cap name c (Some payload) g)
              else if name = ''save_deliverable'' \<and> dget payload ''error'' = PStr ''COMPLETION_CHECK_FAILED''
              then Inr g
              else case cap of
                     None \<Rightarrow> Inr g
                   | Some cp \<Rightarrow> rbind (tool_error_type (render cfg) payload)
                       (\<lambda>et. Inr (record_failure cfg c cp (case et of None \<Rightarrow> ''tool'' | Some e \<Rightarrow> e) g)))"

section \<open>The gate\<close>

definition requires_initial_plan :: "gate_config \<Rightarrow> gate \<Rightarrow> tool_call \<Rightarrow> bool" where
  "requires_initial_plan cfg g c =
     (require_initial_plan cfg \<and> \<not> initial_plan_exists g
      \<and> (evidence_capability (call_tool c) (tool_name c) \<noteq> None
         \<or> tool_name c \<in> {''analyze_structured_output'', ''inspect_saved_output'', ''run_skill_transform''}))"

definition is_blocked :: "gate_config \<Rightarrow> gate \<Rightarrow> tool_call \<Rightarrow> bool" where
  "is_blocked cfg g c =
     (let name = tool_name c; cap = evidence_capability (call_tool c) name
      in name \<in> blocked_tools g \<or> capability_for_tool (call_tool c) name \<in> blocked_capabilities g
         \<or> source_scope cfg cap name c \<in> blocked_sources g \<or> request_scope cfg c \<in> blocked_requests g)"

definition tool_budget_reached :: "gate_config \<Rightarrow> gate \<Rightarrow> bool" where
  "tool_budget_reached cfg g = (max_tool_calls cfg > 0 \<and> tool_call_count g \<ge> max_tool_calls cfg)"

definition record_tool_call :: "gate_config \<Rightarrow> gate \<Rightarrow> gate" where
  "record_tool_call cfg g =
     (let g1 = g\<lparr>tool_call_count := tool_call_count g + 1\<rparr>
      in if tool_budget_reached cfg g1
         then emit_gate ''deepagents.tool_budget.reached''
                [(''max_tool_calls'', PInt (max_tool_calls cfg)), (''tool_call_count'', PInt (tool_call_count g1))] g1
         else g1)"

definition denied :: "string \<Rightarrow> string \<Rightarrow> tool_result" where
  "denied error message = \<lparr>res_payload = Some [(''ok'', PBool False), (''error'', PStr error),
     (''message'', PStr message)], res_error = True\<rparr>"

definition deny_unplanned_call :: "tool_call \<Rightarrow> gate \<Rightarrow> tool_result \<times> gate" where
  "deny_unplanned_call c g =
     (denied ''INITIAL_PLAN_REQUIRED'' ''Call write_todos with the initial execution plan before any business tool.'',
      emit_gate ''deepagents.plan.required''
        [(''tool'', PStr (tool_name c)), (''blocked_scope'', PStr ''invocation'')] g)"

definition deny_blocked_call :: tool_result where
  "deny_blocked_call = denied ''CAPABILITY_BLOCKED''
     ''This capability reached its recovery limit. Use existing evidence and finish the answer.''"

definition deny_tool_budget_call :: tool_result where
  "deny_tool_budget_call = denied ''TOOL_BUDGET_EXHAUSTED''
     ''The Run tool-call budget is exhausted. Use the existing evidence and finish the answer.''"

text \<open>The measured duration in the \<open>plan.ready\<close> event is left out.\<close>

definition observe_plan_call :: "gate_config \<Rightarrow> tool_call \<Rightarrow> tool_result \<Rightarrow> gate \<Rightarrow> gate res" where
  "observe_plan_call cfg c r g =
     (if tool_name c \<noteq> ''write_todos'' \<or> res_error r then Inr g
      else case py_or (call_args c) (PDict []) of
             PDict args \<Rightarrow>
               if normalize_plan_steps (render cfg) (dget args ''todos'') = [] then Inr g
               else if initial_plan_exists g then Inr g
               else Inr (emit_gate ''deepagents.plan.ready'' [] (g\<lparr>initial_plan_exists := True\<rparr>))
           | _ \<Rightarrow> Inl AttributeError)"

section \<open>Checkpoint\<close>

definition str_list :: "string set \<Rightarrow> py" where
  "str_list A = PList (map PStr (sorted_list_of_set A))"

definition int_dict :: "(string \<times> int) list \<Rightarrow> py" where
  "int_dict d = PDict (map (\<lambda>(k, n). (k, PInt n)) d)"

definition export_state :: "gate \<Rightarrow> pydict" where
  "export_state g =
     [(''initial_plan_exists'', PBool (initial_plan_exists g)),
      (''blocked_tools'', str_list (blocked_tools g)),
      (''blocked_capabilities'', str_list (blocked_capabilities g)),
      (''blocked_sources'', str_list (blocked_sources g)),
      (''blocked_requests'', PList (map (\<lambda>(a, b). PList [PStr a, PStr b]) (sorted_list_of_set (blocked_requests g)))),
      (''failure_counts'', PList (map (\<lambda>((a, b, c), n). PList [PStr a, PStr b, PStr c, PInt n])
         (sort_key fst (failure_counts g)))),
      (''capability_failure_counts'', int_dict (capability_failure_counts g)),
      (''capability_correction_counts'', int_dict (capability_correction_counts g)),
      (''source_failure_counts'', int_dict (source_failure_counts g)),
      (''source_correction_counts'', int_dict (source_correction_counts g)),
      (''success_count'', PInt (success_count g)),
      (''successful_capabilities'', str_list (successful_capabilities g)),
      (''successful_evidence'', PList (map PDict (successful_evidence g))),
      (''failed_capabilities'', str_list (failed_capabilities g)),
      (''recovered_capabilities'', str_list (recovered_capabilities g)),
      (''failed_sources'', str_list (failed_sources g)),
      (''recovered_sources'', str_list (recovered_sources g)),
      (''correction_recovery_count'', PInt (correction_recovery_count g)),
      (''alternative_recovery_count'', PInt (alternative_recovery_count g)),
      (''termination_detail'', PDict (gate_termination g)),
      (''exhaustion_details'', PList (exhaustion_details g)),
      (''failure_records'', PList (map (\<lambda>((a, b, c), d). PList [PStr a, PStr b, PStr c, PDict d])
         (failure_records g))),
      (''tool_call_count'', PInt (tool_call_count g))]"

text \<open>
  Readers of a snapshot. \<open>x or []\<close> gives the list; a set is built of text only, a counter of
  integers only, and a dictionary only from a JSON object: what \<open>export_state\<close> writes. Any
  other shape is rejected with the exception the code converts.
\<close>

definition list_field :: "pydict \<Rightarrow> string \<Rightarrow> py list res" where
  "list_field d k = (case py_or (dget d k) (PList []) of PList xs \<Rightarrow> Inr xs | _ \<Rightarrow> Inl TypeError)"

definition as_str :: "py \<Rightarrow> string res" where
  "as_str v = (case v of PStr s \<Rightarrow> Inr s | _ \<Rightarrow> Inl TypeError)"

definition as_dict :: "py \<Rightarrow> pydict res" where
  "as_dict v = (case v of PDict d \<Rightarrow> Inr d | _ \<Rightarrow> Inl TypeError)"

definition set_field :: "pydict \<Rightarrow> string \<Rightarrow> string set res" where
  "set_field d k = rbind (list_field d k) (\<lambda>xs. rbind (map_res as_str xs) (\<lambda>ss. Inr (set ss)))"

definition pair_item :: "py \<Rightarrow> (string \<times> string) res" where
  "pair_item v = (case v of PList (a # b # _) \<Rightarrow> rbind (as_str a) (\<lambda>x. rbind (as_str b) (\<lambda>y. Inr (x, y)))
                  | _ \<Rightarrow> Inl TypeError)"

definition count_item :: "py \<Rightarrow> (failure_key \<times> int) res" where
  "count_item v = (case v of
       PList (a # b # c # n # _) \<Rightarrow>
         rbind (as_str a) (\<lambda>x. rbind (as_str b) (\<lambda>y. rbind (as_str c) (\<lambda>z. rbind (py_int n) (\<lambda>i. Inr ((x, y, z), i)))))
     | PList _ \<Rightarrow> Inl ValueError
     | _ \<Rightarrow> Inl TypeError)"

definition record_item :: "py \<Rightarrow> (failure_key \<times> pydict) res" where
  "record_item v = (case v of
       PList (a # b # c # d # _) \<Rightarrow>
         rbind (as_str a) (\<lambda>x. rbind (as_str b) (\<lambda>y. rbind (as_str c) (\<lambda>z. rbind (as_dict d) (\<lambda>r. Inr ((x, y, z), r)))))
     | PList _ \<Rightarrow> Inl ValueError
     | _ \<Rightarrow> Inl TypeError)"

definition int_entry :: "string \<times> py \<Rightarrow> (string \<times> int) res" where
  "int_entry kv = (case snd kv of PInt i \<Rightarrow> Inr (fst kv, i) | _ \<Rightarrow> Inl TypeError)"

definition counter_field :: "pydict \<Rightarrow> string \<Rightarrow> (string \<times> int) list res" where
  "counter_field d k = rbind (as_dict (py_or (dget d k) (PDict []))) (map_res int_entry)"

definition int_field :: "pydict \<Rightarrow> string \<Rightarrow> int res" where
  "int_field d k = py_int (py_or (dget d k) (PInt 0))"

definition restore_body :: "pydict \<Rightarrow> gate \<Rightarrow> gate res" where
  "restore_body d g =
     rbind (set_field d ''blocked_tools'') (\<lambda>bt.
     rbind (set_field d ''blocked_capabilities'') (\<lambda>bc.
     rbind (set_field d ''blocked_sources'') (\<lambda>bs.
     rbind (rbind (list_field d ''blocked_requests'') (map_res pair_item)) (\<lambda>br.
     rbind (rbind (list_field d ''failure_counts'') (map_res count_item)) (\<lambda>fc.
     rbind (counter_field d ''capability_failure_counts'') (\<lambda>cf.
     rbind (counter_field d ''capability_correction_counts'') (\<lambda>cc.
     rbind (counter_field d ''source_failure_counts'') (\<lambda>sf.
     rbind (counter_field d ''source_correction_counts'') (\<lambda>sc.
     rbind (int_field d ''success_count'') (\<lambda>n.
     rbind (set_field d ''successful_capabilities'') (\<lambda>su.
     rbind (rbind (list_field d ''successful_evidence'') (map_res as_dict)) (\<lambda>se.
     rbind (set_field d ''failed_capabilities'') (\<lambda>fa.
     rbind (set_field d ''recovered_capabilities'') (\<lambda>rc.
     rbind (set_field d ''failed_sources'') (\<lambda>fs.
     rbind (set_field d ''recovered_sources'') (\<lambda>rs.
     rbind (int_field d ''correction_recovery_count'') (\<lambda>cr.
     rbind (int_field d ''alternative_recovery_count'') (\<lambda>ar.
     rbind (as_dict (py_or (dget d ''termination_detail'') (PDict []))) (\<lambda>td.
     rbind (list_field d ''exhaustion_details'') (\<lambda>ex.
     rbind (rbind (list_field d ''failure_records'') (map_res record_item)) (\<lambda>fr.
     rbind (int_field d ''tool_call_count'') (\<lambda>tc.
       Inr (g\<lparr>initial_plan_exists := truthy (dget_default d ''initial_plan_exists'' (PBool False)),
              blocked_tools := bt, blocked_capabilities := bc, blocked_sources := bs, blocked_requests := set br,
              failure_counts := AList.updates (map fst fc) (map snd fc) [], capability_failure_counts := cf,
              capability_correction_counts := cc, source_failure_counts := sf, source_correction_counts := sc,
              success_count := n, successful_capabilities := su, successful_evidence := se,
              failed_capabilities := fa, recovered_capabilities := rc, failed_sources := fs,
              recovered_sources := rs, correction_recovery_count := cr, alternative_recovery_count := ar,
              gate_termination := td, exhaustion_details := ex,
              failure_records := AList.updates (map fst fr) (map snd fr) [],
              tool_call_count := max tc 0\<rparr>)))))))))))))))))))))))"

definition restore_state :: "py \<Rightarrow> gate \<Rightarrow> gate res" where
  "restore_state v g =
     (case v of
        PDict d \<Rightarrow>
          (case restore_body d g of
             Inl OverflowError \<Rightarrow> Inl OverflowError
           | Inl _ \<Rightarrow> Inl (CheckpointResumeError ''Resume checkpoint has invalid execution-gate state.'')
           | Inr g' \<Rightarrow> Inr g')
      | _ \<Rightarrow> Inl (CheckpointResumeError ''Resume checkpoint has invalid execution-gate state.''))"

section \<open>Wrapping a tool call\<close>

text \<open>
  The result or the exception, the state afterwards, and the snapshots handed to
  \<open>on_state_change\<close>, in order. An exception of the handler or of the bookkeeping leaves the
  state as far as it got.
\<close>

definition wrap_tool_call ::
  "gate_config \<Rightarrow> (tool_call \<Rightarrow> tool_result res) \<Rightarrow> tool_call \<Rightarrow> gate \<Rightarrow> tool_result res \<times> gate \<times> pydict list" where
  "wrap_tool_call cfg handler c g =
     (if requires_initial_plan cfg g c then (case deny_unplanned_call c g of (r, g1) \<Rightarrow> (Inr r, g1, []))
      else if is_blocked cfg g c then (Inr deny_blocked_call, g, [])
      else if tool_budget_reached cfg g then (Inr deny_tool_budget_call, g, [])
      else
        let g1 = record_tool_call cfg g
        in case handler c of
             Inl e \<Rightarrow> (Inl e, g1, [export_state g1])
           | Inr r \<Rightarrow>
               (case observe_plan_call cfg c r g1 of
                  Inl e \<Rightarrow> (Inl e, g1, [export_state g1])
                | Inr g2 \<Rightarrow>
                    (case record_result cfg c r g2 of
                       Inl e \<Rightarrow> (Inl e, g2, [export_state g1])
                     | Inr g3 \<Rightarrow> (Inr r, g3, [export_state g1, export_state g3]))))"

definition call_admitted :: "gate_config \<Rightarrow> gate \<Rightarrow> tool_call \<Rightarrow> bool" where
  "call_admitted cfg g c \<longleftrightarrow> \<not> requires_initial_plan cfg g c \<and> \<not> is_blocked cfg g c \<and> \<not> tool_budget_reached cfg g"

definition gate_step :: "gate_config \<Rightarrow> (tool_call \<Rightarrow> tool_result res) \<Rightarrow> gate \<Rightarrow> tool_call \<Rightarrow> gate" where
  "gate_step cfg handler g c = fst (snd (wrap_tool_call cfg handler c g))"

text \<open>The calls of a run in order: how often the handler ran, and the final state.\<close>

fun run_calls :: "gate_config \<Rightarrow> (tool_call \<Rightarrow> tool_result res) \<Rightarrow> gate \<Rightarrow> tool_call list \<Rightarrow> nat \<times> gate" where
  "run_calls cfg handler g [] = (0, g)"
| "run_calls cfg handler g (c # cs) =
     (case run_calls cfg handler (gate_step cfg handler g c) cs of
        (n, g') \<Rightarrow> (if call_admitted cfg g c then Suc n else n, g'))"

section \<open>What the model may call\<close>

definition tool_hidden :: "gate \<Rightarrow> tool \<Rightarrow> bool" where
  "tool_hidden g t =
     (let name = tool_label t; cap = capability_for_tool (Some t) [];
          source = (if cap \<in> {''mcp'', ''plugin''} then Some (cap @ '':'' @ name)
                    else if cap = ''skill'' then None else Some (''tool:'' @ name))
      in name \<in> blocked_tools g \<or> cap \<in> blocked_capabilities g
         \<or> (case source of None \<Rightarrow> False | Some s \<Rightarrow> s \<in> blocked_sources g))"

definition filter_tools :: "gate_config \<Rightarrow> gate \<Rightarrow> tool list \<Rightarrow> tool list" where
  "filter_tools cfg g ts =
     (if tool_budget_reached cfg g then [] else filter (\<lambda>t. \<not> tool_hidden g t) ts)"

section \<open>Outcome\<close>

definition warning_count :: "gate \<Rightarrow> nat" where
  "warning_count g = length (filter (\<lambda>(_, d). detail_is ''scope'' ''warning'' d) (failure_records g))"

definition gate_outcome :: "gate \<Rightarrow> string" where
  "gate_outcome g = (if gate_termination g = [] then ''completed''
     else if success_count g \<noteq> 0 then ''partial'' else ''blocked'')"

record diagnostics =
  unresolved_failures :: nat
  recovered_failures :: nat
  warnings :: nat
  listed_failures :: "pydict list"

definition diagnose_item :: "string set \<Rightarrow> string \<Rightarrow> pydict \<Rightarrow> pydict" where
  "diagnose_item required outcome d =
     (let req = (case dget d ''capability'' of PStr c \<Rightarrow> c \<in> required | _ \<Rightarrow> False);
          d1 = AList.update ''required'' (PBool req) d
      in AList.update ''affects_required_evidence''
           (PBool (req \<and> detail_is ''scope'' ''unresolved'' d \<and> outcome \<noteq> ''completed'')) d1)"

definition failure_diagnostics :: "string set \<Rightarrow> string \<Rightarrow> gate \<Rightarrow> diagnostics" where
  "failure_diagnostics required outcome g =
     (let items = map (\<lambda>(_, d). diagnose_item required outcome d) (failure_records g);
          count = (\<lambda>scope. length (filter (detail_is ''scope'' scope) items))
      in \<lparr>unresolved_failures = count ''unresolved'', recovered_failures = count ''recovered'',
          warnings = count ''warning'', listed_failures = take 12 items\<rparr>)"

section \<open>Reasoning effort\<close>

text \<open>
  \<open>_prepare_model_request\<close>: the tools offered, and the reasoning effort it overrides. A
  message is a human one (with its three markers), a tool result, or another one; \<open>preset\<close>
  says whether the request or its model already fixes an effort, \<open>under_review\<close> whether the
  review state asks for corrections.
\<close>

datatype message =
    HumanMsg string string string
  | ToolMsg bool
  | OtherMsg

fun is_latest_human :: "message \<Rightarrow> bool" where
  "is_latest_human (HumanMsg lc src phase) = (lc \<noteq> ''summarization'')"
| "is_latest_human _ = False"

fun latest_tools :: "bool \<Rightarrow> message list \<Rightarrow> bool list" where
  "latest_tools skip [] = []"
| "latest_tools skip (ToolMsg ok # ms) = ok # latest_tools skip ms"
| "latest_tools skip (m # ms) = (if skip \<and> is_latest_human m then latest_tools False ms else [])"

definition in_progress :: "py \<Rightarrow> bool" where
  "in_progress v = (dget (dict_of v) ''status'' = PStr ''in_progress'')"

definition prepare_model_request ::
  "gate_config \<Rightarrow> gate \<Rightarrow> bool \<Rightarrow> bool \<Rightarrow> py list \<Rightarrow> message list \<Rightarrow> tool list \<Rightarrow> tool list \<times> string option" where
  "prepare_model_request cfg g preset under_review todos msgs ts =
     (let offered = filter_tools cfg g ts;
          human = find is_latest_human (rev msgs);
          runtime = (case human of Some (HumanMsg _ src _) \<Rightarrow> src = ''runtime'' | _ \<Rightarrow> False);
          hint = (case human of
                    Some (HumanMsg _ src phase) \<Rightarrow> src = ''runtime'' \<and> phase \<in> {''delivery'', ''analysis''}
                  | _ \<Rightarrow> False);
          tools = latest_tools hint (rev msgs);
          reviewing = (runtime \<and> \<not> hint \<or> under_review);
          effort =
            (if require_initial_plan cfg \<and> \<not> initial_plan_exists g \<and> planning_effort cfg \<noteq> []
             then planning_effort cfg
             else if execution_effort cfg \<noteq> [] \<and> offered \<noteq> []
                     \<and> todos \<noteq> [] \<and> list_ex in_progress todos \<and> tools \<noteq> [] \<and> list_all (\<lambda>ok. ok) tools
                     \<and> \<not> reviewing
             then (if hint \<and> msgs \<noteq> [] \<and> is_latest_human (last msgs) then planning_effort cfg
                   else execution_effort cfg)
             else [])
      in (offered, if preset \<or> effort = [] then None else Some effort))"

section \<open>Bookkeeping leaves the budget alone\<close>

lemma emit_gate_frame [simp]:
  "tool_call_count (emit_gate n d g) = tool_call_count g"
  "gate_termination (emit_gate n d g) = gate_termination g"
  "initial_plan_exists (emit_gate n d g) = initial_plan_exists g"
  "failure_counts (emit_gate n d g) = failure_counts g"
  "blocked_requests (emit_gate n d g) = blocked_requests g"
  "blocked_sources (emit_gate n d g) = blocked_sources g"
  "failed_sources (emit_gate n d g) = failed_sources g"
  "recovered_sources (emit_gate n d g) = recovered_sources g"
  "failed_capabilities (emit_gate n d g) = failed_capabilities g"
  "recovered_capabilities (emit_gate n d g) = recovered_capabilities g"
  "failure_records (emit_gate n d g) = failure_records g"
  by (simp_all add: emit_gate_def)

lemma record_recovery_frame [simp]:
  "tool_call_count (record_recovery cfg cap s g) = tool_call_count g"
  "gate_termination (record_recovery cfg cap s g) = gate_termination g"
  "initial_plan_exists (record_recovery cfg cap s g) = initial_plan_exists g"
  by (auto simp: record_recovery_def apply_recovery_def settle_capability_def Let_def split: option.splits)

lemma record_success_frame [simp]:
  "tool_call_count (record_success cfg cap n c p g) = tool_call_count g"
  "gate_termination (record_success cfg cap n c p g) = gate_termination g"
  "initial_plan_exists (record_success cfg cap n c p g) = initial_plan_exists g"
  by (simp_all add: record_success_def Let_def split: option.splits)

lemma record_failure_frame [simp]:
  "tool_call_count (record_failure cfg c cap e g) = tool_call_count g"
  "initial_plan_exists (record_failure cfg c cap e g) = initial_plan_exists g"
  by (simp_all add: record_failure_def record_warning_def exhaust_def count_failure_def Let_def)

lemma record_failure_termination:
  "gate_termination g \<noteq> [] \<Longrightarrow> gate_termination (record_failure cfg c cap e g) = gate_termination g"
  by (simp add: record_failure_def record_warning_def exhaust_def count_failure_def Let_def)

lemma record_result_frame:
  assumes "record_result cfg c r g = Inr g'"
  shows "tool_call_count g' = tool_call_count g" "initial_plan_exists g' = initial_plan_exists g"
    "gate_termination g \<noteq> [] \<longrightarrow> gate_termination g' = gate_termination g"
  using assms
  by (auto simp: record_result_def Let_def rbind_Inr_iff record_failure_termination split: if_splits option.splits)

lemma observe_plan_frame:
  assumes "observe_plan_call cfg c r g = Inr g'"
  shows "tool_call_count g' = tool_call_count g" "gate_termination g' = gate_termination g"
  using assms by (auto simp: observe_plan_call_def split: if_splits py.splits)

lemma record_tool_call_frame [simp]:
  "tool_call_count (record_tool_call cfg g) = tool_call_count g + 1"
  "gate_termination (record_tool_call cfg g) = gate_termination g"
  "initial_plan_exists (record_tool_call cfg g) = initial_plan_exists g"
  "failure_counts (record_tool_call cfg g) = failure_counts g"
  by (simp_all add: record_tool_call_def Let_def)

lemma gate_step_denied:
  "\<not> call_admitted cfg g c \<Longrightarrow> gate_step cfg handler g c =
     (if requires_initial_plan cfg g c then snd (deny_unplanned_call c g) else g)"
  by (auto simp: gate_step_def wrap_tool_call_def call_admitted_def split: prod.split)

text \<open>An admitted call, by how far its bookkeeping gets.\<close>

lemma gate_step_admitted:
  assumes "call_admitted cfg g c"
  obtains "gate_step cfg handler g c = record_tool_call cfg g"
  | r g2 where "handler c = Inr r" "observe_plan_call cfg c r (record_tool_call cfg g) = Inr g2"
      "gate_step cfg handler g c = g2"
  | r g2 g3 where "handler c = Inr r" "observe_plan_call cfg c r (record_tool_call cfg g) = Inr g2"
      "record_result cfg c r g2 = Inr g3" "gate_step cfg handler g c = g3"
proof -
  have open_gate: "\<not> requires_initial_plan cfg g c" "\<not> is_blocked cfg g c" "\<not> tool_budget_reached cfg g"
    using assms by (simp_all add: call_admitted_def)
  note step = gate_step_def wrap_tool_call_def Let_def
  show thesis
  proof (cases "handler c")
    case (Inl e)
    then show thesis using that(1) open_gate by (simp add: step)
  next
    case (Inr r)
    show thesis
    proof (cases "observe_plan_call cfg c r (record_tool_call cfg g)")
      case (Inl e)
      then show thesis using that(1) open_gate Inr by (simp add: step)
    next
      case o: (Inr g2)
      show thesis
      proof (cases "record_result cfg c r g2")
        case (Inl e)
        then show thesis using that(2) open_gate Inr o by (simp add: step)
      next
        case (Inr g3)
        then show thesis using that(3) open_gate \<open>handler c = Inr r\<close> o by (simp add: step)
      qed
    qed
  qed
qed

lemma gate_step_count:
  "tool_call_count (gate_step cfg handler g c) = tool_call_count g + (if call_admitted cfg g c then 1 else 0)"
proof (cases "call_admitted cfg g c")
  case True
  then show ?thesis
    by (cases rule: gate_step_admitted [OF True, of handler])
      (simp_all add: observe_plan_frame record_result_frame)
qed (simp add: gate_step_denied deny_unplanned_call_def)

lemma gate_step_termination:
  assumes "gate_termination g \<noteq> []"
  shows "gate_termination (gate_step cfg handler g c) = gate_termination g"
proof (cases "call_admitted cfg g c")
  case True
  show ?thesis
  proof (cases rule: gate_step_admitted [OF True, of handler])
    case (3 r g2 g3)
    then show ?thesis
      using observe_plan_frame(2) [OF 3(2)] record_result_frame(3) [OF 3(3)] assms by simp
  qed (simp_all add: observe_plan_frame)
qed (simp add: gate_step_denied deny_unplanned_call_def)

lemma run_calls_state: "snd (run_calls cfg handler g cs) = foldl (gate_step cfg handler) g cs"
  by (induction cs arbitrary: g) (auto simp: split_beta)

interpretation tool_meter: usage_meter "gate_step cfg handler" tool_call_count "\<lambda>_. max_tool_calls cfg" for cfg handler
  by unfold_locales (simp_all add: gate_step_count)

lemma exhausted_is_budget: "tool_meter.exhausted cfg g \<longleftrightarrow> tool_budget_reached cfg g"
  by (simp add: tool_meter.exhausted_def tool_budget_reached_def)

end
