(* ===== verification/Capability_Properties.thy ===== *)
theory Capability_Properties
  imports Capability_Boundary
begin

text \<open>Properties of the execution gate of \<open>Capability_Boundary\<close>.\<close>

section \<open>A gate for the witnesses\<close>

definition sample_config :: "int \<Rightarrow> bool \<Rightarrow> gate_config" where
  "sample_config n plan = \<lparr>required_capabilities = {''workspace''}, require_initial_plan = plan,
     max_tool_calls = n, planning_effort = [], execution_effort = [], render = (\<lambda>_. []),
     digest = (\<lambda>_. ''h'')\<rparr>"

definition sample_call :: "string \<Rightarrow> tool_call" where
  "sample_call name = \<lparr>call_name = name, call_args = PDict [(''todos'', PList [PDict [(''content'', PStr ''a'')]])],
     call_id = ''1'', call_tool = None\<rparr>"

definition failing :: "tool_call \<Rightarrow> tool_result res" where
  "failing c = Inr \<lparr>res_payload = Some [(''ok'', PBool False), (''error'', PStr ''x'')], res_error = False\<rparr>"

section \<open>The tool-call budget\<close>

text \<open>C4.
  A run with a tool-call budget executes at most the rest of it: whatever calls the model
  makes and however the tools answer or fail, from a gate that has already counted \<open>k\<close> calls
  the tools run at most \<open>max - k\<close> more times, and each execution is counted exactly once.
\<close>

theorem tool_budget_bounds_executions:
  assumes "max_tool_calls cfg > 0"
  shows "int (fst (run_calls cfg handler g cs)) \<le> max 0 (max_tool_calls cfg - tool_call_count g)
       \<and> tool_call_count (snd (run_calls cfg handler g cs)) = tool_call_count g + int (fst (run_calls cfg handler g cs))"
proof (induction cs arbitrary: g)
  case (Cons c cs)
  show ?case
  proof (cases "call_admitted cfg g c")
    case True
    then have "tool_call_count g < max_tool_calls cfg"
      using assms by (auto simp: call_admitted_def tool_budget_reached_def)
    then show ?thesis
      using Cons.IH [of "gate_step cfg handler g c"] True gate_step_count [of cfg handler g c]
      by (auto simp: split_beta)
  next
    case False
    then show ?thesis
      using Cons.IH [of "gate_step cfg handler g c"] gate_step_count [of cfg handler g c]
      by (simp add: split_beta)
  qed
qed simp

theorem tool_budget_bounds_executions_witness:
  "int (fst (run_calls (sample_config 1 False) failing new_gate [sample_call ''a'', sample_call ''b''])) \<le> 1"
  using tool_budget_bounds_executions [of "sample_config 1 False" failing new_gate "[sample_call ''a'', sample_call ''b'']"]
  by (simp add: sample_config_def new_gate_def)

section \<open>The initial plan\<close>

lemma gate_step_plan:
  assumes "initial_plan_exists (gate_step cfg handler g c)" "\<not> initial_plan_exists g"
  shows "tool_name c = ''write_todos'' \<and> (\<exists>r args. handler c = Inr r \<and> \<not> res_error r
       \<and> py_or (call_args c) (PDict []) = PDict args \<and> normalize_plan_steps (render cfg) (dget args ''todos'') \<noteq> [])"
proof (cases "call_admitted cfg g c")
  case True
  have obs: "initial_plan_exists g2 \<Longrightarrow> tool_name c = ''write_todos'' \<and> \<not> res_error r
       \<and> (\<exists>args. py_or (call_args c) (PDict []) = PDict args
            \<and> normalize_plan_steps (render cfg) (dget args ''todos'') \<noteq> [])"
    if "observe_plan_call cfg c r (record_tool_call cfg g) = Inr g2" for r g2
    using that assms(2) by (auto simp: observe_plan_call_def split: if_splits py.splits)
  show ?thesis
  proof (cases rule: gate_step_admitted [OF True, of handler])
    case 1
    then show ?thesis using assms by simp
  next
    case (2 r g2)
    then show ?thesis using obs [OF 2(2)] assms(1) by auto
  next
    case (3 r g2 g3)
    then show ?thesis using obs [OF 3(2)] record_result_frame(2) [OF 3(3)] assms(1) by auto
  qed
next
  case False
  then show ?thesis using assms by (simp add: gate_step_denied deny_unplanned_call_def split: if_splits)
qed

text \<open>With a required initial plan no business tool is executed before the model has written one:
  when the gate call_admitted a call of a tool that can produce evidence after a history of calls,
  one of those calls was a successful \<open>write_todos\<close> whose plan has a visible step.
\<close>

lemma business_tool_needs_a_plan:
  assumes "require_initial_plan cfg" "\<not> initial_plan_exists g"
    and "evidence_capability (call_tool c) (tool_name c) \<noteq> None"
    and "call_admitted cfg (foldl (gate_step cfg handler) g ds) c"
  shows "\<exists>d \<in> set ds. tool_name d = ''write_todos'' \<and> (\<exists>r args. handler d = Inr r \<and> \<not> res_error r
           \<and> py_or (call_args d) (PDict []) = PDict args
           \<and> normalize_plan_steps (render cfg) (dget args ''todos'') \<noteq> [])"
proof -
  have "initial_plan_exists (foldl (gate_step cfg handler) g ds)"
    using assms(1,3,4) by (simp add: call_admitted_def requires_initial_plan_def)
  then show ?thesis
    using assms(2)
  proof (induction ds arbitrary: g)
    case (Cons d ds)
    show ?case
    proof (cases "initial_plan_exists (gate_step cfg handler g d)")
      case True
      then show ?thesis using gate_step_plan [OF True Cons.prems(2)] by auto
    next
      case False
      then show ?thesis using Cons.IH [OF _ False] Cons.prems(1) by auto
    qed
  qed simp
qed

lemma business_tool_needs_a_plan_sample:
  "\<exists>d \<in> {sample_call ''write_todos''}. tool_name d = ''write_todos''"
proof -
  let ?h = "\<lambda>c. Inr \<lparr>res_payload = None, res_error = False\<rparr> :: tool_result res"
  have a: "call_admitted (sample_config 0 True)
      (foldl (gate_step (sample_config 0 True) ?h) new_gate [sample_call ''write_todos'']) (sample_call ''find_files'')"
    unfolding call_admitted_def by code_simp
  have e: "evidence_capability (call_tool (sample_call ''find_files'')) (tool_name (sample_call ''find_files'')) \<noteq> None"
    by code_simp
  show ?thesis
    using business_tool_needs_a_plan [OF _ _ e a] by (auto simp: sample_config_def new_gate_def)
qed

section \<open>Failing calls\<close>

text \<open>A result the gate books as a failure of the capability, of the given error type.\<close>

definition books_failure :: "gate_config \<Rightarrow> tool_call \<Rightarrow> tool_result \<Rightarrow> string \<Rightarrow> string \<Rightarrow> bool" where
  "books_failure cfg c r cap et \<longleftrightarrow>
     tool_name c \<noteq> ''write_todos'' \<and> tool_name c \<noteq> ''save_deliverable''
     \<and> evidence_capability (call_tool c) (tool_name c) = Some cap
     \<and> (\<exists>p. res_payload r = Some p \<and> map_of p ''ok'' \<noteq> None \<and> dget p ''ok'' \<noteq> PBool True
          \<and> tool_error_type (render cfg) p = Inr (Some et))"

lemma books_failure_step:
  assumes "books_failure cfg c r cap et" "handler c = Inr r" "call_admitted cfg g c"
  shows "gate_step cfg handler g c = record_failure cfg c cap et (record_tool_call cfg g)"
proof -
  have "observe_plan_call cfg c r (record_tool_call cfg g) = Inr (record_tool_call cfg g)"
    using assms(1) by (simp add: observe_plan_call_def books_failure_def)
  moreover have "record_result cfg c r (record_tool_call cfg g)
      = Inr (record_failure cfg c cap et (record_tool_call cfg g))"
    using assms(1) by (auto simp: record_result_def books_failure_def Let_def)
  ultimately show ?thesis
    using assms(2,3) by (simp add: gate_step_def wrap_tool_call_def call_admitted_def Let_def)
qed

lemma record_failure_effect:
  fixes cfg c et g
  defines "key \<equiv> (tool_name c, et, normalized_arguments cfg c)"
  assumes "evidence_capability (call_tool c) (tool_name c) = Some cap"
  shows "cget (failure_counts (record_failure cfg c cap et g)) key = cget (failure_counts g) key + 1"
    and "cget (failure_counts g) key + 1 \<ge> failure_budget c et \<or> et \<in> {''configuration'', ''policy''} \<Longrightarrow>
         is_blocked cfg (record_failure cfg c cap et g) c"
proof -
  show "cget (failure_counts (record_failure cfg c cap et g)) key = cget (failure_counts g) key + 1"
    by (simp add: record_failure_def record_warning_def exhaust_def count_failure_def Let_def key_def)
  show "cget (failure_counts g) key + 1 \<ge> failure_budget c et \<or> et \<in> {''configuration'', ''policy''} \<Longrightarrow>
         is_blocked cfg (record_failure cfg c cap et g) c"
    using assms(2)
    by (auto simp: record_failure_def exhaust_def count_failure_def Let_def key_def is_blocked_def request_scope_def
        emit_gate_def)
qed

lemma blocked_call_never_runs:
  assumes "is_blocked cfg g c"
  shows "fst (run_calls cfg handler g (replicate n c)) = 0"
  using assms
proof (induction n arbitrary: g)
  case (Suc n)
  have "\<not> call_admitted cfg g c" using Suc.prems by (simp add: call_admitted_def)
  moreover have "is_blocked cfg (gate_step cfg handler g c) c"
    using Suc.prems calculation by (simp add: gate_step_denied deny_unplanned_call_def is_blocked_def emit_gate_def Let_def)
  ultimately show ?case using Suc.IH by (simp add: split_beta)
qed simp



text \<open>The first exhausted capability names the run's termination: once set, the termination detail
  is never replaced, so the outcome the gate reports stays partial or blocked whatever
  succeeds later.
\<close>

lemma first_exhaustion_is_kept:
  assumes "gate_termination g \<noteq> []"
  shows "gate_termination (foldl (gate_step cfg handler) g cs) = gate_termination g
       \<and> gate_outcome (foldl (gate_step cfg handler) g cs) \<noteq> ''completed''"
  using assms
proof (induction cs arbitrary: g)
  case (Cons c cs)
  then show ?case
    using gate_step_termination [OF Cons.prems, of cfg handler c] Cons.IH [of "gate_step cfg handler g c"] by simp
qed (simp add: gate_outcome_def)

lemma first_exhaustion_is_kept_sample:
  "gate_outcome (foldl (gate_step (sample_config 0 False) failing)
     (new_gate\<lparr>gate_termination := [(''reason'', PStr ''execution_failed'')]\<rparr>) [sample_call ''a'']) \<noteq> ''completed''"
  using first_exhaustion_is_kept [of "new_gate\<lparr>gate_termination := [(''reason'', PStr ''execution_failed'')]\<rparr>"
      "sample_config 0 False" failing "[sample_call ''a'']"] by simp

section \<open>Recovery bookkeeping\<close>

text \<open>
  Only what failed can be recovered, and a failure recorded as unresolved belongs to a source
  that failed and has not recovered since.
\<close>

definition gate_inv :: "gate \<Rightarrow> bool" where
  "gate_inv g \<longleftrightarrow>
     recovered_sources g \<subseteq> failed_sources g \<and> recovered_capabilities g \<subseteq> failed_capabilities g \<and>
     (\<forall>k d. (k, d) \<in> set (failure_records g) \<longrightarrow> detail_is ''scope'' ''unresolved'' d \<longrightarrow>
        (\<exists>s. detail_is ''source'' s d \<and> s \<in> failed_sources g \<and> s \<notin> recovered_sources g))"

lemma gate_invD:
  "gate_inv g \<Longrightarrow> (k, d) \<in> set (failure_records g) \<Longrightarrow> detail_is ''scope'' ''unresolved'' d \<Longrightarrow>
     \<exists>s. detail_is ''source'' s d \<and> s \<in> failed_sources g \<and> s \<notin> recovered_sources g"
  unfolding gate_inv_def by blast

lemma gate_invI:
  assumes "recovered_sources g \<subseteq> failed_sources g" "recovered_capabilities g \<subseteq> failed_capabilities g"
    and "\<And>k d. (k, d) \<in> set (failure_records g) \<Longrightarrow> detail_is ''scope'' ''unresolved'' d \<Longrightarrow>
           \<exists>s. detail_is ''source'' s d \<and> s \<in> failed_sources g \<and> s \<notin> recovered_sources g"
  shows "gate_inv g"
  using assms unfolding gate_inv_def by blast

lemma gate_inv_subsets:
  "gate_inv g \<Longrightarrow> recovered_sources g \<subseteq> failed_sources g"
  "gate_inv g \<Longrightarrow> recovered_capabilities g \<subseteq> failed_capabilities g"
  unfolding gate_inv_def by blast+

lemma gate_inv_frame:
  "failure_records g' = failure_records g \<Longrightarrow> failed_sources g' = failed_sources g \<Longrightarrow>
   recovered_sources g' = recovered_sources g \<Longrightarrow> failed_capabilities g' = failed_capabilities g \<Longrightarrow>
   recovered_capabilities g' = recovered_capabilities g \<Longrightarrow> gate_inv g' = gate_inv g"
  by (simp add: gate_inv_def)

lemma gate_inv_emit [simp]: "gate_inv (emit_gate n d g) = gate_inv g"
  by (rule gate_inv_frame) simp_all

lemma mark_recovered_unresolved:
  "(k, d) \<in> set (mark_recovered P rs) \<Longrightarrow> detail_is ''scope'' ''unresolved'' d \<Longrightarrow> (k, d) \<in> set rs \<and> \<not> P d"
  by (auto simp: mark_recovered_def detail_is_def dget_update split: if_splits)

lemma alternatives_unresolved:
  assumes "s \<in> set (alternatives cfg cap g)"
  shows "\<exists>k d. (k, d) \<in> set (failure_records g) \<and> detail_is ''scope'' ''unresolved'' d \<and> detail_is ''source'' s d"
proof -
  from assms obtain k d where kd: "(k, d) \<in> set (failure_records g)" "detail_is ''scope'' ''unresolved'' d"
    "str_of (dget d ''source'') = Some s"
    unfolding alternatives_def set_map_filter by (force split: if_splits)
  then have "detail_is ''source'' s d" by (cases "dget d ''source''") (simp_all add: detail_is_def)
  then show ?thesis using kd by blast
qed

lemma detail_is_unique: "detail_is k v d \<Longrightarrow> detail_is k w d \<Longrightarrow> v = w"
  by (simp add: detail_is_def)

lemma recovery_kind_failed:
  assumes "gate_inv g" "recovery_kind cfg cap source g = Some (t, ss)"
  shows "set ss \<subseteq> failed_sources g"
proof
  fix s assume s: "s \<in> set ss"
  show "s \<in> failed_sources g"
  proof (cases "source \<in> failed_sources g - recovered_sources g")
    case True
    then show ?thesis using assms(2) s by (auto simp: recovery_kind_def)
  next
    case False
    then have "s \<in> set (alternatives cfg cap g)"
      using assms(2) s by (auto simp: recovery_kind_def split: if_splits)
    then show ?thesis
      using alternatives_unresolved gate_invD [OF assms(1)] detail_is_unique by metis
  qed
qed

lemma apply_recovery_fields:
  "failed_sources (apply_recovery k g) = failed_sources g"
  "recovered_sources (apply_recovery k g) = recovered_sources g \<union> set (snd k)"
  "failed_capabilities (apply_recovery k g) = failed_capabilities g"
  "recovered_capabilities (apply_recovery k g) = recovered_capabilities g"
  "failure_records (apply_recovery k g) = mark_recovered
     (\<lambda>d. detail_is ''scope'' ''unresolved'' d \<and> (\<exists>s \<in> set (snd k). detail_is ''source'' s d)) (failure_records g)"
  by (simp_all add: apply_recovery_def Let_def)

lemma inv_apply_recovery:
  assumes "gate_inv g" "set (snd k) \<subseteq> failed_sources g"
  shows "gate_inv (apply_recovery k g)"
proof (rule gate_invI)
  show "recovered_sources (apply_recovery k g) \<subseteq> failed_sources (apply_recovery k g)"
    using assms gate_inv_subsets(1) by (auto simp: apply_recovery_fields)
  show "recovered_capabilities (apply_recovery k g) \<subseteq> failed_capabilities (apply_recovery k g)"
    using assms(1) gate_inv_subsets(2) by (simp add: apply_recovery_fields)
  fix key d
  assume x: "(key, d) \<in> set (failure_records (apply_recovery k g))" and u: "detail_is ''scope'' ''unresolved'' d"
  from mark_recovered_unresolved [OF x [unfolded apply_recovery_fields] u]
  have "(key, d) \<in> set (failure_records g)" "\<forall>s \<in> set (snd k). \<not> detail_is ''source'' s d"
    using u by auto
  then show "\<exists>s. detail_is ''source'' s d \<and> s \<in> failed_sources (apply_recovery k g)
      \<and> s \<notin> recovered_sources (apply_recovery k g)"
    using gate_invD [OF assms(1) _ u] unfolding apply_recovery_fields by blast
qed

lemma inv_mark_warnings:
  assumes "gate_inv g"
  shows "gate_inv (g\<lparr>correction_recovery_count := n, failure_records := mark_recovered P (failure_records g)\<rparr>)"
  by (rule gate_invI)
    (use gate_inv_subsets [OF assms] gate_invD [OF assms] mark_recovered_unresolved in \<open>auto, blast\<close>)

lemma inv_settle_capability: "gate_inv g \<Longrightarrow> gate_inv (settle_capability cap g)"
  unfolding gate_inv_def by (auto simp: settle_capability_def simp del: split_paired_All)

lemma inv_record_recovery:
  assumes "gate_inv g"
  shows "gate_inv (record_recovery cfg cap source g)"
proof (cases "recovery_kind cfg cap source g")
  case (Some k)
  have "set (snd k) \<subseteq> failed_sources g"
    using recovery_kind_failed [OF assms, of cfg cap source "fst k" "snd k"] Some by simp
  then show ?thesis
    using Some inv_settle_capability [OF inv_apply_recovery [OF assms]] by (simp add: record_recovery_def Let_def)
next
  case None
  then show ?thesis
    using inv_settle_capability [OF inv_mark_warnings [OF assms]] inv_settle_capability [OF assms]
    by (simp add: record_recovery_def Let_def)
qed

lemma inv_record_success:
  assumes "gate_inv g"
  shows "gate_inv (record_success cfg cap name c p g)"
proof (cases cap)
  case (Some cp)
  show ?thesis
    unfolding record_success_def Some option.case Let_def
    by (rule inv_record_recovery) (use assms in \<open>simp add: gate_inv_def del: split_paired_All\<close>)
qed (use assms in \<open>simp add: record_success_def\<close>)

lemma update_record_in:
  "(k', d') \<in> set (AList.update k d rs) \<Longrightarrow> (k' = k \<and> d' = d) \<or> (k', d') \<in> set rs"
  by (induction rs) (auto split: if_splits)

lemma failure_detail_scope:
  "detail_is ''scope'' v (failure_detail cfg key cap source scope b) \<longleftrightarrow> v = scope"
  "detail_is ''source'' v (failure_detail cfg key cap source scope b) \<longleftrightarrow> v = source"
  by (cases key; auto simp: failure_detail_def detail_is_def)+

lemma inv_count_failure [simp]: "gate_inv (count_failure key cap source g) = gate_inv g"
  by (rule gate_inv_frame) (simp_all add: count_failure_def Let_def)

lemma inv_record_warning:
  assumes "gate_inv g"
  shows "gate_inv (record_warning cfg key cap source g)"
  unfolding record_warning_def Let_def gate_inv_emit
proof (rule gate_invI)
  let ?g = "g\<lparr>failure_records := AList.update key (failure_detail cfg key cap source ''warning'' False) (failure_records g)\<rparr>"
  show "recovered_sources ?g \<subseteq> failed_sources ?g" "recovered_capabilities ?g \<subseteq> failed_capabilities ?g"
    using gate_inv_subsets [OF assms] by simp_all
  fix k d
  assume "(k, d) \<in> set (failure_records ?g)" and u: "detail_is ''scope'' ''unresolved'' d"
  then have "(k, d) \<in> set (failure_records g)"
    using update_record_in [of k d key] failure_detail_scope(1) [of "''unresolved''" cfg key cap source "''warning''"]
    by fastforce
  from gate_invD [OF assms this u]
  show "\<exists>s. detail_is ''source'' s d \<and> s \<in> failed_sources ?g \<and> s \<notin> recovered_sources ?g" by simp
qed

lemma exhaust_fields:
  "failed_sources (exhaust cfg key cap source b g) = insert source (failed_sources g)"
  "recovered_sources (exhaust cfg key cap source b g) = recovered_sources g - {source}"
  "failed_capabilities (exhaust cfg key cap source b g) = insert cap (failed_capabilities g)"
  "recovered_capabilities (exhaust cfg key cap source b g) = recovered_capabilities g - {cap}"
  "failure_records (exhaust cfg key cap source b g) = AList.update key
     (failure_detail cfg key cap source ''unresolved'' (cap \<in> required_capabilities cfg)) (failure_records g)"
  by (cases key; simp add: exhaust_def Let_def)+

lemma inv_exhaust:
  assumes "gate_inv g"
  shows "gate_inv (exhaust cfg key cap source b g)"
proof (rule gate_invI)
  show "recovered_sources (exhaust cfg key cap source b g) \<subseteq> failed_sources (exhaust cfg key cap source b g)"
    "recovered_capabilities (exhaust cfg key cap source b g) \<subseteq> failed_capabilities (exhaust cfg key cap source b g)"
    using gate_inv_subsets [OF assms] by (auto simp: exhaust_fields)
  fix k d
  assume x: "(k, d) \<in> set (failure_records (exhaust cfg key cap source b g))"
    and u: "detail_is ''scope'' ''unresolved'' d"
  show "\<exists>s. detail_is ''source'' s d \<and> s \<in> failed_sources (exhaust cfg key cap source b g)
      \<and> s \<notin> recovered_sources (exhaust cfg key cap source b g)"
    using update_record_in [OF x [unfolded exhaust_fields]] gate_invD [OF assms _ u] failure_detail_scope(2)
    unfolding exhaust_fields by blast
qed

lemma inv_record_failure: "gate_inv g \<Longrightarrow> gate_inv (record_failure cfg c cap et g)"
  by (simp add: record_failure_def Let_def inv_record_warning inv_exhaust)

lemma inv_record_result: "gate_inv g \<Longrightarrow> record_result cfg c r g = Inr g' \<Longrightarrow> gate_inv g'"
  by (auto simp: record_result_def Let_def rbind_Inr_iff inv_record_success inv_record_failure
      split: if_splits option.splits)

lemma inv_observe: "gate_inv g \<Longrightarrow> observe_plan_call cfg c r g = Inr g' \<Longrightarrow> gate_inv g'"
  by (auto simp: observe_plan_call_def gate_inv_def simp del: split_paired_All split: if_splits py.splits)

lemma inv_record_tool_call: "gate_inv g \<Longrightarrow> gate_inv (record_tool_call cfg g)"
  by (auto simp: record_tool_call_def Let_def gate_inv_def simp del: split_paired_All)

interpretation gate_bookkeeping: step_invariant "gate_step cfg handler" gate_inv for cfg handler
proof
  fix g c
  assume inv: "gate_inv g"
  show "gate_inv (gate_step cfg handler g c)"
  proof (cases "call_admitted cfg g c")
    case True
    show ?thesis
    proof (cases rule: gate_step_admitted [OF True, of handler])
      case (3 r g2 g3)
      then show ?thesis
        using inv_record_result [OF inv_observe [OF inv_record_tool_call [OF inv] 3(2)] 3(3)] by simp
    qed (auto intro: inv_observe inv_record_tool_call [OF inv])
  next
    case False
    then show ?thesis using inv by (simp add: gate_step_denied deny_unplanned_call_def)
  qed
qed

text \<open>Recovery is booked consistently through any sequence of tool calls: a source or capability
  counts as recovered only if it had failed, and every failure the diagnostics report as
  unresolved has a source that failed and has not recovered.
\<close>

lemma recovery_is_consistent:
  "gate_inv (foldl (gate_step cfg handler) new_gate cs)"
  by (rule gate_bookkeeping.inv_run) (simp add: gate_inv_def new_gate_def)

section \<open>The checkpoint of the gate\<close>

text \<open>What a gate reached by the code holds: finite sets, one entry per key, a natural count.\<close>

definition gate_wf :: "gate \<Rightarrow> bool" where
  "gate_wf g \<longleftrightarrow>
     finite (blocked_tools g) \<and> finite (blocked_capabilities g) \<and> finite (blocked_sources g) \<and>
     finite (blocked_requests g) \<and> finite (successful_capabilities g) \<and> finite (failed_capabilities g) \<and>
     finite (recovered_capabilities g) \<and> finite (failed_sources g) \<and> finite (recovered_sources g) \<and>
     distinct (map fst (failure_counts g)) \<and> distinct (map fst (failure_records g)) \<and> tool_call_count g \<ge> 0"

lemma list_field_PList: "dget d k = PList xs \<Longrightarrow> list_field d k = Inr xs"
  by (cases xs) (simp_all add: list_field_def py_or_def)

lemma set_field_str: "finite A \<Longrightarrow> dget d k = str_list A \<Longrightarrow> set_field d k = Inr A"
proof -
  assume A: "finite A" "dget d k = str_list A"
  have "map_res as_str (map PStr xs) = Inr xs" for xs
    by (induction xs) (simp_all add: as_str_def)
  then show ?thesis
    using A by (simp add: set_field_def list_field_PList str_list_def)
qed

lemma counter_field_int: "dget d k = int_dict c \<Longrightarrow> counter_field d k = Inr c"
proof -
  assume d: "dget d k = int_dict c"
  have "map_res int_entry (map (\<lambda>(k, n). (k, PInt n)) c) = Inr c"
    by (induction c) (auto simp: int_entry_def)
  then show ?thesis
    using d by (cases c) (simp_all add: counter_field_def int_dict_def py_or_def as_dict_def)
qed

lemma int_field_PInt: "dget d k = PInt i \<Longrightarrow> int_field d k = Inr i"
  by (simp add: int_field_def py_or_def)

lemma dict_field_PDict: "dget d k = PDict e \<Longrightarrow> as_dict (py_or (dget d k) (PDict [])) = Inr e"
  by (cases e) (simp_all add: py_or_def as_dict_def)

lemma pair_items: "map_res pair_item (map (\<lambda>(a, b). PList [PStr a, PStr b]) xs) = Inr xs"
  by (induction xs) (auto simp: pair_item_def as_str_def)

lemma count_items:
  "map_res count_item (map (\<lambda>((a, b, c), n). PList [PStr a, PStr b, PStr c, PInt n]) xs) = Inr xs"
  by (induction xs) (auto simp: count_item_def as_str_def)

lemma record_items:
  "map_res record_item (map (\<lambda>((a, b, c), d). PList [PStr a, PStr b, PStr c, PDict d]) xs) = Inr xs"
  by (induction xs) (auto simp: record_item_def as_str_def as_dict_def)

lemma dict_items: "map_res as_dict (map PDict xs) = Inr xs"
  by (induction xs) (auto simp: as_dict_def)

lemma update_append: "k \<notin> fst ` set al \<Longrightarrow> AList.update k v al = al @ [(k, v)]"
  by (induction al) auto

lemma updates_fresh:
  "distinct (map fst (al @ xs)) \<Longrightarrow> AList.updates (map fst xs) (map snd xs) al = al @ xs"
proof (induction xs arbitrary: al)
  case (Cons x xs)
  obtain k v where x: "x = (k, v)" by (cases x)
  have "AList.update k v al = al @ [(k, v)]"
    using Cons.prems x by (intro update_append) auto
  then show ?case
    using Cons.IH [of "al @ [(k, v)]"] Cons.prems x by simp
qed simp

lemma restore_export:
  assumes "gate_wf g"
  shows "restore_state (PDict (export_state g)) h =
     Inr (g\<lparr>failure_counts := sort_key fst (failure_counts g), gate_events := gate_events h\<rparr>)"
proof -
  let ?d = "export_state g"
  note wf = assms [unfolded gate_wf_def]
  have sets: "set_field ?d ''blocked_tools'' = Inr (blocked_tools g)"
    "set_field ?d ''blocked_capabilities'' = Inr (blocked_capabilities g)"
    "set_field ?d ''blocked_sources'' = Inr (blocked_sources g)"
    "set_field ?d ''successful_capabilities'' = Inr (successful_capabilities g)"
    "set_field ?d ''failed_capabilities'' = Inr (failed_capabilities g)"
    "set_field ?d ''recovered_capabilities'' = Inr (recovered_capabilities g)"
    "set_field ?d ''failed_sources'' = Inr (failed_sources g)"
    "set_field ?d ''recovered_sources'' = Inr (recovered_sources g)"
    using wf by (auto intro!: set_field_str simp: export_state_def)
  have lists: "list_field ?d ''blocked_requests'' =
      Inr (map (\<lambda>(a, b). PList [PStr a, PStr b]) (sorted_list_of_set (blocked_requests g)))"
    "list_field ?d ''failure_counts'' =
      Inr (map (\<lambda>((a, b, c), n). PList [PStr a, PStr b, PStr c, PInt n]) (sort_key fst (failure_counts g)))"
    "list_field ?d ''successful_evidence'' = Inr (map PDict (successful_evidence g))"
    "list_field ?d ''exhaustion_details'' = Inr (exhaustion_details g)"
    "list_field ?d ''failure_records'' =
      Inr (map (\<lambda>((a, b, c), d). PList [PStr a, PStr b, PStr c, PDict d]) (failure_records g))"
    by (rule list_field_PList, simp add: export_state_def)+
  have counters: "counter_field ?d ''capability_failure_counts'' = Inr (capability_failure_counts g)"
    "counter_field ?d ''capability_correction_counts'' = Inr (capability_correction_counts g)"
    "counter_field ?d ''source_failure_counts'' = Inr (source_failure_counts g)"
    "counter_field ?d ''source_correction_counts'' = Inr (source_correction_counts g)"
    by (rule counter_field_int, simp add: export_state_def)+
  have ints: "int_field ?d ''success_count'' = Inr (success_count g)"
    "int_field ?d ''correction_recovery_count'' = Inr (correction_recovery_count g)"
    "int_field ?d ''alternative_recovery_count'' = Inr (alternative_recovery_count g)"
    "int_field ?d ''tool_call_count'' = Inr (tool_call_count g)"
    by (rule int_field_PInt, simp add: export_state_def)+
  have tdet: "as_dict (py_or (dget ?d ''termination_detail'') (PDict [])) = Inr (gate_termination g)"
    by (rule dict_field_PDict) (simp add: export_state_def)
  have plan: "truthy (dget_default ?d ''initial_plan_exists'' (PBool False)) = initial_plan_exists g"
    by (simp add: export_state_def dget_default_def)
  have counts: "AList.updates (map fst (sort_key fst (failure_counts g))) (map snd (sort_key fst (failure_counts g))) []
      = sort_key fst (failure_counts g)"
    using updates_fresh [of "[]" "sort_key fst (failure_counts g)"] wf
    by (simp add: distinct_map)
  have records: "AList.updates (map fst (failure_records g)) (map snd (failure_records g)) [] = failure_records g"
    using updates_fresh [of "[]" "failure_records g"] wf by simp
  have "restore_body ?d h = Inr (g\<lparr>failure_counts := sort_key fst (failure_counts g), gate_events := gate_events h\<rparr>)"
    unfolding restore_body_def sets lists counters ints tdet plan rbind_simps pair_items count_items record_items
      dict_items counts records
    using wf by simp
  then show ?thesis by (simp add: restore_state_def)
qed

lemma gate_wf_record_call: "gate_wf g \<Longrightarrow> gate_wf (record_tool_call cfg g)"
  by (auto simp: gate_wf_def record_tool_call_def emit_gate_def Let_def)

lemma gate_wf_emit [simp]: "gate_wf (emit_gate n d g) = gate_wf g"
  by (simp add: gate_wf_def emit_gate_def)

lemma mark_recovered_keys [simp]: "map fst (mark_recovered P rs) = map fst rs"
  by (induction rs) (auto simp: mark_recovered_def)

lemma distinct_update_keys: "distinct (map fst d) \<Longrightarrow> distinct (map fst (AList.update k v d))"
  by (rule distinct_update)

lemma gate_wf_apply_recovery: "gate_wf g \<Longrightarrow> gate_wf (apply_recovery k g)"
  by (simp add: gate_wf_def apply_recovery_def Let_def)

lemma gate_wf_settle: "gate_wf g \<Longrightarrow> gate_wf (settle_capability cap g)"
  by (simp add: gate_wf_def settle_capability_def)

lemma gate_wf_record_recovery: "gate_wf g \<Longrightarrow> gate_wf (record_recovery cfg cap source g)"
proof -
  assume wf: "gate_wf g"
  have "gate_wf (g\<lparr>correction_recovery_count := correction_recovery_count g + 1,
      failure_records := mark_recovered P (failure_records g)\<rparr>)" for P
    using wf by (simp add: gate_wf_def)
  then show ?thesis
    using wf unfolding record_recovery_def Let_def
    by (auto intro!: gate_wf_settle gate_wf_apply_recovery split: option.splits)
qed

lemma gate_wf_record_success: "gate_wf g \<Longrightarrow> gate_wf (record_success cfg cap n c p g)"
  by (cases cap) (auto simp: record_success_def Let_def intro!: gate_wf_record_recovery,
      auto simp: gate_wf_def distinct_map_filter)

lemma gate_wf_count: "gate_wf g \<Longrightarrow> gate_wf (count_failure key cap source g)"
  by (simp add: gate_wf_def count_failure_def Let_def)

lemma gate_wf_warning: "gate_wf g \<Longrightarrow> gate_wf (record_warning cfg key cap source g)"
  by (simp add: record_warning_def Let_def) (simp add: gate_wf_def distinct_update_keys)

lemma gate_wf_exhaust: "gate_wf g \<Longrightarrow> gate_wf (exhaust cfg key cap source b g)"
  by (cases key) (simp add: exhaust_def Let_def, simp add: gate_wf_def distinct_update_keys)

lemma gate_wf_record_failure: "gate_wf g \<Longrightarrow> gate_wf (record_failure cfg c cap et g)"
  by (simp add: record_failure_def Let_def gate_wf_count gate_wf_warning gate_wf_exhaust)

lemma gate_wf_record_result: "gate_wf g \<Longrightarrow> record_result cfg c r g = Inr g' \<Longrightarrow> gate_wf g'"
  by (auto simp: record_result_def Let_def rbind_Inr_iff gate_wf_record_failure gate_wf_record_success
      split: if_splits option.splits)

lemma gate_wf_observe: "gate_wf g \<Longrightarrow> observe_plan_call cfg c r g = Inr g' \<Longrightarrow> gate_wf g'"
  by (auto simp: observe_plan_call_def gate_wf_def emit_gate_def split: if_splits py.splits)

interpretation gate_shape: step_invariant "gate_step cfg handler" gate_wf for cfg handler
proof
  fix g c
  assume wf: "gate_wf g"
  show "gate_wf (gate_step cfg handler g c)"
  proof (cases "call_admitted cfg g c")
    case True
    show ?thesis
    proof (cases rule: gate_step_admitted [OF True, of handler])
      case (3 r g2 g3)
      then show ?thesis
        using gate_wf_record_result [OF gate_wf_observe [OF gate_wf_record_call [OF wf] 3(2)] 3(3)] by simp
    qed (auto intro: gate_wf_observe gate_wf_record_call [OF wf])
  next
    case False
    then show ?thesis using wf by (simp add: gate_step_denied deny_unplanned_call_def)
  qed
qed

lemma new_gate_wf: "gate_wf new_gate"
  by (simp add: gate_wf_def new_gate_def)

lemma restored_counts:
  assumes "gate_wf g"
  shows "cget (sort_key fst (failure_counts g)) key = cget (failure_counts g) key"
proof -
  have "distinct (map fst (failure_counts g))" using assms by (simp add: gate_wf_def)
  moreover from this have "distinct (map fst (sort_key fst (failure_counts g)))"
    by (simp add: distinct_map)
  ultimately have "map_of (sort_key fst (failure_counts g)) = map_of (failure_counts g)"
    by (intro map_of_inject_set [THEN iffD2]) simp_all
  then show ?thesis by (simp add: cget_def)
qed

text \<open>The charge for a tool call is durable before the tool runs: the first snapshot handed out
  for an admitted call restores to a gate that has already counted it, whatever the tool then
  does, so a crash during the call cannot refund it.
\<close>

lemma tool_call_is_charged_before_it_runs:
  assumes "gate_wf g" "call_admitted cfg g c"
  shows "\<exists>snap rest g'. snd (snd (wrap_tool_call cfg handler c g)) = snap # rest
       \<and> restore_state (PDict snap) h = Inr g' \<and> tool_call_count g' = tool_call_count g + 1"
proof -
  let ?g1 = "record_tool_call cfg g"
  have "\<exists>rest. snd (snd (wrap_tool_call cfg handler c g)) = export_state ?g1 # rest"
    using assms(2) by (auto simp: wrap_tool_call_def call_admitted_def Let_def split: sum.splits)
  moreover have "\<exists>g'. restore_state (PDict (export_state ?g1)) h = Inr g' \<and> tool_call_count g' = tool_call_count g + 1"
    using restore_export [OF gate_wf_record_call [OF assms(1)], of cfg h] by simp
  ultimately show ?thesis by blast
qed

lemma tool_call_is_charged_before_it_runs_sample:
  "\<exists>snap rest g'. snd (snd (wrap_tool_call (sample_config 1 False) (\<lambda>_. Inl (RuntimeError ''crash'')) (sample_call ''a'') new_gate))
       = snap # rest \<and> restore_state (PDict snap) new_gate = Inr g' \<and> tool_call_count g' = 1"
proof -
  have "call_admitted (sample_config 1 False) new_gate (sample_call ''a'')"
    unfolding call_admitted_def by code_simp
  from tool_call_is_charged_before_it_runs [OF _ this, of "\<lambda>_. Inl (RuntimeError ''crash'')" new_gate]
  show ?thesis by (simp add: gate_wf_def new_gate_def)
qed

end
