(* ===== verification/Checkpoint_Resume.thy ===== *)
theory Checkpoint_Resume
  imports Capability_Boundary
begin

text \<open>
  The node's checkpoints (\<open>lensnode/lensnode/checkpoint.py\<close>) and the safety policy of a resume
  (\<open>agent_runtime/resume.py\<close>). The metadata table is an association list keyed by run; a JSON
  column holds the decoded value, \<open>None\<close> when its text does not parse. The LangGraph saver is
  a library the node calls: its answers (the newest snapshot of a thread, the snapshot of a
  parent identifier) are parameters. Times are microseconds, retention is in hours.
\<close>

section \<open>Data\<close>

record agent_call =
  ac_name :: string
  ac_args :: py
  ac_id :: string

datatype agent_message =
    ToolAnswer string
  | AgentMessage "agent_call list"

datatype written =
    WTool string
  | WList "written list"
  | WOther

text \<open>A pending write: channel and value; a tuple of fewer than three items is \<open>None\<close>.\<close>

record snapshot =
  snap_id :: string
  snap_parent :: "string option"
  snap_messages :: "agent_message list"
  snap_step :: py
  snap_writes :: "(string \<times> written) option list"

record meta_row =
  md_route :: "py option"
  md_turns :: int
  md_runtime :: "py option"
  md_gates :: "py option"
  md_checkpoint :: "string option"
  md_schema :: int
  md_updated :: int
  md_orphaned :: "int option"

record resume_state =
  rs_messages :: "agent_message list"
  rs_route :: py
  rs_turns :: int
  rs_gates :: pydict
  rs_step :: int
  rs_checkpoint :: string
  rs_capability :: py
  rs_evidence :: py
  rs_guardrail :: py
  rs_pending_writes :: "string set"
  rs_last_seq :: int
  rs_attempt :: int
  rs_open_calls :: "string list"
  rs_open_spans :: "string list"
  rs_parents :: "(string \<times> string) list"
  rs_categories :: "(string \<times> string) list"
  rs_names :: "(string \<times> string) list"
  rs_sources :: py

definition METADATA_SCHEMA_VERSION :: int where "METADATA_SCHEMA_VERSION = 2"
definition TRACE_SCHEMA_VERSION :: int where "TRACE_SCHEMA_VERSION = 1"

abbreviation unavailable :: "string \<Rightarrow> 'a res" where
  "unavailable message \<equiv> Inl (CheckpointResumeError message)"

section \<open>The version a checkpoint is bound to\<close>

definition config_checkpoint_id :: "snapshot \<Rightarrow> string res" where
  "config_checkpoint_id s =
     (if snap_id s = [] then unavailable ''Checkpoint has no version identifier.'' else Inr (snap_id s))"

text \<open>
  The \<open>while\<close> loop of \<open>_checkpoint_is_ancestor\<close>; \<open>parent_at\<close> is \<open>saver.get_tuple\<close> on a parent
  configuration. \<open>None\<close> would be a loop that does not end.
\<close>

partial_function (option) ancestor_search ::
  "(string \<Rightarrow> snapshot option) \<Rightarrow> string \<Rightarrow> string list \<Rightarrow> snapshot \<Rightarrow> bool res option" where
  "ancestor_search parent_at a visited s =
     (case config_checkpoint_id s of
        Inl e \<Rightarrow> Some (Inl e)
      | Inr c \<Rightarrow>
          if c = a then Some (Inr True)
          else if c \<in> set visited then Some (Inr False)
          else (case snap_parent s of
                  None \<Rightarrow> Some (Inr False)
                | Some p \<Rightarrow>
                    (case parent_at p of
                       None \<Rightarrow> Some (Inr False)
                     | Some s' \<Rightarrow> ancestor_search parent_at a (c # visited) s')))"

definition checkpoint_is_ancestor :: "(string \<Rightarrow> snapshot option) \<Rightarrow> string \<Rightarrow> snapshot \<Rightarrow> bool res option" where
  "checkpoint_is_ancestor parent_at a s = ancestor_search parent_at a [] s"

section \<open>Writing metadata\<close>

definition save_resume_metadata ::
  "int \<Rightarrow> string \<Rightarrow> py \<Rightarrow> int \<Rightarrow> (string \<times> meta_row) list \<Rightarrow> (string \<times> meta_row) list" where
  "save_resume_metadata now run route turns rows =
     (let route' = py_or route (PDict []); turns' = max turns 0
      in case map_of rows run of
           None \<Rightarrow> AList.update run \<lparr>md_route = Some route', md_turns = turns', md_runtime = Some (PDict []),
               md_gates = Some (PDict []), md_checkpoint = None, md_schema = 1, md_updated = now,
               md_orphaned = None\<rparr> rows
         | Some r \<Rightarrow> AList.update run (r\<lparr>md_route := Some route', md_turns := turns', md_updated := now,
               md_orphaned := None\<rparr>) rows)"

definition save_decision_gates ::
  "int \<Rightarrow> string \<Rightarrow> py \<Rightarrow> (string \<times> meta_row) list \<Rightarrow> bool \<times> (string \<times> meta_row) list" where
  "save_decision_gates now run gates rows =
     (case map_of rows run of
        None \<Rightarrow> (False, rows)
      | Some r \<Rightarrow> (True, AList.update run (r\<lparr>md_gates := Some (py_or gates (PDict [])), md_updated := now\<rparr>) rows))"

definition bind_checkpoint :: "int \<Rightarrow> string \<Rightarrow> meta_row \<Rightarrow> meta_row" where
  "bind_checkpoint now c r = r\<lparr>md_checkpoint := Some c, md_schema := METADATA_SCHEMA_VERSION, md_updated := now\<rparr>"

text \<open>\<open>put\<close> is the snapshot the saver stores for the initial checkpoint.\<close>

definition save_initial_checkpoint ::
  "int \<Rightarrow> string \<Rightarrow> snapshot \<Rightarrow> (string \<times> meta_row) list \<Rightarrow> (string \<times> meta_row) list res" where
  "save_initial_checkpoint now run put rows =
     rbind (config_checkpoint_id put)
       (\<lambda>c. case map_of rows run of
          None \<Rightarrow> unavailable ''Cannot bind checkpoint without checkpoint metadata.''
        | Some r \<Rightarrow> Inr (AList.update run (bind_checkpoint now c r) rows))"

definition merge_payload :: "(string \<times> py option) list \<Rightarrow> pydict \<Rightarrow> pydict" where
  "merge_payload updates payload =
     foldl (\<lambda>p (k, v). case v of None \<Rightarrow> p | Some x \<Rightarrow> AList.update k x p) payload updates"

text \<open>
  \<open>save_runtime_state\<close>; \<open>updates\<close> are the five keyword arguments in their order, \<open>None\<close> when
  not given.
\<close>

definition save_runtime_state ::
  "int \<Rightarrow> string \<Rightarrow> snapshot option \<Rightarrow> (string \<times> py option) list \<Rightarrow> (string \<times> meta_row) list
     \<Rightarrow> (string \<times> meta_row) list res" where
  "save_runtime_state now run head updates rows =
     (case head of
        None \<Rightarrow> unavailable ''Cannot persist runtime state without a checkpoint.''
      | Some s \<Rightarrow> rbind (config_checkpoint_id s)
          (\<lambda>c. case map_of rows run of
             None \<Rightarrow> unavailable ''Cannot persist runtime state without checkpoint metadata.''
           | Some r \<Rightarrow>
               let payload = (case md_runtime r of Some (PDict d) \<Rightarrow> d | _ \<Rightarrow> [])
               in Inr (AList.update run
                    (bind_checkpoint now c (r\<lparr>md_runtime := Some (PDict (merge_payload updates payload))\<rparr>)) rows)))"

section \<open>Loading\<close>

definition nonneg_PInt :: "int \<Rightarrow> py \<Rightarrow> int option" where
  "nonneg_PInt least v = (case v of PInt i \<Rightarrow> if i \<ge> least then Some i else None | _ \<Rightarrow> None)"

definition str_list_of :: "py \<Rightarrow> string list option" where
  "str_list_of v = (case v of PList xs \<Rightarrow> those (map str_of xs) | _ \<Rightarrow> None)"

definition str_dict_of :: "py \<Rightarrow> (string \<times> string) list option" where
  "str_dict_of v = (case v of PDict d \<Rightarrow> those (map (\<lambda>(k, x). map_option (Pair k) (str_of x)) d) | _ \<Rightarrow> None)"

record trace_state =
  ts_last_seq :: int
  ts_attempt :: int
  ts_open_calls :: "string list"
  ts_open_spans :: "string list"
  ts_parents :: "(string \<times> string) list"
  ts_categories :: "(string \<times> string) list"
  ts_names :: "(string \<times> string) list"

definition fresh_trace :: trace_state where
  "fresh_trace = \<lparr>ts_last_seq = 0, ts_attempt = 1, ts_open_calls = [], ts_open_spans = [], ts_parents = [],
     ts_categories = [], ts_names = []\<rparr>"

definition validated_trace_state :: "py \<Rightarrow> trace_state res" where
  "validated_trace_state v =
     (case v of
        PNone \<Rightarrow> Inr fresh_trace
      | PDict d \<Rightarrow>
          if dget d ''trace_schema_version'' \<noteq> PInt TRACE_SCHEMA_VERSION
             \<and> dget d ''trace_schema_version'' \<noteq> PBool True
             \<and> dget d ''trace_schema_version'' \<noteq> PFloat (Fin 1)
          then unavailable ''Cannot resume run because its trajectory schema is unsupported.''
          else (case (nonneg_PInt 0 (dget d ''last_trace_seq''), nonneg_PInt 1 (dget d ''current_attempt''),
                      str_list_of (dget d ''open_call_ids''), str_list_of (dget d ''open_span_ids''),
                      str_dict_of (dget d ''parent_call_map''),
                      str_dict_of (dget_default d ''call_categories'' (PDict [])),
                      str_dict_of (dget_default d ''call_names'' (PDict []))) of
                  (Some n, Some a, Some oc, Some os, Some pm, Some cc, Some cn) \<Rightarrow>
                    Inr \<lparr>ts_last_seq = n, ts_attempt = a, ts_open_calls = oc, ts_open_spans = os,
                         ts_parents = pm, ts_categories = cc, ts_names = cn\<rparr>
                | _ \<Rightarrow> unavailable ''Cannot resume run because its trajectory state is invalid.'')
      | _ \<Rightarrow> unavailable ''Cannot resume run because its trajectory state is invalid.'')"

fun collect_tool_ids :: "written \<Rightarrow> string list" where
  "collect_tool_ids (WTool i) = (if i = [] then [] else [i])"
| "collect_tool_ids (WList ws) = concat (map collect_tool_ids ws)"
| "collect_tool_ids WOther = []"

definition pending_write_tool_call_ids :: "(string \<times> written) option list \<Rightarrow> string set" where
  "pending_write_tool_call_ids ws =
     set (concat (map (\<lambda>w. case w of
        Some (channel, v) \<Rightarrow> if channel = ''messages'' then collect_tool_ids v else []
      | None \<Rightarrow> []) ws))"

definition build_resume_state :: "snapshot \<Rightarrow> meta_row \<Rightarrow> string \<Rightarrow> resume_state res" where
  "build_resume_state s r c =
     (case (md_route r, md_runtime r, md_gates r) of
        (Some route, Some runtime, Some gates) \<Rightarrow>
          (case runtime of
             PDict d \<Rightarrow>
               rbind (validated_trace_state (dget d ''trace_state''))
                 (\<lambda>t. case snap_step s of
                    PInt step \<Rightarrow>
                      (case gates of
                         PDict g \<Rightarrow>
                           Inr \<lparr>rs_messages = snap_messages s, rs_route = route, rs_turns = max (md_turns r) 0,
                                rs_gates = g, rs_step = step, rs_checkpoint = c,
                                rs_capability = py_or (dget d ''capability_state'') (PDict []),
                                rs_evidence = py_or (dget d ''runtime_evidence'') (PDict []),
                                rs_guardrail = py_or (dget d ''guardrail_state'') (PDict []),
                                rs_pending_writes = pending_write_tool_call_ids (snap_writes s),
                                rs_last_seq = ts_last_seq t, rs_attempt = ts_attempt t,
                                rs_open_calls = ts_open_calls t, rs_open_spans = ts_open_spans t,
                                rs_parents = ts_parents t, rs_categories = ts_categories t,
                                rs_names = ts_names t,
                                rs_sources = py_or (dget d ''consulted_sources'') (PDict [])\<rparr>
                       | _ \<Rightarrow> unavailable ''Cannot resume run because its decision gates are invalid.'')
                  | _ \<Rightarrow> unavailable ''Cannot resume run because its checkpoint step is invalid.'')
           | _ \<Rightarrow> unavailable ''Cannot resume run because its runtime state is invalid.'')
      | _ \<Rightarrow> unavailable ''Cannot resume run because its checkpoint metadata is invalid.'')"

definition load_resume_state ::
  "bool \<Rightarrow> (string \<Rightarrow> snapshot option) \<Rightarrow> snapshot option \<Rightarrow> string \<Rightarrow> (string \<times> meta_row) list
     \<Rightarrow> resume_state res option" where
  "load_resume_state enabled parent_at head run rows =
     (if \<not> enabled then Some (unavailable ''Cannot resume run because checkpointing is disabled.'')
      else
        let bound = (case (head, map_of rows run) of
               (Some s, Some r) \<Rightarrow>
                 (case md_checkpoint r of
                    None \<Rightarrow> Some (Inr False)
                  | Some c \<Rightarrow> if c = [] then Some (Inr False) else checkpoint_is_ancestor parent_at c s)
             | _ \<Rightarrow> Some (Inr False))
        in case bound of
             None \<Rightarrow> None
           | Some (Inl e) \<Rightarrow> Some (Inl e)
           | Some (Inr valid) \<Rightarrow>
               Some (case head of
                  None \<Rightarrow> unavailable ''Cannot resume run because its checkpoint is missing.''
                | Some s \<Rightarrow>
                    (case map_of rows run of
                       None \<Rightarrow> unavailable ''Cannot resume run because its checkpoint metadata is missing.''
                     | Some r \<Rightarrow>
                         if md_schema r \<noteq> METADATA_SCHEMA_VERSION
                         then unavailable ''Cannot resume run because its checkpoint schema is unsupported.''
                         else if \<not> valid
                         then unavailable ''Cannot resume run because its checkpoint version does not match its runtime metadata.''
                         else build_resume_state s r (case md_checkpoint r of None \<Rightarrow> ''None'' | Some c \<Rightarrow> c))))"

section \<open>Retention\<close>

definition checkpoint_ttl_hours :: "string \<Rightarrow> rat" where
  "checkpoint_ttl_hours raw = (case parse_float raw of Some (Fin r) \<Rightarrow> max r 1 | _ \<Rightarrow> 24)"

text \<open>Opening the store in a fresh process marks every retained thread.\<close>

definition mark_all_orphaned :: "int \<Rightarrow> (string \<times> meta_row) list \<Rightarrow> (string \<times> meta_row) list" where
  "mark_all_orphaned now rows =
     map (\<lambda>(k, r). (k, if md_orphaned r = None then r\<lparr>md_orphaned := Some now\<rparr> else r)) rows"

definition expired_orphan :: "rat \<Rightarrow> int \<Rightarrow> string set \<Rightarrow> string \<times> meta_row \<Rightarrow> bool" where
  "expired_orphan ttl now active kr =
     (fst kr \<notin> active
      \<and> (case md_orphaned (snd kr) of None \<Rightarrow> False
         | Some t \<Rightarrow> (of_int t :: rat) < of_int now - ttl * 3600000000))"

definition remark :: "int \<Rightarrow> string set \<Rightarrow> string \<times> meta_row \<Rightarrow> string \<times> meta_row" where
  "remark now active kr =
     (if fst kr \<in> active then (fst kr, (snd kr)\<lparr>md_orphaned := None\<rparr>)
      else if md_orphaned (snd kr) = None then (fst kr, (snd kr)\<lparr>md_orphaned := Some now\<rparr>)
      else kr)"

text \<open>The runs whose threads are deleted, and the table that is left.\<close>

definition cleanup_expired_checkpoints ::
  "rat \<Rightarrow> int \<Rightarrow> string set \<Rightarrow> (string \<times> meta_row) list \<Rightarrow> string list \<times> (string \<times> meta_row) list" where
  "cleanup_expired_checkpoints ttl now active rows =
     (map fst (filter (expired_orphan ttl now active) rows),
      map (remark now active) (filter (\<lambda>kr. \<not> expired_orphan ttl now active kr) rows))"

definition cleanup_run_checkpoint :: "bool \<Rightarrow> string \<Rightarrow> (string \<times> meta_row) list \<Rightarrow> (string \<times> meta_row) list" where
  "cleanup_run_checkpoint enabled run rows = (if enabled then AList.delete run rows else rows)"

section \<open>Pending tool calls\<close>

fun pending_from :: "string set \<Rightarrow> agent_message list \<Rightarrow> agent_call list" where
  "pending_from completed [] = []"
| "pending_from completed (ToolAnswer i # ms) =
     pending_from (if i = [] then completed else insert i completed) ms"
| "pending_from completed (AgentMessage calls # ms) =
     (let pending = filter (\<lambda>c. ac_id c \<notin> completed) calls
      in if pending \<noteq> [] then pending else pending_from completed ms)"

definition pending_checkpoint_tool_calls :: "agent_message list \<Rightarrow> string set \<Rightarrow> agent_call list" where
  "pending_checkpoint_tool_calls messages written = pending_from written (rev messages)"

definition side_effecting_tools :: "string list" where
  "side_effecting_tools = [''call_skill_api'', ''run_skill_script'', ''run_skill_transform'', ''save_deliverable'']"

definition tool_by_name :: "tool list \<Rightarrow> string \<Rightarrow> tool option" where
  "tool_by_name tools name = map_of (rev (map (\<lambda>t. (tool_label t, t)) tools)) name"

definition depends_on_capture :: "agent_call \<Rightarrow> bool" where
  "depends_on_capture c \<longleftrightarrow> ac_name c = ''call_skill_api'' \<and> is_dict (ac_args c) \<and> truthy (dget (dict_of (ac_args c)) ''capture'')"

definition safe_to_replay :: "tool \<Rightarrow> string \<Rightarrow> bool" where
  "safe_to_replay t name =
     (let m = dict_of (tool_metadata t)
      in dget m ''idempotent'' = PBool True
         \<or> dget m ''read_only'' = PBool True \<or> dget m ''operation'' = PStr ''read''
         \<or> \<not> (dget m ''operation'' = PStr ''write'' \<or> dget m ''read_only'' = PBool False
              \<or> dget m ''side_effects'' = PBool True \<or> starts_with ''mcp__'' name
              \<or> name \<in> set side_effecting_tools))"

fun check_pending :: "tool list \<Rightarrow> agent_call list \<Rightarrow> unit res" where
  "check_pending tools [] = Inr ()"
| "check_pending tools (c # cs) =
     (case tool_by_name tools (ac_name c) of
        None \<Rightarrow> unavailable ''Cannot resume a checkpoint with an unclassified pending tool operation.''
      | Some t \<Rightarrow>
          if safe_to_replay t (ac_name c) then check_pending tools cs
          else unavailable ''Cannot resume a checkpoint with a pending non-idempotent write operation.'')"

definition message_calls :: "agent_message \<Rightarrow> agent_call list" where
  "message_calls m = (case m of AgentMessage cs \<Rightarrow> cs | ToolAnswer _ \<Rightarrow> [])"

definition reject_unsafe_resume_tool_replay :: "agent_message list \<Rightarrow> tool list \<Rightarrow> string set \<Rightarrow> unit res" where
  "reject_unsafe_resume_tool_replay messages tools written =
     (if list_ex depends_on_capture (concat (map message_calls messages))
      then unavailable ''Cannot resume a checkpoint that depends on ephemeral Skill API session values.''
      else check_pending tools (pending_checkpoint_tool_calls messages written))"

section \<open>Ancestry\<close>

text \<open>The identifiers on the parent chain of a snapshot.\<close>

inductive on_chain :: "(string \<Rightarrow> snapshot option) \<Rightarrow> snapshot \<Rightarrow> string \<Rightarrow> bool" for look where
  here: "on_chain look s (snap_id s)"
| above: "snap_parent s = Some p \<Longrightarrow> look p = Some s' \<Longrightarrow> on_chain look s' c \<Longrightarrow> on_chain look s c"

text \<open>
  What the library documents of \<open>get_tuple\<close>: asked for an identifier it answers with that
  checkpoint, and a thread holds finitely many.
\<close>

definition saver_answers :: "(string \<Rightarrow> snapshot option) \<Rightarrow> bool" where
  "saver_answers look \<longleftrightarrow> finite (dom look) \<and> (\<forall>p s. look p = Some s \<longrightarrow> snap_id s = p \<and> p \<noteq> [])"

lemma saver_id:
  assumes "saver_answers look" "look p = Some s"
  shows "snap_id s = p" "snap_id s \<noteq> []" "p \<in> dom look"
  using assms unfolding saver_answers_def by auto

lemma search_unfold:
  assumes "snap_id s \<noteq> []"
  shows "ancestor_search look a visited s =
    (if snap_id s = a then Some (Inr True)
     else if snap_id s \<in> set visited then Some (Inr False)
     else case snap_parent s of
            None \<Rightarrow> Some (Inr False)
          | Some p \<Rightarrow> (case look p of None \<Rightarrow> Some (Inr False)
                       | Some s' \<Rightarrow> ancestor_search look a (snap_id s # visited) s'))"
  using assms by (subst ancestor_search.simps) (simp add: config_checkpoint_id_def)

text \<open>Each round of the search visits a new identifier of the thread.\<close>

definition unvisited :: "(string \<Rightarrow> snapshot option) \<Rightarrow> string list \<Rightarrow> snapshot \<Rightarrow> nat" where
  "unvisited look visited s = card (insert (snap_id s) (dom look) - set visited)"

lemma unvisited_decreases:
  assumes "saver_answers look" "look p = Some s'" "snap_id s \<notin> set visited"
  shows "unvisited look (snap_id s # visited) s' < unvisited look visited s"
proof -
  have "insert (snap_id s') (dom look) - set (snap_id s # visited) \<subset> insert (snap_id s) (dom look) - set visited"
    using assms(3) saver_id [OF assms(1,2)] by auto
  then show ?thesis
    using assms(1) unfolding unvisited_def by (intro psubset_card_mono) (simp_all add: saver_answers_def)
qed

lemma ancestor_search_returns:
  assumes "saver_answers look" "snap_id s \<noteq> []"
  shows "\<exists>b. ancestor_search look a visited s = Some (Inr b)"
  using assms(2)
proof (induction "unvisited look visited s" arbitrary: visited s rule: less_induct)
  case less
  show ?case
  proof (cases "snap_id s = a \<or> snap_id s \<in> set visited")
    case True
    then show ?thesis unfolding search_unfold [OF less.prems] by auto
  next
    case False
    have "\<exists>b. ancestor_search look a (snap_id s # visited) s' = Some (Inr b)" if "look p = Some s'" for p s'
      using less.hyps [OF unvisited_decreases [OF assms(1) that]] False saver_id(2) [OF assms(1) that] by simp
    then show ?thesis
      using False unfolding search_unfold [OF less.prems] by (auto split: option.splits)
  qed
qed

lemma ancestor_search_sound:
  assumes "saver_answers look" "snap_id s \<noteq> []" "ancestor_search look a visited s = Some (Inr True)"
  shows "on_chain look s a"
  using assms(2,3)
proof (induction "unvisited look visited s" arbitrary: visited s rule: less_induct)
  case less
  show ?case
  proof (cases "snap_id s = a")
    case True
    then show ?thesis using on_chain.here by blast
  next
    case False
    then have nv: "snap_id s \<notin> set visited"
      using less.prems(2) unfolding search_unfold [OF less.prems(1)] by auto
    from False nv less.prems(2) obtain p s' where ps: "snap_parent s = Some p" "look p = Some s'"
      "ancestor_search look a (snap_id s # visited) s' = Some (Inr True)"
      unfolding search_unfold [OF less.prems(1)] by (auto split: option.splits)
    have "on_chain look s' a"
      using less.hyps [OF unvisited_decreases [OF assms(1) ps(2) nv] saver_id(2) [OF assms(1) ps(2)] ps(3)] .
    then show ?thesis using on_chain.above ps(1,2) by blast
  qed
qed

text \<open>
  When the search gives up, no identifier it has seen is the one searched for, and the seen
  ones are closed under parents.
\<close>

definition parents_in :: "(string \<Rightarrow> snapshot option) \<Rightarrow> string set \<Rightarrow> string set \<Rightarrow> bool" where
  "parents_in look V W \<longleftrightarrow>
     (\<forall>v \<in> V. \<forall>sv p. look v = Some sv \<longrightarrow> snap_parent sv = Some p \<longrightarrow> p \<in> dom look \<longrightarrow> p \<in> W)"

lemma parents_inD:
  "parents_in look V W \<Longrightarrow> v \<in> V \<Longrightarrow> look v = Some sv \<Longrightarrow> snap_parent sv = Some p \<Longrightarrow> p \<in> dom look \<Longrightarrow> p \<in> W"
  unfolding parents_in_def by blast

lemma chain_stays:
  assumes "saver_answers look" "parents_in look V V"
  shows "on_chain look s c \<Longrightarrow> look (snap_id s) = Some s \<Longrightarrow> snap_id s \<in> V \<Longrightarrow> c \<in> V"
proof (induction rule: on_chain.induct)
  case (above s p s' c)
  have s': "snap_id s' = p" "p \<in> dom look"
    using saver_id [OF assms(1) above.hyps(2)] by blast+
  have "p \<in> V"
    using parents_inD [OF assms(2) above.prems(2,1) above.hyps(1) s'(2)] .
  then show ?case using above.IH above.hyps(2) unfolding s'(1) by blast
qed

lemma ancestor_search_complete:
  assumes "saver_answers look" "look (snap_id s) = Some s" "a \<notin> set visited"
    and "parents_in look (set visited) (insert (snap_id s) (set visited))"
    and "ancestor_search look a visited s = Some (Inr False)"
  shows "\<not> on_chain look s a"
  using assms(2-5)
proof (induction "unvisited look visited s" arbitrary: visited s rule: less_induct)
  case less
  have id: "snap_id s \<noteq> []" using saver_id(2) [OF assms(1) less.prems(1)] .
  have na: "snap_id s \<noteq> a"
    using less.prems(4) unfolding search_unfold [OF id] by auto
  show ?case
  proof (cases "snap_id s \<in> set visited")
    case True
    then have "insert (snap_id s) (set visited) = set visited" by (rule insert_absorb)
    then have "parents_in look (set visited) (set visited)" using less.prems(3) by simp
    from chain_stays [OF assms(1) this _ less.prems(1) True] show ?thesis
      using less.prems(2) by blast
  next
    case False
    have "\<not> on_chain look s' a" if ps: "snap_parent s = Some p" "look p = Some s'" for p s'
    proof -
      have rec: "ancestor_search look a (snap_id s # visited) s' = Some (Inr False)"
        using less.prems(4) na False ps unfolding search_unfold [OF id] by simp
      have s': "snap_id s' = p" "look (snap_id s') = Some s'"
        using saver_id(1) [OF assms(1) ps(2)] ps(2) by simp_all
      have "q \<in> insert (snap_id s') (set (snap_id s # visited))"
        if "v \<in> set (snap_id s # visited)" "look v = Some sv" "snap_parent sv = Some q" "q \<in> dom look" for v sv q
      proof (cases "v = snap_id s")
        case True
        then show ?thesis using that(2,3) less.prems(1) ps(1) s'(1) by simp
      next
        case False
        then have "v \<in> set visited" using that(1) by simp
        from parents_inD [OF less.prems(3) this that(2-4)] show ?thesis by auto
      qed
      then have closed: "parents_in look (set (snap_id s # visited)) (insert (snap_id s') (set (snap_id s # visited)))"
        unfolding parents_in_def by blast
      have "a \<notin> set (snap_id s # visited)" using na less.prems(2) by simp
      from less.hyps [OF unvisited_decreases [OF assms(1) ps(2) False] s'(2) this closed rec] show ?thesis .
    qed
    then show ?thesis using na by (blast elim: on_chain.cases)
  qed
qed

lemma checkpoint_is_ancestor_iff:
  assumes "saver_answers look" "look (snap_id s) = Some s"
  shows "checkpoint_is_ancestor look a s = Some (Inr (on_chain look s a))"
proof -
  have id: "snap_id s \<noteq> []" using saver_id(2) [OF assms] .
  then obtain b where b: "ancestor_search look a [] s = Some (Inr b)"
    using ancestor_search_returns [OF assms(1)] by blast
  have "b = on_chain look s a"
  proof (cases b)
    case True
    then show ?thesis using ancestor_search_sound [OF assms(1) id] b by simp
  next
    case False
    then show ?thesis
      using ancestor_search_complete [OF assms, of a "[]"] b by (simp add: parents_in_def)
  qed
  then show ?thesis using b by (simp add: checkpoint_is_ancestor_def)
qed

text \<open>The version check of a resume always comes to an answer and the right one, also on a cyclic
  parent chain: for a thread whose saver answers as documented, \<open>_checkpoint_is_ancestor\<close>
  returns, and it says yes exactly when the bound checkpoint is the head or one of its
  ancestors.
\<close>

lemma ancestry_is_decided:
  assumes "saver_answers look" "look (snap_id s) = Some s"
  shows "checkpoint_is_ancestor look a s = Some (Inr (on_chain look s a))"
  by (rule checkpoint_is_ancestor_iff [OF assms])

definition sample_snapshot :: "string \<Rightarrow> string option \<Rightarrow> snapshot" where
  "sample_snapshot i p = \<lparr>snap_id = i, snap_parent = p, snap_messages = [], snap_step = PInt 3, snap_writes = []\<rparr>"

definition sample_saver :: "string \<Rightarrow> snapshot option" where
  "sample_saver = [''b'' \<mapsto> sample_snapshot ''b'' (Some ''a''), ''a'' \<mapsto> sample_snapshot ''a'' (Some ''b'')]"

lemma sample_saver_answers: "saver_answers sample_saver"
  by (auto simp: saver_answers_def sample_saver_def sample_snapshot_def split: if_splits)

lemma ancestry_is_decided_sample:
  "checkpoint_is_ancestor sample_saver ''x'' (sample_snapshot ''b'' (Some ''a'')) =
     Some (Inr (on_chain sample_saver (sample_snapshot ''b'' (Some ''a'')) ''x''))"
  by (rule ancestry_is_decided [OF sample_saver_answers]) (simp add: sample_saver_def sample_snapshot_def)

section \<open>What a resume gets back\<close>

lemma dget_merge_other:
  "k \<notin> fst ` set updates \<Longrightarrow> dget (merge_payload updates d) k = dget d k"
  unfolding merge_payload_def
  by (induction updates arbitrary: d) (auto simp: dget_update split: option.splits)

text \<open>A keyword that is given replaces the stored part, one that is not leaves it.\<close>

lemma dget_merge:
  assumes "distinct (map fst updates)"
  shows "dget (merge_payload updates d) k =
    (case map_of updates k of Some (Some v) \<Rightarrow> v | _ \<Rightarrow> dget d k)"
  using assms
proof (induction updates arbitrary: d)
  case Nil
  then show ?case by (simp add: merge_payload_def)
next
  case (Cons u us)
  obtain k0 v where u: "u = (k0, v)" by (cases u)
  have step: "merge_payload (u # us) d =
      merge_payload us (case v of None \<Rightarrow> d | Some x \<Rightarrow> AList.update k0 x d)"
    by (simp add: merge_payload_def u)
  show ?case
  proof (cases "k = k0")
    case True
    then have "k \<notin> fst ` set us" using Cons.prems u by auto
    then show ?thesis
      using True unfolding step by (simp add: dget_merge_other u dget_update split: option.splits)
  next
    case False
    have "dget (case v of None \<Rightarrow> d | Some x \<Rightarrow> AList.update k0 x d) k = dget d k"
      using False by (simp add: dget_update split: option.splits)
    then show ?thesis using Cons False unfolding step by (simp add: u dget_update split: option.split)
  qed
qed

lemma save_runtime_state_row:
  assumes "save_runtime_state now run (Some s) updates rows = Inr rows'" "map_of rows run = Some r"
  shows "snap_id s \<noteq> []"
    and "map_of rows' run = Some (bind_checkpoint now (snap_id s) (r\<lparr>md_runtime :=
           Some (PDict (merge_payload updates (case md_runtime r of Some (PDict d) \<Rightarrow> d | _ \<Rightarrow> [])))\<rparr>))"
  using assms by (auto simp: save_runtime_state_def config_checkpoint_id_def rbind_Inr_iff update_conv'
      split: if_splits)

lemma load_bound_row:
  assumes "saver_answers look" "look (snap_id s) = Some s" "on_chain look s c" "c \<noteq> []"
    and "map_of rows run = Some r" "md_checkpoint r = Some c" "md_schema r = METADATA_SCHEMA_VERSION"
  shows "load_resume_state True look (Some s) run rows = Some (build_resume_state s r c)"
  using assms by (simp add: load_resume_state_def checkpoint_is_ancestor_iff)

definition saved_part :: "(string \<times> py option) list \<Rightarrow> meta_row \<Rightarrow> string \<Rightarrow> py" where
  "saved_part updates r k =
     (case map_of updates k of
        Some (Some v) \<Rightarrow> v
      | _ \<Rightarrow> dget (case md_runtime r of Some (PDict d) \<Rightarrow> d | _ \<Rightarrow> []) k)"

lemma load_after_save:
  assumes saved: "save_runtime_state now run (Some s) updates rows = Inr rows'"
    and row: "map_of rows run = Some r" "md_route r = Some route" "md_gates r = Some (PDict g)"
    and distinct: "distinct (map fst updates)"
    and saver: "saver_answers look" "look (snap_id h) = Some h" "on_chain look h (snap_id s)"
    and step: "snap_step h = PInt n"
    and trace: "validated_trace_state (saved_part updates r ''trace_state'') = Inr t"
  shows "\<exists>st. load_resume_state True look (Some h) run rows' = Some (Inr st)
     \<and> rs_checkpoint st = snap_id s \<and> rs_messages st = snap_messages h \<and> rs_step st = n
     \<and> rs_route st = route \<and> rs_gates st = g \<and> rs_turns st = max (md_turns r) 0
     \<and> rs_capability st = py_or (saved_part updates r ''capability_state'') (PDict [])
     \<and> rs_evidence st = py_or (saved_part updates r ''runtime_evidence'') (PDict [])
     \<and> rs_guardrail st = py_or (saved_part updates r ''guardrail_state'') (PDict [])
     \<and> rs_sources st = py_or (saved_part updates r ''consulted_sources'') (PDict [])
     \<and> rs_last_seq st = ts_last_seq t \<and> rs_attempt st = ts_attempt t
     \<and> rs_open_calls st = ts_open_calls t"
proof -
  let ?d = "merge_payload updates (case md_runtime r of Some (PDict d) \<Rightarrow> d | _ \<Rightarrow> [])"
  let ?r = "bind_checkpoint now (snap_id s) (r\<lparr>md_runtime := Some (PDict ?d)\<rparr>)"
  have parts: "dget ?d k = saved_part updates r k" for k
    unfolding saved_part_def by (rule dget_merge [OF distinct])
  have "load_resume_state True look (Some h) run rows' = Some (build_resume_state h ?r (snap_id s))"
    by (rule load_bound_row [OF saver save_runtime_state_row [OF saved row(1)]])
      (simp_all add: bind_checkpoint_def)
  then show ?thesis
    using row(2,3) trace step by (simp add: build_resume_state_def bind_checkpoint_def parts)
qed

text \<open>What the gates checkpointed is what a resumed run starts from: when \<open>save_runtime_state\<close> has
  succeeded at a snapshot, and the thread's head is that snapshot or a descendant of it (the
  agent moved on before the node died), \<open>load_resume_state\<close> succeeds for a well-formed row and
  hands back every part given to the save, every earlier part that the save did not name
  (\<open>saved_part\<close>), the messages of the head, and the snapshot the state is bound to.
\<close>

lemma runtime_state_survives:
  assumes saved: "save_runtime_state now run (Some s) updates rows = Inr rows'"
    and row: "map_of rows run = Some r" "md_route r = Some route" "md_gates r = Some (PDict g)"
    and distinct: "distinct (map fst updates)"
    and saver: "saver_answers look" "look (snap_id h) = Some h" "on_chain look h (snap_id s)"
    and step: "snap_step h = PInt n"
    and trace: "validated_trace_state (saved_part updates r ''trace_state'') = Inr t"
  shows "\<exists>st. load_resume_state True look (Some h) run rows' = Some (Inr st)
     \<and> rs_checkpoint st = snap_id s \<and> rs_messages st = snap_messages h \<and> rs_step st = n
     \<and> rs_route st = route \<and> rs_gates st = g \<and> rs_turns st = max (md_turns r) 0
     \<and> rs_capability st = py_or (saved_part updates r ''capability_state'') (PDict [])
     \<and> rs_evidence st = py_or (saved_part updates r ''runtime_evidence'') (PDict [])
     \<and> rs_guardrail st = py_or (saved_part updates r ''guardrail_state'') (PDict [])
     \<and> rs_sources st = py_or (saved_part updates r ''consulted_sources'') (PDict [])
     \<and> rs_last_seq st = ts_last_seq t \<and> rs_attempt st = ts_attempt t
     \<and> rs_open_calls st = ts_open_calls t"
  by (rule load_after_save [OF assms])

definition sample_meta :: meta_row where
  "sample_meta = \<lparr>md_route = Some (PStr ''skill''), md_turns = 2, md_runtime = Some (PDict [(''runtime_evidence'', PDict [(''a'', PInt 1)])]),
     md_gates = Some (PDict []), md_checkpoint = None, md_schema = 1, md_updated = 0, md_orphaned = None\<rparr>"

definition sample_updates :: "(string \<times> py option) list" where
  "sample_updates = [(''capability_state'', Some (PDict [(''plan_created'', PBool True)])), (''runtime_evidence'', None)]"

definition sample_saved :: "(string \<times> meta_row) list" where
  "sample_saved = (case save_runtime_state 7 ''r'' (Some (sample_snapshot ''a'' (Some ''b''))) sample_updates [(''r'', sample_meta)] of
     Inl _ \<Rightarrow> [] | Inr rows \<Rightarrow> rows)"

lemma sample_saved_ok:
  "save_runtime_state 7 ''r'' (Some (sample_snapshot ''a'' (Some ''b''))) sample_updates [(''r'', sample_meta)] = Inr sample_saved"
  by (simp add: sample_saved_def save_runtime_state_def sample_snapshot_def config_checkpoint_id_def)

lemma sample_chain: "on_chain sample_saver (sample_snapshot ''b'' (Some ''a'')) ''a''"
proof -
  have "on_chain sample_saver (sample_snapshot ''a'' (Some ''b'')) ''a''"
    using on_chain.here [of sample_saver "sample_snapshot ''a'' (Some ''b'')"] by (simp add: sample_snapshot_def)
  then show ?thesis
    by (rule on_chain.above [rotated 2]) (simp_all add: sample_saver_def sample_snapshot_def)
qed

lemma runtime_state_survives_sample:
  "\<exists>st. load_resume_state True sample_saver (Some (sample_snapshot ''b'' (Some ''a''))) ''r'' sample_saved = Some (Inr st)
     \<and> rs_checkpoint st = ''a'' \<and> rs_capability st = PDict [(''plan_created'', PBool True)]
     \<and> rs_evidence st = PDict [(''a'', PInt 1)]"
proof -
  have head: "sample_saver (snap_id (sample_snapshot ''b'' (Some ''a''))) = Some (sample_snapshot ''b'' (Some ''a''))"
    and chain: "on_chain sample_saver (sample_snapshot ''b'' (Some ''a'')) (snap_id (sample_snapshot ''a'' (Some ''b'')))"
    using sample_chain by (simp_all add: sample_saver_def sample_snapshot_def)
  show ?thesis
    using runtime_state_survives [OF sample_saved_ok _ _ _ _ sample_saver_answers head chain, of sample_meta
        "PStr ''skill''" "[]" 3 fresh_trace]
    by (fastforce simp: sample_meta_def sample_updates_def sample_snapshot_def dget_def validated_trace_state_def
        py_or_def saved_part_def)
qed

section \<open>What a resume may repeat\<close>

lemma pending_from_answers:
  assumes "\<And>m. m \<in> set post \<Longrightarrow> message_calls m = []"
  shows "pending_from completed (post @ ms) =
    pending_from (completed \<union> {i. i \<noteq> [] \<and> ToolAnswer i \<in> set post}) ms"
  using assms
proof (induction post arbitrary: completed)
  case (Cons m post)
  have post: "\<And>x. x \<in> set post \<Longrightarrow> message_calls x = []" using Cons.prems by simp
  show ?case
  proof (cases m)
    case (ToolAnswer i)
    have "(if i = [] then completed else insert i completed) \<union> {i. i \<noteq> [] \<and> ToolAnswer i \<in> set post}
        = completed \<union> {i. i \<noteq> [] \<and> ToolAnswer i \<in> set (m # post)}"
      using ToolAnswer by auto
    then show ?thesis using Cons.IH [OF post] ToolAnswer by simp
  next
    case (AgentMessage calls)
    then have "calls = []" using Cons.prems [of m] by (simp add: message_calls_def)
    then show ?thesis using Cons.IH [OF post] AgentMessage by simp
  qed
qed simp

definition unanswered :: "agent_message list \<Rightarrow> string set \<Rightarrow> agent_call \<Rightarrow> bool" where
  "unanswered post written c \<longleftrightarrow>
     ac_id c \<notin> written \<and> (ac_id c = [] \<or> ToolAnswer (ac_id c) \<notin> set post)"

lemma pending_last_turn:
  assumes "\<And>m. m \<in> set post \<Longrightarrow> message_calls m = []" "list_ex (unanswered post written) calls"
  shows "pending_checkpoint_tool_calls (pre @ AgentMessage calls # post) written =
    filter (unanswered post written) calls"
proof -
  have open_calls: "filter (\<lambda>c. ac_id c \<notin> written \<union> {i. i \<noteq> [] \<and> ToolAnswer i \<in> set post}) calls =
      filter (unanswered post written) calls"
    by (rule filter_cong) (auto simp: unanswered_def)
  have "filter (unanswered post written) calls \<noteq> []"
    using assms(2) by (auto simp: filter_empty_conv list_ex_iff)
  then have hit: "pending_from (written \<union> {i. i \<noteq> [] \<and> ToolAnswer i \<in> set post}) (AgentMessage calls # rev pre) =
      filter (unanswered post written) calls"
    unfolding pending_from.simps open_calls Let_def by simp
  have "pending_checkpoint_tool_calls (pre @ AgentMessage calls # post) written =
      pending_from written (rev post @ AgentMessage calls # rev pre)"
    by (simp add: pending_checkpoint_tool_calls_def)
  also have "\<dots> = pending_from (written \<union> {i. i \<noteq> [] \<and> ToolAnswer i \<in> set (rev post)}) (AgentMessage calls # rev pre)"
    by (rule pending_from_answers) (use assms(1) in simp)
  finally show ?thesis using hit by simp
qed

lemma check_pending_ok:
  "check_pending tools cs = Inr () \<longleftrightarrow>
     (\<forall>c \<in> set cs. \<exists>t. tool_by_name tools (ac_name c) = Some t \<and> safe_to_replay t (ac_name c))"
  by (induction cs) (auto split: option.splits)


definition sample_agent_call :: "string \<Rightarrow> string \<Rightarrow> agent_call" where
  "sample_agent_call name i = \<lparr>ac_name = name, ac_args = PDict [], ac_id = i\<rparr>"


section \<open>Retention\<close>

lemma cleanup_deletes:
  "run \<in> set (fst (cleanup_expired_checkpoints ttl now active rows)) \<longleftrightarrow>
     run \<notin> active
     \<and> (\<exists>r t. (run, r) \<in> set rows \<and> md_orphaned r = Some t \<and> (of_int t :: rat) < of_int now - ttl * 3600000000)"
  by (force simp: cleanup_expired_checkpoints_def expired_orphan_def split: option.splits)

end
