(* ===== verification/Run_Outcome.thy ===== *)
theory Run_Outcome
  imports Answer_Review Capability_Boundary
begin

text \<open>
  How a node run ends (\<open>lensnode/lensnode/agent_runtime/outcomes.py\<close>): the execution outcome
  from what the gate of \<open>Capability_Boundary\<close> observed, and its combination with source
  coverage and the answer review (\<open>evidence_gate._review_status\<close>). A stop reason of \<open>None\<close> is
  the empty text; \<open>repr\<close> is \<open>str\<close> on floats and containers. The failure records, the
  evidence and the required sources have the shapes the gate and the routing write (texts as
  sources and capabilities); required sources of another shape are rejected.
\<close>

section \<open>Details\<close>

type_synonym outcome = "string \<times> pydict"

definition capability_termination_detail :: "string \<Rightarrow> string \<Rightarrow> pydict" where
  "capability_termination_detail cap t =
     [(''reason'', PStr ''capability_unavailable''), (''capability'', PStr cap), (''error_type'', PStr ''capability''),
      (''tool'', PStr t),
      (''recovery'', PStr ''Use an assistant with the required operation or ask an administrator to bind that capability.'')]"

definition evidence_termination_detail :: "string \<Rightarrow> string \<Rightarrow> pydict" where
  "evidence_termination_detail requirement cap =
     [(''reason'', PStr ''evidence_unavailable''),
      (''capability'', PStr (if cap \<noteq> [] then cap
                            else if requirement = ''artifact'' then ''artifact_delivery'' else ''tool'')),
      (''error_type'', PStr ''verification''), (''tool'', PStr []),
      (''recovery'', PStr ''Review the execution details and retry; no verified result was returned.'')]"

definition with_trigger :: "bool \<Rightarrow> string \<Rightarrow> pydict \<Rightarrow> pydict" where
  "with_trigger truncated stop d =
     (if truncated \<and> stop \<noteq> [] then AList.update ''trigger'' (PStr stop) d else d)"

definition limit_trigger :: "bool \<Rightarrow> string \<Rightarrow> pydict \<Rightarrow> pydict" where
  "limit_trigger truncated stop ev =
     (if truncated \<and> stop \<noteq> [] then [(''trigger'', PStr stop)]
      else if truthy (dget ev ''convergence_exhausted'') then [(''trigger'', PStr ''evidence_convergence_limit'')]
      else [])"

definition limit_or_completed :: "bool \<Rightarrow> string \<Rightarrow> outcome" where
  "limit_or_completed truncated stop =
     (if truncated then (''partial'', [(''reason'', PStr (if stop \<noteq> [] then stop else ''execution_limit''))])
      else (''completed'', []))"

section \<open>Source coverage\<close>

text \<open>The latest answer to every request, as the dictionary built from the evidence in order.\<close>

definition latest_requests :: "pydict list \<Rightarrow> ((py \<times> py) \<times> pydict) list" where
  "latest_requests evidence =
     foldl (\<lambda>m item. AList.update (dget item ''source'', dget item ''request_sha256'') item m) [] evidence"

definition covers :: "bool \<Rightarrow> string \<Rightarrow> pydict \<Rightarrow> bool" where
  "covers b s item \<longleftrightarrow> dget item ''source'' = PStr s \<and> dget item ''coverage_complete'' = PBool b"

definition missing_sources :: "string set \<Rightarrow> pydict list \<Rightarrow> string list" where
  "missing_sources required evidence =
     (let latest = map snd (latest_requests evidence);
          completed = Set.filter (\<lambda>s. list_ex (covers True s) latest) required;
          incomplete = Set.filter (\<lambda>s. list_ex (covers False s) latest) required
      in sorted_list_of_set ((required - completed) \<union> incomplete))"

section \<open>What the gate observed\<close>

definition successful_from :: "(py \<Rightarrow> string) \<Rightarrow> gate \<Rightarrow> pydict \<Rightarrow> string set" where
  "successful_from repr g ev =
     (let observed = set (map (\<lambda>e. py_str repr (py_or (dget e ''capability'') (PStr [])))
            (filter (\<lambda>e. truthy (dget e ''tool'') \<and> truthy (dget e ''request_sha256'')) (successful_evidence g)))
      in if truthy (dget ev ''_deliverables'') then insert ''artifact_delivery'' observed else observed)"

definition capability_in :: "string set \<Rightarrow> pydict \<Rightarrow> bool" where
  "capability_in required d = (case dget d ''capability'' of PStr c \<Rightarrow> c \<in> required | _ \<Rightarrow> False)"

definition unresolved_records :: "gate \<Rightarrow> pydict list" where
  "unresolved_records g = filter (detail_is ''scope'' ''unresolved'') (map snd (failure_records g))"

fun first_exhaustion :: "string set \<Rightarrow> py set \<Rightarrow> py list \<Rightarrow> pydict res" where
  "first_exhaustion required sources [] = Inr []"
| "first_exhaustion required sources (PDict d # ds) =
     (if capability_in required d \<and> (sources = {} \<or> dget d ''source'' \<in> sources) then Inr d
      else first_exhaustion required sources ds)"
| "first_exhaustion required sources (_ # ds) = Inl AttributeError"

definition termination_for :: "string set \<Rightarrow> gate \<Rightarrow> pydict res" where
  "termination_for required g =
     (let sources = set (filter truthy (map (\<lambda>d. dget d ''source'')
                      (filter (capability_in required) (unresolved_records g))))
      in rbind (first_exhaustion required sources (exhaustion_details g))
           (\<lambda>d. Inr (if d \<noteq> [] then d
                     else if capability_in required (gate_termination g) then gate_termination g else [])))"

definition adaptive_detail :: "pydict \<Rightarrow> pydict" where
  "adaptive_detail failure =
     [(''reason'', PStr ''execution_failed''),
      (''capability'', py_or (dget failure ''capability'') (PStr ''tool'')),
      (''error_type'', py_or (dget failure ''error_type'') (PStr ''tool'')),
      (''tool'', py_or (dget failure ''tool'') (PStr [])),
      (''source'', py_or (dget failure ''source'') (PStr []))]"

definition first_of :: "string set \<Rightarrow> string \<Rightarrow> string" where
  "first_of A d = (case sorted_list_of_set A of [] \<Rightarrow> d | c # _ \<Rightarrow> c)"

definition wrapup_reason :: "string \<Rightarrow> bool" where
  "wrapup_reason stop \<longleftrightarrow> stop \<in> {''token_budget_wrapup'', ''token_capped''}"

text \<open>The end of \<open>_execution_outcome\<close>: a run that was cut off, or not.\<close>

definition wrapup_outcome :: "bool \<Rightarrow> bool \<Rightarrow> string \<Rightarrow> pydict \<Rightarrow> outcome res" where
  "wrapup_outcome delivered truncated stop ev =
     (if truncated \<and> wrapup_reason stop \<and> delivered then Inr (''completed'', [])
      else if truncated \<and> wrapup_reason stop
      then (case py_or (dget ev ''record_validation'') (PDict []) of
              PDict v \<Rightarrow>
                if dget v ''valid'' = PBool True \<and> dget v ''count_matches'' = PBool True \<and> truthy (dget v ''unique_by'')
                then Inr (''completed'', []) else Inr (limit_or_completed truncated stop)
            | _ \<Rightarrow> Inl AttributeError)
      else Inr (limit_or_completed truncated stop))"

definition relevant_capabilities :: "string list \<Rightarrow> string set" where
  "relevant_capabilities caps = Set.filter (\<lambda>c. is_capability_family (PStr c) \<or> c = ''tool'') (set caps)"

text \<open>\<open>_execution_outcome\<close> from the point where it reads the middleware.\<close>

definition observed_outcome ::
  "(py \<Rightarrow> string) \<Rightarrow> gate \<Rightarrow> string \<Rightarrow> string list \<Rightarrow> bool \<Rightarrow> string \<Rightarrow> pydict \<Rightarrow> outcome res" where
  "observed_outcome repr g requirement caps truncated stop ev =
     (let required = relevant_capabilities caps;
          successful = successful_from repr g ev;
          unrecovered = set (List.map_filter (\<lambda>d. str_of (dget d ''capability''))
                          (filter (capability_in required) (unresolved_records g)));
          partial = (\<lambda>d. (''partial'', with_trigger truncated stop d))
      in rbind (termination_for required g)
        (\<lambda>td.
          if requirement = ''adaptive'' then
            (case unresolved_records g of
               [] \<Rightarrow> Inr (limit_or_completed truncated stop)
             | f # _ \<Rightarrow> Inr (partial (if td \<noteq> [] then td else adaptive_detail f)))
          else if requirement = ''tool_result'' \<and> unrecovered \<noteq> {} then
            Inr (partial (if td \<noteq> [] then td
               else [(''reason'', PStr ''execution_failed''), (''capability'', PStr (first_of unrecovered []))]))
          else if requirement = ''tool_result'' \<and> successful \<inter> required = {} then
            Inr (partial (if td \<noteq> [] then td else evidence_termination_detail requirement (first_of required ''tool'')))
          else if requirement = ''artifact'' \<and> ''artifact_delivery'' \<notin> successful then
            Inr (partial (if td \<noteq> [] then td else evidence_termination_detail requirement []))
          else wrapup_outcome
                 (''artifact_delivery'' \<in> successful \<and> (requirement = ''artifact'' \<or> successful \<inter> required \<noteq> {}))
                 truncated stop ev))"

text \<open>\<open>_execution_outcome\<close>; without a middleware there is nothing to observe.\<close>

definition execution_outcome ::
  "(py \<Rightarrow> string) \<Rightarrow> gate option \<Rightarrow> string \<Rightarrow> string list \<Rightarrow> bool \<Rightarrow> string \<Rightarrow> bool \<Rightarrow> pydict \<Rightarrow> outcome res" where
  "execution_outcome repr mw requirement caps truncated stop gate_enabled ev =
     (if truthy (dget ev ''completion_issues'')
      then Inr (''partial'', limit_trigger truncated stop ev @
             [(''reason'', PStr ''evidence_insufficient''), (''error_type'', PStr ''verification''),
              (''completion_issues'', dget ev ''completion_issues'')])
      else if truthy (dget ev ''artifact_required'') \<and> \<not> truthy (dget ev ''_deliverables'')
      then Inr (''partial'', limit_trigger truncated stop ev @ evidence_termination_detail ''artifact'' [])
      else if truthy (dget ev ''convergence_exhausted'')
      then Inr (''partial'', [(''reason'', PStr ''evidence_convergence_limit''), (''error_type'', PStr ''execution_limit'')])
      else rbind (set_field ev ''required_sources'')
        (\<lambda>sources.
          let missing = missing_sources sources (case mw of None \<Rightarrow> [] | Some g \<Rightarrow> successful_evidence g)
          in if missing \<noteq> []
             then Inr (''partial'', [(''reason'', PStr ''source_coverage_incomplete''), (''capability'', PStr ''plugin''),
                    (''error_type'', PStr ''verification''), (''sources'', PList (map PStr missing))])
             else if \<not> gate_enabled then Inr (limit_or_completed truncated stop)
             else case mw of
                    None \<Rightarrow> Inr (limit_or_completed truncated stop)
                  | Some g \<Rightarrow> observed_outcome repr g requirement caps truncated stop ev))"

section \<open>The outcome\<close>

definition setdefault :: "string \<Rightarrow> py \<Rightarrow> pydict \<Rightarrow> pydict" where
  "setdefault k v d = (case map_of d k of None \<Rightarrow> AList.update k v d | Some _ \<Rightarrow> d)"

definition undelivered :: "string \<Rightarrow> pydict \<Rightarrow> bool" where
  "undelivered requirement ev \<longleftrightarrow>
     requirement = ''artifact'' \<and> map_of ev ''_deliverables'' \<noteq> None \<and> \<not> truthy (dget ev ''_deliverables'')"

definition coverage_status :: "pydict \<Rightarrow> pydict \<Rightarrow> pydict \<Rightarrow> string" where
  "coverage_status ev verdicts detail =
     (let values = [dget ev ''evidence_completeness'', dget verdicts ''evidence_completeness''] @
            (if detail_is ''reason'' ''source_coverage_incomplete'' detail then [PStr ''incomplete''] else [])
      in if PStr ''incomplete'' \<in> set values then ''incomplete''
         else if PStr ''complete'' \<in> set values then ''complete'' else ''unknown'')"

definition outcome_warnings :: "string \<Rightarrow> string \<Rightarrow> pydict \<Rightarrow> string list" where
  "outcome_warnings coverage review verdicts =
     (if coverage = ''incomplete'' then [''evidence_incomplete''] else []) @
     (if review = ''inconclusive''
      then [if dget verdicts ''review_completeness'' = PStr ''incomplete'' then ''review_material_incomplete''
            else if dget verdicts ''review_available'' = PBool False then ''review_unavailable''
            else ''review_inconclusive'']
      else [])"

definition review_verdicts :: "pydict \<Rightarrow> pydict \<Rightarrow> bool \<Rightarrow> pydict" where
  "review_verdicts ev gates review_enabled =
     (let gated = (if review_enabled then gates else [])
      in if review_enabled \<and> dget ev ''review_completeness'' = PStr ''incomplete''
         then AList.update ''review_completeness'' (PStr ''incomplete'') gated else gated)"

definition answer_review :: "pydict \<Rightarrow> pydict \<Rightarrow> bool \<Rightarrow> string" where
  "answer_review ev gates review_enabled =
     (if review_enabled then review_status (review_verdicts ev gates review_enabled) else ''not_requested'')"

definition update_if :: "bool \<Rightarrow> string \<Rightarrow> py \<Rightarrow> pydict \<Rightarrow> pydict" where
  "update_if b k v d = (if b then AList.update k v d else d)"

text \<open>The part of \<open>_finalize_runtime_outcome\<close> that attaches the assessment.\<close>

definition assess_outcome :: "outcome \<Rightarrow> bool \<Rightarrow> string \<Rightarrow> pydict \<Rightarrow> pydict \<Rightarrow> bool \<Rightarrow> outcome" where
  "assess_outcome od truncated stop ev gates review_enabled =
     (let outcome = fst od;
          detail = (if outcome \<noteq> ''completed'' \<and> truncated \<and> stop \<noteq> []
                    then setdefault ''trigger'' (PStr stop) (snd od) else snd od);
          verdicts = review_verdicts ev gates review_enabled;
          review = answer_review ev gates review_enabled;
          coverage = coverage_status ev verdicts detail;
          d1 = AList.update ''assessment'' (PDict [(''execution'', PStr outcome), (''coverage'', PStr coverage),
                 (''review'', PStr review)]) detail;
          d2 = update_if (gates \<noteq> [] \<and> review_enabled) ''decision_gates'' (PDict gates) d1;
          warned = outcome_warnings coverage review verdicts;
          d3 = update_if (warned \<noteq> []) ''warnings'' (PList (map PStr warned)) d2;
          blocking = (if truthy (dget d3 ''reason'') \<and> outcome \<noteq> ''completed'' then [dget d3 ''reason''] else []);
          downgraded = (review = ''unsupported'' \<and> outcome = ''completed'');
          d4 = update_if downgraded ''error_type'' (PStr ''verification'')
                 (update_if downgraded ''reason'' (PStr ''evidence_insufficient'') d3);
          reasons = (if review = ''unsupported'' \<and> PStr ''evidence_insufficient'' \<notin> set blocking
                     then blocking @ [PStr ''evidence_insufficient''] else blocking)
      in (if downgraded then ''partial'' else outcome,
          update_if (reasons \<noteq> []) ''blocking_reasons'' (PList reasons) d4))"

definition delivered_outcome :: "string \<Rightarrow> pydict \<Rightarrow> outcome \<Rightarrow> outcome" where
  "delivered_outcome requirement ev od =
     (if fst od = ''completed'' \<and> undelivered requirement ev
      then (''partial'', evidence_termination_detail ''artifact'' []) else od)"

definition no_assessment :: "pydict \<Rightarrow> pydict \<Rightarrow> bool \<Rightarrow> bool" where
  "no_assessment ev gates review_enabled \<longleftrightarrow>
     review_enabled \<and> gates = [] \<and> \<not> truthy (dget ev ''required_sources'')
     \<and> map_of ev ''evidence_completeness'' = None \<and> map_of ev ''review_completeness'' = None"

definition finalize_runtime_outcome ::
  "(py \<Rightarrow> string) \<Rightarrow> gate option \<Rightarrow> string \<Rightarrow> string list \<Rightarrow> bool \<Rightarrow> string \<Rightarrow> bool \<Rightarrow> pydict \<Rightarrow> pydict \<Rightarrow> bool
     \<Rightarrow> outcome res" where
  "finalize_runtime_outcome repr mw requirement caps truncated stop gate_enabled ev gates review_enabled =
     rbind (execution_outcome repr mw requirement caps truncated stop gate_enabled ev)
       (\<lambda>od.
         let od1 = delivered_outcome requirement ev od
         in if no_assessment ev gates review_enabled then Inr od1
            else Inr (assess_outcome od1 truncated stop ev gates review_enabled))"

section \<open>A completed run\<close>

lemma with_trigger_reason: "dget (with_trigger truncated stop d) ''reason'' = dget d ''reason''"
  by (simp add: with_trigger_def dget_update)

lemma limit_completed: "fst (limit_or_completed truncated stop) = ''completed'' \<Longrightarrow> \<not> truncated"
  by (simp add: limit_or_completed_def split: if_splits)

text \<open>The evidence on which a cut-off run may still count as completed.\<close>

definition validated_records :: "pydict \<Rightarrow> bool" where
  "validated_records ev \<longleftrightarrow>
     (case dget ev ''record_validation'' of
        PDict v \<Rightarrow> dget v ''valid'' = PBool True \<and> dget v ''count_matches'' = PBool True \<and> truthy (dget v ''unique_by'')
      | _ \<Rightarrow> False)"

lemma validated_or_empty:
  "py_or (dget ev ''record_validation'') (PDict []) = PDict v \<Longrightarrow> dget v ''valid'' = PBool True \<Longrightarrow>
     dget ev ''record_validation'' = PDict v"
  by (auto simp: py_or_def split: if_splits)

lemma wrapup_completed:
  assumes "wrapup_outcome delivered truncated stop ev = Inr od" "fst od = ''completed''" "truncated"
  shows "wrapup_reason stop \<and> (delivered \<or> validated_records ev)"
proof (cases "wrapup_reason stop \<and> \<not> delivered")
  case True
  with assms obtain v where "py_or (dget ev ''record_validation'') (PDict []) = PDict v"
    "dget v ''valid'' = PBool True" "dget v ''count_matches'' = PBool True" "truthy (dget v ''unique_by'')"
    by (auto simp: wrapup_outcome_def limit_or_completed_def split: if_splits py.splits)
  then have "validated_records ev"
    using validated_or_empty [of ev v] by (simp add: validated_records_def)
  then show ?thesis using True by simp
next
  case False
  then show ?thesis
    using assms by (auto simp: wrapup_outcome_def limit_or_completed_def split: if_splits)
qed

text \<open>What the gate must have observed, for each kind of requirement.\<close>

definition observed_justifies ::
  "(py \<Rightarrow> string) \<Rightarrow> gate \<Rightarrow> string \<Rightarrow> string list \<Rightarrow> bool \<Rightarrow> string \<Rightarrow> pydict \<Rightarrow> bool" where
  "observed_justifies repr g requirement caps truncated stop ev \<longleftrightarrow>
     (let required = relevant_capabilities caps; successful = successful_from repr g ev
      in (requirement = ''adaptive'' \<longrightarrow> unresolved_records g = [] \<and> \<not> truncated)
       \<and> (requirement = ''tool_result'' \<longrightarrow>
            successful \<inter> required \<noteq> {} \<and> (\<forall>d \<in> set (unresolved_records g). \<not> capability_in required d))
       \<and> (requirement = ''artifact'' \<longrightarrow> ''artifact_delivery'' \<in> successful)
       \<and> (truncated \<longrightarrow> wrapup_reason stop \<and>
            (''artifact_delivery'' \<in> successful \<and> (requirement = ''artifact'' \<or> successful \<inter> required \<noteq> {})
             \<or> validated_records ev)))"

lemma capability_in_str: "capability_in A d \<longleftrightarrow> (\<exists>c \<in> A. dget d ''capability'' = PStr c)"
  by (auto simp: capability_in_def split: py.splits)

lemma no_unrecovered:
  "set (List.map_filter (\<lambda>d. str_of (dget d ''capability'')) (filter (capability_in A) ds)) = {} \<longleftrightarrow>
     (\<forall>d \<in> set ds. \<not> capability_in A d)"
  by (auto simp: List.map_filter_def capability_in_str filter_empty_conv)

lemma observed_completed:
  assumes "observed_outcome repr g requirement caps truncated stop ev = Inr od" "fst od = ''completed''"
  shows "observed_justifies repr g requirement caps truncated stop ev"
proof -
  let ?required = "relevant_capabilities caps" and ?successful = "successful_from repr g ev"
  obtain td where td: "termination_for ?required g = Inr td"
    using assms(1) by (auto simp: observed_outcome_def Let_def rbind_Inr_iff)
  show ?thesis
  proof (cases "requirement = ''adaptive''")
    case True
    then have "unresolved_records g = []" "\<not> truncated"
      using assms td by (auto simp: observed_outcome_def Let_def dest: limit_completed split: list.splits)
    then show ?thesis using True by (simp add: observed_justifies_def)
  next
    case False
    let ?delivered = "''artifact_delivery'' \<in> ?successful \<and> (requirement = ''artifact'' \<or> ?successful \<inter> ?required \<noteq> {})"
    have tool: "requirement = ''tool_result'' \<Longrightarrow> (\<forall>d \<in> set (unresolved_records g). \<not> capability_in ?required d)
        \<and> ?successful \<inter> ?required \<noteq> {}"
      unfolding no_unrecovered [symmetric]
      using assms td by (auto simp: observed_outcome_def Let_def split: if_splits)
    have artifact: "requirement = ''artifact'' \<Longrightarrow> ''artifact_delivery'' \<in> ?successful"
      using assms td by (auto simp: observed_outcome_def Let_def split: if_splits)
    have "wrapup_outcome ?delivered truncated stop ev = Inr od"
      using assms td False by (auto simp: observed_outcome_def Let_def split: if_splits)
    from wrapup_completed [OF this assms(2)] show ?thesis
      using False tool artifact by (auto simp: observed_justifies_def Let_def)
  qed
qed

lemma execution_completed:
  assumes "execution_outcome repr mw requirement caps truncated stop gate_enabled ev = Inr od" "fst od = ''completed''"
  shows "\<not> truthy (dget ev ''completion_issues'')"
    and "truthy (dget ev ''artifact_required'') \<Longrightarrow> truthy (dget ev ''_deliverables'')"
    and "\<not> truthy (dget ev ''convergence_exhausted'')"
    and "\<exists>sources. set_field ev ''required_sources'' = Inr sources
           \<and> missing_sources sources (case mw of None \<Rightarrow> [] | Some g \<Rightarrow> successful_evidence g) = []"
    and "gate_enabled \<Longrightarrow> mw = Some g \<Longrightarrow> observed_justifies repr g requirement caps truncated stop ev"
    and "\<not> gate_enabled \<or> mw = None \<Longrightarrow> \<not> truncated"
  using assms
  by (auto simp: execution_outcome_def Let_def rbind_Inr_iff dest: limit_completed observed_completed
      split: if_splits option.splits)

lemma set_field_finite: "set_field d k = Inr A \<Longrightarrow> finite A"
  by (auto simp: set_field_def rbind_Inr_iff)

lemma missing_none:
  assumes "finite sources" "missing_sources sources evidence = []" "s \<in> sources"
  shows "(\<exists>item \<in> set (map snd (latest_requests evidence)). covers True s item)
     \<and> (\<forall>item \<in> set (map snd (latest_requests evidence)). \<not> covers False s item)"
  using assms by (auto simp: missing_sources_def Let_def list_ex_iff)

text \<open>
  \<open>latest_requests\<close> keeps, for every source and request, its last evidence item.
\<close>

lemma latest_requests_snoc:
  "latest_requests (evidence @ [item]) =
     AList.update (dget item ''source'', dget item ''request_sha256'') item (latest_requests evidence)"
  by (simp add: latest_requests_def)

lemma assessed_outcome:
  "fst (assess_outcome od truncated stop ev gates review_enabled) =
     (if answer_review ev gates review_enabled = ''unsupported'' \<and> fst od = ''completed'' then ''partial'' else fst od)"
  by (simp only: assess_outcome_def Let_def fst_conv)

lemma assessed_completed:
  assumes "fst (assess_outcome od truncated stop ev gates review_enabled) = ''completed''"
  shows "fst od = ''completed''" "answer_review ev gates review_enabled \<noteq> ''unsupported''"
  using assms unfolding assessed_outcome by (simp_all split: if_splits)

lemma no_review: "review_status [] = ''not_requested''"
  by (simp add: review_status_def text_in_def)

lemma no_assessment_review:
  "no_assessment ev gates review_enabled \<Longrightarrow> answer_review ev gates review_enabled \<noteq> ''unsupported''"
  by (simp add: no_assessment_def answer_review_def review_verdicts_def no_review dget_def)

lemma finalize_cases:
  assumes "finalize_runtime_outcome repr mw requirement caps truncated stop gate_enabled ev gates review_enabled = Inr od"
  obtains eo where "execution_outcome repr mw requirement caps truncated stop gate_enabled ev = Inr eo"
    and "od = delivered_outcome requirement ev eo" "no_assessment ev gates review_enabled"
  | eo where "execution_outcome repr mw requirement caps truncated stop gate_enabled ev = Inr eo"
    and "od = assess_outcome (delivered_outcome requirement ev eo) truncated stop ev gates review_enabled"
proof (cases "execution_outcome repr mw requirement caps truncated stop gate_enabled ev")
  case (Inl e)
  then show thesis using assms by (simp add: finalize_runtime_outcome_def)
next
  case (Inr eo)
  then show thesis
    using assms that by (cases "no_assessment ev gates review_enabled") (simp_all add: finalize_runtime_outcome_def)
qed

lemma delivered_completed:
  "fst (delivered_outcome requirement ev od) = ''completed'' \<Longrightarrow> fst od = ''completed'' \<and> \<not> undelivered requirement ev"
  by (simp add: delivered_outcome_def split: if_splits)

lemma finalize_completed:
  assumes "finalize_runtime_outcome repr mw requirement caps truncated stop gate_enabled ev gates review_enabled = Inr od"
    and "fst od = ''completed''"
  obtains eo where "execution_outcome repr mw requirement caps truncated stop gate_enabled ev = Inr eo"
    "fst eo = ''completed''" "\<not> undelivered requirement ev" "answer_review ev gates review_enabled \<noteq> ''unsupported''"
  using assms(1)
proof (cases rule: finalize_cases)
  case (1 eo)
  then show thesis
    using that assms(2) delivered_completed no_assessment_review by blast
next
  case (2 eo)
  have "fst (assess_outcome (delivered_outcome requirement ev eo) truncated stop ev gates review_enabled) = ''completed''"
    using assms(2) 2(2) by simp
  from assessed_completed [OF this] show thesis
    using that 2(1) delivered_completed by blast
qed

text \<open>C5.
  A node run reported as completed has earned it. Whatever the kind of requirement: no
  completion issue is open, a required artifact is delivered, the convergence limit was not
  hit, every required source has its latest request answered with full coverage and none with
  partial coverage, and the answer review did not find it unsupported. With the execution gate
  on, further: an adaptive run has no unresolved failure and was not cut off; a run that needed
  a tool result has evidence from a capability that counts and no unresolved failure of one; a
  run that needed an artifact delivered it; and a run that was cut off ended in a wrap-up for
  tokens with the artifact delivered or its records validated.
\<close>

theorem completed_is_justified:
  assumes "finalize_runtime_outcome repr mw requirement caps truncated stop gate_enabled ev gates review_enabled =
      Inr (''completed'', detail)"
  shows "\<not> truthy (dget ev ''completion_issues'')
     \<and> (truthy (dget ev ''artifact_required'') \<longrightarrow> truthy (dget ev ''_deliverables''))
     \<and> \<not> truthy (dget ev ''convergence_exhausted'')
     \<and> \<not> undelivered requirement ev
     \<and> answer_review ev gates review_enabled \<noteq> ''unsupported''
     \<and> (\<exists>sources. set_field ev ''required_sources'' = Inr sources
          \<and> (\<forall>s \<in> sources.
               let latest = set (map snd (latest_requests (case mw of None \<Rightarrow> [] | Some g \<Rightarrow> successful_evidence g)))
               in (\<exists>item \<in> latest. covers True s item) \<and> (\<forall>item \<in> latest. \<not> covers False s item)))
     \<and> (case mw of
          Some g \<Rightarrow> (if gate_enabled then observed_justifies repr g requirement caps truncated stop ev else \<not> truncated)
        | None \<Rightarrow> \<not> truncated)"
proof -
  from assms obtain eo where eo: "execution_outcome repr mw requirement caps truncated stop gate_enabled ev = Inr eo"
    and ended: "fst eo = ''completed''" and rest: "\<not> undelivered requirement ev"
      "answer_review ev gates review_enabled \<noteq> ''unsupported''"
    by (elim finalize_completed) simp
  note ex = execution_completed [OF eo ended]
  from ex(4) obtain sources where src: "set_field ev ''required_sources'' = Inr sources"
    and none: "missing_sources sources (case mw of None \<Rightarrow> [] | Some g \<Rightarrow> successful_evidence g) = []"
    by blast
  have "\<forall>s \<in> sources.
      let latest = set (map snd (latest_requests (case mw of None \<Rightarrow> [] | Some g \<Rightarrow> successful_evidence g)))
      in (\<exists>item \<in> latest. covers True s item) \<and> (\<forall>item \<in> latest. \<not> covers False s item)"
    using missing_none [OF set_field_finite [OF src] none] unfolding Let_def by blast
  moreover have "case mw of
          Some g \<Rightarrow> (if gate_enabled then observed_justifies repr g requirement caps truncated stop ev else \<not> truncated)
        | None \<Rightarrow> \<not> truncated"
    using ex(5,6) by (auto split: option.split)
  ultimately show ?thesis using ex(1-3) rest src by blast
qed

definition done_gate :: gate where
  "done_gate = new_gate\<lparr>successful_evidence := [[(''capability'', PStr ''skill''), (''tool'', PStr ''call_skill_api''),
     (''source'', PStr ''skill:crm''), (''request_sha256'', PStr ''h''), (''coverage_complete'', PBool True)]]\<rparr>"

definition done_evidence :: pydict where
  "done_evidence = [(''required_sources'', PList [PStr ''skill:crm''])]"

definition done_detail :: pydict where
  "done_detail = [(''assessment'', PDict [(''execution'', PStr ''completed''), (''coverage'', PStr ''unknown''),
     (''review'', PStr ''supported'')]), (''decision_gates'', PDict [(''answer_supported'', PStr ''supported'')])]"

theorem completed_is_justified_witness:
  "observed_justifies (\<lambda>_. []) done_gate ''tool_result'' [''skill''] False [] done_evidence"
proof -
  have "finalize_runtime_outcome (\<lambda>_. []) (Some done_gate) ''tool_result'' [''skill''] False [] True done_evidence
      [(''answer_supported'', PStr ''supported'')] True = Inr (''completed'', done_detail)"
    by code_simp
  from completed_is_justified [OF this] show ?thesis by simp
qed

section \<open>A run that is not completed\<close>

text \<open>Every exhausted capability the gate has noted comes with its reason.\<close>

definition gives_reason :: "pydict \<Rightarrow> bool" where
  "gives_reason d \<longleftrightarrow> truthy (dget d ''reason'')"

definition reasons_given :: "gate \<Rightarrow> bool" where
  "reasons_given g \<longleftrightarrow>
     (gate_termination g = [] \<or> gives_reason (gate_termination g))
     \<and> (\<forall>x \<in> set (exhaustion_details g). \<exists>d. x = PDict d \<and> gives_reason d)"

lemma emit_gate_details [simp]: "exhaustion_details (emit_gate n d g) = exhaustion_details g"
  by (simp add: emit_gate_def)

lemma record_recovery_details [simp]: "exhaustion_details (record_recovery cfg cap s g) = exhaustion_details g"
  by (auto simp: record_recovery_def apply_recovery_def settle_capability_def Let_def split: option.splits)

lemma record_success_details [simp]: "exhaustion_details (record_success cfg cap n c p g) = exhaustion_details g"
  by (simp add: record_success_def Let_def split: option.splits)

lemma count_failure_reasons [simp]: "reasons_given (count_failure key cap source g) = reasons_given g"
  by (simp add: count_failure_def reasons_given_def Let_def)

lemma record_warning_reasons [simp]: "reasons_given (record_warning cfg key cap source g) = reasons_given g"
  by (simp add: record_warning_def reasons_given_def Let_def)

lemma exhaust_reasons: "reasons_given g \<Longrightarrow> reasons_given (exhaust cfg key cap source b g)"
  by (cases key) (auto simp: exhaust_def reasons_given_def gives_reason_def Let_def)

lemma record_failure_reasons: "reasons_given g \<Longrightarrow> reasons_given (record_failure cfg c cap et g)"
  by (simp add: record_failure_def exhaust_reasons Let_def)

lemma record_success_reasons [simp]: "reasons_given (record_success cfg cap n c p g) = reasons_given g"
  by (simp add: reasons_given_def)

lemma record_result_reasons: "reasons_given g \<Longrightarrow> record_result cfg c r g = Inr g' \<Longrightarrow> reasons_given g'"
  by (auto simp: record_result_def Let_def rbind_Inr_iff record_failure_reasons split: if_splits option.splits)

lemma observe_plan_reasons: "reasons_given g \<Longrightarrow> observe_plan_call cfg c r g = Inr g' \<Longrightarrow> reasons_given g'"
  by (auto simp: observe_plan_call_def reasons_given_def split: if_splits py.splits)

lemma record_tool_call_reasons [simp]: "reasons_given (record_tool_call cfg g) = reasons_given g"
  by (simp add: record_tool_call_def reasons_given_def Let_def)

interpretation gate_reasons: step_invariant "gate_step cfg handler" reasons_given for cfg handler
proof
  fix g c
  assume inv: "reasons_given g"
  show "reasons_given (gate_step cfg handler g c)"
  proof (cases "call_admitted cfg g c")
    case True
    have inv1: "reasons_given (record_tool_call cfg g)" using inv by simp
    show ?thesis
    proof (cases rule: gate_step_admitted [OF True, of handler])
      case 1
      then show ?thesis using inv1 by simp
    next
      case (2 r g2)
      then show ?thesis using observe_plan_reasons [OF inv1 2(2)] by simp
    next
      case (3 r g2 g3)
      then show ?thesis using record_result_reasons [OF observe_plan_reasons [OF inv1 3(2)] 3(3)] by simp
    qed
  qed (use inv in \<open>simp add: gate_step_denied deny_unplanned_call_def reasons_given_def\<close>)
qed

lemma new_gate_reasons: "reasons_given new_gate"
  by (simp add: reasons_given_def new_gate_def)

lemma first_exhaustion_reason:
  "\<forall>x \<in> set ds. \<exists>d. x = PDict d \<and> gives_reason d \<Longrightarrow> first_exhaustion A S ds = Inr d \<Longrightarrow> d = [] \<or> gives_reason d"
  by (induction A S ds rule: first_exhaustion.induct) (auto split: if_splits)

lemma termination_reason:
  assumes "reasons_given g" "termination_for A g = Inr td" "td \<noteq> []"
  shows "gives_reason td"
  using assms first_exhaustion_reason [of "exhaustion_details g"]
  by (auto simp: termination_for_def reasons_given_def rbind_Inr_iff Let_def split: if_splits)

text \<open>Completed, or partial with a reason.\<close>

definition well_ended :: "outcome \<Rightarrow> bool" where
  "well_ended od \<longleftrightarrow> fst od = ''completed'' \<or> fst od = ''partial'' \<and> gives_reason (snd od)"

lemma reason_with_trigger [simp]: "gives_reason (with_trigger t s d) = gives_reason d"
  by (simp add: gives_reason_def with_trigger_reason)

lemma reason_update [simp]: "k \<noteq> ''reason'' \<Longrightarrow> gives_reason (AList.update k v d) = gives_reason d"
  by (simp add: gives_reason_def dget_update)

lemma reason_update_if: "k \<noteq> ''reason'' \<Longrightarrow> gives_reason (update_if b k v d) = gives_reason d"
  by (simp add: update_if_def)

lemma reason_setdefault: "k \<noteq> ''reason'' \<Longrightarrow> gives_reason (setdefault k v d) = gives_reason d"
  by (simp add: setdefault_def split: option.split)

lemma details_give_reason [simp]:
  "gives_reason (evidence_termination_detail r c)" "gives_reason (adaptive_detail d)"
  by (simp_all add: gives_reason_def evidence_termination_detail_def adaptive_detail_def)

lemma limit_well_ended [simp]: "well_ended (limit_or_completed t s)"
  by (simp add: well_ended_def limit_or_completed_def gives_reason_def)

lemma wrapup_well_ended: "wrapup_outcome b t s ev = Inr od \<Longrightarrow> well_ended od"
  by (auto simp: wrapup_outcome_def split: if_splits py.splits) (auto simp: well_ended_def)

lemma partial_well_ended [simp]: "well_ended (''partial'', d) = gives_reason d"
  by (simp add: well_ended_def)

lemma observed_well_ended:
  assumes "reasons_given g" "observed_outcome repr g requirement caps truncated stop ev = Inr od"
  shows "well_ended od"
proof -
  obtain td where td: "termination_for (relevant_capabilities caps) g = Inr td"
    using assms(2) by (auto simp: observed_outcome_def Let_def rbind_Inr_iff)
  have r: "td \<noteq> [] \<Longrightarrow> gives_reason td" using termination_reason [OF assms(1) td] .
  have plain: "gives_reason [(''reason'', PStr ''execution_failed''), x]" for x
    by (simp add: gives_reason_def)
  show ?thesis
    using assms(2) r plain unfolding observed_outcome_def Let_def td rbind_simps
    by (auto dest: wrapup_well_ended split: if_splits list.splits)
qed

lemma execution_well_ended:
  assumes "\<And>g. mw = Some g \<Longrightarrow> reasons_given g"
    and "execution_outcome repr mw requirement caps truncated stop gate_enabled ev = Inr od"
  shows "well_ended od"
proof -
  have after_trigger: "gives_reason (limit_trigger truncated stop ev @ d) = gives_reason d" for d
    by (simp add: gives_reason_def dget_def limit_trigger_def)
  have obs: "mw = Some g \<Longrightarrow> observed_outcome repr g requirement caps truncated stop ev = Inr od \<Longrightarrow> well_ended od" for g
    using observed_well_ended [OF assms(1)] .
  show ?thesis
    using assms(2) obs unfolding execution_outcome_def Let_def
    by (auto simp: after_trigger rbind_Inr_iff split: if_splits option.splits) (simp_all add: gives_reason_def)
qed

lemma delivered_well_ended: "well_ended od \<Longrightarrow> well_ended (delivered_outcome requirement ev od)"
  by (simp add: delivered_outcome_def)

text \<open>Everything the assessment adds stands beside the reason; a downgrade names its own.\<close>

lemma reason_downgrade: "gives_reason (update_if b ''reason'' (PStr ''evidence_insufficient'') d) \<longleftrightarrow> b \<or> gives_reason d"
  by (simp add: update_if_def gives_reason_def dget_update)

lemma reason_beside:
  "gives_reason (AList.update ''assessment'' v d) = gives_reason d"
  "gives_reason (update_if b ''decision_gates'' v d) = gives_reason d"
  "gives_reason (update_if b ''warnings'' v d) = gives_reason d"
  "gives_reason (update_if b ''error_type'' v d) = gives_reason d"
  "gives_reason (update_if b ''blocking_reasons'' v d) = gives_reason d"
  "gives_reason (if b then setdefault ''trigger'' v d else d) = gives_reason d"
  by (simp_all add: reason_update_if reason_setdefault)

lemma assessed_reason:
  "gives_reason (snd (assess_outcome od truncated stop ev gates review_enabled)) \<longleftrightarrow>
     answer_review ev gates review_enabled = ''unsupported'' \<and> fst od = ''completed'' \<or> gives_reason (snd od)"
  by (simp only: assess_outcome_def Let_def snd_conv reason_beside reason_downgrade)

lemma assessed_well_ended:
  "well_ended od \<Longrightarrow> well_ended (assess_outcome od truncated stop ev gates review_enabled)"
  unfolding well_ended_def assessed_outcome assessed_reason by auto

text \<open>Every run ends completed or partial, and a partial one says why: whatever tool calls a gate
  has handled, and whatever else went into the decision, the outcome is one of the two, and the
  termination detail of a partial outcome has a reason. In particular the outcome is never
  \<open>blocked\<close>, the value for which \<open>finalize_run\<close> keeps a fixed answer of its own.
\<close>

lemma incomplete_names_a_reason:
  assumes "finalize_runtime_outcome repr (map_option (foldl (gate_step cfg handler) new_gate) calls)
      requirement caps truncated stop gate_enabled ev gates review_enabled = Inr (outcome, detail)"
  shows "outcome = ''completed'' \<or> outcome = ''partial'' \<and> truthy (dget detail ''reason'')"
proof -
  have reasons: "\<And>g. map_option (foldl (gate_step cfg handler) new_gate) calls = Some g \<Longrightarrow> reasons_given g"
    using gate_reasons.inv_run [OF new_gate_reasons] by auto
  from assms have "well_ended (outcome, detail)"
  proof (cases rule: finalize_cases)
    case (1 eo)
    then show ?thesis
      using delivered_well_ended [OF execution_well_ended [OF reasons 1(1)]] by simp
  next
    case (2 eo)
    show ?thesis
      unfolding 2(2) by (rule assessed_well_ended [OF delivered_well_ended [OF execution_well_ended [OF reasons 2(1)]]])
  qed
  then show ?thesis by (simp add: well_ended_def gives_reason_def)
qed

definition quiet_config :: gate_config where
  "quiet_config = \<lparr>required_capabilities = {''skill''}, require_initial_plan = False, max_tool_calls = 5,
     planning_effort = [], execution_effort = [], render = (\<lambda>_. []), digest = (\<lambda>_. ''h'')\<rparr>"

definition refused :: "tool_call \<Rightarrow> tool_result res" where
  "refused _ = Inr \<lparr>res_payload = Some [(''ok'', PBool False), (''error_type'', PStr ''policy'')], res_error = True\<rparr>"

definition skill_call :: tool_call where
  "skill_call = \<lparr>call_name = ''call_skill_api'', call_args = PDict [(''skill'', PStr ''crm'')], call_id = ''1'', call_tool = None\<rparr>"

lemma incomplete_names_a_reason_sample:
  "\<exists>outcome detail. finalize_runtime_outcome (\<lambda>_. [])
       (map_option (foldl (gate_step quiet_config refused) new_gate) (Some [skill_call])) ''tool_result'' [''skill''] False [] True [] [] True
       = Inr (outcome, detail) \<and> truthy (dget detail ''reason'')"
proof -
  let ?f = "finalize_runtime_outcome (\<lambda>_. [])
       (map_option (foldl (gate_step quiet_config refused) new_gate) (Some [skill_call])) ''tool_result'' [''skill''] False [] True [] [] True"
  have "case ?f of Inr (o1, _) \<Rightarrow> o1 \<noteq> ''completed'' | _ \<Rightarrow> False" by code_simp
  then obtain o1 d where f: "?f = Inr (o1, d)" "o1 \<noteq> ''completed''" by (auto split: sum.splits)
  from incomplete_names_a_reason [OF f(1)] f show ?thesis by auto
qed

end
