(* ===== verification/Trajectory.thy ===== *)
theory Trajectory
  imports Checkpoint_Resume
begin

text \<open>
  The node's side of a run's trajectory (\<open>lensnode/lensnode/trajectory.py\<close>, \<open>RunTrajectory\<close>):
  the fields the lock protects are the record \<open>trajectory\<close>, the two context variables of one
  thread or task are a \<open>span_context\<close>. Identifiers are strings or \<open>None\<close>; a payload's
  diagnostics, where the caller sends any, are a list of strings. The constructor is the one
  \<open>executor.py\<close> calls (no \<open>trace_state\<close>), and \<open>merge_resume_state\<close> takes the fields of a
  validated \<open>ResumeState\<close>, as \<open>runtime.py\<close> passes them. Random identifiers and timestamps are
  the parameters of \<open>traj_env\<close>, indexed by how many were drawn; emitting a frame succeeds.
\<close>

section \<open>State\<close>

record traj_env =
  uuid_at :: "nat \<Rightarrow> string"
  hex_at :: "nat \<Rightarrow> string"
  time_at :: "nat \<Rightarrow> string"
  tj_repr :: "py \<Rightarrow> string"

record trajectory =
  tj_run :: string
  tj_sequence :: int
  tj_attempt :: int
  open_call_ids :: "string set"
  open_span_ids :: "string set"
  parent_call_map :: "(string \<times> string) list"
  closed_call_ids :: "string set"
  call_categories :: "(string \<times> string) list"
  call_names :: "(string \<times> string) list"
  tj_finished :: bool
  tj_degraded :: bool
  tj_drawn :: nat
  tj_emitted :: "pydict list"
  tj_persists :: bool
  tj_saved :: "py list"

record span_context =
  spans :: "string list"
  active_tool_call :: "string option"
  scope_tokens :: "(string list \<times> string option) list"

text \<open>\<open>max(int(start_sequence or 0), 0)\<close> and \<open>max(int(attempt or 1), 1)\<close>.\<close>

definition new_trajectory :: "string \<Rightarrow> py \<Rightarrow> py \<Rightarrow> bool \<Rightarrow> trajectory res" where
  "new_trajectory run start_sequence attempt persists =
     rbind (py_int (py_or start_sequence (PInt 0)))
       (\<lambda>s. rbind (py_int (py_or attempt (PInt 1)))
         (\<lambda>a. Inr \<lparr>tj_run = run, tj_sequence = max s 0, tj_attempt = max a 1, open_call_ids = {},
                   open_span_ids = {}, parent_call_map = [], closed_call_ids = {}, call_categories = [],
                   call_names = [], tj_finished = False, tj_degraded = False, tj_drawn = 0, tj_emitted = [],
                   tj_persists = persists, tj_saved = []\<rparr>))"

definition new_context :: span_context where
  "new_context = \<lparr>spans = [], active_tool_call = None, scope_tokens = []\<rparr>"

definition health :: "trajectory \<Rightarrow> string" where
  "health tj = (if tj_degraded tj then ''degraded'' else ''healthy'')"

section \<open>Spans\<close>

definition run_call :: "trajectory \<Rightarrow> string" where
  "run_call tj = ''run:'' @ tj_run tj"

definition current_span :: "span_context \<Rightarrow> trajectory \<Rightarrow> string" where
  "current_span cx tj = (if spans cx = [] then run_call tj else last (spans cx))"

definition push_span :: "string \<Rightarrow> span_context \<Rightarrow> span_context" where
  "push_span cid cx =
     (if cid \<noteq> [] \<and> (spans cx = [] \<or> last (spans cx) \<noteq> cid)
      then cx\<lparr>spans := spans cx @ [cid]\<rparr> else cx)"

definition pop_span :: "string option \<Rightarrow> span_context \<Rightarrow> span_context" where
  "pop_span cid cx =
     (case cid of
        None \<Rightarrow> cx\<lparr>spans := butlast (spans cx)\<rparr>
      | Some c \<Rightarrow> if c \<in> set (spans cx) then cx\<lparr>spans := takeWhile (\<lambda>s. s \<noteq> c) (spans cx)\<rparr> else cx)"

text \<open>\<open>tool_call_scope\<close>: the statements before the \<open>yield\<close> and the \<open>finally\<close> clause.\<close>

definition enter_tool_scope :: "string \<Rightarrow> span_context \<Rightarrow> span_context" where
  "enter_tool_scope cid cx =
     cx\<lparr>scope_tokens := (spans cx, active_tool_call cx) # scope_tokens cx,
        active_tool_call := Some cid, spans := spans cx @ [cid]\<rparr>"

definition leave_tool_scope :: "span_context \<Rightarrow> span_context" where
  "leave_tool_scope cx =
     (case scope_tokens cx of [] \<Rightarrow> cx
      | (ss, act) # ts \<Rightarrow> cx\<lparr>spans := ss, active_tool_call := act, scope_tokens := ts\<rparr>)"

definition setdefault_str :: "string \<Rightarrow> string \<Rightarrow> pydict \<Rightarrow> pydict" where
  "setdefault_str k v d = (if map_of d k = None then AList.update k (PStr v) d else d)"

definition tool_event_detail :: "traj_env \<Rightarrow> span_context \<Rightarrow> pydict option \<Rightarrow> trajectory \<Rightarrow> pydict" where
  "tool_event_detail en cx detail tj =
     (let d = (case detail of None \<Rightarrow> [] | Some d \<Rightarrow> d)
      in case active_tool_call cx of
           None \<Rightarrow> d
         | Some cid \<Rightarrow>
             let explicit = py_or (dget d ''call_id'') (dget d ''invocation_id'')
             in if truthy explicit \<and> py_str (tj_repr en) explicit \<noteq> cid
                then setdefault_str ''parent_call_id'' cid d
                else let d' = AList.update ''call_id'' (PStr cid) d
                     in case map_of (parent_call_map tj) cid of
                          None \<Rightarrow> d'
                        | Some p \<Rightarrow> if p = [] then d' else setdefault_str ''parent_call_id'' p d')"

section \<open>Recording one event\<close>

fun finite_json :: "py \<Rightarrow> bool" where
  "finite_json (PFloat f) = (case f of Fin r \<Rightarrow> True | _ \<Rightarrow> False)"
| "finite_json (PList xs) = list_all finite_json xs"
| "finite_json (PDict d) = list_all (\<lambda>(k, v). finite_json v) d"
| "finite_json _ = True"

text \<open>\<open>_json_value\<close> on a dictionary: NaN and the infinities are the values \<open>json.dumps\<close> refuses.\<close>

definition json_value :: "traj_env \<Rightarrow> pydict \<Rightarrow> pydict" where
  "json_value en d =
     (if finite_json (PDict d) then d
      else [(''serialization_error'', PStr ''ValueError''), (''value'', PStr (tj_repr en (PDict d)))])"

definition opt_str :: "string option \<Rightarrow> string" where
  "opt_str x = (case x of None \<Rightarrow> ''None'' | Some s \<Rightarrow> s)"

text \<open>\<open>s.split(".", 1)[0]\<close>, \<open>s.rsplit(".", 1)[-1]\<close> and \<open>s.rsplit(".", 1)[0]\<close>.\<close>

definition first_part :: "string \<Rightarrow> string" where
  "first_part s = takeWhile (\<lambda>c. c \<noteq> CHR ''.'') s"

definition last_part :: "string \<Rightarrow> string" where
  "last_part s = rev (takeWhile (\<lambda>c. c \<noteq> CHR ''.'') (rev s))"

definition front_part :: "string \<Rightarrow> string" where
  "front_part s = (if CHR ''.'' \<in> set s then rev (tl (dropWhile (\<lambda>c. c \<noteq> CHR ''.'') (rev s))) else s)"

definition call_kinds :: "string set" where
  "call_kinds = {''model'', ''tool'', ''subtool'', ''run'', ''step''}"

definition end_suffixes :: "string set" where
  "end_suffixes = {''done'', ''completed'', ''failed'', ''cancelled'', ''interrupted''}"

definition start_suffixes :: "string set" where
  "start_suffixes = {''start'', ''started''}"

definition agent_starts :: "string set" where
  "agent_starts = {''deepagents.agent.create'', ''deepagents.agent.invoke''}"

text \<open>The parent of the event and the diagnostics of a parent that contradicts the bound one.\<close>

definition resolve_parent ::
  "span_context \<Rightarrow> string option \<Rightarrow> string option \<Rightarrow> trajectory \<Rightarrow> string option \<times> string list" where
  "resolve_parent cx call parent tj =
     (case (case call of None \<Rightarrow> None | Some c \<Rightarrow> if c = [] then None else map_of (parent_call_map tj) c) of
        Some b \<Rightarrow> (Some b, if parent \<noteq> None \<and> parent \<noteq> Some b then [''parent_context_mismatch''] else [])
      | None \<Rightarrow>
          ((if parent = None
            then let cur = current_span cx tj in if cur \<noteq> opt_str call then Some cur else None
            else parent), []))"

text \<open>Python's truth of an optional text.\<close>

definition given :: "string option \<Rightarrow> bool" where
  "given x = (case x of None \<Rightarrow> False | Some s \<Rightarrow> s \<noteq> [])"

definition bind_parent :: "string option \<Rightarrow> string option \<Rightarrow> trajectory \<Rightarrow> trajectory" where
  "bind_parent call parent tj =
     (if given call \<and> given parent
      then tj\<lparr>parent_call_map := AList.update (the call) (the parent) (parent_call_map tj)\<rparr> else tj)"

definition event_name :: "traj_env \<Rightarrow> pydict \<Rightarrow> string" where
  "event_name en payload = py_str (tj_repr en) (py_or (dget payload ''name'') (PStr []))"

definition event_suffix :: "string \<Rightarrow> string \<Rightarrow> string" where
  "event_suffix ev name = last_part (if first_part ev = ''step'' then name else ev)"

text \<open>Whether the event opens or closes its call.\<close>

definition is_boundary :: "string \<Rightarrow> string \<Rightarrow> string option \<Rightarrow> trajectory \<Rightarrow> bool" where
  "is_boundary ev name call tj =
     (let category = first_part ev;
          suffix = event_suffix ev name
      in category \<in> call_kinds \<and> ev \<noteq> ''model.recovered''
         \<and> (case map_of (call_categories tj) (opt_str call) of None \<Rightarrow> True | Some k \<Rightarrow> k = [] \<or> k = category)
         \<and> (category = ''step'' \<longrightarrow>
              (case map_of (call_names tj) (opt_str call) of None \<Rightarrow> True
               | Some n \<Rightarrow> (if suffix \<in> start_suffixes \<union> end_suffixes then front_part name else name) = n))
         \<and> (opt_str call = run_call tj \<longrightarrow> category = ''run''))"

definition starts_call :: "string \<Rightarrow> string \<Rightarrow> bool" where
  "starts_call ev name = (event_suffix ev name \<in> start_suffixes \<or> name \<in> agent_starts)"

definition ends_call :: "string \<Rightarrow> string \<Rightarrow> bool" where
  "ends_call ev name = (event_suffix ev name \<in> end_suffixes)"

text \<open>The open and closed calls after the event, and its diagnostics.\<close>

definition track_call :: "string \<Rightarrow> string \<Rightarrow> string option \<Rightarrow> trajectory \<Rightarrow> trajectory \<times> string list" where
  "track_call ev name call tj =
     (if \<not> given call \<or> \<not> is_boundary ev name call tj then (tj, [])
      else let c = the call
      in if c \<in> closed_call_ids tj then (tj, [''late_event''])
         else if starts_call ev name
         then (tj\<lparr>open_call_ids := insert c (open_call_ids tj),
                  call_categories := AList.update c (first_part ev) (call_categories tj),
                  call_names := AList.update c
                    (if event_suffix ev name \<in> start_suffixes then front_part name else name) (call_names tj)\<rparr>, [])
         else if ends_call ev name
         then (tj\<lparr>open_call_ids := open_call_ids tj - {c}, open_span_ids := open_span_ids tj - {c},
                  closed_call_ids := insert c (closed_call_ids tj)\<rparr>,
               if c \<in> open_call_ids tj then [] else [''missing_start''])
         else (tj, []))"

definition payload_diagnostics :: "pydict \<Rightarrow> string list" where
  "payload_diagnostics payload =
     (case dget payload ''diagnostics'' of PList xs \<Rightarrow> List.map_filter str_of xs | _ \<Rightarrow> [])"

definition shows_degradation :: "string \<Rightarrow> string \<Rightarrow> pydict \<Rightarrow> bool" where
  "shows_degradation ev name payload =
     (truthy (dget payload ''fallback_reason'') \<or> dget payload ''ok'' = PBool False
      \<or> event_suffix ev name \<in> {''failed'', ''interrupted''})"

definition snapshot_dict :: "span_context \<Rightarrow> trajectory \<Rightarrow> pydict" where
  "snapshot_dict cx tj =
     [(''trace_schema_version'', PInt TRACE_SCHEMA_VERSION),
      (''last_trace_seq'', PInt (tj_sequence tj)),
      (''current_attempt'', PInt (tj_attempt tj)),
      (''open_call_ids'', PList (map PStr (sorted_list_of_set (open_call_ids tj)))),
      (''open_span_ids'', PList (map PStr (sorted_list_of_set (open_span_ids tj)))),
      (''parent_call_map'', PDict (map (\<lambda>(k, v). (k, PStr v)) (sort_key fst (parent_call_map tj)))),
      (''span_stack'', PList (map PStr (spans cx))),
      (''call_categories'', PDict (map (\<lambda>(k, v). (k, PStr v)) (call_categories tj))),
      (''call_names'', PDict (map (\<lambda>(k, v). (k, PStr v)) (call_names tj)))]"

text \<open>An optional field is left out when it is \<open>None\<close> or empty; \<open>turn\<close> and \<open>step\<close> also unless positive.\<close>

definition text_field :: "string \<Rightarrow> string option \<Rightarrow> pydict" where
  "text_field k v = (if given v then [(k, PStr (the v))] else [])"

definition number_field :: "string \<Rightarrow> py \<Rightarrow> pydict" where
  "number_field k v = (case v of PInt i \<Rightarrow> if i < 1 then [] else [(k, PInt i)] | _ \<Rightarrow> [])"

record event_args =
  ea_checkpoint :: "string option"
  ea_turn :: py
  ea_step :: py
  ea_call :: "string option"
  ea_parent :: "string option"

definition no_args :: event_args where
  "no_args = \<lparr>ea_checkpoint = None, ea_turn = PNone, ea_step = PNone, ea_call = None, ea_parent = None\<rparr>"

definition build_event ::
  "traj_env \<Rightarrow> string \<Rightarrow> pydict \<Rightarrow> event_args \<Rightarrow> string option \<Rightarrow> trajectory \<Rightarrow> pydict" where
  "build_event en ev payload ea parent tj =
     [(''event_id'', PStr (uuid_at en (tj_drawn tj))), (''sequence'', PInt (tj_sequence tj)),
      (''attempt'', PInt (tj_attempt tj)), (''event_type'', PStr ev),
      (''timestamp'', PStr (time_at en (tj_drawn tj))), (''payload'', PDict (json_value en payload))]
     @ text_field ''checkpoint_id'' (ea_checkpoint ea) @ number_field ''turn'' (ea_turn ea)
     @ number_field ''step'' (ea_step ea) @ text_field ''call_id'' (ea_call ea)
     @ text_field ''parent_call_id'' parent"

definition record_event ::
  "traj_env \<Rightarrow> span_context \<Rightarrow> string \<Rightarrow> pydict option \<Rightarrow> event_args \<Rightarrow> trajectory \<Rightarrow> trajectory" where
  "record_event en cx ev payload_opt ea tj =
     (let payload = (case payload_opt of None \<Rightarrow> [] | Some d \<Rightarrow> d);
          (parent, mismatch) = resolve_parent cx (ea_call ea) (ea_parent ea) tj;
          tj1 = bind_parent (ea_call ea) parent tj;
          name = event_name en payload;
          (tj2, tracked) = track_call ev name (ea_call ea) tj1;
          after = (if tj_finished tj then [''after_run_finished''] else []);
          diagnostics = payload_diagnostics payload @ mismatch @ after @ tracked;
          payload' = (if diagnostics = [] then payload
                      else AList.update ''diagnostics''
                             (PList (map PStr (sorted_list_of_set (set diagnostics)))) payload);
          tj3 = tj2\<lparr>tj_degraded := tj_degraded tj2 \<or> shows_degradation ev name payload \<or> diagnostics \<noteq> [],
                    tj_finished := tj_finished tj2 \<or> (first_part ev = ''run'' \<and> ends_call ev name),
                    tj_sequence := tj_sequence tj2 + 1\<rparr>;
          event = build_event en ev payload' ea parent tj3;
          tj4 = tj3\<lparr>tj_drawn := Suc (tj_drawn tj3), tj_emitted := tj_emitted tj3 @ [event]\<rparr>
      in if tj_persists tj4 \<and> ''after_run_finished'' \<notin> set diagnostics
         then tj4\<lparr>tj_saved := tj_saved tj4 @ [PDict (snapshot_dict cx tj4)]\<rparr> else tj4)"

section \<open>Calls\<close>

definition start_call ::
  "traj_env \<Rightarrow> span_context \<Rightarrow> string \<Rightarrow> string \<Rightarrow> pydict option \<Rightarrow> event_args \<Rightarrow> trajectory
     \<Rightarrow> string \<times> trajectory" where
  "start_call en cx category name payload ea tj =
     (let (c, tj0) = (if given (ea_call ea) then (the (ea_call ea), tj)
                      else (hex_at en (tj_drawn tj), tj\<lparr>tj_drawn := Suc (tj_drawn tj)\<rparr>));
          parent = (case ea_parent ea of Some p \<Rightarrow> p
            | None \<Rightarrow> (case map_of (parent_call_map tj0) c of Some p \<Rightarrow> p | None \<Rightarrow> current_span cx tj0));
          tj1 = tj0\<lparr>open_call_ids := insert c (open_call_ids tj0),
                    open_span_ids := (if category \<in> {''tool'', ''subtool''}
                      then insert c (open_span_ids tj0) else open_span_ids tj0),
                    parent_call_map := (if parent \<noteq> [] then AList.update c parent (parent_call_map tj0)
                      else parent_call_map tj0),
                    call_categories := AList.update c category (call_categories tj0)\<rparr>;
          detail = setdefault_str ''name'' name (case payload of None \<Rightarrow> [] | Some d \<Rightarrow> d)
      in (c, record_event en cx (category @ ''.started'') (Some detail)
               (ea\<lparr>ea_checkpoint := None, ea_call := Some c, ea_parent := Some parent\<rparr>) tj1))"

definition finish_call ::
  "traj_env \<Rightarrow> span_context \<Rightarrow> string \<Rightarrow> string \<Rightarrow> pydict option \<Rightarrow> event_args \<Rightarrow> trajectory \<Rightarrow> trajectory" where
  "finish_call en cx cid status payload ea tj =
     (let category = (case map_of (call_categories tj) cid of None \<Rightarrow> ''tool'' | Some k \<Rightarrow> k)
      in record_event en cx (category @ CHR ''.'' # status) payload
           (ea\<lparr>ea_checkpoint := None, ea_call := Some cid, ea_parent := map_of (parent_call_map tj) cid\<rparr>) tj)"

definition merge_resume_state :: "trace_state \<Rightarrow> trajectory \<Rightarrow> trajectory" where
  "merge_resume_state ts tj =
     tj\<lparr>tj_sequence := max (tj_sequence tj) (ts_last_seq ts),
        tj_attempt := max (tj_attempt tj) (ts_attempt ts),
        open_call_ids := open_call_ids tj \<union> set (ts_open_calls ts),
        open_span_ids := open_span_ids tj \<union> set (ts_open_spans ts),
        call_categories := AList.updates (map fst (ts_categories ts)) (map snd (ts_categories ts)) (call_categories tj),
        call_names := AList.updates (map fst (ts_names ts)) (map snd (ts_names ts)) (call_names tj),
        parent_call_map := AList.updates (map fst (ts_parents ts)) (map snd (ts_parents ts)) (parent_call_map tj)\<rparr>"

text \<open>The kind of an open call, as \<open>interrupt_open_calls\<close> guesses it when none is registered.\<close>

definition interrupted_kind :: "trajectory \<Rightarrow> string \<Rightarrow> string" where
  "interrupted_kind tj c =
     (case map_of (call_categories tj) c of Some k \<Rightarrow> k
      | None \<Rightarrow> if c \<in> open_span_ids tj then ''tool'' else ''model'')"

definition interrupt_call :: "traj_env \<Rightarrow> span_context \<Rightarrow> string \<Rightarrow> string \<Rightarrow> trajectory \<Rightarrow> trajectory" where
  "interrupt_call en cx reason c tj =
     (if c = run_call tj then tj
      else let category = interrupted_kind tj c;
               payload = [(''reason'', PStr reason), (''category'', PStr category)]
                 @ (if category = ''step''
                    then [(''name'', PStr ((case map_of (call_names tj) c of None \<Rightarrow> c | Some n \<Rightarrow> n) @ ''.interrupted''))]
                    else [])
      in record_event en cx (if category = ''step'' then ''step.event'' else category @ ''.interrupted'')
           (Some payload) (no_args\<lparr>ea_call := Some c, ea_parent := map_of (parent_call_map tj) c\<rparr>) tj)"

definition interrupt_open_calls :: "traj_env \<Rightarrow> span_context \<Rightarrow> string \<Rightarrow> trajectory \<Rightarrow> trajectory" where
  "interrupt_open_calls en cx reason tj =
     foldl (\<lambda>t c. interrupt_call en cx reason c t) tj (sorted_list_of_set (open_call_ids tj))"

section \<open>A run of the trajectory\<close>

text \<open>The operations on the shared fields, each called in the span context of some task.\<close>

datatype traj_op =
    Record string "pydict option" event_args
  | StartCall string string "pydict option" event_args
  | FinishCall string string "pydict option" event_args
  | BindParent "string option" "string option"
  | InterruptOpen string

fun traj_step :: "traj_env \<Rightarrow> trajectory \<Rightarrow> span_context \<times> traj_op \<Rightarrow> trajectory" where
  "traj_step en tj (cx, Record ev p ea) = record_event en cx ev p ea tj"
| "traj_step en tj (cx, StartCall k n p ea) = snd (start_call en cx k n p ea tj)"
| "traj_step en tj (cx, FinishCall c s p ea) = finish_call en cx c s p ea tj"
| "traj_step en tj (cx, BindParent c p) = bind_parent c p tj"
| "traj_step en tj (cx, InterruptOpen r) = interrupt_open_calls en cx r tj"

end
