(* ===== verification/Trace_Log.thy ===== *)
theory Trace_Log
  imports Run_Trace
begin

text \<open>
  Properties of the append-only trajectory log of \<open>Run_Trace\<close>: every run's rows stay numbered
  1 to n with distinct identifiers, nothing stored is altered, and what was accepted is
  absorbed, so the node may redeliver it at any time.
\<close>

section \<open>The invariant of a run's rows\<close>

definition rows_ok :: "trace_event list \<Rightarrow> bool" where
  "rows_ok rows \<longleftrightarrow> map te_sequence rows = [1 .. int (length rows)] \<and> distinct (map te_event_id rows)"

lemma rows_ok_Nil [simp]: "rows_ok []"
  by (simp add: rows_ok_def)

lemma row_sequence: "rows_ok rows \<Longrightarrow> i < length rows \<Longrightarrow> te_sequence (rows ! i) = int i + 1"
  unfolding rows_ok_def by (metis (no_types, lifting) add.commute nth_map nth_upto of_nat_less_iff zless_imp_add1_zle)

lemma row_eq_by_sequence:
  assumes "rows_ok rows" "i < length rows" "j < length rows" "te_sequence (rows ! i) = te_sequence (rows ! j)"
  shows "i = j"
  using assms by (simp add: row_sequence)

lemma row_eq_by_id:
  assumes "rows_ok rows" "i < length rows" "j < length rows" "te_event_id (rows ! i) = te_event_id (rows ! j)"
  shows "i = j"
  using assms unfolding rows_ok_def by (metis length_map nth_eq_iff_index_eq nth_map)

lemma fold_max_le: "(m :: int) \<le> fold max xs m"
  by (induction xs arbitrary: m) (auto intro: order_trans [OF max.cobounded2])

lemma fold_max_upto: "fold max [1 .. int n] (0 :: int) = int n"
proof (induction n)
  case (Suc n)
  then show ?case by (simp add: upto_rec2 [of 1 "1 + int n"])
qed simp

lemma last_persisted_ok: "rows_ok rows \<Longrightarrow> last_persisted rows = int (length rows)"
  by (simp add: rows_ok_def last_persisted_def fold_max_upto)

section \<open>Looking rows up\<close>

lemma row_where_None: "row_where p rows = None \<longleftrightarrow> (\<forall>e \<in> set rows. \<not> p e)"
proof -
  have "row_where p rows = None \<longleftrightarrow> filter (\<lambda>(i, e). p e) (enumerate 0 rows) = []"
    by (simp add: row_where_def split: list.split)
  also have "\<dots> \<longleftrightarrow> (\<forall>x \<in> set (enumerate 0 rows). \<not> p (snd x))"
    by (simp add: filter_empty_conv case_prod_beta)
  also have "\<dots> \<longleftrightarrow> (\<forall>e \<in> snd ` set (enumerate 0 rows). \<not> p e)" by simp
  also have "snd ` set (enumerate 0 rows) = set rows" by (metis list.set_map map_snd_enumerate)
  finally show ?thesis .
qed

lemma row_where_Some:
  assumes "row_where p rows = Some (i, a)"
  shows "i < length rows \<and> a = rows ! i \<and> p a"
proof -
  let ?xs = "filter (\<lambda>(i, e). p e) (enumerate 0 rows)"
  have "?xs \<noteq> []" "last ?xs = (i, a)"
    using assms by (auto simp: row_where_def split: list.splits)
  then have "(i, a) \<in> set ?xs" by (metis last_in_set)
  then show ?thesis by (auto simp: in_set_enumerate_eq)
qed

lemma row_where_unique:
  assumes "i < length rows" "p (rows ! i)" and uniq: "\<And>j. j < length rows \<Longrightarrow> p (rows ! j) \<Longrightarrow> j = i"
  shows "row_where p rows = Some (i, rows ! i)"
proof (cases "row_where p rows")
  case None
  with assms(1,2) show ?thesis by (simp add: row_where_None)
next
  case (Some r)
  obtain j a where r: "r = (j, a)" by (cases r)
  from row_where_Some [of p rows j a] Some r have "j < length rows" "a = rows ! j" "p a" by auto
  with uniq have "j = i" by blast
  with Some r \<open>a = rows ! j\<close> show ?thesis by simp
qed

section \<open>Equality of a stored payload with itself\<close>

lemma those_Some_all: "those (map f xs) \<noteq> None \<Longrightarrow> x \<in> set xs \<Longrightarrow> f x \<noteq> None"
  by (induction xs) (auto split: option.splits)

lemma dict_sub_all:
  "dict_sub d e \<longleftrightarrow> (\<forall>(k, x) \<in> set d. case map_of e k of None \<Rightarrow> False | Some y \<Rightarrow> py_eq x y)"
  by (induction d) auto

lemma list_eq_all: "list_eq xs ys \<longleftrightarrow> list_all2 py_eq xs ys"
  by (induction xs arbitrary: ys) (auto simp: list_all2_Cons1 split: list.splits)

lemma py_eq_refl: "json_wf v \<Longrightarrow> json_size ft v \<noteq> None \<Longrightarrow> py_eq v v"
proof (induction v)
  case (PFloat f)
  then show ?case by (cases f) (auto simp: num_eq_def)
next
  case (PList xs)
  have "py_eq x x" if x: "x \<in> set xs" for x
  proof (rule PList.IH [OF x])
    show "json_wf x" using PList.prems(1) x by simp
    show "json_size ft x \<noteq> None" using those_Some_all [of "json_size ft" xs x] PList.prems(2) x by auto
  qed
  then show ?case by (simp add: list_eq_all list.rel_refl_strong)
next
  case (PDict d)
  let ?size = "\<lambda>(k, v). map_option (\<lambda>n. json_str_size k + 1 + n) (json_size ft v)"
  have sizes: "those (map ?size d) \<noteq> None"
    using PDict.prems(2) by (simp only: json_size.simps option.map_disc_iff not_False_eq_True)
  have "py_eq x y" if kx: "(k, x) \<in> set d" and y: "map_of d k = Some y" for k x y
  proof -
    have "x = y" using PDict.prems(1) kx y by simp
    moreover have "py_eq x x"
    proof (rule PDict.IH [OF kx])
      show "x \<in> Basic_BNFs.snds (k, x)" by simp
      show "json_wf x" using PDict.prems(1) kx by auto
      show "json_size ft x \<noteq> None"
        using those_Some_all [OF sizes kx] by simp
    qed
    ultimately show ?thesis by simp
  qed
  moreover have "map_of d k \<noteq> None" if "(k, x) \<in> set d" for k x
    using that by (simp add: weak_map_of_SomeI)
  ultimately show ?case by (fastforce simp: dict_sub_all split: option.split)
qed (auto simp: num_eq_def)

section \<open>One append\<close>

definition stored :: "trace_event list \<Rightarrow> trace_event \<Rightarrow> bool" where
  "stored rows x \<longleftrightarrow> (\<exists>i < length rows. event_matches (rows ! i) x)"

lemma stored_lookup:
  assumes "rows_ok rows" "stored rows x"
  obtains i where "row_where (\<lambda>e. te_event_id e = te_event_id x) rows = Some (i, rows ! i)"
    "row_where (\<lambda>e. te_sequence e = te_sequence x) rows = Some (i, rows ! i)"
    "event_matches (rows ! i) x"
proof -
  from assms(2) obtain i where i: "i < length rows" and m: "event_matches (rows ! i) x"
    unfolding stored_def by blast
  have same: "te_event_id (rows ! i) = te_event_id x" "te_sequence (rows ! i) = te_sequence x"
    using m by (simp_all add: event_matches_def)
  show thesis
  proof (rule that [OF _ _ m])
    show "row_where (\<lambda>e. te_event_id e = te_event_id x) rows = Some (i, rows ! i)"
      by (rule row_where_unique [OF i])
        (use same row_eq_by_id [OF assms(1) _ i] in simp_all)
    show "row_where (\<lambda>e. te_sequence e = te_sequence x) rows = Some (i, rows ! i)"
      by (rule row_where_unique [OF i])
        (use same row_eq_by_sequence [OF assms(1) _ i] in simp_all)
  qed
qed

lemma stored_append: "stored rows x \<Longrightarrow> stored (rows @ rest) x"
  by (auto simp: stored_def nth_append intro: trans_less_add1)

lemma split_batch_pending:
  assumes "split_batch rows items = Inr (d, ps)"
  shows "ps = filter (\<lambda>x. \<not> stored rows x) items
       \<and> (\<forall>x \<in> set ps. te_event_id x \<notin> te_event_id ` set rows)
       \<and> d + length ps = length items"
  using assms
proof (induction items arbitrary: d ps)
  case Nil
  then show ?case by simp
next
  case (Cons x xs)
  let ?by_id = "row_where (\<lambda>e. te_event_id e = te_event_id x) rows"
  let ?by_seq = "row_where (\<lambda>e. te_sequence e = te_sequence x) rows"
  show ?case
  proof (cases "?by_id = None \<and> ?by_seq = None")
    case True
    with Cons.prems obtain ps' where rest: "split_batch rows xs = Inr (d, ps')" "ps = x # ps'"
      by (auto simp: rbind_Inr_iff)
    from True have fresh: "te_event_id x \<notin> te_event_id ` set rows" by (force simp: row_where_None)
    then have "\<not> stored rows x" by (auto simp: stored_def event_matches_def image_def) (metis nth_mem)
    with Cons.IH [OF rest(1)] rest(2) fresh show ?thesis by auto
  next
    case False
    with Cons.prems obtain i j a b d' where hit: "?by_id = Some (i, a)" "?by_seq = Some (j, b)"
        "event_matches a x" and rest: "split_batch rows xs = Inr (d', ps)" "d = Suc d'" and ij: "i = j"
      by (auto simp: rbind_Inr_iff conflict_def invalid_def split: option.splits if_splits)
    from hit(1,3) have "stored rows x" by (auto dest: row_where_Some simp: stored_def)
    with Cons.IH [OF rest(1)] rest(2) show ?thesis by auto
  qed
qed

lemma upto_append: "0 \<le> n \<Longrightarrow> 0 \<le> m \<Longrightarrow> [1 .. n] @ [n + 1 .. n + m] = [1 .. n + (m :: int)]"
  by (cases "n = 0") (simp_all add: upto_split2 [of 1 n "n + m"])

lemma image_disjoint: "\<forall>x \<in> A. f x \<notin> B \<Longrightarrow> B \<inter> f ` A = {}"
  by blast

lemma rows_ok_append:
  assumes "rows_ok rows" "map te_sequence ps = [int (length rows) + 1 .. int (length rows) + int (length ps)]"
    "distinct (map te_event_id ps)" "\<forall>x \<in> set ps. te_event_id x \<notin> te_event_id ` set rows"
  shows "rows_ok (rows @ ps)"
proof -
  have old: "map te_sequence rows = [1 .. int (length rows)]" "distinct (map te_event_id rows)"
    using assms(1) by (simp_all only: rows_ok_def)
  have "map te_sequence (rows @ ps) = [1 .. int (length rows) + int (length ps)]"
    by (simp only: map_append old(1) assms(2) upto_append [OF of_nat_0_le_iff of_nat_0_le_iff])
  moreover have "te_event_id ` set rows \<inter> te_event_id ` set ps = {}"
    using assms(4) by (rule image_disjoint)
  then have "distinct (map te_event_id (rows @ ps))"
    by (simp only: map_append distinct_append old(2) assms(3) set_map simp_thms)
  ultimately show ?thesis by (simp only: rows_ok_def length_append of_nat_add simp_thms)
qed

lemma append_items_ok:
  assumes "rows_ok rows" "distinct (map te_event_id items)"
    and "append_items rows items = Inr (res, rows')"
  shows "rows_ok rows' \<and> prefix rows rows'"
proof -
  from assms(3) obtain d ps where split: "split_batch rows items = Inr (d, ps)"
    and seqs: "map te_sequence ps = [last_persisted rows + 1 .. last_persisted rows + int (length ps)]"
    and rows': "rows' = rows @ ps"
    by (auto simp: append_items_def rbind_Inr_iff invalid_def split: if_splits)
  note pending = split_batch_pending [OF split]
  have "distinct (map te_event_id ps)"
    using pending assms(2) by (auto simp: distinct_map intro: inj_on_subset)
  then show ?thesis
    using rows_ok_append [OF assms(1)] pending seqs rows' last_persisted_ok [OF assms(1)] by simp
qed

lemma append_items_stored:
  assumes "append_items rows items = Inr (res, rows')"
    and "\<forall>x \<in> set items. event_matches x x"
  shows "\<forall>x \<in> set items. stored rows' x"
proof -
  from assms(1) obtain d ps where split: "split_batch rows items = Inr (d, ps)" and rows': "rows' = rows @ ps"
    by (auto simp: append_items_def rbind_Inr_iff invalid_def split: if_splits)
  have "stored rows' x" if x: "x \<in> set items" for x
  proof (cases "stored rows x")
    case True
    then show ?thesis by (simp add: rows' stored_append)
  next
    case False
    then have "x \<in> set ps" using split_batch_pending [OF split] x by simp
    then obtain i where "i < length ps" "ps ! i = x" by (auto simp: in_set_conv_nth)
    then show ?thesis
      using assms(2) x by (auto simp: rows' stored_def nth_append intro!: exI [of _ "length rows + i"])
  qed
  then show ?thesis by blast
qed

lemma append_items_absorbed:
  assumes "rows_ok rows" "\<forall>x \<in> set items. stored rows x"
  shows "append_items rows items
       = Inr (\<lparr>inserted_count = 0, duplicate_count = length items,
               last_sequence = fold max (map te_sequence items) 0\<rparr>, rows)"
proof -
  have "split_batch rows items = Inr (length items, [])"
    using assms(2)
  proof (induction items)
    case (Cons x xs)
    obtain i where "row_where (\<lambda>e. te_event_id e = te_event_id x) rows = Some (i, rows ! i)"
      "row_where (\<lambda>e. te_sequence e = te_sequence x) rows = Some (i, rows ! i)" "event_matches (rows ! i) x"
      using stored_lookup [OF assms(1)] Cons.prems by (metis list.set_intros(1))
    with Cons show ?case by simp
  qed simp
  then show ?thesis by (simp add: append_items_def)
qed

section \<open>The log as a whole\<close>

type_synonym trace_message = "nat \<times> nat \<times> py"

definition deliver_trace :: "trace_env \<Rightarrow> db \<Rightarrow> trace_store \<Rightarrow> trace_message \<Rightarrow> trace_store" where
  "deliver_trace te db st m =
     (case m of (k, n, events) \<Rightarrow>
        (case append_run_trace_events te k n events db st of Inl _ \<Rightarrow> st | Inr (_, st') \<Rightarrow> st'))"

definition log_ok :: "trace_store \<Rightarrow> bool" where
  "log_ok st \<longleftrightarrow> (\<forall>k. rows_ok (st k))"

definition absorbed_batch :: "trace_env \<Rightarrow> db \<Rightarrow> trace_store \<Rightarrow> trace_message \<Rightarrow> bool" where
  "absorbed_batch te db st m =
     (case m of (k, n, events) \<Rightarrow>
        log_ok st \<and> (\<exists>items r. checked_batch te events = Inr items \<and> runs db k = Some r \<and> run_node r = Some n
          \<and> (\<forall>x \<in> set items. stored (st k) x)))"

lemma checked_batch_ids: "checked_batch te events = Inr items \<Longrightarrow> distinct (map te_event_id items)"
  by (auto simp: checked_batch_def rbind_Inr_iff invalid_def Let_def split: py.splits list.splits if_splits)

lemma batch_appended:
  assumes "append_run_trace_events te k n events db st = Inr (res, st')"
  obtains items r rows where "checked_batch te events = Inr items" "runs db k = Some r" "run_node r = Some n"
    "append_items (st k) items = Inr (res, rows)" "st' = st(k := rows)"
  using assms
  by (auto simp: append_run_trace_events_def rbind_Inr_iff invalid_def split: option.splits if_splits)

lemma append_keeps_log:
  assumes "log_ok st" "append_run_trace_events te k n events db st = Inr (res, st')"
  shows "log_ok st' \<and> (\<forall>j. prefix (st j) (st' j))"
proof -
  from assms(2) obtain items rows where items: "checked_batch te events = Inr items"
    and app: "append_items (st k) items = Inr (res, rows)" and st': "st' = st(k := rows)"
    by (rule batch_appended)
  have "rows_ok rows \<and> prefix (st k) rows"
    using append_items_ok [OF _ checked_batch_ids [OF items] app] assms(1) by (simp add: log_ok_def)
  with assms(1) show ?thesis by (simp add: st' log_ok_def)
qed

lemma deliver_keeps_log: "log_ok st \<Longrightarrow> log_ok (deliver_trace te db st m) \<and> prefix (st j) (deliver_trace te db st m j)"
  by (auto simp: deliver_trace_def dest: append_keeps_log split: sum.split prod.split)

lemma stored_prefix: "prefix rows rows' \<Longrightarrow> stored rows x \<Longrightarrow> stored rows' x"
  by (auto simp: prefix_def stored_append)

lemma absorbed_append:
  assumes "log_ok st" "checked_batch te events = Inr items" "runs db k = Some r" "run_node r = Some n"
    "\<forall>x \<in> set items. stored (st k) x"
  shows "append_run_trace_events te k n events db st
       = Inr (\<lparr>inserted_count = 0, duplicate_count = length items,
               last_sequence = fold max (map te_sequence items) 0\<rparr>, st)"
  using assms append_items_absorbed [of "st k" items] by (simp add: append_run_trace_events_def log_ok_def)

interpretation trace_rows: step_invariant "deliver_trace te db" log_ok for te db
  by unfold_locales (simp add: deliver_keeps_log)

interpretation trace_log: absorbing_log "deliver_trace te db" "absorbed_batch te db" for te db
proof
  fix st m
  assume "absorbed_batch te db st m"
  then show "deliver_trace te db st m = st"
    by (auto simp: absorbed_batch_def deliver_trace_def absorbed_append)
next
  fix st m m'
  assume "absorbed_batch te db st m"
  then show "absorbed_batch te db (deliver_trace te db st m') m"
    using deliver_keeps_log [of st te db m']
    by (fastforce simp: absorbed_batch_def intro: stored_prefix)
qed

lemma normalized_matches:
  assumes "json_wf v" "normalize_event te (i, v) = Inr (x, n)"
  shows "event_matches x x"
proof -
  obtain item where v: "v = PDict item" using assms(2) by (cases v) (simp_all add: normalize_event_def invalid_def)
  let ?pl = "dget_default item ''payload'' (PDict [])"
  from assms(2) obtain n' where pl: "event_payload te i ?pl = Inr (te_payload x, n')"
    by (auto simp: v normalize_event_def rbind_Inr_iff invalid_def split: option.splits)
  then have eq: "?pl = PDict (te_payload x)" and size: "json_size (float_text te) (PDict (te_payload x)) \<noteq> None"
    by (auto simp: event_payload_def invalid_def split: py.splits option.splits if_splits)
  have "json_wf ?pl"
    using assms(1) by (force simp: v dget_default_def split: option.split dest: map_of_SomeD)
  then show ?thesis using py_eq_refl [OF _ size] by (simp add: eq event_matches_def)
qed

lemma map_res_set: "map_res f xs = Inr ys \<Longrightarrow> y \<in> set ys \<Longrightarrow> \<exists>x \<in> set xs. f x = Inr y"
  by (induction xs arbitrary: ys) (auto simp: rbind_Inr_iff)

lemma checked_matches:
  assumes "json_wf events" "checked_batch te events = Inr items" "x \<in> set items"
  shows "event_matches x x"
proof -
  obtain vs where vs: "events = PList vs"
    using assms(2) by (cases events) (simp_all add: checked_batch_def invalid_def)
  with assms(2) obtain ns where ns: "map_res (normalize_event te) (enumerate 0 vs) = Inr ns" "items = map fst ns"
    by (auto simp: checked_batch_def rbind_Inr_iff invalid_def Let_def split: list.splits if_splits)
  then obtain n where "(x, n) \<in> set ns" using assms(3) by auto
  from map_res_set [OF ns(1) this] obtain i v where "(i, v) \<in> set (enumerate 0 vs)" "normalize_event te (i, v) = Inr (x, n)"
    by auto
  moreover from this(1) have "json_wf v" using assms(1) vs by (auto simp: in_set_enumerate_eq)
  ultimately show ?thesis using normalized_matches by blast
qed

lemma accepted_is_absorbed:
  assumes "log_ok st" "json_wf events" "append_run_trace_events te k n events db st = Inr (res, st')"
  shows "absorbed_batch te db st' (k, n, events)"
proof -
  from assms(3) obtain items r rows where a: "checked_batch te events = Inr items" "runs db k = Some r"
    "run_node r = Some n" "append_items (st k) items = Inr (res, rows)" "st' = st(k := rows)"
    by (rule batch_appended)
  then show ?thesis
    using append_keeps_log [OF assms(1,3)] append_items_stored [OF a(4)] checked_matches [OF assms(2) a(1)]
    by (simp add: absorbed_batch_def)
qed

section \<open>What an append accepts\<close>

text \<open>An event no stored row shares its identifier or its sequence with.\<close>

definition unknown_event :: "trace_event list \<Rightarrow> trace_event \<Rightarrow> bool" where
  "unknown_event rows x \<longleftrightarrow>
     (\<forall>e \<in> set rows. te_event_id e \<noteq> te_event_id x \<and> te_sequence e \<noteq> te_sequence x)"

text \<open>The contract: the known events repeat their rows, the others continue the run's numbering.\<close>

definition append_spec :: "trace_event list \<Rightarrow> trace_event list \<Rightarrow> trace_event list option" where
  "append_spec rows items =
     (let new = filter (unknown_event rows) items
      in if (\<forall>x \<in> set items. unknown_event rows x \<or> stored rows x)
            \<and> map te_sequence new = [int (length rows) + 1 .. int (length rows) + int (length new)]
         then Some (rows @ new) else None)"

lemma split_batch_iff:
  assumes "rows_ok rows"
  shows "split_batch rows items
       = (if \<forall>x \<in> set items. unknown_event rows x \<or> stored rows x
          then Inr (length (filter (stored rows) items), filter (unknown_event rows) items)
          else conflict)"
proof (induction items)
  case (Cons x xs)
  let ?by_id = "row_where (\<lambda>e. te_event_id e = te_event_id x) rows"
  let ?by_seq = "row_where (\<lambda>e. te_sequence e = te_sequence x) rows"
  consider (unknown) "unknown_event rows x" "\<not> stored rows x" "?by_id = None" "?by_seq = None"
    | (stored) "stored rows x" "\<not> unknown_event rows x"
    | (clash) "\<not> stored rows x" "\<not> unknown_event rows x"
  proof -
    have "unknown_event rows x \<Longrightarrow> \<not> stored rows x"
      by (auto simp: unknown_event_def stored_def event_matches_def)
    moreover have "unknown_event rows x \<Longrightarrow> ?by_id = None \<and> ?by_seq = None"
      by (auto simp: unknown_event_def row_where_None)
    ultimately show thesis using that by blast
  qed
  then show ?case
  proof cases
    case unknown
    then show ?thesis by (simp add: Cons.IH conflict_def invalid_def)
  next
    case stored
    obtain i where "?by_id = Some (i, rows ! i)" "?by_seq = Some (i, rows ! i)" "event_matches (rows ! i) x"
      using stored_lookup [OF assms stored(1)] by metis
    with stored show ?thesis by (simp add: Cons.IH conflict_def invalid_def)
  next
    case clash
    have "split_batch rows (x # xs) = conflict"
    proof (cases "?by_id = None \<and> ?by_seq = None")
      case True
      with clash(2) show ?thesis by (auto simp: unknown_event_def row_where_None)
    next
      case False
      then show ?thesis
        using clash(1)
        by (cases ?by_id; cases ?by_seq) (auto simp: stored_def simp del: not_Some_eq dest: row_where_Some)
    qed
    with clash show ?thesis by auto
  qed
qed simp

lemma append_items_spec:
  assumes "rows_ok rows"
  shows "append_spec rows items = (case append_items rows items of Inl _ \<Rightarrow> None | Inr (_, rows') \<Rightarrow> Some rows')"
proof -
  have cursor: "last_persisted rows = int (length rows)" using assms by (rule last_persisted_ok)
  show ?thesis
    unfolding append_spec_def append_items_def split_batch_iff [OF assms] cursor Let_def
    by (auto simp: conflict_def invalid_def)
qed

section \<open>Properties of the log\<close>

definition sample_event :: "char \<Rightarrow> int \<Rightarrow> py" where
  "sample_event c i = PDict
     [(''event_id'', PStr (''00000000-0000-0000-0000-00000000000'' @ [c])), (''sequence'', PInt i),
      (''event_type'', PStr ''model.started''), (''timestamp'', PStr ''2026-01-01T00:00:00Z''),
      (''payload'', PDict [(''name'', PStr ''run'')])]"

definition sample_trace_env :: trace_env where
  "sample_trace_env = \<lparr>parse_dt = (\<lambda>_. Inr (Some (0, True))), float_text = (\<lambda>_. ''1.0''), repr_text = (\<lambda>_. [])\<rparr>"

definition sample_row :: "int \<Rightarrow> trace_event" where
  "sample_row i = \<lparr>te_event_id = nat i, te_sequence = i, te_attempt = 1,
     te_type = ''model.started'', te_timestamp = 0, te_checkpoint = [], te_turn = None, te_step = None,
     te_call = [], te_parent_call = [], te_payload = [(''name'', PStr ''run'')]\<rparr>"

lemma sample_normalized:
  "normalize_event sample_trace_env (0, sample_event (CHR ''1'') 1) = Inr (sample_row 1, 14)"
  "normalize_event sample_trace_env (1, sample_event (CHR ''2'') 2) = Inr (sample_row 2, 14)"
  "normalize_event sample_trace_env (0, sample_event (CHR ''2'') 2) = Inr (sample_row 2, 14)"
  by (simp_all add: normalize_event_def sample_event_def sample_trace_env_def sample_row_def parse_uuid_def
      dec_int_def dec_digits.simps strip_braces_def parse_hex_def signed_def py_strip_def is_space_def hex_val_def
      lower_char_def positive_int_def dget_default_def event_kind_def event_type_ok_def event_type_char_def
      event_timestamp_def event_payload_def json_str_size_def json_char_size_def bracketed_def
      MAX_EVENT_PAYLOAD_BYTES_def optional_positive_int_def bounded_text_def Let_def)

definition sample_trace_db :: db where
  "sample_trace_db =
     \<lparr>run_ids = [1],
      runs = (\<lambda>k. if k = 1 then Some \<lparr>run_session = 0, run_source = SOURCE_USER, run_status = RUN_RUNNING,
         input_content = [], output_content = None, parent_run = None, run_node = Some 9, run_error = [],
         run_outcome = None, termination_detail = [], run_citations = PList [], run_planned_evidence = PDict [],
         run_created_at = 0, run_started_at = None, run_finished_at = None, last_activity_at = None,
         resume_by = None, run_updated_at = 0\<rparr> else None),
      executions = Map.empty, steps = [], files = [], nodes = Map.empty, sessions = Map.empty,
      trace_exports = [], next_uuid = 0, effects = []\<rparr>"

lemma sample_checked:
  "checked_batch sample_trace_env (PList [sample_event (CHR ''1'') 1]) = Inr [sample_row 1]"
  "checked_batch sample_trace_env (PList [sample_event (CHR ''1'') 1, sample_event (CHR ''2'') 2])
     = Inr [sample_row 1, sample_row 2]"
  "checked_batch sample_trace_env (PList [sample_event (CHR ''2'') 2]) = Inr [sample_row 2]"
  using sample_normalized
  by (simp_all add: checked_batch_def MAX_BATCH_EVENTS_def MAX_BATCH_BYTES_def Let_def sample_row_def)

lemma sample_appended:
  "append_run_trace_events sample_trace_env 1 9 (PList [sample_event (CHR ''1'') 1]) sample_trace_db (\<lambda>_. [])
     = Inr (\<lparr>inserted_count = 1, duplicate_count = 0, last_sequence = 1\<rparr>, (\<lambda>_. [])(1 := [sample_row 1]))"
  by (simp add: append_run_trace_events_def sample_checked sample_trace_db_def append_items_def
      row_where_def last_persisted_def sample_row_def)

text \<open>C30.
  The trajectory of every run stays gap-free and immutable: whatever frames the nodes deliver,
  in any order and any number of times, valid or not, the stored events of a run are numbered
  1, 2, ... without a gap and carry distinct identifiers, and no event that was stored once is
  changed or removed.
\<close>

theorem trace_is_gap_free:
  assumes "\<And>j. map te_sequence (st j) = [1 .. int (length (st j))] \<and> distinct (map te_event_id (st j))"
    and "st' = foldl (deliver_trace te db) st ms"
  shows "map te_sequence (st' k) = [1 .. int (length (st' k))] \<and> distinct (map te_event_id (st' k))
       \<and> prefix (st k) (st' k)"
proof -
  have ok: "log_ok st" using assms(1) by (simp add: log_ok_def rows_ok_def)
  have "log_ok (foldl (deliver_trace te db) st ms) \<and> prefix (st k) (foldl (deliver_trace te db) st ms k)"
    using ok
  proof (induction ms arbitrary: st)
    case (Cons m ms)
    have "log_ok (deliver_trace te db st m) \<and> prefix (st k) (deliver_trace te db st m k)"
      by (rule deliver_keeps_log [OF Cons.prems])
    with Cons.IH show ?case by (auto intro: prefix_order.trans)
  qed simp
  then show ?thesis by (simp add: assms(2) log_ok_def rows_ok_def)
qed

definition sample_log :: trace_store where
  "sample_log = foldl (deliver_trace sample_trace_env sample_trace_db) (\<lambda>_. [])
     [(1, 9, PList [sample_event (CHR ''1'') 1]), (1, 9, PNone)]"

theorem trace_is_gap_free_witness:
  "map te_sequence (sample_log 1) = [1 .. int (length (sample_log 1))] \<and> distinct (map te_event_id (sample_log 1))
     \<and> prefix [] (sample_log 1)"
  by (rule trace_is_gap_free [of "\<lambda>_. []", OF _ sample_log_def]) simp

text \<open>Delivery of trace frames is at least once and safe: once a batch has been accepted, the node
  may send it again at any later time, after whatever other frames; it is acknowledged with
  every event counted as a duplicate, the same last sequence number, and the log unchanged.
\<close>

lemma trace_redelivery:
  assumes "log_ok st" "json_wf events" "append_run_trace_events te k n events db st = Inr (res, st')"
  shows "\<exists>items. checked_batch te events = Inr items
       \<and> append_run_trace_events te k n events db (foldl (deliver_trace te db) st' ms)
         = Inr (\<lparr>inserted_count = 0, duplicate_count = length items, last_sequence = last_sequence res\<rparr>,
                foldl (deliver_trace te db) st' ms)"
proof -
  obtain items rows where items: "checked_batch te events = Inr items"
    and app: "append_items (st k) items = Inr (res, rows)"
    using assms(3) by (rule batch_appended)
  from app have res: "last_sequence res = fold max (map te_sequence items) 0"
    by (auto simp: append_items_def rbind_Inr_iff invalid_def split: if_splits)
  have "absorbed_batch te db (foldl (deliver_trace te db) st' ms) (k, n, events)"
    by (rule trace_log.absorbed_run [OF accepted_is_absorbed [OF assms]])
  with items show ?thesis by (auto simp: absorbed_batch_def res intro: absorbed_append)
qed

lemma trace_redelivery_sample:
  "\<exists>items. checked_batch sample_trace_env (PList [sample_event (CHR ''1'') 1]) = Inr items
     \<and> append_run_trace_events sample_trace_env 1 9 (PList [sample_event (CHR ''1'') 1]) sample_trace_db
         (foldl (deliver_trace sample_trace_env sample_trace_db) ((\<lambda>_. [])(1 := [sample_row 1]))
           [(1, 9, PList [sample_event (CHR ''1'') 1, sample_event (CHR ''2'') 2])])
       = Inr (\<lparr>inserted_count = 0, duplicate_count = length items, last_sequence = 1\<rparr>,
           foldl (deliver_trace sample_trace_env sample_trace_db) ((\<lambda>_. [])(1 := [sample_row 1]))
             [(1, 9, PList [sample_event (CHR ''1'') 1, sample_event (CHR ''2'') 2])])"
  by (rule trace_redelivery [OF _ _ sample_appended, unfolded append_result.simps])
    (simp_all add: log_ok_def sample_event_def)

text \<open>C31.
  The append refines its contract: on a consistent log it accepts a validated batch exactly when
  every event either repeats a stored row field by field or is unknown by identifier and by
  sequence number, and the unknown ones continue the run's numbering; it then stores exactly
  those, in order, and otherwise nothing.
\<close>

theorem append_refines_contract:
  assumes "rows_ok rows"
  shows "append_spec rows items = (case append_items rows items of Inl _ \<Rightarrow> None | Inr (_, rows') \<Rightarrow> Some rows')"
  using assms by (rule append_items_spec)

theorem append_refines_contract_witness:
  "append_spec [sample_row 1] [sample_row 1, sample_row 3]
     = (case append_items [sample_row 1] [sample_row 1, sample_row 3] of Inl _ \<Rightarrow> None | Inr (_, rows') \<Rightarrow> Some rows')"
  by (rule append_refines_contract) (simp add: rows_ok_def sample_row_def)

end
