(* ===== verification/Trajectory_Properties.thy ===== *)
theory Trajectory_Properties
  imports Trajectory Trace_Log
begin

text \<open>
  Properties of the node's trajectory: the numbering of its events, what a checkpoint carries
  over to a resumed run, what interrupting the open calls leaves behind, and the composition
  with the control plane's log.
\<close>

section \<open>What one record does\<close>

lemma bind_parent_frame [simp]:
  "tj_run (bind_parent c p tj) = tj_run tj" "tj_sequence (bind_parent c p tj) = tj_sequence tj"
  "tj_attempt (bind_parent c p tj) = tj_attempt tj" "open_call_ids (bind_parent c p tj) = open_call_ids tj"
  "open_span_ids (bind_parent c p tj) = open_span_ids tj" "closed_call_ids (bind_parent c p tj) = closed_call_ids tj"
  "call_categories (bind_parent c p tj) = call_categories tj" "call_names (bind_parent c p tj) = call_names tj"
  "tj_drawn (bind_parent c p tj) = tj_drawn tj" "tj_emitted (bind_parent c p tj) = tj_emitted tj"
  "tj_finished (bind_parent c p tj) = tj_finished tj" "tj_persists (bind_parent c p tj) = tj_persists tj"
  "tj_saved (bind_parent c p tj) = tj_saved tj"
  by (simp_all add: bind_parent_def)

lemma track_call_frame:
  assumes "track_call ev n c tj = (tj', ds)"
  shows "tj_run tj' = tj_run tj" "tj_sequence tj' = tj_sequence tj" "tj_attempt tj' = tj_attempt tj"
    "tj_drawn tj' = tj_drawn tj" "tj_emitted tj' = tj_emitted tj" "parent_call_map tj' = parent_call_map tj"
    "tj_persists tj' = tj_persists tj" "tj_finished tj' = tj_finished tj" "tj_saved tj' = tj_saved tj"
  using assms by (auto simp: track_call_def Let_def split: if_splits)

text \<open>The event a record appends, and the fields that only counting changes.\<close>

definition emits :: "traj_env \<Rightarrow> trajectory \<Rightarrow> string \<Rightarrow> trajectory \<Rightarrow> bool" where
  "emits en tj ev tj' \<longleftrightarrow>
     (\<exists>payload ea parent t. tj_emitted tj' = tj_emitted tj @ [build_event en ev payload ea parent t]
        \<and> tj_sequence t = tj_sequence tj + 1 \<and> tj_attempt t = tj_attempt tj \<and> tj_drawn t = tj_drawn tj)
     \<and> tj_sequence tj' = tj_sequence tj + 1 \<and> tj_attempt tj' = tj_attempt tj
     \<and> tj_drawn tj' = Suc (tj_drawn tj) \<and> tj_run tj' = tj_run tj"

lemma record_emits: "emits en tj ev (record_event en cx ev p ea tj)"
proof -
  obtain parent mm where rp: "resolve_parent cx (ea_call ea) (ea_parent ea) tj = (parent, mm)"
    by (cases "resolve_parent cx (ea_call ea) (ea_parent ea) tj")
  let ?n = "event_name en (case p of None \<Rightarrow> [] | Some d \<Rightarrow> d)"
  obtain tj2 ds where tc: "track_call ev ?n (ea_call ea) (bind_parent (ea_call ea) parent tj) = (tj2, ds)"
    by (cases "track_call ev ?n (ea_call ea) (bind_parent (ea_call ea) parent tj)")
  note frame = track_call_frame [OF tc, simplified]
  show ?thesis
    unfolding emits_def record_event_def Let_def rp prod.case tc
    by (auto simp: frame intro!: exI)
qed

section \<open>Numbering\<close>

text \<open>The sequence numbers of the events emitted since the cursor stood at \<open>s\<close>.\<close>

definition numbered :: "int \<Rightarrow> trajectory \<Rightarrow> bool" where
  "numbered s tj \<longleftrightarrow> tj_sequence tj = s + int (length (tj_emitted tj))
     \<and> map (\<lambda>e. dget e ''sequence'') (tj_emitted tj) = map PInt [s + 1 .. tj_sequence tj]"

lemma build_event_sequence [simp]: "dget (build_event en ev p ea pa t) ''sequence'' = PInt (tj_sequence t)"
  by (simp add: build_event_def)

lemma emits_numbered: "numbered s tj \<Longrightarrow> emits en tj ev tj' \<Longrightarrow> numbered s tj'"
  by (auto simp: numbered_def emits_def upto_rec2 [of "s + 1" "s + int (length (tj_emitted tj)) + 1"])

lemma numbered_frame:
  "numbered s tj \<Longrightarrow> tj_sequence tj' = tj_sequence tj \<Longrightarrow> tj_emitted tj' = tj_emitted tj \<Longrightarrow> numbered s tj'"
  by (simp add: numbered_def)

lemma record_numbered: "numbered s tj \<Longrightarrow> numbered s (record_event en cx ev p ea tj)"
  using emits_numbered record_emits by blast

lemma start_call_numbered: "numbered s tj \<Longrightarrow> numbered s (snd (start_call en cx k n p ea tj))"
  unfolding start_call_def Let_def
  by (auto split: prod.split if_splits intro!: record_numbered elim!: numbered_frame)

lemma interrupt_numbered: "numbered s tj \<Longrightarrow> numbered s (interrupt_open_calls en cx r tj)"
proof -
  have "numbered s tj \<Longrightarrow> numbered s (foldl (\<lambda>t c. interrupt_call en cx r c t) tj cs)" for cs
    by (induction cs arbitrary: tj) (simp_all add: interrupt_call_def Let_def record_numbered)
  then show "numbered s tj \<Longrightarrow> ?thesis" by (simp add: interrupt_open_calls_def)
qed

lemma step_numbered: "numbered s tj \<Longrightarrow> numbered s (traj_step en tj x)"
  by (cases "(en, tj, x)" rule: traj_step.cases)
    (simp_all add: record_numbered start_call_numbered interrupt_numbered finish_call_def Let_def
      numbered_frame)

interpretation trajectory_numbers: step_invariant "traj_step en" "numbered s" for en s
  by unfold_locales (rule step_numbered)

section \<open>Shape of the state\<close>

text \<open>Dictionaries have distinct keys, sets are finite, the cursor and the attempt are in range.\<close>

definition traj_wf :: "trajectory \<Rightarrow> bool" where
  "traj_wf tj \<longleftrightarrow> 0 \<le> tj_sequence tj \<and> 1 \<le> tj_attempt tj \<and> finite (open_call_ids tj) \<and> finite (open_span_ids tj)
     \<and> distinct (map fst (parent_call_map tj)) \<and> distinct (map fst (call_categories tj))
     \<and> distinct (map fst (call_names tj))"

lemma bind_parent_wf [intro]: "traj_wf tj \<Longrightarrow> traj_wf (bind_parent c p tj)"
  by (auto simp: traj_wf_def bind_parent_def distinct_update)

lemma track_call_wf: "track_call ev n c tj = (tj', ds) \<Longrightarrow> traj_wf tj \<Longrightarrow> traj_wf tj'"
  by (auto simp: traj_wf_def track_call_def Let_def distinct_update split: if_splits)

lemma record_wf:
  assumes "traj_wf tj"
  shows "traj_wf (record_event en cx ev p ea tj)"
proof -
  obtain parent mm where rp: "resolve_parent cx (ea_call ea) (ea_parent ea) tj = (parent, mm)"
    by (cases "resolve_parent cx (ea_call ea) (ea_parent ea) tj")
  let ?n = "event_name en (case p of None \<Rightarrow> [] | Some d \<Rightarrow> d)"
  obtain tj2 ds where tc: "track_call ev ?n (ea_call ea) (bind_parent (ea_call ea) parent tj) = (tj2, ds)"
    by (cases "track_call ev ?n (ea_call ea) (bind_parent (ea_call ea) parent tj)")
  have "traj_wf tj2" by (rule track_call_wf [OF tc]) (use assms in blast)
  then show ?thesis unfolding record_event_def Let_def rp prod.case tc by (simp add: traj_wf_def)
qed

lemma start_call_wf: "traj_wf tj \<Longrightarrow> traj_wf (snd (start_call en cx k n p ea tj))"
  unfolding start_call_def Let_def
  by (auto split: prod.split if_splits intro!: record_wf) (auto simp: traj_wf_def distinct_update)

lemma interrupt_wf: "traj_wf tj \<Longrightarrow> traj_wf (interrupt_open_calls en cx r tj)"
proof -
  have "traj_wf tj \<Longrightarrow> traj_wf (foldl (\<lambda>t c. interrupt_call en cx r c t) tj cs)" for cs
    by (induction cs arbitrary: tj) (simp_all add: interrupt_call_def Let_def record_wf)
  then show "traj_wf tj \<Longrightarrow> ?thesis" by (simp add: interrupt_open_calls_def)
qed

lemma step_wf: "traj_wf tj \<Longrightarrow> traj_wf (traj_step en tj x)"
  by (cases "(en, tj, x)" rule: traj_step.cases)
    (simp_all add: record_wf start_call_wf interrupt_wf finish_call_def Let_def bind_parent_wf)

interpretation trajectory_shape: step_invariant "traj_step en" traj_wf for en
  by unfold_locales (rule step_wf)

lemma new_trajectory_wf: "new_trajectory run s a b = Inr tj \<Longrightarrow> traj_wf tj \<and> numbered (tj_sequence tj) tj"
  by (auto simp: new_trajectory_def rbind_Inr_iff traj_wf_def numbered_def)

lemma merge_wf: "traj_wf tj \<Longrightarrow> traj_wf (merge_resume_state ts tj)"
  by (auto simp: traj_wf_def merge_resume_state_def distinct_updates)

section \<open>What a checkpoint carries over\<close>

lemma those_Some: "those (map Some xs) = Some xs"
  by (induction xs) simp_all

lemma str_list_PStr [simp]: "str_list_of (PList (map PStr xs)) = Some xs"
  by (simp add: str_list_of_def comp_def those_Some)

lemma str_dict_PStr [simp]: "str_dict_of (PDict (map (\<lambda>(k, v). (k, PStr v)) d)) = Some d"
proof -
  have "map (\<lambda>(k, x). map_option (Pair k) (str_of x)) (map (\<lambda>(k, v). (k, PStr v)) d) = map Some d"
    by (induction d) auto
  then show ?thesis by (simp only: str_dict_of_def py.case those_Some)
qed

text \<open>The fields of the snapshot a resumed run gets back.\<close>

definition resume_fields :: "trajectory \<Rightarrow> trace_state" where
  "resume_fields tj =
     \<lparr>ts_last_seq = tj_sequence tj, ts_attempt = tj_attempt tj,
      ts_open_calls = sorted_list_of_set (open_call_ids tj), ts_open_spans = sorted_list_of_set (open_span_ids tj),
      ts_parents = sort_key fst (parent_call_map tj), ts_categories = call_categories tj, ts_names = call_names tj\<rparr>"

lemma snapshot_validates:
  assumes "traj_wf tj"
  shows "validated_trace_state (PDict (snapshot_dict cx tj)) = Inr (resume_fields tj)"
  using assms
  by (simp add: validated_trace_state_def snapshot_dict_def nonneg_PInt_def traj_wf_def dget_default_def
      resume_fields_def)

lemma map_of_updates_alist:
  "distinct (map fst d) \<Longrightarrow> map_of (AList.updates (map fst d) (map snd d) e) = map_of e ++ map_of d"
proof (induction d arbitrary: e)
  case (Cons kv d)
  obtain k v where kv: "kv = (k, v)" by (cases kv)
  with Cons.prems have "map_of d k = None" by (simp add: map_of_eq_None_iff)
  then show ?case
    using Cons by (auto simp: kv update_conv' map_add_def fun_eq_iff split: option.split)
qed simp

definition resumed_from :: "trajectory \<Rightarrow> trajectory \<Rightarrow> trajectory \<Rightarrow> bool" where
  "resumed_from old new m \<longleftrightarrow>
     tj_sequence m = max (tj_sequence new) (tj_sequence old) \<and> tj_attempt m = max (tj_attempt new) (tj_attempt old)
     \<and> open_call_ids m = open_call_ids new \<union> open_call_ids old
     \<and> open_span_ids m = open_span_ids new \<union> open_span_ids old
     \<and> map_of (parent_call_map m) = map_of (parent_call_map new) ++ map_of (parent_call_map old)
     \<and> map_of (call_categories m) = map_of (call_categories new) ++ map_of (call_categories old)
     \<and> map_of (call_names m) = map_of (call_names new) ++ map_of (call_names old)"

lemma merge_resumes:
  assumes "traj_wf old"
  shows "resumed_from old new (merge_resume_state (resume_fields old) new)"
proof -
  have "distinct (map fst (sort_key fst (parent_call_map old)))"
    using assms by (simp add: traj_wf_def distinct_map inj_on_def)
  then show ?thesis
    using assms
    by (simp add: resumed_from_def merge_resume_state_def resume_fields_def map_of_updates_alist map_of_sort_key traj_wf_def)
qed

definition sample_traj :: trajectory where
  "sample_traj = \<lparr>tj_run = ''r'', tj_sequence = 4, tj_attempt = 1, open_call_ids = {''c''}, open_span_ids = {''c''},
     parent_call_map = [(''c'', ''run:r'')], closed_call_ids = {}, call_categories = [(''c'', ''tool'')],
     call_names = [(''c'', ''read_file'')], tj_finished = False, tj_degraded = False, tj_drawn = 0, tj_emitted = [],
     tj_persists = False, tj_saved = []\<rparr>"

definition sample_traj_env :: traj_env where
  "sample_traj_env = \<lparr>uuid_at = (\<lambda>i. ''00000000-0000-0000-0000-00000000000'' @ [char_of (53 + i)]),
     hex_at = (\<lambda>_. ''0''), time_at = (\<lambda>_. ''2026-01-01T00:00:00Z''), tj_repr = (\<lambda>_. [])\<rparr>"

lemma sample_traj_wf: "traj_wf sample_traj"
  by (simp add: traj_wf_def sample_traj_def)

text \<open>C37.
  A resumed run continues the trajectory where the checkpoint left it: the snapshot of any
  trajectory passes the validation a resume performs, and merging it into the fresh trajectory
  of the resumed run never moves the cursor or the attempt backwards, opens exactly the calls
  and spans that were open in either, and gives every call the parent, category and name the
  snapshot recorded for it, keeping the others.
\<close>

theorem snapshot_survives_resume:
  assumes "traj_wf old"
  shows "\<exists>ts. validated_trace_state (PDict (snapshot_dict cx old)) = Inr ts
       \<and> resumed_from old new (merge_resume_state ts new)"
  using snapshot_validates [OF assms] merge_resumes [OF assms] by blast

theorem snapshot_survives_resume_witness:
  "\<exists>ts. validated_trace_state (PDict (snapshot_dict new_context sample_traj)) = Inr ts
     \<and> resumed_from sample_traj sample_traj (merge_resume_state ts sample_traj)"
  by (rule snapshot_survives_resume) (rule sample_traj_wf)

section \<open>Interrupting the open calls\<close>

lemma first_part_dot: "CHR ''.'' \<notin> set a \<Longrightarrow> first_part (a @ CHR ''.'' # b) = a"
  unfolding first_part_def by (induction a) auto

lemma last_part_dot: "CHR ''.'' \<notin> set b \<Longrightarrow> last_part (a @ CHR ''.'' # b) = b"
  unfolding last_part_def by (subst rev_append, simp, subst takeWhile_append2) (auto simp: in_set_conv_nth)

lemma front_part_dot: "CHR ''.'' \<notin> set b \<Longrightarrow> front_part (a @ CHR ''.'' # b) = a"
  unfolding front_part_def by (simp, subst dropWhile_append2) auto

text \<open>An open call of a known kind that is not closed yet and is not the run itself.\<close>

definition interruptible :: "trajectory \<Rightarrow> string \<Rightarrow> bool" where
  "interruptible tj c \<longleftrightarrow> c \<noteq> [] \<and> c \<noteq> run_call tj \<and> c \<notin> closed_call_ids tj
     \<and> interrupted_kind tj c \<in> {''model'', ''tool'', ''subtool'', ''step''}"

definition interrupt_event :: "trajectory \<Rightarrow> string \<Rightarrow> string" where
  "interrupt_event tj c = (if interrupted_kind tj c = ''step'' then ''step.event'' else interrupted_kind tj c @ ''.interrupted'')"

lemma dget_call_id: "given c \<Longrightarrow> dget (build_event en ev p ea pa t) ''call_id'' = PStr (the (ea_call ea))"
  if "ea_call ea = c" for c
  using that by (auto simp: build_event_def text_field_def number_field_def dget_def given_def split: py.split option.splits)

lemma dget_event_type: "dget (build_event en ev p ea pa t) ''event_type'' = PStr ev"
  by (simp add: build_event_def)

lemma is_boundary_bind [simp]: "is_boundary ev n c (bind_parent c' p tj) = is_boundary ev n c tj"
  by (simp add: is_boundary_def run_call_def)

lemma record_closes:
  fixes en cx ev p ea tj c
  defines "t \<equiv> record_event en cx ev (Some p) ea tj"
  assumes c: "ea_call ea = Some c" "c \<noteq> []" "c \<notin> closed_call_ids tj"
    and boundary: "is_boundary ev (event_name en p) (Some c) tj"
    and kind: "\<not> starts_call ev (event_name en p)" "ends_call ev (event_name en p)"
  shows "open_call_ids t = open_call_ids tj - {c}" "open_span_ids t = open_span_ids tj - {c}"
    "closed_call_ids t = insert c (closed_call_ids tj)" "call_categories t = call_categories tj"
    "call_names t = call_names tj" "tj_run t = tj_run tj"
    "tj_finished t = (tj_finished tj \<or> first_part ev = ''run'')"
    "shows_degradation ev (event_name en p) p \<Longrightarrow> tj_degraded t"
    "\<exists>e. tj_emitted t = tj_emitted tj @ [e] \<and> dget e ''event_type'' = PStr ev \<and> dget e ''call_id'' = PStr c"
proof -
  obtain parent mm where rp: "resolve_parent cx (Some c) (ea_parent ea) tj = (parent, mm)"
    by (cases "resolve_parent cx (Some c) (ea_parent ea) tj")
  have tracked: "track_call ev (event_name en p) (Some c) (bind_parent (Some c) parent tj)
      = ((bind_parent (Some c) parent tj)\<lparr>open_call_ids := open_call_ids tj - {c},
              open_span_ids := open_span_ids tj - {c}, closed_call_ids := insert c (closed_call_ids tj)\<rparr>,
         if c \<in> open_call_ids tj then [] else [''missing_start''])"
    using c boundary kind by (simp add: track_call_def given_def)
  show "open_call_ids t = open_call_ids tj - {c}" "open_span_ids t = open_span_ids tj - {c}"
    "closed_call_ids t = insert c (closed_call_ids tj)" "call_categories t = call_categories tj"
    "call_names t = call_names tj" "tj_run t = tj_run tj"
    "tj_finished t = (tj_finished tj \<or> first_part ev = ''run'')"
    "shows_degradation ev (event_name en p) p \<Longrightarrow> tj_degraded t"
    "\<exists>e. tj_emitted t = tj_emitted tj @ [e] \<and> dget e ''event_type'' = PStr ev \<and> dget e ''call_id'' = PStr c"
    by (simp_all add: t_def record_event_def c(1) rp tracked Let_def kind(2) dget_event_type dget_call_id
        given_def c(2))
qed

definition interrupt_payload :: "string \<Rightarrow> trajectory \<Rightarrow> string \<Rightarrow> pydict" where
  "interrupt_payload r tj c =
     [(''reason'', PStr r), (''category'', PStr (interrupted_kind tj c))]
     @ (if interrupted_kind tj c = ''step''
        then [(''name'', PStr ((case map_of (call_names tj) c of None \<Rightarrow> c | Some n \<Rightarrow> n) @ ''.interrupted''))]
        else [])"

lemma interrupt_call_eq:
  "c \<noteq> run_call tj \<Longrightarrow> interrupt_call en cx r c tj
     = record_event en cx (interrupt_event tj c) (Some (interrupt_payload r tj c))
         (no_args\<lparr>ea_call := Some c, ea_parent := map_of (parent_call_map tj) c\<rparr>) tj"
  by (simp add: interrupt_call_def interrupt_event_def interrupt_payload_def Let_def)

lemma interrupt_payload_name:
  "event_name en (interrupt_payload r tj c)
     = (if interrupted_kind tj c = ''step''
        then (case map_of (call_names tj) c of None \<Rightarrow> c | Some n \<Rightarrow> n) @ ''.interrupted'' else [])"
  by (simp add: event_name_def interrupt_payload_def py_or_def)

lemma interrupt_name: "event_name en (interrupt_payload r tj c) \<notin> agent_starts"
proof (cases "interrupted_kind tj c = ''step''")
  case True
  then have "last_part (event_name en (interrupt_payload r tj c)) = ''interrupted''"
    using last_part_dot [of "''interrupted''"] by (simp add: interrupt_payload_name)
  then show ?thesis by (auto simp: agent_starts_def last_part_def)
next
  case False
  then show ?thesis by (simp add: interrupt_payload_name agent_starts_def)
qed

lemma interrupt_suffix:
  assumes "interruptible tj c"
  shows "first_part (interrupt_event tj c) = interrupted_kind tj c"
    "event_suffix (interrupt_event tj c) (event_name en (interrupt_payload r tj c)) = ''interrupted''"
proof -
  have "CHR ''.'' \<notin> set (interrupted_kind tj c)" using assms by (auto simp: interruptible_def)
  then show first: "first_part (interrupt_event tj c) = interrupted_kind tj c"
    using first_part_dot [of "interrupted_kind tj c" "''interrupted''"]
    by (simp add: interrupt_event_def) (simp add: first_part_def)
  have dots: "last_part (x @ ''.interrupted'') = ''interrupted''" for x
    using last_part_dot [of "''interrupted''" x] by simp
  show "event_suffix (interrupt_event tj c) (event_name en (interrupt_payload r tj c)) = ''interrupted''"
    by (cases "interrupted_kind tj c = ''step''")
      (simp_all add: event_suffix_def first interrupt_payload_name dots, simp add: interrupt_event_def dots)
qed

lemma interrupt_boundary:
  assumes "interruptible tj c"
  shows "is_boundary (interrupt_event tj c) (event_name en (interrupt_payload r tj c)) (Some c) tj"
proof -
  let ?k = "interrupted_kind tj c"
  have k: "?k \<in> call_kinds" "?k \<noteq> ''run''" and c: "c \<noteq> run_call tj"
    using assms by (auto simp: interruptible_def call_kinds_def)
  have recovered: "interrupt_event tj c \<noteq> ''model.recovered''"
    using assms by (auto simp: interrupt_event_def interruptible_def)
  have registered: "case map_of (call_categories tj) c of None \<Rightarrow> True | Some k' \<Rightarrow> k' = [] \<or> k' = ?k"
    by (simp add: interrupted_kind_def split: option.split)
  have front: "front_part (x @ ''.interrupted'') = x" for x
    using front_part_dot [of "''interrupted''" x] by simp
  have step: "?k = ''step'' \<Longrightarrow> case map_of (call_names tj) c of None \<Rightarrow> True
      | Some n \<Rightarrow> front_part (event_name en (interrupt_payload r tj c)) = n"
    by (simp add: interrupt_payload_name front split: option.split)
  show ?thesis
    unfolding is_boundary_def Let_def interrupt_suffix [OF assms] opt_str_def option.case
    using k c recovered registered step by (simp add: end_suffixes_def split: option.splits)
qed

lemma interrupt_one:
  fixes en cx r tj c
  defines "t \<equiv> interrupt_call en cx r c tj"
  assumes "interruptible tj c"
  shows "open_call_ids t = open_call_ids tj - {c}" "open_span_ids t = open_span_ids tj - {c}"
    "closed_call_ids t = insert c (closed_call_ids tj)" "call_categories t = call_categories tj"
    "call_names t = call_names tj" "tj_run t = tj_run tj" "tj_finished t = tj_finished tj" "tj_degraded t"
    "\<exists>e. tj_emitted t = tj_emitted tj @ [e] \<and> dget e ''event_type'' = PStr (interrupt_event tj c)
       \<and> dget e ''call_id'' = PStr c"
proof -
  let ?ea = "no_args\<lparr>ea_call := Some c, ea_parent := map_of (parent_call_map tj) c\<rparr>"
  note suffix = interrupt_suffix(1) [OF assms(2)] interrupt_suffix(2) [OF assms(2), of en r]
  have c: "ea_call ?ea = Some c" "c \<noteq> []" "c \<notin> closed_call_ids tj" "c \<noteq> run_call tj" "interrupted_kind tj c \<noteq> ''run''"
    using assms(2) by (auto simp: interruptible_def no_args_def)
  have starts: "\<not> starts_call (interrupt_event tj c) (event_name en (interrupt_payload r tj c))"
    using interrupt_name [of en r tj c] by (simp add: starts_call_def start_suffixes_def suffix(2))
  have ends: "ends_call (interrupt_event tj c) (event_name en (interrupt_payload r tj c))"
    by (simp add: ends_call_def suffix end_suffixes_def)
  note closes = record_closes [OF c(1-3) interrupt_boundary [OF assms(2)] starts ends]
  show "open_call_ids t = open_call_ids tj - {c}" "open_span_ids t = open_span_ids tj - {c}"
    "closed_call_ids t = insert c (closed_call_ids tj)" "call_categories t = call_categories tj"
    "call_names t = call_names tj" "tj_run t = tj_run tj" "tj_finished t = tj_finished tj" "tj_degraded t"
    "\<exists>e. tj_emitted t = tj_emitted tj @ [e] \<and> dget e ''event_type'' = PStr (interrupt_event tj c)
       \<and> dget e ''call_id'' = PStr c"
    unfolding t_def interrupt_call_eq [OF c(4)]
    by (simp_all add: closes c(5) suffix shows_degradation_def)
qed

lemma interruptible_other:
  assumes "interruptible tj c" "c' \<noteq> c" "interruptible tj c'"
  shows "interruptible (interrupt_call en cx r c tj) c'"
    "interrupt_event (interrupt_call en cx r c tj) c' = interrupt_event tj c'"
  using interrupt_one [OF assms(1), of en cx r] assms(2,3)
  by (simp_all add: interruptible_def interrupt_event_def interrupted_kind_def run_call_def split: option.splits)

lemma interrupt_all:
  assumes "distinct cs" "\<And>c. c \<in> set cs \<Longrightarrow> interruptible tj c"
  shows "let t = foldl (\<lambda>t c. interrupt_call en cx r c t) tj cs
    in open_call_ids t = open_call_ids tj - set cs \<and> closed_call_ids t = closed_call_ids tj \<union> set cs
       \<and> tj_finished t = tj_finished tj \<and> tj_run t = tj_run tj
       \<and> (\<exists>es. tj_emitted t = tj_emitted tj @ es
            \<and> map (\<lambda>e. (dget e ''event_type'', dget e ''call_id'')) es
              = map (\<lambda>c. (PStr (interrupt_event tj c), PStr c)) cs)"
  using assms
proof (induction cs arbitrary: tj)
  case (Cons c cs)
  let ?t = "interrupt_call en cx r c tj"
  have c: "interruptible tj c" using Cons.prems by simp
  note one = interrupt_one [OF c, of en cx r]
  obtain e where e: "tj_emitted ?t = tj_emitted tj @ [e]"
    "dget e ''event_type'' = PStr (interrupt_event tj c)" "dget e ''call_id'' = PStr c"
    using one(9) by blast
  have rest: "interruptible ?t c'" "interrupt_event ?t c' = interrupt_event tj c'" if "c' \<in> set cs" for c'
  proof -
    have "c' \<noteq> c" "interruptible tj c'" using Cons.prems that by auto
    then show "interruptible ?t c'" "interrupt_event ?t c' = interrupt_event tj c'"
      by (rule interruptible_other [OF c])+
  qed
  then have same: "map (\<lambda>c. (PStr (interrupt_event ?t c), PStr c)) cs = map (\<lambda>c. (PStr (interrupt_event tj c), PStr c)) cs"
    by simp
  let ?u = "foldl (\<lambda>t c. interrupt_call en cx r c t) ?t cs"
  have IH: "open_call_ids ?u = open_call_ids ?t - set cs" "closed_call_ids ?u = closed_call_ids ?t \<union> set cs"
    "tj_finished ?u = tj_finished ?t" "tj_run ?u = tj_run ?t"
    "\<exists>es. tj_emitted ?u = tj_emitted ?t @ es \<and> map (\<lambda>e. (dget e ''event_type'', dget e ''call_id'')) es
       = map (\<lambda>c. (PStr (interrupt_event ?t c), PStr c)) cs"
    using Cons.IH [of ?t] Cons.prems(1) rest(1) by (simp_all add: Let_def)
  obtain es where "tj_emitted ?u = tj_emitted tj @ e # es" "map (\<lambda>e. (dget e ''event_type'', dget e ''call_id'')) es
       = map (\<lambda>c. (PStr (interrupt_event tj c), PStr c)) cs"
    using IH(5) e(1) same by auto
  then have events: "\<exists>es. tj_emitted ?u = tj_emitted tj @ es \<and> map (\<lambda>e. (dget e ''event_type'', dget e ''call_id'')) es
       = map (\<lambda>c. (PStr (interrupt_event tj c), PStr c)) (c # cs)"
    using e(2,3) by (intro exI [of _ "e # es"]) simp
  show ?case
    unfolding Let_def foldl_Cons using IH(1-4) one(1,3,6,7) events by (intro conjI) auto
qed (simp add: Let_def)

text \<open>Interrupting the open calls (at a resume, a cancel, a failure and at the end of a run) leaves
  no call open but the run's own: every open call of a known kind is closed, each with exactly
  one event of its kind that names it, in the order of the call identifiers, and the run itself
  is neither closed nor reported as finished.
\<close>

lemma interrupt_closes_children:
  assumes "finite (open_call_ids tj)"
    and "\<And>c. c \<in> open_call_ids tj - {run_call tj} \<Longrightarrow> interruptible tj c"
  shows "let t = interrupt_open_calls en cx reason tj; cs = filter (\<lambda>c. c \<noteq> run_call tj) (sorted_list_of_set (open_call_ids tj))
    in open_call_ids t = open_call_ids tj \<inter> {run_call tj} \<and> closed_call_ids t = closed_call_ids tj \<union> set cs
       \<and> tj_finished t = tj_finished tj
       \<and> (\<exists>es. tj_emitted t = tj_emitted tj @ es
            \<and> map (\<lambda>e. (dget e ''event_type'', dget e ''call_id'')) es
              = map (\<lambda>c. (PStr (interrupt_event tj c), PStr c)) cs)"
proof -
  let ?all = "sorted_list_of_set (open_call_ids tj)"
  let ?cs = "filter (\<lambda>c. c \<noteq> run_call tj) ?all"
  have skip: "foldl (\<lambda>t c. interrupt_call en cx reason c t) t xs
      = foldl (\<lambda>t c. interrupt_call en cx reason c t) t (filter (\<lambda>c. c \<noteq> run_call tj) xs)"
    if "tj_run t = tj_run tj" for xs t
    using that
  proof (induction xs arbitrary: t)
    case (Cons x xs)
    have "tj_run (interrupt_call en cx reason x t) = tj_run tj"
      using Cons.prems record_emits by (auto simp: interrupt_call_def emits_def Let_def)
    with Cons show ?case by (auto simp: interrupt_call_def run_call_def)
  qed simp
  have cs: "set ?cs = open_call_ids tj - {run_call tj}" "distinct ?cs" using assms(1) by auto
  then have rest: "open_call_ids tj - set ?cs = open_call_ids tj \<inter> {run_call tj}" by blast
  have all: "interrupt_open_calls en cx reason tj = foldl (\<lambda>t c. interrupt_call en cx reason c t) tj ?cs"
    unfolding interrupt_open_calls_def by (rule skip) (rule refl)
  show ?thesis
    using interrupt_all [OF cs(2), of tj en cx reason] assms(2) cs(1)
    unfolding all Let_def rest by blast
qed

lemma interrupt_closes_children_sample:
  "let t = interrupt_open_calls sample_traj_env new_context ''timeout'' sample_traj;
       cs = filter (\<lambda>c. c \<noteq> run_call sample_traj) (sorted_list_of_set (open_call_ids sample_traj))
   in open_call_ids t = open_call_ids sample_traj \<inter> {run_call sample_traj}
      \<and> closed_call_ids t = closed_call_ids sample_traj \<union> set cs \<and> tj_finished t = tj_finished sample_traj
      \<and> (\<exists>es. tj_emitted t = tj_emitted sample_traj @ es
            \<and> map (\<lambda>e. (dget e ''event_type'', dget e ''call_id'')) es
              = map (\<lambda>c. (PStr (interrupt_event sample_traj c), PStr c)) cs)"
  by (rule interrupt_closes_children)
    (auto simp: sample_traj_def interruptible_def interrupted_kind_def run_call_def)

end
