(* ===== verification/Trace_Delivery.thy ===== *)
theory Trace_Delivery
  imports Trajectory_Properties
begin

text \<open>
  The node's trajectory and the control plane's log together: the frames a trajectory emits
  from the cursor the control plane handed out are all accepted, and a resume that continues
  from a checkpoint ahead of the control plane's cursor leaves a gap the log never closes.
\<close>

section \<open>Which frames fit the event contract\<close>

text \<open>The limits of the control plane a frame may still break: lengths, attempt, size, timestamp.\<close>

definition frame_fits :: "trace_env \<Rightarrow> pydict \<Rightarrow> bool" where
  "frame_fits te e \<longleftrightarrow>
     (case dget e ''event_type'' of PStr ty \<Rightarrow> event_type_ok ty | _ \<Rightarrow> False)
     \<and> (case dget e ''timestamp'' of
          PStr s \<Rightarrow> length s \<le> 64 \<and> (case parse_dt te s of Inr (Some (t, True)) \<Rightarrow> True | _ \<Rightarrow> False)
        | _ \<Rightarrow> False)
     \<and> (case dget e ''attempt'' of PInt a \<Rightarrow> a \<le> 1000 | _ \<Rightarrow> False)
     \<and> list_all (\<lambda>k. case dget e k of PStr s \<Rightarrow> length s \<le> 128 | _ \<Rightarrow> True)
         [''checkpoint_id'', ''call_id'', ''parent_call_id'']
     \<and> (case json_size (float_text te) (dget e ''payload'') of None \<Rightarrow> True | Some n \<Rightarrow> n \<le> MAX_EVENT_PAYLOAD_BYTES)"

lemma those_map_Some: "(\<And>x. x \<in> set xs \<Longrightarrow> f x \<noteq> None) \<Longrightarrow> those (map f xs) \<noteq> None"
  by (induction xs) (auto split: option.split)

lemma finite_json_size: "finite_json v \<Longrightarrow> json_size ft v \<noteq> None"
proof (induction v)
  case (PFloat f)
  then show ?case by (cases f) simp_all
next
  case (PList xs)
  have "those (map (json_size ft) xs) \<noteq> None"
    by (rule those_map_Some) (use PList in \<open>simp add: list_all_iff\<close>)
  then show ?case by simp
next
  case (PDict d)
  have "those (map (\<lambda>(k, v). map_option (\<lambda>n. json_str_size k + 1 + n) (json_size ft v)) d) \<noteq> None"
  proof (rule those_map_Some)
    fix x assume x: "x \<in> set d"
    obtain k v where kv: "x = (k, v)" by (cases x)
    have "finite_json v" using PDict.prems x kv by (auto simp: list_all_iff)
    moreover have "v \<in> Basic_BNFs.snds x" by (simp add: kv)
    ultimately show "(case x of (k, v) \<Rightarrow> map_option (\<lambda>n. json_str_size k + 1 + n) (json_size ft v)) \<noteq> None"
      using PDict.IH [OF x] by (simp add: kv)
  qed
  then show ?case by (simp only: json_size.simps option.map_disc_iff simp_thms not_False_eq_True)
qed simp_all

lemma json_value_size: "json_size ft (PDict (json_value en d)) \<noteq> None"
  by (cases "finite_json (PDict d)")
    (simp_all only: json_value_def if_True if_False finite_json_size finite_json.simps list.pred_inject prod.case
      simp_thms not_False_eq_True)

lemma map_of_text_field: "map_of (text_field k v) k' = (if k = k' \<and> given v then Some (PStr (the v)) else None)"
  by (simp add: text_field_def)

lemma map_of_number_field:
  "map_of (number_field k v) k' = (case v of PInt i \<Rightarrow> if k = k' \<and> 1 \<le> i then Some (PInt i) else None | _ \<Rightarrow> None)"
  by (simp add: number_field_def split: py.split)

lemma build_event_fields:
  "dget (build_event en ev p ea pa t) ''event_id'' = PStr (uuid_at en (tj_drawn t))"
  "dget (build_event en ev p ea pa t) ''attempt'' = PInt (tj_attempt t)"
  "dget (build_event en ev p ea pa t) ''timestamp'' = PStr (time_at en (tj_drawn t))"
  "dget (build_event en ev p ea pa t) ''payload'' = PDict (json_value en p)"
  "dget (build_event en ev p ea pa t) ''checkpoint_id''
     = (if given (ea_checkpoint ea) then PStr (the (ea_checkpoint ea)) else PNone)"
  "dget (build_event en ev p ea pa t) ''call_id'' = (if given (ea_call ea) then PStr (the (ea_call ea)) else PNone)"
  "dget (build_event en ev p ea pa t) ''parent_call_id'' = (if given pa then PStr (the pa) else PNone)"
  by (simp_all add: build_event_def dget_def map_of_text_field map_of_number_field map_add_def
      split: py.split option.split)

lemma build_event_numbers:
  "\<exists>i. optional_positive_int f (dget (build_event en ev p ea pa t) ''turn'') = Inr i"
  "\<exists>i. optional_positive_int f (dget (build_event en ev p ea pa t) ''step'') = Inr i"
  by (auto simp: build_event_def dget_def map_of_text_field map_of_number_field map_add_def
      optional_positive_int_def positive_int_def split: py.split)

lemma bounded_text_fits:
  "length s \<le> 128 \<or> \<not> b \<Longrightarrow> bounded_text f (if b then PStr s else PNone) = Inr (if b then s else [])"
  by (auto simp: bounded_text_def)

lemma normalize_built:
  fixes en ev p ea pa t
  defines "e \<equiv> build_event en ev p ea pa t"
  assumes uuid: "parse_uuid (uuid_at en (tj_drawn t)) = Some u"
    and range: "1 \<le> tj_sequence t" "1 \<le> tj_attempt t"
    and fits: "frame_fits te e"
  obtains x n where "normalize_event te (i, PDict e) = Inr (x, n)" "n \<le> MAX_EVENT_PAYLOAD_BYTES"
    "te_event_id x = u" "te_sequence x = tj_sequence t" "te_type x = ev" "PDict (te_payload x) = dget e ''payload''"
proof -
  obtain ts where ts: "length (time_at en (tj_drawn t)) \<le> 64"
    "parse_dt te (time_at en (tj_drawn t)) = Inr (Some (ts, True))"
    using fits by (auto simp: frame_fits_def e_def build_event_fields split: sum.splits option.splits prod.splits bool.splits)
  obtain n where n: "json_size (float_text te) (PDict (json_value en p)) = Some n"
    using json_value_size by blast
  have small: "n \<le> MAX_EVENT_PAYLOAD_BYTES" and ty: "event_type_ok ev" and att: "tj_attempt t \<le> 1000"
    using fits n by (simp_all add: frame_fits_def e_def build_event_fields dget_event_type del: json_size.simps)
  have texts: "length (the (ea_checkpoint ea)) \<le> 128 \<or> \<not> given (ea_checkpoint ea)"
    "length (the (ea_call ea)) \<le> 128 \<or> \<not> given (ea_call ea)" "length (the pa) \<le> 128 \<or> \<not> given pa"
    using fits by (auto simp: frame_fits_def e_def build_event_fields)
  obtain tu st where nums: "optional_positive_int ''turn'' (dget e ''turn'') = Inr tu"
    "optional_positive_int ''step'' (dget e ''step'') = Inr st"
    using build_event_numbers unfolding e_def by metis
  have defaults: "dget_default e ''attempt'' (PInt 1) = PInt (tj_attempt t)"
    "dget_default e ''payload'' (PDict []) = PDict (json_value en p)"
    by (simp_all add: e_def build_event_def dget_default_def)
  let ?x = "\<lparr>te_event_id = u, te_sequence = tj_sequence t, te_attempt = tj_attempt t, te_type = ev,
      te_timestamp = ts, te_checkpoint = (if given (ea_checkpoint ea) then the (ea_checkpoint ea) else []),
      te_turn = tu, te_step = st, te_call = (if given (ea_call ea) then the (ea_call ea) else []),
      te_parent_call = (if given pa then the pa else []), te_payload = json_value en p\<rparr>"
  have norm: "normalize_event te (i, PDict e) = Inr (?x, n)"
    unfolding normalize_event_def prod.case py.case defaults nums
    unfolding e_def build_event_fields build_event_sequence dget_event_type py_str.simps uuid option.case
      bounded_text_fits [OF texts(1)] bounded_text_fits [OF texts(2)] bounded_text_fits [OF texts(3)]
    using range att ty ts n small
    by (simp add: positive_int_def event_kind_def event_timestamp_def event_payload_def del: json_size.simps)
  show thesis by (rule that [OF norm small]) (simp_all add: e_def build_event_fields)
qed

section \<open>The events of a trajectory\<close>

text \<open>Every emitted event was built by a record that drew its own identifier.\<close>

definition built_from :: "traj_env \<Rightarrow> int \<Rightarrow> pydict \<Rightarrow> nat \<Rightarrow> bool" where
  "built_from en a e d \<longleftrightarrow>
     (\<exists>ev p ea pa t. e = build_event en ev p ea pa t \<and> tj_drawn t = d \<and> tj_attempt t = a)"

definition built :: "traj_env \<Rightarrow> trajectory \<Rightarrow> bool" where
  "built en tj \<longleftrightarrow> (\<exists>ds. distinct ds \<and> (\<forall>d \<in> set ds. d < tj_drawn tj)
     \<and> list_all2 (built_from en (tj_attempt tj)) (tj_emitted tj) ds)"

lemma emits_built: "built en tj \<Longrightarrow> emits en tj ev tj' \<Longrightarrow> built en tj'"
proof -
  assume "built en tj" and em: "emits en tj ev tj'"
  then obtain ds where ds: "distinct ds" "\<forall>d \<in> set ds. d < tj_drawn tj"
    "list_all2 (built_from en (tj_attempt tj)) (tj_emitted tj) ds" unfolding built_def by blast
  from em obtain p ea pa t where e: "tj_emitted tj' = tj_emitted tj @ [build_event en ev p ea pa t]"
    "tj_attempt t = tj_attempt tj" "tj_drawn t = tj_drawn tj" unfolding emits_def by blast
  have "list_all2 (built_from en (tj_attempt tj)) (tj_emitted tj') (ds @ [tj_drawn tj])"
    unfolding e(1) by (rule list_all2_appendI [OF ds(3)]) (auto simp: built_from_def intro!: exI e(2,3))
  then show "built en tj'"
    using ds em unfolding built_def emits_def
    by (intro exI [of _ "ds @ [tj_drawn tj]"]) (auto simp: less_Suc_eq)
qed

lemma built_frame:
  assumes "built en tj" "tj_drawn tj \<le> tj_drawn tj'" "tj_emitted tj' = tj_emitted tj" "tj_attempt tj' = tj_attempt tj"
  shows "built en tj'"
  using assms unfolding built_def by (metis order.strict_trans2)

lemma record_built: "built en tj \<Longrightarrow> built en (record_event en cx ev p ea tj)"
  using emits_built record_emits by blast

lemma start_call_built: "built en tj \<Longrightarrow> built en (snd (start_call en cx k n p ea tj))"
  unfolding start_call_def Let_def
  by (auto split: prod.split if_splits intro!: record_built elim!: built_frame)

lemma interrupt_built: "built en tj \<Longrightarrow> built en (interrupt_open_calls en cx r tj)"
proof -
  have "built en tj \<Longrightarrow> built en (foldl (\<lambda>t c. interrupt_call en cx r c t) tj cs)" for cs
    by (induction cs arbitrary: tj) (simp_all add: interrupt_call_def Let_def record_built)
  then show "built en tj \<Longrightarrow> ?thesis" by (simp add: interrupt_open_calls_def)
qed

lemma step_built: "built en tj \<Longrightarrow> built en (traj_step en tj x)"
  by (cases "(en, tj, x)" rule: traj_step.cases)
    (simp_all add: record_built start_call_built interrupt_built finish_call_def Let_def built_frame)

interpretation trajectory_events: step_invariant "traj_step en" "built en" for en
  by unfold_locales (rule step_built)

section \<open>Delivering them\<close>

definition trace_frame :: "nat \<Rightarrow> nat \<Rightarrow> pydict \<Rightarrow> trace_message" where
  "trace_frame k n e = (k, n, PList [PDict e])"

lemma checked_single:
  assumes "normalize_event te (0, v) = Inr (x, n)" "n \<le> MAX_EVENT_PAYLOAD_BYTES"
  shows "checked_batch te (PList [v]) = Inr [x]"
  using assms
  by (simp add: checked_batch_def MAX_BATCH_EVENTS_def MAX_EVENT_PAYLOAD_BYTES_def MAX_BATCH_BYTES_def Let_def)

lemma append_next:
  assumes "rows_ok rows" "te_sequence x = int (length rows) + 1" "te_event_id x \<notin> te_event_id ` set rows"
  shows "append_items rows [x] = Inr (\<lparr>inserted_count = 1, duplicate_count = 0, last_sequence = int (length rows) + 1\<rparr>, rows @ [x])"
proof -
  have "row_where (\<lambda>e. te_sequence e = te_sequence x) rows = None"
    using row_sequence [OF assms(1)] assms(2) by (auto simp: row_where_None in_set_conv_nth)
  moreover have "row_where (\<lambda>e. te_event_id e = te_event_id x) rows = None"
    using assms(3) by (auto simp: row_where_None image_iff)
  ultimately show ?thesis
    using assms(2) by (simp add: append_items_def last_persisted_ok [OF assms(1)])
qed

lemma deliver_events:
  assumes "runs db k = Some r" "run_node r = Some n" "log_ok st"
    and "map (\<lambda>e. dget e ''sequence'') es = map PInt [int (length (st k)) + 1 .. int (length (st k)) + int (length es)]"
    and "list_all2 (built_from en a) es ds" "distinct ds" "1 \<le> a" "\<forall>e \<in> set es. frame_fits te e"
    and "\<forall>d \<in> set ds. parse_uuid (uuid_at en d) = Some (u d)" "inj_on u (set ds)"
    and "\<forall>d \<in> set ds. u d \<notin> te_event_id ` set (st k)"
  shows "\<exists>xs. foldl (deliver_trace te db) st (map (trace_frame k n) es) k = st k @ xs
    \<and> list_all2 (\<lambda>x e. PInt (te_sequence x) = dget e ''sequence'' \<and> PStr (te_type x) = dget e ''event_type''
         \<and> PDict (te_payload x) = dget e ''payload'') xs es"
  using assms(3-6,8-11)
proof (induction es arbitrary: st ds)
  case (Cons e es)
  then obtain d ds' where ds: "ds = d # ds'" "built_from en a e d" "list_all2 (built_from en a) es ds'"
    by (auto simp: list_all2_Cons1)
  from ds(2) obtain ev p ea pa t where e: "e = build_event en ev p ea pa t" "tj_drawn t = d" "tj_attempt t = a"
    unfolding built_from_def by blast
  have seq: "dget e ''sequence'' = PInt (tj_sequence t)" and ty: "dget e ''event_type'' = PStr ev"
    by (simp_all add: e(1) dget_event_type)
  have seqs: "PInt (tj_sequence t) = PInt (int (length (st k)) + 1)"
    "map (\<lambda>e. dget e ''sequence'') es
       = map PInt [int (length (st k)) + 2 .. int (length (st k)) + 1 + int (length es)]"
    using Cons.prems(2) by (simp_all add: e(1) upto_rec1 algebra_simps)
  obtain x m where x: "normalize_event te (0, PDict e) = Inr (x, m)" "m \<le> MAX_EVENT_PAYLOAD_BYTES"
    "te_event_id x = u d" "te_sequence x = tj_sequence t" "te_type x = ev" "PDict (te_payload x) = dget e ''payload''"
    using normalize_built [of en t "u d" te ev p ea pa 0] assms(7) Cons.prems(5,6) seqs(1) e ds(1) by auto
  let ?st = "st(k := st k @ [x])"
  have new: "te_event_id x \<notin> te_event_id ` set (st k)" using Cons.prems(8) x(3) ds(1) by simp
  have "append_items (st k) [x]
      = Inr (\<lparr>inserted_count = 1, duplicate_count = 0, last_sequence = int (length (st k)) + 1\<rparr>, st k @ [x])"
    by (rule append_next) (use Cons.prems(1) x(4) seqs(1) new in \<open>simp_all add: log_ok_def\<close>)
  then have one: "append_run_trace_events te k n (PList [PDict e]) db st
      = Inr (\<lparr>inserted_count = 1, duplicate_count = 0, last_sequence = int (length (st k)) + 1\<rparr>, ?st)"
    by (simp add: append_run_trace_events_def checked_single [OF x(1,2)] assms(1,2))
  then have step: "deliver_trace te db st (trace_frame k n e) = ?st"
    by (simp add: deliver_trace_def trace_frame_def)
  have ok: "log_ok ?st" using append_keeps_log [OF Cons.prems(1) one] by blast
  have "\<exists>xs. foldl (deliver_trace te db) ?st (map (trace_frame k n) es) k = ?st k @ xs
    \<and> list_all2 (\<lambda>x e. PInt (te_sequence x) = dget e ''sequence'' \<and> PStr (te_type x) = dget e ''event_type''
         \<and> PDict (te_payload x) = dget e ''payload'') xs es"
  proof (rule Cons.IH [OF ok _ ds(3)])
    show "\<forall>d' \<in> set ds'. u d' \<notin> te_event_id ` set (?st k)"
      using Cons.prems(4,7,8) x(3) by (auto simp: ds(1) inj_on_def)
  qed (use seqs(2) Cons.prems(4-7) ds(1) in \<open>simp_all add: algebra_simps\<close>)
  then obtain xs where "foldl (deliver_trace te db) ?st (map (trace_frame k n) es) k = ?st k @ xs"
    "list_all2 (\<lambda>x e. PInt (te_sequence x) = dget e ''sequence'' \<and> PStr (te_type x) = dget e ''event_type''
         \<and> PDict (te_payload x) = dget e ''payload'') xs es" by blast
  then show ?case
    using seq ty by (intro exI [of _ "x # xs"]) (simp add: step x(4,5,6))
qed simp


definition sample_start :: trajectory where
  "sample_start = \<lparr>tj_run = ''r'', tj_sequence = 1, tj_attempt = 1, open_call_ids = {}, open_span_ids = {},
     parent_call_map = [], closed_call_ids = {}, call_categories = [], call_names = [], tj_finished = False,
     tj_degraded = False, tj_drawn = 0, tj_emitted = [], tj_persists = False, tj_saved = []\<rparr>"

definition sample_ops :: "(span_context \<times> traj_op) list" where
  "sample_ops = [(new_context, Record ''run.started'' (Some [(''name'', PStr ''run'')]) (no_args\<lparr>ea_call := Some ''run:r''\<rparr>)),
     (new_context, Record ''user.message'' None no_args)]"

definition sample_end :: trajectory where
  "sample_end = foldl (traj_step sample_traj_env) sample_start sample_ops"

lemma sample_end_emitted:
  "tj_drawn sample_end = 2 \<and> tj_emitted sample_end =
     [[(''event_id'', PStr ''00000000-0000-0000-0000-000000000005''), (''sequence'', PInt 2), (''attempt'', PInt 1),
       (''event_type'', PStr ''run.started''), (''timestamp'', PStr ''2026-01-01T00:00:00Z''),
       (''payload'', PDict [(''name'', PStr ''run'')]), (''call_id'', PStr ''run:r'')],
      [(''event_id'', PStr ''00000000-0000-0000-0000-000000000006''), (''sequence'', PInt 3), (''attempt'', PInt 1),
       (''event_type'', PStr ''user.message''), (''timestamp'', PStr ''2026-01-01T00:00:00Z''),
       (''payload'', PDict []), (''parent_call_id'', PStr ''run:r'')]]"
  by (simp add: sample_end_def sample_ops_def sample_start_def record_event_def Let_def split_beta no_args_def
      resolve_parent_def current_span_def new_context_def run_call_def opt_str_def bind_parent_def given_def
      track_call_def is_boundary_def event_name_def py_or_def first_part_def event_suffix_def last_part_def
      front_part_def call_kinds_def starts_call_def ends_call_def start_suffixes_def end_suffixes_def agent_starts_def
      payload_diagnostics_def shows_degradation_def build_event_def sample_traj_env_def json_value_def text_field_def
      number_field_def, code_simp)

lemma sample_end_fits:
  "\<forall>e \<in> set (tj_emitted sample_end). frame_fits sample_trace_env e"
  by (simp add: sample_end_emitted frame_fits_def sample_trace_env_def event_type_ok_def event_type_char_def Let_def
      json_str_size_def json_char_size_def bracketed_def MAX_EVENT_PAYLOAD_BYTES_def)

lemma sample_uuid:
  "d < 2 \<Longrightarrow> parse_uuid (uuid_at sample_traj_env d) = Some (5 + d)"
proof -
  assume "d < 2"
  then consider "d = 0" | "d = 1" by linarith
  moreover have chars: "char_of (53 :: nat) = CHR ''5''" "char_of (54 :: nat) = CHR ''6''" by code_simp+
  ultimately show ?thesis
    by cases (simp_all add: sample_traj_env_def chars parse_uuid_def strip_braces_def parse_hex_def signed_def py_strip_def
      is_space_def hex_val_def lower_char_def Let_def)
qed

definition sample_store :: trace_store where
  "sample_store = (\<lambda>_. [])(1 := [sample_row 1])"


section \<open>A resume ahead of the cursor\<close>

text \<open>
  The checkpoint stores the node's cursor, not the control plane's. When the node is lost with
  frames it had emitted but not delivered, the cursor it resumes with is ahead of the log.
\<close>

lemma gap_refused:
  assumes "rows_ok rows" "\<forall>x \<in> set items. int (length rows) + 1 < te_sequence x" "items \<noteq> []"
  shows "\<exists>e. append_items rows items = Inl e"
proof (cases "append_items rows items")
  case (Inr r)
  obtain res rows' where r: "r = (res, rows')" by (cases r)
  have "append_spec rows items = Some rows'"
    using append_items_spec [OF assms(1), of items] Inr r by simp
  then have spec: "\<forall>x \<in> set items. unknown_event rows x \<or> stored rows x"
    "map te_sequence (filter (unknown_event rows) items)
       = [int (length rows) + 1 .. int (length rows) + int (length (filter (unknown_event rows) items))]"
    by (auto simp: append_spec_def Let_def split: if_splits)
  have "\<not> stored rows x" if "x \<in> set items" for x
  proof
    assume "stored rows x"
    then obtain i where "i < length rows" "te_sequence (rows ! i) = te_sequence x"
      by (auto simp: stored_def event_matches_def)
    with row_sequence [OF assms(1)] assms(2) that show False by fastforce
  qed
  with spec(1) have all: "filter (unknown_event rows) items = items" by (auto simp: filter_id_conv)
  obtain x xs where items: "items = x # xs" using assms(3) by (metis neq_Nil_conv)
  have "te_sequence x = int (length rows) + 1"
    using spec(2) unfolding all by (simp add: items upto_rec1)
  with assms(2) show ?thesis by (simp add: items)
qed simp

text \<open>Batches that all start two or more events ahead never get into the log.\<close>

lemma gap_stays:
  assumes "log_ok st"
    and "\<forall>(j, n, ev) \<in> set ms. j = k \<longrightarrow>
        (case checked_batch te ev of Inl _ \<Rightarrow> True | Inr items \<Rightarrow> \<forall>x \<in> set items. int (length (st k)) + 1 < te_sequence x)"
  shows "foldl (deliver_trace te db) st ms k = st k"
  using assms
proof (induction ms arbitrary: st)
  case (Cons m ms)
  obtain j n ev where m: "m = (j, n, ev)" by (cases m)
  have same: "deliver_trace te db st m k = st k"
  proof (cases "append_run_trace_events te j n ev db st")
    case (Inl e)
    then show ?thesis by (simp add: m deliver_trace_def)
  next
    case (Inr r)
    obtain res st' where "r = (res, st')" by (cases r)
    with Inr have app: "append_run_trace_events te j n ev db st = Inr (res, st')" by simp
    then obtain items rows where a: "checked_batch te ev = Inr items" "append_items (st j) items = Inr (res, rows)"
      "st' = st(j := rows)" by (rule batch_appended)
    have "items \<noteq> []"
      using a(1) by (auto simp: checked_batch_def rbind_Inr_iff invalid_def Let_def split: py.splits list.splits if_splits)
    then have "j \<noteq> k" using gap_refused [of "st k" items] a(1,2) Cons.prems by (auto simp: m log_ok_def)
    then show ?thesis using app by (simp add: m deliver_trace_def a(3))
  qed
  have "foldl (deliver_trace te db) (deliver_trace te db st m) ms k = deliver_trace te db st m k"
  proof (rule Cons.IH)
    show "log_ok (deliver_trace te db st m)" using deliver_keeps_log [OF Cons.prems(1)] by blast
  qed (use Cons.prems(2) in \<open>unfold same, simp\<close>)
  then show ?case by (simp add: same)
qed simp

text \<open>Every event emitted after the first \<open>n\<close> is numbered beyond \<open>s\<close>.\<close>

definition beyond :: "int \<Rightarrow> nat \<Rightarrow> trajectory \<Rightarrow> bool" where
  "beyond s n tj \<longleftrightarrow> s \<le> tj_sequence tj \<and> n \<le> length (tj_emitted tj)
     \<and> (\<forall>e \<in> set (drop n (tj_emitted tj)). \<exists>i > s. dget e ''sequence'' = PInt i)"

lemma emits_beyond: "beyond s n tj \<Longrightarrow> emits en tj ev tj' \<Longrightarrow> beyond s n tj'"
  by (auto simp: beyond_def emits_def)

lemma beyond_frame:
  "beyond s n tj \<Longrightarrow> tj_sequence tj' = tj_sequence tj \<Longrightarrow> tj_emitted tj' = tj_emitted tj \<Longrightarrow> beyond s n tj'"
  by (simp add: beyond_def)

lemma record_beyond: "beyond s n tj \<Longrightarrow> beyond s n (record_event en cx ev p ea tj)"
  using emits_beyond record_emits by blast

lemma start_call_beyond: "beyond s n tj \<Longrightarrow> beyond s n (snd (start_call en cx k nm p ea tj))"
  unfolding start_call_def Let_def
  by (auto split: prod.split if_splits intro!: record_beyond elim!: beyond_frame)

lemma interrupt_beyond: "beyond s n tj \<Longrightarrow> beyond s n (interrupt_open_calls en cx r tj)"
proof -
  have "beyond s n tj \<Longrightarrow> beyond s n (foldl (\<lambda>t c. interrupt_call en cx r c t) tj cs)" for cs
    by (induction cs arbitrary: tj) (simp_all add: interrupt_call_def Let_def record_beyond)
  then show "beyond s n tj \<Longrightarrow> ?thesis" by (simp add: interrupt_open_calls_def)
qed

lemma step_beyond: "beyond s n tj \<Longrightarrow> beyond s n (traj_step en tj x)"
  by (cases "(en, tj, x)" rule: traj_step.cases)
    (simp_all add: record_beyond start_call_beyond interrupt_beyond finish_call_def Let_def beyond_frame)

interpretation trajectory_beyond: step_invariant "traj_step en" "beyond s n" for en s n
  by unfold_locales (rule step_beyond)

lemma checked_sequence:
  assumes "checked_batch te (PList [PDict e]) = Inr items" "dget e ''sequence'' = PInt i" "x \<in> set items"
  shows "te_sequence x = i"
proof -
  obtain n where n: "normalize_event te (0, PDict e) = Inr (x, n)"
    using assms(1,3) by (auto simp: checked_batch_def rbind_Inr_iff invalid_def Let_def split: if_splits)
  then obtain t where "te_sequence x = t" "positive_int ''sequence'' None (PInt i) = Inr t"
    using assms(2) by (auto simp: normalize_event_def rbind_Inr_iff invalid_def split: option.splits)
  then show ?thesis by (simp add: positive_int_def invalid_def split: if_splits)
qed

text \<open>A trace gap after a resume is permanent. The checkpoint stores the node's cursor; when the
  node was lost with emitted frames it had not delivered, the resumed trajectory continues from
  a cursor ahead of the log, and then no event it emits after the merge is ever stored: the
  control plane refuses every one of them and the log of the run stays as it is.
\<close>

lemma resume_gap_is_permanent:
  assumes "log_ok st" "int (length (st k)) < ts_last_seq ts"
    and "tj' = foldl (traj_step en) (merge_resume_state ts tj) ops"
  shows "foldl (deliver_trace te db) st (map (trace_frame k n) (drop (length (tj_emitted tj)) (tj_emitted tj'))) k = st k"
proof (rule gap_stays [OF assms(1)])
  let ?s = "int (length (st k)) + 1"
  have "beyond ?s (length (tj_emitted tj)) (merge_resume_state ts tj)"
    using assms(2) by (simp add: beyond_def merge_resume_state_def)
  then have "beyond ?s (length (tj_emitted tj)) tj'"
    unfolding assms(3) by (rule trajectory_beyond.inv_run)
  then have seqs: "\<exists>i > ?s. dget e ''sequence'' = PInt i" if "e \<in> set (drop (length (tj_emitted tj)) (tj_emitted tj'))" for e
    using that by (simp add: beyond_def)
  show "\<forall>(j, n, ev) \<in> set (map (trace_frame k n) (drop (length (tj_emitted tj)) (tj_emitted tj'))). j = k \<longrightarrow>
      (case checked_batch te ev of Inl _ \<Rightarrow> True | Inr items \<Rightarrow> \<forall>x \<in> set items. ?s < te_sequence x)"
    using seqs by (fastforce simp: trace_frame_def dest: checked_sequence split: sum.split)
qed

lemma resume_gap_is_permanent_sample:
  "foldl (deliver_trace sample_trace_env sample_trace_db) sample_store
     (map (trace_frame 1 9) (drop (length (tj_emitted sample_start))
       (tj_emitted (foldl (traj_step sample_traj_env) (merge_resume_state (fresh_trace\<lparr>ts_last_seq := 7\<rparr>) sample_start)
          sample_ops)))) 1 = sample_store 1"
  by (rule resume_gap_is_permanent [OF _ _ refl])
    (simp_all add: log_ok_def rows_ok_def sample_store_def sample_row_def)

end
