(* ===== verification/Node_Outbox.thy ===== *)
theory Node_Outbox
  imports SL_Prelude
begin

text \<open>
  The node's durable outbound buffer (\<open>lensnode/lensnode/main.py\<close>, \<open>LensNodeClient\<close>): text
  deltas are merged before they are queued, the queue is bounded and drops its oldest frame,
  frames that need an acknowledgement are kept beside it and put back after a reconnect. A frame
  is a dictionary with the identity Python's \<open>is\<close> and \<open>id\<close> compare. The send loop is three steps,
  because the frame is out of the queue while it is being sent; a connection that goes away
  cancels it. The bound on the queue is positive, and events of a trace frame are dictionaries
  with integer sequence numbers (see \<open>Trajectory\<close>).
\<close>

section \<open>State\<close>

record out_frame =
  fid :: nat
  body :: pydict

record outbox =
  ob_queue :: "out_frame list"
  in_flight :: "out_frame option"
  ob_max :: nat
  ob_soft :: nat
  ob_dropped :: nat
  ob_coalesced :: nat
  pending_trace :: "((string \<times> int) \<times> out_frame) list"
  pending_terminal :: "(string \<times> out_frame) list"
  pending_datasource :: "(string \<times> out_frame) list"
  buffered_output :: "out_frame option"
  ob_operations :: "string list"
  next_fid :: nat
  ob_sent :: "out_frame list"

definition new_outbox :: "nat \<Rightarrow> nat \<Rightarrow> outbox" where
  "new_outbox mx soft = \<lparr>ob_queue = [], in_flight = None, ob_max = mx, ob_soft = soft, ob_dropped = 0,
     ob_coalesced = 0, pending_trace = [], pending_terminal = [], pending_datasource = [],
     buffered_output = None, ob_operations = [], next_fid = 0, ob_sent = []\<rparr>"

definition OUTPUT_BATCH_MAX_CHARS :: nat where "OUTPUT_BATCH_MAX_CHARS = 32768"
definition OUTBOX_COALESCE_WINDOW :: nat where "OUTBOX_COALESCE_WINDOW = 500"

definition datasource_progress_steps :: "string set" where
  "datasource_progress_steps = {''item_skipped'', ''item_started'', ''item_done'', ''scan_progress'', ''scan_folder'',
     ''sync_progress'', ''conversion_progress'', ''conversion_discovery_progress'', ''repository_started''}"

definition datasource_terminal_types :: "string set" where
  "datasource_terminal_types = {''datasource_sync_done'', ''datasource_convert_done'', ''datasource_convert_stopped'',
     ''datasource_upload_done''}"

section \<open>Fields of a frame\<close>

definition has_type :: "string \<Rightarrow> pydict \<Rightarrow> bool" where
  "has_type t p = (dget p ''type'' = PStr t)"

text \<open>\<open>str(frame.get(k) or "")\<close>; identifiers in frames are strings.\<close>

definition text_of :: "string \<Rightarrow> pydict \<Rightarrow> string" where
  "text_of k p = (case py_or (dget p k) (PStr []) of PStr s \<Rightarrow> s | v \<Rightarrow> py_str (\<lambda>_. []) v)"

definition frame_seqs :: "pydict \<Rightarrow> int list" where
  "frame_seqs p =
     (case dget p ''events'' of
        PList es \<Rightarrow> List.map_filter (\<lambda>e. case dget (dict_of e) ''sequence'' of PInt i \<Rightarrow> Some i | _ \<Rightarrow> None) es
      | _ \<Rightarrow> [])"

definition is_trace :: "pydict \<Rightarrow> bool" where
  "is_trace p = has_type ''run_trace_events'' p"

definition is_datasource_terminal :: "pydict \<Rightarrow> bool" where
  "is_datasource_terminal p = (\<exists>t \<in> datasource_terminal_types. has_type t p)"

section \<open>Queueing a frame\<close>

text \<open>\<open>d[k] = v; d.move_to_end(k)\<close> and the eviction of the oldest entries.\<close>

definition move_to_end :: "'k \<Rightarrow> 'v \<Rightarrow> ('k \<times> 'v) list \<Rightarrow> ('k \<times> 'v) list" where
  "move_to_end k v d = AList.delete k d @ [(k, v)]"

definition newest :: "nat \<Rightarrow> 'a list \<Rightarrow> 'a list" where
  "newest n xs = drop (length xs - n) xs"

definition note_trace :: "out_frame \<Rightarrow> outbox \<Rightarrow> outbox" where
  "note_trace f ob =
     (if is_trace (body f)
      then ob\<lparr>pending_trace := newest (ob_max ob)
             (foldl (\<lambda>d i. move_to_end (text_of ''run_uuid'' (body f), i) f d) (pending_trace ob) (frame_seqs (body f)))\<rparr>
      else ob)"

text \<open>A terminal frame is copied with the time it was queued at.\<close>

definition stamped :: "py \<Rightarrow> pydict \<Rightarrow> pydict" where
  "stamped now p = AList.update ''node_enqueued_at'' (py_or (dget p ''node_enqueued_at'') now) p"

definition is_run_done :: "pydict \<Rightarrow> bool" where
  "is_run_done p = (has_type ''run_done'' p \<and> truthy (dget p ''run_uuid''))"

definition note_terminal :: "py \<Rightarrow> out_frame \<Rightarrow> outbox \<Rightarrow> out_frame \<times> outbox" where
  "note_terminal now f ob =
     (if is_run_done (body f)
      then let f' = \<lparr>fid = next_fid ob, body = stamped now (body f)\<rparr>
           in (f', ob\<lparr>next_fid := Suc (next_fid ob),
                     pending_terminal := newest (ob_max ob)
                       (move_to_end (text_of ''run_uuid'' (body f')) f' (pending_terminal ob))\<rparr>)
      else (f, ob))"

definition note_datasource :: "out_frame \<Rightarrow> outbox \<Rightarrow> outbox" where
  "note_datasource f ob =
     (if is_datasource_terminal (body f) \<and> truthy (dget (body f) ''task_id'')
      then ob\<lparr>pending_datasource := newest (ob_max ob)
             (move_to_end (text_of ''task_id'' (body f)) f (pending_datasource ob))\<rparr>
      else ob)"

text \<open>The index of the newest progress frame of the same task and step in the last window.\<close>

definition same_progress :: "pydict \<Rightarrow> out_frame \<Rightarrow> bool" where
  "same_progress p f = (has_type ''datasource_sync_event'' (body f)
     \<and> dget (body f) ''task_id'' = dget p ''task_id'' \<and> dget (body f) ''step'' = dget p ''step'')"

definition coalesce_index :: "pydict \<Rightarrow> out_frame list \<Rightarrow> nat option" where
  "coalesce_index p q =
     (case filter (\<lambda>i. same_progress p (q ! i)) [length q - OUTBOX_COALESCE_WINDOW ..< length q] of
        [] \<Rightarrow> None | is \<Rightarrow> Some (last is))"

definition coalesces :: "pydict \<Rightarrow> outbox \<Rightarrow> nat option" where
  "coalesces p ob =
     (if length (ob_queue ob) \<ge> ob_soft ob \<and> has_type ''datasource_sync_event'' p
         \<and> text_of ''step'' p \<in> datasource_progress_steps
      then coalesce_index p (ob_queue ob) else None)"

text \<open>The frames that make room for one more.\<close>

definition push_frame :: "out_frame \<Rightarrow> outbox \<Rightarrow> outbox" where
  "push_frame f ob =
     (let q = ob_queue ob; excess = length q + 1 - ob_max ob
      in ob\<lparr>ob_queue := drop excess q @ [f], ob_dropped := ob_dropped ob + excess\<rparr>)"

definition enqueue_frame :: "py \<Rightarrow> out_frame \<Rightarrow> outbox \<Rightarrow> outbox" where
  "enqueue_frame now f0 ob0 =
     (let ob1 = note_trace f0 ob0;
          (f, ob2) = note_terminal now f0 ob1;
          ob3 = note_datasource f ob2
      in case coalesces (body f) ob3 of
           Some i \<Rightarrow> ob3\<lparr>ob_queue := (ob_queue ob3)[i := f], ob_coalesced := ob_coalesced ob3 + 1\<rparr>
         | None \<Rightarrow> push_frame f ob3)"

definition flush_buffered_output :: "py \<Rightarrow> outbox \<Rightarrow> outbox" where
  "flush_buffered_output now ob =
     (case buffered_output ob of
        None \<Rightarrow> ob
      | Some f \<Rightarrow> enqueue_frame now f (ob\<lparr>buffered_output := None\<rparr>))"

definition is_delta :: "pydict \<Rightarrow> bool" where
  "is_delta p =
     (has_type ''run_output'' p \<and> truthy (dget p ''run_uuid'')
      \<and> (case dget p ''content_delta'' of PStr _ \<Rightarrow> True | _ \<Rightarrow> False)
      \<and> \<not> truthy (dget p ''reset'')
      \<and> set (map fst p) \<subseteq> {''type'', ''run_uuid'', ''content_delta'', ''reset''})"

definition delta_text :: "pydict \<Rightarrow> string" where
  "delta_text p = (case dget p ''content_delta'' of PStr s \<Rightarrow> s | _ \<Rightarrow> [])"

definition merge_delta :: "pydict \<Rightarrow> outbox \<Rightarrow> outbox" where
  "merge_delta p ob =
     (case buffered_output ob of
        None \<Rightarrow> ob\<lparr>buffered_output := Some \<lparr>fid = next_fid ob, body = p\<rparr>, next_fid := Suc (next_fid ob)\<rparr>
      | Some f \<Rightarrow> ob\<lparr>buffered_output :=
            Some (f\<lparr>body := AList.update ''content_delta'' (PStr (delta_text (body f) @ delta_text p)) (body f)\<rparr>)\<rparr>)"

definition enqueue :: "py \<Rightarrow> out_frame \<Rightarrow> outbox \<Rightarrow> outbox" where
  "enqueue now f ob =
     (if \<not> is_delta (body f) then enqueue_frame now f (flush_buffered_output now ob)
      else
        let ob1 = (case buffered_output ob of
              Some g \<Rightarrow> if dget (body g) ''run_uuid'' \<noteq> dget (body f) ''run_uuid''
                        then flush_buffered_output now ob else ob
            | None \<Rightarrow> ob);
            ob2 = merge_delta (body f) ob1
        in case buffered_output ob2 of
             Some g \<Rightarrow> if length (delta_text (body g)) \<ge> OUTPUT_BATCH_MAX_CHARS
                       then flush_buffered_output now ob2 else ob2
           | None \<Rightarrow> ob2)"

section \<open>Sending\<close>

definition send_start :: "outbox \<Rightarrow> outbox" where
  "send_start ob =
     (case (in_flight ob, ob_queue ob) of
        (None, f # q) \<Rightarrow> ob\<lparr>ob_queue := q, in_flight := Some f\<rparr>
      | _ \<Rightarrow> ob)"

definition send_done :: "outbox \<Rightarrow> outbox" where
  "send_done ob =
     (case in_flight ob of None \<Rightarrow> ob
      | Some f \<Rightarrow> ob\<lparr>in_flight := None, ob_sent := ob_sent ob @ [f]\<rparr>)"

text \<open>The two \<open>except\<close> clauses put the frame back; a cancelled task runs neither of them.\<close>

definition send_failed :: "outbox \<Rightarrow> outbox" where
  "send_failed ob =
     (case in_flight ob of None \<Rightarrow> ob
      | Some f \<Rightarrow> ob\<lparr>in_flight := None, ob_queue := f # ob_queue ob\<rparr>)"

definition send_cancelled :: "outbox \<Rightarrow> outbox" where
  "send_cancelled ob = ob\<lparr>in_flight := None\<rparr>"

section \<open>Acknowledgements\<close>

definition run_done_ack :: "string \<Rightarrow> outbox \<Rightarrow> outbox" where
  "run_done_ack k ob =
     ob\<lparr>pending_terminal := AList.delete k (pending_terminal ob),
        ob_queue := filter (\<lambda>f. \<not> (has_type ''run_done'' (body f) \<and> text_of ''run_uuid'' (body f) = k)) (ob_queue ob)\<rparr>"

definition trace_ack :: "string \<Rightarrow> py \<Rightarrow> outbox \<Rightarrow> outbox" where
  "trace_ack k last_seq ob =
     (case last_seq of
        PInt i \<Rightarrow> ob\<lparr>pending_trace := filter (\<lambda>((r, s), f). \<not> (r = k \<and> s \<le> i)) (pending_trace ob)\<rparr>
      | _ \<Rightarrow> ob)"

definition acknowledge_datasource_terminal_frame :: "out_frame \<Rightarrow> outbox \<Rightarrow> outbox" where
  "acknowledge_datasource_terminal_frame f ob =
     (let t = text_of ''task_id'' (body f)
      in if is_datasource_terminal (body f) \<and> t \<noteq> [] \<and> map_of (pending_datasource ob) t = Some f
         then ob\<lparr>pending_datasource := AList.delete t (pending_datasource ob),
                 ob_operations := filter (\<lambda>x. x \<noteq> t) (ob_operations ob)\<rparr>
         else ob)"

definition datasource_ack :: "string \<Rightarrow> outbox \<Rightarrow> outbox" where
  "datasource_ack t ob =
     (case map_of (pending_datasource ob) t of
        None \<Rightarrow> ob
      | Some f \<Rightarrow>
          let ob' = acknowledge_datasource_terminal_frame f ob
          in ob'\<lparr>ob_queue := filter (\<lambda>g. \<not> (is_datasource_terminal (body g) \<and> text_of ''task_id'' (body g) = t))
                              (ob_queue ob')\<rparr>)"

section \<open>A new connection\<close>

text \<open>
  The trace frames to requeue: those in the queue, by run and sequence numbers, and the pending
  ones none of whose numbers the queue or an earlier pending frame covers.
\<close>

type_synonym trace_index = "((string \<times> int list) \<times> out_frame) list"

definition queued_trace :: "out_frame list \<Rightarrow> trace_index" where
  "queued_trace q =
     foldl (\<lambda>d f. let r = text_of ''run_uuid'' (body f); ss = frame_seqs (body f)
                 in if is_trace (body f) \<and> r \<noteq> [] \<and> ss \<noteq> [] then AList.update (r, ss) f d else d) [] q"

definition tracked :: "out_frame list \<Rightarrow> out_frame list" where
  "tracked q = filter (\<lambda>f. is_trace (body f) \<and> text_of ''run_uuid'' (body f) \<noteq> [] \<and> frame_seqs (body f) \<noteq> []) q"

definition queued_ids :: "out_frame list \<Rightarrow> nat set" where
  "queued_ids q = fid ` set (tracked q)"

definition queued_seqs :: "out_frame list \<Rightarrow> (string \<times> int) set" where
  "queued_seqs q = set (concat (map (\<lambda>f. map (Pair (text_of ''run_uuid'' (body f))) (frame_seqs (body f))) (tracked q)))"

fun add_pending ::
  "((string \<times> int) \<times> out_frame) list \<Rightarrow> nat set \<Rightarrow> (string \<times> int) set \<Rightarrow> trace_index \<Rightarrow> trace_index" where
  "add_pending [] known covered d = d"
| "add_pending (((r, s), f) # ps) known covered d =
     (if fid f \<in> known \<or> (r, s) \<in> covered then add_pending ps known covered d
      else add_pending ps (insert (fid f) known) (insert (r, s) covered)
             (if (r, [s]) \<in> fst ` set d then d else d @ [((r, [s]), f)]))"

definition trace_frames :: "outbox \<Rightarrow> trace_index" where
  "trace_frames ob = add_pending (pending_trace ob) (queued_ids (ob_queue ob)) (queued_seqs (ob_queue ob))
     (queued_trace (ob_queue ob))"

text \<open>The frames of one run, ordered by their smallest number.\<close>

definition first_seq :: "out_frame \<Rightarrow> int" where
  "first_seq f = (case frame_seqs (body f) of [] \<Rightarrow> 0 | s # ss \<Rightarrow> fold min ss s)"

definition run_frames :: "trace_index \<Rightarrow> string \<Rightarrow> out_frame list" where
  "run_frames d r = sort_key first_seq (map snd (filter (\<lambda>((r', _), _). r' = r) d))"

fun rebuild :: "trace_index \<Rightarrow> string list \<Rightarrow> out_frame list \<Rightarrow> out_frame list \<times> string list" where
  "rebuild d emitted [] = ([], emitted)"
| "rebuild d emitted (f # q) =
     (let r = text_of ''run_uuid'' (body f);
          first = (r \<in> (fst \<circ> fst) ` set d \<and> r \<notin> set emitted);
          (rest, emitted') = rebuild d (if first then emitted @ [r] else emitted) q
      in ((if first then run_frames d r else []) @ (if is_trace (body f) then [] else [f]) @ rest, emitted'))"

text \<open>The keys of a dictionary filled in this order.\<close>

definition first_occurrences :: "'a list \<Rightarrow> 'a list" where
  "first_occurrences xs = rev (remdups (rev xs))"

definition restore_pending_trace_frames :: "outbox \<Rightarrow> outbox" where
  "restore_pending_trace_frames ob =
     (let d = trace_frames ob;
          (front, emitted) = rebuild d [] (ob_queue ob);
          others = filter (\<lambda>r. r \<notin> set emitted) (first_occurrences (map (fst \<circ> fst) d))
      in ob\<lparr>ob_queue := front @ concat (map (run_frames d) others)\<rparr>)"

definition restore_pending_terminal_frames :: "outbox \<Rightarrow> outbox" where
  "restore_pending_terminal_frames ob =
     (let queued = (text_of ''run_uuid'' \<circ> body) ` set (filter (\<lambda>f. has_type ''run_done'' (body f)) (ob_queue ob))
      in ob\<lparr>ob_queue := ob_queue ob @ map snd (filter (\<lambda>(k, _). k \<notin> queued) (pending_terminal ob))\<rparr>)"

definition restore_pending_datasource_terminal_frames :: "outbox \<Rightarrow> outbox" where
  "restore_pending_datasource_terminal_frames ob =
     (let queued = (text_of ''task_id'' \<circ> body) ` set (filter (\<lambda>f. is_datasource_terminal (body f)) (ob_queue ob))
      in ob\<lparr>ob_queue := ob_queue ob @ map snd (filter (\<lambda>(k, _). k \<notin> queued) (pending_datasource ob))\<rparr>)"

text \<open>\<open>_on_connected\<close>; the hello frame is sent past the outbox.\<close>

definition on_connected :: "outbox \<Rightarrow> outbox" where
  "on_connected ob =
     restore_pending_datasource_terminal_frames
       (restore_pending_terminal_frames (restore_pending_trace_frames ob))"

section \<open>Events\<close>

datatype outbox_event =
    Enqueue py pydict
  | FlushTimer py
  | SendStart
  | SendDone
  | SendFailed
  | SendCancelled
  | RunDoneAck string
  | TraceAckFrame string py
  | DatasourceAck string
  | Connected

definition enqueue_new :: "py \<Rightarrow> pydict \<Rightarrow> outbox \<Rightarrow> outbox" where
  "enqueue_new now p ob = enqueue now \<lparr>fid = next_fid ob, body = p\<rparr> (ob\<lparr>next_fid := Suc (next_fid ob)\<rparr>)"

fun outbox_step :: "outbox \<Rightarrow> outbox_event \<Rightarrow> outbox" where
  "outbox_step ob (Enqueue now p) = enqueue_new now p ob"
| "outbox_step ob (FlushTimer now) = flush_buffered_output now ob"
| "outbox_step ob SendStart = send_start ob"
| "outbox_step ob SendDone = send_done ob"
| "outbox_step ob SendFailed = send_failed ob"
| "outbox_step ob SendCancelled = send_cancelled ob"
| "outbox_step ob (RunDoneAck k) = run_done_ack k ob"
| "outbox_step ob (TraceAckFrame k i) = trace_ack k i ob"
| "outbox_step ob (DatasourceAck t) = datasource_ack t ob"
| "outbox_step ob Connected = on_connected ob"

end
