(* ===== verification/Outbox_Properties.thy ===== *)
theory Outbox_Properties
  imports Node_Outbox
begin

text \<open>
  Properties of the node's outbox: no text is lost or reordered by merging deltas, what is not
  acknowledged comes back after a reconnect, and trace frames come back in sequence order.
\<close>

section \<open>Kinds of frames\<close>

lemma delta_not_other:
  "is_delta p \<Longrightarrow> \<not> is_trace p \<and> \<not> has_type ''run_done'' p \<and> \<not> has_type ''datasource_sync_event'' p
     \<and> \<not> is_datasource_terminal p"
  by (auto simp: is_delta_def is_trace_def has_type_def is_datasource_terminal_def datasource_terminal_types_def)

definition frame_text :: "string \<Rightarrow> out_frame \<Rightarrow> string" where
  "frame_text k f = (if is_delta (body f) \<and> text_of ''run_uuid'' (body f) = k then delta_text (body f) else [])"

definition queued_text :: "string \<Rightarrow> out_frame list \<Rightarrow> string" where
  "queued_text k fs = concat (map (frame_text k) fs)"

lemma text_in_simps [simp]:
  "queued_text k [] = []" "queued_text k (f # fs) = frame_text k f @ queued_text k fs"
  "queued_text k (fs @ gs) = queued_text k fs @ queued_text k gs"
  by (simp_all add: queued_text_def)

lemma text_in_silent: "(\<And>f. f \<in> set fs \<Longrightarrow> \<not> is_delta (body f)) \<Longrightarrow> queued_text k fs = []"
  by (induction fs) (simp_all add: frame_text_def)

text \<open>All frames between the run and the socket, oldest first.\<close>

definition opt_list :: "'a option \<Rightarrow> 'a list" where
  "opt_list x = (case x of None \<Rightarrow> [] | Some y \<Rightarrow> [y])"

lemma opt_list_simps [simp]: "opt_list None = []" "opt_list (Some x) = [x]"
  by (simp_all add: opt_list_def)

definition all_text :: "string \<Rightarrow> outbox \<Rightarrow> string" where
  "all_text k ob = queued_text k (ob_sent ob) @ queued_text k (opt_list (in_flight ob)) @ queued_text k (ob_queue ob)
     @ queued_text k (opt_list (buffered_output ob))"

section \<open>The invariant\<close>

definition outbox_ok :: "outbox \<Rightarrow> bool" where
  "outbox_ok ob \<longleftrightarrow> 1 \<le> ob_max ob
     \<and> (\<forall>((r, s), f) \<in> set (pending_trace ob). is_trace (body f) \<and> text_of ''run_uuid'' (body f) = r \<and> s \<in> set (frame_seqs (body f)))
     \<and> (\<forall>(k, f) \<in> set (pending_terminal ob). has_type ''run_done'' (body f) \<and> text_of ''run_uuid'' (body f) = k)
     \<and> (\<forall>(t, f) \<in> set (pending_datasource ob). is_datasource_terminal (body f) \<and> text_of ''task_id'' (body f) = t)
     \<and> (case buffered_output ob of None \<Rightarrow> True | Some f \<Rightarrow> is_delta (body f))"

lemma set_newest: "x \<in> set (newest n xs) \<Longrightarrow> x \<in> set xs"
  by (auto simp: newest_def dest: in_set_dropD)

lemma set_move_to_end: "x \<in> set (move_to_end k v d) \<Longrightarrow> x = (k, v) \<or> x \<in> set d"
  by (auto simp: move_to_end_def AList.delete_eq)

lemma foldl_move_to_end:
  "x \<in> set (foldl (\<lambda>d i. move_to_end (r, i) f d) d is) \<Longrightarrow> x \<in> set d \<or> (\<exists>i \<in> set is. x = ((r, i), f))"
proof (induction "is" arbitrary: d)
  case (Cons i "is")
  then show ?case using set_move_to_end [of x "(r, i)" f d] by fastforce
qed simp

lemma note_trace_ok: "outbox_ok ob \<Longrightarrow> outbox_ok (note_trace f ob)"
  by (fastforce simp: outbox_ok_def note_trace_def dest!: set_newest foldl_move_to_end)

lemma text_of_stamped [simp]: "k \<noteq> ''node_enqueued_at'' \<Longrightarrow> text_of k (stamped now p) = text_of k p"
  by (simp add: text_of_def stamped_def dget_update)

lemma has_type_stamped [simp]: "has_type t (stamped now p) = has_type t p"
  by (simp add: has_type_def stamped_def dget_update)

lemma note_terminal_ok: "outbox_ok ob \<Longrightarrow> note_terminal now f ob = (f', ob') \<Longrightarrow> outbox_ok ob'"
  by (fastforce simp: outbox_ok_def note_terminal_def is_run_done_def Let_def split: if_splits
      dest!: set_newest set_move_to_end)

lemma note_datasource_ok: "outbox_ok ob \<Longrightarrow> outbox_ok (note_datasource f ob)"
  by (fastforce simp: outbox_ok_def note_datasource_def dest!: set_newest set_move_to_end)

lemma enqueue_frame_ok: "outbox_ok ob \<Longrightarrow> outbox_ok (enqueue_frame now f ob)"
proof -
  assume ok: "outbox_ok ob"
  obtain f' ob2 where nt: "note_terminal now f (note_trace f ob) = (f', ob2)"
    by (cases "note_terminal now f (note_trace f ob)")
  have "outbox_ok (note_datasource f' ob2)"
    using note_datasource_ok note_terminal_ok [OF note_trace_ok [OF ok] nt] .
  then show ?thesis
    by (auto simp: enqueue_frame_def nt Let_def push_frame_def outbox_ok_def split: option.split)
qed

lemma flush_ok: "outbox_ok ob \<Longrightarrow> outbox_ok (flush_buffered_output now ob)"
  by (auto simp: flush_buffered_output_def split: option.split intro!: enqueue_frame_ok) (simp add: outbox_ok_def)

lemma is_delta_merged:
  assumes "is_delta p" "is_delta q"
  shows "is_delta (AList.update ''content_delta'' (PStr x) p)"
    "text_of k (AList.update ''content_delta'' (PStr x) p) = (if k = ''content_delta'' then x else text_of k p)"
    "delta_text (AList.update ''content_delta'' (PStr x) p) = x"
  using assms
  by (auto simp: is_delta_def has_type_def dget_update dom_update text_of_def delta_text_def py_or_def
      subset_iff)

lemma merge_delta_ok: "outbox_ok ob \<Longrightarrow> is_delta p \<Longrightarrow> outbox_ok (merge_delta p ob)"
  by (auto simp: merge_delta_def outbox_ok_def is_delta_merged split: option.split)

lemma enqueue_ok: "outbox_ok ob \<Longrightarrow> outbox_ok (enqueue now f ob)"
proof (cases "is_delta (body f)")
  case True
  assume ok: "outbox_ok ob"
  let ?ob1 = "case buffered_output ob of
      Some g \<Rightarrow> if dget (body g) ''run_uuid'' \<noteq> dget (body f) ''run_uuid'' then flush_buffered_output now ob else ob
    | None \<Rightarrow> ob"
  have "outbox_ok ?ob1" using ok flush_ok by (auto split: option.split)
  then have "outbox_ok (merge_delta (body f) ?ob1)" using True merge_delta_ok by blast
  then show ?thesis
    using True flush_ok by (auto simp: enqueue_def Let_def split: option.split)
qed (simp add: enqueue_def flush_ok enqueue_frame_ok)

lemma fid_irrelevant [simp]: "outbox_ok (ob\<lparr>next_fid := n\<rparr>) = outbox_ok ob"
  by (simp add: outbox_ok_def)

lemma queue_irrelevant [simp]:
  "outbox_ok (ob\<lparr>ob_queue := q\<rparr>) = outbox_ok ob" "outbox_ok (ob\<lparr>in_flight := x\<rparr>) = outbox_ok ob"
  "outbox_ok (ob\<lparr>ob_sent := y\<rparr>) = outbox_ok ob" "outbox_ok (ob\<lparr>ob_operations := z\<rparr>) = outbox_ok ob"
  by (simp_all add: outbox_ok_def)

lemma ack_ok:
  "outbox_ok ob \<Longrightarrow> outbox_ok (run_done_ack k ob)"
  "outbox_ok ob \<Longrightarrow> outbox_ok (trace_ack k i ob)"
  "outbox_ok ob \<Longrightarrow> outbox_ok (datasource_ack t ob)"
  by (auto simp: run_done_ack_def trace_ack_def datasource_ack_def acknowledge_datasource_terminal_frame_def
      outbox_ok_def AList.delete_eq Let_def split: py.split option.split)

lemma on_connected_ok: "outbox_ok ob \<Longrightarrow> outbox_ok (on_connected ob)"
  by (simp add: on_connected_def restore_pending_trace_frames_def restore_pending_terminal_frames_def
      restore_pending_datasource_terminal_frames_def Let_def split: prod.split)

lemma outbox_step_ok: "outbox_ok ob \<Longrightarrow> outbox_ok (outbox_step ob e)"
  by (cases e)
    (auto simp: enqueue_new_def enqueue_ok flush_ok send_start_def send_done_def send_failed_def
      send_cancelled_def ack_ok on_connected_ok split: option.split list.split)

interpretation outbox_frames: step_invariant outbox_step outbox_ok
  by unfold_locales (rule outbox_step_ok)

lemma new_outbox_ok: "1 \<le> mx \<Longrightarrow> outbox_ok (new_outbox mx soft)"
  by (simp add: outbox_ok_def new_outbox_def)

section \<open>The text of a run\<close>

lemma note_frames [simp]:
  "ob_queue (note_trace f ob) = ob_queue ob" "in_flight (note_trace f ob) = in_flight ob"
  "buffered_output (note_trace f ob) = buffered_output ob" "ob_sent (note_trace f ob) = ob_sent ob"
  "ob_dropped (note_trace f ob) = ob_dropped ob" "ob_max (note_trace f ob) = ob_max ob"
  "ob_queue (note_datasource f ob) = ob_queue ob" "in_flight (note_datasource f ob) = in_flight ob"
  "buffered_output (note_datasource f ob) = buffered_output ob" "ob_sent (note_datasource f ob) = ob_sent ob"
  "ob_dropped (note_datasource f ob) = ob_dropped ob" "ob_max (note_datasource f ob) = ob_max ob"
  by (simp_all add: note_trace_def note_datasource_def)

lemma note_terminal_frames:
  assumes "note_terminal now f ob = (f', ob')"
  shows "ob_queue ob' = ob_queue ob" "in_flight ob' = in_flight ob" "buffered_output ob' = buffered_output ob"
    "ob_sent ob' = ob_sent ob" "ob_dropped ob' = ob_dropped ob" "ob_max ob' = ob_max ob"
    "frame_text k f' = frame_text k f"
  using assms
  by (auto simp: note_terminal_def is_run_done_def frame_text_def Let_def split: if_splits dest!: delta_not_other)

lemma coalesce_silent:
  assumes "coalesces (body f) ob = Some i"
  shows "frame_text k f = []" "i < length (ob_queue ob)" "frame_text k (ob_queue ob ! i) = []"
proof -
  have f: "has_type ''datasource_sync_event'' (body f)" and i: "coalesce_index (body f) (ob_queue ob) = Some i"
    using assms by (auto simp: coalesces_def split: if_splits)
  let ?is = "filter (\<lambda>i. same_progress (body f) (ob_queue ob ! i))
      [length (ob_queue ob) - OUTBOX_COALESCE_WINDOW ..< length (ob_queue ob)]"
  have "?is \<noteq> []" "last ?is = i" using i by (auto simp: coalesce_index_def split: list.splits)
  then have "i \<in> set ?is" by (metis last_in_set)
  then show "i < length (ob_queue ob)" "frame_text k (ob_queue ob ! i) = []"
    by (auto simp: same_progress_def frame_text_def dest: delta_not_other)
  show "frame_text k f = []" using f by (auto simp: frame_text_def dest: delta_not_other)
qed

lemma text_in_update:
  "i < length q \<Longrightarrow> frame_text k f = frame_text k (q ! i) \<Longrightarrow> queued_text k (q[i := f]) = queued_text k q"
proof -
  assume i: "i < length q" and eq: "frame_text k f = frame_text k (q ! i)"
  have "map (frame_text k) (q[i := f]) = map (frame_text k) q"
    by (simp add: map_update eq) (metis i list_update_id nth_map length_map map_update)
  then show ?thesis by (simp add: queued_text_def)
qed

text \<open>Queueing a frame without a drop appends its text and moves nothing else.\<close>

lemma enqueue_frame_text:
  assumes "ob_dropped (enqueue_frame now f ob) = ob_dropped ob"
  shows "queued_text k (ob_queue (enqueue_frame now f ob)) = queued_text k (ob_queue ob) @ frame_text k f"
    "in_flight (enqueue_frame now f ob) = in_flight ob" "ob_sent (enqueue_frame now f ob) = ob_sent ob"
    "buffered_output (enqueue_frame now f ob) = buffered_output ob"
proof -
  obtain f' ob2 where nt: "note_terminal now f (note_trace f ob) = (f', ob2)"
    by (cases "note_terminal now f (note_trace f ob)")
  note frames = note_terminal_frames [OF nt, simplified]
  let ?ob3 = "note_datasource f' ob2"
  have eq: "enqueue_frame now f ob = (case coalesces (body f') ?ob3 of
      Some i \<Rightarrow> ?ob3\<lparr>ob_queue := (ob_queue ?ob3)[i := f'], ob_coalesced := ob_coalesced ?ob3 + 1\<rparr>
    | None \<Rightarrow> push_frame f' ?ob3)" by (simp add: enqueue_frame_def nt Let_def)
  have "queued_text k (ob_queue (enqueue_frame now f ob)) = queued_text k (ob_queue ob) @ frame_text k f
     \<and> in_flight (enqueue_frame now f ob) = in_flight ob \<and> ob_sent (enqueue_frame now f ob) = ob_sent ob
     \<and> buffered_output (enqueue_frame now f ob) = buffered_output ob"
  proof (cases "coalesces (body f') ?ob3")
    case None
    then show ?thesis using assms by (simp add: eq push_frame_def Let_def frames)
  next
    case (Some i)
    note silent = coalesce_silent(1) [OF Some, of k] coalesce_silent(2) [OF Some] coalesce_silent(3) [OF Some, of k]
    have "queued_text k ((ob_queue ?ob3)[i := f']) = queued_text k (ob_queue ?ob3)"
      by (rule text_in_update) (use silent in simp_all)
    then show ?thesis using silent(1) by (simp add: eq Some frames)
  qed
  then show "queued_text k (ob_queue (enqueue_frame now f ob)) = queued_text k (ob_queue ob) @ frame_text k f"
    "in_flight (enqueue_frame now f ob) = in_flight ob" "ob_sent (enqueue_frame now f ob) = ob_sent ob"
    "buffered_output (enqueue_frame now f ob) = buffered_output ob" by blast+
qed

lemma dropped_mono: "ob_dropped ob \<le> ob_dropped (enqueue_frame now f ob)"
proof -
  obtain f' ob2 where nt: "note_terminal now f (note_trace f ob) = (f', ob2)"
    by (cases "note_terminal now f (note_trace f ob)")
  show ?thesis
    using note_terminal_frames [OF nt]
    by (auto simp: enqueue_frame_def nt Let_def push_frame_def split: option.split)
qed

lemma flush_dropped_mono: "ob_dropped ob \<le> ob_dropped (flush_buffered_output now ob)"
proof (cases "buffered_output ob")
  case (Some g)
  show ?thesis
    using dropped_mono [of "ob\<lparr>buffered_output := None\<rparr>" now g] by (simp add: flush_buffered_output_def Some)
qed (simp add: flush_buffered_output_def)

lemma flush_text:
  assumes "ob_dropped (flush_buffered_output now ob) = ob_dropped ob"
  shows "all_text k (flush_buffered_output now ob) = all_text k ob"
    "buffered_output (flush_buffered_output now ob) = None"
proof -
  have "all_text k (flush_buffered_output now ob) = all_text k ob \<and> buffered_output (flush_buffered_output now ob) = None"
  proof (cases "buffered_output ob")
    case None
    then show ?thesis by (simp add: flush_buffered_output_def)
  next
    case (Some g)
    let ?ob = "ob\<lparr>buffered_output := None\<rparr>"
    have "ob_dropped (enqueue_frame now g ?ob) = ob_dropped ?ob"
      using assms by (simp add: flush_buffered_output_def Some)
    note shown = enqueue_frame_text [OF this]
    show ?thesis by (simp add: flush_buffered_output_def Some all_text_def shown)
  qed
  then show "all_text k (flush_buffered_output now ob) = all_text k ob"
    "buffered_output (flush_buffered_output now ob) = None" by blast+
qed

lemma merge_text:
  assumes "outbox_ok ob" "is_delta p"
    and "\<And>g. buffered_output ob = Some g \<Longrightarrow> dget (body g) ''run_uuid'' = dget p ''run_uuid''"
  shows "all_text k (merge_delta p ob) = all_text k ob @ frame_text k \<lparr>fid = i, body = p\<rparr>"
    "ob_dropped (merge_delta p ob) = ob_dropped ob"
proof -
  show "ob_dropped (merge_delta p ob) = ob_dropped ob" by (simp add: merge_delta_def split: option.split)
  show "all_text k (merge_delta p ob) = all_text k ob @ frame_text k \<lparr>fid = i, body = p\<rparr>"
  proof (cases "buffered_output ob")
    case None
    then show ?thesis using assms(2) by (simp add: merge_delta_def all_text_def frame_text_def)
  next
    case (Some g)
    have g: "is_delta (body g)" using assms(1) Some by (simp add: outbox_ok_def)
    have "text_of ''run_uuid'' (body g) = text_of ''run_uuid'' p" using assms(3) [OF Some] by (simp add: text_of_def)
    then show ?thesis
      using g assms(2) by (simp add: merge_delta_def Some all_text_def frame_text_def is_delta_merged [OF g assms(2)])
  qed
qed

text \<open>The text a caller emits for a run with one frame.\<close>

definition emitted_text :: "string \<Rightarrow> outbox_event \<Rightarrow> string" where
  "emitted_text k e = (case e of Enqueue now p \<Rightarrow> frame_text k \<lparr>fid = 0, body = p\<rparr> | _ \<Rightarrow> [])"

lemma frame_text_fid: "frame_text k \<lparr>fid = i, body = p\<rparr> = frame_text k \<lparr>fid = 0, body = p\<rparr>"
  by (simp add: frame_text_def)

lemma text_fields [simp]:
  "all_text k (ob\<lparr>next_fid := n\<rparr>) = all_text k ob" "ob_dropped (ob\<lparr>next_fid := n\<rparr>) = ob_dropped ob"
  by (simp_all add: all_text_def)

lemma enqueue_dropped_mono: "ob_dropped ob \<le> ob_dropped (enqueue now f ob)"
proof (cases "is_delta (body f)")
  case True
  let ?ob1 = "case buffered_output ob of
      Some g \<Rightarrow> if dget (body g) ''run_uuid'' \<noteq> dget (body f) ''run_uuid'' then flush_buffered_output now ob else ob
    | None \<Rightarrow> ob"
  have "ob_dropped ob \<le> ob_dropped ?ob1" by (auto simp: flush_dropped_mono split: option.split)
  moreover have "ob_dropped (merge_delta (body f) ?ob1) = ob_dropped ?ob1" by (simp add: merge_delta_def split: option.split)
  ultimately show ?thesis
    using True flush_dropped_mono [of "merge_delta (body f) ?ob1" now]
    by (auto simp: enqueue_def Let_def split: option.split)
next
  case False
  then show ?thesis
    using flush_dropped_mono [of ob now] dropped_mono [of "flush_buffered_output now ob" now f]
    by (simp add: enqueue_def)
qed

lemma enqueue_text:
  assumes ok: "outbox_ok ob" and none: "ob_dropped (enqueue now f ob) = ob_dropped ob"
  shows "all_text k (enqueue now f ob) = all_text k ob @ frame_text k f"
proof (cases "is_delta (body f)")
  case True
  let ?ob1 = "case buffered_output ob of
      Some g \<Rightarrow> if dget (body g) ''run_uuid'' \<noteq> dget (body f) ''run_uuid'' then flush_buffered_output now ob else ob
    | None \<Rightarrow> ob"
  let ?ob2 = "merge_delta (body f) ?ob1"
  have final: "enqueue now f ob = (case buffered_output ?ob2 of
      Some g \<Rightarrow> if length (delta_text (body g)) \<ge> OUTPUT_BATCH_MAX_CHARS then flush_buffered_output now ?ob2 else ?ob2
    | None \<Rightarrow> ?ob2)" using True by (simp add: enqueue_def Let_def)
  have le: "ob_dropped ob \<le> ob_dropped ?ob1" by (auto simp: flush_dropped_mono split: option.split)
  have same: "ob_dropped ?ob2 = ob_dropped ?ob1" by (simp add: merge_delta_def split: option.split)
  have "ob_dropped ?ob2 \<le> ob_dropped (enqueue now f ob)"
    by (auto simp: final flush_dropped_mono split: option.split)
  then have eq1: "ob_dropped ?ob1 = ob_dropped ob" using le same none by simp
  have ok1: "outbox_ok ?ob1" using ok flush_ok by (auto split: option.split)
  have text1: "all_text k ?ob1 = all_text k ob"
    using eq1 by (auto simp: flush_text split: option.splits if_splits)
  have run: "buffered_output ?ob1 = Some g \<Longrightarrow> dget (body g) ''run_uuid'' = dget (body f) ''run_uuid''" for g
    using eq1 by (auto simp: flush_text split: option.splits if_splits)
  have text2: "all_text k ?ob2 = all_text k ob @ frame_text k f"
    using merge_text(1) [OF ok1 True run, of k "fid f"] text1 by (cases f) simp
  have "all_text k (enqueue now f ob) = all_text k ?ob2"
  proof (cases "enqueue now f ob = ?ob2")
    case False
    then have fin: "enqueue now f ob = flush_buffered_output now ?ob2" by (auto simp: final split: option.splits if_splits)
    have "ob_dropped (flush_buffered_output now ?ob2) = ob_dropped ?ob2" using fin none same eq1 by simp
    then show ?thesis using flush_text(1) by (simp only: fin)
  qed simp
  with text2 show ?thesis by simp
next
  case False
  let ?ob1 = "flush_buffered_output now ob"
  have eq: "enqueue now f ob = enqueue_frame now f ?ob1" using False by (simp add: enqueue_def)
  have d1: "ob_dropped ?ob1 = ob_dropped ob"
    using flush_dropped_mono [of ob now] dropped_mono [of ?ob1 now f] none eq by simp
  have d2: "ob_dropped (enqueue_frame now f ?ob1) = ob_dropped ?ob1" using none eq d1 by simp
  note shown = enqueue_frame_text [OF d2]
  have "frame_text k f = []" using False by (simp add: frame_text_def)
  then have "all_text k (enqueue_frame now f ?ob1) = all_text k ?ob1"
    by (simp add: all_text_def shown)
  then show ?thesis using flush_text(1) [OF d1] eq False by (simp add: frame_text_def)
qed

text \<open>A reconnect adds and reorders frames without text only.\<close>

lemma set_alist_update: "x \<in> set (AList.update k v d) \<Longrightarrow> x = (k, v) \<or> x \<in> set d"
  by (induction d) (auto split: if_splits)

lemma queued_trace_frames:
  assumes "((r, ss), f) \<in> set (queued_trace q)"
  shows "f \<in> set q \<and> is_trace (body f) \<and> r = text_of ''run_uuid'' (body f) \<and> r \<noteq> [] \<and> ss = frame_seqs (body f) \<and> ss \<noteq> []"
proof -
  let ?good = "\<lambda>q ((r, ss), f). f \<in> set q \<and> is_trace (body f) \<and> r = text_of ''run_uuid'' (body f) \<and> r \<noteq> []
      \<and> ss = frame_seqs (body f) \<and> ss \<noteq> []"
  have "\<forall>x \<in> set d. ?good Q x \<Longrightarrow> set q \<subseteq> set Q \<Longrightarrow>
      \<forall>x \<in> set (foldl (\<lambda>d f. let r = text_of ''run_uuid'' (body f); ss = frame_seqs (body f)
        in if is_trace (body f) \<and> r \<noteq> [] \<and> ss \<noteq> [] then AList.update (r, ss) f d else d) d q). ?good Q x" for d Q
  proof (induction q arbitrary: d)
    case (Cons g q)
    let ?d = "let r = text_of ''run_uuid'' (body g); ss = frame_seqs (body g)
        in if is_trace (body g) \<and> r \<noteq> [] \<and> ss \<noteq> [] then AList.update (r, ss) g d else d"
    have "\<forall>x \<in> set ?d. ?good Q x"
      using Cons.prems by (auto simp: Let_def dest!: set_alist_update split: if_splits)
    then show ?case unfolding foldl_Cons by (rule Cons.IH) (use Cons.prems(2) in simp)
  qed simp
  from this [of "[]" q] show ?thesis using assms unfolding queued_trace_def by fastforce
qed

lemma add_pending_frames:
  "x \<in> set (add_pending ps known covered d) \<Longrightarrow> x \<in> set d \<or> (\<exists>r s f. ((r, s), f) \<in> set ps \<and> x = ((r, [s]), f))"
  by (induction ps known covered d rule: add_pending.induct) (auto split: if_splits)

lemma trace_frames_sound:
  assumes "outbox_ok ob" "((r, ss), f) \<in> set (trace_frames ob)"
  shows "is_trace (body f) \<and> text_of ''run_uuid'' (body f) = r"
  using add_pending_frames [OF assms(2) [unfolded trace_frames_def]] assms(1)
  by (fastforce simp: outbox_ok_def dest: queued_trace_frames)

lemma run_frames_sound:
  "outbox_ok ob \<Longrightarrow> f \<in> set (run_frames (trace_frames ob) r) \<Longrightarrow> is_trace (body f) \<and> text_of ''run_uuid'' (body f) = r"
  by (auto simp: run_frames_def dest: trace_frames_sound)

lemma trace_frame_silent: "is_trace (body f) \<Longrightarrow> frame_text k f = []"
  by (auto simp: frame_text_def dest: delta_not_other)

lemma run_frames_silent: "outbox_ok ob \<Longrightarrow> queued_text k (run_frames (trace_frames ob) r) = []"
  by (rule text_in_silent) (auto dest: run_frames_sound delta_not_other)

lemma rebuild_text:
  "outbox_ok ob \<Longrightarrow> rebuild (trace_frames ob) em q = (front, em') \<Longrightarrow> queued_text k front = queued_text k q"
proof (induction q arbitrary: em front em')
  case (Cons f q)
  let ?first = "text_of ''run_uuid'' (body f) \<in> (fst \<circ> fst) ` set (trace_frames ob) \<and> text_of ''run_uuid'' (body f) \<notin> set em"
  obtain rest em2 where r: "rebuild (trace_frames ob) (if ?first then em @ [text_of ''run_uuid'' (body f)] else em) q = (rest, em2)"
    by (cases "rebuild (trace_frames ob) (if ?first then em @ [text_of ''run_uuid'' (body f)] else em) q")
  have "queued_text k rest = queued_text k q" by (rule Cons.IH [OF Cons.prems(1) r])
  moreover have "front = (if ?first then run_frames (trace_frames ob) (text_of ''run_uuid'' (body f)) else [])
      @ (if is_trace (body f) then [] else [f]) @ rest"
    using Cons.prems(2) by (simp add: r Let_def del: o_apply)
  ultimately show ?case
    using run_frames_silent [OF Cons.prems(1)] by (simp add: trace_frame_silent)
qed simp

lemma concat_silent: "(\<And>r. r \<in> set rs \<Longrightarrow> queued_text k (g r) = []) \<Longrightarrow> queued_text k (concat (map g rs)) = []"
  by (induction rs) simp_all

lemma restore_trace_text:
  assumes "outbox_ok ob"
  shows "queued_text k (ob_queue (restore_pending_trace_frames ob)) = queued_text k (ob_queue ob)"
proof -
  obtain front em where r: "rebuild (trace_frames ob) [] (ob_queue ob) = (front, em)"
    by (cases "rebuild (trace_frames ob) [] (ob_queue ob)")
  show ?thesis
    using rebuild_text [OF assms r] run_frames_silent [OF assms]
    by (simp add: restore_pending_trace_frames_def Let_def r concat_silent)
qed

lemma restore_frames [simp]:
  "in_flight (restore_pending_trace_frames ob) = in_flight ob" "ob_sent (restore_pending_trace_frames ob) = ob_sent ob"
  "buffered_output (restore_pending_trace_frames ob) = buffered_output ob"
  "ob_dropped (restore_pending_trace_frames ob) = ob_dropped ob"
  "pending_terminal (restore_pending_trace_frames ob) = pending_terminal ob"
  "pending_datasource (restore_pending_trace_frames ob) = pending_datasource ob"
  "pending_trace (restore_pending_trace_frames ob) = pending_trace ob"
  by (simp_all add: restore_pending_trace_frames_def Let_def split: prod.split)

lemma on_connected_text:
  assumes "outbox_ok ob"
  shows "all_text k (on_connected ob) = all_text k ob" "ob_dropped (on_connected ob) = ob_dropped ob"
proof -
  have "queued_text k (map snd (filter (\<lambda>(r, _). r \<notin> Q) (pending_terminal ob))) = []" for Q
    by (rule text_in_silent) (use assms in \<open>auto simp: outbox_ok_def dest!: delta_not_other\<close>)
  moreover have "queued_text k (map snd (filter (\<lambda>(t, _). t \<notin> Q) (pending_datasource ob))) = []" for Q
    by (rule text_in_silent) (use assms in \<open>auto simp: outbox_ok_def dest!: delta_not_other\<close>)
  ultimately show "all_text k (on_connected ob) = all_text k ob"
    using restore_trace_text [OF assms, of k]
    by (simp add: all_text_def on_connected_def restore_pending_terminal_frames_def
        restore_pending_datasource_terminal_frames_def Let_def)
  show "ob_dropped (on_connected ob) = ob_dropped ob"
    by (simp add: on_connected_def restore_pending_terminal_frames_def
        restore_pending_datasource_terminal_frames_def Let_def)
qed

lemma filter_silent: "(\<And>f. f \<in> set q \<Longrightarrow> \<not> P f \<Longrightarrow> frame_text k f = []) \<Longrightarrow> queued_text k (filter P q) = queued_text k q"
  by (induction q) auto

lemma step_text:
  assumes "outbox_ok ob" "e \<noteq> SendCancelled" "ob_dropped (outbox_step ob e) = ob_dropped ob"
  shows "all_text k (outbox_step ob e) = all_text k ob @ emitted_text k e"
proof (cases e)
  case (Enqueue now p)
  have "all_text k (enqueue now \<lparr>fid = next_fid ob, body = p\<rparr> (ob\<lparr>next_fid := Suc (next_fid ob)\<rparr>))
      = all_text k ob @ frame_text k \<lparr>fid = next_fid ob, body = p\<rparr>"
    by (subst enqueue_text) (use assms(1,3) in \<open>simp_all add: Enqueue enqueue_new_def\<close>)
  then show ?thesis by (simp add: Enqueue enqueue_new_def emitted_text_def frame_text_fid [of k "next_fid ob"])
next
  case (FlushTimer now)
  then show ?thesis using assms(3) flush_text(1) [of now ob k] by (simp add: emitted_text_def)
next
  case (RunDoneAck r)
  have "queued_text k (ob_queue (run_done_ack r ob)) = queued_text k (ob_queue ob)"
    unfolding run_done_ack_def by simp (rule filter_silent, auto simp: frame_text_def dest: delta_not_other)
  then show ?thesis by (simp add: RunDoneAck emitted_text_def all_text_def) (simp add: run_done_ack_def)
next
  case (DatasourceAck t)
  have silent: "queued_text k (filter (\<lambda>g. is_datasource_terminal (body g) \<longrightarrow> P g) q) = queued_text k q" for P q
    by (rule filter_silent) (auto simp: frame_text_def dest: delta_not_other)
  show ?thesis
    by (auto simp: DatasourceAck emitted_text_def all_text_def datasource_ack_def
        acknowledge_datasource_terminal_frame_def Let_def silent split: option.split)
next
  case Connected
  then show ?thesis using on_connected_text(1) [OF assms(1)] by (simp add: emitted_text_def)
qed (use assms(2) in \<open>auto simp: emitted_text_def all_text_def send_start_def send_done_def send_failed_def trace_ack_def
      split: option.split list.split py.split\<close>)

lemma step_dropped_mono: "ob_dropped ob \<le> ob_dropped (outbox_step ob e)"
proof (cases e)
  case (Enqueue now p)
  then show ?thesis
    using enqueue_dropped_mono [of "ob\<lparr>next_fid := Suc (next_fid ob)\<rparr>" now "\<lparr>fid = next_fid ob, body = p\<rparr>"]
    by (simp add: enqueue_new_def)
qed (auto simp: flush_dropped_mono send_start_def send_done_def send_failed_def send_cancelled_def run_done_ack_def
      trace_ack_def datasource_ack_def acknowledge_datasource_terminal_frame_def on_connected_def
      restore_pending_terminal_frames_def restore_pending_datasource_terminal_frames_def Let_def
      split: option.split list.split py.split)

lemma run_dropped_mono: "ob_dropped ob \<le> ob_dropped (foldl outbox_step ob es)"
  by (induction es arbitrary: ob) (auto intro: order_trans [OF step_dropped_mono])

lemma run_text:
  assumes "outbox_ok ob" "SendCancelled \<notin> set es" "ob_dropped (foldl outbox_step ob es) = ob_dropped ob"
  shows "all_text k (foldl outbox_step ob es) = all_text k ob @ concat (map (emitted_text k) es)"
  using assms
proof (induction es arbitrary: ob)
  case (Cons e es)
  have same: "ob_dropped (outbox_step ob e) = ob_dropped ob"
    using Cons.prems(3) step_dropped_mono [of ob e] run_dropped_mono [of "outbox_step ob e" es] by simp
  have "all_text k (foldl outbox_step (outbox_step ob e) es)
      = all_text k (outbox_step ob e) @ concat (map (emitted_text k) es)"
    by (rule Cons.IH) (use Cons.prems same outbox_step_ok in auto)
  moreover have "e \<noteq> SendCancelled" using Cons.prems(2) by auto
  ultimately show ?case using step_text [OF Cons.prems(1) _ same] by simp
qed simp

definition sample_delta :: "string \<Rightarrow> pydict" where
  "sample_delta t = [(''type'', PStr ''run_output''), (''run_uuid'', PStr ''r''), (''content_delta'', PStr t)]"


definition sample_outbox_events :: "outbox_event list" where
  "sample_outbox_events = [Enqueue PNone (sample_delta ''a''), SendStart, Enqueue PNone (sample_delta ''b''),
     Enqueue PNone [(''type'', PStr ''run_event''), (''run_uuid'', PStr ''r'')], SendStart, SendFailed, Connected]"


section \<open>Unacknowledged terminal frames\<close>

text \<open>The terminal frame kept for a run, with at most \<open>n\<close> newer ones behind it.\<close>

definition held :: "string \<Rightarrow> out_frame \<Rightarrow> nat \<Rightarrow> outbox \<Rightarrow> bool" where
  "held k f n ob \<longleftrightarrow>
     (\<exists>xs ys. pending_terminal ob = xs @ (k, f) # ys \<and> k \<notin> fst ` set (xs @ ys) \<and> length ys \<le> n)"

lemma delete_append [simp]: "AList.delete k (xs @ ys) = AList.delete k xs @ AList.delete k ys"
  by (simp add: AList.delete_eq)

lemma newest_keeps: "length ys < m \<Longrightarrow> \<exists>xs'. newest m (xs @ y # ys) = xs' @ y # ys \<and> set xs' \<subseteq> set xs"
  by (auto simp: newest_def drop_Cons' dest: in_set_dropD)

lemma move_held:
  assumes "d = xs @ (k, f) # ys" "k \<notin> fst ` set (xs @ ys)" "length ys \<le> n" "k' \<noteq> k" "Suc n < m"
  shows "\<exists>xs ys. newest m (move_to_end k' v d) = xs @ (k, f) # ys \<and> k \<notin> fst ` set (xs @ ys) \<and> length ys \<le> Suc n"
proof -
  let ?ys = "AList.delete k' ys @ [(k', v)]"
  have len: "length ?ys \<le> Suc n" using assms(3) length_delete_le [of k' ys] by simp
  have "move_to_end k' v d = AList.delete k' xs @ (k, f) # ?ys" using assms(1,4) by (simp add: move_to_end_def)
  moreover obtain zs where "newest m (AList.delete k' xs @ (k, f) # ?ys) = zs @ (k, f) # ?ys"
    "set zs \<subseteq> set (AList.delete k' xs)"
    using newest_keeps [of ?ys m "AList.delete k' xs" "(k, f)"] len assms(5) by auto
  moreover have "k \<notin> fst ` set (zs @ ?ys)"
  proof -
    have "fst ` set zs \<subseteq> fst ` set xs"
      using image_mono [OF calculation(3), of fst] dom_delete_subset [of k' xs] by (rule order_trans)
    moreover have "fst ` set ?ys \<subseteq> insert k' (fst ` set ys)" using dom_delete_subset [of k' ys] by auto
    moreover have "k \<notin> fst ` set xs" "k \<notin> fst ` set ys" using assms(2) by auto
    ultimately have "k \<notin> fst ` set zs \<union> fst ` set ?ys" using assms(4) by blast
    then show ?thesis by (simp only: set_append image_Un simp_thms not_False_eq_True)
  qed
  ultimately show ?thesis using len by (intro exI [of _ zs] exI [of _ ?ys]) simp
qed

lemma enqueue_frame_terminal:
  "pending_terminal (enqueue_frame now f ob) =
     (if is_run_done (body f)
      then newest (ob_max ob) (move_to_end (text_of ''run_uuid'' (body f))
             \<lparr>fid = next_fid ob, body = stamped now (body f)\<rparr> (pending_terminal ob))
      else pending_terminal ob)"
proof -
  have "pending_terminal (note_trace f ob) = pending_terminal ob" "next_fid (note_trace f ob) = next_fid ob"
    by (simp_all add: note_trace_def)
  then show ?thesis
    by (auto simp: enqueue_frame_def note_terminal_def note_datasource_def push_frame_def Let_def split: option.split)
qed

lemma enqueue_frame_max: "ob_max (enqueue_frame now f ob) = ob_max ob"
proof -
  obtain f' ob2 where nt: "note_terminal now f (note_trace f ob) = (f', ob2)"
    by (cases "note_terminal now f (note_trace f ob)")
  show ?thesis
    using note_terminal_frames [OF nt]
    by (auto simp: enqueue_frame_def nt Let_def push_frame_def split: option.split)
qed

lemma delta_not_done: "is_delta p \<Longrightarrow> \<not> is_run_done p"
  by (auto simp: is_run_done_def dest: delta_not_other)

lemma flush_terminal:
  "outbox_ok ob \<Longrightarrow> pending_terminal (flush_buffered_output now ob) = pending_terminal ob"
  by (auto simp: flush_buffered_output_def enqueue_frame_terminal outbox_ok_def dest: delta_not_done split: option.splits)

lemma flush_max: "ob_max (flush_buffered_output now ob) = ob_max ob"
  by (simp add: flush_buffered_output_def enqueue_frame_max split: option.split)

lemma merge_terminal [simp]:
  "pending_terminal (merge_delta p ob) = pending_terminal ob" "ob_max (merge_delta p ob) = ob_max ob"
  by (simp_all add: merge_delta_def split: option.split)

lemma enqueue_max: "ob_max (enqueue now f ob) = ob_max ob"
  by (auto simp: enqueue_def enqueue_frame_max flush_max Let_def split: option.split)

lemma enqueue_terminal:
  assumes "outbox_ok ob"
  shows "\<exists>i. pending_terminal (enqueue now f ob) =
     (if is_run_done (body f)
      then newest (ob_max ob) (move_to_end (text_of ''run_uuid'' (body f)) \<lparr>fid = i, body = stamped now (body f)\<rparr>
             (pending_terminal ob))
      else pending_terminal ob)"
proof (cases "is_delta (body f)")
  case True
  let ?ob1 = "case buffered_output ob of
      Some g \<Rightarrow> if dget (body g) ''run_uuid'' \<noteq> dget (body f) ''run_uuid'' then flush_buffered_output now ob else ob
    | None \<Rightarrow> ob"
  have ok1: "outbox_ok ?ob1" using assms flush_ok by (auto split: option.split)
  then have "outbox_ok (merge_delta (body f) ?ob1)" using True merge_delta_ok by blast
  moreover have "pending_terminal ?ob1 = pending_terminal ob" using assms by (auto simp: flush_terminal split: option.split)
  ultimately show ?thesis
    using True delta_not_done [OF True] by (auto simp: enqueue_def Let_def flush_terminal split: option.split)
qed (auto simp: enqueue_def enqueue_frame_terminal flush_terminal [OF assms] flush_max)

lemma enqueue_new_terminal:
  assumes "outbox_ok ob"
  shows "is_run_done p \<Longrightarrow> \<exists>i. pending_terminal (enqueue_new now p ob)
       = newest (ob_max ob) (move_to_end (text_of ''run_uuid'' p) \<lparr>fid = i, body = stamped now p\<rparr> (pending_terminal ob))"
    "\<not> is_run_done p \<Longrightarrow> pending_terminal (enqueue_new now p ob) = pending_terminal ob"
  using enqueue_terminal [of "ob\<lparr>next_fid := Suc (next_fid ob)\<rparr>" now "\<lparr>fid = next_fid ob, body = p\<rparr>"] assms
  by (simp_all add: enqueue_new_def)

definition settles :: "outbox_event \<Rightarrow> string option" where
  "settles e = (case e of Enqueue now p \<Rightarrow> if is_run_done p then Some (text_of ''run_uuid'' p) else None | _ \<Rightarrow> None)"

lemma held_queue [simp]:
  "held k f n (ob\<lparr>ob_queue := q\<rparr>) = held k f n ob" "held k f n (ob\<lparr>next_fid := i\<rparr>) = held k f n ob"
  by (simp_all add: held_def)

lemma step_max: "ob_max (outbox_step ob e) = ob_max ob"
  by (cases e) (auto simp: enqueue_new_def enqueue_max flush_max send_start_def send_done_def send_failed_def
      send_cancelled_def run_done_ack_def trace_ack_def datasource_ack_def acknowledge_datasource_terminal_frame_def
      on_connected_def restore_pending_trace_frames_def restore_pending_terminal_frames_def
      restore_pending_datasource_terminal_frames_def Let_def split: option.split list.split py.split prod.split)

lemma held_step:
  assumes ok: "outbox_ok ob" and held: "held k f n ob" and room: "Suc n < ob_max ob"
    and e: "e \<noteq> RunDoneAck k" "settles e \<noteq> Some k"
  shows "held k f (if settles e = None then n else Suc n) (outbox_step ob e)"
proof (cases e)
  case (Enqueue now p)
  show ?thesis
  proof (cases "is_run_done p")
    case True
    then have other: "text_of ''run_uuid'' p \<noteq> k" using e(2) by (simp add: settles_def Enqueue)
    obtain i where i: "pending_terminal (enqueue_new now p ob) = newest (ob_max ob)
        (move_to_end (text_of ''run_uuid'' p) \<lparr>fid = i, body = stamped now p\<rparr> (pending_terminal ob))"
      using enqueue_new_terminal(1) [OF ok True] by blast
    from held obtain xs ys where d: "pending_terminal ob = xs @ (k, f) # ys" "k \<notin> fst ` set (xs @ ys)" "length ys \<le> n"
      unfolding held_def by blast
    show ?thesis
      using move_held [OF d other room, of "\<lparr>fid = i, body = stamped now p\<rparr>"] True
      by (simp add: held_def Enqueue settles_def i)
  next
    case False
    then show ?thesis
      using held enqueue_new_terminal(2) [OF ok False] by (simp add: held_def Enqueue settles_def)
  qed
next
  case (FlushTimer now)
  then show ?thesis using held flush_terminal [OF ok] by (simp add: held_def settles_def)
next
  case (RunDoneAck r)
  with e(1) have "r \<noteq> k" by simp
  from held obtain xs ys where d: "pending_terminal ob = xs @ (k, f) # ys" "k \<notin> fst ` set (xs @ ys)" "length ys \<le> n"
    unfolding held_def by blast
  have "AList.delete r (pending_terminal ob) = AList.delete r xs @ (k, f) # AList.delete r ys"
    using d(1) \<open>r \<noteq> k\<close> by simp
  moreover have "k \<notin> fst ` set (AList.delete r xs @ AList.delete r ys)"
    using d(2) dom_delete_subset [of r xs] dom_delete_subset [of r ys] by auto
  moreover have "length (AList.delete r ys) \<le> n" using d(3) length_delete_le [of r ys] by simp
  ultimately show ?thesis by (auto simp: held_def RunDoneAck run_done_ack_def settles_def)
qed (use held in \<open>auto simp: held_def settles_def send_start_def send_done_def send_failed_def send_cancelled_def trace_ack_def
      datasource_ack_def acknowledge_datasource_terminal_frame_def on_connected_def restore_pending_terminal_frames_def
      restore_pending_datasource_terminal_frames_def Let_def split: option.split list.split py.split\<close>)

lemma held_run:
  assumes "outbox_ok ob" "held k f n ob" "RunDoneAck k \<notin> set es" "\<forall>e \<in> set es. settles e \<noteq> Some k"
    and "n + length (filter (\<lambda>e. settles e \<noteq> None) es) + 1 < ob_max ob"
  shows "\<exists>n'. held k f n' (foldl outbox_step ob es)"
  using assms
proof (induction es arbitrary: ob n)
  case (Cons e es)
  have e: "e \<noteq> RunDoneAck k" "settles e \<noteq> Some k" using Cons.prems(3,4) by auto
  have "held k f (if settles e = None then n else Suc n) (outbox_step ob e)"
    by (rule held_step [OF Cons.prems(1,2) _ e]) (use Cons.prems(5) in simp)
  then have "\<exists>n'. held k f n' (foldl outbox_step (outbox_step ob e) es)"
    by (rule Cons.IH [OF outbox_step_ok [OF Cons.prems(1)]]) (use Cons.prems(3-5) in \<open>auto simp: step_max\<close>)
  then show ?case by simp
qed auto

lemma held_new:
  assumes "outbox_ok ob" "is_run_done p"
  shows "\<exists>i. held (text_of ''run_uuid'' p) \<lparr>fid = i, body = stamped now p\<rparr> 0 (enqueue_new now p ob)"
proof -
  let ?k = "text_of ''run_uuid'' p"
  obtain i where i: "pending_terminal (enqueue_new now p ob)
      = newest (ob_max ob) (AList.delete ?k (pending_terminal ob) @ [(?k, \<lparr>fid = i, body = stamped now p\<rparr>)])"
    using enqueue_new_terminal(1) [OF assms] unfolding move_to_end_def by blast
  have "1 \<le> ob_max ob" using assms(1) by (simp add: outbox_ok_def)
  then obtain zs where zs: "newest (ob_max ob) (AList.delete ?k (pending_terminal ob) @ [(?k, \<lparr>fid = i, body = stamped now p\<rparr>)])
      = zs @ [(?k, \<lparr>fid = i, body = stamped now p\<rparr>)]" "set zs \<subseteq> set (AList.delete ?k (pending_terminal ob))"
    using newest_keeps [of "[]" "ob_max ob" "AList.delete ?k (pending_terminal ob)" "(?k, \<lparr>fid = i, body = stamped now p\<rparr>)"]
    by auto
  have "fst ` set zs \<subseteq> fst ` set (AList.delete ?k (pending_terminal ob))" using zs(2) by (rule image_mono)
  then have "?k \<notin> fst ` set zs" using delete_notin_dom [of ?k "pending_terminal ob"] by blast
  then show ?thesis unfolding held_def i zs(1)
    by (intro exI [of _ i] exI [of _ zs] exI [of _ "[]"]) simp
qed

lemma connected_requeues:
  assumes ok: "outbox_ok ob" and k: "(k, f) \<in> set (pending_terminal ob)"
  shows "\<exists>g \<in> set (ob_queue (on_connected ob)). has_type ''run_done'' (body g) \<and> text_of ''run_uuid'' (body g) = k"
proof -
  let ?ob = "restore_pending_trace_frames ob"
  have f: "has_type ''run_done'' (body f)" "text_of ''run_uuid'' (body f) = k"
    using ok k by (auto simp: outbox_ok_def)
  have "\<exists>g \<in> set (ob_queue (restore_pending_terminal_frames ?ob)).
      has_type ''run_done'' (body g) \<and> text_of ''run_uuid'' (body g) = k"
  proof (cases "\<exists>g \<in> set (ob_queue ?ob). has_type ''run_done'' (body g) \<and> text_of ''run_uuid'' (body g) = k")
    case True
    then show ?thesis by (auto simp: restore_pending_terminal_frames_def Let_def)
  next
    case False
    then have "f \<in> set (ob_queue (restore_pending_terminal_frames ?ob))"
      using k by (force simp: restore_pending_terminal_frames_def Let_def)
    then show ?thesis using f by blast
  qed
  then show ?thesis
    by (auto simp: on_connected_def restore_pending_datasource_terminal_frames_def Let_def)
qed


definition sample_done_frame :: pydict where
  "sample_done_frame = [(''type'', PStr ''run_done''), (''run_uuid'', PStr ''r'')]"


end
