(* ===== verification/Outbox_Reconnect.thy ===== *)
theory Outbox_Reconnect
  imports Outbox_Properties
begin

text \<open>
  What a reconnect does to the trace frames of the outbox: for every run, those queued and
  those not acknowledged come back together, in the order of their sequence numbers; and what a
  cancelled send does to the frame it was sending.
\<close>

section \<open>Identity of trace frames\<close>

text \<open>The trace frames the outbox refers to; two references with the same identity are one frame.\<close>

definition trace_refs :: "outbox \<Rightarrow> out_frame set" where
  "trace_refs ob = {f \<in> set (ob_queue ob) \<union> set (opt_list (in_flight ob)) \<union> snd ` set (pending_trace ob). is_trace (body f)}"

definition refs_ok :: "outbox \<Rightarrow> bool" where
  "refs_ok ob \<longleftrightarrow> inj_on fid (trace_refs ob) \<and> (\<forall>f \<in> trace_refs ob. fid f < next_fid ob)"

lemma refs_subset:
  "refs_ok ob \<Longrightarrow> trace_refs ob' \<subseteq> trace_refs ob \<Longrightarrow> next_fid ob \<le> next_fid ob' \<Longrightarrow> refs_ok ob'"
  unfolding refs_ok_def by (metis inj_on_subset order.strict_trans2 subset_iff)

lemma refs_insert:
  "refs_ok ob \<Longrightarrow> trace_refs ob' \<subseteq> insert \<lparr>fid = next_fid ob, body = p\<rparr> (trace_refs ob) \<Longrightarrow> next_fid ob < next_fid ob'
    \<Longrightarrow> refs_ok ob'"
  unfolding refs_ok_def inj_on_def by (metis insert_iff less_imp_neq order.strict_trans out_frame.select_convs(1) subset_iff)

lemma note_trace_refs: "trace_refs (note_trace f ob) \<subseteq> insert f (trace_refs ob)"
proof
  fix g assume g: "g \<in> trace_refs (note_trace f ob)"
  show "g \<in> insert f (trace_refs ob)"
  proof (cases "g \<in> snd ` set (pending_trace (note_trace f ob))")
    case True
    then obtain k where "(k, g) \<in> set (pending_trace (note_trace f ob))" by auto
    then have "g = f \<or> g \<in> snd ` set (pending_trace ob)"
      by (force simp: note_trace_def dest!: set_newest foldl_move_to_end split: if_splits)
    then show ?thesis using g by (auto simp: trace_refs_def)
  next
    case False
    then show ?thesis using g by (auto simp: trace_refs_def)
  qed
qed

lemma note_terminal_refs:
  assumes "note_terminal now f ob = (f', ob')"
  shows "trace_refs ob' = trace_refs ob" "next_fid ob \<le> next_fid ob'" "f' = f \<or> \<not> is_trace (body f')"
  using assms
  by (auto simp: note_terminal_def is_run_done_def trace_refs_def is_trace_def Let_def has_type_def stamped_def dget_update split: if_splits)

lemma enqueue_frame_refs:
  "trace_refs (enqueue_frame now f ob) \<subseteq> insert f (trace_refs ob)" "next_fid ob \<le> next_fid (enqueue_frame now f ob)"
proof -
  obtain f' ob2 where nt: "note_terminal now f (note_trace f ob) = (f', ob2)"
    by (cases "note_terminal now f (note_trace f ob)")
  note refs = note_terminal_refs [OF nt]
  let ?ob3 = "note_datasource f' ob2"
  have three: "trace_refs ?ob3 \<subseteq> insert f (trace_refs ob)"
    using note_trace_refs [of f ob] refs(1) by (auto simp: note_datasource_def trace_refs_def)
  have eq: "enqueue_frame now f ob = (case coalesces (body f') ?ob3 of
      Some i \<Rightarrow> ?ob3\<lparr>ob_queue := (ob_queue ?ob3)[i := f'], ob_coalesced := ob_coalesced ?ob3 + 1\<rparr>
    | None \<Rightarrow> push_frame f' ?ob3)" by (simp add: enqueue_frame_def nt Let_def)
  have "trace_refs (enqueue_frame now f ob) \<subseteq> insert f' (trace_refs ?ob3)"
    by (auto simp: eq push_frame_def trace_refs_def Let_def dest: in_set_dropD
        set_update_subset_insert [THEN subsetD] split: option.splits)
  moreover have "g \<in> trace_refs (enqueue_frame now f ob) \<Longrightarrow> is_trace (body g)" for g by (simp add: trace_refs_def)
  ultimately show "trace_refs (enqueue_frame now f ob) \<subseteq> insert f (trace_refs ob)"
    using three refs(3) by blast
  have "next_fid (note_trace f ob) = next_fid ob" "next_fid (note_datasource f' ob2) = next_fid ob2"
    by (simp_all add: note_trace_def note_datasource_def)
  then show "next_fid ob \<le> next_fid (enqueue_frame now f ob)"
    using refs(2) by (simp add: eq push_frame_def Let_def split: option.split)
qed

lemma flush_refs:
  assumes "outbox_ok ob"
  shows "trace_refs (flush_buffered_output now ob) \<subseteq> trace_refs ob" "next_fid ob \<le> next_fid (flush_buffered_output now ob)"
proof -
  have "trace_refs (flush_buffered_output now ob) \<subseteq> trace_refs ob \<and> next_fid ob \<le> next_fid (flush_buffered_output now ob)"
  proof (cases "buffered_output ob")
    case (Some g)
    then have "\<not> is_trace (body g)" using assms by (auto simp: outbox_ok_def dest: delta_not_other)
    then have "g \<notin> trace_refs (flush_buffered_output now ob)" by (simp add: trace_refs_def)
    moreover have "trace_refs (ob\<lparr>buffered_output := None\<rparr>) = trace_refs ob" by (simp add: trace_refs_def)
    ultimately show ?thesis
      using enqueue_frame_refs [where now = now and f = g and ob = "ob\<lparr>buffered_output := None\<rparr>"]
      by (auto simp: flush_buffered_output_def Some)
  qed (simp add: flush_buffered_output_def)
  then show "trace_refs (flush_buffered_output now ob) \<subseteq> trace_refs ob" "next_fid ob \<le> next_fid (flush_buffered_output now ob)"
    by blast+
qed

lemma merge_refs: "trace_refs (merge_delta p ob) = trace_refs ob" "next_fid ob \<le> next_fid (merge_delta p ob)"
  by (auto simp: merge_delta_def trace_refs_def split: option.split)

lemma enqueue_refs:
  assumes "outbox_ok ob"
  shows "trace_refs (enqueue now f ob) \<subseteq> insert f (trace_refs ob)" "next_fid ob \<le> next_fid (enqueue now f ob)"
proof -
  have "trace_refs (enqueue now f ob) \<subseteq> insert f (trace_refs ob) \<and> next_fid ob \<le> next_fid (enqueue now f ob)"
  proof (cases "is_delta (body f)")
    case True
    let ?ob1 = "case buffered_output ob of
        Some g \<Rightarrow> if dget (body g) ''run_uuid'' \<noteq> dget (body f) ''run_uuid'' then flush_buffered_output now ob else ob
      | None \<Rightarrow> ob"
    let ?ob2 = "merge_delta (body f) ?ob1"
    have ok1: "outbox_ok ?ob1" using assms flush_ok by (auto split: option.split)
    have "trace_refs ?ob1 \<subseteq> trace_refs ob \<and> next_fid ob \<le> next_fid ?ob1"
      using flush_refs [OF assms, where now = now] by (auto split: option.split)
    then have two: "trace_refs ?ob2 \<subseteq> trace_refs ob" "next_fid ob \<le> next_fid ?ob2" "outbox_ok ?ob2"
      using merge_refs [where p = "body f" and ob = ?ob1] merge_delta_ok [OF ok1 True] by auto
    have "enqueue now f ob = ?ob2 \<or> enqueue now f ob = flush_buffered_output now ?ob2"
      using True by (auto simp: enqueue_def Let_def split: option.split)
    then show ?thesis using two flush_refs [OF two(3), where now = now] by auto
  next
    case False
    then show ?thesis
      using flush_refs [OF assms, where now = now] enqueue_frame_refs [where now = now and f = f and ob = "flush_buffered_output now ob"]
      by (auto simp: enqueue_def)
  qed
  then show "trace_refs (enqueue now f ob) \<subseteq> insert f (trace_refs ob)" "next_fid ob \<le> next_fid (enqueue now f ob)"
    by blast+
qed

lemma trace_frames_refs:
  "((r, ss), f) \<in> set (trace_frames ob) \<Longrightarrow> f \<in> set (ob_queue ob) \<union> snd ` set (pending_trace ob)"
  unfolding trace_frames_def by (drule add_pending_frames) (force dest: queued_trace_frames)

lemma rebuild_set: "rebuild d em q = (front, em') \<Longrightarrow> set front \<subseteq> set q \<union> snd ` set d"
proof (induction q arbitrary: em front em')
  case (Cons f q)
  let ?first = "text_of ''run_uuid'' (body f) \<in> (fst \<circ> fst) ` set d \<and> text_of ''run_uuid'' (body f) \<notin> set em"
  obtain rest em2 where r: "rebuild d (if ?first then em @ [text_of ''run_uuid'' (body f)] else em) q = (rest, em2)"
    by (cases "rebuild d (if ?first then em @ [text_of ''run_uuid'' (body f)] else em) q")
  have "set rest \<subseteq> set q \<union> snd ` set d" by (rule Cons.IH [OF r])
  moreover have "front = (if ?first then run_frames d (text_of ''run_uuid'' (body f)) else [])
      @ (if is_trace (body f) then [] else [f]) @ rest"
    using Cons.prems by (simp add: r Let_def del: o_apply)
  moreover have "set (run_frames d r) \<subseteq> snd ` set d" for r by (force simp: run_frames_def)
  ultimately show ?case by auto
qed simp

lemma on_connected_refs:
  assumes "outbox_ok ob"
  shows "trace_refs (on_connected ob) \<subseteq> trace_refs ob" "next_fid (on_connected ob) = next_fid ob"
proof -
  let ?ob = "restore_pending_trace_frames ob"
  obtain front em where r: "rebuild (trace_frames ob) [] (ob_queue ob) = (front, em)"
    by (cases "rebuild (trace_frames ob) [] (ob_queue ob)")
  have known: "snd ` set (trace_frames ob) \<subseteq> set (ob_queue ob) \<union> snd ` set (pending_trace ob)"
    using trace_frames_refs by fastforce
  have "set (run_frames (trace_frames ob) x) \<subseteq> snd ` set (trace_frames ob)" for x by (force simp: run_frames_def)
  then have "set (ob_queue ?ob) \<subseteq> set (ob_queue ob) \<union> snd ` set (pending_trace ob)"
    using rebuild_set [OF r] known by (auto simp: restore_pending_trace_frames_def Let_def r) blast+
  then have "trace_refs ?ob \<subseteq> trace_refs ob" by (auto simp: trace_refs_def)
  moreover have silent: "\<And>k f. (k, f) \<in> set (pending_terminal ob) \<Longrightarrow> \<not> is_trace (body f)"
    "\<And>k f. (k, f) \<in> set (pending_datasource ob) \<Longrightarrow> \<not> is_trace (body f)"
    using assms by (auto simp: outbox_ok_def is_trace_def has_type_def is_datasource_terminal_def datasource_terminal_types_def)
  have "trace_refs (on_connected ob) \<subseteq> trace_refs ?ob"
    by (auto dest: silent simp: on_connected_def restore_pending_terminal_frames_def restore_pending_datasource_terminal_frames_def
        Let_def trace_refs_def)
  ultimately show "trace_refs (on_connected ob) \<subseteq> trace_refs ob" by blast
  show "next_fid (on_connected ob) = next_fid ob"
    by (simp add: on_connected_def restore_pending_trace_frames_def restore_pending_terminal_frames_def
        restore_pending_datasource_terminal_frames_def Let_def split: prod.split)
qed

lemma refs_step:
  assumes ok: "outbox_ok ob" and refs: "refs_ok ob"
  shows "refs_ok (outbox_step ob e)"
proof (cases e)
  case (Enqueue now p)
  let ?ob = "ob\<lparr>next_fid := Suc (next_fid ob)\<rparr>" and ?f = "\<lparr>fid = next_fid ob, body = p\<rparr>"
  have "trace_refs ?ob = trace_refs ob" by (simp add: trace_refs_def)
  then show ?thesis
    using enqueue_refs [where ob = ?ob and now = now and f = ?f] ok
    by (intro refs_insert [OF refs, of _ p]) (simp_all add: Enqueue enqueue_new_def)
next
  case (FlushTimer now)
  then show ?thesis using flush_refs [OF ok, where now = now] by (auto intro: refs_subset [OF refs])
next
  case Connected
  then show ?thesis using on_connected_refs [OF ok] by (auto intro: refs_subset [OF refs])
qed (auto intro!: refs_subset [OF refs] simp: trace_refs_def send_start_def send_done_def send_failed_def send_cancelled_def
      run_done_ack_def trace_ack_def datasource_ack_def acknowledge_datasource_terminal_frame_def Let_def opt_list_def
      split: option.splits list.splits py.splits)

interpretation outbox_refs: step_invariant outbox_step "\<lambda>ob. outbox_ok ob \<and> refs_ok ob"
  by unfold_locales (auto intro: outbox_step_ok refs_step)

lemma new_outbox_refs: "refs_ok (new_outbox mx soft)"
  by (simp add: refs_ok_def trace_refs_def new_outbox_def)

section \<open>Every pending number comes back\<close>

definition covers_seq :: "trace_index \<Rightarrow> string \<Rightarrow> int \<Rightarrow> bool" where
  "covers_seq d r s \<longleftrightarrow> (\<exists>ss f. ((r, ss), f) \<in> set d \<and> s \<in> set (frame_seqs (body f)))"

lemma covers_seq_mono: "covers_seq d r s \<Longrightarrow> set d \<subseteq> set d' \<Longrightarrow> covers_seq d' r s"
  unfolding covers_seq_def by blast

lemma add_pending_grows: "set d \<subseteq> set (add_pending ps known covered d)"
proof (induction ps known covered d rule: add_pending.induct)
  case (2 r s f ps known covered d)
  let ?d = "if (r, [s]) \<in> fst ` set d then d else d @ [((r, [s]), f)]"
  show ?case
  proof (cases "fid f \<in> known \<or> (r, s) \<in> covered")
    case False
    have "set d \<subseteq> set ?d" by auto
    also have "\<dots> \<subseteq> set (add_pending ps (insert (fid f) known) (insert (r, s) covered) ?d)" by (rule "2.IH"(2) [OF False])
    finally show ?thesis using False by simp
  qed (use "2.IH"(1) in simp)
qed simp

lemma add_pending_covers:
  assumes "\<forall>((r, s), f) \<in> set ps. s \<in> set (frame_seqs (body f))"
    and "\<forall>((r, s), f) \<in> set ps. fid f \<in> known \<longrightarrow> (\<forall>s \<in> set (frame_seqs (body f)). covers_seq d r s)"
    and "\<forall>(r, s) \<in> covered. covers_seq d r s"
    and "\<forall>((r, ss), f) \<in> set d. \<forall>s \<in> set ss. (r, s) \<in> covered"
    and "\<forall>((r, s), f) \<in> set ps. \<forall>((r', s'), f') \<in> set ps. fid f = fid f' \<longrightarrow> f = f' \<and> r = r'"
  shows "\<forall>((r, s), f) \<in> set ps. covers_seq (add_pending ps known covered d) r s"
  using assms
proof (induction ps known covered d rule: add_pending.induct)
  case (2 r s f ps known covered d)
  show ?case
  proof (cases "fid f \<in> known \<or> (r, s) \<in> covered")
    case True
    have "\<forall>((r, s), f) \<in> set ps. covers_seq (add_pending ps known covered d) r s"
      by (rule "2.IH"(1) [OF True]) (use "2.prems" in auto)
    moreover have "covers_seq d r s" using True "2.prems"(1,2,3) by auto
    then have "covers_seq (add_pending ps known covered d) r s" by (rule covers_seq_mono) (rule add_pending_grows)
    ultimately show ?thesis using True by simp
  next
    case False
    let ?d = "d @ [((r, [s]), f)]"
    have new: "(r, [s]) \<notin> fst ` set d" using False "2.prems"(4) by force
    have s: "s \<in> set (frame_seqs (body f))" using "2.prems"(1) by simp
    have here: "covers_seq ?d r s'" if "s' \<in> set (frame_seqs (body f))" for s'
      using that by (auto simp: covers_seq_def)
    have up: "covers_seq d r' s' \<Longrightarrow> covers_seq ?d r' s'" for r' s' by (erule covers_seq_mono) auto
    have rest: "\<forall>((r', s'), f') \<in> set ps. covers_seq (add_pending ps (insert (fid f) known) (insert (r, s) covered) ?d) r' s'"
    proof (rule "2.IH"(2) [OF False, simplified new if_False])
      show "\<forall>((r, s), f) \<in> set ps. s \<in> set (frame_seqs (body f))" using "2.prems"(1) by auto
      show "\<forall>((r', s'), f') \<in> set ps. fid f' \<in> insert (fid f) known \<longrightarrow> (\<forall>s' \<in> set (frame_seqs (body f')). covers_seq ?d r' s')"
        using "2.prems"(2,5) here up by fastforce
      show "\<forall>(r', s') \<in> insert (r, s) covered. covers_seq ?d r' s'"
        using "2.prems"(3) here [OF s] up by auto
      show "\<forall>((r', ss), f') \<in> set ?d. \<forall>s' \<in> set ss. (r', s') \<in> insert (r, s) covered"
        using "2.prems"(4) by auto
      show "\<forall>((r, s), f) \<in> set ps. \<forall>((r', s'), f') \<in> set ps. fid f = fid f' \<longrightarrow> f = f' \<and> r = r'"
        using "2.prems"(5) by auto
    qed
    have "covers_seq (add_pending ps (insert (fid f) known) (insert (r, s) covered) ?d) r s"
      by (rule covers_seq_mono [OF here [OF s]]) (rule add_pending_grows)
    with rest False new show ?thesis by simp
  qed
qed simp

text \<open>What the index of the queued frames holds.\<close>

lemma queued_trace_covers:
  assumes "f \<in> set (tracked q)"
  shows "\<exists>g. ((text_of ''run_uuid'' (body f), frame_seqs (body f)), g) \<in> set (queued_trace q)"
proof -
  let ?key = "\<lambda>f. (text_of ''run_uuid'' (body f), frame_seqs (body f))"
  let ?step = "\<lambda>d f. let r = text_of ''run_uuid'' (body f); ss = frame_seqs (body f)
      in if is_trace (body f) \<and> r \<noteq> [] \<and> ss \<noteq> [] then AList.update (r, ss) f d else d"
  have grow: "fst ` set d \<subseteq> fst ` set (foldl ?step d xs)" for d xs
  proof (induction xs arbitrary: d)
    case (Cons x xs)
    have "fst ` set d \<subseteq> fst ` set (?step d x)" by (auto simp: Let_def dom_update)
    with Cons.IH [of "?step d x"] show ?case by auto
  qed simp
  have "f \<in> set (tracked xs) \<Longrightarrow> ?key f \<in> fst ` set (foldl ?step d xs)" for d xs
  proof (induction xs arbitrary: d)
    case (Cons x xs)
    show ?case
    proof (cases "f = x")
      case True
      then have "?key f \<in> fst ` set (?step d x)" using Cons.prems
        by (auto simp: tracked_def Let_def dom_update)
      then show ?thesis using grow [of "?step d x" xs] by auto
    next
      case False
      then show ?thesis using Cons by (auto simp: tracked_def split: if_splits)
    qed
  qed (simp add: tracked_def)
  from this [OF assms, of "[]"] show ?thesis by (force simp: queued_trace_def)
qed

lemma pending_covered:
  assumes ok: "outbox_ok ob" "refs_ok ob" and p: "((r, s), f) \<in> set (pending_trace ob)"
  shows "covers_seq (trace_frames ob) r s"
proof -
  let ?ps = "pending_trace ob" and ?q = "ob_queue ob"
  have good: "is_trace (body f) \<and> text_of ''run_uuid'' (body f) = r \<and> s \<in> set (frame_seqs (body f))"
    if "((r, s), f) \<in> set ?ps" for r s f
    using ok(1) that by (auto simp: outbox_ok_def)
  have ref: "f \<in> trace_refs ob" if "((r, s), f) \<in> set ?ps" for r s f
    using good [OF that] that by (force simp: trace_refs_def)
  have inj: "f = g" if "f \<in> trace_refs ob" "g \<in> trace_refs ob" "fid f = fid g" for f g
    using ok(2) that by (auto simp: refs_ok_def inj_on_def)
  have known: "covers_seq (queued_trace ?q) (text_of ''run_uuid'' (body f)) s'"
    if tr: "f \<in> set (tracked ?q)" and sq: "s' \<in> set (frame_seqs (body f))" for f s'
  proof -
    obtain g where g: "((text_of ''run_uuid'' (body f), frame_seqs (body f)), g) \<in> set (queued_trace ?q)"
      using queued_trace_covers [OF tr] by blast
    then have "frame_seqs (body g) = frame_seqs (body f)" using queued_trace_frames by fastforce
    with g sq show ?thesis unfolding covers_seq_def by metis
  qed
  have "\<forall>((r, s), f) \<in> set ?ps. covers_seq (add_pending ?ps (queued_ids ?q) (queued_seqs ?q) (queued_trace ?q)) r s"
  proof (rule add_pending_covers)
    show "\<forall>((r, s), f) \<in> set ?ps. s \<in> set (frame_seqs (body f))" using good by blast
    show "\<forall>((r, s), f) \<in> set ?ps. fid f \<in> queued_ids ?q \<longrightarrow>
        (\<forall>s \<in> set (frame_seqs (body f)). covers_seq (queued_trace ?q) r s)"
    proof (clarify)
      fix r s f s' assume f: "((r, s), f) \<in> set ?ps" "fid f \<in> queued_ids ?q" "s' \<in> set (frame_seqs (body f))"
      then obtain g where g: "g \<in> set (tracked ?q)" "fid g = fid f" by (auto simp: queued_ids_def)
      then have "g \<in> trace_refs ob" by (simp add: tracked_def trace_refs_def)
      then have "g = f" using inj [OF _ ref [OF f(1)] g(2)] by blast
      then show "covers_seq (queued_trace ?q) r s'" using known [OF g(1)] f(3) good [OF f(1)] by simp
    qed
    show "\<forall>(r, s) \<in> queued_seqs ?q. covers_seq (queued_trace ?q) r s"
      using known by (auto simp: queued_seqs_def)
    show "\<forall>((r, ss), f) \<in> set (queued_trace ?q). \<forall>s \<in> set ss. (r, s) \<in> queued_seqs ?q"
      by (fastforce simp: queued_seqs_def tracked_def dest: queued_trace_frames)
    show "\<forall>((r, s), f) \<in> set ?ps. \<forall>((r', s'), f') \<in> set ?ps. fid f = fid f' \<longrightarrow> f = f' \<and> r = r'"
    proof (clarify)
      fix r s f r' s' f'
      assume f: "((r, s), f) \<in> set ?ps" "((r', s'), f') \<in> set ?ps" "fid f = fid f'"
      have "f = f'" using inj [OF ref [OF f(1)] ref [OF f(2)] f(3)] .
      then show "f = f' \<and> r = r'" using good [OF f(1)] good [OF f(2)] by simp
    qed
  qed
  with p show ?thesis by (auto simp: trace_frames_def)
qed

section \<open>The rebuilt queue\<close>

definition of_run :: "string \<Rightarrow> out_frame \<Rightarrow> bool" where
  "of_run r f \<longleftrightarrow> is_trace (body f) \<and> text_of ''run_uuid'' (body f) = r"

definition indexed :: "trace_index \<Rightarrow> string \<Rightarrow> bool" where
  "indexed d r \<longleftrightarrow> r \<in> (fst \<circ> fst) ` set d"

lemma rebuild_runs:
  assumes "\<And>x f. f \<in> set (run_frames d x) \<Longrightarrow> of_run x f"
    and "rebuild d em q = (front, em')"
  shows "filter (of_run r) front
       = (if indexed d r \<and> r \<notin> set em \<and> (\<exists>f \<in> set q. text_of ''run_uuid'' (body f) = r) then run_frames d r else [])
     \<and> set em' = set em \<union> {x. indexed d x \<and> (\<exists>f \<in> set q. text_of ''run_uuid'' (body f) = x)}"
  using assms(2)
proof (induction q arbitrary: em front em')
  case (Cons f q)
  let ?x = "text_of ''run_uuid'' (body f)"
  let ?first = "indexed d ?x \<and> ?x \<notin> set em"
  let ?em = "if ?first then em @ [?x] else em"
  obtain rest em2 where rest: "rebuild d ?em q = (rest, em2)" by (cases "rebuild d ?em q")
  have front: "front = (if ?first then run_frames d ?x else []) @ (if is_trace (body f) then [] else [f]) @ rest"
    and em': "em' = em2"
    using Cons.prems rest by (simp_all add: Let_def indexed_def)
  note IH = Cons.IH [OF rest]
  have mine: "filter (of_run r) (run_frames d ?x) = (if ?x = r then run_frames d ?x else [])"
    using assms(1) by (auto simp: filter_id_conv filter_empty_conv of_run_def)
  have "filter (of_run r) (if is_trace (body f) then [] else [f]) = []" by (simp add: of_run_def)
  then have "filter (of_run r) front
      = (if ?first \<and> ?x = r then run_frames d r else []) @ filter (of_run r) rest"
    using mine by (auto simp: front)
  with IH show ?case by (auto simp: em')
qed simp

lemma sort_insort_sorted: "sorted (map first_seq (run_frames d r))"
  by (simp add: run_frames_def)

lemma restored_run:
  assumes "outbox_ok ob"
  shows "filter (of_run r) (ob_queue (on_connected ob)) = (if indexed (trace_frames ob) r then run_frames (trace_frames ob) r else [])"
proof -
  let ?d = "trace_frames ob"
  obtain front em where rb: "rebuild ?d [] (ob_queue ob) = (front, em)" by (cases "rebuild ?d [] (ob_queue ob)")
  have runs: "of_run x f" if "f \<in> set (run_frames ?d x)" for x f
    using run_frames_sound [OF assms that] by (simp add: of_run_def)
  note rebuilt = rebuild_runs [OF runs rb, of r]
  let ?others = "filter (\<lambda>x. x \<notin> set em) (first_occurrences (map (fst \<circ> fst) ?d))"
  have others: "set ?others = {x. indexed ?d x \<and> x \<notin> set em}" "distinct ?others"
    by (auto simp: first_occurrences_def indexed_def)
  have "filter (of_run r) (concat (map (run_frames ?d) xs)) = (if r \<in> set xs then run_frames ?d r else [])"
    if "distinct xs" for xs
    using that
  proof (induction xs)
    case (Cons x xs)
    have "filter (of_run r) (run_frames ?d x) = (if x = r then run_frames ?d x else [])"
      using runs by (auto simp: filter_id_conv filter_empty_conv of_run_def)
    with Cons show ?case by auto
  qed simp
  note tail = this [OF others(2)]
  have "filter (of_run r) (ob_queue (restore_pending_trace_frames ob)) = (if indexed ?d r then run_frames ?d r else [])"
    using rebuilt tail others(1) by (auto simp: restore_pending_trace_frames_def Let_def rb)
  moreover have "filter (of_run r) (map snd (filter P (pending_terminal ob))) = []" for P
    using assms by (auto simp: filter_empty_conv of_run_def outbox_ok_def is_trace_def has_type_def)
  moreover have "filter (of_run r) (map snd (filter P (pending_datasource ob))) = []" for P
    using assms by (auto simp: filter_empty_conv of_run_def outbox_ok_def is_trace_def has_type_def
        is_datasource_terminal_def datasource_terminal_types_def)
  ultimately show ?thesis
    by (simp add: on_connected_def restore_pending_terminal_frames_def restore_pending_datasource_terminal_frames_def Let_def)
qed


definition sample_trace_frame :: "int \<Rightarrow> pydict" where
  "sample_trace_frame i = [(''type'', PStr ''run_trace_events''), (''run_uuid'', PStr ''r''),
     (''events'', PList [PDict [(''sequence'', PInt i)]])]"

definition sample_lost :: outbox where
  "sample_lost = foldl outbox_step (new_outbox 2 2)
     [Enqueue PNone (sample_trace_frame 1), SendStart, SendCancelled, Enqueue PNone (sample_trace_frame 2)]"

lemma sample_lost_pending:
  "\<exists>f. ((''r'', 1), f) \<in> set (pending_trace sample_lost)" "length (ob_queue sample_lost) = 1"
  by (simp_all add: sample_lost_def sample_trace_frame_def new_outbox_def enqueue_new_def enqueue_def is_delta_def
      flush_buffered_output_def enqueue_frame_def note_trace_def is_trace_def has_type_def frame_seqs_def
      List.map_filter_def move_to_end_def newest_def text_of_def py_or_def note_terminal_def is_run_done_def
      note_datasource_def is_datasource_terminal_def datasource_terminal_types_def coalesces_def push_frame_def
      send_start_def send_cancelled_def Let_def)


section \<open>A cancelled send\<close>

text \<open>A send that is cancelled loses its frame: when the connection goes away while the send loop
  waits for the socket, its task is cancelled, neither \<open>except\<close> clause puts the popped frame
  back, and a frame that needs no acknowledgement (streamed text, a step event) is in no list
  of the outbox afterwards and is not brought back by the next connection.
\<close>

lemma cancelled_send_loses_frame:
  assumes "outbox_ok ob" "in_flight ob = None" "ob_queue ob = f # q" "\<not> is_trace (body f)"
    and "\<not> has_type ''run_done'' (body f)" "\<not> is_datasource_terminal (body f)" "f \<notin> set q"
  shows "f \<notin> set (ob_queue (on_connected (outbox_step (outbox_step ob SendStart) SendCancelled)))
       \<and> in_flight (outbox_step (outbox_step ob SendStart) SendCancelled) = None
       \<and> ob_sent (outbox_step (outbox_step ob SendStart) SendCancelled) = ob_sent ob"
proof -
  let ?ob = "ob\<lparr>ob_queue := q\<rparr>"
  have st: "outbox_step (outbox_step ob SendStart) SendCancelled = ?ob"
    using assms(2,3) by (simp add: send_start_def send_cancelled_def)
  have ok: "outbox_ok ?ob" using assms(1) by simp
  obtain front em where r: "rebuild (trace_frames ?ob) [] q = (front, em)" by (cases "rebuild (trace_frames ?ob) [] q")
  have trace: "\<not> is_trace (body g) \<Longrightarrow> g \<notin> snd ` set (trace_frames ?ob)" for g
    using trace_frames_sound [OF ok] by fastforce
  have "f \<notin> set front" using rebuild_set [OF r] trace [OF assms(4)] assms(7) by auto
  moreover have "f \<notin> set (run_frames (trace_frames ?ob) x)" for x
    using run_frames_sound [OF ok] assms(4) by blast
  ultimately have "f \<notin> set (ob_queue (restore_pending_trace_frames ?ob))"
    by (auto simp: restore_pending_trace_frames_def Let_def r)
  moreover have "f \<notin> snd ` set (pending_terminal ob)" "f \<notin> snd ` set (pending_datasource ob)"
    using assms(1,5,6) by (fastforce simp: outbox_ok_def)+
  ultimately have "f \<notin> set (ob_queue (on_connected ?ob))"
    by (auto simp: on_connected_def restore_pending_terminal_frames_def restore_pending_datasource_terminal_frames_def
        Let_def image_iff)
  then show ?thesis unfolding st by (simp add: assms(2))
qed

lemma cancelled_send_loses_frame_sample:
  "let ob = (new_outbox 3 3)\<lparr>ob_queue := [\<lparr>fid = 0, body = sample_delta ''a''\<rparr>]\<rparr>
   in \<lparr>fid = 0, body = sample_delta ''a''\<rparr> \<notin> set (ob_queue (on_connected (outbox_step (outbox_step ob SendStart) SendCancelled)))
      \<and> in_flight (outbox_step (outbox_step ob SendStart) SendCancelled) = None
      \<and> ob_sent (outbox_step (outbox_step ob SendStart) SendCancelled) = ob_sent ob"
  unfolding Let_def
  by (rule cancelled_send_loses_frame)
    (simp_all add: new_outbox_ok, simp_all add: new_outbox_def sample_delta_def is_trace_def has_type_def
      is_datasource_terminal_def datasource_terminal_types_def)

end
