(* ===== verification/Activity_Properties.thy ===== *)
theory Activity_Properties
  imports Event_Properties
begin

text \<open>
  The activities of a step: each shown field is public, and the kind, the dates and the order an
  activity has shown once are those of every later event with its identifier.
\<close>

section \<open>Public fields of an activity\<close>

definition ACTIVITY_KINDS :: "string set" where
  "ACTIVITY_KINDS = BUSINESS_ACTIVITY_KINDS \<union> {''checking_authentication'', ''authenticating'', ''checking_tool'',
     ''reading_order_commands'', ''summarizing_results''}"

definition safe_name :: "char set \<Rightarrow> string \<Rightarrow> bool" where
  "safe_name extra s = (s \<noteq> [] \<and> length s \<le> 64 \<and> list_all (\<lambda>c. is_alnum c \<or> c \<in> extra) s)"

definition activity_field :: "texts \<Rightarrow> string \<Rightarrow> py \<Rightarrow> bool" where
  "activity_field tx k v \<longleftrightarrow>
     (k = ''id'' \<and> (\<exists>s. v = PStr s \<and> safe_name {CHR ''-'', CHR ''_''} s))
   \<or> (k = ''kind'' \<and> (\<exists>s \<in> ACTIVITY_KINDS. v = PStr s))
   \<or> (k = ''stage_kind'' \<and> (\<exists>s \<in> {''order_query'', ''preparation'', ''result_analysis'', ''data_query''}. v = PStr s))
   \<or> (k = ''status'' \<and> (\<exists>s \<in> {''completed'', ''failed'', ''in_progress''}. v = PStr s))
   \<or> (k \<in> {''start_date'', ''end_date''} \<and> (\<exists>x d. iso_day tx x = Some d \<and> v = PStr d))
   \<or> (k = ''order_ref'' \<and> (\<exists>s. v = PStr s \<and> safe_name {CHR ''.'', CHR ''_'', CHR ''-''} s))"

definition public_activity :: "texts \<Rightarrow> pydict \<Rightarrow> bool" where
  "public_activity tx p = list_all (\<lambda>(k, v). activity_field tx k v) p"

lemma field_rules:
  "safe_name {CHR ''-'', CHR ''_''} s \<Longrightarrow> activity_field tx ''id'' (PStr s)"
  "s \<in> ACTIVITY_KINDS \<Longrightarrow> activity_field tx ''kind'' (PStr s)"
  "s \<in> {''order_query'', ''preparation'', ''result_analysis'', ''data_query''} \<Longrightarrow> activity_field tx ''stage_kind'' (PStr s)"
  "s \<in> {''completed'', ''failed'', ''in_progress''} \<Longrightarrow> activity_field tx ''status'' (PStr s)"
  "iso_day tx x = Some s \<Longrightarrow> activity_field tx ''start_date'' (PStr s)"
  "iso_day tx x = Some s \<Longrightarrow> activity_field tx ''end_date'' (PStr s)"
  "safe_name {CHR ''.'', CHR ''_'', CHR ''-''} s \<Longrightarrow> activity_field tx ''order_ref'' (PStr s)"
  by (auto simp: activity_field_def)

lemma safe_id: "safe_activity_id repr v = [] \<or> safe_name {CHR ''-'', CHR ''_''} (safe_activity_id repr v)"
proof -
  have "length (py_strip (text_cut repr v 64)) \<le> 64"
    by (rule order_trans [OF length_py_strip]) (simp add: text_cut_def)
  then show ?thesis by (simp add: safe_activity_id_def Let_def safe_name_def)
qed

lemma safe_order: "safe_order_reference repr v = [] \<or> safe_name {CHR ''.'', CHR ''_'', CHR ''-''} (safe_order_reference repr v)"
  by (simp add: safe_order_reference_def Let_def safe_name_def)

lemma date_is_iso: "date_argument tx a n \<noteq> [] \<Longrightarrow> \<exists>x. iso_day tx x = Some (date_argument tx a n)"
  by (cases a) (auto simp: date_argument_def Let_def split: option.splits if_splits)

lemma dates_public: "public_activity tx (date_fields tx a)"
proof -
  have "activity_field tx ''start_date'' (PStr (date_argument tx a n))"
    "activity_field tx ''end_date'' (PStr (date_argument tx a n))" if "date_argument tx a n \<noteq> []" for n
    using date_is_iso [OF that] by (blast intro: field_rules)+
  then show ?thesis by (simp add: public_activity_def date_fields_def text_field_if_def Let_def)
qed

lemma script_known: "script_kind repr a \<in> ACTIVITY_KINDS - {''summarizing_results''}"
  by (simp add: script_kind_def ACTIVITY_KINDS_def BUSINESS_ACTIVITY_KINDS_def)

lemma other_known: "''count_results'' \<in> ACTIVITY_KINDS" "''group_results'' \<in> ACTIVITY_KINDS"
  "''analyzing_results'' \<in> ACTIVITY_KINDS" "''querying_data'' \<in> ACTIVITY_KINDS"
  by (simp_all add: ACTIVITY_KINDS_def BUSINESS_ACTIVITY_KINDS_def)

lemma kind_known: "tool_activity_kind repr tool item \<noteq> [] \<Longrightarrow>
    tool_activity_kind repr tool item \<in> ACTIVITY_KINDS - {''summarizing_results''}"
  using script_known [of repr "dget item ''args_redacted''"] other_known
  by (auto simp: tool_activity_kind_def Let_def split: if_split_asm)

lemma stage_known: "activity_stage_kind kind \<in> {''order_query'', ''preparation'', ''result_analysis'', ''data_query''}"
  by (simp add: activity_stage_kind_def)

lemma order_field_public: "public_activity tx (text_field_if ''order_ref'' (safe_order_reference repr v))"
  using safe_order [of repr v] by (auto simp: public_activity_def text_field_if_def intro: field_rules)

lemma order_argument_public: "public_activity tx (text_field_if ''order_ref'' (order_reference_argument repr a))"
  unfolding order_reference_argument_def Let_def by (rule order_field_public)

lemma public_append [simp]: "public_activity tx (p @ q) = (public_activity tx p \<and> public_activity tx q)"
  by (simp add: public_activity_def)

lemma public_Nil [simp]: "public_activity tx []"
  by (simp add: public_activity_def)

lemma payload_public:
  assumes "safe_name {CHR ''-'', CHR ''_''} i" "kind \<in> ACTIVITY_KINDS" "status \<in> {''completed'', ''failed'', ''in_progress''}"
  shows "public_activity tx (activity_payload tx item i kind status)"
proof -
  have f: "activity_field tx ''id'' (PStr i)" "activity_field tx ''kind'' (PStr kind)"
    "activity_field tx ''stage_kind'' (PStr (activity_stage_kind kind))" "activity_field tx ''status'' (PStr status)"
    by (rule field_rules, rule assms stage_known)+
  have "public_activity tx [(''id'', PStr i), (''kind'', PStr kind), (''stage_kind'', PStr (activity_stage_kind kind)),
      (''status'', PStr status)]"
    by (simp add: public_activity_def f)
  then show ?thesis
    unfolding activity_payload_def public_append
    by (simp del: set_simps add: dates_public order_argument_public)
qed

lemma status_known: "map_of TOOL_ACTIVITY_STATUSES s = Some t \<Longrightarrow> t \<in> {''completed'', ''failed'', ''in_progress''}"
  by (drule map_of_SomeD) (auto simp: TOOL_ACTIVITY_STATUSES_def)

lemma tool_activity_public:
  assumes "sanitize_tool_activity tx item = Some e"
  obtains p where "e = activity_event p" "public_activity tx p" "dget p ''kind'' \<noteq> PStr ''summarizing_results''"
proof -
  from assms obtain tool ending status where
    e: "e = activity_event (activity_payload tx item (safe_activity_id (repr_of tx) (dget item ''invocation_id''))
              (tool_activity_kind (repr_of tx) tool item) status)"
    and ok: "safe_activity_id (repr_of tx) (dget item ''invocation_id'') \<noteq> []"
      "tool_activity_kind (repr_of tx) tool item \<noteq> []" "map_of TOOL_ACTIVITY_STATUSES ending = Some status"
    by (auto simp: sanitize_tool_activity_def Let_def split: if_splits prod.splits list.splits option.splits)
  have "safe_name {CHR ''-'', CHR ''_''} (safe_activity_id (repr_of tx) (dget item ''invocation_id''))"
    using safe_id ok(1) by blast
  then show thesis
    using that [OF e] kind_known [OF ok(2)] payload_public status_known [OF ok(3)]
    by (simp add: activity_payload_def)
qed

section \<open>Events\<close>

lemma activity_event_eq [simp]: "activity_event p = activity_event q \<longleftrightarrow> p = q"
  by (simp add: activity_event_def)

lemma activity_event_type [simp]: "dget (activity_event p) ''event_type'' = PStr ''activity.recorded''"
  "dget (activity_event p) ''payload'' = PDict p"
  by (simp_all add: activity_event_def)

lemma name_field_other: "k \<noteq> ''assistant_name'' \<Longrightarrow> k \<notin> fst ` set (name_field repr d)"
  by (simp add: name_field_def text_field_if_def)

lemma plain_event_cases:
  assumes "plain_event tx d = Some e"
  shows "sanitize_tool_activity tx d = Some e \<or> dget e ''event_type'' = PNone"
  using assms dget_absent [OF name_field_other, of "''event_type''" "repr_of tx" d]
  by (auto simp: plain_event_def Let_def split: if_splits option.splits)

lemma workflow_event_type: "workflow_event repr t d = Inr e \<Longrightarrow> dget e ''event_type'' = PStr t"
  by (auto simp: workflow_event_def rbind_Inr_iff)

lemma runtime_event_cases:
  assumes "sanitize_runtime_event tx item = Inr (Some e)"
  obtains p where "e = activity_event p" "public_activity tx p" "dget p ''kind'' \<noteq> PStr ''summarizing_results''"
  | "dget e ''event_type'' \<noteq> PStr ''activity.recorded''"
proof -
  from assms obtain d public where d: "item = PDict d"
    and p: "(if dget d ''visibility'' = PStr ''user'' then in_texts (dget d ''event_type'') PUBLIC_EVENT_TYPES
                 else Inr False) = Inr public"
    and e: "plain_event tx d = Some e \<or>
        (\<exists>t. public \<and> dget d ''event_type'' = PStr t \<and> workflow_event (repr_of tx) t d = Inr e)"
  proof (cases item)
    case (PDict d)
    from assms [unfolded PDict sanitize_runtime_event_def py.case rbind_Inr_iff] obtain public where
      p: "(if dget d ''visibility'' = PStr ''user'' then in_texts (dget d ''event_type'') PUBLIC_EVENT_TYPES
                 else Inr False) = Inr public"
      and r: "(case dget d ''event_type'' of
               PStr t \<Rightarrow> if public then rbind (workflow_event (repr_of tx) t d) (\<lambda>e. Inr (Some e))
                         else Inr (plain_event tx d)
             | _ \<Rightarrow> Inr (plain_event tx d)) = Inr (Some e)" by blast
    have "plain_event tx d = Some e \<or>
        (\<exists>t. public \<and> dget d ''event_type'' = PStr t \<and> workflow_event (repr_of tx) t d = Inr e)"
      using r by (cases "dget d ''event_type''"; cases public) (auto simp: rbind_Inr_iff)
    then show thesis using that PDict p by blast
  qed (use assms in \<open>simp_all add: sanitize_runtime_event_def\<close>)
  from e show thesis
  proof (elim disjE exE conjE)
    assume "plain_event tx d = Some e"
    then show thesis using plain_event_cases that tool_activity_public by (metis py.distinct(7))
  next
    fix t assume t: "public" "dget d ''event_type'' = PStr t" "workflow_event (repr_of tx) t d = Inr e"
    then have "t \<in> PUBLIC_EVENT_TYPES" using p by (auto split: if_splits)
    then have "t \<noteq> ''activity.recorded''" by (auto simp: PUBLIC_EVENT_TYPES_def)
    then show thesis using that(2) workflow_event_type [OF t(3)] by simp
  qed
qed

section \<open>What an activity has shown\<close>

text \<open>\<open>q\<close> shows what \<open>p\<close> has shown.\<close>

definition agrees :: "pydict \<Rightarrow> pydict \<Rightarrow> bool" where
  "agrees p q \<longleftrightarrow> (\<forall>k \<in> set sticky_keys. truthy (dget p k) \<longrightarrow> dget q k = dget p k)"

lemma agrees_refl [simp]: "agrees p p"
  by (simp add: agrees_def)

lemma agrees_trans: "agrees p q \<Longrightarrow> agrees q r \<Longrightarrow> agrees p r"
  by (simp add: agrees_def)

lemma dget_fold_stick:
  "dget (fold (stick prev) ks p) k = (if k \<in> set ks \<and> truthy (dget prev k) then dget prev k else dget p k)"
  by (induction ks arbitrary: p) (auto simp: stick_def dget_update)

lemma settled_agrees: "map_of by_id (activity_id_of p) = Some q \<Longrightarrow> agrees q (settled_payload by_id p)"
  by (simp add: agrees_def settled_payload_def dget_fold_stick)

lemma settled_id [simp]: "activity_id_of (settled_payload by_id p) = activity_id_of p"
proof -
  have "''id'' \<notin> set sticky_keys" by (simp add: sticky_keys_def)
  then show ?thesis by (simp add: activity_id_of_def settled_payload_def dget_fold_stick split: option.split)
qed

lemma public_update:
  assumes "public_activity tx p" "activity_field tx k v"
  shows "public_activity tx (AList.update k v p)"
  using assms by (induction p) (auto simp: public_activity_def)

lemma public_stick:
  assumes "public_activity tx prev" "public_activity tx p"
  shows "public_activity tx (stick prev k p)"
proof (cases "truthy (dget prev k)")
  case True
  then have "(k, dget prev k) \<in> set prev" by (auto simp: dget_def dest: map_of_SomeD split: option.splits)
  then have "activity_field tx k (dget prev k)" using assms(1) by (auto simp: public_activity_def list_all_iff)
  then show ?thesis using True assms(2) by (simp add: stick_def public_update)
qed (simp add: stick_def assms)

lemma public_fold_stick:
  "public_activity tx prev \<Longrightarrow> public_activity tx p \<Longrightarrow> public_activity tx (fold (stick prev) ks p)"
  by (induction ks arbitrary: p) (simp_all add: public_stick)

definition tool_shown :: "pydict \<Rightarrow> bool" where
  "tool_shown p \<longleftrightarrow> dget p ''kind'' \<noteq> PStr ''summarizing_results''"

definition compatible :: "pydict \<Rightarrow> pydict \<Rightarrow> bool" where
  "compatible e f \<longleftrightarrow>
     (\<forall>p q. e = activity_event p \<longrightarrow> f = activity_event q \<longrightarrow> tool_shown p \<longrightarrow> tool_shown q \<longrightarrow>
        activity_id_of p = activity_id_of q \<longrightarrow> agrees p q)"

text \<open>The invariant of the loop of \<open>public_step_detail\<close>.\<close>

definition detail_ok :: "texts \<Rightarrow> detail_state \<Rightarrow> bool" where
  "detail_ok tx st \<longleftrightarrow>
     sorted_wrt compatible (out_events st)
     \<and> (\<forall>e \<in> set (out_events st). dget e ''event_type'' = PStr ''activity.recorded'' \<longrightarrow>
          (\<exists>p. e = activity_event p \<and> public_activity tx p))
     \<and> (\<forall>p. activity_event p \<in> set (out_events st) \<longrightarrow> tool_shown p \<longrightarrow>
          (\<exists>q. map_of (activity_by_id st) (activity_id_of p) = Some q \<and> agrees p q))
     \<and> (\<forall>(i, q) \<in> set (activity_by_id st). public_activity tx q)"

lemma detail_ok_context [simp]:
  "detail_ok tx (st\<lparr>has_business_result := b, summary_context := c\<rparr>) = detail_ok tx st"
  by (simp add: detail_ok_def)

lemma new_detail_ok: "detail_ok tx new_detail"
  by (simp add: detail_ok_def new_detail_def)

lemma set_update_subset: "set (AList.update k v xs) \<subseteq> insert (k, v) (set xs)"
  by (induction xs) auto

lemma detail_ok_activity:
  assumes ok: "detail_ok tx st" and p: "public_activity tx p0"
  shows "detail_ok tx (note_activity p0 st)"
proof -
  let ?p = "settled_payload (activity_by_id st) p0"
  let ?st = "st\<lparr>activity_by_id := AList.update (activity_id_of p0) ?p (activity_by_id st),
                out_events := out_events st @ [activity_event ?p]\<rparr>"
  have prev: "agrees q ?p" if "map_of (activity_by_id st) (activity_id_of p0) = Some q" for q
    by (rule settled_agrees) (rule that)
  have earlier: "agrees p ?p" if "activity_event p \<in> set (out_events st)" "tool_shown p"
    "activity_id_of p = activity_id_of p0" for p
  proof -
    from ok that obtain q where "map_of (activity_by_id st) (activity_id_of p0) = Some q" "agrees p q"
      by (auto simp: detail_ok_def)
    then show ?thesis using prev agrees_trans by blast
  qed
  have public: "public_activity tx ?p"
  proof (cases "map_of (activity_by_id st) (activity_id_of p0)")
    case (Some q)
    then have "public_activity tx q" using ok by (auto simp: detail_ok_def dest!: map_of_SomeD)
    then show ?thesis using p Some by (simp add: settled_payload_def public_fold_stick)
  qed (simp add: settled_payload_def p)
  have "sorted_wrt compatible (out_events ?st)"
  proof -
    have "compatible e (activity_event ?p)" if "e \<in> set (out_events st)" for e
      using that by (simp add: compatible_def) (blast intro: earlier)
    then show ?thesis using ok by (simp add: detail_ok_def sorted_wrt_append)
  qed
  moreover have "\<exists>q. map_of (activity_by_id ?st) (activity_id_of p) = Some q \<and> agrees p q"
    if "activity_event p \<in> set (out_events ?st)" "tool_shown p" for p
    using ok that earlier [of p] by (auto simp: detail_ok_def update_conv')
  moreover have "public_activity tx q" if "(i, q) \<in> set (activity_by_id ?st)" for i q
    using that ok public set_update_subset [of "activity_id_of p0" ?p "activity_by_id st"]
    by (auto simp: detail_ok_def)
  ultimately have "detail_ok tx ?st"
    unfolding detail_ok_def using ok public by (auto simp: detail_ok_def)
  then show ?thesis by (simp add: note_activity_def Let_def)
qed

lemma detail_ok_other:
  assumes "detail_ok tx st" "dget e ''event_type'' = PStr ''activity.recorded'' \<longrightarrow>
      (\<exists>p. e = activity_event p \<and> public_activity tx p \<and> \<not> tool_shown p)"
  shows "detail_ok tx (st\<lparr>out_events := out_events st @ [e]\<rparr>)"
proof -
  have no_tool: "\<not> tool_shown p" if "e = activity_event p" for p
    using assms(2) that by auto
  show ?thesis
    using assms no_tool unfolding detail_ok_def by (auto simp: sorted_wrt_append compatible_def)
qed

lemma summary_public:
  "\<exists>p. summary_activity_event repr ''completed'' ctx = activity_event p \<and> public_activity tx p \<and> \<not> tool_shown p"
proof -
  let ?h = "[(''id'', PStr ''summarize-results''), (''kind'', PStr ''summarizing_results''),
        (''stage_kind'', PStr ''result_analysis''), (''status'', PStr ''completed'')]"
  have "public_activity tx ?h"
  proof -
    have f: "activity_field tx ''id'' (PStr ''summarize-results'')" "activity_field tx ''kind'' (PStr ''summarizing_results'')"
      "activity_field tx ''stage_kind'' (PStr ''result_analysis'')" "activity_field tx ''status'' (PStr ''completed'')"
      by (rule field_rules, simp add: safe_name_def is_alnum_def ACTIVITY_KINDS_def)+
    then show ?thesis by (simp add: public_activity_def)
  qed
  then have "public_activity tx (?h @ text_field_if ''order_ref'' (safe_order_reference repr (dget ctx ''order_ref'')))"
    unfolding public_append using order_field_public by blast
  moreover have "\<not> tool_shown (?h @ q)" for q by (simp add: tool_shown_def)
  ultimately show ?thesis unfolding summary_activity_event_def by blast
qed

lemma detail_ok_item:
  assumes "detail_ok tx st" "detail_item tx v st = Inr st'"
  shows "detail_ok tx st'"
proof (cases v)
  case (PDict d)
  from assms(2) [unfolded PDict detail_item_def] obtain final where
    "final \<and> st' = st\<lparr>out_events := out_events st
                   @ [summary_activity_event (repr_of tx) ''completed'' (summary_context st)]\<rparr>
     \<or> (\<exists>e. sanitize_runtime_event tx (PDict d) = Inr e \<and> st' = (case e of None \<Rightarrow> st | Some e \<Rightarrow> note_event e st))"
    by (auto simp: rbind_Inr_iff split: if_splits)
  then show ?thesis
  proof (elim disjE exE conjE)
    assume "st' = st\<lparr>out_events := out_events st
                   @ [summary_activity_event (repr_of tx) ''completed'' (summary_context st)]\<rparr>"
    then show ?thesis using detail_ok_other [OF assms(1)] summary_public by blast
  next
    fix r assume r: "sanitize_runtime_event tx (PDict d) = Inr r" "st' = (case r of None \<Rightarrow> st | Some e \<Rightarrow> note_event e st)"
    show ?thesis
    proof (cases r)
      case (Some e)
      from r(1) [unfolded Some] show ?thesis
      proof (rule runtime_event_cases)
        fix p assume "e = activity_event p" "public_activity tx p"
        then show ?thesis using r(2) Some assms(1) by (simp add: note_event_def detail_ok_activity)
      next
        assume "dget e ''event_type'' \<noteq> PStr ''activity.recorded''"
        then show ?thesis using r(2) Some assms(1) detail_ok_other by (simp add: note_event_def)
      qed
    qed (use r(2) assms(1) in simp)
  qed
qed (use assms(2) in \<open>simp_all add: detail_item_def\<close>)

lemma detail_ok_items: "detail_ok tx st \<Longrightarrow> detail_items tx vs st = Inr st' \<Longrightarrow> detail_ok tx st'"
  by (induction vs arbitrary: st) (auto simp: rbind_Inr_iff dest: detail_ok_item)


definition sample_texts :: texts where
  "sample_texts = \<lparr>repr_of = \<lambda>_. [], iso_day = \<lambda>s. if s = ''2026-01-02'' then Some s else None\<rparr>"

definition sample_item :: "string \<Rightarrow> py list \<Rightarrow> py" where
  "sample_item ending args = PDict [(''runtime_scope'', PStr ''general_chat''),
     (''agent_event'', PStr (''tool.run_skill_script.'' @ ending)), (''invocation_id'', PStr ''c1''),
     (''args_redacted'', PList args)]"

lemmas activity_eval = sample_texts_def sample_item_def public_step_detail_def detail_item_def is_final_answer_def
  sanitize_runtime_event_def plain_event_def sanitize_tool_activity_def text_cut_def rpartition_dot_def
  TOOL_ACTIVITY_STATUSES_def safe_activity_id_def py_strip_def is_space_def is_ascii_def is_alnum_def
  tool_activity_kind_def script_kind_def contains_command_def lowered_def lower_char_def asks_help_def
  activity_payload_def activity_stage_kind_def date_fields_def date_argument_def replace_Z_def text_field_if_def
  order_reference_argument_def argument_after_def safe_order_reference_def note_event_def note_activity_def
  settled_payload_def activity_id_of_def sticky_keys_def stick_def is_business_result_def
  BUSINESS_ACTIVITY_KINDS_def new_detail_def py_or_def Let_def

lemma sample_steps:
  "\<exists>p q. public_step_detail sample_texts (PDict [(''events'', PList
       [sample_item ''start'' [PStr ''order'', PStr ''list'', PStr ''--start'', PStr ''2026-01-02''],
        sample_item ''done'' []])]) = Inr [activity_event p, activity_event q]
     \<and> dget p ''kind'' = PStr ''query_orders'' \<and> dget p ''start_date'' = PStr ''2026-01-02''
     \<and> dget q ''kind'' = PStr ''query_orders'' \<and> activity_id_of p = ''c1'' \<and> activity_id_of q = ''c1''"
  by (simp add: activity_eval)


end
