(* ===== verification/Spec2Isabelle.thy ===== *)
theory Spec2Isabelle
  imports SL_Prelude Execution_Queue Run_Limits Stop_Fence Session_Lifecycle Run_Views
    Evidence_Paging Review_Honesty Gate_Bounds Planned_Answers Alert_Sources
    Capability_Properties Checkpoint_Resume Run_Outcome
    Trace_Delivery Outbox_Reconnect Citation_Properties Activity_Properties
begin

text \<open>
  SourceLens: node and control-plane core.

  SourceLens answers questions about code and data. A control plane (a Django project under
  \<open>src/backend/lens\<close>) keeps sessions, runs and their events in a database and hands runs to
  nodes; a node (\<open>src/lensnode/lensnode\<close>) runs a language-model agent with tools and streams
  output, steps, trace events and one terminal frame back over a WebSocket. This development
  models the parts of both that decide what happens to a run, and proves what they promise.

  \<^bold>\<open>Shared vocabulary.\<close> \<open>SL_Prelude\<close> holds Python's values (\<open>py\<close>: JSON-like data, floats as
  exact rationals with the three special values, dictionaries as association lists in insertion
  order), raised exceptions (\<open>exn\<close>) as the left side of \<open>'a res\<close>, the coercions the source applies
  (\<open>int\<close>, \<open>float\<close>, \<open>str\<close>, truth, \<open>or\<close>, membership in a set, which raises on lists and
  dictionaries), and the interfaces as locales: \<open>step_invariant\<close>, \<open>settled_view\<close>, \<open>at_least_once\<close>,
  \<open>absorbing_log\<close>, \<open>usage_meter\<close>. Each is interpreted in the theories of the components that
  implement it. Texts are ASCII, so characters are bytes. Time is one clock in microseconds.

  \<^bold>\<open>The control plane.\<close>
  \<^item> \<open>Run_Model\<close>: the tables for runs, executions, steps, files, nodes and sessions
    (\<open>models.py\<close>) as one record \<open>db\<close>, the settings and lookups the services read (\<open>env\<close>), and the
    resume deadline (\<open>services.py\<close>). Rows are numbered; a table is a map with its list of keys.
  \<^item> \<open>Run_Lifecycle\<close>: acknowledgements, step events, streamed output, terminal frames with
    everything they settle, delegated children, promotion, cancellation (\<open>services.py\<close>,
    \<open>views/admin_runs.py\<close>, \<open>views/sessions.py\<close>). \<open>transaction.atomic\<close> is \<open>or_same\<close>: an exception
    leaves the tables; the append of output has no transaction and keeps what it saved.
    On-commit work (broker messages, Celery tasks) is appended to \<open>effects\<close> in order.
  \<^item> \<open>Run_Recovery\<close>: parking, resuming, reconciling, expiry and the periodic cleanup
    (\<open>services.py\<close>, \<open>tasks.py\<close>), and \<open>run_event_step\<close>, one step per operation.
  \<^item> \<open>Run_Verdicts\<close>, \<open>Run_Properties\<close>: a settled row is never rewritten, the tables stay
    consistent, and what each operation leaves behind.
  \<^item> \<open>Citations\<close>, \<open>Citation_Properties\<close> (\<open>citations.py\<close>); \<open>Runtime_Events\<close>, \<open>Event_Properties\<close>,
    \<open>Activity_Properties\<close> (\<open>runtime_events.py\<close>): the sanitizers of what nodes report.
    \<open>Run_Lifecycle\<close> applies them (\<open>clean_frame\<close>); \<open>Run_Views\<close> shows that a settled run can be shown.
  \<^item> \<open>Run_Trace\<close>, \<open>Trace_Log\<close> (\<open>run_trace.py\<close> and its handler in \<open>consumers.py\<close>): validation and
    idempotent append of trace events, refining an abstract append-only log.
  \<^item> \<open>Session_Lifecycle\<close> (\<open>session_lifecycle.py\<close>).
  \<^item> \<open>Alert_Rules\<close>, \<open>Alert_Delivery\<close>, \<open>Alert_Sources\<close> (\<open>alerts.py\<close>, \<open>alert_diagnostics.py\<close>,
    \<open>messages.py\<close>, \<open>signals.py\<close>, the dispatcher of \<open>tasks.py\<close>, the retry of \<open>views/alerts.py\<close>): which
    occurrences match which rules, the outbox, deliveries with their claim lease, and diagnoses. Sending
    holds no lock, so a delivery job is four steps that interleave with everything else.
    \<open>Alert_Properties\<close> has the invariant, \<open>Alert_Promises\<close> what it gives: an accepted alert is final,
    none is stuck, messages go to current recipients only; a captured task or run can always be
    evaluated. The texts of notifications, the model's diagnosis, and the recovery of sources that
    bypassed the outbox are left out.

  \<^bold>\<open>The node.\<close>
  \<^item> \<open>Execution_Queue\<close> (\<open>execution_queue.py\<close>): admission by class, capacity and exclusion;
    \<open>acquire\<close> is its entry and its cancellation, since the await is between them.
  \<^item> \<open>Run_Limits\<close> (\<open>agent_runtime/limits.py\<close>), \<open>Stop_Fence\<close> (\<open>conversion_stop.py\<close>).
  \<^item> \<open>Tool_Errors\<close>, \<open>Capability_Boundary\<close>, \<open>Capability_Properties\<close> (\<open>gateway_model.py\<close>,
    \<open>agent_runtime/messages.py\<close>, \<open>agent_runtime/capabilities.py\<close>): the gate around each tool call.
  \<^item> \<open>Answer_Review\<close>, \<open>Run_Outcome\<close> (\<open>agent_runtime/evidence_gate.py\<close>, \<open>outcomes.py\<close>): the status of
    a review and how a run ends.
  \<^item> \<open>Tool_Evidence\<close>, \<open>Evidence_Paging\<close> (\<open>tool_evidence.py\<close>, whole): snapshots of source results, the
    paged reader, the completion check. The files under the store's root are the record
    \<open>ev_store\<close>. The completion check is silent only when every record was handed out; paging
    gets there; pages are bounded; a saved snapshot answers repeated calls.
  \<^item> \<open>Review_Material\<close>, \<open>Review_Sharing\<close>, \<open>Review_Honesty\<close> (\<open>agent_runtime/evidence_material.py\<close>): the
    text a reviewer is given. \<open>reads_as\<close> is the meaning of the instructions the text carries;
    sharing is lossless under it, and material that was cut says so.
  \<^item> \<open>Evidence_Gate\<close>, \<open>Gate_Bounds\<close> (\<open>agent_runtime/evidence_gate.py\<close>): what the middleware does
    before each model call and after each proposed answer. \<open>gate_loop\<close> composes the two as the agent
    framework calls them; the model's messages and the verdicts of the gates are its input.
  \<^item> \<open>Retrieval_Plan\<close>, \<open>Evidence_Bundle\<close>, \<open>Evidence_Retrieval\<close>, \<open>Evidence_Limits\<close>
    (\<open>planned_evidence.py\<close>, whole): plans of an untrusted planner, parsed and bounded; evidence items,
    their merging, ranking and packing into a bundle of limited size; the executor with its budgets;
    citations checked against the bundle. The tools, the file system, SHA-1, JSON text and
    the order in which parallel calls complete are arguments. A retrieval stays within its limits
    whatever the tools answer, and a bundle within its token budget.
  \<^item> \<open>Planned_Run\<close>, \<open>Planned_Answers\<close> (\<open>agent_runtime/runtime.py\<close>, \<open>_run_planned_code_analysis\<close>): the
    planned analysis from plan to answer. The replies of the planner, the reviewer and the writer are
    arguments (\<open>planned_replies\<close>); prompts, fixed texts and the presentation of paths are left
    out. Whatever the models reply, each citation is traced to a read of the run's workspace.
  \<^item> \<open>Checkpoint_Resume\<close> (\<open>checkpoint.py\<close>, \<open>agent_runtime/resume.py\<close>): stored runtime state,
    ancestry, retention, and which interrupted tool calls may be replayed.
  \<^item> \<open>Trajectory\<close>, \<open>Trajectory_Properties\<close> (\<open>trajectory.py\<close>): numbering, calls and spans.
  \<^item> \<open>Node_Outbox\<close>, \<open>Outbox_Properties\<close>, \<open>Outbox_Reconnect\<close> (\<open>main.py\<close>): the bounded outbound
    queue, acknowledgements and reconnects; sending is a start and one of three ends, because the
    frame is out of the queue meanwhile.
  \<^bold>\<open>Across components.\<close> \<open>Trace_Delivery\<close> composes the node's trajectory with the control plane's
  log; \<open>Planned_Answers\<close> composes the node's planned answers with the control plane's sanitizer of
  citations; this theory composes the gate with the checkpoint it is restored from, and the node's
  retention with the control plane's resume deadline.

  \<^bold>\<open>Loops.\<close> Recursions over data are structural or have a measure (\<open>termination\<close>): the search of
  active descendants and of checkpoint ancestors by the keys not yet visited, the removal of
  markers by the length of the text, the search for a page by its interval, the cutting of review
  material and the decoding of nested JSON by its weight. There is no fuel: every operation is total, and raising is a
  value.

  \<^bold>\<open>Parameters.\<close> What is not in the repository is an argument: the LangGraph saver, Django's
  \<open>parse_datetime\<close>, the calendar of \<open>datetime.fromisoformat\<close>, digests, JSON text, generated identifiers, the
  contracts of Plugins, the text of floats and containers (\<open>render\<close>, \<open>value_text\<close>, \<open>repr_of\<close>), and the answers of tools.

  \<^bold>\<open>Not modelled.\<close> Network and database drivers, the agent framework, prompts and calls to
  language models (the review input of \<open>_verify\<close> and \<open>_tool_evidence\<close> included), subprocess tools, datasource synchronisation and document conversion (file,
  Git and converter input and output), request validation by the web framework, dispatch of new
  runs, logging and measured durations. Concurrency inside one operation is modelled only where
  the source releases its lock or awaits.
\<close>

section \<open>Retention and the resume deadline\<close>

text \<open>The node advertises its retention as a label; the control plane caps its deadline by it.\<close>

lemma round_half_even_le: "x < of_int m \<Longrightarrow> round_half_even x \<le> m"
  unfolding round_half_even_def Let_def by (auto simp: floor_less_iff) linarith+

lemma ttl_hours_capped:
  assumes "node_labels nd = PDict labels"
    and "dget_default labels ''run_checkpoint_ttl_hours'' (PInt 24) = PFloat (Fin (checkpoint_ttl_hours raw))"
  shows "get_awaiting_resume_ttl_hours en (Some nd) \<le> checkpoint_ttl_hours raw"
proof -
  have "1 \<le> checkpoint_ttl_hours raw"
    by (simp add: checkpoint_ttl_hours_def split: option.split pyfloat.split)
  then show ?thesis
    using assms by (simp add: get_awaiting_resume_ttl_hours_def Let_def)
qed

lemma round_half_even_mono: "x \<le> y \<Longrightarrow> round_half_even x \<le> round_half_even y"
proof -
  assume le: "x \<le> y"
  then have "\<lfloor>x\<rfloor> \<le> \<lfloor>y\<rfloor>" by (rule floor_mono)
  then consider "\<lfloor>x\<rfloor> + 1 \<le> \<lfloor>y\<rfloor>" | "\<lfloor>x\<rfloor> = \<lfloor>y\<rfloor>" by linarith
  then show ?thesis
    by cases (use le in \<open>auto simp: round_half_even_def Let_def\<close>)
qed

lemma resume_deadline_capped:
  assumes "run_node r = Some nk" "nodes db nk = Some nd"
  shows "get_run_resume_deadline en now db k r \<le> now + hours (get_awaiting_resume_ttl_hours en (Some nd))"
  using assms by (simp add: get_run_resume_deadline_def Let_def split: option.split)

text \<open>C23.
  A checkpoint outlives the resume it was promised for: when the node's retention sweep deletes
  the thread of a run whose control plane parked it at \<open>parked\<close> with the node's own retention as
  its label, the deadline handed out then is over by as much as the node marked the thread
  before or after that moment; so whenever the mark is not older than the parking, no resume
  the control plane still allows can find its checkpoint deleted.
\<close>

theorem checkpoint_outlives_resume_deadline:
  assumes label: "run_node r = Some nk" "nodes db nk = Some nd" "node_labels nd = PDict labels"
      "dget_default labels ''run_checkpoint_ttl_hours'' (PInt 24) = PFloat (Fin (checkpoint_ttl_hours raw))"
    and swept: "run \<in> set (fst (cleanup_expired_checkpoints (checkpoint_ttl_hours raw) now live rows))"
    and row: "map_of rows run = Some m" "md_orphaned m = Some mark" "distinct (map fst rows)"
  shows "get_run_resume_deadline en parked db k r \<le> now + (parked - mark) \<and> run \<notin> live"
proof -
  let ?ttl = "checkpoint_ttl_hours raw"
  from swept [unfolded cleanup_deletes] obtain m' t where idle: "run \<notin> live" "(run, m') \<in> set rows"
    "md_orphaned m' = Some t" and old: "(of_int t :: rat) < of_int now - ?ttl * 3600000000" by blast
  have "m' = m" using idle(2) row(1,3) by simp
  then have "?ttl * 3600000000 < of_int (now - mark)" using old idle(3) row(2) by simp
  then have "hours ?ttl \<le> now - mark" unfolding hours_def by (rule round_half_even_le)
  moreover have "hours (get_awaiting_resume_ttl_hours en (Some nd)) \<le> hours ?ttl"
    unfolding hours_def
    by (intro round_half_even_mono mult_right_mono ttl_hours_capped [OF label(3,4)]) simp
  ultimately show ?thesis
    using resume_deadline_capped [OF label(1,2), of en parked k] idle(1) by simp
qed

definition ttl_node :: node where
  "ttl_node = \<lparr>node_status = NODE_OFFLINE, node_labels = PDict [(''run_checkpoint_ttl_hours'', PFloat (Fin 2))],
     node_updated_at = 0, disconnected_at = None\<rparr>"

definition ttl_db :: db where
  "ttl_db = (sample_db RUN_RUNNING None)\<lparr>nodes := (\<lambda>n. if n = 9 then Some ttl_node else None)\<rparr>"

theorem checkpoint_outlives_resume_deadline_witness:
  "get_run_resume_deadline sample_env 5 ttl_db 1 (sample_run RUN_RUNNING None None) \<le> 7200000020 + (5 - 10)
   \<and> ''r'' \<notin> {}"
proof (rule checkpoint_outlives_resume_deadline)
  show "run_node (sample_run RUN_RUNNING None None) = Some 9" by (simp add: sample_run_def)
  show "nodes ttl_db 9 = Some ttl_node" by (simp add: ttl_db_def)
  show "node_labels ttl_node = PDict [(''run_checkpoint_ttl_hours'', PFloat (Fin 2))]" by (simp add: ttl_node_def)
  show "dget_default [(''run_checkpoint_ttl_hours'', PFloat (Fin 2))] ''run_checkpoint_ttl_hours'' (PInt 24) =
      PFloat (Fin (checkpoint_ttl_hours ''2''))"
    by code_simp
  show "''r'' \<in> set (fst (cleanup_expired_checkpoints (checkpoint_ttl_hours ''2'') 7200000020 {}
      [(''r'', sample_meta\<lparr>md_orphaned := Some 10\<rparr>)]))"
    by code_simp
  show "map_of [(''r'', sample_meta\<lparr>md_orphaned := Some 10\<rparr>)] ''r'' = Some (sample_meta\<lparr>md_orphaned := Some 10\<rparr>)"
    by simp
qed simp_all

section \<open>The execution gate of a resumed run\<close>

lemma restored_gate_admits:
  "call_admitted cfg (g\<lparr>failure_counts := f, gate_events := e\<rparr>) c = call_admitted cfg g c"
  by (simp add: call_admitted_def requires_initial_plan_def is_blocked_def tool_budget_reached_def Let_def)

text \<open>C14.
  A resumed run neither gets its tool calls back nor forgets what was blocked: take the gate
  as it stands after any tool calls of the run, let the node save its exported state at a
  snapshot and load the resume state at that snapshot or a later one of the thread; restoring
  that state into the fresh gate of the resumed run succeeds, and the restored gate has the same
  count, the same evidence, failures and blocks, reads every failure counter the same, and
  admits exactly the calls the interrupted gate would have admitted.
\<close>

theorem resumed_gate_continues:
  assumes gate: "g = foldl (gate_step cfg handler) new_gate calls"
    and saved: "save_runtime_state now run (Some s) updates rows = Inr rows'"
      "map_of updates ''capability_state'' = Some (Some (PDict (export_state g)))"
    and row: "map_of rows run = Some r" "md_route r = Some route" "md_gates r = Some (PDict d)"
    and distinct: "distinct (map fst updates)"
    and saver: "saver_answers look" "look (snap_id h) = Some h" "on_chain look h (snap_id s)"
    and step: "snap_step h = PInt n"
    and trace: "validated_trace_state (saved_part updates r ''trace_state'') = Inr t"
  shows "\<exists>st g'. load_resume_state True look (Some h) run rows' = Some (Inr st)
     \<and> restore_state (rs_capability st) new_gate = Inr g'
     \<and> tool_call_count g' = tool_call_count g \<and> successful_evidence g' = successful_evidence g
     \<and> failure_records g' = failure_records g \<and> blocked_requests g' = blocked_requests g
     \<and> blocked_sources g' = blocked_sources g \<and> gate_termination g' = gate_termination g
     \<and> (\<forall>key. cget (failure_counts g') key = cget (failure_counts g) key)
     \<and> (\<forall>c. call_admitted cfg g' c = call_admitted cfg g c)"
proof -
  have wf: "gate_wf g" unfolding gate by (rule gate_shape.inv_run [OF new_gate_wf])
  let ?g = "g\<lparr>failure_counts := sort_key fst (failure_counts g), gate_events := gate_events new_gate\<rparr>"
  obtain st where st: "load_resume_state True look (Some h) run rows' = Some (Inr st)"
    "rs_capability st = py_or (saved_part updates r ''capability_state'') (PDict [])"
    using load_after_save [OF saved(1) row distinct saver step trace] by blast
  then have "rs_capability st = PDict (export_state g)"
    using saved(2) by (simp add: saved_part_def py_or_def export_state_def)
  then have "restore_state (rs_capability st) new_gate = Inr ?g"
    using restore_export [OF wf] by simp
  moreover have "\<forall>c. call_admitted cfg ?g c = call_admitted cfg g c"
    using restored_gate_admits by blast
  moreover have "\<forall>key. cget (failure_counts ?g) key = cget (failure_counts g) key"
    using restored_counts [OF wf] by simp
  ultimately show ?thesis using st(1) by (intro exI [of _ st] exI [of _ ?g]) simp
qed

definition interrupted :: gate where
  "interrupted = foldl (gate_step quiet_config refused) new_gate [skill_call]"

definition interrupted_updates :: "(string \<times> py option) list" where
  "interrupted_updates = [(''capability_state'', Some (PDict (export_state interrupted))), (''trace_state'', None)]"

theorem resumed_gate_continues_witness:
  "\<exists>st g'. load_resume_state True sample_saver (Some (sample_snapshot ''b'' (Some ''a''))) ''r''
       [(''r'', bind_checkpoint 7 ''a'' (sample_meta\<lparr>md_runtime := Some (PDict (merge_payload interrupted_updates
          (case md_runtime sample_meta of Some (PDict d) \<Rightarrow> d | _ \<Rightarrow> [])))\<rparr>))] = Some (Inr st)
     \<and> restore_state (rs_capability st) new_gate = Inr g' \<and> tool_call_count g' = tool_call_count interrupted"
proof -
  have saved: "save_runtime_state 7 ''r'' (Some (sample_snapshot ''a'' (Some ''b''))) interrupted_updates [(''r'', sample_meta)] =
      Inr [(''r'', bind_checkpoint 7 ''a'' (sample_meta\<lparr>md_runtime := Some (PDict (merge_payload interrupted_updates
          (case md_runtime sample_meta of Some (PDict d) \<Rightarrow> d | _ \<Rightarrow> [])))\<rparr>))]"
    by (simp add: save_runtime_state_def sample_snapshot_def config_checkpoint_id_def)
  have row: "map_of [(''r'', sample_meta)] ''r'' = Some sample_meta"
    "md_route sample_meta = Some (PStr ''skill'')" "md_gates sample_meta = Some (PDict [])"
    by (simp_all add: sample_meta_def)
  have upd: "map_of interrupted_updates ''capability_state'' = Some (Some (PDict (export_state interrupted)))"
    "distinct (map fst interrupted_updates)"
    by (simp_all add: interrupted_updates_def)
  have saver: "sample_saver (snap_id (sample_snapshot ''b'' (Some ''a''))) = Some (sample_snapshot ''b'' (Some ''a''))"
    "on_chain sample_saver (sample_snapshot ''b'' (Some ''a'')) (snap_id (sample_snapshot ''a'' (Some ''b'')))"
    "snap_step (sample_snapshot ''b'' (Some ''a'')) = PInt 3"
    using sample_chain by (simp_all add: sample_saver_def sample_snapshot_def)
  have trace: "validated_trace_state (saved_part interrupted_updates sample_meta ''trace_state'') = Inr fresh_trace"
    by (simp add: saved_part_def interrupted_updates_def sample_meta_def dget_def validated_trace_state_def)
  show ?thesis
    using resumed_gate_continues [OF interrupted_def saved upd(1) row upd(2) sample_saver_answers saver trace] by blast
qed

end
